(* ===== verification/Prelude.thy ===== *)
theory Prelude
  imports Main "HOL-Library.Word"
begin

text \<open>
  What the components share: the result type of a Go function that returns an error or
  panics, the operations on a mutable state that may fail halfway, the loops over them,
  and the text formats of the standard library (decimal and hexadecimal numerals).

  A Go string and a Go byte slice are both a \<open>string\<close>, a list of bytes; \<open>len\<close>
  of either is \<open>length\<close>. A nil slice is the empty list, except where the code
  compares a slice with nil: there the model has an \<open>option\<close>.
\<close>

named_theorems go_simps
  \<comment> \<open>how a sequence of fallible steps returns a value\<close>

type_synonym bytes = string
type_synonym u64 = "64 word"

section \<open>Errors as values\<close>

text \<open>
  \<open>Err\<close> is a returned error, with the constant part of its message; the context that
  \<open>errors.Wrap\<close> and its kin put around a cause is left out, so an error is its cause.
  \<open>Panic\<close> is a panic: it leaves every caller, as an error that is passed on does.
\<close>

datatype error = Err string | Panic string

type_synonym 'a res = "error + 'a"

definition rbind :: "'a res \<Rightarrow> ('a \<Rightarrow> 'b res) \<Rightarrow> 'b res" where
  "rbind m f = (case m of Inl e \<Rightarrow> Inl e | Inr a \<Rightarrow> f a)"

definition rcheck :: "bool \<Rightarrow> string \<Rightarrow> unit res" where
  "rcheck b msg = (if b then Inr () else Inl (Err msg))"

lemma rbind_Inl [simp]: "rbind (Inl e) f = Inl e"
  by (simp add: rbind_def)

lemma rbind_Inr [simp]: "rbind (Inr a) f = f a"
  by (simp add: rbind_def)

lemma rbind_eq_Inr [go_simps]: "rbind m f = Inr b \<longleftrightarrow> (\<exists>a. m = Inr a \<and> f a = Inr b)"
  by (cases m) auto

lemma rbind_eq_Inl [go_simps]:
  "rbind m f = Inl e \<longleftrightarrow> m = Inl e \<or> (\<exists>a. m = Inr a \<and> f a = Inl e)"
  by (cases m) auto

lemma rbind_assoc: "rbind (rbind m f) g = rbind m (\<lambda>a. rbind (f a) g)"
  by (cases m) auto

lemma rcheck_True [simp]: "rcheck True msg = Inr ()"
  by (simp add: rcheck_def)

lemma rcheck_False [simp]: "rcheck False msg = Inl (Err msg)"
  by (simp add: rcheck_def)

lemma rcheck_eq_Inr [go_simps]: "rcheck b msg = Inr u \<longleftrightarrow> b"
  by (simp add: rcheck_def)

lemma rcheck_eq_Inl [go_simps]: "rcheck b msg = Inl e \<longleftrightarrow> \<not> b \<and> e = Err msg"
  by (auto simp: rcheck_def)

text \<open>A nil pointer that is followed, and an index into a slice.\<close>

definition nil_pointer :: error where
  "nil_pointer = Panic ''invalid memory address or nil pointer dereference''"

definition deref :: "'a option \<Rightarrow> 'a res" where
  "deref p = (case p of None \<Rightarrow> Inl nil_pointer | Some a \<Rightarrow> Inr a)"

definition at :: "'a list \<Rightarrow> nat \<Rightarrow> 'a res" where
  "at xs i = (if i < length xs then Inr (xs ! i) else Inl (Panic ''index out of range''))"

lemma deref_eq [go_simps]: "deref p = Inr a \<longleftrightarrow> p = Some a"
  by (auto simp: deref_def split: option.splits)

lemma deref_Some [simp]: "deref (Some a) = Inr a"
  by (simp add: deref_def)

lemma at_eq_Inr: "at xs i = Inr a \<longleftrightarrow> i < length xs \<and> a = xs ! i"
  by (auto simp: at_def)

text \<open>A loop that builds a slice and returns at the first error.\<close>

fun rmap :: "('a \<Rightarrow> 'b res) \<Rightarrow> 'a list \<Rightarrow> 'b list res" where
  "rmap f [] = Inr []"
| "rmap f (x # xs) = rbind (f x) (\<lambda>y. rbind (rmap f xs) (\<lambda>ys. Inr (y # ys)))"

text \<open>A loop that updates an accumulator and returns at the first error.\<close>

fun rfold :: "('s \<Rightarrow> 'a \<Rightarrow> 's res) \<Rightarrow> 's \<Rightarrow> 'a list \<Rightarrow> 's res" where
  "rfold f s [] = Inr s"
| "rfold f s (x # xs) = rbind (f s x) (\<lambda>s'. rfold f s' xs)"

lemma rmap_eq_Inr_iff: "rmap f xs = Inr ys \<longleftrightarrow> list_all2 (\<lambda>x y. f x = Inr y) xs ys"
  by (induction xs arbitrary: ys) (auto simp: go_simps list_all2_Cons1)

lemma rmap_length: "rmap f xs = Inr ys \<Longrightarrow> length ys = length xs"
  by (simp add: rmap_eq_Inr_iff list_all2_lengthD)

lemma rmap_Inr [simp]: "rmap (\<lambda>x. Inr (f x)) xs = Inr (map f xs)"
  by (induction xs) auto

lemma rmap_cong [fundef_cong]:
  "xs = ys \<Longrightarrow> (\<And>x. x \<in> set ys \<Longrightarrow> f x = g x) \<Longrightarrow> rmap f xs = rmap g ys"
  by (induction ys arbitrary: xs) auto

lemma rfold_append: "rfold f s (xs @ ys) = rbind (rfold f s xs) (\<lambda>s'. rfold f s' ys)"
  by (induction xs arbitrary: s) (auto simp: rbind_assoc)

lemma rfold_invariant:
  assumes "rfold f s xs = Inr t" and "P s"
    and "\<And>s x t. x \<in> set xs \<Longrightarrow> P s \<Longrightarrow> f s x = Inr t \<Longrightarrow> P t"
  shows "P t"
  using assms by (induction xs arbitrary: s) (auto simp: go_simps)

section \<open>Operations on a state\<close>

text \<open>
  An operation reads and changes a state and returns a result or an error. An error keeps
  the changes made before it, as the code does.
\<close>

type_synonym ('s, 'a) oper = "'s \<Rightarrow> 'a res \<times> 's"

definition oret :: "'a \<Rightarrow> ('s, 'a) oper" where
  "oret a = (\<lambda>s. (Inr a, s))"

definition olift :: "'a res \<Rightarrow> ('s, 'a) oper" where
  "olift r = (\<lambda>s. (r, s))"

definition obind :: "('s, 'a) oper \<Rightarrow> ('a \<Rightarrow> ('s, 'b) oper) \<Rightarrow> ('s, 'b) oper" where
  "obind m f = (\<lambda>s. case m s of (Inl e, t) \<Rightarrow> (Inl e, t) | (Inr a, t) \<Rightarrow> f a t)"

definition ocheck :: "bool \<Rightarrow> string \<Rightarrow> ('s, unit) oper" where
  "ocheck b msg = olift (rcheck b msg)"

fun ofor :: "('a \<Rightarrow> ('s, unit) oper) \<Rightarrow> 'a list \<Rightarrow> ('s, unit) oper" where
  "ofor f [] = oret ()"
| "ofor f (x # xs) = obind (f x) (\<lambda>_. ofor f xs)"

lemma oret_apply [simp]: "oret a s = (Inr a, s)"
  by (simp add: oret_def)

lemma olift_apply [simp]: "olift r s = (r, s)"
  by (simp add: olift_def)

lemma obind_apply:
  "obind m f s = (case m s of (Inl e, t) \<Rightarrow> (Inl e, t) | (Inr a, t) \<Rightarrow> f a t)"
  by (simp add: obind_def)

lemma obind_eq_Inr [go_simps]:
  "obind m f s = (Inr b, u) \<longleftrightarrow> (\<exists>a t. m s = (Inr a, t) \<and> f a t = (Inr b, u))"
  by (auto simp: obind_def split: prod.splits sum.splits)

lemma obind_eq_Inl [go_simps]:
  "obind m f s = (Inl e, u) \<longleftrightarrow> m s = (Inl e, u) \<or> (\<exists>a t. m s = (Inr a, t) \<and> f a t = (Inl e, u))"
  by (auto simp: obind_def split: prod.splits sum.splits)

lemma ocheck_eq_Inr [go_simps]: "ocheck b msg s = (Inr u, t) \<longleftrightarrow> b \<and> t = s"
  by (auto simp: ocheck_def go_simps)

lemma ocheck_eq_Inl [go_simps]: "ocheck b msg s = (Inl e, t) \<longleftrightarrow> \<not> b \<and> e = Err msg \<and> t = s"
  by (auto simp: ocheck_def go_simps)

text \<open>A property of the state that every iteration keeps holds after the loop.\<close>

lemma ofor_invariant:
  assumes "ofor f xs s = (Inr (), t)" and "P s"
    and "\<And>x s t. x \<in> set xs \<Longrightarrow> P s \<Longrightarrow> f x s = (Inr (), t) \<Longrightarrow> P t"
  shows "P t"
  using assms by (induction xs arbitrary: s) (auto simp: go_simps)


text \<open>Every iteration of a loop that succeeds has succeeded, in a state reached by the ones before.\<close>

lemma ofor_each:
  assumes "ofor f xs s = (Inr (), t)" and "x \<in> set xs" and "P s"
    and "\<And>x s t. x \<in> set xs \<Longrightarrow> P s \<Longrightarrow> f x s = (Inr (), t) \<Longrightarrow> P t"
  shows "\<exists>u v. P u \<and> f x u = (Inr (), v)"
  using assms
proof (induction xs arbitrary: s)
  case (Cons y ys)
  from Cons.prems(1) obtain u where u: "f y s = (Inr (), u)" and r: "ofor f ys u = (Inr (), t)"
    by (auto simp: go_simps)
  show ?case
  proof (cases "x = y")
    case True
    with u Cons.prems show ?thesis by blast
  next
    case False
    then have "x \<in> set ys" using Cons.prems(2) by simp
    moreover have "P u" by (rule Cons.prems(4) [OF _ Cons.prems(3) u]) simp
    ultimately show ?thesis using Cons.IH [OF r] Cons.prems(4) by (meson list.set_intros(2))
  qed
qed simp

end
