(* ===== verification/Numerals.thy ===== *)
theory Numerals
  imports Prelude
begin

text \<open>
  The numerals of Go's standard library that the code prints and reads:
  \<open>strconv.FormatUint\<close>, \<open>strconv.ParseUint\<close> in base 10, \<open>big.Int.Text\<close>,
  \<open>big.Int.BitLen\<close> and \<open>big.Int.SetString\<close> with base 0 (the prefixes \<open>0x\<close>,
  \<open>0o\<close>, \<open>0b\<close> and \<open>0\<close>, a sign, and underscores between digits). Nothing
  here is code of the repository; the theories of the components use it.
\<close>

section \<open>Printing\<close>

fun digits :: "nat \<Rightarrow> nat \<Rightarrow> nat list" where
  "digits b n = (if b < 2 \<or> n < b then [n] else digits b (n div b) @ [n mod b])"

declare digits.simps [simp del]

definition digit_char :: "nat \<Rightarrow> char" where
  "digit_char d = (if d < 10 then char_of (48 + d) else char_of (87 + d))"

definition format_nat :: "nat \<Rightarrow> nat \<Rightarrow> string" where
  "format_nat b n = map digit_char (digits b n)"

definition eval_digits :: "nat \<Rightarrow> nat list \<Rightarrow> nat" where
  "eval_digits b ds = foldl (\<lambda>v d. v * b + d) 0 ds"

lemma eval_digits_Nil [simp]: "eval_digits b [] = 0"
  by (simp add: eval_digits_def)

lemma eval_digits_snoc [simp]: "eval_digits b (ds @ [d]) = eval_digits b ds * b + d"
  by (simp add: eval_digits_def)

lemma eval_digits_digits: "2 \<le> b \<Longrightarrow> eval_digits b (digits b n) = n"
proof (induction b n rule: digits.induct)
  case (1 b n)
  show ?case
  proof (cases "n < b")
    case True
    then show ?thesis by (simp add: digits.simps [of b n] eval_digits_def)
  next
    case False
    with 1 show ?thesis by (simp add: digits.simps [of b n])
  qed
qed

lemma digits_bound: "2 \<le> b \<Longrightarrow> d \<in> set (digits b n) \<Longrightarrow> d < b"
proof (induction b n rule: digits.induct)
  case (1 b n)
  then show ?case
    by (cases "n < b") (auto simp: digits.simps [of b n])
qed

lemma digits_nonempty [simp]: "digits b n \<noteq> []"
  by (subst digits.simps) simp

lemma digits_hd_pos: "2 \<le> b \<Longrightarrow> 0 < n \<Longrightarrow> 0 < hd (digits b n)"
proof (induction b n rule: digits.induct)
  case (1 b n)
  show ?case
  proof (cases "n < b")
    case True
    with 1 show ?thesis by (simp add: digits.simps [of b n])
  next
    case False
    then have "0 < n div b" using "1.prems" by (simp add: div_greater_zero_iff)
    with 1 False have "0 < hd (digits b (n div b))" by simp
    with 1 False show ?thesis by (simp add: digits.simps [of b n])
  qed
qed

section \<open>Digits as characters\<close>

text \<open>The value of a digit or a letter as the scanners read it; 63 for any other byte.\<close>

definition char_digit :: "char \<Rightarrow> nat" where
  "char_digit c = (let n = of_char c :: nat in
     if 48 \<le> n \<and> n \<le> 57 then n - 48
     else if 97 \<le> n \<and> n \<le> 122 then n - 87
     else if 65 \<le> n \<and> n \<le> 90 then n - 55
     else 63)"

lemma of_char_digit_char:
  "d < 36 \<Longrightarrow> of_char (digit_char d) = (if d < 10 then 48 + d else 87 + d)"
  by (simp add: digit_char_def)

lemma char_digit_digit_char [simp]: "d < 36 \<Longrightarrow> char_digit (digit_char d) = d"
  by (simp add: char_digit_def of_char_digit_char Let_def)

lemma digit_char_ge: "d < 36 \<Longrightarrow> 48 \<le> (of_char (digit_char d) :: nat)"
  by (simp add: of_char_digit_char)

lemma digit_char_neq:
  assumes "d < 36" and "of_char c < (48::nat) \<or> of_char c = (95::nat)"
  shows "digit_char d \<noteq> c"
proof
  assume "digit_char d = c"
  with of_char_digit_char [OF assms(1)] have "of_char c = (if d < 10 then 48 + d else 87 + d)"
    by simp
  with assms show False by (auto split: if_splits)
qed

lemma digit_char_not_underscore: "d < 36 \<Longrightarrow> digit_char d \<noteq> CHR ''_''"
  by (rule digit_char_neq) simp_all

lemma digit_char_not_sign: "d < 36 \<Longrightarrow> digit_char d \<noteq> CHR ''-'' \<and> digit_char d \<noteq> CHR ''+''"
  by (simp add: digit_char_neq)

lemma digit_char_not_nul: "d < 36 \<Longrightarrow> digit_char d \<noteq> CHR 0x00"
  by (simp add: digit_char_neq)

lemma digit_char_zero:
  assumes "d < 36"
  shows "digit_char d = CHR ''0'' \<longleftrightarrow> d = 0"
proof
  assume "digit_char d = CHR ''0''"
  then have "char_digit (digit_char d) = char_digit (CHR ''0'')" by simp
  moreover have "char_digit (CHR ''0'') = 0" by (simp add: char_digit_def)
  ultimately show "d = 0" using assms by simp
next
  assume "d = 0"
  then show "digit_char d = CHR ''0''" by (simp add: digit_char_def char_of_def bit_Suc_0_iff)
qed


section \<open>Printing, and reading it back\<close>

lemma set_format_nat:
  assumes "2 \<le> b" and "b \<le> 36" and "c \<in> set (format_nat b n)"
  obtains d where "d < 36" and "d < b" and "c = digit_char d"
  using assms digits_bound [OF assms(1)] unfolding format_nat_def
  by (metis imageE list.set_map order_less_le_trans)

lemma map_char_digit_format:
  assumes "2 \<le> b" and "b \<le> 36"
  shows "map char_digit (format_nat b n) = digits b n"
proof -
  have "\<forall>d \<in> set (digits b n). char_digit (digit_char d) = d"
    using assms digits_bound [OF assms(1)] by (meson char_digit_digit_char order_less_le_trans)
  then show ?thesis by (simp add: format_nat_def comp_def map_idI)
qed

lemma format_nat_inject:
  assumes "2 \<le> b" and "b \<le> 36"
  shows "format_nat b m = format_nat b n \<longleftrightarrow> m = n"
  by (metis assms eval_digits_digits map_char_digit_format)

lemma format_nat_nonempty [simp]: "format_nat b n \<noteq> []"
  by (simp add: format_nat_def)

text \<open>\<open>strconv.FormatUint(i, 10)\<close>.\<close>

definition FormatUint10 :: "u64 \<Rightarrow> string" where
  "FormatUint10 i = format_nat 10 (unat i)"

lemma FormatUint10_inject: "FormatUint10 i = FormatUint10 j \<longleftrightarrow> i = j"
  by (simp add: FormatUint10_def format_nat_inject word_unat_eq_iff)

text \<open>
  \<open>strconv.ParseUint(s, 10, 64)\<close>: digits only, at least one, and no more than the
  largest 64-bit value. Leading zeros are accepted.
\<close>

definition ParseUint10 :: "string \<Rightarrow> u64 res" where
  "ParseUint10 s =
     (let ds = map char_digit s; v = eval_digits 10 ds
      in if s = [] \<or> \<not> list_all (\<lambda>d. d < 10) ds then Inl (Err ''invalid syntax'')
         else if v < 2 ^ 64 then Inr (word_of_nat v) else Inl (Err ''value out of range''))"

lemma list_all_char_digit_format:
  assumes "2 \<le> b" and "b \<le> 36"
  shows "list_all (\<lambda>d. d < b) (map char_digit (format_nat b n))"
  using assms digits_bound by (auto simp: map_char_digit_format list_all_iff)

lemma ParseUint10_FormatUint10 [simp]: "ParseUint10 (FormatUint10 i) = Inr i"
proof -
  have "eval_digits 10 (digits 10 (unat i)) = unat i" by (rule eval_digits_digits) simp
  moreover have "unat i < 2 ^ 64" using unsigned_less [of i] by simp
  moreover have "list_all (\<lambda>d. d < 10) (digits 10 (unat i))"
    using digits_bound [of 10 _ "unat i"] by (auto simp: list_all_iff)
  ultimately show ?thesis
    by (simp add: ParseUint10_def FormatUint10_def Let_def map_char_digit_format)
qed

section \<open>Lengths in bits\<close>

text \<open>\<open>big.Int.BitLen\<close> of the absolute value.\<close>

fun bitlen :: "nat \<Rightarrow> nat" where
  "bitlen n = (if n = 0 then 0 else Suc (bitlen (n div 2)))"

declare bitlen.simps [simp del]

lemma bitlen_le_iff: "bitlen n \<le> k \<longleftrightarrow> n < 2 ^ k"
proof (induction n arbitrary: k rule: bitlen.induct)
  case (1 n)
  show ?case
  proof (cases "n = 0")
    case True
    then show ?thesis by (simp add: bitlen.simps)
  next
    case False
    note IH = "1.IH" [OF False]
    show ?thesis
    proof (cases k)
      case 0
      with False show ?thesis by (simp add: bitlen.simps [of n])
    next
      case (Suc j)
      have "bitlen n \<le> k \<longleftrightarrow> n div 2 < 2 ^ j"
        using False Suc IH by (simp add: bitlen.simps [of n])
      also have "\<dots> \<longleftrightarrow> n < 2 ^ k"
        by (simp add: Suc div_less_iff_less_mult mult.commute)
      finally show ?thesis .
    qed
  qed
qed

section \<open>Scanning an integer with a prefix\<close>

text \<open>
  The loop of \<open>nat.scan\<close>: it reads digits below the base and underscores, and stops
  at the first other byte. \<open>prev\<close> is the kind of the byte before: \<open>CHR ''0''\<close>
  for a digit (or the prefix), \<open>CHR ''_''\<close> for an underscore, \<open>CHR ''.''\<close> at the
  start. The result is the value, the digits counted, the last \<open>prev\<close>, whether an
  underscore was misplaced, and the bytes left.
\<close>

fun scan_digits ::
  "nat \<Rightarrow> char \<Rightarrow> bool \<Rightarrow> nat \<Rightarrow> nat \<Rightarrow> string \<Rightarrow> nat \<times> nat \<times> char \<times> bool \<times> string" where
  "scan_digits b prev bad count v [] = (v, count, prev, bad, [])"
| "scan_digits b prev bad count v (c # cs) =
     (if c = CHR ''_'' then scan_digits b (CHR ''_'') (bad \<or> prev \<noteq> CHR ''0'') count v cs
      else if char_digit c < b
        then scan_digits b (CHR ''0'') bad (Suc count) (v * b + char_digit c) cs
      else (v, count, prev, bad, c # cs))"

text \<open>The prefix: the base, whether it is the bare octal \<open>0\<close>, \<open>prev\<close> and the rest.\<close>

definition scan_prefix :: "string \<Rightarrow> nat \<times> bool \<times> char \<times> nat \<times> string" where
  "scan_prefix s =
     (case s of
        [] \<Rightarrow> (10, False, CHR ''.'', 0, [])
      | c # cs \<Rightarrow>
          if c \<noteq> CHR ''0'' then (10, False, CHR ''.'', 0, s)
          else (case cs of
              [] \<Rightarrow> (10, False, CHR ''0'', 1, [])
            | d # ds \<Rightarrow>
                if d = CHR ''b'' \<or> d = CHR ''B'' then (2, False, CHR ''0'', 0, ds)
                else if d = CHR ''o'' \<or> d = CHR ''O'' then (8, False, CHR ''0'', 0, ds)
                else if d = CHR ''x'' \<or> d = CHR ''X'' then (16, False, CHR ''0'', 0, ds)
                else (8, True, CHR ''0'', 0, cs)))"

definition scan_nat :: "string \<Rightarrow> nat option" where
  "scan_nat s =
     (case scan_prefix s of (b, octal0, prev, count, cs) \<Rightarrow>
        (case scan_digits b prev False count 0 cs of (v, count', prev', bad, rest) \<Rightarrow>
           if bad \<or> prev' = CHR ''_'' then None
           else if count' = 0 \<and> \<not> octal0 then None
           else if rest \<noteq> [] then None
           else Some v))"

text \<open>\<open>big.Int.SetString(s, 0)\<close>: an optional sign, then the number, up to the end.\<close>

definition SetString0 :: "string \<Rightarrow> int option" where
  "SetString0 s =
     (case s of
        c # cs \<Rightarrow>
          if c = CHR ''-'' then map_option (\<lambda>n. - int n) (scan_nat cs)
          else if c = CHR ''+'' then map_option int (scan_nat cs)
          else map_option int (scan_nat s)
      | [] \<Rightarrow> None)"

lemma scan_digits_plain:
  assumes "\<forall>c \<in> set cs. c \<noteq> CHR ''_'' \<and> char_digit c < b"
  shows "scan_digits b prev bad count v cs =
    (foldl (\<lambda>v d. v * b + d) v (map char_digit cs), count + length cs,
     (if cs = [] then prev else CHR ''0''), bad, [])"
  using assms by (induction cs arbitrary: prev count v) auto

lemma format_nat_chars:
  assumes "2 \<le> b" and "b \<le> 36"
  shows "\<forall>c \<in> set (format_nat b n). c \<noteq> CHR ''_'' \<and> char_digit c < b"
proof
  fix c assume "c \<in> set (format_nat b n)"
  then obtain d where "d < 36" "d < b" "c = digit_char d"
    by (rule set_format_nat [OF assms])
  then show "c \<noteq> CHR ''_'' \<and> char_digit c < b"
    by (simp add: digit_char_not_underscore)
qed

lemma scan_digits_format:
  assumes "2 \<le> b" and "b \<le> 36"
  shows "scan_digits b prev bad 0 0 (format_nat b n) =
    (n, length (digits b n), CHR ''0'', bad, [])"
proof -
  have "foldl (\<lambda>v d. v * b + d) 0 (map char_digit (format_nat b n)) = n"
    using eval_digits_digits [OF assms(1), of n] map_char_digit_format [OF assms, of n]
    by (simp add: eval_digits_def)
  then show ?thesis
    using scan_digits_plain [OF format_nat_chars [OF assms], of prev bad 0 0 n]
    by (simp add: format_nat_def)
qed

text \<open>A hexadecimal numeral with its prefix, as the quantities print it.\<close>

lemma SetString0_hex [simp]:
  "SetString0 (CHR ''0'' # CHR ''x'' # format_nat 16 n) = Some (int n)"
  by (simp add: SetString0_def scan_nat_def scan_prefix_def scan_digits_format)

text \<open>A decimal numeral: it has no prefix, because its first digit is zero only alone.\<close>

lemma format_nat_hd:
  assumes "2 \<le> b" and "b \<le> 36" and "0 < n"
  obtains c cs where "format_nat b n = c # cs" and "c \<noteq> CHR ''0''"
    and "c \<noteq> CHR ''-''" and "c \<noteq> CHR ''+''"
proof -
  let ?d = "hd (digits b n)"
  have d: "?d < 36" using digits_bound [OF assms(1) hd_in_set [OF digits_nonempty]] assms(2)
    by (rule order_less_le_trans)
  have pos: "?d \<noteq> 0" using digits_hd_pos [OF assms(1,3)] by simp
  have "format_nat b n = digit_char ?d # map digit_char (tl (digits b n))"
    unfolding format_nat_def by (cases "digits b n") auto
  then show thesis
    by (rule that) (use d pos in \<open>simp_all add: digit_char_zero digit_char_not_sign\<close>)
qed

lemma SetString0_decimal [simp]: "SetString0 (format_nat 10 n) = Some (int n)"
proof (cases "n = 0")
  case True
  have "format_nat 10 0 = ''0''"
    by (simp add: format_nat_def digits.simps digit_char_zero)
  with True show ?thesis
    by (simp add: SetString0_def scan_nat_def scan_prefix_def)
next
  case False
  then obtain c cs where eq: "format_nat 10 n = c # cs"
    and c: "c \<noteq> CHR ''0''" "c \<noteq> CHR ''-''" "c \<noteq> CHR ''+''"
    using format_nat_hd [of 10 n] by auto
  have "scan_digits 10 (CHR ''.'') False 0 0 (c # cs) = (n, length (digits 10 n), CHR ''0'', False, [])"
    using scan_digits_format [of 10 "CHR ''.''" False n] by (simp add: eq)
  with c show ?thesis
    by (simp add: eq SetString0_def scan_nat_def scan_prefix_def)
qed

end
