(* ===== verification/Keys.thy ===== *)
theory Keys
  imports Numerals
begin

text \<open>
  The composite keys of the ledger and of the vault
  (\<open>token/services/vault/keys/keys.go\<close>), and their translation to Orion's key
  space (\<open>token/services/network/orion/rwset.go\<close>). A key is a namespace byte, an
  object type and attributes, each closed by a zero byte; attributes are valid UTF-8 with
  neither U+0000 nor U+10FFFF, so that keys can be taken apart again.
\<close>

section \<open>UTF-8 (unicode/utf8)\<close>

definition cont :: "nat \<Rightarrow> bool" where
  "cont b \<longleftrightarrow> 128 \<le> b \<and> b \<le> 191"

text \<open>
  The runes of a string, \<open>None\<close> where \<open>utf8.ValidString\<close> is false: the accepted
  ranges of the second byte exclude over-long forms, surrogates and values above U+10FFFF.
\<close>

fun utf8_runes :: "nat list \<Rightarrow> nat list option" where
  "utf8_runes [] = Some []"
| "utf8_runes (b0 # bs) =
     (if b0 < 128 then map_option ((#) b0) (utf8_runes bs)
      else if 194 \<le> b0 \<and> b0 \<le> 223 then
        (case bs of
           b1 # r \<Rightarrow> if cont b1
             then map_option ((#) ((b0 - 192) * 64 + (b1 - 128))) (utf8_runes r)
             else None
         | _ \<Rightarrow> None)
      else if 224 \<le> b0 \<and> b0 \<le> 239 then
        (case bs of
           b1 # b2 # r \<Rightarrow>
             if cont b1 \<and> cont b2 \<and> (b0 = 224 \<longrightarrow> 160 \<le> b1) \<and> (b0 = 237 \<longrightarrow> b1 \<le> 159)
             then map_option ((#) ((b0 - 224) * 4096 + (b1 - 128) * 64 + (b2 - 128))) (utf8_runes r)
             else None
         | _ \<Rightarrow> None)
      else if 240 \<le> b0 \<and> b0 \<le> 244 then
        (case bs of
           b1 # b2 # b3 # r \<Rightarrow>
             if cont b1 \<and> cont b2 \<and> cont b3 \<and> (b0 = 240 \<longrightarrow> 144 \<le> b1) \<and> (b0 = 244 \<longrightarrow> b1 \<le> 143)
             then map_option ((#) ((b0 - 240) * 262144 + (b1 - 128) * 4096 + (b2 - 128) * 64 + (b3 - 128)))
                    (utf8_runes r)
             else None
         | _ \<Rightarrow> None)
      else None)"

definition runes :: "string \<Rightarrow> nat list option" where
  "runes s = utf8_runes (map of_char s)"

lemma utf8_runes_ascii: "\<forall>b \<in> set bs. b < 128 \<Longrightarrow> utf8_runes bs = Some bs"
  by (induction bs) auto

text \<open>A zero byte of a valid string is the rune U+0000.\<close>

lemma utf8_runes_zero: "utf8_runes bs = Some rs \<Longrightarrow> 0 \<notin> set rs \<Longrightarrow> 0 \<notin> set bs"
proof (induction bs arbitrary: rs rule: length_induct)
  case (1 bs)
  have IH: "0 \<notin> set r" if "length r < length bs" and "utf8_runes r = Some z" and "0 \<notin> set z" for r z
    using "1.IH" that by blast
  show ?case
    using "1.prems" by (cases bs) (auto simp: cont_def split: if_splits list.splits dest: IH [rotated])
qed

section \<open>Constants\<close>

definition minUnicodeRuneValue :: nat where "minUnicodeRuneValue = 0"
definition MaxUnicodeRuneValue :: nat where "MaxUnicodeRuneValue = 1114111"
definition CompositeKeyNamespace :: string where "CompositeKeyNamespace = [CHR 0x00]"
definition TokenKeyPrefix :: string where "TokenKeyPrefix = ''ztoken''"
definition FabTokenKeyPrefix :: string where "FabTokenKeyPrefix = ''token''"
definition DeletedTokenKeyPrefix :: string where "DeletedTokenKeyPrefix = ''deltoken''"
definition FabTokenExtendedKeyPrefix :: string where "FabTokenExtendedKeyPrefix = ''etoken''"
definition AuditTokenKeyPrefix :: string where "AuditTokenKeyPrefix = ''audittoken''"
definition TokenMineKeyPrefix :: string where "TokenMineKeyPrefix = ''mine''"
definition TokenSetupKeyPrefix :: string where "TokenSetupKeyPrefix = ''setup''"
definition IssuedHistoryTokenKeyPrefix :: string where "IssuedHistoryTokenKeyPrefix = ''issued''"
definition numComponentsInKey :: nat where "numComponentsInKey = 2"
definition numComponentsInExtendedKey :: nat where "numComponentsInExtendedKey = 4"
definition Info :: string where "Info = ''info''"
definition IDs :: string where "IDs = ''ids''"
definition TokenRequestKeyPrefix :: string where "TokenRequestKeyPrefix = ''token_request''"
definition SerialNumber :: string where "SerialNumber = ''sn''"
definition IssueActionMetadata :: string where "IssueActionMetadata = ''iam''"
definition TransferActionMetadata :: string where "TransferActionMetadata = ''tam''"

lemmas key_consts = minUnicodeRuneValue_def MaxUnicodeRuneValue_def CompositeKeyNamespace_def
  TokenKeyPrefix_def FabTokenKeyPrefix_def DeletedTokenKeyPrefix_def FabTokenExtendedKeyPrefix_def
  AuditTokenKeyPrefix_def TokenMineKeyPrefix_def TokenSetupKeyPrefix_def
  IssuedHistoryTokenKeyPrefix_def numComponentsInKey_def numComponentsInExtendedKey_def
  TokenRequestKeyPrefix_def SerialNumber_def IssueActionMetadata_def TransferActionMetadata_def
  Info_def IDs_def

section \<open>Building and splitting keys\<close>

definition ValidateCompositeKeyAttribute :: "string \<Rightarrow> unit res" where
  "ValidateCompositeKeyAttribute str =
     (case runes str of
        None \<Rightarrow> Inl (Err ''not a valid utf8 string'')
      | Some rs \<Rightarrow>
          if \<exists>r \<in> set rs. r = minUnicodeRuneValue \<or> r = MaxUnicodeRuneValue
          then Inl (Err ''input contain unicode not allowed in the input attribute of a composite key'')
          else Inr ())"

fun append_attributes :: "string \<Rightarrow> string list \<Rightarrow> string res" where
  "append_attributes ck [] = Inr ck"
| "append_attributes ck (att # atts) =
     rbind (ValidateCompositeKeyAttribute att)
       (\<lambda>_. append_attributes (ck @ att @ [CHR 0x00]) atts)"

definition CreateCompositeKey :: "string \<Rightarrow> string list \<Rightarrow> string res" where
  "CreateCompositeKey objectType attributes =
     rbind (ValidateCompositeKeyAttribute objectType)
       (\<lambda>_. append_attributes (CompositeKeyNamespace @ objectType @ [CHR 0x00]) attributes)"

text \<open>
  The loop of \<open>SplitCompositeKey\<close> from index 1: the bytes since the last zero byte, and
  the components closed so far. What follows the last zero byte is dropped.
\<close>

fun split_components :: "string \<Rightarrow> string \<Rightarrow> string list" where
  "split_components cur [] = []"
| "split_components cur (c # cs) =
     (if c = CHR 0x00 then cur # split_components [] cs else split_components (cur @ [c]) cs)"

definition SplitCompositeKey :: "string \<Rightarrow> (string \<times> string list) res" where
  "SplitCompositeKey compositeKey =
     (let components = split_components [] (drop 1 compositeKey)
      in if length components < numComponentsInKey + 1
         then Inl (Err ''invalid composite key - not enough components found in key'')
         else Inr (hd components, tl components))"

section \<open>The kinds of keys\<close>

definition CreateTokenKey :: "string \<Rightarrow> u64 \<Rightarrow> string res" where
  "CreateTokenKey txID index = CreateCompositeKey TokenKeyPrefix [txID, FormatUint10 index]"

definition CreateSNKey :: "string \<Rightarrow> string res" where
  "CreateSNKey sn = CreateCompositeKey TokenKeyPrefix [SerialNumber, sn]"

definition CreateFabTokenKey :: "string \<Rightarrow> u64 \<Rightarrow> string res" where
  "CreateFabTokenKey txID index = CreateCompositeKey FabTokenKeyPrefix [txID, FormatUint10 index]"

definition CreateDeletedTokenKey :: "string \<Rightarrow> u64 \<Rightarrow> string res" where
  "CreateDeletedTokenKey txID index =
     CreateCompositeKey DeletedTokenKeyPrefix [txID, FormatUint10 index]"

definition CreateExtendedFabTokenKey :: "string \<Rightarrow> string \<Rightarrow> string \<Rightarrow> u64 \<Rightarrow> string res" where
  "CreateExtendedFabTokenKey owner typ txID index =
     CreateCompositeKey FabTokenExtendedKeyPrefix [owner, typ, txID, FormatUint10 index]"

definition CreateAuditTokenKey :: "string \<Rightarrow> u64 \<Rightarrow> string res" where
  "CreateAuditTokenKey txID index =
     CreateCompositeKey AuditTokenKeyPrefix [txID, FormatUint10 index]"

definition CreateTokenMineKey :: "string \<Rightarrow> u64 \<Rightarrow> string res" where
  "CreateTokenMineKey txID index =
     CreateCompositeKey TokenKeyPrefix [TokenMineKeyPrefix, txID, FormatUint10 index]"

definition CreateSetupKey :: "string res" where
  "CreateSetupKey = CreateCompositeKey TokenKeyPrefix [TokenSetupKeyPrefix]"

definition CreateSetupBundleKey :: "string res" where
  "CreateSetupBundleKey = CreateCompositeKey TokenKeyPrefix [TokenSetupKeyPrefix, ''bundle'']"

definition CreateTokenRequestKey :: "string \<Rightarrow> string res" where
  "CreateTokenRequestKey txID = CreateCompositeKey TokenKeyPrefix [TokenRequestKeyPrefix, txID]"

definition CreateIssueActionMetadataKey :: "string \<Rightarrow> string res" where
  "CreateIssueActionMetadataKey hash = CreateCompositeKey TokenKeyPrefix [IssueActionMetadata, hash]"

definition CreateTransferActionMetadataKey :: "string \<Rightarrow> string res" where
  "CreateTransferActionMetadataKey subKey =
     CreateCompositeKey TokenKeyPrefix [TransferActionMetadata, subKey]"

definition CreateIssuedHistoryTokenKey :: "string \<Rightarrow> u64 \<Rightarrow> string res" where
  "CreateIssuedHistoryTokenKey txID index =
     CreateCompositeKey IssuedHistoryTokenKeyPrefix [txID, FormatUint10 index]"

section \<open>Reading a token identifier off a key\<close>

record ID =
  TxId :: string
  Index :: u64

definition GetTokenIdFromKey :: "string \<Rightarrow> ID res" where
  "GetTokenIdFromKey key =
     rbind (SplitCompositeKey key) (\<lambda>(_, components).
       if length components \<noteq> numComponentsInKey
       then Inl (Err ''not enough components in output ID composite key; expected 2'')
       else rbind (ParseUint10 (components ! (numComponentsInKey - 1)))
         (\<lambda>index. Inr \<lparr>TxId = components ! (numComponentsInKey - 2), Index = index\<rparr>))"

definition GetTokenIdFromExtendedKey :: "string \<Rightarrow> ID res" where
  "GetTokenIdFromExtendedKey key =
     rbind (SplitCompositeKey key) (\<lambda>(_, components).
       if length components \<noteq> numComponentsInExtendedKey
       then Inl (Err ''not enough components in output ID composite key; expected 4'')
       else rbind (ParseUint10 (components ! (numComponentsInExtendedKey - 1)))
         (\<lambda>index. Inr \<lparr>TxId = components ! (numComponentsInExtendedKey - 2), Index = index\<rparr>))"

text \<open>
  \<open>errors.Wrapf(err, ...)\<close> of a nil \<open>err\<close> is nil: the test on the number of
  components returns the empty string and no error.
\<close>

definition GetTransferMetadataSubKey :: "string \<Rightarrow> string res" where
  "GetTransferMetadataSubKey k =
     rbind (SplitCompositeKey k) (\<lambda>(prefix, components).
       if length components \<noteq> 2 then Inr []
       else if prefix \<noteq> TokenKeyPrefix
         then Inl (Err ''key does not contain the token key prefix'')
       else if components ! 0 \<noteq> TransferActionMetadata
         then Inl (Err ''key does not contain the token transfer action metadata prefix'')
       else Inr (components ! 1))"


section \<open>What a key holds\<close>

definition valid_attribute :: "string \<Rightarrow> bool" where
  "valid_attribute s \<longleftrightarrow> ValidateCompositeKeyAttribute s = Inr ()"

lemma valid_attribute_no_zero:
  assumes "valid_attribute s"
  shows "CHR 0x00 \<notin> set s"
proof
  assume "CHR 0x00 \<in> set s"
  then have "of_char (CHR 0x00) \<in> of_char ` set s" by (rule imageI)
  then have "(0::nat) \<in> set (map of_char s)" by simp
  with assms show False
    using utf8_runes_zero [of "map of_char s"]
    by (auto simp: valid_attribute_def ValidateCompositeKeyAttribute_def runes_def
        minUnicodeRuneValue_def split: option.splits if_splits)
qed

lemma valid_attribute_ascii:
  assumes "\<forall>c \<in> set s. 0 < (of_char c :: nat) \<and> (of_char c :: nat) < 128"
  shows "valid_attribute s"
proof -
  have "runes s = Some (map of_char s)"
    unfolding runes_def by (rule utf8_runes_ascii) (use assms in auto)
  then show ?thesis
    using assms
    by (fastforce simp: valid_attribute_def ValidateCompositeKeyAttribute_def key_consts)
qed

lemma valid_attribute_FormatUint10 [simp]: "valid_attribute (FormatUint10 i)"
proof (rule valid_attribute_ascii, rule ballI)
  fix c assume "c \<in> set (FormatUint10 i)"
  then obtain d where "d < 10" "c = digit_char d"
    unfolding FormatUint10_def using set_format_nat [of 10 c "unat i"] by auto
  then show "0 < (of_char c :: nat) \<and> (of_char c :: nat) < 128"
    by (simp add: of_char_digit_char)
qed

lemma Validate_valid [simp]: "ValidateCompositeKeyAttribute s = Inr u \<longleftrightarrow> valid_attribute s"
  by (cases u) (simp add: valid_attribute_def)

definition encode_attributes :: "string list \<Rightarrow> string" where
  "encode_attributes atts = concat (map (\<lambda>a. a @ [CHR 0x00]) atts)"

lemma append_attributes_eq:
  "append_attributes ck atts = Inr k \<longleftrightarrow>
     list_all valid_attribute atts \<and> k = ck @ encode_attributes atts"
  by (induction atts arbitrary: ck) (auto simp: go_simps encode_attributes_def)

lemma CreateCompositeKey_eq:
  "CreateCompositeKey ot atts = Inr k \<longleftrightarrow>
     list_all valid_attribute (ot # atts) \<and> k = CHR 0x00 # encode_attributes (ot # atts)"
  by (auto simp: CreateCompositeKey_def go_simps append_attributes_eq encode_attributes_def
      CompositeKeyNamespace_def)

lemma split_components_append:
  "CHR 0x00 \<notin> set a \<Longrightarrow>
     split_components cur (a @ CHR 0x00 # rest) = (cur @ a) # split_components [] rest"
  by (induction a arbitrary: cur) auto

lemma split_components_encode:
  "list_all valid_attribute atts \<Longrightarrow> split_components [] (encode_attributes atts) = atts"
  by (induction atts)
    (auto simp: encode_attributes_def split_components_append valid_attribute_no_zero)

text \<open>Two keys are equal only when they were built from the same parts.\<close>

lemma CreateCompositeKey_parts:
  assumes "CreateCompositeKey ot atts = Inr k"
  shows "split_components [] (drop 1 k) = ot # atts"
  using assms split_components_encode [of "ot # atts"] by (simp add: CreateCompositeKey_eq)

lemma CreateCompositeKey_inject:
  assumes "CreateCompositeKey ot atts = Inr k" and "CreateCompositeKey ot' atts' = Inr k"
  shows "ot = ot' \<and> atts = atts'"
  using CreateCompositeKey_parts [OF assms(1)] CreateCompositeKey_parts [OF assms(2)] by simp

lemma Split_Create:
  assumes "CreateCompositeKey ot atts = Inr k" and "2 \<le> length atts"
  shows "SplitCompositeKey k = Inr (ot, atts)"
  using CreateCompositeKey_parts [OF assms(1)] assms(2)
  by (simp add: SplitCompositeKey_def numComponentsInKey_def)

lemmas key_defs = CreateTokenKey_def CreateSNKey_def CreateFabTokenKey_def CreateDeletedTokenKey_def
  CreateExtendedFabTokenKey_def CreateAuditTokenKey_def CreateTokenMineKey_def CreateSetupKey_def
  CreateSetupBundleKey_def CreateTokenRequestKey_def CreateIssueActionMetadataKey_def
  CreateTransferActionMetadataKey_def CreateIssuedHistoryTokenKey_def

definition the_key :: "string res \<Rightarrow> string" where
  "the_key r = (case r of Inr k \<Rightarrow> k | Inl _ \<Rightarrow> [])"

lemma CreateTokenKey_inject:
  assumes "CreateTokenKey t i = Inr k" and "CreateTokenKey t' j = Inr k"
  shows "t = t' \<and> i = j"
  using CreateCompositeKey_inject [of TokenKeyPrefix "[t, FormatUint10 i]" k]
    assms by (force simp: CreateTokenKey_def FormatUint10_inject)

lemma CreateTokenKey_total: "valid_attribute t \<Longrightarrow> \<exists>k. CreateTokenKey t i = Inr k"
  by (simp add: CreateTokenKey_def CreateCompositeKey_eq valid_attribute_ascii TokenKeyPrefix_def)

lemma CreateTokenKey_valid: "CreateTokenKey t i = Inr k \<Longrightarrow> valid_attribute t"
  by (simp add: CreateTokenKey_def CreateCompositeKey_eq)


lemma FormatUint10_not_bundle: "FormatUint10 i \<noteq> ''bundle''"
proof
  assume "FormatUint10 i = ''bundle''"
  then have "CHR ''b'' \<in> set (FormatUint10 i)" by simp
  then obtain d where "d < 10" "CHR ''b'' = digit_char d"
    unfolding FormatUint10_def using set_format_nat [of 10 "CHR ''b''" "unat i"] by auto
  then have "(of_char (CHR ''b'') :: nat) = 48 + d" by (simp add: of_char_digit_char)
  with \<open>d < 10\<close> show False by simp
qed

section \<open>Orion keys\<close>

text \<open>
  \<open>orionKey\<close> replaces every zero byte by a tilde, \<open>notOrionKey\<close> every tilde by a
  zero byte (\<open>strings.ReplaceAll\<close> of one byte by another).
\<close>

definition orionKey :: "string \<Rightarrow> string" where
  "orionKey key = map (\<lambda>c. if c = CHR 0x00 then CHR ''~'' else c) key"

definition notOrionKey :: "string \<Rightarrow> string" where
  "notOrionKey key = map (\<lambda>c. if c = CHR ''~'' then CHR 0x00 else c) key"

section \<open>Properties\<close>

text \<open>
  C37: splitting a composite key gives back the object type and the attributes it was
  built from, whenever it has at least the two attributes that the splitter asks for.
\<close>
theorem composite_key_roundtrip:
  assumes "CreateCompositeKey ot atts = Inr k" and "2 \<le> length atts"
  shows "SplitCompositeKey k = Inr (ot, atts)"
  using assms by (rule Split_Create)

lemma composite_key_roundtrip_witness:
  "SplitCompositeKey (CHR 0x00 # ''ab'' @ CHR 0x00 # ''c'' @ CHR 0x00 # ''d'' @ [CHR 0x00])
     = Inr (''ab'', [''c'', ''d''])"
proof -
  have "CreateCompositeKey ''ab'' [''c'', ''d'']
      = Inr (CHR 0x00 # ''ab'' @ CHR 0x00 # ''c'' @ CHR 0x00 # ''d'' @ [CHR 0x00])"
    by (simp add: CreateCompositeKey_eq valid_attribute_ascii encode_attributes_def)
  then show ?thesis by (rule composite_key_roundtrip) simp
qed

text \<open>
  The identifier read off a token key, of the ledger or of the vault (tokens, deleted
  tokens, audited tokens, issue history), is the transaction and the index it was made
  for; the same for the extended keys, which hold a wallet and a type before them.
\<close>
theorem token_key_roundtrip:
  "(CreateTokenKey t i = Inr k \<or> CreateFabTokenKey t i = Inr k \<or> CreateDeletedTokenKey t i = Inr k
      \<or> CreateAuditTokenKey t i = Inr k \<or> CreateIssuedHistoryTokenKey t i = Inr k
    \<longrightarrow> GetTokenIdFromKey k = Inr \<lparr>TxId = t, Index = i\<rparr>)
   \<and> (CreateExtendedFabTokenKey w typ t i = Inr k
    \<longrightarrow> GetTokenIdFromExtendedKey k = Inr \<lparr>TxId = t, Index = i\<rparr>)"
  by (auto simp: key_defs GetTokenIdFromKey_def GetTokenIdFromExtendedKey_def
      numComponentsInKey_def numComponentsInExtendedKey_def dest!: Split_Create)

lemma token_key_roundtrip_witness:
  "\<exists>k. CreateTokenKey ''tx'' 7 = Inr k \<and> GetTokenIdFromKey k = Inr \<lparr>TxId = ''tx'', Index = 7\<rparr>"
proof -
  have "valid_attribute ''tx''" by (simp add: valid_attribute_ascii)
  then obtain k where "CreateTokenKey ''tx'' 7 = Inr k" using CreateTokenKey_total by blast
  with token_key_roundtrip [of "''tx''" 7 k] show ?thesis by blast
qed

text \<open>
  No two outputs share a ledger key, and a token key is none of the other keys under
  the same prefix (setup, token request, action metadata, serial number, ownership mark)
  unless the transaction identifier is the reserved word of that kind of key.
\<close>
theorem ledger_keys_disjoint:
  assumes "CreateTokenKey t i = Inr k"
  shows "(CreateTokenKey t' j = Inr k \<longleftrightarrow> t' = t \<and> j = i)
    \<and> CreateSetupKey \<noteq> Inr k \<and> CreateSetupBundleKey \<noteq> Inr k \<and> CreateTokenMineKey u j \<noteq> Inr k
    \<and> (CreateTokenRequestKey u = Inr k \<longrightarrow> t = TokenRequestKeyPrefix)
    \<and> (CreateIssueActionMetadataKey u = Inr k \<longrightarrow> t = IssueActionMetadata)
    \<and> (CreateTransferActionMetadataKey u = Inr k \<longrightarrow> t = TransferActionMetadata)
    \<and> (CreateSNKey u = Inr k \<longrightarrow> t = SerialNumber)"
proof -
  note inj = CreateCompositeKey_inject [OF assms [unfolded CreateTokenKey_def]]
  have no_bundle: "CreateSetupBundleKey \<noteq> Inr k"
    using FormatUint10_not_bundle by (auto simp: CreateSetupBundleKey_def dest: inj)
  have same: "CreateTokenKey t' j = Inr k \<longleftrightarrow> t' = t \<and> j = i"
    using assms CreateTokenKey_inject by blast
  show ?thesis
    by (intro conjI same no_bundle) (auto simp: key_defs dest: inj)
qed

lemma ledger_keys_disjoint_witness:
  "\<exists>k. CreateTokenKey ''tx'' 0 = Inr k \<and> CreateSetupKey \<noteq> Inr k \<and> CreateTokenRequestKey ''5'' \<noteq> Inr k"
proof -
  have "valid_attribute ''tx''" by (simp add: valid_attribute_ascii)
  then obtain k where k: "CreateTokenKey ''tx'' 0 = Inr k" using CreateTokenKey_total by blast
  with ledger_keys_disjoint [OF k, of "''tx''" 0 "''5''"] show ?thesis
    by (auto simp: TokenRequestKeyPrefix_def)
qed

text \<open>
  The subkey of a transfer metadata key is recovered; but a key with another number
  of components, however it was made, is answered with the empty subkey and no error.
\<close>
theorem transfer_metadata_subkey:
  "(CreateTransferActionMetadataKey sub = Inr k \<longrightarrow> GetTransferMetadataSubKey k = Inr sub)
   \<and> (CreateCompositeKey ot (a # b # c # atts) = Inr k \<longrightarrow> GetTransferMetadataSubKey k = Inr [])"
  by (auto simp: CreateTransferActionMetadataKey_def GetTransferMetadataSubKey_def dest!: Split_Create)

lemma transfer_metadata_subkey_witness:
  "\<exists>k. CreateTransferActionMetadataKey ''s'' = Inr k \<and> GetTransferMetadataSubKey k = Inr ''s''"
proof -
  have "CreateTransferActionMetadataKey ''s'' = Inr (CHR 0x00 # encode_attributes [TokenKeyPrefix, ''tam'', ''s''])"
    by (simp add: CreateTransferActionMetadataKey_def CreateCompositeKey_eq valid_attribute_ascii key_consts)
  then show ?thesis using transfer_metadata_subkey [of "''s''"] by blast
qed

text \<open>
  A key without a tilde comes back from its Orion form, so such keys do not collide
  there; with a tilde in an attribute they can: the ownership mark of output 1 of
  transaction \<open>a\<close> and the token key of output 1 of transaction \<open>mine~a\<close> are different
  keys with one Orion form.
\<close>
theorem orion_key_roundtrip:
  "(CHR ''~'' \<notin> set k \<longrightarrow> notOrionKey (orionKey k) = k)
   \<and> (\<exists>k1 k2. CreateTokenMineKey ''a'' 1 = Inr k1 \<and> CreateTokenKey ''mine~a'' 1 = Inr k2
       \<and> k1 \<noteq> k2 \<and> orionKey k1 = orionKey k2)"
proof
  show "CHR ''~'' \<notin> set k \<longrightarrow> notOrionKey (orionKey k) = k"
    by (induction k) (auto simp: orionKey_def notOrionKey_def)
  let ?k1 = "CHR 0x00 # encode_attributes [TokenKeyPrefix, ''mine'', ''a'', FormatUint10 1]"
  let ?k2 = "CHR 0x00 # encode_attributes [TokenKeyPrefix, ''mine~a'', FormatUint10 1]"
  have "CreateTokenMineKey ''a'' 1 = Inr ?k1" "CreateTokenKey ''mine~a'' 1 = Inr ?k2"
    by (simp_all add: CreateTokenMineKey_def CreateTokenKey_def CreateCompositeKey_eq
        valid_attribute_ascii key_consts)
  moreover have "?k1 \<noteq> ?k2" by (simp add: encode_attributes_def)
  moreover have "orionKey ?k1 = orionKey ?k2" by (simp add: encode_attributes_def orionKey_def)
  ultimately show "\<exists>k1 k2. CreateTokenMineKey ''a'' 1 = Inr k1 \<and> CreateTokenKey ''mine~a'' 1 = Inr k2
       \<and> k1 \<noteq> k2 \<and> orionKey k1 = orionKey k2" by blast
qed

lemma orion_key_roundtrip_witness: "notOrionKey (orionKey [CHR 0x00, CHR ''k'']) = [CHR 0x00, CHR ''k'']"
  using orion_key_roundtrip [of "[CHR 0x00, CHR ''k'']"] by simp

end
