(* ===== verification/Quantity.thy ===== *)
theory Quantity
  imports Keys
begin

text \<open>
  Token quantities (\<open>token/token/quantity.go\<close>) and the tokens that carry them
  (\<open>token/token/token.go\<close>). A quantity of precision 64 is a machine word, one of any
  other precision an unbounded integer with a bit bound; both check for overflow, and
  panic. \<open>Add\<close> and \<open>Sub\<close> update their receiver and return it: the model returns the
  receiver's new value.
\<close>

section \<open>Quantities\<close>

datatype Quantity = UInt64Quantity u64 | BigQuantity int u64

text \<open>\<open>v.BitLen() > int(precision)\<close>, with the conversion of the unsigned precision.\<close>

definition exceeds :: "int \<Rightarrow> u64 \<Rightarrow> bool" where
  "exceeds v precision \<longleftrightarrow> sint precision < int (bitlen (nat \<bar>v\<bar>))"

definition new_quantity :: "int \<Rightarrow> u64 \<Rightarrow> Quantity" where
  "new_quantity v precision =
     (if precision = 64 then UInt64Quantity (word_of_int v) else BigQuantity v precision)"

definition ToQuantity :: "string \<Rightarrow> u64 \<Rightarrow> Quantity res" where
  "ToQuantity q precision =
     (if precision = 0 then Inl (Err ''precision must be larger than 0'')
      else case SetString0 q of
          None \<Rightarrow> Inl (Err ''invalid input'')
        | Some v \<Rightarrow>
            if v < 0 then Inl (Err ''quantity must be larger than 0'')
            else if exceeds v precision then Inl (Err ''has precision larger than expected'')
            else Inr (new_quantity v precision))"

definition UInt64ToQuantity :: "u64 \<Rightarrow> u64 \<Rightarrow> Quantity res" where
  "UInt64ToQuantity u precision =
     (if precision = 0 then Inl (Err ''precision must be larger than 0'')
      else let v = uint u in
        if v < 0 then Inl (Err ''quantity must be larger than 0'')
        else if exceeds v precision then Inl (Err ''has precision larger than expected'')
        else Inr (new_quantity v precision))"

definition NewZeroQuantity :: "u64 \<Rightarrow> Quantity" where
  "NewZeroQuantity precision =
     (if precision = 64 then UInt64Quantity 0 else BigQuantity 0 precision)"

definition NewOneQuantity :: "u64 \<Rightarrow> Quantity" where
  "NewOneQuantity precision =
     (if precision = 64 then UInt64Quantity 1 else BigQuantity 1 precision)"

definition NewUBigQuantity :: "string \<Rightarrow> u64 \<Rightarrow> Quantity res" where
  "NewUBigQuantity q precision =
     (if precision = 0 then Inl (Err ''precision must be larger than 0'')
      else case SetString0 q of
          None \<Rightarrow> Inl (Err ''invalid input'')
        | Some v \<Rightarrow>
            if v < 0 then Inl (Err ''quantity must be larger than 0'')
            else if exceeds v precision then Inl (Err ''has precision larger than expected'')
            else Inr (BigQuantity v precision))"

definition NewQuantityFromUInt64 :: "u64 \<Rightarrow> Quantity" where
  "NewQuantityFromUInt64 q = UInt64Quantity q"

definition BigQuantity_Add :: "int \<Rightarrow> u64 \<Rightarrow> Quantity \<Rightarrow> Quantity res" where
  "BigQuantity_Add q precision b =
     (case b of
        BigQuantity bq _ \<Rightarrow>
          (let sum = q + bq
           in if exceeds sum precision then Inl (Panic ''overflow'') else Inr (BigQuantity sum precision))
      | UInt64Quantity _ \<Rightarrow> Inl (Panic ''expected BigQuantity''))"

definition BigQuantity_Sub :: "int \<Rightarrow> u64 \<Rightarrow> Quantity \<Rightarrow> Quantity res" where
  "BigQuantity_Sub q precision b =
     (case b of
        BigQuantity bq _ \<Rightarrow>
          if q < bq then Inl (Panic ''overflow'') else Inr (BigQuantity (q - bq) precision)
      | UInt64Quantity _ \<Rightarrow> Inl (Panic ''expected BigQuantity''))"

text \<open>\<open>big.Int.Cmp\<close>, and the comparison of words, as -1, 0 or 1.\<close>

definition int_cmp :: "int \<Rightarrow> int \<Rightarrow> int" where
  "int_cmp x y = (if x < y then -1 else if y < x then 1 else 0)"

definition BigQuantity_Cmp :: "int \<Rightarrow> Quantity \<Rightarrow> int res" where
  "BigQuantity_Cmp q b =
     (case b of BigQuantity bq _ \<Rightarrow> Inr (int_cmp q bq)
      | UInt64Quantity _ \<Rightarrow> Inl (Panic ''expected BigQuantity''))"

definition UInt64Quantity_Add :: "u64 \<Rightarrow> Quantity \<Rightarrow> Quantity res" where
  "UInt64Quantity_Add q b =
     (case b of
        UInt64Quantity bq \<Rightarrow>
          (let sum = q + bq
           in if sum < q then Inl (Panic ''overflow'') else Inr (UInt64Quantity sum))
      | BigQuantity _ _ \<Rightarrow> Inl (Panic ''expected UInt64Quantity''))"

definition UInt64Quantity_Sub :: "u64 \<Rightarrow> Quantity \<Rightarrow> Quantity res" where
  "UInt64Quantity_Sub q b =
     (case b of
        UInt64Quantity bq \<Rightarrow>
          if q < bq then Inl (Panic ''overflow'') else Inr (UInt64Quantity (q - bq))
      | BigQuantity _ _ \<Rightarrow> Inl (Panic ''expected UInt64Quantity''))"

definition UInt64Quantity_Cmp :: "u64 \<Rightarrow> Quantity \<Rightarrow> int res" where
  "UInt64Quantity_Cmp q b =
     (case b of
        UInt64Quantity bq \<Rightarrow> Inr (if q < bq then -1 else if bq < q then 1 else 0)
      | BigQuantity _ _ \<Rightarrow> Inl (Panic ''expected UInt64Quantity''))"

text \<open>The methods of the interface, by the dynamic type of the receiver.\<close>

fun Add :: "Quantity \<Rightarrow> Quantity \<Rightarrow> Quantity res" where
  "Add (UInt64Quantity q) b = UInt64Quantity_Add q b"
| "Add (BigQuantity q p) b = BigQuantity_Add q p b"

fun Sub :: "Quantity \<Rightarrow> Quantity \<Rightarrow> Quantity res" where
  "Sub (UInt64Quantity q) b = UInt64Quantity_Sub q b"
| "Sub (BigQuantity q p) b = BigQuantity_Sub q p b"

fun Cmp :: "Quantity \<Rightarrow> Quantity \<Rightarrow> int res" where
  "Cmp (UInt64Quantity q) b = UInt64Quantity_Cmp q b"
| "Cmp (BigQuantity q p) b = BigQuantity_Cmp q b"

definition int_text :: "nat \<Rightarrow> int \<Rightarrow> string" where
  "int_text b v = (if v < 0 then [CHR ''-''] else []) @ format_nat b (nat \<bar>v\<bar>)"

fun Hex :: "Quantity \<Rightarrow> string" where
  "Hex (UInt64Quantity q) = ''0x'' @ format_nat 16 (unat q)"
| "Hex (BigQuantity q p) = ''0x'' @ int_text 16 q"

fun Decimal :: "Quantity \<Rightarrow> string" where
  "Decimal (UInt64Quantity q) = format_nat 10 (unat q)"
| "Decimal (BigQuantity q p) = int_text 10 q"

fun ToBigInt :: "Quantity \<Rightarrow> int" where
  "ToBigInt (UInt64Quantity q) = uint q"
| "ToBigInt (BigQuantity q p) = q"

section \<open>Well-formed quantities\<close>

text \<open>
  The quantities that the constructors build for a precision: the kind that belongs to it,
  not negative, and within the bound.
\<close>

fun wfq :: "u64 \<Rightarrow> Quantity \<Rightarrow> bool" where
  "wfq p (UInt64Quantity _) \<longleftrightarrow> p = 64"
| "wfq p (BigQuantity v p') \<longleftrightarrow> p' = p \<and> p \<noteq> 64 \<and> 0 \<le> v \<and> (v = 0 \<or> \<not> exceeds v p)"

lemma not_exceeds_iff: "0 \<le> v \<Longrightarrow> \<not> exceeds v p \<longleftrightarrow> 0 \<le> sint p \<and> v < 2 ^ nat (sint p)"
proof -
  assume v: "0 \<le> v"
  have "\<not> exceeds v p \<longleftrightarrow> 0 \<le> sint p \<and> bitlen (nat v) \<le> nat (sint p)"
    using v by (auto simp: exceeds_def)
  also have "\<dots> \<longleftrightarrow> 0 \<le> sint p \<and> v < 2 ^ nat (sint p)"
    using v by (simp add: bitlen_le_iff nat_less_iff)
  finally show ?thesis .
qed

lemma wfq_ToBigInt_nonneg [simp]: "wfq p q \<Longrightarrow> 0 \<le> ToBigInt q"
  by (cases q) auto

lemma wfq_zero [simp]: "wfq p (NewZeroQuantity p)"
  by (simp add: NewZeroQuantity_def)

lemma ToBigInt_zero [simp]: "ToBigInt (NewZeroQuantity p) = 0"
  by (simp add: NewZeroQuantity_def)

lemma wfq_inject: "wfq p a \<Longrightarrow> wfq p b \<Longrightarrow> ToBigInt a = ToBigInt b \<longleftrightarrow> a = b"
  by (cases a; cases b) (auto simp: word_uint_eq_iff)

lemma new_quantity_wfq:
  assumes "0 \<le> v" and "\<not> exceeds v p"
  shows "wfq p (new_quantity v p)" and "ToBigInt (new_quantity v p) = v"
proof -
  have "p = 64 \<Longrightarrow> v < 2 ^ 64" using assms by (simp add: not_exceeds_iff)
  then have "p = 64 \<Longrightarrow> uint (word_of_int v :: u64) = v"
    using assms(1) by (simp add: uint_word_of_int)
  with assms show "wfq p (new_quantity v p)" and "ToBigInt (new_quantity v p) = v"
    by (auto simp: new_quantity_def)
qed

lemma ToQuantity_SomeD:
  assumes "ToQuantity s p = Inr q"
  shows "p \<noteq> 0" "SetString0 s = Some (ToBigInt q)" "wfq p q" "ToBigInt q < 2 ^ nat (sint p)"
  using assms new_quantity_wfq
  by (auto simp: ToQuantity_def not_exceeds_iff split: if_splits option.splits)

lemma UInt64ToQuantity_SomeD:
  assumes "UInt64ToQuantity u p = Inr q"
  shows "p \<noteq> 0" "ToBigInt q = uint u" "wfq p q"
  using assms new_quantity_wfq by (auto simp: UInt64ToQuantity_def Let_def split: if_splits)

text \<open>On quantities of one precision the operations are those of the integers, or panic.\<close>

lemma exceeds_zero: "0 \<le> sint p \<Longrightarrow> \<not> exceeds 0 p"
  by (simp add: not_exceeds_iff)

lemma uint_not_exceeds_64: "\<not> exceeds (uint w) 64" for w :: u64
  using unsigned_less [of w] by (simp add: not_exceeds_iff)

lemma exceeds_mono: "\<not> exceeds v p \<Longrightarrow> 0 \<le> u \<Longrightarrow> u \<le> v \<Longrightarrow> \<not> exceeds u p"
  using not_exceeds_iff [of u p] not_exceeds_iff [of v p] by simp

lemma Add_wfq:
  assumes "wfq p a" and "wfq p b" and "Add a b = Inr c"
  shows "wfq p c \<and> ToBigInt c = ToBigInt a + ToBigInt b"
proof (cases a)
  case (UInt64Quantity x)
  with assms obtain y where "b = UInt64Quantity y" by (cases b) auto
  with UInt64Quantity assms have "c = UInt64Quantity (x + y)" and "x \<le> x + y" and "p = 64"
    by (auto simp: UInt64Quantity_Add_def Let_def not_less split: if_splits)
  with UInt64Quantity \<open>b = _\<close> show ?thesis by (simp add: uint_plus_simple_iff)
next
  case (BigQuantity x p')
  with assms obtain y where "b = BigQuantity y p" by (cases b) auto
  with BigQuantity assms show ?thesis
    by (auto simp: BigQuantity_Add_def Let_def split: if_splits)
qed

lemma Add_panics:
  assumes "wfq p a" and "wfq p b"
  shows "Add a b = Inl (Panic ''overflow'') \<longleftrightarrow> exceeds (ToBigInt a + ToBigInt b) p"
    and "(\<exists>c. Add a b = Inr c) \<longleftrightarrow> \<not> exceeds (ToBigInt a + ToBigInt b) p"
proof -
  have word: "exceeds (uint x + uint y) 64 \<longleftrightarrow> x + y < x" for x y :: u64
    using not_exceeds_iff [of "uint x + uint y" 64] no_olen_add [of x y] by auto
  show "Add a b = Inl (Panic ''overflow'') \<longleftrightarrow> exceeds (ToBigInt a + ToBigInt b) p"
    and "(\<exists>c. Add a b = Inr c) \<longleftrightarrow> \<not> exceeds (ToBigInt a + ToBigInt b) p"
    using assms
    by (cases a; cases b; auto simp: UInt64Quantity_Add_def BigQuantity_Add_def Let_def word)+
qed

lemma Sub_wfq:
  assumes "wfq p a" and "wfq p b" and "Sub a b = Inr c"
  shows "wfq p c \<and> ToBigInt c = ToBigInt a - ToBigInt b \<and> ToBigInt b \<le> ToBigInt a"
proof (cases a)
  case (UInt64Quantity x)
  with assms obtain y where "b = UInt64Quantity y" by (cases b) auto
  with UInt64Quantity assms have "c = UInt64Quantity (x - y)" and "y \<le> x" and "p = 64"
    by (auto simp: UInt64Quantity_Sub_def not_less split: if_splits)
  moreover from \<open>y \<le> x\<close> have "uint (x - y) = uint x - uint y"
    using uint_minus_simple_alt by blast
  ultimately show ?thesis using UInt64Quantity \<open>b = _\<close> by (simp add: word_le_def)
next
  case (BigQuantity x p')
  with assms obtain y where "b = BigQuantity y p" by (cases b) auto
  with BigQuantity assms show ?thesis
    using exceeds_mono [of x p "x - y"]
    by (auto simp: BigQuantity_Sub_def split: if_splits)
qed

lemma Sub_succeeds:
  assumes "wfq p a" and "wfq p b" and "ToBigInt b \<le> ToBigInt a"
  shows "\<exists>c. Sub a b = Inr c"
  using assms
  by (cases a; cases b) (auto simp: UInt64Quantity_Sub_def BigQuantity_Sub_def word_less_def)

lemma Cmp_wfq:
  assumes "wfq p a" and "wfq p b"
  shows "Cmp a b = Inr (int_cmp (ToBigInt a) (ToBigInt b))"
  using assms
  by (cases a; cases b) (auto simp: UInt64Quantity_Cmp_def BigQuantity_Cmp_def int_cmp_def word_less_def)

lemma int_cmp_iff [simp]:
  "int_cmp x y = 0 \<longleftrightarrow> x = y" "int_cmp x y = 1 \<longleftrightarrow> y < x" "int_cmp x y = - 1 \<longleftrightarrow> x < y"
  "int_cmp x y \<le> 0 \<longleftrightarrow> x \<le> y"
  by (auto simp: int_cmp_def)


text \<open>\<open>Add\<close> and \<open>Cmp\<close> never return an error: they panic.\<close>

lemma Add_no_Err: "Add a b \<noteq> Inl (Err m)"
  by (cases a; cases b) (auto simp: UInt64Quantity_Add_def BigQuantity_Add_def Let_def split: if_splits)

lemma Cmp_no_Err: "Cmp a b \<noteq> Inl (Err m)"
  by (cases a; cases b) (auto simp: UInt64Quantity_Cmp_def BigQuantity_Cmp_def split: if_splits)

text \<open>
  The interface that the clients of quantities use: adding in a loop from zero. A loop
  that does not panic has computed the sum of the integers, with no wrap-around.
\<close>

locale summation =
  fixes add :: "'q \<Rightarrow> 'q \<Rightarrow> 'q res" and zero :: 'q
    and val :: "'q \<Rightarrow> int" and ok :: "'q \<Rightarrow> bool"
  assumes zero_ok: "ok zero" and zero_val: "val zero = 0"
    and add_ok: "ok a \<Longrightarrow> ok b \<Longrightarrow> add a b = Inr c \<Longrightarrow> ok c \<and> val c = val a + val b"
begin

lemma fold_add:
  assumes "rfold add a qs = Inr c" and "ok a" and "list_all ok qs"
  shows "ok c \<and> val c = val a + sum_list (map val qs)"
  using assms
proof (induction qs arbitrary: a)
  case (Cons q qs)
  from Cons.prems(1) obtain b where b: "add a q = Inr b" and r: "rfold add b qs = Inr c"
    by (auto simp: go_simps)
  with Cons.prems have "ok b \<and> val b = val a + val q" using add_ok [OF _ _ b] by simp
  with Cons.IH [OF r] Cons.prems show ?case by simp
qed simp

lemma sum_from_zero:
  assumes "rfold add zero qs = Inr c" and "list_all ok qs"
  shows "ok c \<and> val c = sum_list (map val qs)"
  using fold_add [OF assms(1) zero_ok assms(2)] zero_val by simp

end

interpretation quantity_sum: summation Add "NewZeroQuantity p" ToBigInt "wfq p"
  by unfold_locales (simp, simp, rule Add_wfq)

section \<open>Tokens\<close>

text \<open>
  An owner is a pointer to its raw identity: \<open>None\<close> is the nil pointer. Reading
  \<open>Owner.Raw\<close> of a nil owner panics.
\<close>

record Token =
  tokOwner :: "bytes option"
  tokType :: string
  tokQuantity :: string

record IssuedToken =
  isId :: ID
  isOwner :: "bytes option"
  isType :: string
  isQuantity :: string
  isIssuer :: "bytes option"

record UnspentToken =
  utId :: ID
  utOwner :: "bytes option"
  utType :: string
  utQuantity :: string

definition owner_raw :: "bytes option \<Rightarrow> bytes res" where
  "owner_raw o' = (case o' of None \<Rightarrow> Inl nil_pointer | Some raw \<Rightarrow> Inr raw)"

text \<open>A conversion error inside \<open>Sum\<close> is a panic with that error.\<close>

definition or_panic :: "'a res \<Rightarrow> 'a res" where
  "or_panic r = (case r of Inl (Err m) \<Rightarrow> Inl (Panic m) | Inl (Panic m) \<Rightarrow> Inl (Panic m) | Inr a \<Rightarrow> Inr a)"

definition add_token :: "u64 \<Rightarrow> ('t \<Rightarrow> string) \<Rightarrow> Quantity \<Rightarrow> 't \<Rightarrow> Quantity res" where
  "add_token precision quantity acc tok =
     rbind (or_panic (ToQuantity (quantity tok) precision)) (\<lambda>q. Add acc q)"

definition IssuedTokens_Sum :: "u64 \<Rightarrow> IssuedToken list \<Rightarrow> Quantity res" where
  "IssuedTokens_Sum precision toks =
     rfold (add_token precision isQuantity) (NewZeroQuantity precision) toks"

definition IssuedTokens_ByType :: "string \<Rightarrow> IssuedToken list \<Rightarrow> IssuedToken list" where
  "IssuedTokens_ByType typ toks = filter (\<lambda>t. isType t = typ) toks"

definition IssuedTokens_Count :: "IssuedToken list \<Rightarrow> nat" where
  "IssuedTokens_Count toks = length toks"

definition UnspentTokens_Count :: "UnspentToken list \<Rightarrow> nat" where
  "UnspentTokens_Count toks = length toks"

definition UnspentTokens_Sum :: "u64 \<Rightarrow> UnspentToken list \<Rightarrow> Quantity res" where
  "UnspentTokens_Sum precision toks =
     rfold (add_token precision utQuantity) (NewZeroQuantity precision) toks"

definition UnspentTokens_ByType :: "string \<Rightarrow> UnspentToken list \<Rightarrow> UnspentToken list" where
  "UnspentTokens_ByType typ toks = filter (\<lambda>t. utType t = typ) toks"

definition UnspentTokens_At :: "nat \<Rightarrow> UnspentToken list \<Rightarrow> UnspentToken res" where
  "UnspentTokens_At i toks =
     (if i < length toks then Inr (toks ! i) else Inl (Panic ''index out of range''))"

text \<open>The integer that a quantity string stands for, 0 where it is no number.\<close>

definition qval :: "string \<Rightarrow> int" where
  "qval s = (case SetString0 s of Some v \<Rightarrow> v | None \<Rightarrow> 0)"

lemma or_panic_eq_Inr [go_simps]: "or_panic r = Inr a \<longleftrightarrow> r = Inr a"
  by (auto simp: or_panic_def split: sum.splits error.splits)

lemma ToQuantity_qval: "ToQuantity s p = Inr q \<Longrightarrow> ToBigInt q = qval s"
  by (simp add: ToQuantity_SomeD(2) qval_def)

text \<open>A loop that converts and adds computes the sum of the quantities.\<close>

lemma fold_add_token:
  assumes "rfold (add_token p f) a toks = Inr c" and "wfq p a"
  shows "wfq p c \<and> ToBigInt c = ToBigInt a + sum_list (map (\<lambda>t. qval (f t)) toks)"
  using assms
proof (induction toks arbitrary: a)
  case (Cons t toks)
  from Cons.prems(1) obtain q b where q: "ToQuantity (f t) p = Inr q" and b: "Add a q = Inr b"
    and r: "rfold (add_token p f) b toks = Inr c"
    by (auto simp: go_simps add_token_def [of p f a t])
  with Cons.prems have "wfq p b \<and> ToBigInt b = ToBigInt a + qval (f t)"
    using Add_wfq ToQuantity_SomeD(3) ToQuantity_qval by metis
  with Cons.IH [OF r] show ?case by simp
qed simp

lemma ToQuantity_text:
  assumes "wfq p q" and "p \<noteq> 0" and "0 \<le> sint p"
  shows "ToQuantity (Hex q) p = Inr q \<and> ToQuantity (Decimal q) p = Inr q"
proof -
  have ok: "\<not> exceeds (ToBigInt q) p" and nonneg: "0 \<le> ToBigInt q"
    using assms exceeds_zero uint_not_exceeds_64 by (cases q; force)+
  have "SetString0 (Hex q) = Some (ToBigInt q)" and "SetString0 (Decimal q) = Some (ToBigInt q)"
    using nonneg assms(1) by (cases q; simp add: int_text_def)+
  moreover have "new_quantity (ToBigInt q) p = q"
    using wfq_inject [OF _ assms(1)] new_quantity_wfq [OF nonneg ok] by blast
  ultimately show ?thesis
    using ok nonneg assms(2) by (simp add: ToQuantity_def)
qed

lemma qval_Hex [simp]: "wfq p q \<Longrightarrow> qval (Hex q) = ToBigInt q"
  by (cases q) (auto simp: qval_def int_text_def)

lemma UInt64ToQuantity_text:
  assumes "UInt64ToQuantity u p = Inr q"
  shows "ToQuantity (Hex q) p = Inr q" "Cmp q (NewZeroQuantity p) = Inr (int_cmp (uint u) 0)"
    "qval (Hex q) = uint u"
proof -
  note q = UInt64ToQuantity_SomeD [OF assms]
  have "0 \<le> sint p"
    using assms by (auto simp: UInt64ToQuantity_def Let_def not_exceeds_iff split: if_splits)
  then show "ToQuantity (Hex q) p = Inr q" using ToQuantity_text [OF q(3,1)] by simp
  show "Cmp q (NewZeroQuantity p) = Inr (int_cmp (uint u) 0)"
    using Cmp_wfq [OF q(3) wfq_zero] q(2) by simp
  show "qval (Hex q) = uint u" using q(2,3) by simp
qed

section \<open>Properties\<close>

text \<open>
  The text of a quantity is read back as the quantity: for a quantity of some
  precision, \<open>ToQuantity\<close> of its hexadecimal and of its decimal form is the quantity.
\<close>
theorem quantity_text_roundtrip:
  assumes "wfq p q" and "p \<noteq> 0" and "0 \<le> sint p"
  shows "ToQuantity (Hex q) p = Inr q \<and> ToQuantity (Decimal q) p = Inr q"
  using assms by (rule ToQuantity_text)

lemma quantity_text_roundtrip_witness:
  "ToQuantity (Hex (UInt64Quantity 255)) 64 = Inr (UInt64Quantity 255)"
  using quantity_text_roundtrip [of 64 "UInt64Quantity 255"] by simp

text \<open>
  \<open>ToQuantity\<close> accepts exactly the numerals between zero and the bound of the
  precision, and returns the well-formed quantity of that value.
\<close>
theorem ToQuantity_exact:
  "ToQuantity s p = Inr q \<longleftrightarrow>
     p \<noteq> 0 \<and> 0 \<le> sint p \<and> wfq p q \<and> SetString0 s = Some (ToBigInt q) \<and> ToBigInt q < 2 ^ nat (sint p)"
proof
  assume q: "ToQuantity s p = Inr q"
  have "0 \<le> sint p"
    using q by (auto simp: ToQuantity_def not_exceeds_iff split: if_splits option.splits)
  with ToQuantity_SomeD [OF q] show "p \<noteq> 0 \<and> 0 \<le> sint p \<and> wfq p q \<and> SetString0 s = Some (ToBigInt q)
    \<and> ToBigInt q < 2 ^ nat (sint p)" by simp
next
  assume a: "p \<noteq> 0 \<and> 0 \<le> sint p \<and> wfq p q \<and> SetString0 s = Some (ToBigInt q) \<and> ToBigInt q < 2 ^ nat (sint p)"
  then have nonneg: "0 \<le> ToBigInt q" and ok: "\<not> exceeds (ToBigInt q) p"
    using not_exceeds_iff [of "ToBigInt q" p] by auto
  have "new_quantity (ToBigInt q) p = q"
    using a wfq_inject new_quantity_wfq [OF nonneg ok] by blast
  with a nonneg ok show "ToQuantity s p = Inr q" by (simp add: ToQuantity_def)
qed

text \<open>
  C36: on quantities of one precision, \<open>Add\<close> and \<open>Sub\<close> either return the exact
  integer result, again well-formed, or panic; they panic exactly on an overflow of the
  precision and on a negative difference, and \<open>Cmp\<close> is the comparison of integers.
  (The comments of the interface speak of an error on overflow; there is none to return.)
\<close>
theorem quantity_arithmetic_exact:
  assumes "wfq p a" and "wfq p b"
  shows "(case Add a b of
            Inr c \<Rightarrow> wfq p c \<and> ToBigInt c = ToBigInt a + ToBigInt b
          | Inl e \<Rightarrow> e = Panic ''overflow'' \<and> exceeds (ToBigInt a + ToBigInt b) p)
       \<and> (case Sub a b of
            Inr c \<Rightarrow> wfq p c \<and> ToBigInt c = ToBigInt a - ToBigInt b
          | Inl e \<Rightarrow> e = Panic ''overflow'' \<and> ToBigInt a < ToBigInt b)
       \<and> Cmp a b = Inr (int_cmp (ToBigInt a) (ToBigInt b))"
proof (intro conjI)
  show "case Add a b of Inr c \<Rightarrow> wfq p c \<and> ToBigInt c = ToBigInt a + ToBigInt b
          | Inl e \<Rightarrow> e = Panic ''overflow'' \<and> exceeds (ToBigInt a + ToBigInt b) p"
    using Add_wfq [OF assms] Add_panics [OF assms] by (cases "Add a b") auto
  have "Sub a b = Inl e \<Longrightarrow> e = Panic ''overflow''" for e
    using assms
    by (cases a; cases b) (auto simp: UInt64Quantity_Sub_def BigQuantity_Sub_def split: if_splits)
  then show "case Sub a b of Inr c \<Rightarrow> wfq p c \<and> ToBigInt c = ToBigInt a - ToBigInt b
          | Inl e \<Rightarrow> e = Panic ''overflow'' \<and> ToBigInt a < ToBigInt b"
    using Sub_wfq [OF assms] Sub_succeeds [OF assms]
    by (cases "Sub a b") (auto simp: not_le [symmetric])
  show "Cmp a b = Inr (int_cmp (ToBigInt a) (ToBigInt b))"
    by (rule Cmp_wfq [OF assms])
qed

lemma quantity_arithmetic_exact_witness:
  "Add (UInt64Quantity 18446744073709551615) (UInt64Quantity 1) = Inl (Panic ''overflow'')
   \<and> Cmp (UInt64Quantity 3) (UInt64Quantity 5) = Inr (- 1)"
proof -
  have "Add (UInt64Quantity 18446744073709551615) (UInt64Quantity 1) = Inl (Panic ''overflow'')"
    by (simp add: UInt64Quantity_Add_def)
  moreover have "Cmp (UInt64Quantity 3) (UInt64Quantity 5) = Inr (int_cmp 3 5)"
    using quantity_arithmetic_exact [of 64 "UInt64Quantity 3" "UInt64Quantity 5"] by simp
  ultimately show ?thesis by (simp add: int_cmp_def)
qed

text \<open>
  The sum over a list of unspent tokens that does not panic is the integer sum of
  their quantities, and the sum of all tokens is the sum of those of one type plus the
  sum of the others.
\<close>
theorem unspent_sum_exact:
  assumes "UnspentTokens_Sum p toks = Inr s"
  shows "wfq p s \<and> ToBigInt s = sum_list (map (\<lambda>t. qval (utQuantity t)) toks)
    \<and> ToBigInt s = sum_list (map (\<lambda>t. qval (utQuantity t)) (UnspentTokens_ByType typ toks))
        + sum_list (map (\<lambda>t. qval (utQuantity t)) (filter (\<lambda>t. utType t \<noteq> typ) toks))"
proof -
  have "sum_list (map f toks) = sum_list (map f (filter P toks)) + sum_list (map f (filter (\<lambda>t. \<not> P t) toks))"
    for f :: "UnspentToken \<Rightarrow> int" and P
    by (induction toks) auto
  then show ?thesis
    using fold_add_token [OF assms [unfolded UnspentTokens_Sum_def]]
    by (simp add: UnspentTokens_ByType_def)
qed

lemma unspent_sum_exact_witness:
  "UnspentTokens_Sum 64 [] = Inr (UInt64Quantity 0) \<and> ToBigInt (UInt64Quantity 0) = 0"
proof -
  have "UnspentTokens_Sum 64 [] = Inr (UInt64Quantity 0)"
    by (simp add: UnspentTokens_Sum_def NewZeroQuantity_def)
  then show ?thesis using unspent_sum_exact [of 64 "[]" "UInt64Quantity 0"] by simp
qed

end
