(* ===== verification/RWSet.thy ===== *)
theory RWSet
  imports Keys
begin

text \<open>
  The read-write sets that the translator works on (the interface \<open>RWSet\<close> of
  \<open>token/services/vault/driver/driver.go\<close>) and the one of the chaincode, a wrapper of
  Fabric's stub (\<open>token/services/network/fabric/tcc/rwset.go\<close>). The stub and the
  read-write sets of the vaults are not code of the repository: they are parameters, with
  what is documented about them as the laws of a locale.
\<close>

section \<open>The interface\<close>

record 's RWSet =
  GetState :: "string \<Rightarrow> string \<Rightarrow> ('s, bytes) oper"
  SetState :: "string \<Rightarrow> string \<Rightarrow> bytes \<Rightarrow> ('s, unit) oper"
  DeleteState :: "string \<Rightarrow> string \<Rightarrow> ('s, unit) oper"

text \<open>
  The values of a namespace: a key that is absent has the empty value, as the callers
  test for presence by \<open>len(raw) != 0\<close>.
\<close>

type_synonym ledger = "string \<Rightarrow> bytes"

text \<open>
  A read-write set as a user of the namespace \<open>ns\<close> sees it: \<open>rd\<close> is what reads
  return, \<open>wr\<close> what the namespace holds once the set is committed. A read has no
  effect on either; a write changes one key of \<open>wr\<close>. An operation may fail at any time:
  the laws are about those that return.
\<close>

locale rwset =
  fixes W :: "'s RWSet" and ns :: string and rd wr :: "'s \<Rightarrow> ledger"
  assumes Get_law: "GetState W ns k s = (r, t) \<Longrightarrow>
      rd t = rd s \<and> wr t = wr s \<and> (\<forall>v. r = Inr v \<longrightarrow> v = rd s k)"
    and Set_law: "SetState W ns k v s = (Inr (), t) \<Longrightarrow> wr t = (wr s)(k := v)"
    and Delete_law: "DeleteState W ns k s = (Inr (), t) \<Longrightarrow> wr t = (wr s)(k := [])"

text \<open>The read-write set of a vault: reads see the writes of the same transaction.\<close>

locale rwset_own_writes = rwset +
  assumes rd_wr: "rd s = wr s"

text \<open>The read-write set of a chaincode simulation: reads see the committed state only.\<close>

locale rwset_snapshot = rwset +
  assumes Set_rd: "SetState W ns k v s = (r, t) \<Longrightarrow> rd t = rd s"
    and Delete_rd: "DeleteState W ns k s = (r, t) \<Longrightarrow> rd t = rd s"

section \<open>The chaincode's wrapper\<close>

record 's stub =
  StubGetState :: "string \<Rightarrow> ('s, bytes) oper"
  PutState :: "string \<Rightarrow> bytes \<Rightarrow> ('s, unit) oper"
  DelState :: "string \<Rightarrow> ('s, unit) oper"

definition rwsWrapper_SetState :: "('s, 'm) stub_scheme \<Rightarrow> string \<Rightarrow> string \<Rightarrow> bytes \<Rightarrow> ('s, unit) oper" where
  "rwsWrapper_SetState stub ns key v = PutState stub key v"

definition rwsWrapper_GetState :: "('s, 'm) stub_scheme \<Rightarrow> string \<Rightarrow> string \<Rightarrow> ('s, bytes) oper" where
  "rwsWrapper_GetState stub ns key = StubGetState stub key"

definition rwsWrapper_DeleteState :: "('s, 'm) stub_scheme \<Rightarrow> string \<Rightarrow> string \<Rightarrow> ('s, unit) oper" where
  "rwsWrapper_DeleteState stub ns key = DelState stub key"

definition rwsWrapper :: "('s, 'm) stub_scheme \<Rightarrow> 's RWSet" where
  "rwsWrapper stub =
     \<lparr>GetState = rwsWrapper_GetState stub, SetState = rwsWrapper_SetState stub,
      DeleteState = rwsWrapper_DeleteState stub\<rparr>"

lemmas rwsWrapper_defs = rwsWrapper_def rwsWrapper_GetState_def rwsWrapper_SetState_def
  rwsWrapper_DeleteState_def

section \<open>Two concrete stores\<close>

text \<open>
  A vault's read-write set as a map from namespaces and keys to values, with reads of own
  writes; and a stub as Fabric documents it: \<open>GetState\<close> reads the committed value and
  not the writes of the transaction, \<open>PutState\<close> and \<open>DelState\<close> add to its write set.
  They instantiate the parameters of the model where a concrete store is needed.
\<close>

definition map_rws :: "(string \<Rightarrow> ledger) RWSet" where
  "map_rws =
     \<lparr>GetState = (\<lambda>ns k s. (Inr (s ns k), s)),
      SetState = (\<lambda>ns k v s. (Inr (), s(ns := (s ns)(k := v)))),
      DeleteState = (\<lambda>ns k s. (Inr (), s(ns := (s ns)(k := []))))\<rparr>"

interpretation map_store: rwset_own_writes map_rws ns "\<lambda>s. s ns" "\<lambda>s. s ns"
  by unfold_locales (auto simp: map_rws_def)

record simulation =
  committed :: ledger
  write_set :: ledger

definition shim_stub :: "simulation stub" where
  "shim_stub =
     \<lparr>StubGetState = (\<lambda>k s. (Inr (committed s k), s)),
      PutState = (\<lambda>k v s. (Inr (), s\<lparr>write_set := (write_set s)(k := v)\<rparr>)),
      DelState = (\<lambda>k s. (Inr (), s\<lparr>write_set := (write_set s)(k := [])\<rparr>))\<rparr>"

text \<open>
  What Fabric documents about a stub, and that the wrapper makes a snapshot read-write set
  of any such stub, for every namespace.
\<close>

locale chaincode_stub =
  fixes S :: "('s, 'm) stub_scheme" and rd wr :: "'s \<Rightarrow> ledger"
  assumes stub_get: "StubGetState S k s = (g, t) \<Longrightarrow>
      rd t = rd s \<and> wr t = wr s \<and> (\<forall>v. g = Inr v \<longrightarrow> v = rd s k)"
    and stub_put: "PutState S k v s = (r, t) \<Longrightarrow> rd t = rd s \<and> (r = Inr () \<longrightarrow> wr t = (wr s)(k := v))"
    and stub_del: "DelState S k s = (r, t) \<Longrightarrow> rd t = rd s \<and> (r = Inr () \<longrightarrow> wr t = (wr s)(k := []))"

sublocale chaincode_stub \<subseteq> snapshot: rwset_snapshot "rwsWrapper S" ns rd wr for ns
  by unfold_locales (auto simp: rwsWrapper_defs dest: stub_get stub_put stub_del)

interpretation fabric: chaincode_stub shim_stub committed write_set
  by unfold_locales (auto simp: shim_stub_def)

end
