(* ===== verification/Translator.thy ===== *)
theory Translator
  imports RWSet
begin

text \<open>
  The translator (\<open>token/services/vault/translator/translator.go\<close>): it checks the
  actions of a validated token request against the state of the namespace and writes
  their effects, one action at a time. The actions are the interfaces of
  \<open>translator/action.go\<close>; a driver provides them, so an action is what its methods
  return. A Go map is ranged over in an arbitrary order: the metadata of an action is the
  list of its entries in the order in which they are visited.
\<close>

section \<open>Actions\<close>

record issue_action =
  iaNumOutputs :: nat
  iaGetSerializedOutputs :: "bytes list res"
  iaGetMetadata :: "(string \<times> bytes) list"

record transfer_action =
  taNumOutputs :: nat
  taIsRedeemAt :: "nat \<Rightarrow> bool res"
  taSerializeOutputAt :: "nat \<Rightarrow> bytes res"
  taGetInputs :: "string list res"
  taIsGraphHiding :: bool
  taGetMetadata :: "(string \<times> bytes) list"

datatype action =
    IssueAction issue_action
  | TransferAction transfer_action
  | SetupAction "bytes res"
  | UnknownAction

section \<open>The translator\<close>

text \<open>
  The fields that never change are \<open>Translator\<close>; the counter, and the state behind the
  read-write set, are \<open>tstate\<close>.
\<close>

record 's Translator =
  RWSet :: "'s RWSet"
  TxID :: string
  namespace :: string

record 's tstate =
  counter :: u64
  store :: 's

type_synonym ('s, 'a) top = "('s tstate, 'a) oper"

definition New :: "string \<Rightarrow> 's RWSet \<Rightarrow> 's \<Rightarrow> string \<Rightarrow> 's Translator \<times> 's tstate" where
  "New txID rwSet s ns =
     (\<lparr>RWSet = rwSet, TxID = txID, namespace = ns\<rparr>, \<lparr>counter = 0, store = s\<rparr>)"

definition on_store :: "('s, 'a) oper \<Rightarrow> ('s, 'a) top" where
  "on_store m = (\<lambda>st. case m (store st) of (r, s) \<Rightarrow> (r, st\<lparr>store := s\<rparr>))"

abbreviation get_state :: "'s Translator \<Rightarrow> string \<Rightarrow> ('s, bytes) top" where
  "get_state w k \<equiv> on_store (GetState (RWSet w) (namespace w) k)"

abbreviation set_state :: "'s Translator \<Rightarrow> string \<Rightarrow> bytes \<Rightarrow> ('s, unit) top" where
  "set_state w k v \<equiv> on_store (SetState (RWSet w) (namespace w) k v)"

abbreviation delete_state :: "'s Translator \<Rightarrow> string \<Rightarrow> ('s, unit) top" where
  "delete_state w k \<equiv> on_store (DeleteState (RWSet w) (namespace w) k)"

definition output_index :: "'s tstate \<Rightarrow> nat \<Rightarrow> u64" where
  "output_index st i = counter st + of_nat i"

subsection \<open>Checks\<close>

definition checkTokenDoesNotExist :: "'s Translator \<Rightarrow> u64 \<Rightarrow> string \<Rightarrow> ('s, unit) top" where
  "checkTokenDoesNotExist w index txID =
     obind (olift (CreateTokenKey txID index)) (\<lambda>tokenKey.
     obind (get_state w tokenKey) (\<lambda>outputBytes.
     ocheck (outputBytes = []) ''token already exists''))"

definition checkIssue :: "'s Translator \<Rightarrow> issue_action \<Rightarrow> ('s, unit) top" where
  "checkIssue w issue =
     ofor (\<lambda>i st. checkTokenDoesNotExist w (output_index st i) (TxID w) st) [0..<iaNumOutputs issue]"

definition checkTransfer :: "'s Translator \<Rightarrow> transfer_action \<Rightarrow> ('s, unit) top" where
  "checkTransfer w t =
     obind (olift (taGetInputs t)) (\<lambda>keys.
     obind (if \<not> taIsGraphHiding t
       then ofor (\<lambda>key. obind (get_state w key) (\<lambda>raw.
              ocheck (raw \<noteq> []) ''invalid transfer: input is already spent'')) keys
       else ofor (\<lambda>key. obind (get_state w key) (\<lambda>raw.
              ocheck (raw = []) ''invalid transfer: input is already spent'')) keys) (\<lambda>_.
     ofor (\<lambda>i. obind (olift (taIsRedeemAt t i)) (\<lambda>redeem.
         if \<not> redeem
         then (\<lambda>st. checkTokenDoesNotExist w (output_index st i) (TxID w) st)
         else oret ())) [0..<taNumOutputs t]))"

definition checkAction :: "'s Translator \<Rightarrow> action \<Rightarrow> ('s, unit) top" where
  "checkAction w a =
     (case a of
        IssueAction issue \<Rightarrow> checkIssue w issue
      | TransferAction t \<Rightarrow> checkTransfer w t
      | SetupAction _ \<Rightarrow> oret ()
      | UnknownAction \<Rightarrow> olift (Inl (Err ''unknown token action'')))"

definition checkProcess :: "'s Translator \<Rightarrow> action \<Rightarrow> ('s, unit) top" where
  "checkProcess w a = obind (checkAction w a) (\<lambda>_. oret ())"

subsection \<open>Writing the effects\<close>

definition commitSetupAction :: "'s Translator \<Rightarrow> bytes res \<Rightarrow> ('s, unit) top" where
  "commitSetupAction w GetSetupParameters =
     obind (olift GetSetupParameters) (\<lambda>raw.
     obind (olift CreateSetupKey) (\<lambda>setupKey.
     set_state w setupKey raw))"

text \<open>The loop over the metadata, the same for both kinds of actions but for the key.\<close>

definition store_metadata ::
  "'s Translator \<Rightarrow> (string \<Rightarrow> string res) \<Rightarrow> string \<Rightarrow> (string \<times> bytes) list \<Rightarrow> ('s, unit) top" where
  "store_metadata w create_key occupied metadata =
     ofor (\<lambda>(key, v).
       obind (olift (create_key key)) (\<lambda>k.
       obind (get_state w k) (\<lambda>raw.
       obind (ocheck (raw = []) occupied) (\<lambda>_.
       set_state w k v)))) metadata"

definition add_counter :: "nat \<Rightarrow> ('s, unit) top" where
  "add_counter n = (\<lambda>st. (Inr (), st\<lparr>counter := counter st + of_nat n\<rparr>))"

definition commitIssueAction :: "'s Translator \<Rightarrow> issue_action \<Rightarrow> ('s, unit) top" where
  "commitIssueAction w a =
     obind (olift (iaGetSerializedOutputs a)) (\<lambda>outputs.
     obind (ofor (\<lambda>(i, output) st.
         obind (olift (CreateTokenKey (TxID w) (output_index st i))) (\<lambda>outputID.
         set_state w outputID output) st) (enumerate 0 outputs)) (\<lambda>_.
     obind (store_metadata w CreateIssueActionMetadataKey
         ''entry with issue metadata key is already occupied'' (iaGetMetadata a)) (\<lambda>_.
     add_counter (length outputs))))"

definition spendTokens :: "'s Translator \<Rightarrow> string list \<Rightarrow> bool \<Rightarrow> ('s, unit) top" where
  "spendTokens w ids graphHiding =
     (if \<not> graphHiding then ofor (\<lambda>k. delete_state w k) ids
      else ofor (\<lambda>k. set_state w k ''true'') ids)"

definition commitTransferAction :: "'s Translator \<Rightarrow> transfer_action \<Rightarrow> ('s, unit) top" where
  "commitTransferAction w t =
     obind (ofor (\<lambda>i. obind (olift (taIsRedeemAt t i)) (\<lambda>redeem.
         if \<not> redeem
         then (\<lambda>st.
           obind (olift (CreateTokenKey (TxID w) (output_index st i))) (\<lambda>outputID.
           obind (olift (taSerializeOutputAt t i)) (\<lambda>raw.
           set_state w outputID raw)) st)
         else oret ())) [0..<taNumOutputs t]) (\<lambda>_.
     obind (olift (taGetInputs t)) (\<lambda>ids.
     obind (spendTokens w ids (taIsGraphHiding t)) (\<lambda>_.
     obind (store_metadata w CreateTransferActionMetadataKey
         ''entry with transfer metadata key is already occupied'' (taGetMetadata t)) (\<lambda>_.
     add_counter (taNumOutputs t)))))"

definition commitAction :: "'s Translator \<Rightarrow> action \<Rightarrow> ('s, unit) top" where
  "commitAction w a =
     (case a of
        IssueAction issue \<Rightarrow> commitIssueAction w issue
      | TransferAction t \<Rightarrow> commitTransferAction w t
      | SetupAction setup \<Rightarrow> commitSetupAction w setup
      | UnknownAction \<Rightarrow> oret ())"

definition commitProcess :: "'s Translator \<Rightarrow> action \<Rightarrow> ('s, unit) top" where
  "commitProcess w a = obind (commitAction w a) (\<lambda>_. oret ())"

definition Write :: "'s Translator \<Rightarrow> action \<Rightarrow> ('s, unit) top" where
  "Write w a =
     obind (checkProcess w a) (\<lambda>_.
     obind (commitProcess w a) (\<lambda>_. oret ()))"

subsection \<open>Requests, parameters and queries\<close>

text \<open>
  SHA-256 is the parameter \<open>sha256\<close>. Writing to a hash never fails and takes all the
  bytes, so the two tests after \<open>hash.Write\<close> pass.
\<close>

definition CommitTokenRequest ::
  "(bytes \<Rightarrow> bytes) \<Rightarrow> 's Translator \<Rightarrow> bytes \<Rightarrow> bool \<Rightarrow> ('s, unit) top" where
  "CommitTokenRequest sha256 w raw storeHash =
     obind (olift (CreateTokenRequestKey (TxID w))) (\<lambda>key.
     obind (get_state w key) (\<lambda>tr.
     obind (ocheck (tr = []) ''token request with same ID already exists'') (\<lambda>_.
     set_state w key (if storeHash then sha256 raw else raw))))"

definition ReadTokenRequest :: "'s Translator \<Rightarrow> ('s, bytes) top" where
  "ReadTokenRequest w =
     obind (olift (CreateTokenRequestKey (TxID w))) (\<lambda>key. get_state w key)"

definition ReadSetupParameters :: "'s Translator \<Rightarrow> ('s, bytes) top" where
  "ReadSetupParameters w = obind (olift CreateSetupKey) (\<lambda>setupKey. get_state w setupKey)"

text \<open>
  \<open>QueryTokens\<close> goes on after an error, which it counts; a panic leaves it.
\<close>

definition otry :: "('s, 'a) oper \<Rightarrow> ('s, 'a res) oper" where
  "otry m = (\<lambda>s. case m s of (Inl (Panic p), t) \<Rightarrow> (Inl (Panic p), t) | (r, t) \<Rightarrow> (Inr r, t))"

fun query_loop :: "'s Translator \<Rightarrow> bytes list \<Rightarrow> error list \<Rightarrow> ID option list
    \<Rightarrow> ('s, bytes list \<times> error list) top" where
  "query_loop w res errs [] = oret (res, errs)"
| "query_loop w res errs (p # ids) =
     obind (olift (deref p)) (\<lambda>i.
      case CreateTokenKey (TxId i) (Index i) of
        Inl e \<Rightarrow> query_loop w res (errs @ [e]) ids
      | Inr outputID \<Rightarrow>
          obind (otry (get_state w outputID)) (\<lambda>r.
            case r of
              Inl e \<Rightarrow> query_loop w res (errs @ [e]) ids
            | Inr raw \<Rightarrow>
                if raw = []
                then query_loop w res (errs @ [Err ''output for key does not exist'']) ids
                else query_loop w (res @ [raw]) errs ids))"

definition QueryTokens :: "'s Translator \<Rightarrow> ID option list \<Rightarrow> ('s, bytes list) top" where
  "QueryTokens w ids =
     obind (query_loop w [] [] ids) (\<lambda>(res, errs).
       if errs \<noteq> [] then olift (Inl (Err ''failed quering tokens'')) else oret res)"

definition Translator_GetTransferMetadataSubKey :: "string \<Rightarrow> string res" where
  "Translator_GetTransferMetadataSubKey k = GetTransferMetadataSubKey k"

fun spent_loop :: "'s Translator \<Rightarrow> (bytes \<Rightarrow> bool) \<Rightarrow> string list \<Rightarrow> ('s, bool list) top" where
  "spent_loop w spent [] = oret []"
| "spent_loop w spent (k # ids) =
     obind (get_state w k) (\<lambda>v.
     obind (spent_loop w spent ids) (\<lambda>rest. oret (spent v # rest)))"

definition areTokensSpent :: "'s Translator \<Rightarrow> string list \<Rightarrow> bool \<Rightarrow> ('s, bool list) top" where
  "areTokensSpent w ids graphHiding =
     (if graphHiding then spent_loop w (\<lambda>v. v \<noteq> []) ids else spent_loop w (\<lambda>v. v = []) ids)"

definition AreTokensSpent :: "'s Translator \<Rightarrow> string list \<Rightarrow> bool \<Rightarrow> ('s, bool list) top" where
  "AreTokensSpent w ids graphHiding = areTokensSpent w ids graphHiding"


section \<open>The abstract ledger\<close>

text \<open>
  What an action means, without errors and without the read-write set: the writes it
  makes, in order, and the conditions on the state it is checked against.
\<close>

definition apply_writes :: "(string \<times> bytes) list \<Rightarrow> ledger \<Rightarrow> ledger" where
  "apply_writes ws L = fold (\<lambda>(k, v) M. M(k := v)) ws L"

definition id_key :: "ID \<Rightarrow> string" where
  "id_key i = the_key (CreateTokenKey (TxId i) (Index i))"

definition the_bytes :: "bytes res \<Rightarrow> bytes" where
  "the_bytes r = (case r of Inr k \<Rightarrow> k | Inl _ \<Rightarrow> [])"

definition inputs_of :: "transfer_action \<Rightarrow> string list" where
  "inputs_of t = (case taGetInputs t of Inr ids \<Rightarrow> ids | Inl _ \<Rightarrow> [])"

definition kept_outputs :: "transfer_action \<Rightarrow> nat list" where
  "kept_outputs t = filter (\<lambda>i. taIsRedeemAt t i = Inr False) [0..<taNumOutputs t]"

definition transfer_outputs :: "string \<Rightarrow> u64 \<Rightarrow> transfer_action \<Rightarrow> (string \<times> bytes) list" where
  "transfer_outputs txID c t =
     map (\<lambda>i. (the_key (CreateTokenKey txID (c + of_nat i)), the_bytes (taSerializeOutputAt t i)))
       (kept_outputs t)"

definition transfer_spends :: "transfer_action \<Rightarrow> (string \<times> bytes) list" where
  "transfer_spends t =
     map (\<lambda>k. (k, if taIsGraphHiding t then ''true'' else [])) (inputs_of t)"

definition metadata_writes ::
  "(string \<Rightarrow> string res) \<Rightarrow> (string \<times> bytes) list \<Rightarrow> (string \<times> bytes) list" where
  "metadata_writes create_key md = map (\<lambda>(k, v). (the_key (create_key k), v)) md"

definition issue_outputs :: "issue_action \<Rightarrow> bytes list" where
  "issue_outputs a = (case iaGetSerializedOutputs a of Inr outs \<Rightarrow> outs | Inl _ \<Rightarrow> [])"

fun action_writes :: "string \<Rightarrow> u64 \<Rightarrow> action \<Rightarrow> (string \<times> bytes) list" where
  "action_writes txID c (IssueAction a) =
     map (\<lambda>(i, v). (the_key (CreateTokenKey txID (c + of_nat i)), v)) (enumerate 0 (issue_outputs a))
     @ metadata_writes CreateIssueActionMetadataKey (iaGetMetadata a)"
| "action_writes txID c (TransferAction t) =
     transfer_outputs txID c t @ transfer_spends t
     @ metadata_writes CreateTransferActionMetadataKey (taGetMetadata t)"
| "action_writes txID c (SetupAction raw) = [(the_key CreateSetupKey, the_bytes raw)]"
| "action_writes txID c UnknownAction = []"

fun action_outputs :: "action \<Rightarrow> nat" where
  "action_outputs (IssueAction a) = length (issue_outputs a)"
| "action_outputs (TransferAction t) = taNumOutputs t"
| "action_outputs _ = 0"

text \<open>The conditions that an action is checked for, on the ledger that reads see.\<close>

fun admissible :: "string \<Rightarrow> u64 \<Rightarrow> ledger \<Rightarrow> action \<Rightarrow> bool" where
  "admissible txID c L (IssueAction a) \<longleftrightarrow>
     (\<forall>i < iaNumOutputs a. L (the_key (CreateTokenKey txID (c + of_nat i))) = [])"
| "admissible txID c L (TransferAction t) \<longleftrightarrow>
     (\<forall>k \<in> set (inputs_of t). (L k = []) = taIsGraphHiding t)
     \<and> (\<forall>i \<in> set (kept_outputs t). L (the_key (CreateTokenKey txID (c + of_nat i))) = [])"
| "admissible txID c L (SetupAction raw) \<longleftrightarrow> True"
| "admissible txID c L UnknownAction \<longleftrightarrow> False"

lemma apply_writes_Nil [simp]: "apply_writes [] L = L"
  by (simp add: apply_writes_def)

lemma apply_writes_append [simp]: "apply_writes (xs @ ys) L = apply_writes ys (apply_writes xs L)"
  by (simp add: apply_writes_def)

lemma apply_writes_Cons [simp]: "apply_writes ((k, v) # ws) L = apply_writes ws (L(k := v))"
  by (simp add: apply_writes_def)

lemma apply_writes_other: "k \<notin> fst ` set ws \<Longrightarrow> apply_writes ws L k = L k"
  by (induction ws arbitrary: L) auto

lemma apply_writes_map_of: "apply_writes ws L k = (case map_of (rev ws) k of Some v \<Rightarrow> v | None \<Rightarrow> L k)"
  by (induction ws arbitrary: L) (auto simp: map_of_append map_add_def split: option.splits)

lemma the_key_Inr [simp]: "the_key (Inr k) = k"
  by (simp add: the_key_def)

lemma the_bytes_Inr [simp]: "the_bytes (Inr k) = k"
  by (simp add: the_bytes_def)

section \<open>The translator on any read-write set\<close>

locale translator_store = rwset "RWSet w" "namespace w" rd wr
  for w :: "'s Translator" and rd wr
begin

text \<open>
  Steps that only read; and steps that, when they succeed, make the writes \<open>ws\<close> and
  leave the counter at \<open>c\<close>.
\<close>

definition quiet :: "('s, 'a) top \<Rightarrow> bool" where
  "quiet m \<longleftrightarrow> (\<forall>st r t. m st = (r, t) \<longrightarrow>
     rd (store t) = rd (store st) \<and> wr (store t) = wr (store st) \<and> counter t = counter st)"

definition writes :: "u64 \<Rightarrow> (string \<times> bytes) list \<Rightarrow> ('s, 'a) top \<Rightarrow> bool" where
  "writes c ws m \<longleftrightarrow> (\<forall>st r t. counter st = c \<longrightarrow> m st = (Inr r, t) \<longrightarrow>
     wr (store t) = apply_writes ws (wr (store st)) \<and> counter t = c)"

lemma quietD:
  assumes "quiet m" and "m st = (r, t)"
  shows "rd (store t) = rd (store st)" "wr (store t) = wr (store st)" "counter t = counter st"
  using assms unfolding quiet_def by blast+

lemma quiet_get [simp]: "quiet (get_state w k)"
  by (auto simp: quiet_def on_store_def split: prod.splits dest: Get_law)

lemma quiet_oret [simp]: "quiet (oret a)"
  by (simp add: quiet_def)

lemma quiet_olift [simp]: "quiet (olift r)"
  by (simp add: quiet_def)

lemma quiet_ocheck [simp]: "quiet (ocheck b msg)"
  by (simp add: ocheck_def)

lemma quiet_obind [simp]:
  assumes "quiet m" and "\<And>a. quiet (f a)"
  shows "quiet (obind m f)"
  unfolding quiet_def
proof (intro allI impI)
  fix st r t assume "obind m f st = (r, t)"
  then consider e where "m st = (Inl e, t)" | a u where "m st = (Inr a, u)" "f a u = (r, t)"
    by (auto simp: obind_def split: prod.splits sum.splits)
  then show "rd (store t) = rd (store st) \<and> wr (store t) = wr (store st) \<and> counter t = counter st"
    using quietD [OF assms(1)] quietD [OF assms(2)] by (cases; metis)
qed

lemma quiet_ofor [simp]: "(\<And>x. quiet (f x)) \<Longrightarrow> quiet (ofor f xs)"
  by (induction xs) auto

lemma quiet_state: "(\<And>c. quiet (m c)) \<Longrightarrow> quiet (\<lambda>st. m (counter st) st)"
  by (auto simp: quiet_def)

lemma writes_quiet: "quiet m \<Longrightarrow> writes c [] m"
  by (auto simp: writes_def dest: quietD)

lemma writes_set [simp]: "writes c [(k, v)] (set_state w k v)"
  by (auto simp: writes_def on_store_def split: prod.splits dest: Set_law)

lemma writes_delete [simp]: "writes c [(k, [])] (delete_state w k)"
  by (auto simp: writes_def on_store_def split: prod.splits dest: Delete_law)

lemma writes_obind:
  assumes "writes c xs m" and "\<And>a. writes c ys (f a)"
  shows "writes c (xs @ ys) (obind m f)"
  unfolding writes_def
proof (intro allI impI)
  fix st r t assume c: "counter st = c" and "obind m f st = (Inr r, t)"
  then obtain a u where m: "m st = (Inr a, u)" and f: "f a u = (Inr r, t)"
    by (auto simp: go_simps)
  from assms(1) c m have "wr (store u) = apply_writes xs (wr (store st))" and "counter u = c"
    unfolding writes_def by blast+
  with assms(2) f show "wr (store t) = apply_writes (xs @ ys) (wr (store st)) \<and> counter t = c"
    unfolding writes_def by simp
qed

lemma writes_obind_read:
  assumes "quiet m" and "\<And>a. writes c ys (f a)"
  shows "writes c ys (obind m f)"
proof -
  have "writes c ([] @ ys) (obind m f)"
    using assms by (intro writes_obind writes_quiet)
  then show ?thesis by simp
qed

lemma writes_obind_olift:
  assumes "\<And>a. r = Inr a \<Longrightarrow> writes c ys (f a)"
  shows "writes c ys (obind (olift r) f)"
  using assms by (auto simp: writes_def go_simps)

lemma writes_ofor:
  assumes "\<And>x. x \<in> set xs \<Longrightarrow> writes c (g x) (f x)"
  shows "writes c (concat (map g xs)) (ofor f xs)"
  using assms by (induction xs) (auto intro!: writes_obind writes_quiet)

lemma writes_metadata: "writes c (metadata_writes create_key md) (store_metadata w create_key occ md)"
proof -
  have "writes c (concat (map (\<lambda>(k, v). [(the_key (create_key k), v)]) md))
      (store_metadata w create_key occ md)"
    unfolding store_metadata_def
    by (rule writes_ofor) (auto intro!: writes_obind_olift writes_obind_read)
  moreover have "concat (map (\<lambda>(k, v). [(the_key (create_key k), v)]) md) = metadata_writes create_key md"
    by (induction md) (auto simp: metadata_writes_def)
  ultimately show ?thesis by simp
qed


subsection \<open>The checks read, and establish the conditions\<close>

lemma quiet_index: "(\<And>i. quiet (m i)) \<Longrightarrow> quiet (\<lambda>st. m (output_index st i) st)"
  by (auto simp: quiet_def)

lemma quiet_exists [simp]: "quiet (checkTokenDoesNotExist w i txID)"
  by (simp add: checkTokenDoesNotExist_def)

lemma quiet_exists_index [simp]:
  "quiet (\<lambda>st. checkTokenDoesNotExist w (output_index st i) txID st)"
  by (rule quiet_index) simp

lemma quiet_if [simp]: "quiet m \<Longrightarrow> quiet m' \<Longrightarrow> quiet (if b then m else m')"
  by simp

lemma quiet_checkAction: "quiet (checkAction w a)"
proof (cases a)
  case (IssueAction i)
  then show ?thesis
    by (simp add: checkAction_def checkIssue_def)
next
  case (TransferAction t)
  then show ?thesis
    by (simp add: checkAction_def checkTransfer_def)
qed (auto simp: checkAction_def)

lemma ofor_quiet_all:
  assumes "ofor f xs st = (Inr (), t)" and "\<And>x. quiet (f x)"
    and "\<And>x st t. x \<in> set xs \<Longrightarrow> f x st = (Inr (), t) \<Longrightarrow> P x (rd (store st)) (counter st)"
  shows "\<forall>x \<in> set xs. P x (rd (store st)) (counter st)"
  using assms(1,3)
proof (induction xs arbitrary: st)
  case (Cons x xs)
  from Cons.prems(1) obtain u where u: "f x st = (Inr (), u)" and r: "ofor f xs u = (Inr (), t)"
    by (auto simp: go_simps)
  have "\<forall>x \<in> set xs. P x (rd (store u)) (counter u)"
    using Cons.IH [OF r] Cons.prems(2) by simp
  with Cons.prems(2) [OF _ u] quietD [OF assms(2) u] show ?case by simp
qed simp

lemma get_state_rd:
  assumes "get_state w k st = (Inr v, t)"
  shows "v = rd (store st) k"
  using assms Get_law by (auto simp: on_store_def split: prod.splits)

lemma check_exists_fresh:
  assumes "checkTokenDoesNotExist w i txID st = (Inr (), t)"
  shows "rd (store st) (the_key (CreateTokenKey txID i)) = []"
  using assms by (auto simp: checkTokenDoesNotExist_def go_simps dest!: get_state_rd)

lemma checkTransfer_admissible:
  assumes "checkTransfer w t st = (Inr (), st')"
  shows "admissible (TxID w) (counter st) (rd (store st)) (TransferAction t)"
proof -
  let ?chk = "\<lambda>b key. obind (get_state w key) (\<lambda>raw.
      ocheck ((raw = []) = b) ''invalid transfer: input is already spent'')"
  let ?outs = "\<lambda>i. obind (olift (taIsRedeemAt t i)) (\<lambda>redeem.
      if \<not> redeem then (\<lambda>st. checkTokenDoesNotExist w (output_index st i) (TxID w) st) else oret ())"
  from assms obtain ids u where ids: "taGetInputs t = Inr ids"
    and ins: "ofor (?chk (taIsGraphHiding t)) ids st = (Inr (), u)"
    and outs: "ofor ?outs [0..<taNumOutputs t] u = (Inr (), st')"
    by (cases "taIsGraphHiding t") (auto simp: checkTransfer_def go_simps)
  have q: "quiet (?chk b key)" for b key by simp
  have q': "quiet (?outs i)" for i by simp
  have "quiet (ofor (?chk (taIsGraphHiding t)) ids)" by simp
  note u = quietD [OF this ins]
  have "\<forall>k \<in> set ids. (rd (store st) k = []) = taIsGraphHiding t"
    by (rule ofor_quiet_all [OF ins q, where P = "\<lambda>k L c. (L k = []) = taIsGraphHiding t"])
      (auto simp: go_simps dest!: get_state_rd)
  moreover have "\<forall>i \<in> set [0..<taNumOutputs t]. taIsRedeemAt t i = Inr False \<longrightarrow>
      rd (store u) (the_key (CreateTokenKey (TxID w) (counter u + of_nat i))) = []"
    by (rule ofor_quiet_all [OF outs q', where P = "\<lambda>i L c. taIsRedeemAt t i = Inr False \<longrightarrow>
        L (the_key (CreateTokenKey (TxID w) (c + of_nat i))) = []"])
      (auto simp: go_simps output_index_def dest!: check_exists_fresh)
  ultimately show ?thesis
    using ids u by (auto simp: inputs_of_def kept_outputs_def)
qed

lemma checkAction_admissible:
  assumes "checkAction w a st = (Inr (), st')"
  shows "admissible (TxID w) (counter st) (rd (store st)) a"
proof (cases a)
  case (IssueAction i)
  with assms have "ofor (\<lambda>i st. checkTokenDoesNotExist w (output_index st i) (TxID w) st)
      [0..<iaNumOutputs i] st = (Inr (), st')"
    by (simp add: checkAction_def checkIssue_def)
  then have "\<forall>x \<in> set [0..<iaNumOutputs i].
      rd (store st) (the_key (CreateTokenKey (TxID w) (counter st + of_nat x))) = []"
    by (rule ofor_quiet_all [where P = "\<lambda>x L c. L (the_key (CreateTokenKey (TxID w) (c + of_nat x))) = []"])
      (simp, drule check_exists_fresh, simp add: output_index_def)
  with IssueAction show ?thesis by simp
next
  case (TransferAction t)
  with assms checkTransfer_admissible show ?thesis by (simp add: checkAction_def)
qed (use assms in \<open>auto simp: checkAction_def\<close>)

subsection \<open>The commits make the writes\<close>

lemma writes_index:
  assumes "writes c ws (m (c + of_nat i))"
  shows "writes c ws (\<lambda>st. m (output_index st i) st)"
  using assms unfolding writes_def output_index_def by fast

lemma concat_map_if: "concat (map (\<lambda>x. if P x then [f x] else []) xs) = map f (filter P xs)"
  by (induction xs) auto

lemma writes_transfer_outputs:
  "writes c (transfer_outputs (TxID w) c t)
     (ofor (\<lambda>i. obind (olift (taIsRedeemAt t i)) (\<lambda>redeem.
         if \<not> redeem
         then (\<lambda>st.
           obind (olift (CreateTokenKey (TxID w) (output_index st i))) (\<lambda>outputID.
           obind (olift (taSerializeOutputAt t i)) (\<lambda>raw.
           set_state w outputID raw)) st)
         else oret ())) [0..<taNumOutputs t])"
proof -
  let ?out = "\<lambda>j i. obind (olift (CreateTokenKey (TxID w) j)) (\<lambda>outputID.
      obind (olift (taSerializeOutputAt t i)) (\<lambda>raw. set_state w outputID raw))"
  have "writes c [(the_key (CreateTokenKey (TxID w) j), the_bytes (taSerializeOutputAt t i))] (?out j i)"
    for j i
    by (rule writes_obind_olift, rule writes_obind_olift) simp
  note writes_out = writes_index [where m = "\<lambda>j. ?out j i" for i, OF this]
  let ?g = "\<lambda>i. if taIsRedeemAt t i = Inr False
    then [(the_key (CreateTokenKey (TxID w) (c + of_nat i)), the_bytes (taSerializeOutputAt t i))] else []"
  have eq: "transfer_outputs (TxID w) c t = concat (map ?g [0..<taNumOutputs t])"
    by (simp add: concat_map_if transfer_outputs_def kept_outputs_def)
  have each: "writes c (?g i) (obind (olift (taIsRedeemAt t i)) (\<lambda>redeem.
      if \<not> redeem then (\<lambda>st. ?out (output_index st i) i st) else oret ()))" for i
    by (rule writes_obind_olift) (simp add: writes_out writes_quiet)
  show ?thesis
    unfolding eq by (rule writes_ofor) (rule each)
qed

lemma writes_issue_outputs:
  "writes c (map (\<lambda>(i, v). (the_key (CreateTokenKey (TxID w) (c + of_nat i)), v)) xs)
     (ofor (\<lambda>(i, output) st.
         obind (olift (CreateTokenKey (TxID w) (output_index st i))) (\<lambda>outputID.
         set_state w outputID output) st) xs)"
proof -
  have eq: "map (\<lambda>(i, v). (the_key (CreateTokenKey (TxID w) (c + of_nat i)), v)) xs
      = concat (map (\<lambda>(i, v). [(the_key (CreateTokenKey (TxID w) (c + of_nat i)), v)]) xs)"
    by (induction xs) auto
  have "writes c [(the_key (CreateTokenKey (TxID w) j), v)]
      (obind (olift (CreateTokenKey (TxID w) j)) (\<lambda>outputID. set_state w outputID v))" for j v
    by (rule writes_obind_olift) simp
  note each = writes_index
    [where m = "\<lambda>j. obind (olift (CreateTokenKey (TxID w) j)) (\<lambda>outputID. set_state w outputID v)" for v,
      OF this]
  show ?thesis
    unfolding eq by (rule writes_ofor) (auto simp only: split: prod.split intro!: each)
qed

lemma writes_spend: "writes c (map (\<lambda>k. (k, if gh then ''true'' else [])) ids) (spendTokens w ids gh)"
proof -
  have "map (\<lambda>k. (k, if gh then ''true'' else [])) ids
      = concat (map (\<lambda>k. [(k, if gh then ''true'' else [])]) ids)"
    by (induction ids) auto
  then show ?thesis unfolding spendTokens_def by (auto simp del: concat_map_singleton intro!: writes_ofor)
qed


lemma writesD:
  assumes "writes c ws m" and "m st = (Inr r, t)" and "counter st = c"
  shows "wr (store t) = apply_writes ws (wr (store st))" "counter t = c"
  using assms unfolding writes_def by blast+

lemma commitIssueAction_effect:
  assumes "commitIssueAction w a st = (Inr (), t)"
  shows "wr (store t) = apply_writes (action_writes (TxID w) (counter st) (IssueAction a)) (wr (store st))
    \<and> counter t = counter st + of_nat (action_outputs (IssueAction a))"
proof -
  from assms obtain outs u v where outs: "iaGetSerializedOutputs a = Inr outs"
    and o: "ofor (\<lambda>(i, output) st.
         obind (olift (CreateTokenKey (TxID w) (output_index st i))) (\<lambda>outputID.
         set_state w outputID output) st) (enumerate 0 outs) st = (Inr (), u)"
    and m: "store_metadata w CreateIssueActionMetadataKey
         ''entry with issue metadata key is already occupied'' (iaGetMetadata a) u = (Inr (), v)"
    and t: "t = v\<lparr>counter := counter v + of_nat (length outs)\<rparr>"
    by (auto simp: commitIssueAction_def go_simps add_counter_def)
  note u = writesD [OF writes_issue_outputs o refl]
  note v = writesD [OF writes_metadata m u(2)]
  from u v t outs show ?thesis by (simp add: issue_outputs_def)
qed

lemma commitTransferAction_effect:
  assumes "commitTransferAction w a st = (Inr (), t)"
  shows "wr (store t) = apply_writes (action_writes (TxID w) (counter st) (TransferAction a)) (wr (store st))
    \<and> counter t = counter st + of_nat (action_outputs (TransferAction a))"
proof -
  from assms obtain ids u s v where ids: "taGetInputs a = Inr ids"
    and o: "ofor (\<lambda>i. obind (olift (taIsRedeemAt a i)) (\<lambda>redeem.
         if \<not> redeem
         then (\<lambda>st.
           obind (olift (CreateTokenKey (TxID w) (output_index st i))) (\<lambda>outputID.
           obind (olift (taSerializeOutputAt a i)) (\<lambda>raw.
           set_state w outputID raw)) st)
         else oret ())) [0..<taNumOutputs a] st = (Inr (), u)"
    and i: "spendTokens w ids (taIsGraphHiding a) u = (Inr (), s)"
    and m: "store_metadata w CreateTransferActionMetadataKey
         ''entry with transfer metadata key is already occupied'' (taGetMetadata a) s = (Inr (), v)"
    and t: "t = v\<lparr>counter := counter v + of_nat (taNumOutputs a)\<rparr>"
    by (auto simp: commitTransferAction_def obind_eq_Inr add_counter_def)
  note u = writesD [OF writes_transfer_outputs o refl]
  note s = writesD [OF writes_spend i u(2)]
  note v = writesD [OF writes_metadata m s(2)]
  from u s v t ids show ?thesis by (simp add: inputs_of_def transfer_spends_def)
qed

lemma commitSetupAction_effect:
  assumes "commitSetupAction w a st = (Inr (), t)"
  shows "wr (store t) = apply_writes (action_writes (TxID w) (counter st) (SetupAction a)) (wr (store st))
    \<and> counter t = counter st + of_nat (action_outputs (SetupAction a))"
proof -
  from assms obtain raw k where a: "a = Inr raw" "CreateSetupKey = Inr k"
    and m: "set_state w k raw st = (Inr (), t)"
    by (auto simp: commitSetupAction_def go_simps)
  show ?thesis using writesD [OF writes_set m refl] by (simp add: a)
qed

lemma commitAction_effect:
  assumes "commitAction w a st = (Inr (), t)"
  shows "wr (store t) = apply_writes (action_writes (TxID w) (counter st) a) (wr (store st))
    \<and> counter t = counter st + of_nat (action_outputs a)"
  using assms commitIssueAction_effect commitTransferAction_effect commitSetupAction_effect
  by (cases a) (simp_all add: commitAction_def)

lemma Write_effect:
  assumes "Write w a st = (Inr (), t)"
  shows "admissible (TxID w) (counter st) (rd (store st)) a"
    and "wr (store t) = apply_writes (action_writes (TxID w) (counter st) a) (wr (store st))"
    and "counter t = counter st + of_nat (action_outputs a)"
proof -
  from assms obtain u where c: "checkAction w a st = (Inr (), u)" and m: "commitAction w a u = (Inr (), t)"
    by (auto simp: Write_def checkProcess_def commitProcess_def go_simps)
  note u = quietD [OF quiet_checkAction c]
  show "admissible (TxID w) (counter st) (rd (store st)) a"
    by (rule checkAction_admissible [OF c])
  show "wr (store t) = apply_writes (action_writes (TxID w) (counter st) a) (wr (store st))"
    and "counter t = counter st + of_nat (action_outputs a)"
    using commitAction_effect [OF m] u by simp_all
qed

text \<open>An action that fails its checks changes nothing.\<close>

lemma Write_rejected:
  assumes "checkAction w a st = (Inl e, t)"
  shows "Write w a st = (Inl e, t) \<and> wr (store t) = wr (store st) \<and> counter t = counter st"
  using assms quietD [OF quiet_checkAction assms]
  by (auto simp: Write_def checkProcess_def obind_apply)

subsection \<open>Queries\<close>

lemma get_state_quiet: "get_state w k st = (r, t) \<Longrightarrow> rd (store t) = rd (store st)"
  by (rule quietD(1) [OF quiet_get])

lemma query_loop_result:
  assumes "query_loop w res errs ids st = (Inr (res', errs'), t)"
  shows "rd (store t) = rd (store st) \<and> wr (store t) = wr (store st) \<and> (\<exists>is fails. ids = map Some is \<and> errs' = errs @ fails \<and>
    (fails = [] \<longrightarrow> list_all (\<lambda>i. \<exists>k. CreateTokenKey (TxId i) (Index i) = Inr k \<and> rd (store st) k \<noteq> []) is
      \<and> res' = res @ map (\<lambda>i. rd (store st) (id_key i)) is))"
  using assms
proof (induction ids arbitrary: res errs st)
  case (Cons p ids)
  from Cons.prems obtain i where p: "p = Some i" by (auto simp: go_simps)
  show ?case
  proof (cases "CreateTokenKey (TxId i) (Index i)")
    case (Inl e)
    with Cons.prems p have "query_loop w res (errs @ [e]) ids st = (Inr (res', errs'), t)"
      by (auto simp: go_simps)
    from Cons.IH [OF this] obtain "is" fails where "ids = map Some is" "errs' = errs @ e # fails"
      "rd (store t) = rd (store st)" "wr (store t) = wr (store st)" by auto
    then show ?thesis
      unfolding p by (intro conjI exI [of _ "i # is"] exI [of _ "e # fails"]) auto
  next
    case (Inr k)
    with Cons.prems p obtain r u where r: "otry (get_state w k) st = (Inr r, u)"
      and go: "(case r of Inl e \<Rightarrow> query_loop w res (errs @ [e]) ids
            | Inr raw \<Rightarrow> if raw = []
                then query_loop w res (errs @ [Err ''output for key does not exist'']) ids
                else query_loop w (res @ [raw]) errs ids) u = (Inr (res', errs'), t)"
      by (auto simp: go_simps)
    from r have g: "get_state w k st = (r, u)"
      by (auto simp: otry_def split: prod.splits sum.splits error.splits)
    note u = quietD [OF quiet_get g]
    show ?thesis
    proof (cases "\<exists>e. query_loop w res (errs @ [e]) ids u = (Inr (res', errs'), t)")
      case True
      then obtain e where "query_loop w res (errs @ [e]) ids u = (Inr (res', errs'), t)" by blast
      from Cons.IH [OF this] u obtain "is" fails where "ids = map Some is" "errs' = errs @ e # fails"
        "rd (store t) = rd (store st)" "wr (store t) = wr (store st)" by auto
      then show ?thesis
        unfolding p by (intro conjI exI [of _ "i # is"] exI [of _ "e # fails"]) auto
    next
      case False
      with go obtain raw where raw: "r = Inr raw" "raw \<noteq> []"
        and l: "query_loop w (res @ [raw]) errs ids u = (Inr (res', errs'), t)"
        by (auto split: sum.splits if_splits)
      have "raw = rd (store st) k" using g raw get_state_rd by simp
      moreover from Cons.IH [OF l] u obtain "is" fails where "ids = map Some is" "errs' = errs @ fails"
        "rd (store t) = rd (store st)" "wr (store t) = wr (store st)"
        "fails = [] \<longrightarrow> list_all (\<lambda>i. \<exists>k. CreateTokenKey (TxId i) (Index i) = Inr k \<and> rd (store st) k \<noteq> []) is
           \<and> res' = (res @ [raw]) @ map (\<lambda>i. rd (store st) (id_key i)) is" by auto
      ultimately show ?thesis
        using Inr raw(2) unfolding p
        by (intro conjI exI [of _ "i # is"] exI [of _ fails]) (auto simp: id_key_def)
    qed
  qed
qed simp

lemma QueryTokens_result:
  assumes "QueryTokens w ids st = (Inr vs, t)"
  shows "rd (store t) = rd (store st) \<and> wr (store t) = wr (store st) \<and> (\<exists>is. ids = map Some is
    \<and> list_all (\<lambda>i. \<exists>k. CreateTokenKey (TxId i) (Index i) = Inr k \<and> rd (store st) k \<noteq> []) is
    \<and> vs = map (\<lambda>i. rd (store st) (id_key i)) is)"
proof -
  from assms have "query_loop w [] [] ids st = (Inr (vs, []), t)"
    by (auto simp: QueryTokens_def go_simps split: if_splits)
  from query_loop_result [OF this] show ?thesis by auto
qed

lemma spent_loop_result:
  assumes "spent_loop w f ids st = (Inr bs, t)"
  shows "bs = map (\<lambda>k. f (rd (store st) k)) ids"
  using assms
proof (induction ids arbitrary: st bs)
  case (Cons k ids)
  from Cons.prems obtain v u bs' where g: "get_state w k st = (Inr v, u)"
    and r: "spent_loop w f ids u = (Inr bs', t)" and bs: "bs = f v # bs'"
    by (auto simp: go_simps)
  show ?case using Cons.IH [OF r] get_state_quiet [OF g] get_state_rd [OF g] bs by simp
qed simp

end

section \<open>Spending\<close>

text \<open>
  The keys that only spending touches while a transaction \<open>txID\<close> is processed: tokens of
  other transactions, and serial numbers.
\<close>

definition only_spent :: "string \<Rightarrow> string \<Rightarrow> bool" where
  "only_spent txID k \<longleftrightarrow>
     (\<exists>t i. CreateTokenKey t i = Inr k \<and> t \<notin> {txID, IssueActionMetadata, TransferActionMetadata})
     \<or> (\<exists>sn. CreateSNKey sn = Inr k \<and> txID \<noteq> SerialNumber)"

definition spends :: "string \<Rightarrow> action \<Rightarrow> bool" where
  "spends k a = (case a of TransferAction t \<Rightarrow> k \<in> set (inputs_of t) | _ \<Rightarrow> False)"

definition graph_hiding :: "bool \<Rightarrow> action \<Rightarrow> bool" where
  "graph_hiding gh a = (case a of TransferAction t \<Rightarrow> taIsGraphHiding t = gh | _ \<Rightarrow> True)"

lemma the_key_eqD: "the_key r = CHR 0x00 # k \<Longrightarrow> r = Inr (CHR 0x00 # k)"
  by (auto simp: the_key_def split: sum.splits)

lemma composite_key_zero: "CreateCompositeKey ot atts = Inr k \<Longrightarrow> \<exists>k'. k = CHR 0x00 # k'"
  by (simp add: CreateCompositeKey_eq)

lemma the_key_composite:
  assumes "CreateCompositeKey ot atts = Inr k" and "the_key (CreateCompositeKey ot' atts') = k"
  shows "ot' = ot \<and> atts' = atts"
  using assms composite_key_zero [OF assms(1)] CreateCompositeKey_inject [OF _ assms(1)] the_key_eqD
  by metis

lemma only_spent_untouched:
  assumes "only_spent txID k"
  shows "the_key (CreateTokenKey txID i) \<noteq> k" "the_key (CreateIssueActionMetadataKey u) \<noteq> k"
    "the_key (CreateTransferActionMetadataKey u) \<noteq> k" "the_key CreateSetupKey \<noteq> k"
proof -
  from assms consider t j where "CreateCompositeKey TokenKeyPrefix [t, FormatUint10 j] = Inr k"
      "t \<notin> {txID, IssueActionMetadata, TransferActionMetadata}"
    | sn where "CreateCompositeKey TokenKeyPrefix [SerialNumber, sn] = Inr k" "txID \<noteq> SerialNumber"
    by (auto simp: only_spent_def key_defs)
  note c = this
  have ne: "SerialNumber \<noteq> IssueActionMetadata" "SerialNumber \<noteq> TransferActionMetadata"
    by (simp_all add: key_consts)
  show "the_key (CreateTokenKey txID i) \<noteq> k"
    by (cases rule: c) (auto simp: key_defs dest: the_key_composite)
  show "the_key (CreateIssueActionMetadataKey u) \<noteq> k"
    using ne by (cases rule: c) (auto simp: key_defs dest: the_key_composite)
  show "the_key (CreateTransferActionMetadataKey u) \<noteq> k"
    using ne by (cases rule: c) (auto simp: key_defs dest: the_key_composite)
  show "the_key CreateSetupKey \<noteq> k"
    by (cases rule: c) (auto simp: key_defs dest: the_key_composite)
qed

lemma only_spent_writes:
  assumes "only_spent txID k" and "(k, v) \<in> set (action_writes txID c a)"
  shows "\<exists>t. a = TransferAction t \<and> k \<in> set (inputs_of t) \<and> v = (if taIsGraphHiding t then ''true'' else [])"
  using assms only_spent_untouched [OF assms(1)]
  by (cases a) (auto simp: transfer_outputs_def transfer_spends_def metadata_writes_def)

lemma apply_writes_const:
  assumes "\<And>v. (k, v) \<in> set ws \<Longrightarrow> v = u"
  shows "apply_writes ws L k = (if k \<in> fst ` set ws then u else L k)"
proof (cases "k \<in> fst ` set ws")
  case True
  then have "map_of (rev ws) k \<noteq> None" by (simp add: map_of_eq_None_iff)
  then obtain v where v: "map_of (rev ws) k = Some v" by blast
  then have "v = u" using assms map_of_SomeD by fastforce
  with True v show ?thesis by (simp add: apply_writes_map_of)
qed (simp add: apply_writes_other)

locale translator_own_writes = rwset_own_writes "RWSet w" "namespace w" rd wr
  for w :: "'s Translator" and rd wr

sublocale translator_own_writes \<subseteq> tr: translator_store w rd wr
  by unfold_locales

context translator_own_writes begin

text \<open>
  A key is available when it holds a token that may be spent; with serial numbers, when
  its serial number is not there.
\<close>

definition available :: "bool \<Rightarrow> string \<Rightarrow> ledger \<Rightarrow> bool" where
  "available gh k L \<longleftrightarrow> (L k = []) = gh"

lemma Write_availability:
  assumes "Write w a st = (Inr (), t)" and "only_spent (TxID w) k" and "graph_hiding gh a"
  shows "if spends k a then available gh k (rd (store st)) \<and> \<not> available gh k (rd (store t))
    else rd (store t) k = rd (store st) k"
proof -
  note eff = tr.Write_effect [OF assms(1)]
  let ?ws = "action_writes (TxID w) (counter st) a"
  note own = only_spent_writes [OF assms(2)]
  have val: "v = (if gh then ''true'' else [])" if "(k, v) \<in> set ?ws" for v
    using own [OF that] assms(3) by (auto simp: graph_hiding_def)
  have mem: "k \<in> fst ` set ?ws \<longleftrightarrow> spends k a"
  proof
    assume "k \<in> fst ` set ?ws"
    then show "spends k a" using own by (force simp: spends_def)
  next
    assume "spends k a"
    then show "k \<in> fst ` set ?ws"
      by (cases a) (force simp: spends_def transfer_spends_def)+
  qed
  have res: "rd (store t) k = (if spends k a then if gh then ''true'' else [] else rd (store st) k)"
    using apply_writes_const [of k ?ws "if gh then ''true'' else []", OF val] eff(2) rd_wr mem by simp
  have "spends k a \<Longrightarrow> available gh k (rd (store st))"
    using eff(1) assms(3) by (cases a) (auto simp: spends_def graph_hiding_def available_def)
  with res show ?thesis by (auto simp: available_def)
qed

lemma unavailable_stays:
  assumes "ofor (Write w) acts st = (Inr (), t)" and "only_spent (TxID w) k"
    and "list_all (graph_hiding gh) acts" and "\<not> available gh k (rd (store st))"
  shows "filter (spends k) acts = [] \<and> rd (store t) k = rd (store st) k"
  using assms(1,3,4)
proof (induction acts arbitrary: st)
  case (Cons a acts)
  from Cons.prems(1) obtain u where u: "Write w a st = (Inr (), u)" and r: "ofor (Write w) acts u = (Inr (), t)"
    by (auto simp: go_simps)
  have "\<not> spends k a \<and> rd (store u) k = rd (store st) k"
    using Write_availability [OF u assms(2), of gh] Cons.prems by (auto split: if_splits)
  with Cons.IH [OF r] Cons.prems show ?case by (auto simp: available_def)
qed simp

lemma spent_at_most_once:
  assumes "ofor (Write w) acts st = (Inr (), t)" and "only_spent (TxID w) k"
    and "list_all (graph_hiding gh) acts"
  shows "length (filter (spends k) acts) \<le> 1
    \<and> (filter (spends k) acts \<noteq> [] \<longrightarrow> available gh k (rd (store st)) \<and> \<not> available gh k (rd (store t)))
    \<and> (filter (spends k) acts = [] \<longrightarrow> rd (store t) k = rd (store st) k)"
  using assms(1,3)
proof (induction acts arbitrary: st)
  case (Cons a acts)
  from Cons.prems(1) obtain u where u: "Write w a st = (Inr (), u)" and r: "ofor (Write w) acts u = (Inr (), t)"
    by (auto simp: go_simps)
  note a = Write_availability [OF u assms(2), of gh]
  show ?case
  proof (cases "spends k a")
    case True
    with a Cons.prems have "available gh k (rd (store st))" and na: "\<not> available gh k (rd (store u))"
      by auto
    with unavailable_stays [OF r assms(2) _ na] Cons.prems True show ?thesis
      by (auto simp: available_def)
  next
    case False
    with a Cons.prems have "rd (store u) k = rd (store st) k" by auto
    with Cons.IH [OF r] Cons.prems False show ?thesis by (auto simp: available_def)
  qed
qed simp

end

section \<open>Properties\<close>

text \<open>
  A concrete action, for the examples: one input, one output that is not redeemed; and the
  translators of a vault and of a chaincode.
\<close>

definition single_transfer :: "string \<Rightarrow> bytes \<Rightarrow> transfer_action" where
  "single_transfer k out =
     \<lparr>taNumOutputs = 1, taIsRedeemAt = (\<lambda>_. Inr False), taSerializeOutputAt = (\<lambda>_. Inr out),
      taGetInputs = Inr [k], taIsGraphHiding = False, taGetMetadata = []\<rparr>"

definition vault_translator :: "string \<Rightarrow> (string \<Rightarrow> ledger) Translator" where
  "vault_translator txID = \<lparr>RWSet = map_rws, TxID = txID, namespace = ''ns''\<rparr>"

definition chaincode_translator :: "string \<Rightarrow> simulation Translator" where
  "chaincode_translator txID = \<lparr>RWSet = rwsWrapper shim_stub, TxID = txID, namespace = ''ns''\<rparr>"

lemma vault_single:
  assumes "CreateTokenKey txID (counter st) = Inr k'" and "store st ''ns'' k \<noteq> []"
    and "store st ''ns'' k' = []"
  shows "Write (vault_translator txID) (TransferAction (single_transfer k out)) st
    = (Inr (), \<lparr>counter = counter st + 1,
        store = (store st)(''ns'' := (store st ''ns'')(k' := out, k := []))\<rparr>)"
proof -
  have "k \<noteq> k'" using assms(2,3) by auto
  then show ?thesis
    using assms
    by (simp add: Write_def checkProcess_def commitProcess_def checkAction_def commitAction_def
        checkTransfer_def commitTransferAction_def checkTokenDoesNotExist_def spendTokens_def
        store_metadata_def add_counter_def obind_def on_store_def output_index_def ocheck_def
        single_transfer_def vault_translator_def map_rws_def)
qed

lemma chaincode_single:
  assumes "CreateTokenKey txID (counter st) = Inr k'" and "committed (store st) k \<noteq> []"
    and "committed (store st) k' = []"
  shows "Write (chaincode_translator txID) (TransferAction (single_transfer k out)) st
    = (Inr (), \<lparr>counter = counter st + 1,
        store = (store st)\<lparr>write_set := (write_set (store st))(k' := out, k := [])\<rparr>\<rparr>)"
proof -
  have "k \<noteq> k'" using assms(2,3) by auto
  then show ?thesis
    using assms
    by (simp add: Write_def checkProcess_def commitProcess_def checkAction_def commitAction_def
        checkTransfer_def commitTransferAction_def checkTokenDoesNotExist_def spendTokens_def
        store_metadata_def add_counter_def obind_def on_store_def output_index_def ocheck_def
        single_transfer_def chaincode_translator_def rwsWrapper_defs shim_stub_def)
qed

lemma vault_own_writes:
  "rwset_own_writes (RWSet (vault_translator txID)) (namespace (vault_translator txID))
     (\<lambda>s. s ''ns'') (\<lambda>s. s ''ns'')"
  using map_store.rwset_own_writes_axioms by (simp add: vault_translator_def)

lemma vault_rwset:
  "rwset (RWSet (vault_translator txID)) (namespace (vault_translator txID))
     (\<lambda>s. s ''ns'') (\<lambda>s. s ''ns'')"
  using map_store.rwset_axioms by (simp add: vault_translator_def)

lemma token_key_example:
  assumes "valid_attribute t" and "valid_attribute u" and "t \<noteq> u"
  obtains k k' where "CreateTokenKey t i = Inr k" "CreateTokenKey u j = Inr k'" "k \<noteq> k'"
  using CreateTokenKey_total [OF assms(1), of i] CreateTokenKey_total [OF assms(2), of j]
    CreateTokenKey_inject assms(3) by metis

text \<open>
  C5: on any read-write set, an action that the translator accepts satisfied the
  conditions of the abstract ledger, and its effect on the namespace is the abstract one:
  the outputs under the keys of this transaction from the counter on, then the inputs
  deleted (or the serial numbers added), then the metadata; the counter moves by the number
  of outputs.
\<close>
theorem Write_refines_ledger:
  assumes "rwset (RWSet w) (namespace w) rd wr" and "Write w a st = (Inr (), t)"
  shows "admissible (TxID w) (counter st) (rd (store st)) a
    \<and> wr (store t) = apply_writes (action_writes (TxID w) (counter st) a) (wr (store st))
    \<and> counter t = counter st + of_nat (action_outputs a)"
  using translator_store.Write_effect [OF translator_store.intro [OF assms(1)] assms(2)] by blast

lemma Write_refines_ledger_witness:
  "\<exists>k k'. k \<noteq> k' \<and> CreateTokenKey ''tx'' 0 = Inr k'
    \<and> admissible ''tx'' 0 ((\<lambda>_. [])(k := ''T'')) (TransferAction (single_transfer k ''O''))"
proof -
  obtain k k' where k: "CreateTokenKey ''t'' 0 = Inr k" "CreateTokenKey ''tx'' 0 = Inr k'" "k \<noteq> k'"
    by (rule token_key_example [of "''t''" "''tx''" 0 0]) (simp_all add: valid_attribute_ascii)
  let ?st = "\<lparr>counter = 0, store = \<lambda>_. (\<lambda>_. [])(k := ''T'')\<rparr>"
  note w = vault_single [of "''tx''" ?st k' k "''O''"]
  have "Write (vault_translator ''tx'') (TransferAction (single_transfer k ''O'')) ?st
    = (Inr (), \<lparr>counter = 1, store = (store ?st)(''ns'' := (store ?st ''ns'')(k' := ''O'', k := []))\<rparr>)"
    using w k by simp
  from Write_refines_ledger [OF vault_rwset this]
  have "admissible ''tx'' 0 ((\<lambda>_. [])(k := ''T'')) (TransferAction (single_transfer k ''O''))"
    by (simp add: vault_translator_def del: admissible.simps)
  with k show ?thesis by blast
qed

text \<open>
  An action whose conditions do not hold (an input that is spent, a serial number
  that is there, an output key that is taken, an unknown action) is refused before anything
  is written: the namespace and the counter are as before.
\<close>
theorem inadmissible_rejected:
  assumes "rwset (RWSet w) (namespace w) rd wr"
    and "\<not> admissible (TxID w) (counter st) (rd (store st)) a"
  shows "\<exists>e t. Write w a st = (Inl e, t) \<and> wr (store t) = wr (store st) \<and> counter t = counter st"
proof -
  note tr = translator_store.intro [OF assms(1)]
  obtain r t where c: "checkAction w a st = (r, t)" by force
  show ?thesis
  proof (cases r)
    case (Inl e)
    with c translator_store.Write_rejected [OF tr] show ?thesis by blast
  next
    case (Inr u)
    with c translator_store.checkAction_admissible [OF tr] assms(2) show ?thesis by fastforce
  qed
qed

lemma inadmissible_rejected_witness:
  "\<exists>e t. Write (vault_translator ''tx'') (TransferAction (single_transfer ''k'' ''O''))
      \<lparr>counter = 0, store = \<lambda>_ _. []\<rparr> = (Inl e, t) \<and> store t ''ns'' = (\<lambda>_. [])"
  using inadmissible_rejected [OF vault_rwset, of "''tx''" "\<lparr>counter = 0, store = \<lambda>_ _. []\<rparr>"
      "TransferAction (single_transfer ''k'' ''O'')"]
  by (auto simp: single_transfer_def inputs_of_def)

text \<open>
  C6: no double spending across the actions of a request, when reads see the writes of the
  request: of the actions that the translator has written in one transaction, at most one
  spends a given token of another transaction or a given serial number; the token was there
  before and is gone afterwards, and one that no action spends is untouched.
\<close>
theorem token_spent_once:
  assumes "rwset_own_writes (RWSet w) (namespace w) rd wr"
    and "ofor (Write w) acts st = (Inr (), t)"
    and "only_spent (TxID w) k" and "list_all (graph_hiding gh) acts"
  shows "length (filter (spends k) acts) \<le> 1
    \<and> (filter (spends k) acts \<noteq> [] \<longrightarrow>
        (rd (store st) k = []) = gh \<and> (rd (store t) k = []) = (\<not> gh))
    \<and> (filter (spends k) acts = [] \<longrightarrow> rd (store t) k = rd (store st) k)"
  using translator_own_writes.spent_at_most_once
    [OF translator_own_writes.intro [OF assms(1)] assms(2-4)]
    translator_own_writes.available_def [OF translator_own_writes.intro [OF assms(1)]]
  by (metis (full_types))

lemma token_spent_once_witness:
  "\<exists>k t. CreateTokenKey ''t'' 0 = Inr k
    \<and> ofor (Write (vault_translator ''tx'')) [TransferAction (single_transfer k ''O'')]
        \<lparr>counter = 0, store = \<lambda>_. (\<lambda>_. [])(k := ''T'')\<rparr> = (Inr (), t)
    \<and> store t ''ns'' k = []"
proof -
  obtain k k' where k: "CreateTokenKey ''t'' 0 = Inr k" "CreateTokenKey ''tx'' 0 = Inr k'" "k \<noteq> k'"
    by (rule token_key_example [of "''t''" "''tx''" 0 0]) (simp_all add: valid_attribute_ascii)
  let ?st = "\<lparr>counter = 0, store = \<lambda>_. (\<lambda>_. [])(k := ''T'')\<rparr>"
  let ?a = "TransferAction (single_transfer k ''O'')"
  obtain t where t: "ofor (Write (vault_translator ''tx'')) [?a] ?st = (Inr (), t)"
    using vault_single [of "''tx''" ?st k' k "''O''"] k by (simp add: obind_def)
  have "only_spent (TxID (vault_translator ''tx'')) k"
    using k(1) by (auto simp: only_spent_def vault_translator_def key_consts)
  moreover have "list_all (graph_hiding False) [?a]"
    by (simp add: graph_hiding_def single_transfer_def)
  moreover have "filter (spends k) [?a] \<noteq> []"
    by (simp add: spends_def single_transfer_def inputs_of_def)
  ultimately have "(store t ''ns'' k = []) = (\<not> False)"
    using token_spent_once [OF vault_own_writes t] by blast
  with t k show ?thesis by blast
qed

text \<open>
  C38: in the chaincode, where reads see the committed state only, two transfers of one
  request that spend the same token are both written: the token is deleted once, and both
  outputs are created.
\<close>
theorem chaincode_double_spend:
  assumes "CreateTokenKey txID 0 = Inr k0" and "CreateTokenKey txID 1 = Inr k1"
    and "c k \<noteq> []" and "c k0 = []" and "c k1 = []"
  shows "\<exists>t. ofor (Write (chaincode_translator txID))
        [TransferAction (single_transfer k o0), TransferAction (single_transfer k o1)]
        \<lparr>counter = 0, store = \<lparr>committed = c, write_set = c\<rparr>\<rparr> = (Inr (), t)
      \<and> write_set (store t) = c(k0 := o0, k := [], k1 := o1)"
proof -
  have ne: "k0 \<noteq> k" "k1 \<noteq> k" "k0 \<noteq> k1"
    using assms CreateTokenKey_inject [of txID 0 k0 txID 1] by auto
  show ?thesis
    using chaincode_single [of txID "\<lparr>counter = 0, store = \<lparr>committed = c, write_set = c\<rparr>\<rparr>" k0 k o0]
      chaincode_single [of txID "\<lparr>counter = 1, store = \<lparr>committed = c,
          write_set = c(k0 := o0, k := [])\<rparr>\<rparr>" k1 k o1] assms ne
    by (auto simp: obind_def fun_upd_twist)
qed

lemma chaincode_double_spend_witness:
  "\<exists>k0 k1 t. k0 \<noteq> ''k'' \<and> k1 \<noteq> ''k'' \<and> k0 \<noteq> k1 \<and> ofor (Write (chaincode_translator ''tx''))
        [TransferAction (single_transfer ''k'' ''A''), TransferAction (single_transfer ''k'' ''B'')]
        \<lparr>counter = 0, store = \<lparr>committed = (\<lambda>_. [])(''k'' := ''T''), write_set = (\<lambda>_. [])(''k'' := ''T'')\<rparr>\<rparr>
        = (Inr (), t)
      \<and> write_set (store t) k0 = ''A'' \<and> write_set (store t) k1 = ''B''"
proof -
  have v: "valid_attribute ''tx''" by (simp add: valid_attribute_ascii)
  obtain k0 k1 where k: "CreateTokenKey ''tx'' 0 = Inr k0" "CreateTokenKey ''tx'' 1 = Inr k1"
    using CreateTokenKey_total [OF v] by blast
  have "k0 \<noteq> k1" using k CreateTokenKey_inject [of "''tx''" 0 k0 "''tx''" 1] by auto
  moreover have "k0 \<noteq> ''k''" "k1 \<noteq> ''k''"
    using k composite_key_zero by (fastforce simp: CreateTokenKey_def)+
  ultimately show ?thesis
    using chaincode_double_spend [OF k, of "(\<lambda>_. [])(''k'' := ''T'')" "''k''" "''A''" "''B''"]
    by (intro exI [of _ k0] exI [of _ k1]) auto
qed

text \<open>
  C7: a transaction identifier is used once: after a request was recorded for it (a request
  whose recorded form, the request or its hash, is not empty), every state that reads the
  recorded namespace refuses to record another request under the identifier, and is not
  written to.
\<close>
theorem request_replay_rejected:
  assumes "rwset (RWSet w) (namespace w) rd wr"
    and "CommitTokenRequest sha256 w raw storeHash st = (Inr (), t)"
    and "(if storeHash then sha256 raw else raw) \<noteq> []"
    and "rd (store u) = wr (store t)"
  shows "\<exists>k. CreateTokenRequestKey (TxID w) = Inr k
    \<and> wr (store t) = (wr (store st))(k := if storeHash then sha256 raw else raw)
    \<and> (\<exists>e v. CommitTokenRequest sha256 w raw' storeHash' u = (Inl e, v) \<and> wr (store v) = wr (store u))"
proof -
  note tr = translator_store.intro [OF assms(1)]
  note quiet = translator_store.quietD [OF tr translator_store.quiet_get [OF tr]]
  from assms(2) obtain k v s where k: "CreateTokenRequestKey (TxID w) = Inr k"
    and g: "get_state w k st = (Inr v, s)"
    and m: "set_state w k (if storeHash then sha256 raw else raw) s = (Inr (), t)"
    by (auto simp: CommitTokenRequest_def go_simps simp del: split_paired_Ex)
  have wr: "wr (store t) = (wr (store st))(k := if storeHash then sha256 raw else raw)"
    using translator_store.writesD [OF tr translator_store.writes_set [OF tr] m refl] quiet [OF g]
    by simp
  obtain r v where gu: "get_state w k u = (r, v)" by force
  have "r \<noteq> Inr []"
    using translator_store.get_state_rd [OF tr, of k u "[]" v] gu assms(3,4) wr by auto
  then have "\<exists>e. CommitTokenRequest sha256 w raw' storeHash' u = (Inl e, v)"
    using k gu by (cases r) (auto simp: CommitTokenRequest_def obind_def ocheck_def)
  with k wr quiet [OF gu] show ?thesis by blast
qed

lemma request_replay_rejected_witness:
  "\<exists>k v t e. CommitTokenRequest (\<lambda>b. b) (vault_translator ''tx'') ''req'' False
      \<lparr>counter = 0, store = \<lambda>_ _. []\<rparr> = (Inr (), t)
    \<and> store t ''ns'' k = ''req''
    \<and> CommitTokenRequest (\<lambda>b. b) (vault_translator ''tx'') ''other'' True t = (Inl e, v)"
proof -
  have "\<exists>k. CreateTokenRequestKey ''tx'' = Inr k"
    by (simp add: CreateTokenRequestKey_def CreateCompositeKey_eq valid_attribute_ascii key_consts)
  then obtain t where t: "CommitTokenRequest (\<lambda>b. b) (vault_translator ''tx'') ''req'' False
      \<lparr>counter = 0, store = \<lambda>_ _. []\<rparr> = (Inr (), t)"
    by (auto simp: CommitTokenRequest_def vault_translator_def map_rws_def obind_def ocheck_def on_store_def)
  show ?thesis
    using request_replay_rejected [OF vault_rwset t, of t "''other''" True] t by fastforce
qed

text \<open>
  A query for tokens returns all of them or fails: the values under their keys, in the
  order of the query and none of them empty; and the same state reports none of them as
  spent.
\<close>
theorem QueryTokens_all_or_nothing:
  assumes "rwset (RWSet w) (namespace w) rd wr" and "QueryTokens w ids st = (Inr vs, t)"
  shows "\<exists>is. ids = map Some is \<and> vs = map (\<lambda>i. rd (store st) (id_key i)) is
    \<and> [] \<notin> set vs
    \<and> (areTokensSpent w (map id_key is) False st = (Inr bs, u) \<longrightarrow> bs = replicate (length is) False)"
proof -
  note tr = translator_store.intro [OF assms(1)]
  from translator_store.QueryTokens_result [OF tr assms(2)] obtain "is" where ids: "ids = map Some is"
    and ne: "list_all (\<lambda>i. \<exists>k. CreateTokenKey (TxId i) (Index i) = Inr k \<and> rd (store st) k \<noteq> []) is"
    and vs: "vs = map (\<lambda>i. rd (store st) (id_key i)) is" by blast
  have ne: "\<forall>i \<in> set is. rd (store st) (id_key i) \<noteq> []"
    using ne by (auto simp: list_all_iff id_key_def)
  then have "map (\<lambda>i. rd (store st) (id_key i) = []) is = replicate (length is) False"
    by (simp add: map_replicate_const [symmetric])
  then have "areTokensSpent w (map id_key is) False st = (Inr bs, u) \<Longrightarrow> bs = replicate (length is) False"
    using translator_store.spent_loop_result [OF tr] by (fastforce simp: areTokensSpent_def comp_def)
  moreover have "[] \<notin> set vs" using ne vs by auto
  ultimately show ?thesis using ids vs by blast
qed

lemma QueryTokens_all_or_nothing_witness:
  "\<exists>vs t. QueryTokens (vault_translator ''tx'') [Some \<lparr>TxId = ''t'', Index = 0\<rparr>]
      \<lparr>counter = 0, store = \<lambda>_ _. ''T''\<rparr> = (Inr vs, t) \<and> vs = [''T'']"
proof -
  have "\<exists>k. CreateTokenKey ''t'' 0 = Inr k" by (rule CreateTokenKey_total) (simp add: valid_attribute_ascii)
  then obtain vs t where q: "QueryTokens (vault_translator ''tx'') [Some \<lparr>TxId = ''t'', Index = 0\<rparr>]
      \<lparr>counter = 0, store = \<lambda>_ _. ''T''\<rparr> = (Inr vs, t)"
    by (auto simp: QueryTokens_def vault_translator_def map_rws_def obind_def on_store_def otry_def)
  with QueryTokens_all_or_nothing [OF vault_rwset q] show ?thesis by (force simp: Cons_eq_map_conv)
qed

end
