(* ===== verification/Encodings.thy ===== *)
theory Encodings
  imports Numerals
begin

text \<open>
  The encodings of hashes (\<open>token/services/interop/encoding/encoding.go\<close>): the registry
  of encoding functions and the three that the package registers, with \<open>encoding/hex\<close>
  and the standard encoding of \<open>encoding/base64\<close> written out.
\<close>

section \<open>Hexadecimal (encoding/hex)\<close>

definition hex_byte :: "nat \<Rightarrow> string" where
  "hex_byte b = [digit_char (b div 16), digit_char (b mod 16)]"

definition hex_EncodeToString :: "bytes \<Rightarrow> string" where
  "hex_EncodeToString src = concat (map (\<lambda>c. hex_byte (of_char c)) src)"

section \<open>Base64 (encoding/base64)\<close>

definition base64_char :: "nat \<Rightarrow> char" where
  "base64_char d =
     (if d < 26 then char_of (65 + d)
      else if d < 52 then char_of (71 + d)
      else if d < 62 then char_of (d - 4)
      else if d = 62 then CHR ''+'' else CHR ''/'')"

fun base64_encode :: "nat list \<Rightarrow> string" where
  "base64_encode [] = []"
| "base64_encode [a] =
     [base64_char (a div 4), base64_char (a mod 4 * 16), CHR ''='', CHR ''='']"
| "base64_encode [a, b] =
     [base64_char (a div 4), base64_char (a mod 4 * 16 + b div 16), base64_char (b mod 16 * 4), CHR ''='']"
| "base64_encode (a # b # c # rest) =
     [base64_char (a div 4), base64_char (a mod 4 * 16 + b div 16),
      base64_char (b mod 16 * 4 + c div 64), base64_char (c mod 64)] @ base64_encode rest"

definition base64_EncodeToString :: "bytes \<Rightarrow> string" where
  "base64_EncodeToString src = base64_encode (map of_char src)"

text \<open>
  Reading it back (\<open>StdEncoding.DecodeString\<close>): line breaks are skipped, padding is
  required and ends the text, the unused bits before the padding are not looked at.
\<close>

definition base64_value :: "char \<Rightarrow> nat option" where
  "base64_value c = (let n = of_char c :: nat in
     if 65 \<le> n \<and> n \<le> 90 then Some (n - 65)
     else if 97 \<le> n \<and> n \<le> 122 then Some (n - 71)
     else if 48 \<le> n \<and> n \<le> 57 then Some (n + 4)
     else if n = 43 then Some 62
     else if n = 47 then Some 63
     else None)"

definition base64_digit :: "char \<Rightarrow> nat res" where
  "base64_digit c = (case base64_value c of None \<Rightarrow> Inl (Err ''illegal base64 data'') | Some d \<Rightarrow> Inr d)"

fun base64_decode :: "string \<Rightarrow> nat list res" where
  "base64_decode [] = Inr []"
| "base64_decode (c0 # c1 # c2 # c3 # rest) =
     rbind (base64_digit c0) (\<lambda>a. rbind (base64_digit c1) (\<lambda>b.
     if c2 = CHR ''='' then
       rbind (rcheck (c3 = CHR ''='' \<and> rest = []) ''illegal base64 data'') (\<lambda>_. Inr [a * 4 + b div 16])
     else rbind (base64_digit c2) (\<lambda>c.
       if c3 = CHR ''='' then
         rbind (rcheck (rest = []) ''illegal base64 data'') (\<lambda>_.
         Inr [a * 4 + b div 16, b mod 16 * 16 + c div 4])
       else rbind (base64_digit c3) (\<lambda>d. rbind (base64_decode rest) (\<lambda>bs.
         Inr ((a * 4 + b div 16) # (b mod 16 * 16 + c div 4) # (c mod 4 * 64 + d) # bs))))))"
| "base64_decode _ = Inl (Err ''illegal base64 data'')"

definition base64_DecodeString :: "string \<Rightarrow> bytes res" where
  "base64_DecodeString s =
     rbind (base64_decode (filter (\<lambda>c. c \<noteq> CHR 0x0A \<and> c \<noteq> CHR 0x0D) s)) (\<lambda>bs. Inr (map char_of bs))"

section \<open>The registry\<close>

type_synonym EncodingFunc = "bytes \<Rightarrow> string"
type_synonym Encoding = u64

definition Enc_None :: Encoding where "Enc_None = 0"
definition Enc_Base64 :: Encoding where "Enc_Base64 = 1"
definition Enc_Hex :: Encoding where "Enc_Hex = 2"
definition maxEncoding :: Encoding where "maxEncoding = 3"

lemmas encoding_consts = Enc_None_def Enc_Base64_def Enc_Hex_def maxEncoding_def

text \<open>The package variable \<open>Encodings\<close>: a slice of functions, nil where none is registered.\<close>

type_synonym registry = "EncodingFunc option list"

definition empty_registry :: registry where
  "empty_registry = replicate (unat maxEncoding) None"

definition RegisterEncoding :: "Encoding \<Rightarrow> EncodingFunc \<Rightarrow> (registry, unit) oper" where
  "RegisterEncoding e f = (\<lambda>encs.
     if maxEncoding \<le> e then (Inl (Err ''RegisterEncoding of unknown Encoding function''), encs)
     else (Inr (), encs[unat e := Some f]))"

definition Encoding_New :: "registry \<Rightarrow> Encoding \<Rightarrow> EncodingFunc option" where
  "Encoding_New encs e = (if e < maxEncoding then encs ! unat e else None)"

definition Encoding_Available :: "registry \<Rightarrow> Encoding \<Rightarrow> bool" where
  "Encoding_Available encs e \<longleftrightarrow> e < maxEncoding \<and> encs ! unat e \<noteq> None"

text \<open>\<open>strconv.Itoa(int(e))\<close> converts to a signed integer.\<close>

definition Encoding_String :: "Encoding \<Rightarrow> string" where
  "Encoding_String e =
     (if e = Enc_None then ''None''
      else if e = Enc_Base64 then ''Base64''
      else if e = Enc_Hex then ''Hex''
      else ''unknown Encoding value '' @
        (if sint e < 0 then [CHR ''-''] else []) @ format_nat 10 (nat \<bar>sint e\<bar>))"

definition noneEncoding :: EncodingFunc where
  "noneEncoding src = src"

definition hexEncoding :: EncodingFunc where
  "hexEncoding src = hex_EncodeToString src"

text \<open>The registry after \<open>init\<close>; nothing else in the repository registers an encoding.\<close>

definition init_encodings :: "(registry, unit) oper" where
  "init_encodings =
     obind (RegisterEncoding Enc_None noneEncoding) (\<lambda>_.
     obind (RegisterEncoding Enc_Base64 base64_EncodeToString) (\<lambda>_.
     RegisterEncoding Enc_Hex hexEncoding))"


definition Encodings :: registry where
  "Encodings = snd (init_encodings empty_registry)"

lemma Encodings_eq: "Encodings = [Some noneEncoding, Some base64_EncodeToString, Some hexEncoding]"
proof -
  have "unat maxEncoding = 3" by (simp add: maxEncoding_def)
  then have e: "empty_registry = [None, None, None]"
    by (simp only: empty_registry_def) (simp add: numeral_3_eq_3)
  have "unat (2 :: u64) = 2" by simp
  moreover have "[a, b, c][2 := d] = [a, b, d]" for a b c d :: "EncodingFunc option"
    by (simp add: numeral_2_eq_2)
  moreover have "\<not> 3 \<le> (1 :: u64)" by (simp add: word_le_nat_alt)
  ultimately show ?thesis
    by (simp add: Encodings_def init_encodings_def obind_def RegisterEncoding_def encoding_consts e)
qed

lemma encoding_cases:
  assumes "e < maxEncoding"
  obtains "e = Enc_None" | "e = Enc_Base64" | "e = Enc_Hex"
proof -
  have "unat e < 3" using assms by (simp add: maxEncoding_def word_less_nat_alt)
  then have "unat e = 0 \<or> unat e = 1 \<or> unat e = 2" by linarith
  then have "e = 0 \<or> e = 1 \<or> e = 2" by (auto simp: word_unat_eq_iff)
  with that show ?thesis by (auto simp: encoding_consts)
qed

lemma Encoding_New_eq:
  "Encoding_New Encodings Enc_None = Some noneEncoding"
  "Encoding_New Encodings Enc_Base64 = Some base64_EncodeToString"
  "Encoding_New Encodings Enc_Hex = Some hexEncoding"
  by (simp_all add: Encoding_New_def Encodings_eq encoding_consts)

section \<open>The encodings lose nothing\<close>

lemma of_char_256: "(of_char c :: nat) < 256"
  by (rule nat_of_char_less_256)

lemma digit_char_inject: "d < 36 \<Longrightarrow> e < 36 \<Longrightarrow> digit_char d = digit_char e \<longleftrightarrow> d = e"
  by (metis char_digit_digit_char)

lemma hex_byte_inject:
  assumes "a < 256" and "b < 256"
  shows "hex_byte a = hex_byte b \<longleftrightarrow> a = b"
proof -
  have lt: "a div 16 < 36" "b div 16 < 36" "a mod 16 < 36" "b mod 16 < 36"
    using assms by simp_all
  have "a div 16 = b div 16 \<Longrightarrow> a mod 16 = b mod 16 \<Longrightarrow> a = b"
    by (metis mult_div_mod_eq)
  then show ?thesis
    using lt by (auto simp: hex_byte_def digit_char_inject)
qed

lemma hex_inject: "hex_EncodeToString x = hex_EncodeToString y \<longleftrightarrow> x = y"
proof
  assume "hex_EncodeToString x = hex_EncodeToString y"
  then show "x = y"
  proof (induction x arbitrary: y)
    case Nil
    then show ?case by (cases y) (auto simp: hex_EncodeToString_def hex_byte_def)
  next
    case (Cons c x)
    then obtain d z where y: "y = d # z" by (cases y) (auto simp: hex_EncodeToString_def hex_byte_def)
    with Cons.prems have "hex_byte (of_char c) = hex_byte (of_char d)"
      and "hex_EncodeToString x = hex_EncodeToString z"
      by (auto simp: hex_EncodeToString_def hex_byte_def)
    with Cons.IH y show ?case by (simp add: hex_byte_inject of_char_256)
  qed
qed simp

lemma hex_length: "length (hex_EncodeToString x) = 2 * length x"
  by (induction x) (auto simp: hex_EncodeToString_def hex_byte_def)

text \<open>The value of a base64 digit, to read one back.\<close>

lemma base64_char_code:
  "d < 64 \<Longrightarrow> (of_char (base64_char d) :: nat) =
     (if d < 26 then 65 + d else if d < 52 then 71 + d else if d < 62 then d - 4
      else if d = 62 then 43 else 47)"
  by (simp add: base64_char_def)

lemma base64_char_inject:
  assumes "d < 64" and "e < 64"
  shows "base64_char d = base64_char e \<longleftrightarrow> d = e"
proof
  assume "base64_char d = base64_char e"
  then have "(of_char (base64_char d) :: nat) = of_char (base64_char e)" by simp
  with assms show "d = e" by (auto simp: base64_char_code split: if_splits)
qed simp

lemma base64_char_not_pad:
  assumes "d < 64"
  shows "base64_char d \<noteq> CHR ''=''"
proof
  assume "base64_char d = CHR ''=''"
  then have "(of_char (base64_char d) :: nat) = 61" by simp
  with assms show False by (auto simp: base64_char_code split: if_splits)
qed


lemma div_mod_eqI: "a div n = b div n \<Longrightarrow> a mod n = b mod n \<Longrightarrow> a = b" for a :: nat
  by (metis mult_div_mod_eq)

lemma split16: "x * 16 + u = y * 16 + v \<Longrightarrow> u < 16 \<Longrightarrow> v < 16 \<Longrightarrow> x = y \<and> u = v"
  for x :: nat by presburger

lemma split4: "x * 4 + u = y * 4 + v \<Longrightarrow> u < 4 \<Longrightarrow> v < 4 \<Longrightarrow> x = y \<and> u = v"
  for x :: nat by presburger

text \<open>The digits of a group of one, two or three bytes determine the bytes.\<close>

lemma base64_digits:
  assumes "a < 256" and "b < 256" and "c < (256::nat)"
  shows "a div 4 < 64" "a mod 4 * 16 < 64" "a mod 4 * 16 + b div 16 < 64" "b mod 16 * 4 < 64"
    "b mod 16 * 4 + c div 64 < 64" "c mod 64 < 64"
proof -
  have "a div 4 < 64" "b div 16 < 16" "c div 64 < 4" using assms by (simp_all add: less_mult_imp_div_less)
  moreover have "a mod 4 < 4" "b mod 16 < 16" "c mod 64 < 64" by simp_all
  ultimately show "a div 4 < 64" "a mod 4 * 16 < 64" "a mod 4 * 16 + b div 16 < 64"
    "b mod 16 * 4 < 64" "b mod 16 * 4 + c div 64 < 64" "c mod 64 < 64"
    by linarith+
qed

lemma base64_two:
  assumes "b < 256" and "b' < (256::nat)" and "a div 4 = a' div 4"
    and "a mod 4 * 16 + b div 16 = a' mod 4 * 16 + b' div 16"
  shows "a = a' \<and> b div 16 = b' div 16"
proof -
  have "b div 16 < 16" "b' div 16 < 16" using assms by (simp_all add: less_mult_imp_div_less)
  with split16 [OF assms(4)] have "a mod 4 = a' mod 4" "b div 16 = b' div 16" by blast+
  with assms(3) div_mod_eqI [of a 4 a'] show ?thesis by blast
qed

lemma base64_three:
  assumes "c < 256" and "c' < (256::nat)" and "b div 16 = b' div 16" and "c mod 64 = c' mod 64"
    and "b mod 16 * 4 + c div 64 = b' mod 16 * 4 + c' div 64"
  shows "b = b' \<and> c = c'"
proof -
  have "c div 64 < 4" "c' div 64 < 4" using assms by (simp_all add: less_mult_imp_div_less)
  with split4 [OF assms(5)] have "b mod 16 = b' mod 16" "c div 64 = c' div 64" by blast+
  with assms(3,4) div_mod_eqI [of b 16 b'] div_mod_eqI [of c 64 c'] show ?thesis by blast
qed

lemma base64_group:
  assumes "a < 256" "b < 256" "c < 256" "a' < 256" "b' < 256" "c' < (256::nat)"
    and "base64_encode (a # b # c # xs) = base64_encode (a' # b' # c' # ys)"
  shows "a = a' \<and> b = b' \<and> c = c' \<and> base64_encode xs = base64_encode ys"
proof -
  note d = base64_digits [OF assms(1-3)] base64_digits [OF assms(4-6)]
  have 1: "a div 4 = a' div 4" "a mod 4 * 16 + b div 16 = a' mod 4 * 16 + b' div 16"
    "b mod 16 * 4 + c div 64 = b' mod 16 * 4 + c' div 64" "c mod 64 = c' mod 64"
    and r: "base64_encode xs = base64_encode ys"
    using assms(7) by (simp_all add: base64_char_inject d)
  note 2 = base64_two [OF assms(2,5) 1(1,2)]
  from 2 base64_three [OF assms(3,6) _ 1(4,3)] r show ?thesis by blast
qed

lemma base64_encode_inject:
  assumes "\<forall>a \<in> set xs. a < 256" and "\<forall>a \<in> set ys. a < 256" and "base64_encode xs = base64_encode ys"
  shows "xs = ys"
  using assms
proof (induction xs arbitrary: ys rule: base64_encode.induct)
  case 1
  then show ?case by (cases ys rule: base64_encode.cases) auto
next
  case (2 a)
  have a: "a < 256" using 2 by simp
  show ?case
  proof (cases ys rule: base64_encode.cases)
    case (2 a')
    with \<open>base64_encode [a] = _\<close> a \<open>\<forall>a \<in> set ys. _\<close> show ?thesis
      using base64_digits [of a 0 0] base64_digits [of a' 0 0] base64_two [of 0 0 a a']
      by (simp add: base64_char_inject)
  next
    case (3 a' b')
    with \<open>base64_encode [a] = _\<close> \<open>\<forall>a \<in> set ys. _\<close> show ?thesis
      using base64_char_not_pad [of "b' mod 16 * 4"] base64_digits [of a' b' 0] by simp
  next
    case (4 a' b' c' r)
    with \<open>base64_encode [a] = _\<close> \<open>\<forall>a \<in> set ys. _\<close> show ?thesis
      using base64_char_not_pad [of "c' mod 64"] base64_digits [of a' b' c'] by auto
  qed (use \<open>base64_encode [a] = _\<close> in simp)
next
  case (3 a b)
  have ab: "a < 256" "b < 256" using 3 by simp_all
  show ?case
  proof (cases ys rule: base64_encode.cases)
    case (2 a')
    with \<open>base64_encode [a, b] = _\<close> show ?thesis
      using base64_char_not_pad [of "b mod 16 * 4"] base64_digits [of a b 0] ab by simp
  next
    case (3 a' b')
    with \<open>\<forall>a \<in> set ys. _\<close> have ab': "a' < 256" "b' < 256" by simp_all
    note d = base64_digits [OF ab, of 0, simplified] base64_digits [OF ab', of 0, simplified]
    from 3 \<open>base64_encode [a, b] = _\<close> have e: "a div 4 = a' div 4"
      "a mod 4 * 16 + b div 16 = a' mod 4 * 16 + b' div 16" "b mod 16 * 4 = b' mod 16 * 4"
      by (simp_all add: base64_char_inject d)
    note two = base64_two [OF ab(2) ab'(2) e(1,2)]
    have "b mod 16 = b' mod 16" using e(3) by simp
    with two div_mod_eqI [of b 16 b'] 3 show ?thesis by blast
  next
    case (4 a' b' c' r)
    with \<open>base64_encode [a, b] = _\<close> \<open>\<forall>a \<in> set ys. _\<close> show ?thesis
      using base64_char_not_pad [of "c' mod 64"] base64_digits [of a' b' c'] by simp
  qed (use \<open>base64_encode [a, b] = _\<close> in simp)
next
  case (4 a b c r)
  have abc: "a < 256" "b < 256" "c < 256" using 4 by simp_all
  show ?case
  proof (cases ys rule: base64_encode.cases)
    case (2 a')
    with \<open>base64_encode (a # b # c # r) = _\<close> show ?thesis
      using base64_char_not_pad [of "c mod 64"] base64_digits [OF abc] by simp
  next
    case (3 a' b')
    with \<open>base64_encode (a # b # c # r) = _\<close> show ?thesis
      using base64_char_not_pad [of "c mod 64"] base64_digits [OF abc] by simp
  next
    case ys: (4 a' b' c' r')
    with \<open>\<forall>a \<in> set ys. _\<close> have abc': "a' < 256" "b' < 256" "c' < 256" by simp_all
    from base64_group [OF abc abc' \<open>base64_encode (a # b # c # r) = _\<close> [unfolded ys]]
    have "a = a' \<and> b = b' \<and> c = c'" and "base64_encode r = base64_encode r'" by blast+
    with "4.IH" [of r'] "4.prems"(1,2) ys show ?thesis by simp
  qed (use \<open>base64_encode (a # b # c # r) = _\<close> in simp)
qed

lemma map_of_char_inject: "map (of_char :: char \<Rightarrow> nat) x = map of_char y \<longleftrightarrow> x = y"
  by (auto simp: inj_map_eq_map inj_on_def)

lemma base64_inject: "base64_EncodeToString x = base64_EncodeToString y \<longleftrightarrow> x = y"
  using base64_encode_inject [of "map of_char x" "map of_char y"]
  by (auto simp: base64_EncodeToString_def map_of_char_inject of_char_256)

text \<open>Decoding what was encoded.\<close>

lemma base64_digit_char [simp]: "d < 64 \<Longrightarrow> base64_digit (base64_char d) = Inr d"
  by (auto simp: base64_digit_def base64_value_def base64_char_code Let_def)

lemma base64_ungroup:
  assumes "a < 256" and "b < 256" and "c < (256::nat)"
  shows "a div 4 * 4 + (a mod 4 * 16 + b div 16) div 16 = a"
    "(a mod 4 * 16 + b div 16) mod 16 * 16 + (b mod 16 * 4 + c div 64) div 4 = b"
    "(b mod 16 * 4 + c div 64) mod 4 * 64 + c mod 64 = c"
proof -
  have lt: "b div 16 < 16" "c div 64 < 4" using assms by (simp_all add: less_mult_imp_div_less)
  have "(a mod 4 * 16 + b div 16) div 16 = a mod 4" "(a mod 4 * 16 + b div 16) mod 16 = b div 16"
    "(b mod 16 * 4 + c div 64) div 4 = b mod 16" "(b mod 16 * 4 + c div 64) mod 4 = c div 64"
    using lt by simp_all
  then show "a div 4 * 4 + (a mod 4 * 16 + b div 16) div 16 = a"
    "(a mod 4 * 16 + b div 16) mod 16 * 16 + (b mod 16 * 4 + c div 64) div 4 = b"
    "(b mod 16 * 4 + c div 64) mod 4 * 64 + c mod 64 = c"
    by (simp_all only: div_mult_mod_eq)
qed

lemma base64_decode_encode:
  assumes "\<forall>a \<in> set xs. a < 256"
  shows "base64_decode (base64_encode xs) = Inr xs"
  using assms
proof (induction xs rule: base64_encode.induct)
  case (2 a)
  then have "a < 256" by simp
  from base64_digits [OF this, of 0 0] base64_ungroup(1) [OF this, of 0 0] show ?case
    by simp
next
  case (3 a b)
  then have ab: "a < 256" "b < 256" by simp_all
  have d: "a div 4 < 64" "a mod 4 * 16 + b div 16 < 64" "b mod 16 * 4 < 64"
    using base64_digits [OF ab, of 0] by simp_all
  have u: "a div 4 * 4 + (a mod 4 * 16 + b div 16) div 16 = a"
    "(a mod 4 * 16 + b div 16) mod 16 * 16 + b mod 16 * 4 div 4 = b"
    using base64_ungroup [OF ab, of 0] by simp_all
  show ?case
    by (simp only: base64_encode.simps base64_decode.simps base64_digit_char d rbind_Inr
        base64_char_not_pad if_False if_True rcheck_True u simp_thms)
next
  case (4 a b c rest)
  then have abc: "a < 256" "b < 256" "c < 256" and r: "\<forall>a \<in> set rest. a < 256" by simp_all
  note d = base64_digits [OF abc]
  show ?case
    by (simp only: base64_encode.simps base64_decode.simps base64_digit_char d rbind_Inr append.simps
        base64_char_not_pad if_False base64_ungroup [OF abc] "4.IH" [OF r])
qed simp

lemma base64_encode_chars:
  "\<forall>a \<in> set xs. a < 256 \<Longrightarrow> set (base64_encode xs) \<subseteq> insert (CHR ''='') (base64_char ` {..<64})"
proof (induction xs rule: base64_encode.induct)
  case (2 a)
  then show ?case using base64_digits [of a 0 0] by simp
next
  case (3 a b)
  then show ?case using base64_digits [of a b 0] by simp
next
  case (4 a b c rest)
  then show ?case using base64_digits [of a b c] by simp
qed simp

lemma base64_char_no_break:
  assumes "d < 64"
  shows "base64_char d \<notin> {CHR 0x0A, CHR 0x0D}"
proof -
  have "(of_char (base64_char d) :: nat) > 13"
    using assms by (simp add: base64_char_code) linarith
  then show ?thesis by auto
qed

lemma base64_roundtrip: "base64_DecodeString (base64_EncodeToString x) = Inr x"
proof -
  let ?xs = "map (of_char :: char \<Rightarrow> nat) x"
  have lt: "\<forall>a \<in> set ?xs. a < 256" by (simp add: of_char_256)
  have "c \<notin> {CHR 0x0A, CHR 0x0D}" if "c \<in> set (base64_encode ?xs)" for c
    using subsetD [OF base64_encode_chars [OF lt] that] base64_char_no_break by force
  then have "filter (\<lambda>c. c \<noteq> CHR 0x0A \<and> c \<noteq> CHR 0x0D) (base64_encode ?xs) = base64_encode ?xs"
    by (intro filter_True) blast
  then show ?thesis
    by (simp add: base64_DecodeString_def base64_EncodeToString_def base64_decode_encode [OF lt] comp_def)
qed

lemma base64_EncodeToString_Nil: "base64_EncodeToString x = [] \<longleftrightarrow> x = []"
  using base64_inject [of x "[]"] by (simp add: base64_EncodeToString_def)

lemma encoding_inject:
  assumes "Encoding_New Encodings e = Some f"
  shows "f x = f y \<longleftrightarrow> x = y"
proof -
  have "e < maxEncoding" using assms by (auto simp: Encoding_New_def split: if_splits)
  then show ?thesis
    using assms
    by (cases rule: encoding_cases)
      (auto simp: Encoding_New_eq noneEncoding_def hexEncoding_def hex_inject base64_inject)
qed

section \<open>Properties\<close>

text \<open>
  The encodings that the package registers: exactly the three below the maximum are
  available, and each maps different hashes to different strings, so that comparing encoded
  hashes is comparing hashes.
\<close>
theorem encodings_faithful:
  "(Encoding_Available Encodings e \<longleftrightarrow> e \<in> {Enc_None, Enc_Base64, Enc_Hex})
   \<and> (case Encoding_New Encodings e of
        None \<Rightarrow> \<not> Encoding_Available Encodings e
      | Some f \<Rightarrow> Encoding_Available Encodings e \<and> inj f)"
proof
  have "e < maxEncoding \<longleftrightarrow> e \<in> {Enc_None, Enc_Base64, Enc_Hex}"
    by (rule iffI, erule encoding_cases) (auto simp: encoding_consts)
  moreover have "e < maxEncoding \<Longrightarrow> Encoding_New Encodings e \<noteq> None"
    by (cases rule: encoding_cases) (auto simp: Encoding_New_eq)
  moreover have "Encoding_Available Encodings e \<longleftrightarrow> e < maxEncoding \<and> Encoding_New Encodings e \<noteq> None"
    by (simp add: Encoding_Available_def Encoding_New_def)
  ultimately show "Encoding_Available Encodings e \<longleftrightarrow> e \<in> {Enc_None, Enc_Base64, Enc_Hex}" by blast
  show "case Encoding_New Encodings e of None \<Rightarrow> \<not> Encoding_Available Encodings e
      | Some f \<Rightarrow> Encoding_Available Encodings e \<and> inj f"
  proof (cases "Encoding_New Encodings e")
    case None
    then show ?thesis by (simp add: Encoding_Available_def Encoding_New_def split: if_splits)
  next
    case (Some f)
    then have "inj f" using encoding_inject by (simp add: inj_def)
    with Some show ?thesis
      by (auto simp: Encoding_Available_def Encoding_New_def split: if_splits)
  qed
qed

end
