(* ===== verification/Htlc.thy ===== *)
theory Htlc
  imports Encodings Quantity
begin

text \<open>
  Hash time-locked contracts: the script that owns a locked token, the signatures that
  claim or reclaim it and the checks on the owner and the metadata of a transfer that
  spends it (\<open>token/services/interop/htlc\<close>: script.go, keys.go, signer.go,
  wallet_filter.go, audit.go, stream.go, wallet.go, distribute.go, scanner.go;
  \<open>token/core/interop/htlc\<close>; \<open>token/core/identity/owner.go\<close>).

  JSON and ASN.1, the registry of hash functions (\<open>crypto.Hash\<close>) and the identities of
  the smart client are not code of the repository: they are the fields of an environment.
  Time is an integer; a clock reading is an argument.
\<close>

section \<open>Data\<close>

record RawOwner =
  roType :: string
  roIdentity :: bytes

definition SerializedIdentityType :: string where "SerializedIdentityType = ''si''"
definition ScriptType :: string where "ScriptType = ''htlc''"

record HashInfo =
  Hash :: bytes
  HashFunc :: u64
  HashEncoding :: Encoding

record Script =
  Sender :: bytes
  Recipient :: bytes
  Deadline :: int
  hashInfo :: HashInfo

record ClaimSignature =
  RecipientSignature :: bytes
  Preimage :: bytes

record ScriptInfo =
  siSender :: bytes
  siRecipient :: bytes

record env =
  IsNone :: "bytes \<Rightarrow> bool"
  IdEqual :: "bytes \<Rightarrow> bytes \<Rightarrow> bool"
  HashFuncs :: "u64 \<Rightarrow> (bytes \<Rightarrow> bytes) option"
  unmarshal_RawOwner :: "bytes \<Rightarrow> RawOwner res"
  marshal_RawOwner :: "RawOwner \<Rightarrow> bytes res"
  unmarshal_Script :: "bytes \<Rightarrow> Script res"
  marshal_Script :: "Script \<Rightarrow> bytes res"
  unmarshal_Claim :: "bytes \<Rightarrow> ClaimSignature res"
  marshal_Claim :: "ClaimSignature \<Rightarrow> bytes res"
  unmarshal_ScriptInfo :: "bytes \<Rightarrow> ScriptInfo res"
  marshal_ScriptInfo :: "ScriptInfo \<Rightarrow> bytes res"

text \<open>What the smart client documents about identities: byte strings, none when empty.\<close>

definition identity_laws :: "'x env_scheme \<Rightarrow> bool" where
  "identity_laws E \<longleftrightarrow> (\<forall>i. IsNone E i = (i = [])) \<and> (\<forall>i j. IdEqual E i j = (i = j))"

definition UnmarshallRawOwner :: "'x env_scheme \<Rightarrow> bytes \<Rightarrow> RawOwner res" where
  "UnmarshallRawOwner E i = unmarshal_RawOwner E i"

definition MarshallRawOwner :: "'x env_scheme \<Rightarrow> RawOwner \<Rightarrow> bytes res" where
  "MarshallRawOwner E owner = marshal_RawOwner E owner"

section \<open>The hash of a script\<close>

definition HashInfo_Validate :: "'x env_scheme \<Rightarrow> HashInfo \<Rightarrow> unit res" where
  "HashInfo_Validate E i =
     (if HashFuncs E (HashFunc i) = None then Inl (Err ''hash function not available'')
      else if \<not> Encoding_Available Encodings (HashEncoding i)
      then Inl (Err ''encoding function not available'')
      else Inr ())"

text \<open>
  The encoded hash of a pre-image. \<open>New\<close> of a hash that is not available panics, and so
  does a call of the nil function that \<open>New\<close> of an unavailable encoding returns. Writing
  to a hash does not fail.
\<close>

definition encoded_hash :: "'x env_scheme \<Rightarrow> HashInfo \<Rightarrow> bytes \<Rightarrow> bytes res" where
  "encoded_hash E i preImage =
     (case HashFuncs E (HashFunc i) of
        None \<Rightarrow> Inl (Panic ''crypto: requested hash function is unavailable'')
      | Some h \<Rightarrow>
          (case Encoding_New Encodings (HashEncoding i) of
             None \<Rightarrow> Inl nil_pointer
           | Some enc \<Rightarrow> Inr (enc (h preImage))))"

definition HashInfo_Image :: "'x env_scheme \<Rightarrow> HashInfo \<Rightarrow> bytes \<Rightarrow> bytes res" where
  "HashInfo_Image E i preImage = rbind (HashInfo_Validate E i) (\<lambda>_. encoded_hash E i preImage)"

definition HashInfo_Compare :: "HashInfo \<Rightarrow> bytes \<Rightarrow> unit res" where
  "HashInfo_Compare i img = rcheck (img = Hash i) ''passed image does not match the hash''"

definition Script_Validate :: "'x env_scheme \<Rightarrow> Script \<Rightarrow> int \<Rightarrow> unit res" where
  "Script_Validate E s timeReference =
     (if IsNone E (Sender s) then Inl (Err ''sender not set'')
      else if IsNone E (Recipient s) then Inl (Err ''recipient not set'')
      else if Deadline s < timeReference then Inl (Err ''expiration date has already passed'')
      else HashInfo_Validate E (hashInfo s))"

section \<open>The keys in the metadata of an action\<close>

definition ClaimPreImage :: string where "ClaimPreImage = ''htlc.cpi''"
definition LockHash :: string where "LockHash = ''htlc.lh''"

definition ClaimKey :: "bytes \<Rightarrow> string" where
  "ClaimKey v = ClaimPreImage @ hex_EncodeToString v"

definition LockKey :: "bytes \<Rightarrow> string" where
  "LockKey v = LockHash @ hex_EncodeToString v"

definition LockValue :: "bytes \<Rightarrow> bytes" where
  "LockValue v = hex_EncodeToString v"

section \<open>Signatures\<close>

text \<open>A signer signs a message; a verifier checks a signature on it at some time.\<close>

type_synonym signer = "bytes \<Rightarrow> bytes res"
type_synonym verifier = "int \<Rightarrow> bytes \<Rightarrow> bytes \<Rightarrow> unit res"

definition concatTokenRequestTxIDPreimage :: "bytes \<Rightarrow> bytes \<Rightarrow> bytes" where
  "concatTokenRequestTxIDPreimage tokenRequestAndTxID preImage = tokenRequestAndTxID @ preImage"

record ClaimSigner =
  csRecipient :: signer
  csPreimage :: bytes

definition ClaimSigner_Sign :: "'x env_scheme \<Rightarrow> ClaimSigner \<Rightarrow> bytes \<Rightarrow> bytes res" where
  "ClaimSigner_Sign E cs tokenRequestAndTxID =
     rbind (csRecipient cs (concatTokenRequestTxIDPreimage tokenRequestAndTxID (csPreimage cs))) (\<lambda>sigma.
     marshal_Claim E \<lparr>RecipientSignature = sigma, Preimage = csPreimage cs\<rparr>)"

record ClaimVerifier =
  cvRecipient :: verifier
  cvHashInfo :: HashInfo

definition ClaimVerifier_Verify :: "'x env_scheme \<Rightarrow> ClaimVerifier \<Rightarrow> verifier" where
  "ClaimVerifier_Verify E cv now tokenRequestAndTxID claimSignature =
     rbind (unmarshal_Claim E claimSignature) (\<lambda>sig.
     rbind (cvRecipient cv now (concatTokenRequestTxIDPreimage tokenRequestAndTxID (Preimage sig))
              (RecipientSignature sig)) (\<lambda>_.
     if HashFuncs E (HashFunc (cvHashInfo cv)) = None
     then Inl (Err ''script hash function not available'')
     else rbind (encoded_hash E (cvHashInfo cv) (Preimage sig)) (\<lambda>image.
       rcheck (Hash (cvHashInfo cv) = image) ''hash mismatch'')))"

record Verifier =
  vRecipient :: verifier
  vSender :: verifier
  vDeadline :: int
  vHashInfo :: HashInfo

definition Verifier_Verify :: "'x env_scheme \<Rightarrow> Verifier \<Rightarrow> verifier" where
  "Verifier_Verify E v now msg sigma =
     (if now < vDeadline v
      then ClaimVerifier_Verify E \<lparr>cvRecipient = vRecipient v, cvHashInfo = vHashInfo v\<rparr> now msg sigma
      else vSender v now msg sigma)"

subsection \<open>Verifiers of owners\<close>

text \<open>The deserializer of plain owners, and the one of the members (X.509) that it calls.\<close>

type_synonym verifier_des = "bytes \<Rightarrow> verifier res"

definition RawOwnerIdentityDeserializer_DeserializeVerifier :: "'x env_scheme \<Rightarrow> verifier_des \<Rightarrow> verifier_des" where
  "RawOwnerIdentityDeserializer_DeserializeVerifier E provider i =
     rbind (UnmarshallRawOwner E i) (\<lambda>si. provider (roIdentity si))"

definition getHTLCVerifier :: "'x env_scheme \<Rightarrow> verifier_des \<Rightarrow> verifier_des" where
  "getHTLCVerifier E ownerDeserializer raw =
     rbind (unmarshal_Script E raw) (\<lambda>script.
     rbind (ownerDeserializer (Sender script)) (\<lambda>sender.
     rbind (ownerDeserializer (Recipient script)) (\<lambda>recipient.
     Inr (Verifier_Verify E
       \<lparr>vRecipient = recipient, vSender = sender, vDeadline = Deadline script,
        vHashInfo = hashInfo script\<rparr>))))"

definition Deserializer_DeserializeVerifier :: "'x env_scheme \<Rightarrow> verifier_des \<Rightarrow> verifier_des" where
  "Deserializer_DeserializeVerifier E ownerDeserializer i =
     rbind (UnmarshallRawOwner E i) (\<lambda>si.
       if roType si = SerializedIdentityType then ownerDeserializer i
       else if roType si = ScriptType then getHTLCVerifier E ownerDeserializer (roIdentity si)
       else Inl (Err ''failed to deserialize RawOwner: Unknown owner type''))"

section \<open>Checks of a transfer\<close>

datatype OperationType = NoOperation | Claim | Reclaim

definition VerifyOwner :: "'x env_scheme \<Rightarrow> bytes \<Rightarrow> bytes \<Rightarrow> int \<Rightarrow> (Script \<times> OperationType) res" where
  "VerifyOwner E senderRawOwner outRawOwner now =
     rbind (UnmarshallRawOwner E senderRawOwner) (\<lambda>sender.
     rbind (unmarshal_Script E (roIdentity sender)) (\<lambda>script.
     if now < Deadline script
     then (if \<not> IdEqual E (Recipient script) outRawOwner
           then Inl (Err ''owner of output token does not correspond to recipient in htlc request'')
           else Inr (script, Claim))
     else (if \<not> IdEqual E (Sender script) outRawOwner
           then Inl (Err ''owner of output token does not correspond to sender in htlc request'')
           else Inr (script, Reclaim))))"

text \<open>The metadata of an action is a map; it is read by key and tested for being empty.\<close>

definition MetadataClaimKeyCheck ::
  "'x env_scheme \<Rightarrow> (string \<times> bytes) list \<Rightarrow> Script \<Rightarrow> OperationType \<Rightarrow> bytes \<Rightarrow> string res" where
  "MetadataClaimKeyCheck E metadata script op sig =
     (if op = Reclaim then Inr []
      else rbind (unmarshal_Claim E sig) (\<lambda>claim.
        if Preimage claim = [] \<or> RecipientSignature claim = []
        then Inl (Err ''expected a valid claim preImage and recipient signature'')
        else if metadata = [] then Inl (Err ''cannot find htlc pre-image, no metadata'')
        else rbind (HashInfo_Image E (hashInfo script) (Preimage claim)) (\<lambda>image.
          case map_of metadata (ClaimKey image) of
            None \<Rightarrow> Inl (Err ''cannot find htlc pre-image, missing metadata entry'')
          | Some v \<Rightarrow>
              if v \<noteq> Preimage claim
              then Inl (Err ''invalid action, cannot match htlc pre-image with metadata'')
              else Inr (ClaimKey image))))"

definition MetadataLockKeyCheck :: "(string \<times> bytes) list \<Rightarrow> Script \<Rightarrow> string res" where
  "MetadataLockKeyCheck metadata script =
     (if metadata = [] then Inl (Err ''cannot find htlc lock, no metadata'')
      else case map_of metadata (LockKey (Hash (hashInfo script))) of
             None \<Rightarrow> Inl (Err ''cannot find htlc lock, missing metadata entry'')
           | Some v \<Rightarrow>
               if v \<noteq> LockValue (Hash (hashInfo script))
               then Inl (Err ''invalid action, cannot match htlc lock with metadata'')
               else Inr (LockKey (Hash (hashInfo script))))"

section \<open>Creating a script\<close>

text \<open>
  \<open>recipientAsScript\<close>: without a hash, a random pre-image of 24 bytes is drawn (the
  argument \<open>nonce\<close>, which may be an error) and hashed; no encoding is applied when the
  encoding is \<open>None\<close>.
\<close>

definition fresh_hash :: "'x env_scheme \<Rightarrow> bytes res \<Rightarrow> u64 \<Rightarrow> Encoding \<Rightarrow> (bytes \<times> bytes) res" where
  "fresh_hash E nonce hashFunc hashEncoding =
     rbind nonce (\<lambda>preImage.
       case HashFuncs E hashFunc of
         None \<Rightarrow> Inl (Panic ''crypto: requested hash function is unavailable'')
       | Some hf \<Rightarrow>
           if hashEncoding \<noteq> 0
           then (case Encoding_New Encodings hashEncoding of
                   None \<Rightarrow> Inl (Err ''hashEncoding.New() returned nil'')
                 | Some enc \<Rightarrow> Inr (preImage, enc (hf preImage)))
           else Inr (preImage, hf preImage))"

definition recipientAsScript ::
  "'x env_scheme \<Rightarrow> bytes res \<Rightarrow> int \<Rightarrow> bytes \<Rightarrow> bytes \<Rightarrow> int \<Rightarrow> bytes \<Rightarrow> u64 \<Rightarrow> Encoding \<Rightarrow> (bytes \<times> bytes \<times> Script) res" where
  "recipientAsScript E nonce now sender recipient deadline h hashFunc hashEncoding =
     rbind (if h = [] then fresh_hash E nonce hashFunc hashEncoding else Inr ([], h)) (\<lambda>(preImage, h).
     let script = \<lparr>Sender = sender, Recipient = recipient, Deadline = now + deadline,
                   hashInfo = \<lparr>Hash = h, HashFunc = hashFunc, HashEncoding = hashEncoding\<rparr>\<rparr> in
     rbind (marshal_Script E script) (\<lambda>rawScript.
     rbind (MarshallRawOwner E \<lparr>roType = ScriptType, roIdentity = rawScript\<rparr>) (\<lambda>raw.
     Inr (raw, preImage, script))))"


section \<open>Ownership\<close>

text \<open>
  The wallets of the node: \<open>OwnerWalletByIdentity\<close>, with a wallet as its identifier.
  \<open>IsMine\<close> logs that an owner of another type is not a script and goes on to parse it.
\<close>

definition senderWallet :: "string \<Rightarrow> string" where
  "senderWallet w = ''htlc.sender'' @ w"

definition recipientWallet :: "string \<Rightarrow> string" where
  "recipientWallet w = ''htlc.recipient'' @ w"

definition script_wallets :: "(bytes \<Rightarrow> string option) \<Rightarrow> Script \<Rightarrow> string list" where
  "script_wallets wallet script =
     (case wallet (Sender script) of Some w \<Rightarrow> [senderWallet w] | None \<Rightarrow> [])
     @ (case wallet (Recipient script) of Some w \<Rightarrow> [recipientWallet w] | None \<Rightarrow> [])"

definition ScriptOwnership_IsMine ::
  "'x env_scheme \<Rightarrow> (bytes \<Rightarrow> string option) \<Rightarrow> Token \<Rightarrow> (string list \<times> bool) res" where
  "ScriptOwnership_IsMine E wallet tok =
     rbind (owner_raw (tokOwner tok)) (\<lambda>raw.
       case UnmarshallRawOwner E raw of
         Inl (Panic p) \<Rightarrow> Inl (Panic p)
       | Inl (Err m) \<Rightarrow> Inr ([], False)
       | Inr owner \<Rightarrow>
           (case unmarshal_Script E (roIdentity owner) of
              Inl (Panic p) \<Rightarrow> Inl (Panic p)
            | Inl (Err m) \<Rightarrow> Inr ([], False)
            | Inr script \<Rightarrow>
                if IsNone E (Sender script) \<or> IsNone E (Recipient script) then Inr ([], False)
                else Inr (script_wallets wallet script, script_wallets wallet script \<noteq> [])))"

definition ScriptOwnership_AmIAnAuditor :: bool where
  "ScriptOwnership_AmIAnAuditor = False"

section \<open>Selecting locked tokens\<close>

text \<open>
  A selector picks pairs of a token and its script. The time at which a token is looked at
  is a function of the token.
\<close>

type_synonym SelectFunction = "UnspentToken \<Rightarrow> Script \<Rightarrow> bool res"

definition PreImageSelector_Filter :: "'x env_scheme \<Rightarrow> bytes \<Rightarrow> SelectFunction" where
  "PreImageSelector_Filter E preImage tok script =
     rbind (owner_raw (utOwner tok)) (\<lambda>_.
       if HashFuncs E (HashFunc (hashInfo script)) = None then Inr False
       else rbind (encoded_hash E (hashInfo script) preImage) (\<lambda>h.
         Inr (h = Hash (hashInfo script))))"

definition SelectExpired :: "(UnspentToken \<Rightarrow> int) \<Rightarrow> SelectFunction" where
  "SelectExpired now tok script =
     rbind (owner_raw (utOwner tok)) (\<lambda>_. Inr (Deadline script < now tok))"

definition SelectNonExpired :: "(UnspentToken \<Rightarrow> int) \<Rightarrow> SelectFunction" where
  "SelectNonExpired now tok script = Inr (now tok < Deadline script)"

text \<open>
  An iterator over unspent tokens is the sequence of what its \<open>Next\<close> returns, tokens and
  errors; at the end it returns nil. \<open>FilteredIterator_Next\<close> returns what it picked (nil
  at the end) and what is left.
\<close>

type_synonym iterator = "UnspentToken res list"

definition pick :: "'x env_scheme \<Rightarrow> SelectFunction \<Rightarrow> UnspentToken \<Rightarrow> bool res" where
  "pick E selector tok =
     rbind (owner_raw (utOwner tok)) (\<lambda>raw.
       case UnmarshallRawOwner E raw of
         Inl (Panic p) \<Rightarrow> Inl (Panic p)
       | Inl (Err m) \<Rightarrow> Inr False
       | Inr owner \<Rightarrow>
           if roType owner = ScriptType
           then (case unmarshal_Script E (roIdentity owner) of
                   Inl (Panic p) \<Rightarrow> Inl (Panic p)
                 | Inl (Err m) \<Rightarrow> Inr False
                 | Inr script \<Rightarrow>
                     if IsNone E (Sender script) then Inr False
                     else selector tok script)
           else Inr False)"

fun FilteredIterator_Next :: "'x env_scheme \<Rightarrow> SelectFunction \<Rightarrow> (iterator, UnspentToken option) oper" where
  "FilteredIterator_Next E selector [] = (Inr None, [])"
| "FilteredIterator_Next E selector (Inl e # it) = (Inl e, it)"
| "FilteredIterator_Next E selector (Inr tok # it) =
     (case pick E selector tok of
        Inl e \<Rightarrow> (Inl e, it)
      | Inr True \<Rightarrow> (Inr (Some tok), it)
      | Inr False \<Rightarrow> FilteredIterator_Next E selector it)"

lemma Next_shorter:
  "FilteredIterator_Next E selector it = (Inr (Some tok), it') \<Longrightarrow> length it' < length it"
proof (induction it)
  case (Cons r it)
  show ?case
  proof (cases r)
    case (Inr t)
    with Cons show ?thesis
      by (auto split: sum.splits bool.splits intro: less_SucI)
  qed (use Cons.prems in auto)
qed simp

text \<open>The loop of \<open>filter\<close> that collects the tokens, and the one of \<open>Sum\<close>.\<close>

function filter_loop :: "'x env_scheme \<Rightarrow> SelectFunction \<Rightarrow> iterator \<Rightarrow> UnspentToken list res" where
  "filter_loop E selector it =
     (case FilteredIterator_Next E selector it of
        (Inl e, _) \<Rightarrow> Inl e
      | (Inr None, _) \<Rightarrow> Inr []
      | (Inr (Some tok), it') \<Rightarrow>
          rbind (filter_loop E selector it') (\<lambda>toks. Inr (tok # toks)))"
  by pat_completeness auto

termination
  by (relation "measure (\<lambda>(E, selector, it). length it)") (auto dest: Next_shorter [OF sym])

declare filter_loop.simps [simp del]

definition OwnerWallet_filterIterator ::
  "(string \<Rightarrow> string \<Rightarrow> iterator res) \<Rightarrow> string \<Rightarrow> string \<Rightarrow> bool \<Rightarrow> iterator res" where
  "OwnerWallet_filterIterator UnspentTokensIteratorBy wallet tokenType sender =
     UnspentTokensIteratorBy (if sender then senderWallet wallet else recipientWallet wallet) tokenType"

definition OwnerWallet_filter ::
  "'x env_scheme \<Rightarrow> (string \<Rightarrow> string \<Rightarrow> iterator res) \<Rightarrow> string \<Rightarrow> string \<Rightarrow> bool \<Rightarrow> SelectFunction
   \<Rightarrow> UnspentToken list res" where
  "OwnerWallet_filter E query wallet tokenType sender selector =
     rbind (OwnerWallet_filterIterator query wallet tokenType sender) (\<lambda>it. filter_loop E selector it)"

definition ListExpired where
  "ListExpired E now query wallet tokenType =
     OwnerWallet_filter E query wallet tokenType True (SelectExpired now)"

definition ListByPreImage where
  "ListByPreImage E preImage query wallet tokenType =
     OwnerWallet_filter E query wallet tokenType False (PreImageSelector_Filter E preImage)"

definition ListTokens where
  "ListTokens E now query wallet tokenType =
     OwnerWallet_filter E query wallet tokenType False (SelectNonExpired now)"

definition ListExpiredReceivedTokens where
  "ListExpiredReceivedTokens E now query wallet tokenType =
     OwnerWallet_filter E query wallet tokenType False (SelectExpired now)"

function sum_loop :: "'x env_scheme \<Rightarrow> SelectFunction \<Rightarrow> u64 \<Rightarrow> Quantity \<Rightarrow> iterator \<Rightarrow> Quantity res" where
  "sum_loop E selector precision acc it =
     (case FilteredIterator_Next E selector it of
        (Inl e, _) \<Rightarrow> Inl e
      | (Inr None, _) \<Rightarrow> Inr acc
      | (Inr (Some tok), it') \<Rightarrow>
          rbind (ToQuantity (utQuantity tok) precision) (\<lambda>q.
          rbind (Add acc q) (\<lambda>acc'. sum_loop E selector precision acc' it')))"
  by pat_completeness auto

termination
  by (relation "measure (\<lambda>(E, selector, precision, acc, it). length it)")
    (auto dest: Next_shorter [OF sym])

declare sum_loop.simps [simp del]

definition FilteredIterator_Sum :: "'x env_scheme \<Rightarrow> SelectFunction \<Rightarrow> u64 \<Rightarrow> iterator \<Rightarrow> Quantity res" where
  "FilteredIterator_Sum E selector precision it =
     sum_loop E selector precision (NewZeroQuantity precision) it"

section \<open>Reading scripts off tokens and outputs\<close>

text \<open>An input or an output of a request, by its owner.\<close>

definition is_htlc :: "'x env_scheme \<Rightarrow> bytes \<Rightarrow> bool res" where
  "is_htlc E owner = rbind (UnmarshallRawOwner E owner) (\<lambda>ro. Inr (roType ro = ScriptType))"

definition owner_script :: "'x env_scheme \<Rightarrow> bytes \<Rightarrow> bool \<Rightarrow> Script res" where
  "owner_script E owner isHTLC =
     (if \<not> isHTLC then Inl (Err ''this input does not refer to an HTLC script'')
      else rbind (UnmarshallRawOwner E owner) (\<lambda>ro. unmarshal_Script E (roIdentity ro)))"

definition GetScriptSenderAndRecipient :: "'x env_scheme \<Rightarrow> RawOwner \<Rightarrow> (bytes \<times> bytes) res" where
  "GetScriptSenderAndRecipient E ro =
     (if roType ro = ScriptType
      then rbind (unmarshal_Script E (roIdentity ro)) (\<lambda>script. Inr (Sender script, Recipient script))
      else Inl (Err ''unknown identity type''))"

definition GetOwnerAuditInfo :: "'x env_scheme \<Rightarrow> (bytes \<Rightarrow> bytes res) \<Rightarrow> bytes \<Rightarrow> bytes res" where
  "GetOwnerAuditInfo E GetAuditInfo raw =
     (if raw = [] then Inr []
      else rbind (UnmarshallRawOwner E raw) (\<lambda>owner.
        if roType owner = SerializedIdentityType then GetAuditInfo raw
        else rbind (GetScriptSenderAndRecipient E owner) (\<lambda>(sender, recipient).
          rbind (GetAuditInfo sender) (\<lambda>senderInfo.
          rbind (GetAuditInfo recipient) (\<lambda>recipientInfo.
          marshal_ScriptInfo E \<lparr>siSender = senderInfo, siRecipient = recipientInfo\<rparr>)))))"

text \<open>The enrollment identifier of fabtoken (\<open>token/core/fabtoken/deserializer.go\<close>).\<close>

definition GetEnrollmentID :: "'x env_scheme \<Rightarrow> bytes \<Rightarrow> string res" where
  "GetEnrollmentID E auditInfo =
     (if auditInfo = [] then Inr []
      else case unmarshal_ScriptInfo E auditInfo of
             Inl (Panic p) \<Rightarrow> Inl (Panic p)
           | Inl (Err m) \<Rightarrow> Inr auditInfo
           | Inr si \<Rightarrow>
               if siSender si \<noteq> [] \<or> siRecipient si \<noteq> []
               then (if siRecipient si \<noteq> [] then Inr (siRecipient si) else Inr [])
               else Inr auditInfo)"

section \<open>Terms and the scanner\<close>

record Terms =
  ReclamationDeadline :: int
  Type1 :: string
  Amount1 :: u64
  Type2 :: string
  Amount2 :: u64

definition Terms_Validate :: "Terms \<Rightarrow> unit res" where
  "Terms_Validate t =
     (if ReclamationDeadline t \<le> 0 then Inl (Err ''reclamation deadline should be larger than zero'')
      else if Type1 t = [] \<or> Type2 t = [] then Inl (Err ''types should be set'')
      else if Amount1 t \<le> 0 \<or> Amount2 t \<le> 0 then Inl (Err ''amounts should be larger than zero'')
      else Inr ())"

text \<open>
  \<open>ScanForPreImage\<close> after its parameters are resolved: \<open>lookup\<close> is
  \<open>LookupTransferMetadataKey\<close> of the network. The error of a wrong image wraps a nil
  error, so what is returned then is no pre-image and no error.
\<close>

definition ScanForPreImage ::
  "'x env_scheme \<Rightarrow> (string \<Rightarrow> bytes res) \<Rightarrow> bytes \<Rightarrow> u64 \<Rightarrow> Encoding \<Rightarrow> bytes option res" where
  "ScanForPreImage E lookup img hashFunc hashEncoding =
     (if HashFuncs E hashFunc = None then Inl (Err ''passed hash function is not available'')
      else if \<not> Encoding_Available Encodings hashEncoding
      then Inl (Err ''passed hash endcoding is not available'')
      else rbind (lookup (ClaimKey img)) (\<lambda>preImage.
        rbind (HashInfo_Image E \<lparr>Hash = [], HashFunc = hashFunc, HashEncoding = hashEncoding\<rparr> preImage)
          (\<lambda>recomputedImage.
          if img \<noteq> recomputedImage then Inr None else Inr (Some preImage))))"


section \<open>Lemmas\<close>

lemma encoded_hash_eq [go_simps]:
  "encoded_hash E i p = Inr v \<longleftrightarrow>
     (\<exists>h enc. HashFuncs E (HashFunc i) = Some h \<and> Encoding_New Encodings (HashEncoding i) = Some enc
        \<and> v = enc (h p))"
  by (auto simp: encoded_hash_def split: option.splits)

lemma Available_New: "Encoding_Available Encodings e \<longleftrightarrow> (\<exists>enc. Encoding_New Encodings e = Some enc)"
  using encoding_cases
  by (auto simp: Encoding_Available_def Encoding_New_def split: if_splits)

lemma HashInfo_Validate_eq [go_simps]:
  "HashInfo_Validate E i = Inr u \<longleftrightarrow>
     (\<exists>h enc. HashFuncs E (HashFunc i) = Some h \<and> Encoding_New Encodings (HashEncoding i) = Some enc)"
  by (auto simp: HashInfo_Validate_def Available_New)

lemma HashInfo_Image_eq [go_simps]: "HashInfo_Image E i p = Inr v \<longleftrightarrow> encoded_hash E i p = Inr v"
  by (auto simp: HashInfo_Image_def go_simps)

text \<open>Comparing encoded hashes is comparing hashes: two pre-images of one script collide.\<close>

lemma encoded_hash_collision:
  assumes "encoded_hash E i p = Inr v" and "encoded_hash E i q = Inr v"
    and "HashFuncs E (HashFunc i) = Some h"
  shows "h p = h q"
proof -
  from assms obtain enc where "Encoding_New Encodings (HashEncoding i) = Some enc"
    and "enc (h p) = enc (h q)" by (auto simp: go_simps)
  then show ?thesis using encoding_inject by blast
qed

lemma ClaimVerifier_accepts:
  "ClaimVerifier_Verify E cv now msg sigma = Inr () \<longleftrightarrow>
     (\<exists>claim. unmarshal_Claim E sigma = Inr claim
        \<and> cvRecipient cv now (msg @ Preimage claim) (RecipientSignature claim) = Inr ()
        \<and> encoded_hash E (cvHashInfo cv) (Preimage claim) = Inr (Hash (cvHashInfo cv)))"
  by (auto simp: ClaimVerifier_Verify_def concatTokenRequestTxIDPreimage_def go_simps)

text \<open>The verifier of an owner that is a script.\<close>

lemma script_verifier:
  assumes "Deserializer_DeserializeVerifier E des owner = Inr v"
    and "UnmarshallRawOwner E owner = Inr \<lparr>roType = ScriptType, roIdentity = raw\<rparr>"
    and "unmarshal_Script E raw = Inr script"
  shows "\<exists>sender recipient. des (Sender script) = Inr sender \<and> des (Recipient script) = Inr recipient
    \<and> v = Verifier_Verify E \<lparr>vRecipient = recipient, vSender = sender, vDeadline = Deadline script,
        vHashInfo = hashInfo script\<rparr>"
proof -
  have "ScriptType \<noteq> SerializedIdentityType" by (simp add: ScriptType_def SerializedIdentityType_def)
  with assms show ?thesis
    by (auto simp: Deserializer_DeserializeVerifier_def getHTLCVerifier_def rbind_eq_Inr)
qed

lemma pick_eq:
  assumes "UnmarshallRawOwner E raw = Inr \<lparr>roType = ScriptType, roIdentity = s\<rparr>"
    and "unmarshal_Script E s = Inr script" and "utOwner tok = Some raw" and "\<not> IsNone E (Sender script)"
  shows "pick E selector tok = selector tok script"
  using assms by (simp add: pick_def owner_raw_def)

text \<open>The picks of a filtered iterator, when nothing fails.\<close>

definition picks :: "'x env_scheme \<Rightarrow> SelectFunction \<Rightarrow> UnspentToken list \<Rightarrow> UnspentToken list" where
  "picks E selector us = filter (\<lambda>u. pick E selector u = Inr True) us"

definition picks_ok :: "'x env_scheme \<Rightarrow> SelectFunction \<Rightarrow> UnspentToken list \<Rightarrow> bool" where
  "picks_ok E selector us \<longleftrightarrow> list_all (\<lambda>u. \<exists>b. pick E selector u = Inr b) us"

lemma filter_loop_Nil [simp]: "filter_loop E selector [] = Inr []"
  by (simp add: filter_loop.simps)

lemma filter_loop_Inl [simp]: "filter_loop E selector (Inl e # it) = Inl e"
  by (simp add: filter_loop.simps)

lemma filter_loop_Cons [simp]:
  "filter_loop E selector (Inr u # it) =
     (case pick E selector u of
        Inl e \<Rightarrow> Inl e
      | Inr True \<Rightarrow> rbind (filter_loop E selector it) (\<lambda>toks. Inr (u # toks))
      | Inr False \<Rightarrow> filter_loop E selector it)"
  by (simp add: filter_loop.simps [of E selector "Inr u # it"] filter_loop.simps [of E selector it, symmetric]
      split: sum.split bool.split)

lemma filter_loop_iff:
  "filter_loop E selector it = Inr toks \<longleftrightarrow>
     (\<exists>us. it = map Inr us \<and> picks_ok E selector us \<and> toks = picks E selector us)"
proof (induction it arbitrary: toks)
  case Nil
  then show ?case by (auto simp: picks_def picks_ok_def)
next
  case (Cons r it)
  show ?case
  proof (cases r)
    case (Inr u)
    then show ?thesis
      by (auto simp: Cons.IH go_simps picks_def picks_ok_def Cons_eq_map_conv split: sum.splits bool.splits)
  qed auto
qed

lemma sum_loop_simps [simp]:
  "sum_loop E selector p acc [] = Inr acc"
  "sum_loop E selector p acc (Inl e # it) = Inl e"
  "sum_loop E selector p acc (Inr u # it) =
     (case pick E selector u of
        Inl e \<Rightarrow> Inl e
      | Inr True \<Rightarrow> rbind (ToQuantity (utQuantity u) p) (\<lambda>q.
          rbind (Add acc q) (\<lambda>acc'. sum_loop E selector p acc' it))
      | Inr False \<Rightarrow> sum_loop E selector p acc it)"
  by (simp_all add: sum_loop.simps [of E selector p acc "Inr u # it"]
      sum_loop.simps [of E selector p acc it, symmetric] sum_loop.simps [of _ _ _ _ "[]"]
      sum_loop.simps [of _ _ _ _ "Inl e # it"] split: sum.split bool.split)

lemma sum_loop_value:
  assumes "sum_loop E selector p acc it = Inr c" and "wfq p acc"
  shows "\<exists>us. it = map Inr us \<and> picks_ok E selector us \<and> wfq p c
    \<and> ToBigInt c = ToBigInt acc + sum_list (map (\<lambda>u. qval (utQuantity u)) (picks E selector us))"
  using assms
proof (induction it arbitrary: acc)
  case Nil
  then show ?case by (auto simp: picks_def picks_ok_def)
next
  case (Cons r it)
  then obtain u b where r: "r = Inr u" and b: "pick E selector u = Inr b"
    by (cases r) (auto split: sum.splits)
  show ?case
  proof (cases b)
    case True
    with Cons.prems r b obtain q a where q: "ToQuantity (utQuantity u) p = Inr q" and a: "Add acc q = Inr a"
      and go: "sum_loop E selector p a it = Inr c"
      by (auto simp: go_simps)
    have "wfq p a \<and> ToBigInt a = ToBigInt acc + qval (utQuantity u)"
      using Add_wfq [OF Cons.prems(2) ToQuantity_SomeD(3) [OF q] a] ToQuantity_qval [OF q] by simp
    with Cons.IH [OF go] r b True show ?thesis
      by (auto simp: picks_def picks_ok_def Cons_eq_map_conv)
  next
    case False
    with Cons.prems r b have "sum_loop E selector p acc it = Inr c" by simp
    from Cons.IH [OF this Cons.prems(2)] r b False show ?thesis
      by (auto simp: picks_def picks_ok_def Cons_eq_map_conv)
  qed
qed


section \<open>Properties\<close>

text \<open>
  An environment for the examples: a hash function that is the identity, one script, one
  claim, and owners whose first byte tells a script (\<open>h\<close>) from a plain identity.
\<close>

definition example_script :: Script where
  "example_script = \<lparr>Sender = ''A'', Recipient = ''B'', Deadline = 100,
     hashInfo = \<lparr>Hash = ''p'', HashFunc = 5, HashEncoding = 0\<rparr>\<rparr>"

definition example_claim :: ClaimSignature where
  "example_claim = \<lparr>RecipientSignature = ''s'', Preimage = ''p''\<rparr>"

definition example_env :: env where
  "example_env =
     \<lparr>IsNone = (\<lambda>i. i = []), IdEqual = (=),
      HashFuncs = (\<lambda>f. if f = 5 then Some (\<lambda>b. b) else None),
      unmarshal_RawOwner = (\<lambda>b. case b of
          [] \<Rightarrow> Inl (Err ''asn1'')
        | c # r \<Rightarrow> Inr \<lparr>roType = if c = CHR ''h'' then ScriptType else SerializedIdentityType, roIdentity = r\<rparr>),
      marshal_RawOwner = (\<lambda>r. Inr ((if roType r = ScriptType then CHR ''h'' else CHR ''s'') # roIdentity r)),
      unmarshal_Script = (\<lambda>b. if b = ''script'' then Inr example_script else Inl (Err ''json'')),
      marshal_Script = (\<lambda>s. if s = example_script then Inr ''script'' else Inl (Err ''json'')),
      unmarshal_Claim = (\<lambda>b. if b = ''sig'' then Inr example_claim else Inl (Err ''json'')),
      marshal_Claim = (\<lambda>c. if c = example_claim then Inr ''sig'' else Inl (Err ''json'')),
      unmarshal_ScriptInfo = (\<lambda>b. Inl (Err ''json'')), marshal_ScriptInfo = (\<lambda>i. Inl (Err ''json''))\<rparr>"

lemma example_zero: "Encoding_New Encodings 0 = Some noneEncoding"
  using Encoding_New_eq(1) by (simp add: Enc_None_def)

text \<open>
  C25: who can spend a locked token: the verifier of an owner that is a script accepts a
  signature before the deadline exactly when it is a claim, signed by the recipient over the
  request and the pre-image, whose pre-image has the encoded hash of the script; from the
  deadline on exactly when it is a signature of the sender over the request.
\<close>
theorem htlc_spending_rule:
  assumes "UnmarshallRawOwner E owner = Inr \<lparr>roType = ScriptType, roIdentity = raw\<rparr>"
    and "unmarshal_Script E raw = Inr script"
    and "des (Sender script) = Inr sender" and "des (Recipient script) = Inr recipient"
  shows "\<exists>v. Deserializer_DeserializeVerifier E des owner = Inr v
    \<and> (\<forall>now msg sigma. v now msg sigma = Inr () \<longleftrightarrow>
        (if now < Deadline script
         then (\<exists>claim h enc. unmarshal_Claim E sigma = Inr claim
             \<and> recipient now (msg @ Preimage claim) (RecipientSignature claim) = Inr ()
             \<and> HashFuncs E (HashFunc (hashInfo script)) = Some h
             \<and> Encoding_New Encodings (HashEncoding (hashInfo script)) = Some enc
             \<and> enc (h (Preimage claim)) = Hash (hashInfo script))
         else sender now msg sigma = Inr ()))"
proof -
  have "ScriptType \<noteq> SerializedIdentityType" by (simp add: ScriptType_def SerializedIdentityType_def)
  then have "Deserializer_DeserializeVerifier E des owner = Inr (Verifier_Verify E
       \<lparr>vRecipient = recipient, vSender = sender, vDeadline = Deadline script, vHashInfo = hashInfo script\<rparr>)"
    using assms by (simp add: Deserializer_DeserializeVerifier_def getHTLCVerifier_def)
  then show ?thesis
    by (intro exI [of _ "Verifier_Verify E \<lparr>vRecipient = recipient, vSender = sender,
        vDeadline = Deadline script, vHashInfo = hashInfo script\<rparr>"])
      (auto simp: Verifier_Verify_def ClaimVerifier_accepts go_simps)
qed

lemma htlc_spending_rule_witness:
  "\<exists>v. Deserializer_DeserializeVerifier example_env (\<lambda>i. Inr (\<lambda>now msg sigma. rcheck (sigma = ''s'') ''bad''))
      ''hscript'' = Inr v \<and> v 99 ''m'' ''sig'' = Inr () \<and> v 100 ''m'' ''sig'' \<noteq> Inr ()"
proof -
  let ?des = "\<lambda>i. Inr (\<lambda>now msg sigma. rcheck (sigma = ''s'') ''bad'') :: verifier res"
  have "UnmarshallRawOwner example_env ''hscript'' = Inr \<lparr>roType = ScriptType, roIdentity = ''script''\<rparr>"
    and "unmarshal_Script example_env ''script'' = Inr example_script"
    by (simp_all add: UnmarshallRawOwner_def example_env_def)
  from htlc_spending_rule [OF this, of ?des] obtain v where
    v: "Deserializer_DeserializeVerifier example_env ?des ''hscript'' = Inr v"
    "\<And>now msg sigma. v now msg sigma = Inr () \<longleftrightarrow>
        (if now < Deadline example_script
         then (\<exists>claim h enc. unmarshal_Claim example_env sigma = Inr claim
             \<and> rcheck (RecipientSignature claim = ''s'') ''bad'' = Inr ()
             \<and> HashFuncs example_env (HashFunc (hashInfo example_script)) = Some h
             \<and> Encoding_New Encodings (HashEncoding (hashInfo example_script)) = Some enc
             \<and> enc (h (Preimage claim)) = Hash (hashInfo example_script))
         else rcheck (sigma = ''s'') ''bad'' = Inr ())"
    by blast
  from v(2) [of 99 "''m''" "''sig''"] have "v 99 ''m'' ''sig'' = Inr ()"
    by (simp add: example_script_def example_env_def example_claim_def example_zero noneEncoding_def)
  moreover from v(2) [of 100 "''m''" "''sig''"] have "v 100 ''m'' ''sig'' \<noteq> Inr ()"
    by (simp add: example_script_def)
  ultimately show ?thesis using v(1) by blast
qed

lemma fresh_hash_image:
  assumes "fresh_hash E nonce hf he = Inr (pre, h)"
  shows "encoded_hash E \<lparr>Hash = h', HashFunc = hf, HashEncoding = he\<rparr> pre = Inr h"
proof -
  from assms obtain f where f: "HashFuncs E hf = Some f"
    by (auto simp: fresh_hash_def go_simps split: option.splits)
  show ?thesis
  proof (cases "he = 0")
    case True
    with assms f show ?thesis
      by (simp add: fresh_hash_def go_simps example_zero noneEncoding_def)
  next
    case False
    with assms f show ?thesis
      by (auto simp: fresh_hash_def go_simps split: option.splits)
  qed
qed

text \<open>
  A lock can be claimed: for a script made with a fresh pre-image, the claim signature
  that the recipient's signer makes with the pre-image is accepted at every time before the
  deadline, the pre-image's image is the hash of the script, and the metadata entry that a
  claim publishes under it passes the check.
\<close>
theorem lock_then_claim:
  assumes "recipientAsScript E nonce now sender recipient dur [] hashFunc hashEncoding = Inr (owner, pre, script)"
    and "\<forall>c b. marshal_Claim E c = Inr b \<longrightarrow> unmarshal_Claim E b = Inr c"
    and "sign_r (msg @ pre) = Inr sigma" and "\<forall>t. ver t (msg @ pre) sigma = Inr ()"
    and "ClaimSigner_Sign E \<lparr>csRecipient = sign_r, csPreimage = pre\<rparr> msg = Inr sig"
    and "sigma \<noteq> []" and "pre \<noteq> []" and "map_of md (ClaimKey (Hash (hashInfo script))) = Some pre"
  shows "Deadline script = now + dur \<and> Recipient script = recipient \<and> Sender script = sender
    \<and> HashInfo_Image E (hashInfo script) pre = Inr (Hash (hashInfo script))
    \<and> (t < Deadline script \<longrightarrow> Verifier_Verify E \<lparr>vRecipient = ver, vSender = vs,
          vDeadline = Deadline script, vHashInfo = hashInfo script\<rparr> t msg sig = Inr ())
    \<and> MetadataClaimKeyCheck E md script Claim sig = Inr (ClaimKey (Hash (hashInfo script)))"
proof -
  from assms(1) obtain h where fresh: "fresh_hash E nonce hashFunc hashEncoding = Inr (pre, h)"
    and s: "script = \<lparr>Sender = sender, Recipient = recipient, Deadline = now + dur,
                   hashInfo = \<lparr>Hash = h, HashFunc = hashFunc, HashEncoding = hashEncoding\<rparr>\<rparr>"
    by (auto simp: recipientAsScript_def go_simps Let_def split: prod.splits)
  have img: "encoded_hash E (hashInfo script) pre = Inr (Hash (hashInfo script))"
    using fresh_hash_image [OF fresh] s by simp
  have claim: "unmarshal_Claim E sig = Inr \<lparr>RecipientSignature = sigma, Preimage = pre\<rparr>"
    using assms(2,3,5) by (simp add: ClaimSigner_Sign_def concatTokenRequestTxIDPreimage_def)
  have "t < Deadline script \<longrightarrow> Verifier_Verify E \<lparr>vRecipient = ver, vSender = vs,
          vDeadline = Deadline script, vHashInfo = hashInfo script\<rparr> t msg sig = Inr ()"
    using claim img assms(4) by (simp add: Verifier_Verify_def ClaimVerifier_accepts)
  moreover have "HashInfo_Image E (hashInfo script) pre = Inr (Hash (hashInfo script))"
    using img by (simp add: HashInfo_Image_eq)
  moreover from this have "MetadataClaimKeyCheck E md script Claim sig = Inr (ClaimKey (Hash (hashInfo script)))"
    using claim assms(6-8) by (auto simp: MetadataClaimKeyCheck_def)
  ultimately show ?thesis using s by simp
qed

lemma lock_then_claim_witness:
  "Verifier_Verify example_env \<lparr>vRecipient = \<lambda>t m s. Inr (), vSender = \<lambda>t m s. Inl (Err ''no''),
     vDeadline = 100, vHashInfo = hashInfo example_script\<rparr> 50 ''m'' ''sig'' = Inr ()"
proof -
  have 1: "recipientAsScript example_env (Inr ''p'') 90 ''A'' ''B'' 10 [] 5 0
      = Inr (''hscript'', ''p'', example_script)"
    using example_zero
    by (simp add: recipientAsScript_def fresh_hash_def example_env_def example_script_def MarshallRawOwner_def)
  have 2: "\<forall>c b. marshal_Claim example_env c = Inr b \<longrightarrow> unmarshal_Claim example_env b = Inr c"
    by (simp add: example_env_def)
  have 3: "ClaimSigner_Sign example_env \<lparr>csRecipient = \<lambda>m. Inr ''s'', csPreimage = ''p''\<rparr> ''m'' = Inr ''sig''"
    by (simp add: ClaimSigner_Sign_def example_env_def example_claim_def)
  show ?thesis
    using lock_then_claim [OF 1 2 _ _ 3, of "''s''" "\<lambda>t m s. Inr ()"
        "[(ClaimKey (Hash (hashInfo example_script)), ''p'')]" 50 "\<lambda>t m s. Inl (Err ''no'')"]
    by (simp add: example_script_def)
qed

text \<open>
  A filtered iterator over locked tokens (expired, matching a pre-image, and so on)
  lists the tokens that its selector picks, in order, and succeeds exactly when neither the
  underlying iterator nor a pick fails; its sum is the integer sum of what it lists.
\<close>
theorem filtered_iterator_exact:
  "(filter_loop E selector it = Inr toks \<longleftrightarrow>
      (\<exists>us. it = map Inr us \<and> picks_ok E selector us \<and> toks = picks E selector us))
   \<and> (FilteredIterator_Sum E selector p it = Inr c \<longrightarrow>
      wfq p c \<and> (\<exists>toks. filter_loop E selector it = Inr toks
        \<and> ToBigInt c = sum_list (map (\<lambda>u. qval (utQuantity u)) toks)))"
proof
  show "filter_loop E selector it = Inr toks \<longleftrightarrow>
      (\<exists>us. it = map Inr us \<and> picks_ok E selector us \<and> toks = picks E selector us)"
    by (rule filter_loop_iff)
  show "FilteredIterator_Sum E selector p it = Inr c \<longrightarrow>
      wfq p c \<and> (\<exists>toks. filter_loop E selector it = Inr toks
        \<and> ToBigInt c = sum_list (map (\<lambda>u. qval (utQuantity u)) toks))"
  proof
    assume "FilteredIterator_Sum E selector p it = Inr c"
    then obtain us where us: "it = map Inr us" "picks_ok E selector us" "wfq p c"
      "ToBigInt c = ToBigInt (NewZeroQuantity p) + sum_list (map (\<lambda>u. qval (utQuantity u)) (picks E selector us))"
      using sum_loop_value [OF _ wfq_zero] unfolding FilteredIterator_Sum_def by blast
    then have "filter_loop E selector it = Inr (picks E selector us)"
      using filter_loop_iff by blast
    with us show "wfq p c \<and> (\<exists>toks. filter_loop E selector it = Inr toks
        \<and> ToBigInt c = sum_list (map (\<lambda>u. qval (utQuantity u)) toks))" by simp
  qed
qed

lemma filtered_iterator_exact_witness:
  "wfq 64 (UInt64Quantity 10) \<and> ToBigInt (UInt64Quantity 10) = 10"
proof -
  let ?u = "\<lparr>utId = \<lparr>TxId = [], Index = 0\<rparr>, utOwner = Some ''hscript'', utType = [],
    utQuantity = Hex (UInt64Quantity 10)\<rparr>"
  let ?sel = "SelectExpired (\<lambda>_. 200)"
  have "pick example_env ?sel ?u = Inr True"
    by (simp add: pick_def SelectExpired_def owner_raw_def UnmarshallRawOwner_def example_env_def
        example_script_def del: Hex.simps)
  moreover have "ToQuantity (Hex (UInt64Quantity 10)) 64 = Inr (UInt64Quantity 10)"
    using ToQuantity_text [of 64 "UInt64Quantity 10"] by simp
  ultimately have "FilteredIterator_Sum example_env ?sel 64 [Inr ?u] = Inr (UInt64Quantity 10)"
    by (simp add: FilteredIterator_Sum_def NewZeroQuantity_def UInt64Quantity_Add_def del: Hex.simps)
  with filtered_iterator_exact [of example_env ?sel "[Inr ?u]" "[]" 64 "UInt64Quantity 10"]
  show ?thesis by simp
qed

text \<open>
  The deadline itself. A locked token is listed as expired strictly after the deadline
  and as claimable strictly before it, while the ledger lets only the recipient receive it
  before the deadline and only the sender from the deadline on: at the deadline it can be
  reclaimed, and is in neither list.
\<close>
theorem deadline_boundary:
  assumes "identity_laws E" and "utOwner tok = Some raw"
    and "UnmarshallRawOwner E raw = Inr \<lparr>roType = ScriptType, roIdentity = s\<rparr>"
    and "unmarshal_Script E s = Inr script" and "Sender script \<noteq> []"
  shows "pick E (SelectExpired now) tok = Inr (Deadline script < now tok)
    \<and> pick E (SelectNonExpired now) tok = Inr (now tok < Deadline script)
    \<and> ((\<exists>sc. VerifyOwner E raw out (now tok) = Inr (sc, Claim))
        \<longleftrightarrow> now tok < Deadline script \<and> out = Recipient script)
    \<and> ((\<exists>sc. VerifyOwner E raw out (now tok) = Inr (sc, Reclaim))
        \<longleftrightarrow> Deadline script \<le> now tok \<and> out = Sender script)"
  using assms pick_eq [OF assms(3,4,2)]
  by (auto simp: identity_laws_def SelectExpired_def SelectNonExpired_def owner_raw_def VerifyOwner_def
      split: if_splits)

lemma deadline_boundary_witness:
  "\<exists>sc. VerifyOwner example_env ''hscript'' ''A'' 100 = Inr (sc, Reclaim)"
proof -
  let ?tok = "\<lparr>utId = \<lparr>TxId = [], Index = 0\<rparr>, utOwner = Some ''hscript'', utType = [], utQuantity = []\<rparr>"
  have 1: "UnmarshallRawOwner example_env ''hscript'' = Inr \<lparr>roType = ScriptType, roIdentity = ''script''\<rparr>"
    and 2: "unmarshal_Script example_env ''script'' = Inr example_script"
    and 3: "identity_laws example_env"
    by (simp_all add: UnmarshallRawOwner_def example_env_def identity_laws_def)
  show ?thesis
    using deadline_boundary [OF 3 _ 1 2, of ?tok "\<lambda>_. 100" "''A''"] by (simp add: example_script_def)
qed

text \<open>
  A script with an encoding that does not exist makes the verifier of claims panic, once
  the recipient's signature was accepted, while the computation of the image refuses the
  script with an error.
\<close>
theorem claim_encoding_unchecked:
  assumes "HashFuncs E (HashFunc i) = Some h" and "maxEncoding \<le> HashEncoding i"
    and "unmarshal_Claim E sigma = Inr claim"
    and "ver now (msg @ Preimage claim) (RecipientSignature claim) = Inr ()"
  shows "ClaimVerifier_Verify E \<lparr>cvRecipient = ver, cvHashInfo = i\<rparr> now msg sigma = Inl nil_pointer
    \<and> HashInfo_Image E i (Preimage claim) = Inl (Err ''encoding function not available'')"
proof -
  have "\<not> HashEncoding i < maxEncoding" using assms(2) by (simp add: not_less)
  then show ?thesis
    using assms
    by (simp add: ClaimVerifier_Verify_def concatTokenRequestTxIDPreimage_def encoded_hash_def
        HashInfo_Image_def HashInfo_Validate_def Encoding_Available_def Encoding_New_def)
qed

lemma claim_encoding_unchecked_witness:
  "ClaimVerifier_Verify example_env \<lparr>cvRecipient = \<lambda>t m s. Inr (),
     cvHashInfo = \<lparr>Hash = [], HashFunc = 5, HashEncoding = 7\<rparr>\<rparr> 0 ''m'' ''sig'' = Inl nil_pointer"
  using claim_encoding_unchecked [of example_env "\<lparr>Hash = [], HashFunc = 5, HashEncoding = 7\<rparr>"
      "\<lambda>b. b" "''sig''" example_claim "\<lambda>t m s. Inr ()" 0 "''m''"]
  by (simp add: example_env_def maxEncoding_def)

text \<open>
  The scanner returns a pre-image only when its encoded hash is the image that was
  asked for; when the ledger holds another one it returns no pre-image and no error.
\<close>
theorem scan_for_pre_image:
  "(ScanForPreImage E lookup img hf enc = Inr (Some p) \<longleftrightarrow>
      lookup (ClaimKey img) = Inr p
      \<and> HashInfo_Image E \<lparr>Hash = [], HashFunc = hf, HashEncoding = enc\<rparr> p = Inr img)
   \<and> (lookup (ClaimKey img) = Inr p
      \<and> HashInfo_Image E \<lparr>Hash = [], HashFunc = hf, HashEncoding = enc\<rparr> p = Inr other \<and> other \<noteq> img
      \<longrightarrow> ScanForPreImage E lookup img hf enc = Inr None)"
  by (auto simp: ScanForPreImage_def go_simps Available_New split: if_splits)

lemma scan_for_pre_image_witness:
  "ScanForPreImage example_env (\<lambda>k. Inr ''q'') ''p'' 5 0 = Inr None"
  using scan_for_pre_image [of example_env "\<lambda>k. Inr ''q''" "''p''" 5 0 "''q''" "''q''"]
  by (simp add: go_simps example_env_def example_zero noneEncoding_def)

end
