(* ===== verification/Fabtoken.thy ===== *)
theory Fabtoken
  imports Htlc Translator "HOL-Library.AList"
begin

text \<open>
  The driver of tokens in the clear (\<open>token/core/fabtoken\<close>): its actions (actions.go),
  public parameters (setup.go), the validator of requests (validator.go,
  validator_transfer.go) with the backend that hands out the signatures
  (\<open>token/core/common/backend.go\<close>), and the creation of issue actions (issuer.go).

  Pointers that may be nil are options: an element of \<open>Outputs\<close> is a pointer to a
  struct whose field \<open>Output\<close> is a pointer to a token.
\<close>

section \<open>Actions\<close>

type_synonym Output = "Token option"

record FabIssueAction =
  Issuer :: bytes
  iOutputs :: "Output option list"
  iMetadata :: "(string \<times> bytes) list"

record FabTransferAction =
  Inputs :: "string list"
  tOutputs :: "Output option list"
  tMetadata :: "(string \<times> bytes) list"

datatype fab_action = FabIssue FabIssueAction | FabTransfer FabTransferAction

record OutputMetadata =
  omIssuer :: bytes

text \<open>A request (\<open>token/driver/request.go\<close>).\<close>

record TokenRequest =
  Issues :: "bytes list"
  Transfers :: "bytes list"
  Signatures :: "bytes list"
  AuditorSignatures :: "bytes list"

text \<open>The codecs of the driver, added to the environment.\<close>

record fab_env = env +
  marshal_Token :: "Token option \<Rightarrow> bytes res"
  unmarshal_Token :: "bytes \<Rightarrow> Token res"
  unmarshal_Issue :: "bytes \<Rightarrow> FabIssueAction res"
  unmarshal_Transfer :: "bytes \<Rightarrow> FabTransferAction res"
  marshal_TokenRequest :: "TokenRequest \<Rightarrow> bytes res"
  unmarshal_TokenRequest :: "bytes \<Rightarrow> TokenRequest res"
  marshal_OutputMetadata :: "OutputMetadata \<Rightarrow> bytes res"

definition Output_Serialize :: "fab_env \<Rightarrow> Output \<Rightarrow> bytes res" where
  "Output_Serialize E t = marshal_Token E t"

definition Output_IsRedeem :: "Output \<Rightarrow> bool res" where
  "Output_IsRedeem t = rbind (deref t) (\<lambda>tok. rbind (owner_raw (tokOwner tok)) (\<lambda>raw. Inr (raw = [])))"

definition serialize_outputs :: "fab_env \<Rightarrow> Output option list \<Rightarrow> bytes list res" where
  "serialize_outputs E outputs =
     rmap (\<lambda>output.
       case output of
         None \<Rightarrow> Inl (Err ''cannot serialize action outputs: nil output'')
       | Some t \<Rightarrow>
           (case Output_Serialize E t of
              Inl (Panic p) \<Rightarrow> Inl (Panic p)
            | Inl (Err m) \<Rightarrow> Inl (Err ''failed to serialize output'')
            | Inr ser \<Rightarrow> Inr ser)) outputs"

definition IssueAction_NumOutputs :: "FabIssueAction \<Rightarrow> nat" where
  "IssueAction_NumOutputs i = length (iOutputs i)"

definition IssueAction_GetSerializedOutputs :: "fab_env \<Rightarrow> FabIssueAction \<Rightarrow> bytes list res" where
  "IssueAction_GetSerializedOutputs E i = serialize_outputs E (iOutputs i)"

definition IssueAction_IsAnonymous :: "FabIssueAction \<Rightarrow> bool" where
  "IssueAction_IsAnonymous i = False"

definition TransferAction_NumOutputs :: "FabTransferAction \<Rightarrow> nat" where
  "TransferAction_NumOutputs t = length (tOutputs t)"

definition TransferAction_GetSerializedOutputs :: "fab_env \<Rightarrow> FabTransferAction \<Rightarrow> bytes list res" where
  "TransferAction_GetSerializedOutputs E t = serialize_outputs E (tOutputs t)"

definition TransferAction_IsRedeemAt :: "FabTransferAction \<Rightarrow> nat \<Rightarrow> bool res" where
  "TransferAction_IsRedeemAt t index =
     (if length (tOutputs t) \<le> index then Inl (Panic ''index out of range'')
      else rbind (deref (tOutputs t ! index)) Output_IsRedeem)"

definition TransferAction_IsGraphHiding :: "FabTransferAction \<Rightarrow> bool" where
  "TransferAction_IsGraphHiding t = False"

definition TransferAction_SerializeOutputAt :: "fab_env \<Rightarrow> FabTransferAction \<Rightarrow> nat \<Rightarrow> bytes res" where
  "TransferAction_SerializeOutputAt E t index =
     (if length (tOutputs t) \<le> index
      then Inl (Err ''failed to serialize output in transfer action: it does not exist'')
      else case tOutputs t ! index of
             None \<Rightarrow> Inl (Err ''failed to serialize output in transfer action: nil output'')
           | Some out \<Rightarrow> Output_Serialize E out)"

definition TransferAction_GetInputs :: "FabTransferAction \<Rightarrow> string list res" where
  "TransferAction_GetInputs t = Inr (Inputs t)"

definition the_default :: "'a \<Rightarrow> 'a option \<Rightarrow> 'a" where
  "the_default d p = (case p of None \<Rightarrow> d | Some a \<Rightarrow> a)"

text \<open>The actions as the translator sees them.\<close>

definition to_action :: "fab_env \<Rightarrow> fab_action \<Rightarrow> action" where
  "to_action E a =
     (case a of
        FabIssue i \<Rightarrow> IssueAction
          \<lparr>iaNumOutputs = IssueAction_NumOutputs i,
           iaGetSerializedOutputs = IssueAction_GetSerializedOutputs E i, iaGetMetadata = iMetadata i\<rparr>
      | FabTransfer t \<Rightarrow> TransferAction
          \<lparr>taNumOutputs = TransferAction_NumOutputs t, taIsRedeemAt = TransferAction_IsRedeemAt t,
           taSerializeOutputAt = TransferAction_SerializeOutputAt E t,
           taGetInputs = TransferAction_GetInputs t,
           taIsGraphHiding = TransferAction_IsGraphHiding t, taGetMetadata = tMetadata t\<rparr>)"

definition UnmarshalIssueActions :: "fab_env \<Rightarrow> bytes list \<Rightarrow> FabIssueAction list res" where
  "UnmarshalIssueActions E raw = rmap (unmarshal_Issue E) raw"

definition UnmarshalTransferActions :: "fab_env \<Rightarrow> bytes list \<Rightarrow> FabTransferAction list res" where
  "UnmarshalTransferActions E raw = rmap (unmarshal_Transfer E) raw"

definition UnmarshalIssueTransferActions ::
  "fab_env \<Rightarrow> TokenRequest \<Rightarrow> (FabIssueAction list \<times> FabTransferAction list) res" where
  "UnmarshalIssueTransferActions E tr =
     rbind (UnmarshalIssueActions E (Issues tr)) (\<lambda>ia.
     rbind (UnmarshalTransferActions E (Transfers tr)) (\<lambda>ta. Inr (ia, ta)))"

section \<open>Public parameters\<close>

definition PublicParameters :: string where "PublicParameters = ''fabtoken''"
definition DefaultPrecision :: u64 where "DefaultPrecision = 64"

record PublicParams =
  Label :: string
  QuantityPrecision :: u64
  Auditor :: "bytes option"
  Issuers :: "bytes list"
  MaxToken :: u64

definition AddAuditor :: "bytes \<Rightarrow> PublicParams \<Rightarrow> PublicParams" where
  "AddAuditor auditor pp = pp\<lparr>Auditor := Some auditor\<rparr>"

definition AddIssuer :: "bytes \<Rightarrow> PublicParams \<Rightarrow> PublicParams" where
  "AddIssuer issuer pp = pp\<lparr>Issuers := Issuers pp @ [issuer]\<rparr>"

text \<open>\<open>1<<pp.Precision() - 1\<close> on 64 bits: a shift by the width or more gives zero.\<close>

definition ComputeMaxTokenValue :: "PublicParams \<Rightarrow> u64" where
  "ComputeMaxTokenValue pp = push_bit (unat (QuantityPrecision pp)) 1 - 1"

definition PublicParams_Validate :: "PublicParams \<Rightarrow> unit res" where
  "PublicParams_Validate pp =
     (if MaxToken pp > ComputeMaxTokenValue pp then Inl (Err ''max token value is invalid'') else Inr ())"

definition Setup :: PublicParams where
  "Setup = \<lparr>Label = PublicParameters, QuantityPrecision = DefaultPrecision, Auditor = None,
            Issuers = [], MaxToken = - 1\<rparr>"

section \<open>The backend\<close>

record Backend =
  Ledger :: "string \<Rightarrow> bytes res"
  Message :: bytes
  Cursor :: nat
  Sigs :: "bytes list"

definition NewBackend :: "(string \<Rightarrow> bytes res) \<Rightarrow> bytes \<Rightarrow> bytes list \<Rightarrow> Backend" where
  "NewBackend ledger message sigs = \<lparr>Ledger = ledger, Message = message, Cursor = 0, Sigs = sigs\<rparr>"

text \<open>
  The next signature, whoever it is asked for; the verifier reads the clock, whose value at
  that moment is a function of the number of signatures handed out before.
\<close>

definition HasBeenSignedBy :: "(nat \<Rightarrow> int) \<Rightarrow> verifier \<Rightarrow> (Backend, bytes) oper" where
  "HasBeenSignedBy clock verifier = (\<lambda>b.
     if length (Sigs b) \<le> Cursor b
     then (Inl (Err ''invalid state, insufficient number of signatures''), b)
     else let sigma = Sigs b ! Cursor b; b' = b\<lparr>Cursor := Cursor b + 1\<rparr>
          in case verifier (clock (Cursor b)) (Message b) sigma of
               Inl e \<Rightarrow> (Inl e, b')
             | Inr u \<Rightarrow> (Inr sigma, b'))"

definition Backend_GetState :: "Backend \<Rightarrow> string \<Rightarrow> bytes res" where
  "Backend_GetState b key = Ledger b key"


section \<open>The validator of transfers\<close>

text \<open>
  The deserializers of the verifiers: of owners through the interop package, of issuers and
  auditors, and inside of owners, through the X.509 members of the smart client
  (\<open>msp\<close>), which are a parameter.
\<close>

record deserializer =
  GetOwnerVerifier :: verifier_des
  GetIssuerVerifier :: verifier_des
  GetAuditorVerifier :: verifier_des

definition NewDeserializer :: "fab_env \<Rightarrow> verifier_des \<Rightarrow> deserializer" where
  "NewDeserializer E msp =
     \<lparr>GetOwnerVerifier =
        Deserializer_DeserializeVerifier E (RawOwnerIdentityDeserializer_DeserializeVerifier E msp),
      GetIssuerVerifier = msp, GetAuditorVerifier = msp\<rparr>"

text \<open>
  The context of a validation. The signature provider is the backend; the map that counts
  metadata keys is a list of distinct keys with their counts. \<open>sigClock\<close> is the time at
  which the n-th signature is verified, \<open>htlcClock\<close> the time of the check of scripts
  that comes after n signatures.
\<close>

record Context =
  PP :: PublicParams
  Deserializer :: deserializer
  SignatureProvider :: Backend
  ctxSignatures :: "bytes list"
  InputTokens :: "Token option list"
  Action :: FabTransferAction
  MetadataCounter :: "(string \<times> nat) list"
  sigClock :: "nat \<Rightarrow> int"
  htlcClock :: "nat \<Rightarrow> int"

type_synonym ValidateTransferFunc = "(Context, unit) oper"

definition CountMetadataKey :: "string \<Rightarrow> (Context, unit) oper" where
  "CountMetadataKey key = (\<lambda>c. (Inr (), c\<lparr>MetadataCounter :=
     AList.update key (the_default 0 (map_of (MetadataCounter c) key) + 1) (MetadataCounter c)\<rparr>))"

definition signed_by :: "verifier \<Rightarrow> (Context, bytes) oper" where
  "signed_by verifier = (\<lambda>c.
     case HasBeenSignedBy (sigClock c) verifier (SignatureProvider c) of
       (r, b) \<Rightarrow> (r, c\<lparr>SignatureProvider := b\<rparr>))"

definition add_signature :: "bytes \<Rightarrow> (Context, unit) oper" where
  "add_signature sigma = (\<lambda>c. (Inr (), c\<lparr>ctxSignatures := ctxSignatures c @ [sigma]\<rparr>))"

definition token_owner :: "Token option \<Rightarrow> bytes res" where
  "token_owner p = rbind (deref p) (\<lambda>tok. owner_raw (tokOwner tok))"

definition TransferSignatureValidate :: ValidateTransferFunc where
  "TransferSignatureValidate = (\<lambda>ctx.
     ofor (\<lambda>tok.
       obind (olift (token_owner tok)) (\<lambda>raw.
       obind (olift (GetOwnerVerifier (Deserializer ctx) raw)) (\<lambda>verifier.
       obind (signed_by verifier) (\<lambda>sigma.
       add_signature sigma)))) (InputTokens ctx) ctx)"

text \<open>One round of the loops over inputs and over outputs: add the quantity, check the type.\<close>

definition balance_input :: "u64 \<Rightarrow> string \<Rightarrow> Quantity \<Rightarrow> Token option \<Rightarrow> Quantity res" where
  "balance_input precision typ inputSum input =
     (case input of
        None \<Rightarrow> Inl (Err ''input is nil'')
      | Some tok \<Rightarrow>
          rbind (ToQuantity (tokQuantity tok) precision) (\<lambda>q.
          rbind (Add inputSum q) (\<lambda>sum'.
          if tokType tok \<noteq> typ then Inl (Err ''input type does not match'') else Inr sum')))"

definition balance_output :: "u64 \<Rightarrow> string \<Rightarrow> Quantity \<Rightarrow> Output option \<Rightarrow> Quantity res" where
  "balance_output precision typ outputSum output =
     rbind (deref output) (\<lambda>p.
     rbind (deref p) (\<lambda>out.
     rbind (ToQuantity (tokQuantity out) precision) (\<lambda>q.
     rbind (Add outputSum q) (\<lambda>sum'.
     if tokType out \<noteq> typ then Inl (Err ''output type does not match'') else Inr sum'))))"

definition balance :: "u64 \<Rightarrow> Token option list \<Rightarrow> Output option list \<Rightarrow> unit res" where
  "balance precision inputs outputs =
     (if outputs = [] then Inl (Err ''there is no output'')
      else case inputs of
          [] \<Rightarrow> Inl (Err ''there is no input'')
        | None # _ \<Rightarrow> Inl (Err ''first input is nil'')
        | Some first # _ \<Rightarrow>
            rbind (rfold (balance_input precision (tokType first)) (NewZeroQuantity precision) inputs) (\<lambda>inputSum.
            rbind (rfold (balance_output precision (tokType first)) (NewZeroQuantity precision) outputs) (\<lambda>outputSum.
            rbind (Cmp inputSum outputSum) (\<lambda>c.
            if c \<noteq> 0 then Inl (Err ''input sum does not match output sum'') else Inr ()))))"

definition TransferBalanceValidate :: ValidateTransferFunc where
  "TransferBalanceValidate = (\<lambda>ctx.
     (balance (QuantityPrecision (PP ctx)) (InputTokens ctx) (tOutputs (Action ctx)), ctx))"

text \<open>
  An input that is a script: the type, the quantity and the owner that are compared with
  the output are those of the first input, whatever the index of the script.
\<close>

definition htlc_input :: "fab_env \<Rightarrow> int \<Rightarrow> nat \<times> Token option \<Rightarrow> ValidateTransferFunc" where
  "htlc_input E now = (\<lambda>(i, input) ctx.
     obind (olift (token_owner input)) (\<lambda>raw.
     obind (olift (UnmarshallRawOwner E raw)) (\<lambda>owner.
     if roType owner \<noteq> ScriptType then oret ()
     else
       obind (ocheck (length (tOutputs (Action ctx)) = 1)
          ''invalid transfer action: an htlc script only transfers the ownership of a token'') (\<lambda>_.
       obind (olift (at (InputTokens ctx) 0)) (\<lambda>in0.
       obind (olift (deref in0)) (\<lambda>first.
       obind (olift (deref (tOutputs (Action ctx) ! 0))) (\<lambda>output.
       obind (olift (deref output)) (\<lambda>tok.
       obind (ocheck (tokType first = tokType tok)
          ''invalid transfer action: type of input does not match type of output'') (\<lambda>_.
       obind (ocheck (tokQuantity first = tokQuantity tok)
          ''invalid transfer action: quantity of input does not match quantity of output'') (\<lambda>_.
       obind (olift (Output_IsRedeem output)) (\<lambda>redeem.
       obind (ocheck (\<not> redeem)
          ''invalid transfer action: the output corresponding to an htlc spending should not be a redeem'') (\<lambda>_.
       obind (olift (token_owner in0)) (\<lambda>inOwner.
       obind (olift (token_owner output)) (\<lambda>outOwner.
       obind (olift (VerifyOwner E inOwner outOwner now)) (\<lambda>(script, op).
       obind (olift (at (ctxSignatures ctx) i)) (\<lambda>sigma.
       obind (olift (MetadataClaimKeyCheck E (tMetadata (Action ctx)) script op sigma)) (\<lambda>metadataKey.
       if op \<noteq> Reclaim then CountMetadataKey metadataKey else oret ()))))))))))))))))  ctx)"

definition htlc_output :: "fab_env \<Rightarrow> int \<Rightarrow> Output option \<Rightarrow> ValidateTransferFunc" where
  "htlc_output E now o' = (\<lambda>ctx.
     obind (olift (deref o')) (\<lambda>out.
     obind (olift (Output_IsRedeem out)) (\<lambda>redeem.
     if redeem then oret ()
     else
       obind (olift (token_owner out)) (\<lambda>raw.
       obind (olift (UnmarshallRawOwner E raw)) (\<lambda>owner.
       if roType owner \<noteq> ScriptType then oret ()
       else
         obind (olift (unmarshal_Script E (roIdentity owner))) (\<lambda>script.
         obind (olift (Script_Validate E script now)) (\<lambda>_.
         obind (olift (MetadataLockKeyCheck (tMetadata (Action ctx)) script)) (\<lambda>metadataKey.
         CountMetadataKey metadataKey))))))) ctx)"

definition TransferHTLCValidate :: "fab_env \<Rightarrow> ValidateTransferFunc" where
  "TransferHTLCValidate E = (\<lambda>ctx.
     let now = htlcClock ctx (Cursor (SignatureProvider ctx)) in
     obind (ofor (htlc_input E now) (enumerate 0 (InputTokens ctx))) (\<lambda>_.
     ofor (htlc_output E now) (tOutputs (Action ctx))) ctx)"

section \<open>The validator of requests\<close>

record Validator =
  pp :: PublicParams
  des :: deserializer
  transferValidators :: "ValidateTransferFunc list"
  vSigClock :: "nat \<Rightarrow> int"
  vHtlcClock :: "nat \<Rightarrow> int"

definition NewValidator ::
  "fab_env \<Rightarrow> (nat \<Rightarrow> int) \<Rightarrow> (nat \<Rightarrow> int) \<Rightarrow> PublicParams option \<Rightarrow> deserializer option
   \<Rightarrow> ValidateTransferFunc list \<Rightarrow> Validator res" where
  "NewValidator E clock1 clock2 params d extraValidators =
     (case params of
        None \<Rightarrow> Inl (Err ''please provide a non-nil public parameters'')
      | Some p \<Rightarrow>
          (case d of
             None \<Rightarrow> Inl (Err ''please provide a non-nil deserializer'')
           | Some dd \<Rightarrow> Inr \<lparr>pp = p, des = dd,
               transferValidators =
                 [TransferSignatureValidate, TransferBalanceValidate, TransferHTLCValidate E] @ extraValidators,
               vSigClock = clock1, vHtlcClock = clock2\<rparr>))"

definition VerifyTransfer ::
  "Validator \<Rightarrow> Token option list \<Rightarrow> FabTransferAction \<Rightarrow> (Backend, unit) oper" where
  "VerifyTransfer v inputTokens tr = (\<lambda>b.
     case ofor (\<lambda>validator. validator) (transferValidators v)
         \<lparr>PP = pp v, Deserializer = des v, SignatureProvider = b, ctxSignatures = [],
          InputTokens = inputTokens, Action = tr, MetadataCounter = [],
          sigClock = vSigClock v, htlcClock = vHtlcClock v\<rparr> of
       (Inl e, ctx) \<Rightarrow> (Inl e, SignatureProvider ctx)
     | (Inr u, ctx) \<Rightarrow>
         ((if \<exists>(k, c) \<in> set (MetadataCounter ctx). c > 1
           then Inl (Err ''metadata key appeared more than once'')
           else if length (tMetadata tr) \<noteq> sum_list (map snd (MetadataCounter ctx))
           then Inl (Err ''more metadata than those validated'')
           else Inr ()), SignatureProvider ctx))"

definition RetrieveInputsFromTransferAction ::
  "fab_env \<Rightarrow> FabTransferAction \<Rightarrow> (string \<Rightarrow> bytes res) \<Rightarrow> Token list res" where
  "RetrieveInputsFromTransferAction E t ledger =
     rbind (TransferAction_GetInputs t) (\<lambda>inputs.
     rmap (\<lambda>key. rbind (ledger key) (\<lambda>raw.
       if raw = [] then Inl (Err ''input to spend does not exists'') else unmarshal_Token E raw)) inputs)"

definition VerifyTransfers ::
  "fab_env \<Rightarrow> Validator \<Rightarrow> (string \<Rightarrow> bytes res) \<Rightarrow> FabTransferAction list \<Rightarrow> (Backend, unit) oper" where
  "VerifyTransfers E v ledger transferActions =
     ofor (\<lambda>t.
       obind (olift (RetrieveInputsFromTransferAction E t ledger)) (\<lambda>inputTokens.
       VerifyTransfer v (map Some inputTokens) t)) transferActions"

fun verify_outputs :: "u64 \<Rightarrow> Output option list \<Rightarrow> unit res" where
  "verify_outputs precision [] = Inr ()"
| "verify_outputs precision (output # outputs) =
     rbind (deref output) (\<lambda>p.
     rbind (deref p) (\<lambda>out.
     rbind (ToQuantity (tokQuantity out) precision) (\<lambda>q.
     rbind (Cmp q (NewZeroQuantity precision)) (\<lambda>c.
     if c = 0 then Inl (Err ''quantity is zero'') else verify_outputs precision outputs))))"

definition VerifyIssue :: "Validator \<Rightarrow> FabIssueAction \<Rightarrow> unit res" where
  "VerifyIssue v issue =
     (if IssueAction_NumOutputs issue = 0 then Inl (Err ''there is no output'')
      else verify_outputs (QuantityPrecision (pp v)) (iOutputs issue))"

definition VerifyIssues :: "Validator \<Rightarrow> FabIssueAction list \<Rightarrow> (Backend, unit) oper" where
  "VerifyIssues v issues =
     ofor (\<lambda>issue.
       obind (olift (VerifyIssue v issue)) (\<lambda>_.
       obind (ocheck (Issuers (pp v) = [] \<or> Issuer issue \<in> set (Issuers (pp v))) ''issuer is not in issuers'') (\<lambda>_.
       obind (olift (GetIssuerVerifier (des v) (Issuer issue))) (\<lambda>verifier.
       obind (HasBeenSignedBy (vSigClock v) verifier) (\<lambda>_. oret ()))))) issues"

definition VerifyAuditorSignature :: "Validator \<Rightarrow> (Backend, unit) oper" where
  "VerifyAuditorSignature v =
     (case Auditor (pp v) of
        None \<Rightarrow> oret ()
      | Some auditor \<Rightarrow>
          (case GetAuditorVerifier (des v) auditor of
             Inl (Panic p) \<Rightarrow> olift (Inl (Panic p))
           | Inl (Err m) \<Rightarrow> olift (Inl (Err ''failed to deserialize auditor's public key''))
           | Inr verifier \<Rightarrow> obind (HasBeenSignedBy (vSigClock v) verifier) (\<lambda>_. oret ())))"

text \<open>
  The ledger and the request may be nil; the signature provider is the state of the
  operation.
\<close>

definition VerifyTokenRequest ::
  "fab_env \<Rightarrow> Validator \<Rightarrow> (string \<Rightarrow> bytes res) option \<Rightarrow> string \<Rightarrow> TokenRequest option
   \<Rightarrow> (Backend, fab_action list) oper" where
  "VerifyTokenRequest E v ledger binding tr =
     (case ledger of
        None \<Rightarrow> olift (Inl (Err ''please provide a non-nil ledger''))
      | Some l \<Rightarrow>
          if binding = [] then olift (Inl (Err ''please provide a non-empty binding''))
          else case tr of
              None \<Rightarrow> olift (Inl (Err ''please provide a non-nil token request''))
            | Some r \<Rightarrow>
                obind (VerifyAuditorSignature v) (\<lambda>_.
                obind (olift (UnmarshalIssueTransferActions E r)) (\<lambda>(ia, ta).
                obind (VerifyIssues v ia) (\<lambda>_.
                obind (VerifyTransfers E v l ta) (\<lambda>_.
                oret (map FabIssue ia @ map FabTransfer ta))))))"

definition VerifyTokenRequestFromRaw ::
  "fab_env \<Rightarrow> Validator \<Rightarrow> (string \<Rightarrow> bytes res) option \<Rightarrow> string \<Rightarrow> bytes \<Rightarrow> fab_action list res" where
  "VerifyTokenRequestFromRaw E v getState binding raw =
     (case getState of
        None \<Rightarrow> Inl (Err ''please provide a non-nil get state function'')
      | Some get \<Rightarrow>
          if binding = [] then Inl (Err ''please provide a non-empty binding'')
          else if raw = [] then Inl (Err ''empty token request'')
          else
            rbind (unmarshal_TokenRequest E raw) (\<lambda>tr.
            rbind (marshal_TokenRequest E
                \<lparr>Issues = Issues tr, Transfers = Transfers tr, Signatures = [], AuditorSignatures = []\<rparr>) (\<lambda>msg.
            let signatures =
                  (if the_default [] (Auditor (pp v)) \<noteq> []
                   then AuditorSignatures tr @ Signatures tr else Signatures tr);
                backend = NewBackend get (msg @ binding) signatures
            in fst (VerifyTokenRequest E v (Some (Backend_GetState backend)) binding (Some tr) backend))))"

definition UnmarshalActions :: "fab_env \<Rightarrow> bytes \<Rightarrow> fab_action list res" where
  "UnmarshalActions E raw =
     rbind (unmarshal_TokenRequest E raw) (\<lambda>tr.
     rbind (UnmarshalIssueTransferActions E tr) (\<lambda>(ia, ta).
     Inr (map FabIssue ia @ map FabTransfer ta)))"

section \<open>Issuing\<close>

definition issue_output :: "fab_env \<Rightarrow> u64 \<Rightarrow> bytes \<Rightarrow> string \<Rightarrow> bytes list \<Rightarrow> nat \<times> u64
    \<Rightarrow> (Output option \<times> bytes) res" where
  "issue_output E precision issuer typ owners = (\<lambda>(i, v).
     rbind (UInt64ToQuantity v precision) (\<lambda>q.
     rbind (at owners i) (\<lambda>owner.
     rbind (marshal_OutputMetadata E \<lparr>omIssuer = issuer\<rparr>) (\<lambda>meta.
     Inr (Some (Some \<lparr>tokOwner = Some owner, tokType = typ, tokQuantity = Hex q\<rparr>), meta)))))"

definition Issue ::
  "fab_env \<Rightarrow> u64 \<Rightarrow> bytes \<Rightarrow> string \<Rightarrow> u64 list \<Rightarrow> bytes list \<Rightarrow> (FabIssueAction \<times> bytes list \<times> bytes) res" where
  "Issue E precision issuerIdentity typ vals owners =
     (if \<exists>owner \<in> set owners. owner = [] then Inl (Err ''all recipients should be defined'')
      else rbind (rmap (issue_output E precision issuerIdentity typ owners) (enumerate 0 vals)) (\<lambda>outs.
        Inr (\<lparr>Issuer = issuerIdentity, iOutputs = map fst outs, iMetadata = []\<rparr>, map snd outs, issuerIdentity)))"


section \<open>Lemmas\<close>

lemma owner_raw_eq [go_simps]: "owner_raw p = Inr a \<longleftrightarrow> p = Some a"
  by (auto simp: owner_raw_def split: option.splits)

subsection \<open>Balance\<close>

lemma balance_input_eq [go_simps]:
  "balance_input p typ a x = Inr b \<longleftrightarrow>
     (\<exists>tok q. x = Some tok \<and> tokType tok = typ \<and> ToQuantity (tokQuantity tok) p = Inr q \<and> Add a q = Inr b)"
  by (auto simp: balance_input_def go_simps split: option.splits)

lemma balance_output_eq [go_simps]:
  "balance_output p typ a x = Inr b \<longleftrightarrow>
     (\<exists>tok q. x = Some (Some tok) \<and> tokType tok = typ \<and> ToQuantity (tokQuantity tok) p = Inr q \<and> Add a q = Inr b)"
  by (auto simp: balance_output_def go_simps)

text \<open>A loop that adds the quantities of tokens found behind pointers (\<open>wrap\<close>).\<close>

lemma fold_balance:
  assumes "rfold f a xs = Inr c" and "wfq p a"
    and "\<And>a x b. f a x = Inr b \<Longrightarrow>
      \<exists>tok q. x = wrap tok \<and> tokType tok = typ \<and> ToQuantity (tokQuantity tok) p = Inr q \<and> Add a q = Inr b"
  shows "\<exists>toks. xs = map wrap toks \<and> (\<forall>t \<in> set toks. tokType t = typ) \<and> wfq p c
    \<and> ToBigInt c = ToBigInt a + sum_list (map (\<lambda>t. qval (tokQuantity t)) toks)"
  using assms(1,2)
proof (induction xs arbitrary: a)
  case Nil
  then show ?case by simp
next
  case (Cons x xs)
  from Cons.prems(1) obtain b where b: "f a x = Inr b" and r: "rfold f b xs = Inr c"
    by (auto simp: go_simps)
  from assms(3) [OF b] obtain tok q where x: "x = wrap tok" "tokType tok = typ"
    and q: "ToQuantity (tokQuantity tok) p = Inr q" and add: "Add a q = Inr b" by blast
  have vb: "wfq p b \<and> ToBigInt b = ToBigInt a + qval (tokQuantity tok)"
    using Add_wfq [OF Cons.prems(2) ToQuantity_SomeD(3) [OF q] add] ToQuantity_qval [OF q] by simp
  then obtain toks where "xs = map wrap toks" "\<forall>t \<in> set toks. tokType t = typ" "wfq p c"
    "ToBigInt c = ToBigInt b + sum_list (map (\<lambda>t. qval (tokQuantity t)) toks)"
    using Cons.IH [OF r] by blast
  with x vb show ?case by (intro exI [of _ "tok # toks"]) simp
qed

definition total :: "Token list \<Rightarrow> int" where
  "total toks = sum_list (map (\<lambda>t. qval (tokQuantity t)) toks)"

lemma balance_ok:
  assumes "balance p ins outs = Inr ()"
  shows "\<exists>toks os typ. ins = map Some toks \<and> outs = map (\<lambda>t. Some (Some t)) os \<and> toks \<noteq> [] \<and> os \<noteq> []
    \<and> (\<forall>t \<in> set toks \<union> set os. tokType t = typ) \<and> total toks = total os"
proof -
  from assms obtain first rest where ins: "ins = Some first # rest" and ne: "outs \<noteq> []"
    by (auto simp: balance_def split: if_splits list.splits option.splits)
  with assms obtain i o' c where i: "rfold (balance_input p (tokType first)) (NewZeroQuantity p) ins = Inr i"
    and o': "rfold (balance_output p (tokType first)) (NewZeroQuantity p) outs = Inr o'"
    and c: "Cmp i o' = Inr c" "c = 0"
    by (auto simp: balance_def rbind_eq_Inr split: if_splits)
  obtain toks where t: "ins = map Some toks" "\<forall>t \<in> set toks. tokType t = tokType first" "wfq p i"
    "ToBigInt i = total toks"
    using fold_balance [OF i wfq_zero, of Some "tokType first"] by (auto simp: go_simps total_def)
  obtain os where os: "outs = map (\<lambda>t. Some (Some t)) os" "\<forall>t \<in> set os. tokType t = tokType first" "wfq p o'"
    "ToBigInt o' = total os"
    using fold_balance [OF o' wfq_zero, of "\<lambda>t. Some (Some t)" "tokType first"]
    by (auto simp: go_simps total_def)
  have "total toks = total os" using Cmp_wfq [OF t(3) os(3)] c t(4) os(4) by simp
  with t os ins ne show ?thesis by (intro exI [of _ toks] exI [of _ os] exI [of _ "tokType first"]) auto
qed

subsection \<open>Signatures\<close>

definition signed_at :: "(nat \<Rightarrow> int) \<Rightarrow> Backend \<Rightarrow> nat \<Rightarrow> verifier \<Rightarrow> bool" where
  "signed_at clock b c ver \<longleftrightarrow> c < length (Sigs b) \<and> ver (clock c) (Message b) (Sigs b ! c) = Inr ()"

text \<open>The n-th token from a position on is signed for by the verifier of its owner.\<close>

definition owners_signed ::
  "deserializer \<Rightarrow> (nat \<Rightarrow> int) \<Rightarrow> Backend \<Rightarrow> nat \<Rightarrow> Token option list \<Rightarrow> bool" where
  "owners_signed d clock b c toks \<longleftrightarrow>
     (\<forall>j < length toks. \<exists>raw ver. token_owner (toks ! j) = Inr raw \<and> GetOwnerVerifier d raw = Inr ver
        \<and> signed_at clock b (c + j) ver)"

lemma HasBeenSignedBy_eq [go_simps]:
  "HasBeenSignedBy clock ver b = (Inr sigma, b') \<longleftrightarrow>
     signed_at clock b (Cursor b) ver \<and> sigma = Sigs b ! Cursor b \<and> b' = b\<lparr>Cursor := Cursor b + 1\<rparr>"
  by (auto simp: HasBeenSignedBy_def signed_at_def Let_def split: sum.splits if_splits)

lemma signed_by_eq [go_simps]:
  "signed_by ver c = (Inr sigma, c') \<longleftrightarrow>
     signed_at (sigClock c) (SignatureProvider c) (Cursor (SignatureProvider c)) ver
     \<and> sigma = Sigs (SignatureProvider c) ! Cursor (SignatureProvider c)
     \<and> c' = c\<lparr>SignatureProvider := (SignatureProvider c)\<lparr>Cursor := Cursor (SignatureProvider c) + 1\<rparr>\<rparr>"
  by (auto simp: signed_by_def HasBeenSignedBy_def signed_at_def Let_def split: sum.splits)

lemma add_signature_eq [go_simps]:
  "add_signature sigma c = (r, c') \<longleftrightarrow> r = Inr () \<and> c' = c\<lparr>ctxSignatures := ctxSignatures c @ [sigma]\<rparr>"
  by (auto simp: add_signature_def)

lemma signed_at_Cursor [simp]: "signed_at clock (b\<lparr>Cursor := n\<rparr>) c ver = signed_at clock b c ver"
  by (simp add: signed_at_def)

lemma owners_signed_Cursor [simp]:
  "owners_signed d clock (b\<lparr>Cursor := n\<rparr>) c toks = owners_signed d clock b c toks"
  by (simp add: owners_signed_def)

lemma owners_signed_Cons:
  "owners_signed d clock b c (t # ts) \<longleftrightarrow>
     (\<exists>raw ver. token_owner t = Inr raw \<and> GetOwnerVerifier d raw = Inr ver \<and> signed_at clock b c ver)
     \<and> owners_signed d clock b (c + 1) ts"
  unfolding owners_signed_def
  by (auto simp: less_Suc_eq_0_disj nth_Cons' split: if_splits)

abbreviation sign_tokens :: "deserializer \<Rightarrow> Token option list \<Rightarrow> ValidateTransferFunc" where
  "sign_tokens d toks \<equiv> ofor (\<lambda>tok.
       obind (olift (token_owner tok)) (\<lambda>raw.
       obind (olift (GetOwnerVerifier d raw)) (\<lambda>verifier.
       obind (signed_by verifier) (\<lambda>sigma.
       add_signature sigma)))) toks"

lemma sign_tokens_Cons:
  "sign_tokens d (t # toks) ctx = (Inr (), ctx') \<longleftrightarrow>
     (\<exists>raw ver. token_owner t = Inr raw \<and> GetOwnerVerifier d raw = Inr ver
        \<and> signed_at (sigClock ctx) (SignatureProvider ctx) (Cursor (SignatureProvider ctx)) ver)
     \<and> sign_tokens d toks (ctx\<lparr>
          SignatureProvider := (SignatureProvider ctx)\<lparr>Cursor := Cursor (SignatureProvider ctx) + 1\<rparr>,
          ctxSignatures := ctxSignatures ctx @
            [Sigs (SignatureProvider ctx) ! Cursor (SignatureProvider ctx)]\<rparr>) = (Inr (), ctx')"
  by (auto simp: go_simps)

lemma sign_tokens_ok:
  assumes "sign_tokens d toks ctx = (Inr (), ctx')"
  shows "owners_signed d (sigClock ctx) (SignatureProvider ctx) (Cursor (SignatureProvider ctx)) toks
    \<and> (let b = SignatureProvider ctx; n = length toks in
       ctx' = ctx\<lparr>SignatureProvider := b\<lparr>Cursor := Cursor b + n\<rparr>,
                  ctxSignatures := ctxSignatures ctx @ take n (drop (Cursor b) (Sigs b))\<rparr>
       \<and> (n = 0 \<or> Cursor b + n \<le> length (Sigs b)))"
  using assms
proof (induction toks arbitrary: ctx)
  case Nil
  then show ?case by (simp add: owners_signed_def)
next
  case (Cons t toks)
  let ?b = "SignatureProvider ctx"
  let ?c = "ctx\<lparr>SignatureProvider := ?b\<lparr>Cursor := Cursor ?b + 1\<rparr>,
        ctxSignatures := ctxSignatures ctx @ [Sigs ?b ! Cursor ?b]\<rparr>"
  from Cons.prems [unfolded sign_tokens_Cons] have r: "sign_tokens d toks ?c = (Inr (), ctx')"
    and t: "\<exists>raw ver. token_owner t = Inr raw \<and> GetOwnerVerifier d raw = Inr ver
        \<and> signed_at (sigClock ctx) ?b (Cursor ?b) ver" by blast+
  have lt: "Cursor ?b < length (Sigs ?b)" using t by (auto simp: signed_at_def)
  from Cons.IH [OF r] t lt show ?case
    by (auto simp: owners_signed_Cons Let_def Cons_nth_drop_Suc [symmetric])
qed


subsection \<open>Scripts\<close>

text \<open>The check of scripts changes the counts of the metadata keys only.\<close>

definition only_counts :: "Context \<Rightarrow> Context \<Rightarrow> bool" where
  "only_counts c c' \<longleftrightarrow> c' = c\<lparr>MetadataCounter := MetadataCounter c'\<rparr>"

lemma only_counts_refl [simp]: "only_counts c c"
  by (simp add: only_counts_def)

lemma only_counts_trans: "only_counts c c' \<Longrightarrow> only_counts c' c'' \<Longrightarrow> only_counts c c''"
  by (cases c; cases c'; cases c'') (auto simp: only_counts_def)

lemma only_countsD:
  assumes "only_counts c c'"
  shows "PP c' = PP c" "Deserializer c' = Deserializer c" "SignatureProvider c' = SignatureProvider c"
    "ctxSignatures c' = ctxSignatures c" "InputTokens c' = InputTokens c" "Action c' = Action c"
    "sigClock c' = sigClock c" "htlcClock c' = htlcClock c"
  using assms unfolding only_counts_def by (metis Context.simps Context.surjective)+

lemma CountMetadataKey_eq [go_simps]:
  "CountMetadataKey key c = (r, c') \<longleftrightarrow> r = Inr () \<and> c' = c\<lparr>MetadataCounter :=
     AList.update key (the_default 0 (map_of (MetadataCounter c) key) + 1) (MetadataCounter c)\<rparr>"
  by (auto simp: CountMetadataKey_def)

text \<open>What a successful check of an input has established.\<close>

lemma htlc_input_cases:
  assumes "htlc_input E now (i, inp) ctx = (Inr (), ctx')"
  obtains (plain) raw ro where "token_owner inp = Inr raw" "UnmarshallRawOwner E raw = Inr ro"
      "roType ro \<noteq> ScriptType" "ctx' = ctx"
  | (script) raw ro in0 tok inOwner outOwner script op sigma key where
      "token_owner inp = Inr raw" "UnmarshallRawOwner E raw = Inr ro" "roType ro = ScriptType"
      "0 < length (InputTokens ctx)" "InputTokens ctx ! 0 = Some in0"
      "length (tOutputs (Action ctx)) = 1" "tOutputs (Action ctx) ! 0 = Some (Some tok)"
      "tokType in0 = tokType tok" "tokQuantity in0 = tokQuantity tok"
      "tokOwner in0 = Some inOwner" "tokOwner tok = Some outOwner" "outOwner \<noteq> []"
      "VerifyOwner E inOwner outOwner now = Inr (script, op)"
      "i < length (ctxSignatures ctx)" "sigma = ctxSignatures ctx ! i"
      "MetadataClaimKeyCheck E (tMetadata (Action ctx)) script op sigma = Inr key"
      "(if op \<noteq> Reclaim then CountMetadataKey key else oret ()) ctx = (Inr (), ctx')"
proof -
  from assms obtain raw ro where r: "token_owner inp = Inr raw" "UnmarshallRawOwner E raw = Inr ro"
    by (auto simp: htlc_input_def obind_eq_Inr)
  show ?thesis
  proof (cases "roType ro = ScriptType")
    case False
    with assms r plain show ?thesis by (auto simp: htlc_input_def obind_eq_Inr)
  next
    case True
    from assms r True obtain in0 first outp tok redeem inOwner outOwner script op sigma key where
      "length (tOutputs (Action ctx)) = 1" "at (InputTokens ctx) 0 = Inr in0" "in0 = Some first"
      "tOutputs (Action ctx) ! 0 = Some outp" "outp = Some tok"
      "tokType first = tokType tok" "tokQuantity first = tokQuantity tok"
      "Output_IsRedeem outp = Inr redeem" "\<not> redeem"
      "token_owner in0 = Inr inOwner" "token_owner outp = Inr outOwner"
      "VerifyOwner E inOwner outOwner now = Inr (script, op)"
      "at (ctxSignatures ctx) i = Inr sigma"
      "MetadataClaimKeyCheck E (tMetadata (Action ctx)) script op sigma = Inr key"
      "(if op \<noteq> Reclaim then CountMetadataKey key else oret ()) ctx = (Inr (), ctx')"
      by (clarsimp simp add: htlc_input_def obind_eq_Inr ocheck_eq_Inr deref_eq simp del: oret_apply)
    with r True show ?thesis
      by (intro script) (auto simp: at_def token_owner_def Output_IsRedeem_def go_simps split: if_splits)
  qed
qed

lemma htlc_output_cases:
  assumes "htlc_output E now o' ctx = (Inr (), ctx')"
  obtains (skip) "ctx' = ctx"
  | (script) tok raw ro script key where "o' = Some (Some tok)" "tokOwner tok = Some raw" "raw \<noteq> []"
      "UnmarshallRawOwner E raw = Inr ro" "roType ro = ScriptType"
      "unmarshal_Script E (roIdentity ro) = Inr script" "Script_Validate E script now = Inr ()"
      "MetadataLockKeyCheck (tMetadata (Action ctx)) script = Inr key"
      "CountMetadataKey key ctx = (Inr (), ctx')"
proof -
  from assms obtain out redeem where o': "o' = Some out" and red: "Output_IsRedeem out = Inr redeem"
    by (auto simp: htlc_output_def obind_eq_Inr deref_eq)
  then obtain tok raw where t: "out = Some tok" "tokOwner tok = Some raw" "redeem = (raw = [])"
    by (auto simp: Output_IsRedeem_def go_simps)
  show ?thesis
  proof (cases redeem)
    case True
    with assms o' red skip show ?thesis by (auto simp: htlc_output_def obind_eq_Inr deref_eq)
  next
    case False
    with assms o' red t obtain ro where ro: "UnmarshallRawOwner E raw = Inr ro"
      by (auto simp: htlc_output_def obind_eq_Inr deref_eq token_owner_def rbind_eq_Inr owner_raw_eq)
    show ?thesis
    proof (cases "roType ro = ScriptType")
      case True
      with assms o' red t False ro show ?thesis
        by (auto simp: htlc_output_def obind_eq_Inr deref_eq token_owner_def rbind_eq_Inr owner_raw_eq
            intro: script)
    next
      case plain: False
      with assms o' red t False ro skip show ?thesis
        by (auto simp: htlc_output_def obind_eq_Inr deref_eq token_owner_def rbind_eq_Inr owner_raw_eq)
    qed
  qed
qed

lemma CountMetadataKey_only_counts: "CountMetadataKey key c = (r, c') \<Longrightarrow> only_counts c c'"
  by (simp add: go_simps only_counts_def)

lemma htlc_input_only_counts: "htlc_input E now x ctx = (Inr (), ctx') \<Longrightarrow> only_counts ctx ctx'"
  by (cases x, simp, erule htlc_input_cases)
    (auto dest: CountMetadataKey_only_counts split: if_splits)

lemma htlc_output_only_counts: "htlc_output E now x ctx = (Inr (), ctx') \<Longrightarrow> only_counts ctx ctx'"
  by (erule htlc_output_cases) (auto dest: CountMetadataKey_only_counts)

lemma htlc_loops_only_counts:
  "ofor (htlc_input E now) xs ctx = (Inr (), ctx') \<Longrightarrow> only_counts ctx ctx'"
  "ofor (htlc_output E now) ys ctx = (Inr (), ctx') \<Longrightarrow> only_counts ctx ctx'"
  by (rule ofor_invariant, assumption, simp, erule only_counts_trans,
      erule htlc_input_only_counts htlc_output_only_counts)+

lemma TransferHTLCValidate_only_counts:
  "TransferHTLCValidate E ctx = (Inr (), ctx') \<Longrightarrow> only_counts ctx ctx'"
  by (auto simp: TransferHTLCValidate_def Let_def obind_eq_Inr
      intro: only_counts_trans dest!: htlc_loops_only_counts)

subsection \<open>A transfer\<close>

definition start_context :: "Validator \<Rightarrow> Backend \<Rightarrow> Token option list \<Rightarrow> FabTransferAction \<Rightarrow> Context" where
  "start_context v b inputTokens tr =
     \<lparr>PP = pp v, Deserializer = des v, SignatureProvider = b, ctxSignatures = [],
      InputTokens = inputTokens, Action = tr, MetadataCounter = [],
      sigClock = vSigClock v, htlcClock = vHtlcClock v\<rparr>"

definition signed_context :: "Validator \<Rightarrow> Backend \<Rightarrow> Token option list \<Rightarrow> FabTransferAction \<Rightarrow> Context" where
  "signed_context v b ins tr =
     (start_context v b ins tr)\<lparr>SignatureProvider := b\<lparr>Cursor := Cursor b + length ins\<rparr>,
        ctxSignatures := take (length ins) (drop (Cursor b) (Sigs b))\<rparr>"

lemma VerifyTransfer_ok:
  assumes "VerifyTransfer v ins t b = (Inr (), b')"
    and "transferValidators v = [TransferSignatureValidate, TransferBalanceValidate, TransferHTLCValidate E] @ extra"
  obtains c c' where
    "owners_signed (des v) (vSigClock v) b (Cursor b) ins"
    "balance (QuantityPrecision (pp v)) ins (tOutputs t) = Inr ()"
    "TransferHTLCValidate E (signed_context v b ins t) = (Inr (), c)"
    "ofor (\<lambda>validator. validator) extra c = (Inr (), c')"
    "\<forall>(k, n) \<in> set (MetadataCounter c'). n \<le> 1"
    "length (tMetadata t) = sum_list (map snd (MetadataCounter c'))"
    "b' = SignatureProvider c'"
proof -
  from assms obtain c1 c2 c3 c4 where s: "TransferSignatureValidate (start_context v b ins t) = (Inr (), c1)"
    and bal: "TransferBalanceValidate c1 = (Inr (), c2)"
    and h: "TransferHTLCValidate E c2 = (Inr (), c3)" and x: "ofor (\<lambda>validator. validator) extra c3 = (Inr (), c4)"
    and m: "\<forall>(k, n) \<in> set (MetadataCounter c4). n \<le> 1"
    "length (tMetadata t) = sum_list (map snd (MetadataCounter c4))" "b' = SignatureProvider c4"
    by (force simp: VerifyTransfer_def start_context_def [symmetric] obind_eq_Inr not_less
        split: prod.splits sum.splits if_splits)
  have "sign_tokens (des v) ins (start_context v b ins t) = (Inr (), c1)"
    using s by (simp add: TransferSignatureValidate_def start_context_def)
  from sign_tokens_ok [OF this] have "owners_signed (des v) (vSigClock v) b (Cursor b) ins"
    and "c1 = signed_context v b ins t"
    by (simp_all add: Let_def signed_context_def start_context_def)
  moreover from this bal have "balance (QuantityPrecision (pp v)) ins (tOutputs t) = Inr ()" and "c2 = c1"
    by (simp_all add: TransferBalanceValidate_def signed_context_def start_context_def)
  ultimately show ?thesis using that h x m by blast
qed


subsection \<open>A request\<close>

text \<open>The tokens that the inputs of a transfer stand for on a ledger.\<close>

definition loads :: "fab_env \<Rightarrow> (string \<Rightarrow> bytes res) \<Rightarrow> string list \<Rightarrow> Token list \<Rightarrow> bool" where
  "loads E ledger keys toks \<longleftrightarrow>
     list_all2 (\<lambda>k tok. \<exists>raw. ledger k = Inr raw \<and> raw \<noteq> [] \<and> unmarshal_Token E raw = Inr tok) keys toks"

definition standard :: "fab_env \<Rightarrow> Validator \<Rightarrow> bool" where
  "standard E v \<longleftrightarrow>
     transferValidators v = [TransferSignatureValidate, TransferBalanceValidate, TransferHTLCValidate E]"

lemma Retrieve_loads:
  "RetrieveInputsFromTransferAction E t ledger = Inr toks \<longleftrightarrow> loads E ledger (Inputs t) toks"
  unfolding RetrieveInputsFromTransferAction_def TransferAction_GetInputs_def loads_def
  by (auto simp: rmap_eq_Inr_iff go_simps elim!: list_all2_mono split: if_splits)

text \<open>A transfer that is accepted balances, whatever further validators run.\<close>

definition balanced :: "fab_env \<Rightarrow> (string \<Rightarrow> bytes res) \<Rightarrow> FabTransferAction \<Rightarrow> bool" where
  "balanced E ledger t \<longleftrightarrow>
     (\<exists>toks os typ. loads E ledger (Inputs t) toks \<and> tOutputs t = map (\<lambda>o'. Some (Some o')) os
        \<and> toks \<noteq> [] \<and> os \<noteq> [] \<and> (\<forall>x \<in> set toks \<union> set os. tokType x = typ) \<and> total toks = total os)"

lemma VerifyTransfer_balanced:
  assumes "VerifyTransfer v (map Some toks) t b = (Inr (), b')" and "loads E ledger (Inputs t) toks"
    and "transferValidators v = [TransferSignatureValidate, TransferBalanceValidate, TransferHTLCValidate E] @ extra"
  shows "balanced E ledger t"
proof -
  obtain toks' os ty where "map Some toks = map Some toks'"
    "tOutputs t = map (\<lambda>o'. Some (Some o')) os" "toks' \<noteq> []" "os \<noteq> []"
    "\<forall>x \<in> set toks' \<union> set os. tokType x = ty" "total toks' = total os"
    using VerifyTransfer_ok [OF assms(1,3)] balance_ok by metis
  moreover from this(1) have "toks' = toks"
    by (metis map_injective option.inject inj_onI)
  ultimately show ?thesis using assms(2) unfolding balanced_def by blast
qed

text \<open>The standard validators move the cursor by the number of inputs, and nothing else.\<close>

lemma VerifyTransfer_backend:
  assumes "VerifyTransfer v ins t b = (Inr (), b')" and "standard E v"
  shows "b' = b\<lparr>Cursor := Cursor b + length ins\<rparr>
    \<and> owners_signed (des v) (vSigClock v) b (Cursor b) ins"
proof -
  have "transferValidators v
      = [TransferSignatureValidate, TransferBalanceValidate, TransferHTLCValidate E] @ []"
    using assms(2) by (simp add: standard_def)
  from VerifyTransfer_ok [OF assms(1) this]
  obtain c c' where "owners_signed (des v) (vSigClock v) b (Cursor b) ins"
    and h: "TransferHTLCValidate E (signed_context v b ins t) = (Inr (), c)"
    and "ofor (\<lambda>validator. validator) [] c = (Inr (), c')" and "b' = SignatureProvider c'"
    by metis
  moreover from h have "SignatureProvider c = SignatureProvider (signed_context v b ins t)"
    by (blast dest: TransferHTLCValidate_only_counts only_countsD(3))
  ultimately show ?thesis by (simp add: signed_context_def)
qed

text \<open>The steps of an accepted request.\<close>

lemma VerifyTokenRequestFromRaw_ok:
  assumes "VerifyTokenRequestFromRaw E v getState binding raw = Inr actions"
  obtains get tr msg ia ta b b1 b2 b3 where
    "getState = Some get" "unmarshal_TokenRequest E raw = Inr tr"
    "marshal_TokenRequest E
       \<lparr>Issues = Issues tr, Transfers = Transfers tr, Signatures = [], AuditorSignatures = []\<rparr> = Inr msg"
    "b = NewBackend get (msg @ binding)
       (if the_default [] (Auditor (pp v)) \<noteq> [] then AuditorSignatures tr @ Signatures tr else Signatures tr)"
    "binding \<noteq> []"
    "VerifyAuditorSignature v b = (Inr (), b1)" "VerifyIssues v ia b1 = (Inr (), b2)"
    "VerifyTransfers E v (Backend_GetState b) ta b2 = (Inr (), b3)"
    "UnmarshalIssueTransferActions E tr = Inr (ia, ta)"
    "actions = map FabIssue ia @ map FabTransfer ta"
proof -
  from assms obtain get tr msg where 1: "getState = Some get" "unmarshal_TokenRequest E raw = Inr tr"
    "marshal_TokenRequest E
       \<lparr>Issues = Issues tr, Transfers = Transfers tr, Signatures = [], AuditorSignatures = []\<rparr> = Inr msg"
    and ne: "binding \<noteq> []"
    by (auto simp: VerifyTokenRequestFromRaw_def rbind_eq_Inr split: option.splits if_splits)
  define b where "b = NewBackend get (msg @ binding)
       (if the_default [] (Auditor (pp v)) \<noteq> [] then AuditorSignatures tr @ Signatures tr else Signatures tr)"
  obtain r t where r: "VerifyTokenRequest E v (Some (Backend_GetState b)) binding (Some tr) b = (r, t)"
    by force
  with assms 1 ne have "r = Inr actions"
    unfolding b_def by (auto simp: VerifyTokenRequestFromRaw_def Let_def split: if_splits)
  with r ne obtain b1 b2 b3 ia ta where "VerifyAuditorSignature v b = (Inr (), b1)"
    "VerifyIssues v ia b1 = (Inr (), b2)" "VerifyTransfers E v (Backend_GetState b) ta b2 = (Inr (), b3)"
    "UnmarshalIssueTransferActions E tr = Inr (ia, ta)" "actions = map FabIssue ia @ map FabTransfer ta"
    by (auto simp: VerifyTokenRequest_def obind_eq_Inr)
  with 1 ne b_def that show ?thesis by blast
qed

lemma VerifyTransfers_balanced:
  assumes "VerifyTransfers E v ledger ta b = (Inr (), b')" and "t \<in> set ta"
    and "transferValidators v = [TransferSignatureValidate, TransferBalanceValidate, TransferHTLCValidate E] @ extra"
  shows "balanced E ledger t"
proof -
  obtain u u' where "obind (olift (RetrieveInputsFromTransferAction E t ledger))
      (\<lambda>inputTokens. VerifyTransfer v (map Some inputTokens) t) u = (Inr (), u')"
    using ofor_each [OF assms(1) [unfolded VerifyTransfers_def] assms(2), of "\<lambda>_. True"] by blast
  then show ?thesis
    using VerifyTransfer_balanced [OF _ _ assms(3)] by (auto simp: obind_eq_Inr Retrieve_loads)
qed

text \<open>From a backend to the ones it becomes: only the cursor moves.\<close>

definition advanced :: "Backend \<Rightarrow> Backend \<Rightarrow> bool" where
  "advanced b b' \<longleftrightarrow> (\<exists>n. b' = b\<lparr>Cursor := n\<rparr>)"

lemma advanced_refl [simp]: "advanced b b"
  unfolding advanced_def by (rule exI [of _ "Cursor b"]) simp

lemma advanced_trans: "advanced b b' \<Longrightarrow> advanced b' b'' \<Longrightarrow> advanced b b''"
  by (auto simp: advanced_def)

lemma VerifyTransfers_signed:
  assumes "VerifyTransfers E v ledger ta b' = (Inr (), b'')" and "t \<in> set ta" and "standard E v"
    and "advanced b b'"
  shows "\<exists>c toks. loads E ledger (Inputs t) toks \<and> owners_signed (des v) (vSigClock v) b c (map Some toks)"
proof -
  let ?f = "\<lambda>t. obind (olift (RetrieveInputsFromTransferAction E t ledger))
      (\<lambda>inputTokens. VerifyTransfer v (map Some inputTokens) t)"
  have step: "advanced s u \<and> (\<exists>c toks. loads E ledger (Inputs x) toks
      \<and> owners_signed (des v) (vSigClock v) s c (map Some toks))" if f: "?f x s = (Inr (), u)" for x s u
  proof -
    from f obtain toks where "loads E ledger (Inputs x) toks"
      and "VerifyTransfer v (map Some toks) x s = (Inr (), u)"
      by (auto simp: obind_eq_Inr Retrieve_loads)
    with VerifyTransfer_backend [OF this(2) assms(3)] show ?thesis unfolding advanced_def by blast
  qed
  obtain s u where "advanced b s" and "?f t s = (Inr (), u)"
    using ofor_each [OF assms(1) [unfolded VerifyTransfers_def] assms(2), of "advanced b"]
      step advanced_trans assms(4) by blast
  with step show ?thesis by (fastforce simp: advanced_def)
qed

lemma VerifyIssues_signed:
  assumes "VerifyIssues v ia b' = (Inr (), b'')" and "advanced b b'"
  shows "advanced b b'' \<and> (\<forall>i \<in> set ia. VerifyIssue v i = Inr ()
    \<and> (Issuers (pp v) = [] \<or> Issuer i \<in> set (Issuers (pp v)))
    \<and> (\<exists>c ver. GetIssuerVerifier (des v) (Issuer i) = Inr ver \<and> signed_at (vSigClock v) b c ver))"
proof -
  let ?f = "\<lambda>issue. obind (olift (VerifyIssue v issue)) (\<lambda>_.
       obind (ocheck (Issuers (pp v) = [] \<or> Issuer issue \<in> set (Issuers (pp v))) ''issuer is not in issuers'') (\<lambda>_.
       obind (olift (GetIssuerVerifier (des v) (Issuer issue))) (\<lambda>verifier.
       obind (HasBeenSignedBy (vSigClock v) verifier) (\<lambda>_. oret ()))))"
  have step: "advanced s u \<and> VerifyIssue v x = Inr ()
    \<and> (Issuers (pp v) = [] \<or> Issuer x \<in> set (Issuers (pp v)))
    \<and> (\<exists>c ver. GetIssuerVerifier (des v) (Issuer x) = Inr ver \<and> signed_at (vSigClock v) s c ver)"
    if "?f x s = (Inr (), u)" for x s u
    using that by (fastforce simp: go_simps advanced_def)
  have "advanced b b''"
    by (rule ofor_invariant [where P = "advanced b", OF assms(1) [unfolded VerifyIssues_def] assms(2)])
      (use step advanced_trans in blast)
  moreover have "\<exists>s u. advanced b s \<and> ?f i s = (Inr (), u)" if "i \<in> set ia" for i
    by (rule ofor_each [where P = "advanced b", OF assms(1) [unfolded VerifyIssues_def] that assms(2)])
      (use step advanced_trans in blast)
  ultimately show ?thesis using step by (fastforce simp: advanced_def)
qed


lemma VerifyAuditorSignature_signed:
  assumes "VerifyAuditorSignature v b = (Inr (), b')" and "Cursor b = 0"
  shows "advanced b b' \<and> (\<forall>a. Auditor (pp v) = Some a \<longrightarrow>
    (\<exists>ver. GetAuditorVerifier (des v) a = Inr ver \<and> signed_at (vSigClock v) b 0 ver))"
proof (cases "Auditor (pp v)")
  case None
  with assms show ?thesis by (simp add: VerifyAuditorSignature_def)
next
  case (Some a)
  with assms obtain ver where ver: "GetAuditorVerifier (des v) a = Inr ver"
    by (auto simp: VerifyAuditorSignature_def split: sum.splits error.splits)
  with assms Some have "obind (HasBeenSignedBy (vSigClock v) ver) (\<lambda>_. oret ()) b = (Inr (), b')"
    by (simp add: VerifyAuditorSignature_def)
  then have "signed_at (vSigClock v) b 0 ver" and "b' = b\<lparr>Cursor := 1\<rparr>"
    using assms(2) by (auto simp: obind_eq_Inr HasBeenSignedBy_eq)
  with Some ver show ?thesis by (auto simp: advanced_def)
qed

end
