(* ===== verification/Fab_Properties.thy ===== *)
theory Fab_Properties
  imports Fabtoken
begin

text \<open>
  What the validator of tokens in the clear guarantees, together with the translator that
  writes the actions it accepts: value is conserved, the owners have signed, scripts are
  spent by their rule, all metadata is accounted for; and what it lets pass.
\<close>

section \<open>An environment for the examples\<close>

text \<open>
  The key \<open>k\<close> holds a token of value 5 of the owner \<open>A\<close>; the request \<open>R\<close> has the
  transfer \<open>t\<close>; every signature of a member is valid.
\<close>

definition token5 :: Token where
  "token5 = \<lparr>tokOwner = Some ''sA'', tokType = ''USD'', tokQuantity = Hex (UInt64Quantity 5)\<rparr>"

definition token10 :: Token where
  "token10 = \<lparr>tokOwner = Some ''sA'', tokType = ''USD'', tokQuantity = Hex (UInt64Quantity 10)\<rparr>"

definition example_fab :: "FabTransferAction \<Rightarrow> fab_env" where
  "example_fab t = env.extend example_env
     \<lparr>marshal_Token = (\<lambda>p. if p = Some token10 then Inr ''D'' else Inr ''T''),
      unmarshal_Token = (\<lambda>b. if b = ''D'' then Inr token10 else Inr token5),
      unmarshal_Issue = (\<lambda>b. Inl (Err ''json'')), unmarshal_Transfer = (\<lambda>b. Inr t),
      marshal_TokenRequest = (\<lambda>r. Inr ''msg''),
      unmarshal_TokenRequest = (\<lambda>b. Inr \<lparr>Issues = [], Transfers = [''X''],
         Signatures = [''s1'', ''s2''], AuditorSignatures = []\<rparr>),
      marshal_OutputMetadata = (\<lambda>m. Inr [])\<rparr>"

definition example_validator :: "FabTransferAction \<Rightarrow> Validator" where
  "example_validator t =
     \<lparr>pp = Setup, des = NewDeserializer (example_fab t) (\<lambda>i. Inr (\<lambda>now msg sigma. Inr ())),
      transferValidators =
        [TransferSignatureValidate, TransferBalanceValidate, TransferHTLCValidate (example_fab t)],
      vSigClock = (\<lambda>n. 0), vHtlcClock = (\<lambda>n. 0)\<rparr>"

definition example_ledger :: ledger where
  "example_ledger = (\<lambda>k. if k = ''k'' then ''T'' else [])"

definition plain_transfer :: FabTransferAction where
  "plain_transfer = \<lparr>Inputs = [''k''], tOutputs = [Some (Some token5)], tMetadata = []\<rparr>"

definition pay_from :: "string \<Rightarrow> FabTransferAction" where
  "pay_from k = \<lparr>Inputs = [k], tOutputs = [Some (Some token5)], tMetadata = []\<rparr>"

definition duplicate_transfer :: FabTransferAction where
  "duplicate_transfer = \<lparr>Inputs = [''k'', ''k''], tOutputs = [Some (Some token10)], tMetadata = []\<rparr>"

lemma example_owner:
  "UnmarshallRawOwner (example_fab t) ''sA'' = Inr \<lparr>roType = SerializedIdentityType, roIdentity = ''A''\<rparr>"
  by (simp add: UnmarshallRawOwner_def example_fab_def example_env_def env.extend_def)

lemma example_owner_verifier:
  "GetOwnerVerifier (des (example_validator t)) ''sA'' = Inr (\<lambda>now msg sigma. Inr ())"
  by (simp add: example_validator_def NewDeserializer_def Deserializer_DeserializeVerifier_def
      RawOwnerIdentityDeserializer_DeserializeVerifier_def example_owner)

lemma example_quantity:
  "ToQuantity (Hex (UInt64Quantity q)) 64 = Inr (UInt64Quantity q)"
  using ToQuantity_text [of 64 "UInt64Quantity q"] by simp

lemmas example_tokens = token5_def token10_def

lemma example_sign:
  assumes "Cursor b < length (Sigs b)"
  shows "HasBeenSignedBy clock (\<lambda>now msg sigma. Inr ()) b
    = (Inr (Sigs b ! Cursor b), b\<lparr>Cursor := Cursor b + 1\<rparr>)"
  using assms by (simp add: HasBeenSignedBy_def Let_def)

lemma plain_input:
  assumes "tokOwner tok = Some ''sA''"
  shows "htlc_input (example_fab t) now (i, Some tok) ctx = (Inr (), ctx)"
  using assms
  by (simp add: htlc_input_def token_owner_def deref_def owner_raw_def example_owner obind_def
      SerializedIdentityType_def ScriptType_def)

lemma plain_output:
  assumes "tokOwner tok = Some ''sA''"
  shows "htlc_output (example_fab t) now (Some (Some tok)) ctx = (Inr (), ctx)"
  using assms
  by (simp add: htlc_output_def token_owner_def deref_def owner_raw_def example_owner obind_def
      Output_IsRedeem_def SerializedIdentityType_def ScriptType_def)


lemma example_balance:
  "balance 64 [Some token5] [Some (Some token5)] = Inr ()"
  "balance 64 [Some token5, Some token5] [Some (Some token10)] = Inr ()"
  by (simp_all add: balance_def balance_input_def balance_output_def deref_def example_tokens
      example_quantity NewZeroQuantity_def UInt64Quantity_Add_def UInt64Quantity_Cmp_def Let_def
      del: Hex.simps)

lemma plain_inputs:
  assumes "\<forall>tok \<in> set toks. tokOwner tok = Some ''sA''"
  shows "ofor (htlc_input (example_fab t) now) (enumerate i (map Some toks)) ctx = (Inr (), ctx)"
  using assms by (induction toks arbitrary: i) (simp_all add: obind_def plain_input)

lemma plain_outputs:
  assumes "\<forall>tok \<in> set toks. tokOwner tok = Some ''sA''"
  shows "ofor (htlc_output (example_fab t) now) (map (\<lambda>o'. Some (Some o')) toks) ctx = (Inr (), ctx)"
  using assms by (induction toks) (simp_all add: obind_def plain_output)

lemma example_signatures:
  assumes "\<forall>tok \<in> set toks. tokOwner tok = Some ''sA''"
    and "Deserializer ctx = des (example_validator t)"
    and "Cursor (SignatureProvider ctx) + length toks \<le> length (Sigs (SignatureProvider ctx))"
  shows "\<exists>ctx'. sign_tokens (des (example_validator t)) (map Some toks) ctx = (Inr (), ctx')"
  using assms
proof (induction toks arbitrary: ctx)
  case (Cons tok toks)
  let ?c = "ctx\<lparr>SignatureProvider := (SignatureProvider ctx)\<lparr>Cursor := Cursor (SignatureProvider ctx) + 1\<rparr>,
    ctxSignatures := ctxSignatures ctx @ [Sigs (SignatureProvider ctx) ! Cursor (SignatureProvider ctx)]\<rparr>"
  have "\<exists>ctx'. sign_tokens (des (example_validator t)) (map Some toks) ?c = (Inr (), ctx')"
    using Cons.prems by (intro Cons.IH) auto
  then show ?case
    using Cons.prems
    by (simp add: obind_def token_owner_def deref_def owner_raw_def example_owner_verifier signed_by_def
        example_sign add_signature_def)
qed simp

lemma example_accepts:
  assumes "loads (example_fab t) (\<lambda>k. Inr (L k)) (Inputs t) toks"
    and "\<forall>tok \<in> set toks \<union> set os. tokOwner tok = Some ''sA''" and "length toks \<le> 2"
    and "tOutputs t = map (\<lambda>o'. Some (Some o')) os" and "tMetadata t = []"
    and "balance 64 (map Some toks) (tOutputs t) = Inr ()"
  shows "VerifyTokenRequestFromRaw (example_fab t) (example_validator t) (Some (\<lambda>k. Inr (L k)))
    ''tx'' ''R'' = Inr [FabTransfer t]"
proof -
  let ?v = "example_validator t"
  let ?b = "NewBackend (\<lambda>k. Inr (L k)) (''msg'' @ ''tx'') [''s1'', ''s2'']"
  have "\<exists>c. sign_tokens (des ?v) (map Some toks) (start_context ?v ?b (map Some toks) t) = (Inr (), c)"
    using assms by (intro example_signatures) (auto simp: start_context_def NewBackend_def)
  then obtain c where c: "sign_tokens (des ?v) (map Some toks) (start_context ?v ?b (map Some toks) t) = (Inr (), c)"
    by blast
  from sign_tokens_ok [OF this] have c_eq: "c = signed_context ?v ?b (map Some toks) t"
    by (simp add: Let_def signed_context_def start_context_def)
  have "TransferSignatureValidate (start_context ?v ?b (map Some toks) t) = (Inr (), c)"
    using c by (simp add: TransferSignatureValidate_def start_context_def)
  moreover have "TransferBalanceValidate c = (Inr (), c)"
    using assms(6) unfolding c_eq
    by (simp add: TransferBalanceValidate_def signed_context_def start_context_def example_validator_def
        Setup_def DefaultPrecision_def)
  moreover have "TransferHTLCValidate (example_fab t) c = (Inr (), c)"
    using assms(2,4) plain_inputs [of toks t _ 0] plain_outputs [of os t] unfolding c_eq
    by (simp add: TransferHTLCValidate_def signed_context_def start_context_def obind_def)
  ultimately have "VerifyTransfer ?v (map Some toks) t ?b = (Inr (), SignatureProvider c)"
    using assms(5) unfolding c_eq
    by (simp add: VerifyTransfer_def start_context_def [symmetric] example_validator_def obind_def)
       (simp add: signed_context_def start_context_def)
  moreover have "RetrieveInputsFromTransferAction (example_fab t) t (Backend_GetState ?b) = Inr toks"
  proof -
    have "Backend_GetState ?b = (\<lambda>k. Inr (L k))"
      by (simp add: fun_eq_iff Backend_GetState_def NewBackend_def)
    with assms(1) show ?thesis by (simp add: Retrieve_loads)
  qed
  ultimately show ?thesis
    by (simp add: VerifyTokenRequestFromRaw_def VerifyTokenRequest_def example_fab_def env.extend_def
        VerifyAuditorSignature_def example_validator_def Setup_def the_default_def Let_def obind_def
        UnmarshalIssueTransferActions_def UnmarshalIssueActions_def UnmarshalTransferActions_def
        VerifyIssues_def VerifyTransfers_def)
qed


lemma example_standard [simp]: "standard (example_fab t) (example_validator t)"
  by (simp add: standard_def example_validator_def)

lemma example_loads:
  "loads (example_fab t) (\<lambda>k. Inr (example_ledger k)) [''k''] [token5]"
  "loads (example_fab t) (\<lambda>k. Inr (example_ledger k)) [''k'', ''k''] [token5, token5]"
  by (simp_all add: loads_def example_ledger_def example_fab_def env.extend_def)

lemma plain_accepted:
  "VerifyTokenRequestFromRaw (example_fab plain_transfer) (example_validator plain_transfer)
     (Some (\<lambda>k. Inr (example_ledger k))) ''tx'' ''R'' = Inr [FabTransfer plain_transfer]"
  by (rule example_accepts [where L = example_ledger and toks = "[token5]" and os = "[token5]"])
    (simp_all add: plain_transfer_def example_loads example_balance token5_def [THEN arg_cong, of tokOwner])

lemma pay_accepted:
  assumes "L k \<noteq> []" and "L k \<noteq> ''D''"
  shows "VerifyTokenRequestFromRaw (example_fab (pay_from k)) (example_validator (pay_from k))
     (Some (\<lambda>k. Inr (L k))) ''tx'' ''R'' = Inr [FabTransfer (pay_from k)]"
  by (rule example_accepts [where L = L and toks = "[token5]" and os = "[token5]"])
    (use assms in \<open>simp_all add: pay_from_def example_balance token5_def [THEN arg_cong, of tokOwner]
      loads_def example_fab_def env.extend_def\<close>)

lemma plain_pay: "plain_transfer = pay_from ''k''"
  by (simp add: plain_transfer_def pay_from_def)

lemma duplicate_accepted:
  "VerifyTokenRequestFromRaw (example_fab duplicate_transfer) (example_validator duplicate_transfer)
     (Some (\<lambda>k. Inr (example_ledger k))) ''tx'' ''R'' = Inr [FabTransfer duplicate_transfer]"
  by (rule example_accepts [where L = example_ledger and toks = "[token5, token5]" and os = "[token10]"])
    (simp_all add: duplicate_transfer_def example_loads example_balance token5_def [THEN arg_cong, of tokOwner]
      token10_def [THEN arg_cong, of tokOwner])

section \<open>Lemmas\<close>

subsection \<open>Issuing\<close>

lemma issue_output_eq:
  "issue_output E p issuer ty owners (i, u) = Inr r \<longleftrightarrow>
     (\<exists>q meta. UInt64ToQuantity u p = Inr q \<and> i < length owners
        \<and> marshal_OutputMetadata E \<lparr>omIssuer = issuer\<rparr> = Inr meta
        \<and> r = (Some (Some \<lparr>tokOwner = Some (owners ! i), tokType = ty, tokQuantity = Hex q\<rparr>), meta))"
  by (auto simp: issue_output_def go_simps at_def split: if_splits)

lemma issue_outputs_ok:
  assumes "rmap (issue_output E p issuer ty owners) (enumerate n vals) = Inr outs"
  shows "\<exists>os. map fst outs = map (\<lambda>o'. Some (Some o')) os
    \<and> list_all2 (\<lambda>(i, u) o'. i < length owners \<and> tokOwner o' = Some (owners ! i) \<and> tokType o' = ty
        \<and> qval (tokQuantity o') = uint u) (enumerate n vals) os
    \<and> (verify_outputs p (map fst outs) = Inr () \<longleftrightarrow> 0 \<notin> set vals)"
  using assms
proof (induction vals arbitrary: n outs)
  case Nil
  then show ?case by simp
next
  case (Cons u vals)
  from Cons.prems obtain r outs' where r: "issue_output E p issuer ty owners (n, u) = Inr r"
    and rest: "rmap (issue_output E p issuer ty owners) (enumerate (Suc n) vals) = Inr outs'"
    and outs: "outs = r # outs'" by (auto simp: go_simps)
  from r obtain q meta where q: "UInt64ToQuantity u p = Inr q" and n: "n < length owners"
    and r: "r = (Some (Some \<lparr>tokOwner = Some (owners ! n), tokType = ty, tokQuantity = Hex q\<rparr>), meta)"
    by (auto simp: issue_output_eq)
  obtain os where os: "map fst outs' = map (\<lambda>o'. Some (Some o')) os"
    "list_all2 (\<lambda>(i, u) o'. i < length owners \<and> tokOwner o' = Some (owners ! i) \<and> tokType o' = ty
        \<and> qval (tokQuantity o') = uint u) (enumerate (Suc n) vals) os"
    "verify_outputs p (map fst outs') = Inr () \<longleftrightarrow> 0 \<notin> set vals"
    using Cons.IH [OF rest] by blast
  have z: "uint u = 0 \<longleftrightarrow> u = 0" by (simp add: word_uint_eq_iff)
  let ?t = "\<lparr>tokOwner = Some (owners ! n), tokType = ty, tokQuantity = Hex q\<rparr>"
  have "verify_outputs p (map fst outs) = Inr () \<longleftrightarrow> 0 \<notin> set (u # vals)"
    using os(3) z UInt64ToQuantity_text(1,2) [OF q] outs r by (auto simp: deref_def)
  with os n outs r UInt64ToQuantity_text(3) [OF q] show ?case
    by (intro exI [of _ "?t # os"]) (simp del: Hex.simps)
qed

subsection \<open>Scripts in a transfer\<close>

text \<open>The first input's script decides over the output.\<close>

lemma first_input_checked:
  assumes "TransferHTLCValidate E ctx = (Inr (), ctx')" and "InputTokens ctx = first # rest"
  shows "\<exists>ctx1. htlc_input E (htlcClock ctx (Cursor (SignatureProvider ctx))) (0, first) ctx = (Inr (), ctx1)"
  using assms by (auto simp: TransferHTLCValidate_def Let_def obind_eq_Inr)

subsection \<open>Counting metadata\<close>

text \<open>
  A counted key is justified: it is the lock key of a script that owns an output and was
  validated, or the claim key of the image of a published pre-image.
\<close>

definition justified :: "fab_env \<Rightarrow> FabTransferAction \<Rightarrow> string \<Rightarrow> bytes \<Rightarrow> bool" where
  "justified E t k x \<longleftrightarrow>
     (\<exists>out raw ro script now. Some (Some out) \<in> set (tOutputs t) \<and> tokOwner out = Some raw
        \<and> UnmarshallRawOwner E raw = Inr ro \<and> roType ro = ScriptType
        \<and> unmarshal_Script E (roIdentity ro) = Inr script \<and> Script_Validate E script now = Inr ()
        \<and> k = LockKey (Hash (hashInfo script)) \<and> x = LockValue (Hash (hashInfo script)))
     \<or> (\<exists>(script :: Script) img. k = ClaimKey img \<and> HashInfo_Image E (hashInfo script) x = Inr img)"

definition counts_ok :: "fab_env \<Rightarrow> FabTransferAction \<Rightarrow> Context \<Rightarrow> bool" where
  "counts_ok E t c \<longleftrightarrow> Action c = t \<and> distinct (map fst (MetadataCounter c))
     \<and> (\<forall>(k, n) \<in> set (MetadataCounter c). 1 \<le> n \<and> (\<exists>x. map_of (tMetadata t) k = Some x \<and> justified E t k x))"

lemma CountMetadataKey_counts_ok:
  assumes "CountMetadataKey key c = (Inr (), c')" and "counts_ok E t c"
    and "map_of (tMetadata t) key = Some x" and "justified E t key x"
  shows "counts_ok E t c'"
proof -
  let ?K = "MetadataCounter c"
  let ?n = "the_default 0 (map_of ?K key) + 1"
  have c': "c' = c\<lparr>MetadataCounter := AList.update key ?n ?K\<rparr>"
    using assms(1) by (simp add: go_simps)
  have d: "distinct (map fst (AList.update key ?n ?K))"
    using assms(2) by (simp add: counts_ok_def distinct_update)
  have "1 \<le> n \<and> (\<exists>x. map_of (tMetadata t) k = Some x \<and> justified E t k x)"
    if "(k, n) \<in> set (AList.update key ?n ?K)" for k n
  proof -
    from that d have "map_of (AList.update key ?n ?K) k = Some n" by (rule map_of_is_SomeI [rotated])
    then have m: "((map_of ?K)(key \<mapsto> ?n)) k = Some n" unfolding update_conv' .
    show ?thesis
    proof (cases "k = key")
      case True
      with m have "1 \<le> n" by simp
      with True assms(3,4) show ?thesis by blast
    next
      case False
      with m have "(k, n) \<in> set ?K" by (simp add: map_of_SomeD)
      with assms(2) show ?thesis unfolding counts_ok_def by blast
    qed
  qed
  with c' d assms(2) show ?thesis by (auto simp: counts_ok_def)
qed

lemma ClaimKeyCheck_ok:
  assumes "MetadataClaimKeyCheck E md script op sigma = Inr key" and "op \<noteq> Reclaim"
  shows "\<exists>claim img. unmarshal_Claim E sigma = Inr claim
    \<and> HashInfo_Image E (hashInfo script) (Preimage claim) = Inr img \<and> key = ClaimKey img
    \<and> map_of md (ClaimKey img) = Some (Preimage claim)"
  using assms
  by (auto simp: MetadataClaimKeyCheck_def rbind_eq_Inr split: if_splits option.splits)

lemma sum_ones: "\<forall>x \<in> set K. snd x = (1::nat) \<Longrightarrow> sum_list (map snd K) = length K"
  by (induction K) auto

lemma LockKeyCheck_ok:
  assumes "MetadataLockKeyCheck md script = Inr key"
  shows "key = LockKey (Hash (hashInfo script)) \<and> map_of md key = Some (LockValue (Hash (hashInfo script)))"
  using assms by (auto simp: MetadataLockKeyCheck_def split: if_splits option.splits)

lemma htlc_input_counts_ok:
  assumes "htlc_input E now x ctx = (Inr (), ctx')" and "counts_ok E t ctx"
  shows "counts_ok E t ctx'"
proof -
  obtain i inp where x: "x = (i, inp)" by force
  from assms(1) [unfolded x] show ?thesis
  proof (cases rule: htlc_input_cases)
    case plain
    with assms(2) show ?thesis by simp
  next
    case (script raw ro in0 tok inOwner outOwner script op sigma key)
    show ?thesis
    proof (cases "op = Reclaim")
      case True
      with script assms(2) show ?thesis by simp
    next
      case False
      have "Action ctx = t" using assms(2) by (simp add: counts_ok_def)
      from ClaimKeyCheck_ok [OF script(16) False] obtain claim :: ClaimSignature and img where
        "HashInfo_Image E (hashInfo script) (Preimage claim) = Inr img" "key = ClaimKey img"
        "map_of (tMetadata (Action ctx)) key = Some (Preimage claim)" by auto
      then have "justified E t key (Preimage claim)" and "map_of (tMetadata t) key = Some (Preimage claim)"
        using \<open>Action ctx = t\<close> unfolding justified_def by blast+
      with CountMetadataKey_counts_ok [OF _ assms(2)] script(17) False show ?thesis by simp
    qed
  qed
qed

lemma htlc_output_counts_ok:
  assumes "htlc_output E now o' ctx = (Inr (), ctx')" and "counts_ok E t ctx" and "o' \<in> set (tOutputs t)"
  shows "counts_ok E t ctx'"
  using assms(1)
proof (cases rule: htlc_output_cases)
  case skip
  with assms(2) show ?thesis by simp
next
  case (script tok raw ro script key)
  have "Action ctx = t" using assms(2) by (simp add: counts_ok_def)
  have k: "key = LockKey (Hash (hashInfo script))" "map_of (tMetadata t) key = Some (LockValue (Hash (hashInfo script)))"
    using LockKeyCheck_ok [OF script(8)] unfolding \<open>Action ctx = t\<close> by blast+
  have "justified E t key (LockValue (Hash (hashInfo script)))"
    unfolding justified_def using script assms(3) k(1) by blast
  with CountMetadataKey_counts_ok [OF script(9) assms(2) k(2)] show ?thesis by blast
qed

lemma TransferHTLCValidate_counts_ok:
  assumes "TransferHTLCValidate E ctx = (Inr (), ctx')" and "counts_ok E t ctx"
  shows "counts_ok E t ctx'"
proof -
  let ?now = "htlcClock ctx (Cursor (SignatureProvider ctx))"
  have t: "Action ctx = t" using assms(2) by (simp add: counts_ok_def)
  from assms(1) t obtain c where i: "ofor (htlc_input E ?now) (enumerate 0 (InputTokens ctx)) ctx = (Inr (), c)"
    and o': "ofor (htlc_output E ?now) (tOutputs t) c = (Inr (), ctx')"
    by (auto simp: TransferHTLCValidate_def Let_def obind_eq_Inr)
  have "counts_ok E t c"
    by (rule ofor_invariant [where P = "counts_ok E t", OF i assms(2)]) (rule htlc_input_counts_ok)
  then show ?thesis
    by (rule ofor_invariant [where P = "counts_ok E t", OF o']) (rule htlc_output_counts_ok)
qed

section \<open>Properties\<close>

text \<open>
  C1: conservation of value: in a request that the validator accepts, every transfer spends
  at least one and creates at least one token, the tokens under its input keys and its
  outputs are all of one type, and their quantities, as integers, have the same sum.
  This holds whatever further validators are configured.
\<close>
theorem accepted_request_conserves_value:
  assumes "VerifyTokenRequestFromRaw E v (Some get) binding raw = Inr actions"
    and "NewValidator E clock1 clock2 (Some params) (Some d) extra = Inr v"
    and "FabTransfer t \<in> set actions"
  shows "\<exists>toks os ty. loads E get (Inputs t) toks \<and> tOutputs t = map (\<lambda>o'. Some (Some o')) os
    \<and> toks \<noteq> [] \<and> os \<noteq> [] \<and> (\<forall>x \<in> set toks \<union> set os. tokType x = ty)
    \<and> sum_list (map (\<lambda>x. qval (tokQuantity x)) toks) = sum_list (map (\<lambda>x. qval (tokQuantity x)) os)"
proof -
  have v: "transferValidators v
      = [TransferSignatureValidate, TransferBalanceValidate, TransferHTLCValidate E] @ extra"
    using assms(2) by (auto simp: NewValidator_def)
  show ?thesis
  proof (rule VerifyTokenRequestFromRaw_ok [OF assms(1)])
    fix get' tr msg ia ta b b1 b2 b3
    assume g: "Some get = Some get'" and b: "b = NewBackend get' (msg @ binding)
       (if the_default [] (Auditor (pp v)) \<noteq> [] then AuditorSignatures tr @ Signatures tr else Signatures tr)"
      and ok: "VerifyTransfers E v (Backend_GetState b) ta b2 = (Inr (), b3)"
      and acts: "actions = map FabIssue ia @ map FabTransfer ta"
    have "Backend_GetState b = get" using g by (simp add: b fun_eq_iff Backend_GetState_def NewBackend_def)
    moreover have "t \<in> set ta" using acts assms(3) by auto
    ultimately have "balanced E get t" using VerifyTransfers_balanced [OF ok _ v] by simp
    then show ?thesis unfolding balanced_def total_def by blast
  qed
qed

lemma accepted_request_conserves_value_witness:
  "\<exists>toks os. loads (example_fab plain_transfer) (\<lambda>k. Inr (example_ledger k)) [''k''] toks
    \<and> [Some (Some token5)] = map (\<lambda>o'. Some (Some o')) os
    \<and> sum_list (map (\<lambda>x. qval (tokQuantity x)) toks) = sum_list (map (\<lambda>x. qval (tokQuantity x)) os)"
proof -
  have "NewValidator (example_fab plain_transfer) (\<lambda>n. 0) (\<lambda>n. 0) (Some Setup)
      (Some (des (example_validator plain_transfer))) [] = Inr (example_validator plain_transfer)"
    by (simp add: NewValidator_def example_validator_def)
  from accepted_request_conserves_value [OF plain_accepted this, of plain_transfer]
  have "\<exists>toks os. loads (example_fab plain_transfer) (\<lambda>k. Inr (example_ledger k)) (Inputs plain_transfer) toks
    \<and> tOutputs plain_transfer = map (\<lambda>o'. Some (Some o')) os
    \<and> sum_list (map (\<lambda>x. qval (tokQuantity x)) toks) = sum_list (map (\<lambda>x. qval (tokQuantity x)) os)"
    by simp blast
  moreover have "Inputs plain_transfer = [''k'']" "tOutputs plain_transfer = [Some (Some token5)]"
    by (simp_all add: plain_transfer_def)
  ultimately show ?thesis by simp
qed

text \<open>
  The signatures are consumed in order. A loop over a backend whose step moves the cursor by
  \<open>g x\<close> runs the step for the k-th element at the cursor moved by the elements before it.
\<close>

lemma loop_cursor:
  assumes "ofor f xs s = (Inr (), t)"
    and "\<And>x s u. x \<in> set xs \<Longrightarrow> f x s = (Inr (), u) \<Longrightarrow> u = s\<lparr>Cursor := Cursor s + g x\<rparr>"
  shows "t = s\<lparr>Cursor := Cursor s + sum_list (map g xs)\<rparr>
    \<and> (\<forall>k < length xs. \<exists>u. f (xs ! k) (s\<lparr>Cursor := Cursor s + sum_list (map g (take k xs))\<rparr>) = (Inr (), u))"
  using assms
proof (induction xs arbitrary: s)
  case (Cons x xs)
  from Cons.prems(1) obtain u where u: "f x s = (Inr (), u)" and r: "ofor f xs u = (Inr (), t)"
    by (auto simp: go_simps)
  have eq: "u = s\<lparr>Cursor := Cursor s + g x\<rparr>" using Cons.prems(2) [OF _ u] by simp
  have IH: "t = u\<lparr>Cursor := Cursor u + sum_list (map g xs)\<rparr>
    \<and> (\<forall>k < length xs. \<exists>v. f (xs ! k) (u\<lparr>Cursor := Cursor u + sum_list (map g (take k xs))\<rparr>) = (Inr (), v))"
    by (rule Cons.IH [OF r]) (rule Cons.prems(2); simp)
  with u show ?case by (auto simp: eq less_Suc_eq_0_disj add.assoc)
qed simp

lemma VerifyAuditorSignature_cursor:
  assumes "VerifyAuditorSignature v b = (Inr (), b')" and "Cursor b = 0"
  shows "b' = b\<lparr>Cursor := (if Auditor (pp v) = None then 0 else 1)\<rparr>"
proof (cases "Auditor (pp v)")
  case None
  with assms show ?thesis by (simp add: VerifyAuditorSignature_def)
next
  case (Some a)
  with assms obtain ver where "GetAuditorVerifier (des v) a = Inr ver"
    by (auto simp: VerifyAuditorSignature_def split: sum.splits error.splits)
  with assms Some have "obind (HasBeenSignedBy (vSigClock v) ver) (\<lambda>_. oret ()) b = (Inr (), b')"
    by (simp add: VerifyAuditorSignature_def)
  then show ?thesis using assms(2) Some by (auto simp: go_simps)
qed

lemma VerifyIssues_cursor:
  assumes "VerifyIssues v ia b = (Inr (), b')"
  shows "b' = b\<lparr>Cursor := Cursor b + length ia\<rparr> \<and> (\<forall>i < length ia. VerifyIssue v (ia ! i) = Inr ()
    \<and> (Issuers (pp v) = [] \<or> Issuer (ia ! i) \<in> set (Issuers (pp v)))
    \<and> (\<exists>ver. GetIssuerVerifier (des v) (Issuer (ia ! i)) = Inr ver
        \<and> signed_at (vSigClock v) b (Cursor b + i) ver))"
proof -
  from assms have "b' = b\<lparr>Cursor := Cursor b + sum_list (map (\<lambda>_. 1) ia)\<rparr>
    \<and> (\<forall>i < length ia. \<exists>u. obind (olift (VerifyIssue v (ia ! i))) (\<lambda>_.
       obind (ocheck (Issuers (pp v) = [] \<or> Issuer (ia ! i) \<in> set (Issuers (pp v))) ''issuer is not in issuers'') (\<lambda>_.
       obind (olift (GetIssuerVerifier (des v) (Issuer (ia ! i)))) (\<lambda>verifier.
       obind (HasBeenSignedBy (vSigClock v) verifier) (\<lambda>_. oret ()))))
         (b\<lparr>Cursor := Cursor b + sum_list (map (\<lambda>_. 1) (take i ia))\<rparr>) = (Inr (), u))"
    unfolding VerifyIssues_def by (rule loop_cursor) (auto simp: go_simps)
  then show ?thesis by (fastforce simp: go_simps sum_list_triv min_def)
qed

lemma VerifyTransfers_cursor:
  assumes "VerifyTransfers E v ledger ta b = (Inr (), b')" and "standard E v"
  shows "\<forall>k < length ta. \<exists>toks. loads E ledger (Inputs (ta ! k)) toks
    \<and> owners_signed (des v) (vSigClock v) b
        (Cursor b + sum_list (map (\<lambda>t. length (Inputs t)) (take k ta))) (map Some toks)"
proof -
  let ?f = "\<lambda>t. obind (olift (RetrieveInputsFromTransferAction E t ledger))
      (\<lambda>inputTokens. VerifyTransfer v (map Some inputTokens) t)"
  have step: "\<exists>toks. loads E ledger (Inputs x) toks \<and> u = s\<lparr>Cursor := Cursor s + length (Inputs x)\<rparr>
      \<and> owners_signed (des v) (vSigClock v) s (Cursor s) (map Some toks)" if f: "?f x s = (Inr (), u)" for x s u
  proof -
    from f obtain toks where l: "loads E ledger (Inputs x) toks"
      and "VerifyTransfer v (map Some toks) x s = (Inr (), u)"
      by (auto simp: obind_eq_Inr Retrieve_loads)
    moreover have "length toks = length (Inputs x)" using l by (auto simp: loads_def dest: list_all2_lengthD)
    ultimately show ?thesis using VerifyTransfer_backend [OF _ assms(2)] by fastforce
  qed
  have "\<forall>k < length ta. \<exists>u. ?f (ta ! k)
      (b\<lparr>Cursor := Cursor b + sum_list (map (\<lambda>t. length (Inputs t)) (take k ta))\<rparr>) = (Inr (), u)"
    by (rule conjunct2, rule loop_cursor [OF assms(1) [unfolded VerifyTransfers_def]]) (use step in blast)
  then show ?thesis by (fastforce dest!: step)
qed

text \<open>
  C2: authorization: in a request that the standard validator accepts, the signatures are taken
  in order from one list, the signatures of the auditor followed by the others when the parameters
  name an auditor, and the others alone when they do not. The first is a valid signature of the
  auditor, if there is one; the next ones, one for each issue, are valid signatures of the issuers,
  who are listed when issuers are listed; the next ones, one for each input of the first transfer,
  then of the second and so on, are valid signatures of the owners of the tokens that the ledger
  has under these inputs. All signatures are on the issues and transfers of the request and the
  binding, and the issues are well-formed.
\<close>
theorem accepted_request_authorized:
  assumes "VerifyTokenRequestFromRaw E v (Some get) binding raw = Inr actions" and "standard E v"
  shows "\<exists>tr msg ia ta b n. unmarshal_TokenRequest E raw = Inr tr
    \<and> marshal_TokenRequest E \<lparr>Issues = Issues tr, Transfers = Transfers tr, Signatures = [],
        AuditorSignatures = []\<rparr> = Inr msg
    \<and> UnmarshalIssueTransferActions E tr = Inr (ia, ta)
    \<and> actions = map FabIssue ia @ map FabTransfer ta
    \<and> Message b = msg @ binding
    \<and> Sigs b = (if Auditor (pp v) = None \<or> Auditor (pp v) = Some [] then Signatures tr
               else AuditorSignatures tr @ Signatures tr)
    \<and> n = (if Auditor (pp v) = None then 0 else 1)
    \<and> (\<forall>a. Auditor (pp v) = Some a \<longrightarrow>
        (\<exists>ver. GetAuditorVerifier (des v) a = Inr ver \<and> signed_at (vSigClock v) b 0 ver))
    \<and> (\<forall>i < length ia. VerifyIssue v (ia ! i) = Inr ()
        \<and> (Issuers (pp v) = [] \<or> Issuer (ia ! i) \<in> set (Issuers (pp v)))
        \<and> (\<exists>ver. GetIssuerVerifier (des v) (Issuer (ia ! i)) = Inr ver \<and> signed_at (vSigClock v) b (n + i) ver))
    \<and> (\<forall>k < length ta. \<exists>toks. loads E get (Inputs (ta ! k)) toks
        \<and> owners_signed (des v) (vSigClock v) b
            (n + length ia + sum_list (map (\<lambda>t. length (Inputs t)) (take k ta))) (map Some toks))"
proof -
  show ?thesis
  proof (rule VerifyTokenRequestFromRaw_ok [OF assms(1)])
    fix get' tr msg ia ta b b1 b2 b3
    assume g: "Some get = Some get'" and tr: "unmarshal_TokenRequest E raw = Inr tr"
      "marshal_TokenRequest E
         \<lparr>Issues = Issues tr, Transfers = Transfers tr, Signatures = [], AuditorSignatures = []\<rparr> = Inr msg"
      and b: "b = NewBackend get' (msg @ binding)
         (if the_default [] (Auditor (pp v)) \<noteq> [] then AuditorSignatures tr @ Signatures tr else Signatures tr)"
      and aud: "VerifyAuditorSignature v b = (Inr (), b1)" and iss: "VerifyIssues v ia b1 = (Inr (), b2)"
      and trs: "VerifyTransfers E v (Backend_GetState b) ta b2 = (Inr (), b3)"
      and un: "UnmarshalIssueTransferActions E tr = Inr (ia, ta)"
      and acts: "actions = map FabIssue ia @ map FabTransfer ta"
    let ?n = "if Auditor (pp v) = None then 0 else 1"
    have get: "Backend_GetState b = get" and c0: "Cursor b = 0" and m: "Message b = msg @ binding"
      and s: "Sigs b = (if Auditor (pp v) = None \<or> Auditor (pp v) = Some [] then Signatures tr
               else AuditorSignatures tr @ Signatures tr)"
      using g by (auto simp: b fun_eq_iff Backend_GetState_def NewBackend_def the_default_def split: option.splits)
    have b1: "b1 = b\<lparr>Cursor := ?n\<rparr>" by (rule VerifyAuditorSignature_cursor [OF aud c0])
    note a = conjunct2 [OF VerifyAuditorSignature_signed [OF aud c0]]
    note i = VerifyIssues_cursor [OF iss, unfolded b1]
    have b2: "b2 = b\<lparr>Cursor := ?n + length ia\<rparr>" using i by simp
    note t = VerifyTransfers_cursor [OF trs assms(2), unfolded get b2]
    show ?thesis
      by (rule exI [of _ tr], rule exI [of _ msg], rule exI [of _ ia], rule exI [of _ ta], rule exI [of _ b],
          rule exI [of _ ?n]) (use tr un acts m s a i t in simp)
  qed
qed

lemma accepted_request_authorized_witness:
  "\<exists>toks. loads (example_fab plain_transfer) (\<lambda>k. Inr (example_ledger k)) [''k''] toks
    \<and> owners_signed (des (example_validator plain_transfer)) (\<lambda>n. 0)
        \<lparr>Ledger = (\<lambda>k. Inr (example_ledger k)), Message = ''msgtx'', Cursor = 0, Sigs = [''s1'', ''s2'']\<rparr>
        0 (map Some toks)"
proof -
  let ?E = "example_fab plain_transfer" and ?v = "example_validator plain_transfer"
  from accepted_request_authorized [OF plain_accepted example_standard]
  obtain tr msg ia ta b n where 1: "unmarshal_TokenRequest ?E ''R'' = Inr tr"
    "marshal_TokenRequest ?E \<lparr>Issues = Issues tr, Transfers = Transfers tr, Signatures = [],
        AuditorSignatures = []\<rparr> = Inr msg"
    "[FabTransfer plain_transfer] = map FabIssue ia @ map FabTransfer ta" "Message b = msg @ ''tx''"
    "Sigs b = (if Auditor (pp ?v) = None \<or> Auditor (pp ?v) = Some [] then Signatures tr
               else AuditorSignatures tr @ Signatures tr)" "n = (if Auditor (pp ?v) = None then 0 else 1)"
    and t: "\<forall>k < length ta. \<exists>toks. loads ?E (\<lambda>k. Inr (example_ledger k)) (Inputs (ta ! k)) toks
        \<and> owners_signed (des ?v) (vSigClock ?v) b
            (n + length ia + sum_list (map (\<lambda>t. length (Inputs t)) (take k ta))) (map Some toks)"
    by blast
  have "ia = []" "ta = [plain_transfer]" using 1(3) by (auto simp: append_eq_Cons_conv map_eq_Cons_conv Cons_eq_append_conv)
  moreover have "n = 0" "Sigs b = [''s1'', ''s2'']" "Message b = ''msgtx''"
    using 1(1,2,4,5,6) by (auto simp: example_validator_def Setup_def example_fab_def env.extend_def)
  ultimately show ?thesis
    using t by (auto simp: plain_transfer_def example_validator_def owners_signed_def signed_at_def)
qed

text \<open>
  C39: nothing asks that the inputs of a transfer be different keys: a transfer that lists a
  token of 5 twice, with an output of 10, signed twice by the owner, is accepted, and written
  by the translator even on a store that reads its own writes; the token of 5 is gone and one
  of 10 is there.
\<close>
theorem duplicate_input_inflates:
  "\<exists>k' st. CreateTokenKey ''tx'' 0 = Inr k'
    \<and> VerifyTokenRequestFromRaw (example_fab duplicate_transfer) (example_validator duplicate_transfer)
        (Some (\<lambda>k. Inr (example_ledger k))) ''tx'' ''R'' = Inr [FabTransfer duplicate_transfer]
    \<and> Write (vault_translator ''tx'') (to_action (example_fab duplicate_transfer) (FabTransfer duplicate_transfer))
        \<lparr>counter = 0, store = \<lambda>_. example_ledger\<rparr> = (Inr (), st)
    \<and> unmarshal_Token (example_fab duplicate_transfer) (example_ledger ''k'') = Inr token5
    \<and> store st ''ns'' ''k'' = []
    \<and> unmarshal_Token (example_fab duplicate_transfer) (store st ''ns'' k') = Inr token10
    \<and> qval (tokQuantity token5) = 5 \<and> qval (tokQuantity token10) = 10"
proof -
  have "valid_attribute ''tx''" by (simp add: valid_attribute_ascii)
  then obtain k' where k': "CreateTokenKey ''tx'' 0 = Inr k'" using CreateTokenKey_total by blast
  have ne: "k' \<noteq> ''k''" using k' composite_key_zero by (fastforce simp: CreateTokenKey_def)
  have q: "qval (tokQuantity token5) = 5" "qval (tokQuantity token10) = 10"
    by (simp_all add: example_tokens del: Hex.simps)
  have u: "unmarshal_Token (example_fab duplicate_transfer) (example_ledger ''k'') = Inr token5"
    "unmarshal_Token (example_fab duplicate_transfer) ''D'' = Inr token10"
    by (simp_all add: example_fab_def env.extend_def example_ledger_def)
  let ?st = "\<lparr>counter = 1, store = (\<lambda>_. example_ledger)(''ns'' := example_ledger(k' := ''D'', ''k'' := []))\<rparr>"
  have "Write (vault_translator ''tx'') (to_action (example_fab duplicate_transfer) (FabTransfer duplicate_transfer))
        \<lparr>counter = 0, store = \<lambda>_. example_ledger\<rparr> = (Inr (), ?st)"
    using k' ne
    by (simp add: Write_def checkProcess_def commitProcess_def checkAction_def commitAction_def
        checkTransfer_def commitTransferAction_def checkTokenDoesNotExist_def spendTokens_def
        store_metadata_def add_counter_def obind_def on_store_def output_index_def ocheck_def
        vault_translator_def map_rws_def to_action_def duplicate_transfer_def
        TransferAction_NumOutputs_def TransferAction_IsRedeemAt_def TransferAction_SerializeOutputAt_def
        TransferAction_GetInputs_def TransferAction_IsGraphHiding_def Output_IsRedeem_def
        Output_Serialize_def deref_def owner_raw_def token10_def example_fab_def env.extend_def
        example_ledger_def fun_eq_iff)
  then show ?thesis
    using k' ne duplicate_accepted q u by (intro exI [of _ k'] exI [of _ ?st]) simp
qed


text \<open>
  Issuing: the action that the driver creates for a list of values has one output per
  value, of the given type, owned by the recipient of that position, whose quantity is the
  value; and the validator's check of the action passes exactly when there is a value and
  none of them is zero.
\<close>
theorem issue_verifies:
  assumes "Issue E precision issuer ty vals owners = Inr (a, metas, iss)"
    and "QuantityPrecision (pp v) = precision"
  shows "iss = issuer \<and> Issuer a = issuer \<and> [] \<notin> set owners
    \<and> (\<exists>os. iOutputs a = map (\<lambda>o'. Some (Some o')) os \<and> length os = length vals
        \<and> (\<forall>i < length vals. i < length owners \<and> tokOwner (os ! i) = Some (owners ! i)
            \<and> tokType (os ! i) = ty \<and> qval (tokQuantity (os ! i)) = uint (vals ! i)))
    \<and> (VerifyIssue v a = Inr () \<longleftrightarrow> vals \<noteq> [] \<and> 0 \<notin> set vals)"
proof -
  from assms(1) obtain outs where o1: "rmap (issue_output E precision issuer ty owners) (enumerate 0 vals) = Inr outs"
    and a: "a = \<lparr>Issuer = issuer, iOutputs = map fst outs, iMetadata = []\<rparr>" "iss = issuer" "[] \<notin> set owners"
    by (auto simp: Issue_def go_simps split: if_splits)
  from issue_outputs_ok [OF o1] obtain os where os: "map fst outs = map (\<lambda>o'. Some (Some o')) os"
    and l: "list_all2 (\<lambda>(i, u) o'. i < length owners \<and> tokOwner o' = Some (owners ! i) \<and> tokType o' = ty
        \<and> qval (tokQuantity o') = uint u) (enumerate 0 vals) os"
    and vo: "verify_outputs precision (map fst outs) = Inr () \<longleftrightarrow> 0 \<notin> set vals"
    by blast
  have len: "length outs = length vals" using rmap_length [OF o1] by simp
  have "VerifyIssue v a = Inr () \<longleftrightarrow> vals \<noteq> [] \<and> 0 \<notin> set vals"
    using vo len a assms(2) by (cases vals) (auto simp: VerifyIssue_def IssueAction_NumOutputs_def)
  moreover have "length os = length vals" using list_all2_lengthD [OF l] by simp
  moreover have "\<forall>i < length vals. i < length owners \<and> tokOwner (os ! i) = Some (owners ! i)
            \<and> tokType (os ! i) = ty \<and> qval (tokQuantity (os ! i)) = uint (vals ! i)"
    using l by (auto simp: list_all2_conv_all_nth nth_enumerate_eq)
  ultimately show ?thesis using a os by auto
qed

lemma issue_verifies_witness:
  "\<exists>a. Issue (example_fab plain_transfer) 64 ''I'' ''USD'' [5] [''sA''] = Inr (a, [[]], ''I'')
    \<and> VerifyIssue (example_validator plain_transfer) a = Inr ()"
proof -
  have "UInt64ToQuantity 5 64 = Inr (UInt64Quantity 5)"
    using uint_not_exceeds_64 [of 5] by (simp add: UInt64ToQuantity_def new_quantity_def)
  then obtain a where a: "Issue (example_fab plain_transfer) 64 ''I'' ''USD'' [5] [''sA''] = Inr (a, [[]], ''I'')"
    by (simp add: Issue_def issue_output_def at_def example_fab_def env.extend_def del: Hex.simps)
  with issue_verifies [OF a, of "example_validator plain_transfer"] show ?thesis
    by (simp add: example_validator_def Setup_def DefaultPrecision_def)
qed

text \<open>
  The bound on token values: for a precision below 64 it is two to the precision, minus
  one, and from 64 on it is the maximum of a word, the shift having lost its bit; the default
  parameters satisfy their own check.
\<close>
theorem max_token_value_bound:
  "uint (ComputeMaxTokenValue params)
      = (if unat (QuantityPrecision params) < 64 then 2 ^ unat (QuantityPrecision params) - 1 else 2 ^ 64 - 1)
    \<and> (PublicParams_Validate params = Inr () \<longleftrightarrow> MaxToken params \<le> ComputeMaxTokenValue params)
    \<and> PublicParams_Validate Setup = Inr ()"
proof (intro conjI)
  let ?n = "unat (QuantityPrecision params)"
  have bit: "uint (push_bit ?n (1 :: u64)) = (if ?n < 64 then 2 ^ ?n else 0)"
    by (subst unsigned_push_bit_eq) (simp add: push_bit_eq_mult take_bit_of_exp)
  show "uint (ComputeMaxTokenValue params) = (if ?n < 64 then 2 ^ ?n - 1 else 2 ^ 64 - 1)"
  proof (cases "?n < 64")
    case True
    with bit have "1 \<le> push_bit ?n (1 :: u64)" by (simp add: word_le_def)
    then have "uint (push_bit ?n (1 :: u64) - 1) = uint (push_bit ?n (1 :: u64)) - uint (1 :: u64)"
      using uint_minus_simple_alt by blast
    with True bit show ?thesis by (simp add: ComputeMaxTokenValue_def)
  next
    case False
    with bit have "uint (push_bit ?n (1 :: u64)) = uint (0 :: u64)" by simp
    then have "push_bit ?n (1 :: u64) = 0" by (rule word_uint_eq_iff [THEN iffD2])
    then have "ComputeMaxTokenValue params = - 1" by (simp only: ComputeMaxTokenValue_def) simp
    with False show ?thesis by (simp add: unsigned_minus_1_eq_mask mask_eq_exp_minus_1)
  qed
  show "PublicParams_Validate params = Inr () \<longleftrightarrow> MaxToken params \<le> ComputeMaxTokenValue params"
    by (auto simp: PublicParams_Validate_def not_less)
  have "push_bit 64 (1 :: u64) = 0" by simp
  then show "PublicParams_Validate Setup = Inr ()"
    by (simp add: PublicParams_Validate_def Setup_def ComputeMaxTokenValue_def DefaultPrecision_def)
qed


text \<open>
  All metadata of an accepted transfer is accounted for: every entry is the hash of a
  script that owns an output and was validated (under its lock key), or a pre-image under
  the claim key of its image. A transfer that involves no script has no metadata.
\<close>
theorem transfer_metadata_accounted:
  assumes "VerifyTransfer v ins t b = (Inr (), b')" and "standard E v"
    and "distinct (map fst (tMetadata t))"
  shows "\<forall>(k, x) \<in> set (tMetadata t). justified E t k x"
proof -
  have "transferValidators v
      = [TransferSignatureValidate, TransferBalanceValidate, TransferHTLCValidate E] @ []"
    using assms(2) by (simp add: standard_def)
  from VerifyTransfer_ok [OF assms(1) this] obtain c where
    h: "TransferHTLCValidate E (signed_context v b ins t) = (Inr (), c)"
    and le: "\<forall>(k, n) \<in> set (MetadataCounter c). n \<le> 1"
    and len: "length (tMetadata t) = sum_list (map snd (MetadataCounter c))"
    by (metis (no_types, lifting) ofor.simps(1) oret_apply prod.inject)
  have "counts_ok E t (signed_context v b ins t)"
    by (simp add: counts_ok_def signed_context_def start_context_def)
  note ok = TransferHTLCValidate_counts_ok [OF h this]
  let ?K = "MetadataCounter c"
  have "\<forall>x \<in> set ?K. snd x = 1" using le ok by (fastforce simp: counts_ok_def)
  then have "sum_list (map snd ?K) = length ?K" by (rule sum_ones)
  with len have "card (fst ` set (tMetadata t)) = card (fst ` set ?K)"
    using distinct_card [OF assms(3)] distinct_card [of "map fst ?K"] ok sum_ones
    by (simp add: counts_ok_def \<open>sum_list (map snd ?K) = length ?K\<close>)
  moreover have "fst ` set ?K \<subseteq> fst ` set (tMetadata t)"
  proof clarify
    fix k n assume "(k, n) \<in> set ?K"
    with ok obtain x where "map_of (tMetadata t) k = Some x" unfolding counts_ok_def by blast
    then have "(k, x) \<in> set (tMetadata t)" by (rule map_of_SomeD)
    then show "fst (k, n) \<in> fst ` set (tMetadata t)" by force
  qed
  ultimately have eq: "fst ` set ?K = fst ` set (tMetadata t)"
    by (simp add: card_subset_eq)
  show ?thesis
  proof clarify
    fix k x assume kx: "(k, x) \<in> set (tMetadata t)"
    with eq have "k \<in> fst ` set ?K" by force
    then obtain y where "map_of (tMetadata t) k = Some y" "justified E t k y"
      using ok by (force simp: counts_ok_def)
    moreover have "map_of (tMetadata t) k = Some x" using kx assms(3) by simp
    ultimately show "justified E t k x" by simp
  qed
qed


text \<open>A claim, for the examples: the token locked in \<open>example_script\<close> goes to its recipient.\<close>

definition locked_token :: Token where
  "locked_token = \<lparr>tokOwner = Some ''hscript'', tokType = ''USD'', tokQuantity = Hex (UInt64Quantity 5)\<rparr>"

definition claimed_token :: Token where
  "claimed_token = \<lparr>tokOwner = Some ''B'', tokType = ''USD'', tokQuantity = Hex (UInt64Quantity 5)\<rparr>"

definition claim_transfer :: FabTransferAction where
  "claim_transfer = \<lparr>Inputs = [''k''], tOutputs = [Some (Some claimed_token)],
     tMetadata = [(ClaimKey ''p'', ''p'')]\<rparr>"

definition claim_backend :: Backend where
  "claim_backend = \<lparr>Ledger = \<lambda>k. Inr [], Message = ''m'', Cursor = 0, Sigs = [''sig'']\<rparr>"

lemma claim_owners:
  "UnmarshallRawOwner (example_fab t) ''hscript'' = Inr \<lparr>roType = ScriptType, roIdentity = ''script''\<rparr>"
  "UnmarshallRawOwner (example_fab t) ''B'' = Inr \<lparr>roType = SerializedIdentityType, roIdentity = []\<rparr>"
  "UnmarshallRawOwner (example_fab t) ''A'' = Inr \<lparr>roType = SerializedIdentityType, roIdentity = []\<rparr>"
  "unmarshal_Script (example_fab t) ''script'' = Inr example_script"
  "unmarshal_Claim (example_fab t) ''sig'' = Inr example_claim"
  "HashFuncs (example_fab t) 5 = Some (\<lambda>b. b)"
  "IdEqual (example_fab t) = (=)"
  by (simp_all add: UnmarshallRawOwner_def example_fab_def example_env_def env.extend_def)

lemma claim_verifier:
  "\<exists>v. GetOwnerVerifier (des (example_validator t)) ''hscript'' = Inr v \<and> v 0 ''m'' ''sig'' = Inr ()"
proof -
  have "ScriptType \<noteq> SerializedIdentityType" by (simp add: ScriptType_def SerializedIdentityType_def)
  then show ?thesis
    by (simp add: example_validator_def NewDeserializer_def Deserializer_DeserializeVerifier_def claim_owners
        getHTLCVerifier_def RawOwnerIdentityDeserializer_DeserializeVerifier_def Verifier_Verify_def
        ClaimVerifier_accepts example_script_def example_claim_def encoded_hash_eq example_zero noneEncoding_def)
qed

lemma claim_image: "HashInfo_Image (example_fab t) (hashInfo example_script) ''p'' = Inr ''p''"
  by (simp add: HashInfo_Image_eq encoded_hash_eq example_script_def claim_owners example_zero noneEncoding_def)

lemma claim_accepted:
  "VerifyTransfer (example_validator claim_transfer) (map Some [locked_token]) claim_transfer claim_backend
    = (Inr (), claim_backend\<lparr>Cursor := 1\<rparr>)"
proof -
  let ?E = "example_fab claim_transfer"
  let ?v = "example_validator claim_transfer"
  let ?start = "start_context ?v claim_backend [Some locked_token] claim_transfer"
  let ?c = "signed_context ?v claim_backend [Some locked_token] claim_transfer"
  obtain ver where ver: "GetOwnerVerifier (des ?v) ''hscript'' = Inr ver" "ver 0 ''m'' ''sig'' = Inr ()"
    using claim_verifier by blast
  have "vSigClock ?v = (\<lambda>n. 0)" by (simp add: example_validator_def)
  then have "signed_at (sigClock ?start) (SignatureProvider ?start) (Cursor (SignatureProvider ?start)) ver"
    using ver(2) by (simp add: signed_at_def start_context_def claim_backend_def)
  moreover have "token_owner (Some locked_token) = Inr ''hscript''"
    by (simp add: token_owner_def deref_def owner_raw_def locked_token_def)
  ultimately have "\<exists>c. sign_tokens (des ?v) [Some locked_token] ?start = (Inr (), c)"
    unfolding sign_tokens_Cons using ver(1) by auto
  then obtain c where c: "sign_tokens (des ?v) [Some locked_token] ?start = (Inr (), c)" by blast
  from sign_tokens_ok [OF this] have "c = ?c"
    by (simp add: Let_def signed_context_def start_context_def)
  with c have "TransferSignatureValidate ?start = (Inr (), ?c)"
    by (simp add: TransferSignatureValidate_def start_context_def)
  moreover have "TransferBalanceValidate ?c = (Inr (), ?c)"
    by (simp add: TransferBalanceValidate_def signed_context_def start_context_def example_validator_def
        Setup_def DefaultPrecision_def balance_def balance_input_def balance_output_def deref_def
        locked_token_def claimed_token_def claim_transfer_def example_quantity NewZeroQuantity_def
        UInt64Quantity_Add_def UInt64Quantity_Cmp_def Let_def del: Hex.simps)
  moreover have "htlc_input ?E 0 (0, Some locked_token) ?c
      = (Inr (), ?c\<lparr>MetadataCounter := [(ClaimKey ''p'', 1)]\<rparr>)"
    using claim_image [of claim_transfer]
    by (simp add: htlc_input_def token_owner_def deref_def owner_raw_def locked_token_def claim_owners obind_def
        claim_transfer_def claimed_token_def signed_context_def start_context_def ocheck_def at_def
        Output_IsRedeem_def VerifyOwner_def example_script_def claim_backend_def MetadataClaimKeyCheck_def
        example_claim_def CountMetadataKey_def the_default_def)
  moreover have "htlc_output ?E 0 (Some (Some claimed_token)) ctx = (Inr (), ctx)" for ctx
    by (simp add: htlc_output_def token_owner_def deref_def owner_raw_def claim_owners obind_def
      Output_IsRedeem_def SerializedIdentityType_def ScriptType_def claimed_token_def)
  ultimately show ?thesis
    by (simp add: VerifyTransfer_def start_context_def [symmetric] example_validator_def obind_def
        TransferHTLCValidate_def)
      (simp add: signed_context_def start_context_def claim_transfer_def obind_def claim_backend_def)
qed

lemma transfer_metadata_accounted_witness:
  "justified (example_fab claim_transfer) claim_transfer (ClaimKey ''p'') ''p''"
proof -
  have "distinct (map fst (tMetadata claim_transfer))" and "(ClaimKey ''p'', ''p'') \<in> set (tMetadata claim_transfer)"
    by (simp_all add: claim_transfer_def)
  with transfer_metadata_accounted [OF claim_accepted example_standard] show ?thesis by blast
qed

text \<open>
  C26: a locked token is spent by the rule of its script: when the first input of an accepted
  transfer is owned by a script, the transfer has a single output of the same type and
  quantity; before the deadline it belongs to the recipient, and the metadata publishes a
  pre-image of the script's hash under the claim key of the hash; afterwards it belongs to
  the sender. (The clock is not turned back between the check of the signature and that of
  the script.)
\<close>
theorem locked_token_spent_by_rule:
  assumes "VerifyTransfer v (map Some (first # rest)) t b = (Inr (), b')" and "standard E v"
    and "des v = NewDeserializer E msp" and "identity_laws E"
    and "tokOwner first = Some raw"
    and "UnmarshallRawOwner E raw = Inr \<lparr>roType = ScriptType, roIdentity = s\<rparr>"
    and "unmarshal_Script E s = Inr script"
    and "now = vHtlcClock v (Cursor b + length (first # rest))" and "vSigClock v (Cursor b) \<le> now"
  shows "\<exists>out. tOutputs t = [Some (Some out)] \<and> tokType out = tokType first
    \<and> tokQuantity out = tokQuantity first
    \<and> (if now < Deadline script
       then tokOwner out = Some (Recipient script)
         \<and> (\<exists>pre. encoded_hash E (hashInfo script) pre = Inr (Hash (hashInfo script))
             \<and> map_of (tMetadata t) (ClaimKey (Hash (hashInfo script))) = Some pre)
       else tokOwner out = Some (Sender script))"
proof -
  let ?c = "signed_context v b (map Some (first # rest)) t"
  have "transferValidators v
      = [TransferSignatureValidate, TransferBalanceValidate, TransferHTLCValidate E] @ []"
    using assms(2) by (simp add: standard_def)
  from VerifyTransfer_ok [OF assms(1) this] obtain c where
    signed: "owners_signed (des v) (vSigClock v) b (Cursor b) (map Some (first # rest))"
    and h: "TransferHTLCValidate E ?c = (Inr (), c)" by metis
  obtain ver where ver: "GetOwnerVerifier (des v) raw = Inr ver" "signed_at (vSigClock v) b (Cursor b) ver"
    using signed assms(5) by (auto simp: owners_signed_Cons token_owner_def deref_def owner_raw_def)
  then have ver_ok: "ver (vSigClock v (Cursor b)) (Message b) (Sigs b ! Cursor b) = Inr ()"
    and lt: "Cursor b < length (Sigs b)" by (auto simp: signed_at_def)
  have c: "InputTokens ?c = Some first # map Some rest" "Action ?c = t"
    "htlcClock ?c (Cursor (SignatureProvider ?c)) = now"
    using assms(8) by (simp_all add: signed_context_def start_context_def)
  have sig0: "ctxSignatures ?c ! 0 = Sigs b ! Cursor b"
    using lt by (simp add: signed_context_def start_context_def nth_append)
  from first_input_checked [OF h c(1)] c(3) obtain c1 where
    "htlc_input E now (0, Some first) ?c = (Inr (), c1)" by auto
  then show ?thesis
  proof (cases rule: htlc_input_cases)
    case (plain raw' ro)
    with assms(5,6) show ?thesis by (simp add: token_owner_def deref_def owner_raw_def)
  next
    case (script raw' ro in0 tok inOwner outOwner sc op sigma key)
    have same: "in0 = first" "inOwner = raw" "sigma = Sigs b ! Cursor b"
      using script(5,10,15) c(1) sig0 assms(5) by auto
    have out: "tOutputs t = [Some (Some tok)]"
      using script(6,7) c(2) by (cases "tOutputs t") auto
    have vo: "VerifyOwner E raw outOwner now = Inr (sc, op)" using script(13) same by simp
    show ?thesis
    proof (cases "now < Deadline script")
      case True
      with vo assms(4,6,7) have op: "sc = script" "op = Claim" "outOwner = Recipient script"
        by (auto simp: VerifyOwner_def identity_laws_def split: if_splits)
      obtain claim :: ClaimSignature and img where claim: "unmarshal_Claim E sigma = Inr claim"
        "HashInfo_Image E (hashInfo script) (Preimage claim) = Inr img"
        "map_of (tMetadata t) (ClaimKey img) = Some (Preimage claim)"
        using ClaimKeyCheck_ok [OF script(16)] op c(2) by auto
      have "Deserializer_DeserializeVerifier E
          (RawOwnerIdentityDeserializer_DeserializeVerifier E msp) raw = Inr ver"
        using ver(1) assms(3) by (simp add: NewDeserializer_def)
      from script_verifier [OF this assms(6,7)] ver_ok True assms(9) claim(1) same(3)
      have "encoded_hash E (hashInfo script) (Preimage claim) = Inr (Hash (hashInfo script))"
        by (auto simp: Verifier_Verify_def ClaimVerifier_accepts)
      with claim(2,3) have "map_of (tMetadata t) (ClaimKey (Hash (hashInfo script))) = Some (Preimage claim)"
        by (auto simp: HashInfo_Image_eq)
      with \<open>encoded_hash E _ _ = _\<close> out script(8,9,11) same op True show ?thesis by auto
    next
      case False
      with vo assms(4,6,7) have "outOwner = Sender script"
        by (auto simp: VerifyOwner_def identity_laws_def split: if_splits)
      with out script(8,9,11) same False show ?thesis by auto
    qed
  qed
qed

lemma locked_token_spent_by_rule_witness:
  "\<exists>pre. map_of (tMetadata claim_transfer) (ClaimKey ''p'') = Some pre"
proof -
  have 1: "VerifyTransfer (example_validator claim_transfer) (map Some (locked_token # [])) claim_transfer claim_backend
    = (Inr (), claim_backend\<lparr>Cursor := 1\<rparr>)" using claim_accepted by simp
  have 2: "des (example_validator claim_transfer)
      = NewDeserializer (example_fab claim_transfer) (\<lambda>i. Inr (\<lambda>now msg sigma. Inr ()))"
    by (simp add: example_validator_def)
  have 3: "identity_laws (example_fab claim_transfer)"
    by (simp add: identity_laws_def example_fab_def example_env_def env.extend_def)
  have 4: "tokOwner locked_token = Some ''hscript''" by (simp add: locked_token_def)
  show ?thesis
    using locked_token_spent_by_rule [OF 1 example_standard 2 3 4 claim_owners(1,4) refl]
    by (auto simp: example_validator_def example_script_def split: if_splits)
qed

end
