(* ===== verification/Params.thy ===== *)
theory Params
  imports Fabtoken "HOL-Library.List_Lexorder" "HOL-Library.Char_ord"
begin

text \<open>
  From serialized public parameters to a running validator: the parameters of the driver
  for plain tokens and their manager (\<open>core/fabtoken/setup.go\<close>, \<open>core/fabtoken/ppm\<close>), the
  registry of drivers (\<open>core/driver.go\<close>, \<open>publicparams.go\<close>, \<open>validator.go\<close>), the driver
  itself (\<open>core/fabtoken/driver\<close>), and the public face of them (\<open>token/publicparams.go\<close>,
  \<open>token/validator.go\<close>, \<open>token/tms.go\<close>).

  JSON is a parameter. To unmarshal a text into a structure that exists overwrites the
  fields that the text names, so that codec takes the structure as an argument.
\<close>

section \<open>Public parameters\<close>

record SerializedPublicParameters =
  sppIdentifier :: string
  sppRaw :: bytes

text \<open>
  \<open>driver.Unmarshal\<close> is another JSON library than the one that the driver for plain
  tokens calls, hence a codec of its own.
\<close>

record params_codec =
  marshal_PublicParams :: "PublicParams \<Rightarrow> bytes res"
  unmarshal_PublicParams :: "bytes \<Rightarrow> PublicParams \<Rightarrow> PublicParams res"
  marshal_Serialized :: "SerializedPublicParameters \<Rightarrow> bytes res"
  unmarshal_Serialized :: "bytes \<Rightarrow> SerializedPublicParameters res"
  driver_unmarshal_Serialized :: "bytes \<Rightarrow> SerializedPublicParameters res"

definition zero_PublicParams :: PublicParams where
  "zero_PublicParams = \<lparr>Label = [], QuantityPrecision = 0, Auditor = None, Issuers = [], MaxToken = 0\<rparr>"

definition PublicParams_Deserialize ::
  "params_codec \<Rightarrow> PublicParams \<Rightarrow> bytes \<Rightarrow> PublicParams res" where
  "PublicParams_Deserialize C p0 raw =
     rbind (unmarshal_Serialized C raw) (\<lambda>publicParams.
     if sppIdentifier publicParams \<noteq> Label p0
     then Inl (Err ''invalid identifier, expecting 'fabtoken' '')
     else unmarshal_PublicParams C (sppRaw publicParams) p0)"

definition NewPublicParamsFromBytes :: "params_codec \<Rightarrow> bytes \<Rightarrow> string \<Rightarrow> PublicParams res" where
  "NewPublicParamsFromBytes C raw label =
     PublicParams_Deserialize C (zero_PublicParams\<lparr>Label := label\<rparr>) raw"

text \<open>
  The methods have a pointer as their receiver, which may be nil: those that read a field
  follow it, and the ones that return a constant do not.
\<close>

definition PublicParams_Identifier :: "PublicParams option \<Rightarrow> string res" where
  "PublicParams_Identifier p = rbind (deref p) (\<lambda>pp. Inr (Label pp))"

definition PublicParams_TokenDataHiding :: "PublicParams option \<Rightarrow> bool res" where
  "PublicParams_TokenDataHiding p = Inr False"

definition PublicParams_CertificationDriver :: "PublicParams option \<Rightarrow> string res" where
  "PublicParams_CertificationDriver p = rbind (deref p) (\<lambda>pp. Inr (Label pp))"

definition PublicParams_GraphHiding :: "PublicParams option \<Rightarrow> bool res" where
  "PublicParams_GraphHiding p = Inr False"

definition PublicParams_MaxTokenValue :: "PublicParams option \<Rightarrow> u64 res" where
  "PublicParams_MaxTokenValue p = rbind (deref p) (\<lambda>pp. Inr (MaxToken pp))"

definition PublicParams_Serialize :: "params_codec \<Rightarrow> PublicParams option \<Rightarrow> bytes res" where
  "PublicParams_Serialize C p =
     rbind (deref p) (\<lambda>pp.
     rbind (marshal_PublicParams C pp) (\<lambda>raw.
     marshal_Serialized C \<lparr>sppIdentifier = Label pp, sppRaw = raw\<rparr>))"

definition PublicParams_Bytes :: "params_codec \<Rightarrow> PublicParams option \<Rightarrow> bytes res" where
  "PublicParams_Bytes C p = rbind (deref p) (marshal_PublicParams C)"

definition PublicParams_AuditorIdentity :: "PublicParams option \<Rightarrow> bytes option res" where
  "PublicParams_AuditorIdentity p = rbind (deref p) (\<lambda>pp. Inr (Auditor pp))"

text \<open>The list always has one element, which is nil when there is no auditor.\<close>

definition PublicParams_Auditors :: "PublicParams option \<Rightarrow> bytes option list res" where
  "PublicParams_Auditors p = rbind (deref p) (\<lambda>pp. Inr [Auditor pp])"

definition PublicParams_Precision :: "PublicParams option \<Rightarrow> u64 res" where
  "PublicParams_Precision p = rbind (deref p) (\<lambda>pp. Inr (QuantityPrecision pp))"

section \<open>Parameters of any driver\<close>

text \<open>
  The interface \<open>driver.PublicParameters\<close>: what its methods return, and the result of the
  type assertion to a pointer to the parameters for plain tokens.
\<close>

record pp_iface =
  asFabtoken :: "PublicParams option option"
  ppIdentifier :: "string res"
  ppTokenDataHiding :: "bool res"
  ppGraphHiding :: "bool res"
  ppMaxTokenValue :: "u64 res"
  ppCertificationDriver :: "string res"
  ppBytes :: "bytes res"
  ppAuditors :: "bytes option list res"
  ppPrecision :: "u64 res"

definition fab_pp :: "params_codec \<Rightarrow> PublicParams option \<Rightarrow> pp_iface" where
  "fab_pp C p =
     \<lparr>asFabtoken = Some p, ppIdentifier = PublicParams_Identifier p,
      ppTokenDataHiding = PublicParams_TokenDataHiding p, ppGraphHiding = PublicParams_GraphHiding p,
      ppMaxTokenValue = PublicParams_MaxTokenValue p,
      ppCertificationDriver = PublicParams_CertificationDriver p, ppBytes = PublicParams_Bytes C p,
      ppAuditors = PublicParams_Auditors p, ppPrecision = PublicParams_Precision p\<rparr>"

section \<open>The manager of the parameters for plain tokens\<close>

text \<open>
  Its vault and its loader are arguments of the operations that call them; its lock makes
  every operation atomic.
\<close>

record PublicParamsManager =
  ppmPP :: "PublicParams option"
  ppmPPLabel :: string

definition NewPublicParamsManager :: "string \<Rightarrow> PublicParamsManager" where
  "NewPublicParamsManager label = \<lparr>ppmPP = None, ppmPPLabel = label\<rparr>"

definition NewPublicParamsManagerFromParams :: "PublicParams option \<Rightarrow> PublicParamsManager res" where
  "NewPublicParamsManagerFromParams p =
     (case p of
        None \<Rightarrow> Inl (Err ''public parameters must be non-nil'')
      | Some q \<Rightarrow> Inr \<lparr>ppmPP = Some q, ppmPPLabel = []\<rparr>)"

definition PublicParamsManager_PublicParams :: "PublicParamsManager \<Rightarrow> PublicParams option" where
  "PublicParamsManager_PublicParams v = ppmPP v"

definition PublicParamsManager_PublicParameters :: "params_codec \<Rightarrow> PublicParamsManager \<Rightarrow> pp_iface" where
  "PublicParamsManager_PublicParameters C v = fab_pp C (PublicParamsManager_PublicParams v)"

definition PublicParamsManager_SerializePublicParameters ::
  "params_codec \<Rightarrow> PublicParamsManager \<Rightarrow> bytes res" where
  "PublicParamsManager_SerializePublicParameters C v =
     PublicParams_Serialize C (PublicParamsManager_PublicParams v)"

definition PublicParamsManager_NewCertifierKeyPair :: "(bytes \<times> bytes) res" where
  "PublicParamsManager_NewCertifierKeyPair =
     Inl (Panic ''NewCertifierKeyPair cannot be called from fabtoken'')"

text \<open>The vault (which may be nil) is what its \<open>PublicParams\<close> returns.\<close>

definition PublicParamsManager_Load ::
  "params_codec \<Rightarrow> bytes res option \<Rightarrow> (PublicParamsManager, unit) oper" where
  "PublicParamsManager_Load C vault = (\<lambda>v.
     case rbind (deref vault) (\<lambda>r. r) of
       Inl e \<Rightarrow> (Inl e, v)
     | Inr ppRaw \<Rightarrow>
         if ppRaw = [] then (Inr (), v)
         else case NewPublicParamsFromBytes C ppRaw (ppmPPLabel v) of
             Inl e \<Rightarrow> (Inl e, v)
           | Inr q \<Rightarrow>
               (case PublicParams_Validate q of
                  Inl e \<Rightarrow> (Inl e, v)
                | Inr u \<Rightarrow> (Inr (), v\<lparr>ppmPP := Some q\<rparr>)))"

definition PublicParamsManager_SetPublicParameters ::
  "params_codec \<Rightarrow> bytes \<Rightarrow> (PublicParamsManager, unit) oper" where
  "PublicParamsManager_SetPublicParameters C raw = (\<lambda>v.
     case NewPublicParamsFromBytes C raw (ppmPPLabel v) of
       Inl e \<Rightarrow> (Inl e, v)
     | Inr q \<Rightarrow>
         (case PublicParams_Validate q of
            Inl e \<Rightarrow> (Inl e, v)
          | Inr u \<Rightarrow> (Inr (), v\<lparr>ppmPP := Some q\<rparr>)))"

definition PublicParamsManager_Fetch :: "bytes res option \<Rightarrow> bytes res" where
  "PublicParamsManager_Fetch loader =
     (case loader of
        None \<Rightarrow> Inl (Err ''public parameters loader not set'')
      | Some r \<Rightarrow> r)"

definition PublicParamsManager_AuditorIdentity :: "PublicParamsManager \<Rightarrow> bytes option res" where
  "PublicParamsManager_AuditorIdentity v =
     rbind (deref (PublicParamsManager_PublicParams v)) (\<lambda>pp. Inr (Auditor pp))"

definition PublicParamsManager_Issuers :: "PublicParamsManager \<Rightarrow> bytes list res" where
  "PublicParamsManager_Issuers v =
     rbind (deref (PublicParamsManager_PublicParams v)) (\<lambda>pp. Inr (Issuers pp))"

definition PublicParamsManager_Validate :: "PublicParamsManager \<Rightarrow> unit res" where
  "PublicParamsManager_Validate v =
     (case PublicParamsManager_PublicParams v of
        None \<Rightarrow> Inl (Err ''public parameters not set'')
      | Some q \<Rightarrow> PublicParams_Validate q)"

text \<open>The loader of the parameters (\<open>loaders.go\<close>), over a fetcher.\<close>

definition PublicParamsLoader_Fetch :: "bytes res \<Rightarrow> bytes res" where
  "PublicParamsLoader_Fetch fetcher = fetcher"

definition PublicParamsLoader_FetchParams ::
  "params_codec \<Rightarrow> bytes res \<Rightarrow> string \<Rightarrow> PublicParams res" where
  "PublicParamsLoader_FetchParams C fetcher label =
     rbind fetcher (\<lambda>raw.
     rbind (NewPublicParamsFromBytes C raw label) (\<lambda>pp.
     rbind (PublicParams_Validate pp) (\<lambda>_. Inr pp)))"

section \<open>The public face\<close>

text \<open>
  The interface \<open>driver.PublicParamsManager\<close>, as the methods that do not change it see it;
  the ones that do are the operations on \<open>PublicParamsManager\<close>.
\<close>

record ppm_iface =
  ppmPublicParameters :: pp_iface
  ppmSerialize :: "bytes res"
  ppmValidate :: "unit res"
  ppmFetch :: "bytes res"

definition fab_ppm :: "params_codec \<Rightarrow> bytes res option \<Rightarrow> PublicParamsManager \<Rightarrow> ppm_iface" where
  "fab_ppm C loader v =
     \<lparr>ppmPublicParameters = PublicParamsManager_PublicParameters C v,
      ppmSerialize = PublicParamsManager_SerializePublicParameters C v,
      ppmValidate = PublicParamsManager_Validate v, ppmFetch = PublicParamsManager_Fetch loader\<rparr>"

definition PPM_Precision :: "ppm_iface \<Rightarrow> u64 res" where
  "PPM_Precision c = ppPrecision (ppmPublicParameters c)"

definition PPM_CertificationDriver :: "ppm_iface \<Rightarrow> string res" where
  "PPM_CertificationDriver c = ppCertificationDriver (ppmPublicParameters c)"

definition PPM_GraphHiding :: "ppm_iface \<Rightarrow> bool res" where
  "PPM_GraphHiding c = ppGraphHiding (ppmPublicParameters c)"

definition PPM_TokenDataHiding :: "ppm_iface \<Rightarrow> bool res" where
  "PPM_TokenDataHiding c = ppTokenDataHiding (ppmPublicParameters c)"

definition PPM_MaxTokenValue :: "ppm_iface \<Rightarrow> u64 res" where
  "PPM_MaxTokenValue c = ppMaxTokenValue (ppmPublicParameters c)"

definition PPM_SerializePublicParameters :: "ppm_iface \<Rightarrow> bytes res" where
  "PPM_SerializePublicParameters c = ppmSerialize c"

definition PPM_Validate :: "ppm_iface \<Rightarrow> unit res" where
  "PPM_Validate c = ppmValidate c"

definition PPM_Identifier :: "ppm_iface \<Rightarrow> string res" where
  "PPM_Identifier c = ppIdentifier (ppmPublicParameters c)"

definition PPM_Auditors :: "ppm_iface \<Rightarrow> bytes option list res" where
  "PPM_Auditors c = ppAuditors (ppmPublicParameters c)"

definition PPM_Fetch :: "ppm_iface \<Rightarrow> bytes res" where
  "PPM_Fetch c = ppmFetch c"

text \<open>
  A validator of requests (\<open>driver.Validator\<close>), and the one that wraps it
  (\<open>token.Validator\<close>). The ledger that it is given answers all reads of a validation from
  one state: reading changes nothing.
\<close>

record 'a driver_validator =
  vUnmarshalActions :: "bytes \<Rightarrow> 'a list res"
  vVerifyTokenRequestFromRaw :: "(string \<Rightarrow> bytes res) option \<Rightarrow> string \<Rightarrow> bytes \<Rightarrow> 'a list res"

definition Validator_UnmarshalActions :: "'a driver_validator \<Rightarrow> bytes \<Rightarrow> 'a list res" where
  "Validator_UnmarshalActions backend raw = vUnmarshalActions backend raw"

definition Validator_UnmarshallAndVerify ::
  "'a driver_validator \<Rightarrow> (string \<Rightarrow> ('s, bytes) oper) \<Rightarrow> string \<Rightarrow> bytes \<Rightarrow> ('s, 'a list) oper" where
  "Validator_UnmarshallAndVerify backend ledger anchor raw = (\<lambda>s.
     (vVerifyTokenRequestFromRaw backend (Some (\<lambda>key. fst (ledger key s))) anchor raw, s))"

section \<open>Drivers\<close>

text \<open>The interface \<open>driver.Driver\<close>, but for the construction of token services.\<close>

record 'a Driver =
  drvPublicParametersFromBytes :: "bytes \<Rightarrow> pp_iface res"
  drvNewPublicParametersManager :: "pp_iface \<Rightarrow> ppm_iface res"
  drvNewValidator :: "pp_iface \<Rightarrow> 'a driver_validator res"

text \<open>
  The driver for plain tokens. The environment of its validator is the one of
  \<open>Fabtoken\<close>; the actions are handed over as the translator takes them.
\<close>

definition fab_validator :: "fab_env \<Rightarrow> Validator \<Rightarrow> action driver_validator" where
  "fab_validator E v =
     \<lparr>vUnmarshalActions = (\<lambda>raw. rbind (UnmarshalActions E raw) (\<lambda>acts. Inr (map (to_action E) acts))),
      vVerifyTokenRequestFromRaw = (\<lambda>getState anchor raw.
        rbind (VerifyTokenRequestFromRaw E v getState anchor raw) (\<lambda>acts. Inr (map (to_action E) acts)))\<rparr>"

record fab_setting =
  fsCodec :: params_codec
  fsEnv :: fab_env
  fsMsp :: verifier_des
  fsSigClock :: "nat \<Rightarrow> int"
  fsHtlcClock :: "nat \<Rightarrow> int"

definition FabDriver_PublicParametersFromBytes :: "fab_setting \<Rightarrow> bytes \<Rightarrow> pp_iface res" where
  "FabDriver_PublicParametersFromBytes F params =
     rbind (NewPublicParamsFromBytes (fsCodec F) params PublicParameters) (\<lambda>pp.
     Inr (fab_pp (fsCodec F) (Some pp)))"

definition FabDriver_NewValidator :: "fab_setting \<Rightarrow> pp_iface \<Rightarrow> action driver_validator res" where
  "FabDriver_NewValidator F params =
     (case asFabtoken params of
        None \<Rightarrow> Inl (Err ''invalid public parameters type'')
      | Some p \<Rightarrow>
          rbind (NewValidator (fsEnv F) (fsSigClock F) (fsHtlcClock F) p
            (Some (NewDeserializer (fsEnv F) (fsMsp F))) []) (\<lambda>v.
          Inr (fab_validator (fsEnv F) v)))"

definition FabDriver_NewPublicParametersManager :: "fab_setting \<Rightarrow> pp_iface \<Rightarrow> ppm_iface res" where
  "FabDriver_NewPublicParametersManager F params =
     (case asFabtoken params of
        None \<Rightarrow> Inl (Err ''invalid public parameters type'')
      | Some p \<Rightarrow>
          rbind (NewPublicParamsManagerFromParams p) (\<lambda>m. Inr (fab_ppm (fsCodec F) None m)))"

definition fab_driver :: "fab_setting \<Rightarrow> action Driver" where
  "fab_driver F =
     \<lparr>drvPublicParametersFromBytes = FabDriver_PublicParametersFromBytes F,
      drvNewPublicParametersManager = FabDriver_NewPublicParametersManager F,
      drvNewValidator = FabDriver_NewValidator F\<rparr>"

subsection \<open>The registry\<close>

type_synonym 'a drivers = "(string \<times> 'a Driver) list"

definition Register :: "string \<Rightarrow> 'a Driver option \<Rightarrow> ('a drivers, unit) oper" where
  "Register name driver = (\<lambda>drivers.
     case driver of
       None \<Rightarrow> (Inl (Panic ''Register driver is nil''), drivers)
     | Some d \<Rightarrow>
         if map_of drivers name \<noteq> None
         then (Inl (Panic (''Register called twice for driver '' @ name)), drivers)
         else (Inr (), drivers @ [(name, d)]))"

definition Drivers :: "'a drivers \<Rightarrow> string list" where
  "Drivers drivers = sort (map fst drivers)"

definition init_fabtoken :: "fab_setting \<Rightarrow> (action drivers, unit) oper" where
  "init_fabtoken F = Register PublicParameters (Some (fab_driver F))"

definition SerializedPublicParametersFromBytes ::
  "params_codec \<Rightarrow> bytes \<Rightarrow> SerializedPublicParameters res" where
  "SerializedPublicParametersFromBytes C raw = driver_unmarshal_Serialized C raw"

definition core_PublicParametersFromBytes ::
  "params_codec \<Rightarrow> 'a drivers \<Rightarrow> bytes \<Rightarrow> pp_iface res" where
  "core_PublicParametersFromBytes C drivers params =
     rbind (SerializedPublicParametersFromBytes C params) (\<lambda>pp.
     case map_of drivers (sppIdentifier pp) of
       None \<Rightarrow> Inl (Err ''cannot load public paramenters, driver not found'')
     | Some d \<Rightarrow> drvPublicParametersFromBytes d params)"

definition core_NewPublicParametersManager :: "'a drivers \<Rightarrow> pp_iface \<Rightarrow> ppm_iface res" where
  "core_NewPublicParametersManager drivers params =
     rbind (ppIdentifier params) (\<lambda>identifier.
     case map_of drivers identifier of
       None \<Rightarrow> Inl (Err ''cannot load public paramenters, driver not found'')
     | Some d \<Rightarrow> drvNewPublicParametersManager d params)"

definition core_NewValidator :: "'a drivers \<Rightarrow> pp_iface \<Rightarrow> 'a driver_validator res" where
  "core_NewValidator drivers params =
     rbind (ppIdentifier params) (\<lambda>identifier.
     case map_of drivers identifier of
       None \<Rightarrow> Inl (Err ''cannot load public paramenters, driver not found'')
     | Some d \<Rightarrow> drvNewValidator d params)"

definition NewServicesFromPublicParams ::
  "params_codec \<Rightarrow> 'a drivers \<Rightarrow> bytes \<Rightarrow> (ppm_iface \<times> 'a driver_validator) res" where
  "NewServicesFromPublicParams C drivers params =
     rbind (core_PublicParametersFromBytes C drivers params) (\<lambda>pp.
     rbind (core_NewPublicParametersManager drivers pp) (\<lambda>ppm.
     rbind (ppmValidate ppm) (\<lambda>_.
     rbind (core_NewValidator drivers pp) (\<lambda>validator.
     Inr (ppm, validator)))))"

definition NewPublicParametersManagerFromPublicParams ::
  "params_codec \<Rightarrow> 'a drivers \<Rightarrow> bytes \<Rightarrow> ppm_iface res" where
  "NewPublicParametersManagerFromPublicParams C drivers params =
     rbind (core_PublicParametersFromBytes C drivers params) (\<lambda>pp.
     core_NewPublicParametersManager drivers pp)"

section \<open>Lemmas\<close>

text \<open>
  What is relied on of JSON: a structure that was marshalled is unmarshalled as it was, also
  over another one, since every field is in the text; and both libraries read it alike.
\<close>

definition codec_laws :: "params_codec \<Rightarrow> bool" where
  "codec_laws C \<longleftrightarrow>
     (\<forall>p raw q. marshal_PublicParams C p = Inr raw \<longrightarrow> unmarshal_PublicParams C raw q = Inr p)
     \<and> (\<forall>s raw. marshal_Serialized C s = Inr raw \<longrightarrow>
          unmarshal_Serialized C raw = Inr s \<and> driver_unmarshal_Serialized C raw = Inr s)"

lemma serialized_read:
  assumes "codec_laws C" and "PublicParams_Serialize C (Some p) = Inr raw"
  shows "NewPublicParamsFromBytes C raw label
      = (if label = Label p then Inr p else Inl (Err ''invalid identifier, expecting 'fabtoken' ''))"
    and "\<exists>s. driver_unmarshal_Serialized C raw = Inr s \<and> sppIdentifier s = Label p"
proof -
  from assms(2) obtain r where r: "marshal_PublicParams C p = Inr r"
    and s: "marshal_Serialized C \<lparr>sppIdentifier = Label p, sppRaw = r\<rparr> = Inr raw"
    by (auto simp: PublicParams_Serialize_def go_simps)
  with assms(1) have u: "unmarshal_PublicParams C r q = Inr p"
      "unmarshal_Serialized C raw = Inr \<lparr>sppIdentifier = Label p, sppRaw = r\<rparr>"
      "driver_unmarshal_Serialized C raw = Inr \<lparr>sppIdentifier = Label p, sppRaw = r\<rparr>" for q
    unfolding codec_laws_def by blast+
  then show "NewPublicParamsFromBytes C raw label
      = (if label = Label p then Inr p else Inl (Err ''invalid identifier, expecting 'fabtoken' ''))"
    and "\<exists>s. driver_unmarshal_Serialized C raw = Inr s \<and> sppIdentifier s = Label p"
    by (auto simp: NewPublicParamsFromBytes_def PublicParams_Deserialize_def zero_PublicParams_def)
qed

text \<open>The registry: a name is registered once, and keeps its driver.\<close>

lemma Register_ok:
  assumes "Register name d ds = (Inr (), ds')"
  shows "map_of ds name = None \<and> map_of ds' name = d \<and> (\<forall>n. n \<noteq> name \<longrightarrow> map_of ds' n = map_of ds n)"
  using assms
  by (auto simp: Register_def map_add_def split: option.splits if_splits)

lemma Drivers_sorted: "sorted (Drivers ds) \<and> set (Drivers ds) = dom (map_of ds)"
  by (auto simp: Drivers_def dom_map_of_conv_image_fst)

text \<open>Any update of a manager either changes nothing, or puts checked parameters in force.\<close>

lemma manager_update:
  assumes "PublicParamsManager_SetPublicParameters C raw m = (r, m')
    \<or> PublicParamsManager_Load C (Some (Inr raw)) m = (r, m')"
  shows "m' = m \<or> r = Inr () \<and> (\<exists>p. NewPublicParamsFromBytes C raw (ppmPPLabel m) = Inr p
    \<and> PublicParams_Validate p = Inr () \<and> m' = m\<lparr>ppmPP := Some p\<rparr>)"
  using assms
  by (auto simp: PublicParamsManager_SetPublicParameters_def PublicParamsManager_Load_def
      split: sum.splits if_splits)

lemma services_fab:
  assumes "map_of ds PublicParameters = Some (fab_driver F)" and "codec_laws (fsCodec F)"
    and "PublicParams_Serialize (fsCodec F) (Some p) = Inr raw" and "Label p = PublicParameters"
  shows "NewServicesFromPublicParams (fsCodec F) ds raw =
    rbind (PublicParams_Validate p) (\<lambda>_.
    rbind (NewValidator (fsEnv F) (fsSigClock F) (fsHtlcClock F) (Some p)
      (Some (NewDeserializer (fsEnv F) (fsMsp F))) []) (\<lambda>v.
    Inr (fab_ppm (fsCodec F) None \<lparr>ppmPP = Some p, ppmPPLabel = []\<rparr>, fab_validator (fsEnv F) v)))"
proof -
  obtain s where s: "driver_unmarshal_Serialized (fsCodec F) raw = Inr s" "sppIdentifier s = PublicParameters"
    using serialized_read(2) [OF assms(2,3)] assms(4) by auto
  have "core_PublicParametersFromBytes (fsCodec F) ds raw = Inr (fab_pp (fsCodec F) (Some p))"
    using s assms(1,4) serialized_read(1) [OF assms(2,3)]
    by (simp add: core_PublicParametersFromBytes_def SerializedPublicParametersFromBytes_def fab_driver_def
        FabDriver_PublicParametersFromBytes_def)
  moreover have "core_NewPublicParametersManager ds (fab_pp (fsCodec F) (Some p))
      = Inr (fab_ppm (fsCodec F) None \<lparr>ppmPP = Some p, ppmPPLabel = []\<rparr>)"
    using assms(1,4)
    by (simp add: core_NewPublicParametersManager_def fab_pp_def PublicParams_Identifier_def fab_driver_def
        FabDriver_NewPublicParametersManager_def NewPublicParamsManagerFromParams_def)
  moreover have "ppmValidate (fab_ppm (fsCodec F) None \<lparr>ppmPP = Some p, ppmPPLabel = []\<rparr>) = PublicParams_Validate p"
    by (simp add: fab_ppm_def PublicParamsManager_Validate_def PublicParamsManager_PublicParams_def)
  moreover have "core_NewValidator ds (fab_pp (fsCodec F) (Some p))
      = rbind (NewValidator (fsEnv F) (fsSigClock F) (fsHtlcClock F) (Some p)
      (Some (NewDeserializer (fsEnv F) (fsMsp F))) []) (\<lambda>v. Inr (fab_validator (fsEnv F) v))"
    using assms(1,4)
    by (simp add: core_NewValidator_def fab_pp_def PublicParams_Identifier_def fab_driver_def
        FabDriver_NewValidator_def)
  ultimately show ?thesis
    by (simp add: NewServicesFromPublicParams_def rbind_assoc)
qed

section \<open>Properties\<close>

text \<open>A setting for the examples: a codec that knows one set of parameters.\<close>

definition example_params :: PublicParams where
  "example_params = Setup"

definition example_codec :: params_codec where
  "example_codec =
     \<lparr>marshal_PublicParams = (\<lambda>p. if p = Setup then Inr ''pp'' else Inl (Err ''json'')),
      unmarshal_PublicParams = (\<lambda>raw q. Inr Setup),
      marshal_Serialized = (\<lambda>s. if s = \<lparr>sppIdentifier = PublicParameters, sppRaw = ''pp''\<rparr>
         then Inr ''spp'' else Inl (Err ''json'')),
      unmarshal_Serialized = (\<lambda>raw. Inr \<lparr>sppIdentifier = PublicParameters, sppRaw = ''pp''\<rparr>),
      driver_unmarshal_Serialized = (\<lambda>raw. Inr \<lparr>sppIdentifier = PublicParameters, sppRaw = ''pp''\<rparr>)\<rparr>"

lemma example_codec_laws: "codec_laws example_codec"
  by (auto simp: codec_laws_def example_codec_def split: if_splits)

lemma example_serialized: "PublicParams_Serialize example_codec (Some Setup) = Inr ''spp''"
  by (simp add: PublicParams_Serialize_def example_codec_def Setup_def [THEN arg_cong, of Label])

text \<open>
  The services for serialized parameters of plain tokens, in a registry where only
  \<open>init\<close> registered that name: parameters whose maximum is too large are refused; otherwise
  the validator is the one for exactly these parameters, and the manager reports them, hides
  no graph, and serializes to the same bytes.
\<close>
theorem services_from_params:
  assumes "init_fabtoken F ds = (Inr (), ds')" and "codec_laws (fsCodec F)"
    and "PublicParams_Serialize (fsCodec F) (Some p) = Inr raw" and "Label p = PublicParameters"
  shows "(case NewServicesFromPublicParams (fsCodec F) ds' raw of
      Inl e \<Rightarrow> MaxToken p > ComputeMaxTokenValue p
    | Inr (m, V) \<Rightarrow> MaxToken p \<le> ComputeMaxTokenValue p
        \<and> PPM_Identifier m = Inr PublicParameters \<and> PPM_GraphHiding m = Inr False
        \<and> PPM_Precision m = Inr (QuantityPrecision p) \<and> PPM_MaxTokenValue m = Inr (MaxToken p)
        \<and> PPM_SerializePublicParameters m = Inr raw
        \<and> (\<exists>v. V = fab_validator (fsEnv F) v \<and> NewValidator (fsEnv F) (fsSigClock F) (fsHtlcClock F)
             (Some p) (Some (NewDeserializer (fsEnv F) (fsMsp F))) [] = Inr v))"
proof -
  have "map_of ds' PublicParameters = Some (fab_driver F)"
    using Register_ok assms(1) unfolding init_fabtoken_def by blast
  note s = services_fab [OF this assms(2-4)]
  show ?thesis
    using assms(3,4)
    by (auto simp: s PublicParams_Validate_def NewValidator_def fab_ppm_def fab_pp_def PPM_Identifier_def
        PPM_GraphHiding_def PPM_Precision_def PPM_MaxTokenValue_def PPM_SerializePublicParameters_def
        PublicParamsManager_PublicParameters_def PublicParamsManager_PublicParams_def
        PublicParamsManager_SerializePublicParameters_def PublicParams_Identifier_def
        PublicParams_GraphHiding_def PublicParams_Precision_def PublicParams_MaxTokenValue_def)
qed

lemma services_from_params_witness:
  "\<exists>F ds m V. init_fabtoken F [] = (Inr (), ds) \<and> fsCodec F = example_codec
    \<and> NewServicesFromPublicParams example_codec ds ''spp'' = Inr (m, V) \<and> PPM_Precision m = Inr 64"
proof -
  let ?F = "\<lparr>fsCodec = example_codec, fsEnv = E, fsMsp = \<lambda>i. Inl (Err ''msp''), fsSigClock = (\<lambda>n. 0), fsHtlcClock = (\<lambda>n. 0)\<rparr>"
  obtain ds where ds: "init_fabtoken ?F [] = (Inr (), ds)"
    by (simp add: init_fabtoken_def Register_def)
  have l: "Label Setup = PublicParameters" by (simp add: Setup_def)
  have ok: "\<not> MaxToken Setup > ComputeMaxTokenValue Setup"
    using push_bit_of_1 by (simp add: Setup_def ComputeMaxTokenValue_def DefaultPrecision_def)
  obtain m V where "NewServicesFromPublicParams example_codec ds ''spp'' = Inr (m, V)"
    and "PPM_Precision m = Inr (QuantityPrecision Setup)"
    using services_from_params [OF ds, of Setup "''spp''"] example_codec_laws example_serialized l ok
    by (auto split: sum.splits)
  with ds show ?thesis
    by (intro exI [of _ ?F] exI [of _ ds] exI [of _ m] exI [of _ V]) (simp add: Setup_def DefaultPrecision_def)
qed

end
