(* ===== verification/Chaincode.thy ===== *)
theory Chaincode
  imports Params Encodings
begin

text \<open>
  The token chaincode (\<open>token/services/network/fabric/tcc/tcc.go\<close>): the program that the
  peers run. It validates a request and lets the translator write it, and answers queries.

  The shim of Fabric, the metrics agents and JSON are not code of the repository and are
  parameters. The messages of errors keep the prefixes that the chaincode adds, and leave
  out the values that it prints.
\<close>

section \<open>What the chaincode runs on\<close>

record 's ChaincodeStub = "'s stub" +
  GetArgs :: "bytes list"
  GetTransient :: "(string \<rightharpoonup> bytes) res"
  GetTxID :: string

datatype response = Success bytes | Failure string

definition InvokeFunction :: string where "InvokeFunction = ''invoke''"
definition QueryPublicParamsFunction :: string where "QueryPublicParamsFunction = ''queryPublicParams''"
definition QueryTokensFunctions :: string where "QueryTokensFunctions = ''queryTokens''"
definition AreTokensSpentFunction :: string where "AreTokensSpentFunction = ''areTokensSpent''"
definition PublicParamsPathVarEnv :: string where "PublicParamsPathVarEnv = ''PUBLIC_PARAMS_FILE_PATH''"

lemmas function_names = InvokeFunction_def QueryPublicParamsFunction_def QueryTokensFunctions_def
  AreTokensSpentFunction_def

text \<open>The parameters compiled into the chaincode: the empty text.\<close>

definition builtInParams :: string where "builtInParams = []"

text \<open>
  An agent is its method \<open>EmitKey\<close>, which returns nothing and may panic. The constructor
  of the statsd agent returns an agent and an error, and the chaincode keeps the agent
  whatever the error is.
\<close>

type_synonym Agent = "string list \<Rightarrow> unit res"

record cc_env =
  Getenv :: "string \<Rightarrow> string"
  ReadFile :: "string \<Rightarrow> bytes res"
  NullAgent :: Agent
  NewStatsdAgent :: "string \<Rightarrow> string \<Rightarrow> Agent option \<times> error option"
  unmarshal_ids :: "bytes \<Rightarrow> ID option list res"
  unmarshal_keys :: "bytes \<Rightarrow> string list res"
  marshal_outputs :: "bytes list \<Rightarrow> bytes res"
  marshal_flags :: "bool list \<Rightarrow> bytes res"

section \<open>The chaincode\<close>

text \<open>
  The interfaces that the chaincode asks of a driver: a validator, that is its method
  \<open>UnmarshallAndVerify\<close>, and a parameters manager, that is its method \<open>GraphHiding\<close>.
\<close>

type_synonym 's cc_validator =
  "(string \<Rightarrow> ('s, bytes) oper) \<Rightarrow> string \<Rightarrow> bytes \<Rightarrow> ('s, action list) oper"
type_synonym cc_ppm = "bool res"

record 's TokenChaincode =
  initOnce :: bool
  ccValidator :: "'s cc_validator option"
  ccPPM :: "cc_ppm option"
  TokenServicesFactory :: "bytes \<Rightarrow> (cc_ppm \<times> 's cc_validator) res"
  MetricsEnabled :: bool
  MetricsServer :: string
  MetricsAgent :: "Agent option"

record 's world =
  tcc :: "'s TokenChaincode"
  sim :: 's

type_synonym ('s, 'a) wop = "('s world, 'a) oper"

definition on_sim :: "('s, 'a) oper \<Rightarrow> ('s, 'a) wop" where
  "on_sim m = (\<lambda>w. case m (sim w) of (r, s) \<Rightarrow> (r, w\<lparr>sim := s\<rparr>))"

definition message :: "error \<Rightarrow> string" where
  "message e = (case e of Err m \<Rightarrow> m | Panic m \<Rightarrow> m)"

text \<open>
  The way a handler treats an error: it answers with the message; a panic leaves it.
\<close>

definition or_fail :: "string \<Rightarrow> ('s, 'a) oper \<Rightarrow> ('a \<Rightarrow> ('s, response) oper) \<Rightarrow> ('s, response) oper" where
  "or_fail prefix m f = (\<lambda>s.
     case m s of
       (Inl (Panic p), t) \<Rightarrow> (Inl (Panic p), t)
     | (Inl (Err e), t) \<Rightarrow> (Inr (Failure (prefix @ e)), t)
     | (Inr a, t) \<Rightarrow> f a t)"

subsection \<open>Public parameters and the validator\<close>

definition ReadParamsFromFile :: "cc_env \<Rightarrow> string" where
  "ReadParamsFromFile env =
     (let publicParamsPath = Getenv env PublicParamsPathVarEnv in
      if publicParamsPath = [] then []
      else case ReadFile env publicParamsPath of
          Inl e \<Rightarrow> []
        | Inr paramsAsBytes \<Rightarrow> base64_EncodeToString paramsAsBytes)"

definition Params :: "cc_env \<Rightarrow> string \<Rightarrow> bytes res" where
  "Params env builtIn =
     (let params = ReadParamsFromFile env in
      if params = [] \<and> builtIn = [] then Inl (Err ''no params provided'')
      else base64_DecodeString (if params = [] then builtIn else params))"

definition Initialize :: "cc_env \<Rightarrow> string \<Rightarrow> ('s, unit) wop" where
  "Initialize env builtIn = (\<lambda>w.
     case Params env builtIn of
       Inl e \<Rightarrow> (Inl e, w)
     | Inr ppRaw \<Rightarrow>
         (case TokenServicesFactory (tcc w) ppRaw of
            Inl e \<Rightarrow> (Inl e, w)
          | Inr (ppm, validator) \<Rightarrow>
              (Inr (), w\<lparr>tcc := (tcc w)\<lparr>ccPPM := Some ppm, ccValidator := Some validator\<rparr>\<rparr>)))"

text \<open>
  \<open>sync.Once\<close> runs the initialization once, whether it succeeds, fails or panics; its
  error is a variable of the call that ran it.
\<close>

definition GetValidator :: "cc_env \<Rightarrow> string \<Rightarrow> ('s, 's cc_validator option) wop" where
  "GetValidator env builtIn = (\<lambda>w.
     if initOnce (tcc w) then (Inr (ccValidator (tcc w)), w)
     else case Initialize env builtIn (w\<lparr>tcc := (tcc w)\<lparr>initOnce := True\<rparr>\<rparr>) of
         (Inl e, v) \<Rightarrow> (Inl e, v)
       | (Inr u, v) \<Rightarrow> (Inr (ccValidator (tcc v)), v))"

subsection \<open>Metrics\<close>

definition NewMetricsAgent :: "cc_env \<Rightarrow> string \<Rightarrow> ('s, Agent option) wop" where
  "NewMetricsAgent env i = (\<lambda>w.
     if MetricsAgent (tcc w) \<noteq> None then (Inr (MetricsAgent (tcc w)), w)
     else if \<not> MetricsEnabled (tcc w)
     then (Inr (Some (NullAgent env)), w\<lparr>tcc := (tcc w)\<lparr>MetricsAgent := Some (NullAgent env)\<rparr>\<rparr>)
     else case NewStatsdAgent env i (MetricsServer (tcc w)) of
         (agent, err) \<Rightarrow>
           (case err of
              Some e \<Rightarrow> (Inl e, w\<lparr>tcc := (tcc w)\<lparr>MetricsAgent := agent\<rparr>\<rparr>)
            | None \<Rightarrow> (Inr agent, w\<lparr>tcc := (tcc w)\<lparr>MetricsAgent := agent\<rparr>\<rparr>)))"

text \<open>A call of \<open>EmitKey\<close> on an agent, which may be nil, and on the one of the chaincode.\<close>

definition EmitKey :: "Agent option \<Rightarrow> string list \<Rightarrow> ('s, unit) wop" where
  "EmitKey agent event = olift (rbind (deref agent) (\<lambda>a. a event))"

definition emit :: "string list \<Rightarrow> ('s, unit) wop" where
  "emit event = (\<lambda>w. EmitKey (MetricsAgent (tcc w)) event w)"

subsection \<open>Requests\<close>

text \<open>A new translator for the transaction, over the wrapped stub, for one use.\<close>

definition with_translator :: "'s ChaincodeStub \<Rightarrow> string \<Rightarrow> ('s Translator \<Rightarrow> ('s, 'a) top) \<Rightarrow> ('s, 'a) wop" where
  "with_translator stub txID f = (\<lambda>w.
     case New txID (rwsWrapper stub) (sim w) [] of
       (tr, st) \<Rightarrow> (case f tr st of (r, t) \<Rightarrow> (r, w\<lparr>sim := store t\<rparr>)))"

definition prefixed :: "string \<Rightarrow> ('s, 'a) oper \<Rightarrow> ('s, 'a) oper" where
  "prefixed prefix m = (\<lambda>s.
     case m s of (Inl (Err e), t) \<Rightarrow> (Inl (Err (prefix @ e)), t) | (r, t) \<Rightarrow> (r, t))"

definition write_actions :: "(bytes \<Rightarrow> bytes) \<Rightarrow> action list \<Rightarrow> bytes \<Rightarrow> 's Translator \<Rightarrow> ('s, unit) top" where
  "write_actions sha256 actions raw tr =
     obind (ofor (\<lambda>a. prefixed ''failed to write token action: '' (Write tr a)) actions) (\<lambda>_.
     prefixed ''failed to write token request:'' (CommitTokenRequest sha256 tr raw False))"

definition ProcessRequest ::
  "(bytes \<Rightarrow> bytes) \<Rightarrow> cc_env \<Rightarrow> bytes \<Rightarrow> 's ChaincodeStub \<Rightarrow> ('s, response) wop" where
  "ProcessRequest sha256 env raw stub =
     obind (emit [''tcc'', ''start'', ''TokenChaincodeProcessRequestGetValidator'', GetTxID stub]) (\<lambda>_.
     obind (otry (GetValidator env builtInParams)) (\<lambda>r.
     obind (emit [''tcc'', ''end'', ''TokenChaincodeProcessRequestGetValidator'', GetTxID stub]) (\<lambda>_.
     or_fail [] (olift r) (\<lambda>validator.
     obind (emit [''tcc'', ''start'', ''TokenChaincodeProcessRequestUnmarshallAndVerify'', GetTxID stub]) (\<lambda>_.
     or_fail ''failed to verify token request: ''
       (obind (olift (deref validator)) (\<lambda>v. on_sim (v (StubGetState stub) (GetTxID stub) raw))) (\<lambda>actions.
     obind (emit [''tcc'', ''end'', ''TokenChaincodeProcessRequestUnmarshallAndVerify'', GetTxID stub]) (\<lambda>_.
     obind (emit [''tcc'', ''start'', ''TokenChaincodeProcessRequestWrite'', GetTxID stub]) (\<lambda>_.
     or_fail [] (with_translator stub (GetTxID stub) (write_actions sha256 actions raw)) (\<lambda>_.
     obind (emit [''tcc'', ''end'', ''TokenChaincodeProcessRequest'', GetTxID stub]) (\<lambda>_.
     oret (Success [])))))))))))"

subsection \<open>Queries\<close>

text \<open>
  The response to an error of \<open>ReadSetupParameters\<close> is built and dropped: the parameters
  are then nil.
\<close>

definition QueryPublicParams :: "'s ChaincodeStub \<Rightarrow> ('s, response) wop" where
  "QueryPublicParams stub =
     obind (otry (with_translator stub (GetTxID stub) ReadSetupParameters)) (\<lambda>r.
     let raw = (case r of Inl e \<Rightarrow> [] | Inr b \<Rightarrow> b) in
     if raw = [] then oret (Failure ''need to initialize public parameters'')
     else oret (Success raw))"

definition Chaincode_QueryTokens :: "cc_env \<Rightarrow> bytes \<Rightarrow> 's ChaincodeStub \<Rightarrow> ('s, response) wop" where
  "Chaincode_QueryTokens env idsRaw stub =
     or_fail [] (olift (unmarshal_ids env idsRaw)) (\<lambda>ids.
     or_fail ''failed query tokens: '' (with_translator stub (GetTxID stub) (\<lambda>tr. QueryTokens tr ids)) (\<lambda>res.
     or_fail ''failed marshalling tokens: '' (olift (marshal_outputs env res)) (\<lambda>raw.
     oret (Success raw))))"

definition Chaincode_AreTokensSpent :: "cc_env \<Rightarrow> bytes \<Rightarrow> 's ChaincodeStub \<Rightarrow> ('s, response) wop" where
  "Chaincode_AreTokensSpent env idsRaw stub =
     or_fail [] (GetValidator env builtInParams) (\<lambda>_.
     or_fail [] (olift (unmarshal_keys env idsRaw)) (\<lambda>ids.
     obind (\<lambda>w. (rbind (deref (ccPPM (tcc w))) (\<lambda>graphHiding. graphHiding), w)) (\<lambda>graphHiding.
     or_fail ''failed to check if tokens are spent: ''
       (with_translator stub (GetTxID stub) (\<lambda>tr. AreTokensSpent tr ids graphHiding)) (\<lambda>res.
     or_fail ''failed marshalling spent flags: '' (olift (marshal_flags env res)) (\<lambda>raw.
     oret (Success raw))))))"

subsection \<open>The two entry points\<close>

text \<open>A panic in \<open>Init\<close> is not recovered.\<close>

definition Init :: "cc_env \<Rightarrow> 's ChaincodeStub \<Rightarrow> ('s, response) wop" where
  "Init env stub =
     or_fail ''failed to get public parameters: '' (olift (Params env builtInParams)) (\<lambda>ppRaw.
     or_fail [] (with_translator stub [] (\<lambda>tr. Write tr (SetupAction (Inr ppRaw)))) (\<lambda>_.
     oret (Success [])))"

text \<open>A deferred call runs after the body, also when that panics.\<close>

definition deferred :: "('s, unit) oper \<Rightarrow> ('s, 'a) oper \<Rightarrow> ('s, 'a) oper" where
  "deferred d m = (\<lambda>s.
     case m s of (r, t) \<Rightarrow> (case d t of (Inl e, u) \<Rightarrow> (Inl e, u) | (Inr _, u) \<Rightarrow> (r, u)))"

definition call_function ::
  "(bytes \<Rightarrow> bytes) \<Rightarrow> cc_env \<Rightarrow> 's ChaincodeStub \<Rightarrow> string \<Rightarrow> bytes list \<Rightarrow> ('s, response) wop" where
  "call_function sha256 env stub f params =
     (if f = InvokeFunction then
        if params \<noteq> [] then oret (Failure ''empty token request'')
        else or_fail [] (olift (case GetTransient stub of
            Inl (Err e) \<Rightarrow> Inl (Err ''failed getting transient'') | r \<Rightarrow> r)) (\<lambda>t.
          case t ''token_request'' of
            None \<Rightarrow> oret (Failure ''failed getting token request, entry not found'')
          | Some tokenRequest \<Rightarrow> ProcessRequest sha256 env tokenRequest stub)
      else if f = QueryPublicParamsFunction then QueryPublicParams stub
      else if f = QueryTokensFunctions then
        (case params of
           [p] \<Rightarrow> Chaincode_QueryTokens env p stub
         | _ \<Rightarrow> oret (Failure ''request to retrieve tokens is empty''))
      else if f = AreTokensSpentFunction then
        (case params of
           [p] \<Rightarrow> Chaincode_AreTokensSpent env p stub
         | _ \<Rightarrow> oret (Failure ''request to check if tokens are spent is empty''))
      else oret (Failure (''function not ['' @ f @ ''] recognized'')))"

definition handle :: "(bytes \<Rightarrow> bytes) \<Rightarrow> cc_env \<Rightarrow> 's ChaincodeStub \<Rightarrow> ('s, response) wop" where
  "handle sha256 env stub =
     (case GetArgs stub of
        [] \<Rightarrow> oret (Failure ''missing parameters'')
      | f # params \<Rightarrow>
          or_fail [] (NewMetricsAgent env f) (\<lambda>agent.
          obind (EmitKey agent [''tcc'', ''start'', ''TokenChaincodeInvoke'' @ f, GetTxID stub]) (\<lambda>_.
          deferred (EmitKey agent [''tcc'', ''end'', ''TokenChaincodeInvoke'' @ f, GetTxID stub])
            (call_function sha256 env stub f params))))"

definition Invoke :: "(bytes \<Rightarrow> bytes) \<Rightarrow> cc_env \<Rightarrow> 's ChaincodeStub \<Rightarrow> 's world \<Rightarrow> response \<times> 's world" where
  "Invoke sha256 env stub w =
     (case handle sha256 env stub w of
        (Inl e, v) \<Rightarrow> (Failure (''failed responding ['' @ message e @ '']''), v)
      | (Inr res, v) \<Rightarrow> (res, v))"

text \<open>
  The chaincode as \<open>main\<close> builds it: its factory is \<open>token.NewServicesFromPublicParams\<close>.
\<close>

definition main_factory ::
  "params_codec \<Rightarrow> action drivers \<Rightarrow> bytes \<Rightarrow> (cc_ppm \<times> 's cc_validator) res" where
  "main_factory C drivers raw =
     rbind (NewServicesFromPublicParams C drivers raw) (\<lambda>(ppm, validator).
     Inr (PPM_GraphHiding ppm, Validator_UnmarshallAndVerify validator))"

definition new_chaincode ::
  "params_codec \<Rightarrow> action drivers \<Rightarrow> bool \<Rightarrow> string \<Rightarrow> 's TokenChaincode" where
  "new_chaincode C drivers metricsEnabled metricsServer =
     \<lparr>initOnce = False, ccValidator = None, ccPPM = None, TokenServicesFactory = main_factory C drivers,
      MetricsEnabled = metricsEnabled, MetricsServer = metricsServer, MetricsAgent = None\<rparr>"

section \<open>Lemmas\<close>

lemma or_fail_eq_Inr [go_simps]:
  "or_fail prefix m f s = (Inr res, u) \<longleftrightarrow>
     (\<exists>a t. m s = (Inr a, t) \<and> f a t = (Inr res, u))
     \<or> (\<exists>e. m s = (Inl (Err e), u) \<and> res = Failure (prefix @ e))"
  by (auto simp: or_fail_def split: prod.splits sum.splits error.splits)

lemma or_fail_eq_Success:
  "or_fail prefix m f s = (Inr (Success b), u) \<longleftrightarrow> (\<exists>a t. m s = (Inr a, t) \<and> f a t = (Inr (Success b), u))"
  by (auto simp: or_fail_eq_Inr)

lemma prefixed_eq_Inr [go_simps]: "prefixed prefix m s = (Inr a, t) \<longleftrightarrow> m s = (Inr a, t)"
  by (auto simp: prefixed_def split: prod.splits sum.splits error.splits)

lemma ofor_prefixed: "ofor (\<lambda>x. prefixed prefix (f x)) xs s = (Inr (), t) \<longleftrightarrow> ofor f xs s = (Inr (), t)"
  by (induction xs arbitrary: s) (auto simp: go_simps)

lemma on_sim_eq [go_simps]:
  "on_sim m w = (r, v) \<longleftrightarrow> (\<exists>s. m (sim w) = (r, s) \<and> v = w\<lparr>sim := s\<rparr>)"
  by (auto simp: on_sim_def split: prod.splits)

lemma with_translator_eq [go_simps]:
  "with_translator stub txID f w = (r, v) \<longleftrightarrow>
     (\<exists>t. f \<lparr>RWSet = rwsWrapper stub, TxID = txID, namespace = []\<rparr> \<lparr>counter = 0, store = sim w\<rparr> = (r, t)
        \<and> v = w\<lparr>sim := store t\<rparr>)"
  by (auto simp: with_translator_def New_def split: prod.splits)

lemma otry_eq [go_simps]:
  "otry m s = (Inr r, t) \<longleftrightarrow> m s = (r, t) \<and> (\<forall>p. r \<noteq> Inl (Panic p))"
  by (auto simp: otry_def split: prod.splits sum.splits error.splits)

lemma deferred_eq_Inr [go_simps]:
  "deferred d m s = (Inr a, u) \<longleftrightarrow> (\<exists>t. m s = (Inr a, t) \<and> d t = (Inr (), u))"
  by (auto simp: deferred_def split: prod.splits sum.splits)

lemma EmitKey_eq [go_simps]: "EmitKey agent ev w = (r, v) \<longleftrightarrow> v = w \<and> r = rbind (deref agent) (\<lambda>a. a ev)"
  by (auto simp: EmitKey_def)

lemma emit_eq [go_simps]:
  "emit ev w = (r, v) \<longleftrightarrow> v = w \<and> r = rbind (deref (MetricsAgent (tcc w))) (\<lambda>a. a ev)"
  by (auto simp: emit_def go_simps)

lemma Invoke_Success:
  "Invoke sha256 env stub w = (Success b, v) \<longleftrightarrow> handle sha256 env stub w = (Inr (Success b), v)"
  by (auto simp: Invoke_def split: prod.splits sum.splits)

text \<open>The steps of an invocation that answers with success.\<close>

lemma Invoke_steps:
  assumes "Invoke sha256 env stub w = (Success b, v)" and "GetArgs stub = f # params"
  obtains agent u where "NewMetricsAgent env f w = (Inr agent, u)"
    "call_function sha256 env stub f params u = (Inr (Success b), v)"
  using assms by (auto simp: Invoke_Success handle_def or_fail_eq_Success go_simps)

subsection \<open>The state of the chaincode\<close>

lemma NewMetricsAgent_sim:
  assumes "NewMetricsAgent env f w = (r, v)"
  shows "sim v = sim w \<and> initOnce (tcc v) = initOnce (tcc w) \<and> ccValidator (tcc v) = ccValidator (tcc w)
    \<and> ccPPM (tcc v) = ccPPM (tcc w) \<and> TokenServicesFactory (tcc v) = TokenServicesFactory (tcc w)"
  using assms by (auto simp: NewMetricsAgent_def split: if_splits prod.splits option.splits)

lemma GetValidator_cases:
  assumes "GetValidator env builtIn w = (r, v)"
  obtains (ran) "initOnce (tcc w)" "r = Inr (ccValidator (tcc w))" "v = w"
  | (failed) e where "\<not> initOnce (tcc w)" "r = Inl e" "v = w\<lparr>tcc := (tcc w)\<lparr>initOnce := True\<rparr>\<rparr>"
      "rbind (Params env builtIn) (TokenServicesFactory (tcc w)) = Inl e"
  | (new) ppRaw ppm validator where "\<not> initOnce (tcc w)" "Params env builtIn = Inr ppRaw"
      "TokenServicesFactory (tcc w) ppRaw = Inr (ppm, validator)" "r = Inr (Some validator)"
      "v = w\<lparr>tcc := (tcc w)\<lparr>initOnce := True, ccPPM := Some ppm, ccValidator := Some validator\<rparr>\<rparr>"
proof (cases "initOnce (tcc w)")
  case True
  with assms have "r = Inr (ccValidator (tcc w)) \<and> v = w" by (auto simp: GetValidator_def)
  with ran True show ?thesis by blast
next
  case f: False
  show ?thesis
  proof (cases "rbind (Params env builtIn) (TokenServicesFactory (tcc w))")
    case (Inl e)
    then have "Params env builtIn = Inl e
        \<or> (\<exists>raw. Params env builtIn = Inr raw \<and> TokenServicesFactory (tcc w) raw = Inl e)"
      by (simp add: rbind_eq_Inl)
    then have "GetValidator env builtIn w = (Inl e, w\<lparr>tcc := (tcc w)\<lparr>initOnce := True\<rparr>\<rparr>)"
      using f by (elim disjE exE conjE) (simp_all add: GetValidator_def Initialize_def)
    then have "r = Inl e \<and> v = w\<lparr>tcc := (tcc w)\<lparr>initOnce := True\<rparr>\<rparr>" using assms by auto
    with failed f Inl show ?thesis by blast
  next
    case (Inr p)
    then obtain raw ppm val where "Params env builtIn = Inr raw" "TokenServicesFactory (tcc w) raw = Inr (ppm, val)"
      by (cases p) (auto simp: rbind_eq_Inr)
    note p = this
    then have "GetValidator env builtIn w = (Inr (Some val),
        w\<lparr>tcc := (tcc w)\<lparr>initOnce := True, ccPPM := Some ppm, ccValidator := Some val\<rparr>\<rparr>)"
      using f by (simp add: GetValidator_def Initialize_def)
    then have "r = Inr (Some val) \<and> v = w\<lparr>tcc := (tcc w)\<lparr>initOnce := True, ccPPM := Some ppm, ccValidator := Some val\<rparr>\<rparr>"
      using assms by auto
    with new [OF f p] show ?thesis by blast
  qed
qed

text \<open>
  How the part of the state behind \<open>sync.Once\<close> may change: once the initialization has run
  it stays as it is; before that, the only change is to a pair that the factory returned, or
  to none at all.
\<close>

definition init_step :: "'s TokenChaincode \<Rightarrow> 's TokenChaincode \<Rightarrow> bool" where
  "init_step c d \<longleftrightarrow> TokenServicesFactory d = TokenServicesFactory c \<and>
     ((initOnce d = initOnce c \<and> ccValidator d = ccValidator c \<and> ccPPM d = ccPPM c)
      \<or> (\<not> initOnce c \<and> initOnce d \<and>
          ((ccValidator d = ccValidator c \<and> ccPPM d = ccPPM c)
           \<or> (\<exists>raw ppm val. TokenServicesFactory c raw = Inr (ppm, val)
                \<and> ccPPM d = Some ppm \<and> ccValidator d = Some val))))"

lemma init_step_refl [simp]: "init_step c c"
  by (simp add: init_step_def)

lemma init_step_once:
  assumes "init_step c d" and "initOnce c"
  shows "initOnce d \<and> ccValidator d = ccValidator c \<and> ccPPM d = ccPPM c
    \<and> TokenServicesFactory d = TokenServicesFactory c"
  using assms by (simp add: init_step_def)

lemma init_step_cong:
  assumes "initOnce c = initOnce c'" and "ccValidator c = ccValidator c'" and "ccPPM c = ccPPM c'"
    and "TokenServicesFactory c = TokenServicesFactory c'"
  shows "init_step c d = init_step c' d" "init_step a c = init_step a c'"
  using assms by (simp_all add: init_step_def)

lemma init_step_trans:
  assumes "init_step a b" and "init_step b c"
  shows "init_step a c"
proof (cases "initOnce b")
  case True
  with init_step_once [OF assms(2)] assms(1) init_step_cong(2) [of c b a] show ?thesis by simp
next
  case False
  then have "initOnce b = initOnce a \<and> ccValidator b = ccValidator a \<and> ccPPM b = ccPPM a
      \<and> TokenServicesFactory b = TokenServicesFactory a"
    using assms(1) by (auto simp: init_step_def)
  with assms(2) init_step_cong(1) [of b a c] show ?thesis by simp
qed

definition steady :: "('s, 'a) wop \<Rightarrow> bool" where
  "steady m \<longleftrightarrow> (\<forall>w r v. m w = (r, v) \<longrightarrow> init_step (tcc w) (tcc v))"

lemma steadyI: "(\<And>w r v. m w = (r, v) \<Longrightarrow> init_step (tcc w) (tcc v)) \<Longrightarrow> steady m"
  by (simp add: steady_def)

lemma steadyD: "steady m \<Longrightarrow> m w = (r, v) \<Longrightarrow> init_step (tcc w) (tcc v)"
  by (simp add: steady_def)

lemma steady_obind [intro]:
  assumes "steady m" and "\<And>a. steady (f a)"
  shows "steady (obind m f)"
  using assms init_step_trans
  by (fastforce simp: steady_def obind_def split: prod.splits sum.splits)

lemma steady_or_fail [intro]:
  assumes "steady m" and "\<And>a. steady (f a)"
  shows "steady (or_fail prefix m f)"
  using assms init_step_trans
  by (fastforce simp: steady_def or_fail_def split: prod.splits sum.splits error.splits)

lemma steady_otry [intro]: "steady m \<Longrightarrow> steady (otry m)"
  by (fastforce simp: steady_def otry_def split: prod.splits sum.splits error.splits)

lemma steady_simple [intro, simp]:
  "steady (oret a)" "steady (olift r)" "steady (\<lambda>w. (g w, w))" "steady (on_sim m)" "steady (emit ev)"
  "steady (EmitKey agent ev)" "steady (with_translator stub txID f)"
  by (auto simp: steady_def go_simps)

lemma steady_deferred [intro]: "steady d \<Longrightarrow> steady m \<Longrightarrow> steady (deferred d m)"
  using init_step_trans by (fastforce simp: steady_def deferred_def split: prod.splits sum.splits)

lemma steady_GetValidator [intro, simp]: "steady (GetValidator env builtIn)"
proof (rule steadyI)
  fix w v :: "'a world" and r assume "GetValidator env builtIn w = (r, v)"
  then show "init_step (tcc w) (tcc v)"
    by (cases rule: GetValidator_cases) (auto simp: init_step_def)
qed

lemma steady_NewMetricsAgent [intro, simp]: "steady (NewMetricsAgent env f)"
proof (rule steadyI)
  fix w v :: "'a world" and r assume "NewMetricsAgent env f w = (r, v)"
  from NewMetricsAgent_sim [OF this] show "init_step (tcc w) (tcc v)" by (simp add: init_step_def)
qed

lemma steady_ProcessRequest [intro, simp]: "steady (ProcessRequest sha256 env raw stub)"
  unfolding ProcessRequest_def by (intro steady_obind steady_or_fail steady_otry steady_simple steady_GetValidator)

lemma steady_queries [intro, simp]:
  "steady (QueryPublicParams stub)" "steady (Chaincode_QueryTokens env ids stub)"
  "steady (Chaincode_AreTokensSpent env ids stub)"
  unfolding QueryPublicParams_def Chaincode_QueryTokens_def Chaincode_AreTokensSpent_def Let_def
  by (auto intro!: steady_obind steady_or_fail split: sum.split)

lemma steady_call_function [intro, simp]: "steady (call_function sha256 env stub f params)"
  unfolding call_function_def by (auto intro!: steady_or_fail split: option.split list.split)

lemma steady_handle [intro, simp]: "steady (handle sha256 env stub)"
  unfolding handle_def by (auto intro!: steady_or_fail steady_deferred steady_obind split: list.split)

lemma Invoke_init_step: "Invoke sha256 env stub w = (res, v) \<Longrightarrow> init_step (tcc w) (tcc v)"
  using steadyD [OF steady_handle] by (fastforce simp: Invoke_def split: prod.splits sum.splits)

lemma Init_init_step: "Init env stub w = (r, v) \<Longrightarrow> init_step (tcc w) (tcc v)"
  unfolding Init_def by (erule steadyD [rotated]) (intro steady_or_fail steady_simple)

end
