(* ===== verification/Chaincode_Properties.thy ===== *)
theory Chaincode_Properties
  imports Chaincode Fab_Properties
begin

text \<open>
  What the chaincode guarantees: which validator it runs, what an invocation that succeeds
  has checked and written, and what queries answer.
\<close>

section \<open>The translator over a snapshot\<close>

text \<open>The writes of the actions of a request, in order, and their conditions on one state.\<close>

fun request_writes :: "string \<Rightarrow> u64 \<Rightarrow> action list \<Rightarrow> (string \<times> bytes) list" where
  "request_writes txID c [] = []"
| "request_writes txID c (a # acts) =
     action_writes txID c a @ request_writes txID (c + of_nat (action_outputs a)) acts"

fun request_admissible :: "string \<Rightarrow> u64 \<Rightarrow> ledger \<Rightarrow> action list \<Rightarrow> bool" where
  "request_admissible txID c L [] \<longleftrightarrow> True"
| "request_admissible txID c L (a # acts) \<longleftrightarrow>
     admissible txID c L a \<and> request_admissible txID (c + of_nat (action_outputs a)) L acts"

locale translator_snapshot = rwset_snapshot "RWSet w" "namespace w" rd wr
  for w :: "'s Translator" and rd wr

sublocale translator_snapshot \<subseteq> tr: translator_store w rd wr
  by unfold_locales

context translator_snapshot begin

text \<open>Whatever the translator does, reads go on seeing the same state.\<close>

definition keeps :: "('s, 'a) top \<Rightarrow> bool" where
  "keeps m \<longleftrightarrow> (\<forall>st r t. m st = (r, t) \<longrightarrow> rd (store t) = rd (store st))"

lemma keepsD: "keeps m \<Longrightarrow> m st = (r, t) \<Longrightarrow> rd (store t) = rd (store st)"
  by (simp add: keeps_def)

lemma keeps_quiet: "tr.quiet m \<Longrightarrow> keeps m"
  using tr.quietD(1) by (auto simp: keeps_def)

lemma keeps_set [simp]: "keeps (set_state w k v)"
  by (auto simp: keeps_def on_store_def split: prod.splits dest: Set_rd)

lemma keeps_delete [simp]: "keeps (delete_state w k)"
  by (auto simp: keeps_def on_store_def split: prod.splits dest: Delete_rd)

lemma keeps_read [simp]: "keeps (oret a)" "keeps (olift r)" "keeps (get_state w k)" "keeps (ocheck b msg)"
  by (simp_all add: keeps_quiet)

lemma keeps_add_counter [simp]: "keeps (add_counter n)"
  by (auto simp: keeps_def add_counter_def)

lemma keeps_obind [simp]:
  assumes "keeps m" and "\<And>a. keeps (f a)"
  shows "keeps (obind m f)"
  using assms by (fastforce simp: keeps_def obind_def split: prod.splits sum.splits)

lemma keeps_ofor [simp]: "(\<And>x. keeps (f x)) \<Longrightarrow> keeps (ofor f xs)"
  by (induction xs) auto

lemma keeps_if [simp]: "keeps m \<Longrightarrow> keeps m' \<Longrightarrow> keeps (if b then m else m')"
  by simp

lemma keeps_state: "(\<And>i. keeps (m i)) \<Longrightarrow> keeps (\<lambda>st. m (g st) st)"
  by (auto simp: keeps_def)

lemma keeps_metadata [simp]: "keeps (store_metadata w create_key occ md)"
  unfolding store_metadata_def by (rule keeps_ofor) (simp add: case_prod_beta)

lemma keeps_commit: "keeps (commitAction w a)"
proof (cases a)
  case (IssueAction i)
  have "keeps (\<lambda>st. obind (olift (CreateTokenKey (TxID w) (output_index st j))) (\<lambda>outputID.
         set_state w outputID out) st)" for j out
    by (rule keeps_state [where g = "\<lambda>st. output_index st j"])
      (intro keeps_obind keeps_read keeps_set)
  then show ?thesis
    by (simp add: IssueAction commitAction_def commitIssueAction_def case_prod_beta)
next
  case (TransferAction t)
  have "keeps (\<lambda>st. obind (olift (CreateTokenKey (TxID w) (output_index st j))) (\<lambda>outputID.
           obind (olift (taSerializeOutputAt t j)) (\<lambda>raw. set_state w outputID raw)) st)" for j
    by (rule keeps_state [where g = "\<lambda>st. output_index st j"])
      (intro keeps_obind keeps_read keeps_set)
  then show ?thesis
    by (simp add: TransferAction commitAction_def commitTransferAction_def spendTokens_def)
qed (simp_all add: commitAction_def commitSetupAction_def)

lemma keeps_Write: "keeps (Write w a)"
  using keeps_quiet [OF tr.quiet_checkAction] keeps_commit
  by (simp add: Write_def checkProcess_def commitProcess_def)

text \<open>The whole request: all actions are checked against the same state, written in order.\<close>

lemma Write_all:
  assumes "ofor (Write w) acts st = (Inr (), t)"
  shows "request_admissible (TxID w) (counter st) (rd (store st)) acts
    \<and> wr (store t) = apply_writes (request_writes (TxID w) (counter st) acts) (wr (store st))
    \<and> rd (store t) = rd (store st)"
  using assms
proof (induction acts arbitrary: st)
  case (Cons a acts)
  from Cons.prems obtain u where u: "Write w a st = (Inr (), u)" and r: "ofor (Write w) acts u = (Inr (), t)"
    by (auto simp: go_simps)
  note eff = tr.Write_effect [OF u] keepsD [OF keeps_Write u]
  from Cons.IH [OF r] eff show ?case by simp
qed simp

lemma Commit_effect:
  assumes "CommitTokenRequest sha256 w raw False st = (Inr (), t)"
  shows "\<exists>k. CreateTokenRequestKey (TxID w) = Inr k \<and> rd (store st) k = []
    \<and> wr (store t) = (wr (store st))(k := raw)"
proof -
  from assms obtain k s where k: "CreateTokenRequestKey (TxID w) = Inr k"
    and g: "get_state w k st = (Inr [], s)" and m: "set_state w k raw s = (Inr (), t)"
    by (auto simp: CommitTokenRequest_def go_simps simp del: split_paired_Ex)
  note q = tr.quietD [OF tr.quiet_get g]
  have "rd (store st) k = []" using tr.get_state_rd [OF g] by simp
  moreover have "wr (store t) = (wr (store st))(k := raw)"
    using tr.writesD [OF tr.writes_set m refl] q by simp
  ultimately show ?thesis using k by blast
qed

end

interpretation fabric_translator: translator_snapshot "chaincode_translator txID" committed write_set
  for txID
proof (rule translator_snapshot.intro)
  show "rwset_snapshot (RWSet (chaincode_translator txID)) (namespace (chaincode_translator txID))
      committed write_set"
    using fabric.snapshot.rwset_snapshot_axioms by (simp add: chaincode_translator_def)
qed

context chaincode_stub begin

lemma snapshot_rws: "rwset_snapshot (rwsWrapper S) ns rd wr"
  by (rule snapshot.rwset_snapshot_axioms)

end

text \<open>The translator that the chaincode makes for a transaction.\<close>

abbreviation stub_translator :: "'s ChaincodeStub \<Rightarrow> string \<Rightarrow> 's Translator" where
  "stub_translator stub txID \<equiv> \<lparr>RWSet = rwsWrapper stub, TxID = txID, namespace = []\<rparr>"

lemma stub_translator_snapshot:
  "chaincode_stub stub rd wr \<Longrightarrow> translator_snapshot (stub_translator stub txID) rd wr"
  by (rule translator_snapshot.intro) (simp add: chaincode_stub.snapshot_rws)

lemma write_actions_effect:
  assumes "chaincode_stub stub rd wr"
    and "write_actions sha256 acts raw (stub_translator stub txID) \<lparr>counter = 0, store = s\<rparr> = (Inr (), t)"
  shows "request_admissible txID 0 (rd s) acts
    \<and> (\<exists>k. CreateTokenRequestKey txID = Inr k \<and> rd s k = []
        \<and> wr (store t) = (apply_writes (request_writes txID 0 acts) (wr s))(k := raw))"
proof -
  let ?w = "stub_translator stub txID"
  from assms(2) obtain u where o': "ofor (Write ?w) acts \<lparr>counter = 0, store = s\<rparr> = (Inr (), u)"
    and c: "CommitTokenRequest sha256 ?w raw False u = (Inr (), t)"
    by (auto simp: write_actions_def go_simps ofor_prefixed)
  note sn = stub_translator_snapshot [OF assms(1), of txID]
  from translator_snapshot.Write_all [OF sn o'] translator_snapshot.Commit_effect [OF sn c]
  show ?thesis by simp
qed

section \<open>The services of the chaincode\<close>

text \<open>
  The states that the chaincode can be in: as \<open>main\<close> makes it, and after any call of its
  entry points, on any ledger and in any environment.
\<close>

inductive cc_reachable :: "params_codec \<Rightarrow> action drivers \<Rightarrow> 's TokenChaincode \<Rightarrow> bool"
  for C ds where
  start: "cc_reachable C ds (new_chaincode C ds enabled server)"
| invoke: "cc_reachable C ds (tcc w) \<Longrightarrow> Invoke sha256 env stub w = (res, v) \<Longrightarrow> cc_reachable C ds (tcc v)"
| init: "cc_reachable C ds (tcc w) \<Longrightarrow> Init env stub w = (r, v) \<Longrightarrow> cc_reachable C ds (tcc v)"

definition services_ok :: "params_codec \<Rightarrow> action drivers \<Rightarrow> 's TokenChaincode \<Rightarrow> bool" where
  "services_ok C ds c \<longleftrightarrow> TokenServicesFactory c = main_factory C ds
     \<and> (ccValidator c = None \<and> ccPPM c = None
        \<or> initOnce c \<and> (\<exists>raw m V. NewServicesFromPublicParams C ds raw = Inr (m, V)
            \<and> ccPPM c = Some (PPM_GraphHiding m) \<and> ccValidator c = Some (Validator_UnmarshallAndVerify V)))"

lemma services_ok_step:
  assumes "services_ok C ds c" and "init_step c d"
  shows "services_ok C ds d"
proof -
  have f: "TokenServicesFactory d = main_factory C ds" "TokenServicesFactory c = main_factory C ds"
    using assms by (auto simp: services_ok_def init_step_def)
  show ?thesis
  proof (cases "ccValidator d = ccValidator c \<and> ccPPM d = ccPPM c")
    case True
    moreover have "initOnce c \<Longrightarrow> initOnce d" using assms(2) by (auto simp: init_step_def)
    ultimately show ?thesis using assms(1) f by (auto simp: services_ok_def)
  next
    case False
    then obtain raw ppm val where n: "initOnce d" "main_factory C ds raw = Inr (ppm, val)"
      "ccPPM d = Some ppm" "ccValidator d = Some val"
      using assms(2) f by (auto simp: init_step_def)
    then obtain m V where "NewServicesFromPublicParams C ds raw = Inr (m, V)"
      "ppm = PPM_GraphHiding m" "val = Validator_UnmarshallAndVerify V"
      by (auto simp: main_factory_def go_simps)
    with n f show ?thesis by (auto simp: services_ok_def)
  qed
qed

lemma cc_reachable_ok: "cc_reachable C ds c \<Longrightarrow> services_ok C ds c"
proof (induction rule: cc_reachable.induct)
  case (start enabled server)
  show ?case by (simp add: services_ok_def new_chaincode_def)
next
  case (invoke w sha256 env stub res v)
  then show ?case using services_ok_step Invoke_init_step by blast
next
  case (init w env stub r v)
  then show ?case using services_ok_step Init_init_step by blast
qed

section \<open>Invocations\<close>

text \<open>The steps of processing a request that end in success.\<close>

lemma ProcessRequest_steps:
  assumes "ProcessRequest sha256 env raw stub w = (Inr (Success b), v)"
  obtains val u acts s t where "GetValidator env builtInParams w = (Inr (Some val), u)"
    "val (StubGetState stub) (GetTxID stub) raw (sim u) = (Inr acts, s)"
    "write_actions sha256 acts raw (stub_translator stub (GetTxID stub)) \<lparr>counter = 0, store = s\<rparr> = (Inr (), t)"
    "v = u\<lparr>sim := store t\<rparr>" "b = []"
  using assms
  by (auto simp: ProcessRequest_def or_fail_eq_Success obind_eq_Inr otry_eq emit_eq on_sim_eq
      with_translator_eq deref_eq)

lemma GetValidator_sim: "GetValidator env builtIn w = (r, v) \<Longrightarrow> sim v = sim w"
  by (erule GetValidator_cases) simp_all

lemma ProcessRequest_effect:
  assumes "chaincode_stub stub rd wr" and "services_ok C ds (tcc w)"
    and "ProcessRequest sha256 env raw stub w = (Inr (Success b), v)"
  shows "\<exists>params m V acts. NewServicesFromPublicParams C ds params = Inr (m, V)
    \<and> ccValidator (tcc v) = Some (Validator_UnmarshallAndVerify V)
    \<and> vVerifyTokenRequestFromRaw V (Some (\<lambda>k. fst (StubGetState stub k (sim w)))) (GetTxID stub) raw = Inr acts
    \<and> request_admissible (GetTxID stub) 0 (rd (sim w)) acts
    \<and> (\<exists>k. CreateTokenRequestKey (GetTxID stub) = Inr k \<and> rd (sim w) k = []
        \<and> wr (sim v) = (apply_writes (request_writes (GetTxID stub) 0 acts) (wr (sim w)))(k := raw))"
proof -
  obtain val u acts s t where gv: "GetValidator env builtInParams w = (Inr (Some val), u)"
    and ver: "val (StubGetState stub) (GetTxID stub) raw (sim u) = (Inr acts, s)"
    and wa: "write_actions sha256 acts raw (stub_translator stub (GetTxID stub)) \<lparr>counter = 0, store = s\<rparr> = (Inr (), t)"
    and v: "v = u\<lparr>sim := store t\<rparr>"
    by (rule ProcessRequest_steps [OF assms(3)])
  have ok: "services_ok C ds (tcc u)"
    using services_ok_step [OF assms(2)] steadyD [OF steady_GetValidator gv] by blast
  have val: "ccValidator (tcc u) = Some val" using gv by (cases rule: GetValidator_cases) auto
  with ok obtain params m V where V: "NewServicesFromPublicParams C ds params = Inr (m, V)"
    and val': "val = Validator_UnmarshallAndVerify V" by (auto simp: services_ok_def)
  have s: "s = sim w" and acc: "vVerifyTokenRequestFromRaw V (Some (\<lambda>k. fst (StubGetState stub k (sim w)))) (GetTxID stub) raw = Inr acts"
    using ver val' GetValidator_sim [OF gv] by (auto simp: Validator_UnmarshallAndVerify_def)
  from write_actions_effect [OF assms(1) wa] V val val' acc show ?thesis
    unfolding v s by (intro exI [of _ params] exI [of _ m] exI [of _ V] exI [of _ acts]) auto
qed

section \<open>An invocation, for the examples\<close>

definition example_stub :: "simulation ChaincodeStub" where
  "example_stub = stub.extend shim_stub
     \<lparr>GetArgs = [InvokeFunction], GetTransient = Inr [''token_request'' \<mapsto> ''R''], GetTxID = ''tx''\<rparr>"

definition example_cc_env :: cc_env where
  "example_cc_env =
     \<lparr>Getenv = (\<lambda>_. ''pp.json''), ReadFile = (\<lambda>_. Inr ''spp''), NullAgent = (\<lambda>_. Inr ()),
      NewStatsdAgent = (\<lambda>_ _. (None, Some (Err ''statsd''))),
      unmarshal_ids = (\<lambda>_. Inr []), unmarshal_keys = (\<lambda>_. Inr []),
      marshal_outputs = (\<lambda>_. Inr ''null''), marshal_flags = (\<lambda>_. Inr ''[]'')\<rparr>"

definition example_setting :: "FabTransferAction \<Rightarrow> fab_setting" where
  "example_setting t =
     \<lparr>fsCodec = example_codec, fsEnv = example_fab t, fsMsp = (\<lambda>i. Inr (\<lambda>now msg sigma. Inr ())),
      fsSigClock = (\<lambda>n. 0), fsHtlcClock = (\<lambda>n. 0)\<rparr>"

definition example_drivers :: "FabTransferAction \<Rightarrow> action drivers" where
  "example_drivers t = [(PublicParameters, fab_driver (example_setting t))]"

definition example_world :: "FabTransferAction \<Rightarrow> ledger \<Rightarrow> simulation world" where
  "example_world t L =
     \<lparr>tcc = new_chaincode example_codec (example_drivers t) False [],
      sim = \<lparr>committed = L, write_set = L\<rparr>\<rparr>"

lemma example_stub_simps [simp]:
  "StubGetState example_stub = StubGetState shim_stub" "PutState example_stub = PutState shim_stub"
  "DelState example_stub = DelState shim_stub" "GetArgs example_stub = [InvokeFunction]"
  "GetTransient example_stub = Inr [''token_request'' \<mapsto> ''R'']" "GetTxID example_stub = ''tx''"
  by (simp_all add: example_stub_def stub.extend_def shim_stub_def)

lemma example_rws [simp]: "rwsWrapper example_stub = rwsWrapper shim_stub"
  by (simp add: rwsWrapper_defs fun_eq_iff)

lemma example_chaincode_stub: "chaincode_stub example_stub committed write_set"
  by unfold_locales (auto simp: shim_stub_def)

lemma example_reachable: "cc_reachable example_codec (example_drivers t) (tcc (example_world t L))"
  by (simp add: example_world_def cc_reachable.start)

lemma example_params_read: "Params example_cc_env builtInParams = Inr ''spp''"
  by (simp add: Params_def ReadParamsFromFile_def example_cc_env_def base64_EncodeToString_Nil base64_roundtrip)

lemma example_services:
  "\<exists>m. NewServicesFromPublicParams example_codec (example_drivers t) ''spp''
     = Inr (m, fab_validator (example_fab t) (example_validator t)) \<and> PPM_GraphHiding m = Inr False"
proof -
  have c: "fsCodec (example_setting t) = example_codec" by (simp add: example_setting_def)
  have ok: "PublicParams_Validate Setup = Inr ()"
    by (simp add: Setup_def PublicParams_Validate_def ComputeMaxTokenValue_def DefaultPrecision_def)
  have "map_of (example_drivers t) PublicParameters = Some (fab_driver (example_setting t))"
    by (simp add: example_drivers_def)
  from services_fab [OF this, unfolded c, OF example_codec_laws example_serialized]
  have "NewServicesFromPublicParams example_codec (example_drivers t) ''spp''
      = Inr (fab_ppm example_codec None \<lparr>ppmPP = Some Setup, ppmPPLabel = []\<rparr>,
             fab_validator (example_fab t) (example_validator t))"
    using ok by (simp add: Setup_def [THEN arg_cong, of Label] NewValidator_def example_validator_def example_setting_def)
  then show ?thesis
    by (simp add: PPM_GraphHiding_def fab_ppm_def PublicParamsManager_PublicParameters_def fab_pp_def
        PublicParams_GraphHiding_def)
qed

text \<open>An invocation whose request is accepted and written answers with success.\<close>

lemma example_invocation:
  assumes "VerifyTokenRequestFromRaw (example_fab t) (example_validator t) (Some (\<lambda>k. Inr (L k))) ''tx'' ''R'' = Inr acts"
    and "write_actions sha256 (map (to_action (example_fab t)) acts) ''R''
      (stub_translator example_stub ''tx'') \<lparr>counter = 0, store = \<lparr>committed = L, write_set = L\<rparr>\<rparr> = (Inr (), u)"
  shows "\<exists>v. Invoke sha256 example_cc_env example_stub (example_world t L) = (Success [], v) \<and> sim v = store u"
proof -
  let ?V = "fab_validator (example_fab t) (example_validator t)"
  obtain m where m: "NewServicesFromPublicParams example_codec (example_drivers t) ''spp'' = Inr (m, ?V)"
    using example_services by blast
  let ?val = "Validator_UnmarshallAndVerify ?V :: simulation cc_validator"
  define w1 where "w1 = (example_world t L)\<lparr>tcc := (tcc (example_world t L))\<lparr>MetricsAgent := Some (\<lambda>_. Inr ())\<rparr>\<rparr>"
  define w2 where "w2 = w1\<lparr>tcc := (tcc w1)\<lparr>initOnce := True, ccPPM := Some (PPM_GraphHiding m), ccValidator := Some ?val\<rparr>\<rparr>"
  have a: "NewMetricsAgent example_cc_env InvokeFunction (example_world t L) = (Inr (Some (\<lambda>_. Inr ())), w1)"
    by (simp add: NewMetricsAgent_def example_world_def new_chaincode_def example_cc_env_def w1_def)
  have g: "GetValidator example_cc_env builtInParams w1 = (Inr (Some ?val), w2)"
    using m example_params_read
    by (simp add: GetValidator_def Initialize_def w1_def w2_def example_world_def new_chaincode_def main_factory_def)
  have e1: "MetricsAgent (tcc w1) = Some (\<lambda>_. Inr ())" and e2: "MetricsAgent (tcc w2) = Some (\<lambda>_. Inr ())"
    by (simp_all add: w1_def w2_def)
  have "sim w2 = \<lparr>committed = L, write_set = L\<rparr>"
    by (simp add: w2_def w1_def example_world_def)
  with assms(1) have "?val (StubGetState example_stub) ''tx'' ''R'' (sim w2)
      = (Inr (map (to_action (example_fab t)) acts), \<lparr>committed = L, write_set = L\<rparr>)"
    by (simp add: Validator_UnmarshallAndVerify_def fab_validator_def shim_stub_def)
  note ver = this
  have "emit ev w1 = (Inr (), w1)" "emit ev w2 = (Inr (), w2)" "emit ev (w2\<lparr>sim := s\<rparr>) = (Inr (), w2\<lparr>sim := s\<rparr>)" for ev s
    using e1 e2 by (simp_all add: emit_eq)
  then have "ProcessRequest sha256 example_cc_env ''R'' example_stub w1 = (Inr (Success []), w2\<lparr>sim := store u\<rparr>)"
    using g ver assms(2)
    by (simp add: ProcessRequest_def obind_def otry_def or_fail_def on_sim_def with_translator_def New_def
        \<open>sim w2 = _\<close>)
  then have "handle sha256 example_cc_env example_stub (example_world t L) = (Inr (Success []), w2\<lparr>sim := store u\<rparr>)"
    using a by (simp add: handle_def or_fail_def obind_def EmitKey_def deferred_def call_function_def)
  then show ?thesis by (simp add: Invoke_def)
qed

lemma tokens_differ: "token5 \<noteq> token10"
proof -
  have "qval (tokQuantity token5) = 5" "qval (tokQuantity token10) = 10"
    by (simp_all add: example_tokens del: Hex.simps)
  then show ?thesis by auto
qed

lemma pay_written:
  assumes "CreateTokenKey ''tx'' 0 = Inr k0" and "CreateTokenRequestKey ''tx'' = Inr kr"
    and "L k \<noteq> []" and "L k0 = []" and "L kr = []"
  shows "\<exists>u. write_actions sha256 [to_action (example_fab (pay_from k)) (FabTransfer (pay_from k))] ''R''
      (stub_translator example_stub ''tx'') \<lparr>counter = 0, store = \<lparr>committed = L, write_set = L\<rparr>\<rparr>
      = (Inr (), u) \<and> write_set (store u) = L(k0 := ''T'', k := [], kr := ''R'')"
proof -
  have ne: "k0 \<noteq> k" "kr \<noteq> k" using assms by auto
  show ?thesis
    using assms ne
    by (simp add: write_actions_def prefixed_def CommitTokenRequest_def
        Write_def checkProcess_def commitProcess_def checkAction_def commitAction_def
        checkTransfer_def commitTransferAction_def checkTokenDoesNotExist_def spendTokens_def
        store_metadata_def add_counter_def obind_def on_store_def output_index_def ocheck_def
        to_action_def pay_from_def rwsWrapper_defs shim_stub_def
        TransferAction_NumOutputs_def TransferAction_IsRedeemAt_def TransferAction_SerializeOutputAt_def
        TransferAction_GetInputs_def TransferAction_IsGraphHiding_def Output_IsRedeem_def
        Output_Serialize_def deref_def owner_raw_def token5_def [THEN arg_cong, of tokOwner]
        example_fab_def env.extend_def tokens_differ)
qed

lemma pay_invoked:
  assumes "L k \<noteq> []" and "L k \<noteq> ''D''"
    and "CreateTokenKey ''tx'' 0 = Inr k0" and "CreateTokenRequestKey ''tx'' = Inr kr"
    and "L k0 = []" and "L kr = []"
  shows "\<exists>v. Invoke sha256 example_cc_env example_stub (example_world (pay_from k) L) = (Success [], v)
    \<and> write_set (sim v) = L(k0 := ''T'', k := [], kr := ''R'')"
proof -
  obtain u where "write_actions sha256 [to_action (example_fab (pay_from k)) (FabTransfer (pay_from k))] ''R''
      (stub_translator example_stub ''tx'') \<lparr>counter = 0, store = \<lparr>committed = L, write_set = L\<rparr>\<rparr>
      = (Inr (), u)" "write_set (store u) = L(k0 := ''T'', k := [], kr := ''R'')"
    using pay_written [where L = L, OF assms(3,4,1,5,6)] by blast
  with example_invocation [OF pay_accepted [where L = L, OF assms(1,2)], of sha256 u] show ?thesis by fastforce
qed

lemma example_keys:
  obtains k0 kr where "CreateTokenKey ''tx'' 0 = Inr k0" "CreateTokenRequestKey ''tx'' = Inr kr"
    "k0 \<noteq> ''k''" "kr \<noteq> ''k''"
proof -
  have v: "valid_attribute ''tx''" by (simp add: valid_attribute_ascii)
  then obtain k0 where k0: "CreateTokenKey ''tx'' 0 = Inr k0" using CreateTokenKey_total by blast
  obtain kr where kr: "CreateTokenRequestKey ''tx'' = Inr kr"
    using v by (auto simp: CreateTokenRequestKey_def CreateCompositeKey_eq valid_attribute_ascii key_consts)
  have "k0 \<noteq> ''k''" "kr \<noteq> ''k''"
    using k0 kr composite_key_zero by (fastforce simp: CreateTokenKey_def CreateTokenRequestKey_def)+
  with k0 kr show thesis by (rule that)
qed

lemma plain_invoked:
  "\<exists>k0 kr v. CreateTokenKey ''tx'' 0 = Inr k0 \<and> CreateTokenRequestKey ''tx'' = Inr kr
    \<and> Invoke sha256 example_cc_env example_stub (example_world plain_transfer example_ledger) = (Success [], v)
    \<and> write_set (sim v) = example_ledger(k0 := ''T'', ''k'' := [], kr := ''R'')"
proof -
  obtain k0 kr where k: "CreateTokenKey ''tx'' 0 = Inr k0" "CreateTokenRequestKey ''tx'' = Inr kr"
    "k0 \<noteq> ''k''" "kr \<noteq> ''k''" by (rule example_keys)
  then have "example_ledger k0 = []" "example_ledger kr = []" by (simp_all add: example_ledger_def)
  from pay_invoked [where L = example_ledger and k = "''k''", OF _ _ k(1,2) this] k show ?thesis
    unfolding plain_pay by (simp add: example_ledger_def)
qed

section \<open>Properties\<close>

text \<open>
  The services of the chaincode: in every state that its entry points can bring it to,
  on any ledger and in any environment, it has either no services or those that the registry
  of drivers made from one text of public parameters, whose manager the registry validated;
  and a further invocation does not change the services once an initialization has run.
\<close>
theorem chaincode_services:
  assumes "cc_reachable C ds (tcc w)" and "Invoke sha256 env stub w = (res, v)"
  shows "(ccValidator (tcc v) = None \<and> ccPPM (tcc v) = None
      \<or> (\<exists>raw m V. NewServicesFromPublicParams C ds raw = Inr (m, V) \<and> PPM_Validate m = Inr ()
          \<and> ccPPM (tcc v) = Some (PPM_GraphHiding m)
          \<and> ccValidator (tcc v) = Some (Validator_UnmarshallAndVerify V)))
    \<and> (initOnce (tcc w) \<longrightarrow> ccValidator (tcc v) = ccValidator (tcc w) \<and> ccPPM (tcc v) = ccPPM (tcc w))"
proof -
  have "services_ok C ds (tcc v)"
    by (rule cc_reachable_ok [OF cc_reachable.invoke [OF assms]])
  moreover have "NewServicesFromPublicParams C ds raw = Inr (m, V) \<Longrightarrow> PPM_Validate m = Inr ()" for raw m V
    by (auto simp: NewServicesFromPublicParams_def go_simps PPM_Validate_def)
  ultimately show ?thesis
    using init_step_once [OF Invoke_init_step [OF assms(2)]] unfolding services_ok_def by blast
qed

lemma chaincode_services_witness:
  "\<exists>v. Invoke (\<lambda>b. b) example_cc_env example_stub (example_world plain_transfer example_ledger) = (Success [], v)
    \<and> (ccPPM (tcc v) = None \<longleftrightarrow> ccValidator (tcc v) = None)"
proof -
  obtain v where v: "Invoke (\<lambda>b. b) example_cc_env example_stub (example_world plain_transfer example_ledger) = (Success [], v)"
    using plain_invoked by blast
  from chaincode_services [OF example_reachable v, THEN conjunct1]
  have "ccPPM (tcc v) = None \<longleftrightarrow> ccValidator (tcc v) = None"
    by (elim disjE exE conjE) simp_all
  with v show ?thesis by (intro exI [of _ v] conjI)
qed

text \<open>
  C4: an invocation that answers with success: the request comes from the transient field,
  the validator of the chaincode accepted it on the committed state, all its actions satisfy
  the conditions of the abstract ledger on that same state, no request was recorded for the
  transaction, and the write set is what the actions write in order and then the record of
  the request. The stub is any that does what Fabric documents.
\<close>
theorem invocation_effect:
  assumes "chaincode_stub stub rd wr" and "cc_reachable C ds (tcc w)"
    and "GetArgs stub = InvokeFunction # params"
    and "Invoke sha256 env stub w = (Success b, v)"
  shows "params = [] \<and> (\<exists>t raw V acts. GetTransient stub = Inr t \<and> t ''token_request'' = Some raw
    \<and> ccValidator (tcc v) = Some (Validator_UnmarshallAndVerify V)
    \<and> vVerifyTokenRequestFromRaw V (Some (\<lambda>k. fst (StubGetState stub k (sim w)))) (GetTxID stub) raw = Inr acts
    \<and> request_admissible (GetTxID stub) 0 (rd (sim w)) acts
    \<and> (\<exists>k. CreateTokenRequestKey (GetTxID stub) = Inr k \<and> rd (sim w) k = []
        \<and> wr (sim v) = (apply_writes (request_writes (GetTxID stub) 0 acts) (wr (sim w)))(k := raw)))"
proof -
  obtain agent u where a: "NewMetricsAgent env InvokeFunction w = (Inr agent, u)"
    and c: "call_function sha256 env stub InvokeFunction params u = (Inr (Success b), v)"
    by (rule Invoke_steps [OF assms(4,3)])
  have u: "sim u = sim w" and ok: "services_ok C ds (tcc u)"
    using NewMetricsAgent_sim [OF a] services_ok_step [OF cc_reachable_ok [OF assms(2)] steadyD [OF steady_NewMetricsAgent a]]
    by simp_all
  from c have p: "params = []" by (auto simp: call_function_def split: if_splits)
  with c obtain t raw where t: "GetTransient stub = Inr t" "t ''token_request'' = Some raw"
    and pr: "ProcessRequest sha256 env raw stub u = (Inr (Success b), v)"
    by (auto simp: call_function_def or_fail_eq_Success split: option.splits sum.splits error.splits)
  from ProcessRequest_effect [OF assms(1) ok pr] p t u show ?thesis by auto
qed

lemma invocation_effect_witness:
  "\<exists>v k kr. Invoke (\<lambda>b. b) example_cc_env example_stub (example_world plain_transfer example_ledger) = (Success [], v)
    \<and> CreateTokenKey ''tx'' 0 = Inr k \<and> CreateTokenRequestKey ''tx'' = Inr kr
    \<and> write_set (sim v) = example_ledger(k := ''T'', ''k'' := [], kr := ''R'')
    \<and> committed (sim (example_world plain_transfer example_ledger)) kr = []"
proof -
  obtain k kr v' where v: "CreateTokenKey ''tx'' 0 = Inr k" "CreateTokenRequestKey ''tx'' = Inr kr"
    "Invoke (\<lambda>b. b) example_cc_env example_stub (example_world plain_transfer example_ledger) = (Success [], v')"
    "write_set (sim v') = example_ledger(k := ''T'', ''k'' := [], kr := ''R'')"
    using plain_invoked by blast
  have "GetArgs example_stub = InvokeFunction # []" by simp
  from invocation_effect [OF example_chaincode_stub example_reachable this v(3)]
  have "\<exists>k. CreateTokenRequestKey ''tx'' = Inr k \<and> committed (sim (example_world plain_transfer example_ledger)) k = []"
    unfolding example_stub_simps by blast
  then have "committed (sim (example_world plain_transfer example_ledger)) kr = []"
    unfolding v(2) by simp
  with v show ?thesis by (intro exI [of _ v'] exI [of _ k] exI [of _ kr] conjI)
qed

text \<open>The invocations of a chaincode one after the other, each with its environment and stub.\<close>

fun cc_run :: "(bytes \<Rightarrow> bytes) \<Rightarrow> (cc_env \<times> 's ChaincodeStub) list \<Rightarrow> 's world \<Rightarrow> response list \<times> 's world" where
  "cc_run sha256 [] w = ([], w)"
| "cc_run sha256 ((env, stub) # calls) w =
     (case Invoke sha256 env stub w of
        (res, v) \<Rightarrow> (case cc_run sha256 calls v of (rs, u) \<Rightarrow> (res # rs, u)))"

definition stuck :: "'s TokenChaincode \<Rightarrow> bool" where
  "stuck c \<longleftrightarrow> initOnce c \<and> ccValidator c = None \<and> ccPPM c = None"

lemma stuck_step: "stuck c \<Longrightarrow> init_step c d \<Longrightarrow> stuck d"
  using init_step_once unfolding stuck_def by fastforce

lemma stuck_Invoke:
  assumes "stuck (tcc w)" and "GetArgs stub = f # params" and "f \<in> {InvokeFunction, AreTokensSpentFunction}"
    and "Invoke sha256 env stub w = (res, v)"
  shows "\<exists>m. res = Failure m"
proof (cases res)
  case (Success b)
  obtain agent u where a: "NewMetricsAgent env f w = (Inr agent, u)"
    and c: "call_function sha256 env stub f params u = (Inr (Success b), v)"
    by (rule Invoke_steps [OF assms(4) [unfolded Success] assms(2)])
  have u: "stuck (tcc u)" using stuck_step [OF assms(1) steadyD [OF steady_NewMetricsAgent a]] .
  have no: "GetValidator env builtInParams u = (r, u') \<Longrightarrow> r = Inr None \<and> u' = u" for r u'
    using u by (auto simp: GetValidator_def stuck_def)
  have "f \<noteq> InvokeFunction"
  proof
    assume "f = InvokeFunction"
    with c obtain raw where "ProcessRequest sha256 env raw stub u = (Inr (Success b), v)"
      by (auto simp: call_function_def or_fail_eq_Success split: option.splits sum.splits error.splits if_splits)
    then show False by (rule ProcessRequest_steps) (auto dest: no)
  qed
  with assms(3) c obtain p where "Chaincode_AreTokensSpent env p stub u = (Inr (Success b), v)"
    by (auto simp: call_function_def function_names split: list.splits if_splits)
  with u no have False
    by (auto simp: Chaincode_AreTokensSpent_def or_fail_eq_Success obind_eq_Inr stuck_def deref_def dest!: no)
  then show ?thesis ..
qed simp

text \<open>
  An initialization that fails once is never repeated: after it, whatever the environment
  of the later calls is (the file with the parameters may be there by then), every call of
  \<open>invoke\<close> and of \<open>areTokensSpent\<close> fails, as long as the chaincode runs.
\<close>
theorem failed_initialization_sticks:
  assumes "cc_reachable C ds (tcc w0)" and "GetValidator env builtIn w0 = (Inl e, w)"
    and "cc_run sha256 calls w = (resps, v)"
  shows "\<forall>i < length calls. \<forall>f params. GetArgs (snd (calls ! i)) = f # params
    \<and> f \<in> {InvokeFunction, AreTokensSpentFunction} \<longrightarrow> (\<exists>m. resps ! i = Failure m)"
proof -
  from assms(2) have "stuck (tcc w)"
  proof (cases rule: GetValidator_cases)
    case (failed e')
    with cc_reachable_ok [OF assms(1)] show ?thesis by (auto simp: services_ok_def stuck_def)
  qed auto
  with assms(3) show ?thesis
  proof (induction calls arbitrary: w resps)
    case (Cons call calls)
    obtain env stub where call: "call = (env, stub)" by force
    obtain res u rs where i: "Invoke sha256 env stub w = (res, u)" and r: "cc_run sha256 calls u = (rs, v)"
      and resps: "resps = res # rs"
      using Cons.prems(1) call by (auto split: prod.splits)
    note u = stuck_step [OF Cons.prems(2) Invoke_init_step [OF i]]
    show ?case
      using Cons.IH [OF r u] stuck_Invoke [OF Cons.prems(2) _ _ i] call resps
      by (auto simp: less_Suc_eq_0_disj)
  qed simp
qed

lemma failed_initialization_sticks_witness:
  "\<exists>w m. GetValidator (example_cc_env\<lparr>Getenv := \<lambda>_. []\<rparr>) builtInParams (example_world plain_transfer example_ledger)
      = (Inl (Err ''no params provided''), w)
    \<and> fst (cc_run (\<lambda>b. b) [(example_cc_env, example_stub)] w) = [Failure m]"
proof -
  let ?w0 = "example_world plain_transfer example_ledger"
  obtain w where w: "GetValidator (example_cc_env\<lparr>Getenv := \<lambda>_. []\<rparr>) builtInParams ?w0
      = (Inl (Err ''no params provided''), w)"
    by (simp add: GetValidator_def Initialize_def Params_def ReadParamsFromFile_def builtInParams_def
        example_world_def new_chaincode_def)
  obtain rs v where r: "cc_run (\<lambda>b. b) [(example_cc_env, example_stub)] w = (rs, v)" by force
  then have "length rs = 1" by (auto split: prod.splits)
  moreover have "\<exists>m. rs ! 0 = Failure m"
    using failed_initialization_sticks [OF example_reachable w r] by simp
  ultimately show ?thesis using w r by (auto simp: length_Suc_conv)
qed

text \<open>
  Queries answer from the committed state, and write nothing: a successful
  \<open>queryTokens\<close> encodes the values under the keys of all the identifiers, in their order and
  none of them empty; a successful \<open>areTokensSpent\<close> encodes for every key whether its value
  is empty, or with graph hiding whether it is not.
\<close>
theorem queries_read_committed:
  assumes "chaincode_stub stub rd wr" and "GetArgs stub = [f, p]"
    and "Invoke sha256 env stub w = (Success out, v)"
  shows "(f = QueryTokensFunctions \<longrightarrow>
        (\<exists>is. unmarshal_ids env p = Inr (map Some is)
          \<and> marshal_outputs env (map (\<lambda>i. rd (sim w) (id_key i)) is) = Inr out
          \<and> (\<forall>i \<in> set is. rd (sim w) (id_key i) \<noteq> []) \<and> wr (sim v) = wr (sim w)))
    \<and> (f = AreTokensSpentFunction \<longrightarrow>
        (\<exists>keys gh. unmarshal_keys env p = Inr keys \<and> ccPPM (tcc v) = Some (Inr gh)
          \<and> marshal_flags env (map (\<lambda>k. (rd (sim w) k = []) \<noteq> gh) keys) = Inr out))"
proof -
  obtain agent u where a: "NewMetricsAgent env f w = (Inr agent, u)"
    and c: "call_function sha256 env stub f [p] u = (Inr (Success out), v)"
    by (rule Invoke_steps [OF assms(3,2)])
  have u: "sim u = sim w" using NewMetricsAgent_sim [OF a] by simp
  note tr = translator_snapshot.axioms [OF stub_translator_snapshot [OF assms(1), of "GetTxID stub"]]
  have store: "translator_store (stub_translator stub (GetTxID stub)) rd wr"
    using tr by (intro translator_store.intro) (rule rwset_snapshot.axioms)
  show ?thesis
  proof (intro conjI impI)
    assume "f = QueryTokensFunctions"
    with c have "Chaincode_QueryTokens env p stub u = (Inr (Success out), v)"
      by (simp add: call_function_def function_names)
    then obtain ids vs t where ids: "unmarshal_ids env p = Inr ids"
      and q: "QueryTokens (stub_translator stub (GetTxID stub)) ids \<lparr>counter = 0, store = sim u\<rparr> = (Inr vs, t)"
      and m: "marshal_outputs env vs = Inr out" and v: "v = u\<lparr>sim := store t\<rparr>"
      by (auto simp: Chaincode_QueryTokens_def or_fail_eq_Success with_translator_eq)
    from translator_store.QueryTokens_result [OF store q] obtain "is" where
      "ids = map Some is" "wr (store t) = wr (sim u)" "vs = map (\<lambda>i. rd (sim u) (id_key i)) is"
      and ne: "list_all (\<lambda>i. \<exists>k. CreateTokenKey (TxId i) (Index i) = Inr k \<and> rd (sim u) k \<noteq> []) is" by auto
    moreover from ne have "\<forall>i \<in> set is. rd (sim u) (id_key i) \<noteq> []"
      by (auto simp: list_all_iff id_key_def)
    ultimately show "\<exists>is. unmarshal_ids env p = Inr (map Some is)
          \<and> marshal_outputs env (map (\<lambda>i. rd (sim w) (id_key i)) is) = Inr out
          \<and> (\<forall>i \<in> set is. rd (sim w) (id_key i) \<noteq> []) \<and> wr (sim v) = wr (sim w)"
      using ids m v u by (intro exI [of _ "is"]) simp
  next
    assume "f = AreTokensSpentFunction"
    with c have "Chaincode_AreTokensSpent env p stub u = (Inr (Success out), v)"
      by (simp add: call_function_def function_names)
    then obtain val u' keys gh fl t where g: "GetValidator env builtInParams u = (Inr val, u')"
      and keys: "unmarshal_keys env p = Inr keys" and gh: "ccPPM (tcc u') = Some (Inr gh)"
      and q: "AreTokensSpent (stub_translator stub (GetTxID stub)) keys gh \<lparr>counter = 0, store = sim u'\<rparr> = (Inr fl, t)"
      and m: "marshal_flags env fl = Inr out" and v: "v = u'\<lparr>sim := store t\<rparr>"
      by (auto simp: Chaincode_AreTokensSpent_def or_fail_eq_Success with_translator_eq obind_eq_Inr
          rbind_eq_Inr deref_eq)
    have "fl = map (\<lambda>k. (rd (sim w) k = []) \<noteq> gh) keys"
      using translator_store.spent_loop_result [OF store] q GetValidator_sim [OF g] u
      by (fastforce simp: AreTokensSpent_def areTokensSpent_def split: if_splits)
    with keys gh m v show "\<exists>keys gh. unmarshal_keys env p = Inr keys \<and> ccPPM (tcc v) = Some (Inr gh)
          \<and> marshal_flags env (map (\<lambda>k. (rd (sim w) k = []) \<noteq> gh) keys) = Inr out"
      by (intro exI [of _ keys] exI [of _ gh]) simp
  qed
qed

text \<open>A stub for the call of a function, over the example's ledger.\<close>

definition call_stub :: "bytes list \<Rightarrow> simulation ChaincodeStub" where
  "call_stub args = example_stub\<lparr>GetArgs := args\<rparr>"

lemma call_stub_simps [simp]:
  "StubGetState (call_stub args) = StubGetState shim_stub" "PutState (call_stub args) = PutState shim_stub"
  "DelState (call_stub args) = DelState shim_stub" "GetArgs (call_stub args) = args"
  "GetTxID (call_stub args) = ''tx''"
  by (simp_all add: call_stub_def)

lemma call_chaincode_stub: "chaincode_stub (call_stub args) committed write_set"
  by unfold_locales (auto simp: shim_stub_def)

lemma queries_read_committed_witness:
  "\<exists>v. Invoke (\<lambda>b. b) example_cc_env (call_stub [QueryTokensFunctions, ''q'']) (example_world plain_transfer example_ledger)
      = (Success ''null'', v) \<and> write_set (sim v) = example_ledger"
proof -
  let ?w = "example_world plain_transfer example_ledger"
  have "\<exists>v. Invoke (\<lambda>b. b) example_cc_env (call_stub [QueryTokensFunctions, ''q'']) ?w = (Success ''null'', v)"
    by (simp add: Invoke_def handle_def or_fail_def NewMetricsAgent_def example_world_def new_chaincode_def
        example_cc_env_def obind_def EmitKey_def deferred_def call_function_def function_names
        Chaincode_QueryTokens_def with_translator_def New_def QueryTokens_def)
  then obtain v where v: "Invoke (\<lambda>b. b) example_cc_env (call_stub [QueryTokensFunctions, ''q'']) ?w = (Success ''null'', v)"
    by blast
  have "GetArgs (call_stub [QueryTokensFunctions, ''q'']) = [QueryTokensFunctions, ''q'']" by simp
  from queries_read_committed [OF call_chaincode_stub this v]
  have "write_set (sim v) = write_set (sim ?w)" by blast
  then have "write_set (sim v) = example_ledger" by (simp add: example_world_def)
  with v show ?thesis by (intro exI [of _ v] conjI)
qed

text \<open>What a successful initialization writes.\<close>

lemma Init_effect:
  assumes "chaincode_stub stub rd wr" and "Init env stub w = (Inr (Success b), v)"
  obtains raw k where "Params env builtInParams = Inr raw" "CreateSetupKey = Inr k"
    "wr (sim v) = (wr (sim w))(k := raw)"
proof -
  from assms(2) obtain raw t where p: "Params env builtInParams = Inr raw"
    and m: "Write (stub_translator stub []) (SetupAction (Inr raw)) \<lparr>counter = 0, store = sim w\<rparr> = (Inr (), t)"
    and v: "v = w\<lparr>sim := store t\<rparr>"
    by (auto simp: Init_def or_fail_eq_Success with_translator_eq)
  have store: "translator_store (stub_translator stub []) rd wr"
    using translator_snapshot.axioms [OF stub_translator_snapshot [OF assms(1), of "[]"]]
    by (intro translator_store.intro) (rule rwset_snapshot.axioms)
  from m obtain k where k: "CreateSetupKey = Inr k"
    by (auto simp: Write_def commitProcess_def commitAction_def commitSetupAction_def go_simps)
  have "wr (sim v) = (wr (sim w))(k := raw)"
    using translator_store.Write_effect(2) [OF store m] by (simp add: k v)
  then show thesis by (rule that [OF p k])
qed

text \<open>
  The parameters of the file are the ones on the ledger: when the chaincode was initialized
  with a file of parameters that is not empty, and its writes were committed, then a
  successful query for the public parameters answers with the content of the file.
\<close>
theorem init_then_query:
  assumes "chaincode_stub stub rd wr" and "Init env stub w = (Inr (Success b), v)"
    and "Getenv env PublicParamsPathVarEnv = path" and "path \<noteq> []"
    and "ReadFile env path = Inr file" and "file \<noteq> []"
    and "chaincode_stub stub' rd' wr'" and "rd' (sim w') = wr (sim v)"
    and "GetArgs stub' = QueryPublicParamsFunction # params"
    and "Invoke sha256 env' stub' w' = (Success out, v')"
  shows "out = file"
proof -
  obtain raw k where raw: "Params env builtInParams = Inr raw" and k: "CreateSetupKey = Inr k"
    and v: "wr (sim v) = (wr (sim w))(k := raw)"
    by (rule Init_effect [OF assms(1,2)])
  have "raw = file"
    using raw assms(3-6) by (simp add: Params_def ReadParamsFromFile_def base64_EncodeToString_Nil base64_roundtrip)
  obtain agent u where a: "NewMetricsAgent env' QueryPublicParamsFunction w' = (Inr agent, u)"
    and "call_function sha256 env' stub' QueryPublicParamsFunction params u = (Inr (Success out), v')"
    by (rule Invoke_steps [OF assms(10,9)])
  then have "QueryPublicParams stub' u = (Inr (Success out), v')"
    by (simp add: call_function_def function_names)
  then obtain t where g: "get_state (stub_translator stub' (GetTxID stub')) k \<lparr>counter = 0, store = sim u\<rparr> = (Inr out, t)"
    by (auto simp: QueryPublicParams_def obind_eq_Inr otry_eq with_translator_eq ReadSetupParameters_def
        Let_def k split: if_splits sum.splits)
  have store: "translator_store (stub_translator stub' (GetTxID stub')) rd' wr'"
    using translator_snapshot.axioms [OF stub_translator_snapshot [OF assms(7), of "GetTxID stub'"]]
    by (intro translator_store.intro) (rule rwset_snapshot.axioms)
  have "out = rd' (sim u) k" using translator_store.get_state_rd [OF store g] by simp
  with v assms(8) NewMetricsAgent_sim [OF a] \<open>raw = file\<close> show ?thesis by simp
qed

lemma init_then_query_witness:
  "\<exists>v v'. Init example_cc_env (call_stub []) (example_world plain_transfer (\<lambda>_. [])) = (Inr (Success []), v)
    \<and> Invoke (\<lambda>b. b) example_cc_env (call_stub [QueryPublicParamsFunction])
        (example_world plain_transfer (write_set (sim v))) = (Success ''spp'', v')"
proof -
  let ?w = "example_world plain_transfer (\<lambda>_. [])"
  obtain k where k: "CreateSetupKey = Inr k"
    by (auto simp: CreateSetupKey_def CreateCompositeKey_eq valid_attribute_ascii key_consts)
  let ?v = "?w\<lparr>sim := \<lparr>committed = \<lambda>_. [], write_set = (\<lambda>_. [])(k := ''spp'')\<rparr>\<rparr>"
  have rws: "rwsWrapper (call_stub []) = rwsWrapper shim_stub" by (simp add: rwsWrapper_defs fun_eq_iff)
  have i: "Init example_cc_env (call_stub []) ?w = (Inr (Success []), ?v)"
    using example_params_read
    by (simp add: Init_def or_fail_def with_translator_def New_def Write_def checkProcess_def
        commitProcess_def checkAction_def commitAction_def commitSetupAction_def obind_def k on_store_def
        rws rwsWrapper_defs shim_stub_def example_world_def)
  have a: "GetArgs (call_stub [QueryPublicParamsFunction]) = QueryPublicParamsFunction # []" by simp
  let ?w' = "example_world plain_transfer (write_set (sim ?v))"
  have "\<exists>out v'. out \<noteq> [] \<and> Invoke (\<lambda>b. b) example_cc_env (call_stub [QueryPublicParamsFunction]) ?w' = (Success out, v')"
    by (simp add: Invoke_def handle_def or_fail_def NewMetricsAgent_def example_world_def new_chaincode_def
        example_cc_env_def obind_def EmitKey_def deferred_def call_function_def function_names otry_def
        QueryPublicParams_def with_translator_def New_def ReadSetupParameters_def k on_store_def rwsWrapper_defs
        shim_stub_def)
  then obtain out v' where q: "Invoke (\<lambda>b. b) example_cc_env (call_stub [QueryPublicParamsFunction]) ?w' = (Success out, v')"
    by blast
  have "committed (sim ?w') = write_set (sim ?v)" by (simp add: example_world_def)
  from init_then_query [OF call_chaincode_stub i, of "''pp.json''" "''spp''", OF _ _ _ _ call_chaincode_stub this a q]
  have "out = ''spp''" by (simp add: example_cc_env_def)
  with i q show ?thesis by (intro exI [of _ ?v] exI [of _ v'] conjI) simp_all
qed

end
