(* ===== verification/Chaincode_Value.thy ===== *)
theory Chaincode_Value
  imports Chaincode_Properties "HOL-Library.Multiset"
begin

text \<open>
  The value on the ledger, end to end: what an invocation of the chaincode with the driver
  for plain tokens does to the sum of the tokens of a type. The writes of a request under
  token keys are the outputs that are kept and the inputs; they are at different keys when
  the inputs are; and for every transfer they balance, up to what is redeemed.
\<close>

section \<open>Supply\<close>

definition token_value :: "fab_env \<Rightarrow> string \<Rightarrow> bytes \<Rightarrow> int" where
  "token_value E ty raw =
     (if raw = [] then 0
      else case unmarshal_Token E raw of
          Inl e \<Rightarrow> 0
        | Inr tok \<Rightarrow> if tokType tok = ty then qval (tokQuantity tok) else 0)"

definition total_supply :: "fab_env \<Rightarrow> string \<Rightarrow> string set \<Rightarrow> ledger \<Rightarrow> int" where
  "total_supply E ty K L = (\<Sum>k\<in>K. token_value E ty (L k))"

text \<open>The change of the supply by writes at different keys.\<close>

definition gain :: "fab_env \<Rightarrow> string \<Rightarrow> string set \<Rightarrow> ledger \<Rightarrow> (string \<times> bytes) list \<Rightarrow> int" where
  "gain E ty K L ws =
     sum_list (map (\<lambda>(k, v). token_value E ty v - token_value E ty (L k)) (filter (\<lambda>(k, v). k \<in> K) ws))"

lemma gain_append: "gain E ty K L (xs @ ys) = gain E ty K L xs + gain E ty K L ys"
  by (simp add: gain_def)

lemma gain_Cons:
  "gain E ty K L ((k, v) # ws)
    = (if k \<in> K then token_value E ty v - token_value E ty (L k) else 0) + gain E ty K L ws"
  by (simp add: gain_def)

lemma gain_outside: "fst ` set ws \<inter> K = {} \<Longrightarrow> gain E ty K L ws = 0"
proof -
  assume "fst ` set ws \<inter> K = {}"
  then have "filter (\<lambda>(k, v). k \<in> K) ws = []" by (force simp: filter_empty_conv)
  then show ?thesis by (simp add: gain_def)
qed

lemma gain_cong:
  assumes "\<forall>k \<in> fst ` set ws. L k = L' k"
  shows "gain E ty K L ws = gain E ty K L' ws"
  unfolding gain_def using assms by (intro arg_cong [of _ _ sum_list] map_cong) auto

lemma supply_update:
  assumes "finite K"
  shows "total_supply E ty K (L(k := v)) = total_supply E ty K L + (if k \<in> K then token_value E ty v - token_value E ty (L k) else 0)"
proof (cases "k \<in> K")
  case True
  have "total_supply E ty K M = token_value E ty (M k) + total_supply E ty (K - {k}) M" for M
    unfolding total_supply_def using sum.remove [OF assms True] .
  moreover have "total_supply E ty (K - {k}) (L(k := v)) = total_supply E ty (K - {k}) L"
    unfolding total_supply_def by (rule sum.cong) auto
  ultimately show ?thesis using True by simp
next
  case False
  then have "total_supply E ty K (L(k := v)) = total_supply E ty K L"
    unfolding total_supply_def by (intro sum.cong) auto
  with False show ?thesis by simp
qed

lemma supply_writes:
  assumes "finite K" and "distinct (map fst (filter (\<lambda>(k, v). k \<in> K) ws))"
  shows "total_supply E ty K (apply_writes ws L) = total_supply E ty K L + gain E ty K L ws"
  using assms(2)
proof (induction ws arbitrary: L)
  case (Cons w ws)
  obtain k v where w: "w = (k, v)" by force
  have "gain E ty K (L(k := v)) ws = gain E ty K L ws" if "k \<in> K"
  proof -
    have "k \<notin> fst ` set (filter (\<lambda>(k, v). k \<in> K) ws)" using Cons.prems that w by simp
    then show ?thesis
      unfolding gain_def by (intro arg_cong [of _ _ sum_list] map_cong) force+
  qed
  moreover have "gain E ty K (L(k := v)) ws = gain E ty K L ws" if "k \<notin> K"
    unfolding gain_def using that by (intro arg_cong [of _ _ sum_list] map_cong) auto
  ultimately have same: "gain E ty K (L(k := v)) ws = gain E ty K L ws" by blast
  have "distinct (map fst (filter (\<lambda>(k, v). k \<in> K) ws))" using Cons.prems w by (auto split: if_splits)
  from Cons.IH [OF this, of "L(k := v)"] same show ?case
    by (simp add: w supply_update [OF assms(1)] gain_Cons del: fun_upd_apply)
qed (simp add: gain_def)

section \<open>The keys that a request writes\<close>

abbreviation tkey :: "string \<Rightarrow> u64 \<Rightarrow> string" where
  "tkey txID i \<equiv> the_key (CreateTokenKey txID i)"

definition token_keys :: "string set" where
  "token_keys = {k. \<exists>t i. CreateTokenKey t i = Inr k
     \<and> t \<notin> {IssueActionMetadata, TransferActionMetadata, TokenRequestKeyPrefix}}"

definition out_indices :: "action \<Rightarrow> nat list" where
  "out_indices a = (case a of
       IssueAction i \<Rightarrow> [0..<length (issue_outputs i)]
     | TransferAction t \<Rightarrow> kept_outputs t
     | _ \<Rightarrow> [])"

definition in_keys :: "action \<Rightarrow> string list" where
  "in_keys a = (case a of TransferAction t \<Rightarrow> inputs_of t | _ \<Rightarrow> [])"

fun out_keys :: "string \<Rightarrow> u64 \<Rightarrow> action list \<Rightarrow> string list" where
  "out_keys txID c [] = []"
| "out_keys txID c (a # acts) =
     map (\<lambda>j. tkey txID (c + of_nat j)) (out_indices a) @ out_keys txID (c + of_nat (action_outputs a)) acts"

definition all_outputs :: "action list \<Rightarrow> nat" where
  "all_outputs acts = sum_list (map action_outputs acts)"

lemma out_indices_less: "j \<in> set (out_indices a) \<Longrightarrow> j < action_outputs a"
  by (cases a) (auto simp: out_indices_def kept_outputs_def)

lemma out_keys_index:
  "k \<in> set (out_keys txID c acts) \<Longrightarrow> \<exists>j < all_outputs acts. k = tkey txID (c + of_nat j)"
proof (induction acts arbitrary: c)
  case (Cons a acts)
  then consider j where "j \<in> set (out_indices a)" "k = tkey txID (c + of_nat j)"
    | "k \<in> set (out_keys txID (c + of_nat (action_outputs a)) acts)" by auto
  then show ?case
  proof cases
    case 1
    with out_indices_less [OF 1(1)] show ?thesis by (intro exI [of _ j]) (simp add: all_outputs_def)
  next
    case 2
    from Cons.IH [OF 2] obtain j where "j < all_outputs acts"
      "k = tkey txID (c + of_nat (action_outputs a) + of_nat j)" by blast
    then show ?thesis
      by (intro exI [of _ "action_outputs a + j"]) (simp add: all_outputs_def add.assoc)
  qed
qed (simp add: all_outputs_def)

lemma tkey_inject:
  assumes "valid_attribute txID" and "i < 2 ^ 64" and "j < 2 ^ 64"
    and "tkey txID (c + of_nat i) = tkey txID (c + of_nat j)"
  shows "i = j"
proof -
  obtain k where k: "CreateTokenKey txID (c + of_nat i) = Inr k"
    using CreateTokenKey_total [OF assms(1)] by blast
  obtain k' where k': "CreateTokenKey txID (c + of_nat j) = Inr k'"
    using CreateTokenKey_total [OF assms(1)] by blast
  from assms(4) k k' have "k' = k" by simp
  with CreateTokenKey_inject k k' have "c + of_nat i = c + (of_nat j :: u64)" by blast
  then have "(of_nat i :: u64) = of_nat j" by simp
  then have "unat (of_nat i :: u64) = unat (of_nat j :: u64)" by simp
  with assms(2,3) show ?thesis by (simp add: unat_of_nat)
qed

lemma out_keys_distinct:
  assumes "valid_attribute txID" and "all_outputs acts \<le> 2 ^ 64"
  shows "distinct (out_keys txID c acts)"
  using assms(2)
proof (induction acts arbitrary: c)
  case (Cons a acts)
  have n: "action_outputs a + all_outputs acts \<le> 2 ^ 64" using Cons.prems by (simp add: all_outputs_def)
  have "distinct (out_indices a)"
    by (cases a) (simp_all add: out_indices_def kept_outputs_def)
  moreover have "inj_on (\<lambda>j. tkey txID (c + of_nat j)) (set (out_indices a))"
    using tkey_inject [OF assms(1)] out_indices_less n by (intro inj_onI) (meson add_leE less_le_trans)
  moreover have "tkey txID (c + of_nat j) \<notin> set (out_keys txID (c + of_nat (action_outputs a)) acts)"
    if "j \<in> set (out_indices a)" for j
  proof
    assume "tkey txID (c + of_nat j) \<in> set (out_keys txID (c + of_nat (action_outputs a)) acts)"
    then obtain l where l: "l < all_outputs acts"
      "tkey txID (c + of_nat j) = tkey txID (c + of_nat (action_outputs a) + of_nat l)"
      using out_keys_index by blast
    then have "tkey txID (c + of_nat j) = tkey txID (c + of_nat (action_outputs a + l))"
      by (simp add: add.assoc)
    then have "j = action_outputs a + l"
      by (rule tkey_inject [OF assms(1), rotated 2]) (use out_indices_less [OF that] l(1) n in linarith)+
    with out_indices_less [OF that] show False by simp
  qed
  ultimately show ?case
    using Cons.IH n by (auto simp: distinct_map)
qed simp

text \<open>The keys of metadata, of the parameters and of requests are no token keys.\<close>

lemma token_keys_untouched:
  assumes "k \<in> token_keys"
  shows "the_key (CreateIssueActionMetadataKey u) \<noteq> k" "the_key (CreateTransferActionMetadataKey u) \<noteq> k"
    "the_key CreateSetupKey \<noteq> k" "CreateTokenRequestKey txID \<noteq> Inr k"
proof -
  from assms obtain t i where k: "CreateTokenKey t i = Inr k"
    and t: "t \<notin> {IssueActionMetadata, TransferActionMetadata, TokenRequestKeyPrefix}"
    by (auto simp: token_keys_def)
  then have "only_spent (CHR ''x'' # t) k" by (auto simp: only_spent_def)
  from only_spent_untouched [OF this]
  show "the_key (CreateIssueActionMetadataKey u) \<noteq> k" "the_key (CreateTransferActionMetadataKey u) \<noteq> k"
    "the_key CreateSetupKey \<noteq> k" by blast+
  have "CreateCompositeKey TokenKeyPrefix [t, FormatUint10 i] = Inr k"
    using k by (simp add: CreateTokenKey_def)
  note inj = CreateCompositeKey_inject [OF this]
  show "CreateTokenRequestKey txID \<noteq> Inr k"
    using t by (auto simp: CreateTokenRequestKey_def dest: inj)
qed

lemma metadata_outside:
  assumes "K \<subseteq> token_keys"
  shows "fst ` set (metadata_writes CreateIssueActionMetadataKey md) \<inter> K = {}"
    "fst ` set (metadata_writes CreateTransferActionMetadataKey md) \<inter> K = {}"
  using assms token_keys_untouched by (fastforce simp: metadata_writes_def)+

lemma enumerate_map: "map (\<lambda>(i, v). (f i, v)) (enumerate n xs) = map (\<lambda>j. (f (n + j), xs ! j)) [0..<length xs]"
  by (rule nth_equalityI) (simp_all add: nth_enumerate_eq)

lemma filter_outside: "fst ` set ws \<inter> K = {} \<Longrightarrow> filter (\<lambda>(k, v). k \<in> K) ws = []"
  by (force simp: filter_empty_conv)

lemma filter_inside: "fst ` set ws \<subseteq> K \<Longrightarrow> filter (\<lambda>(k, v). k \<in> K) ws = ws"
  by (rule filter_True) force

lemma action_keys:
  assumes "K \<subseteq> token_keys" and "\<forall>j \<in> set (out_indices a). tkey txID (c + of_nat j) \<in> K"
    and "set (in_keys a) \<subseteq> K" and "\<And>r. a \<noteq> SetupAction r"
  shows "map fst (filter (\<lambda>(k, v). k \<in> K) (action_writes txID c a))
    = map (\<lambda>j. tkey txID (c + of_nat j)) (out_indices a) @ in_keys a"
proof (cases a)
  case (IssueAction i)
  with assms show ?thesis
    by (simp add: enumerate_map filter_outside metadata_outside out_indices_def in_keys_def
        filter_inside image_subset_iff comp_def)
next
  case (TransferAction t)
  with assms show ?thesis
    by (simp add: filter_outside metadata_outside out_indices_def in_keys_def transfer_outputs_def
        transfer_spends_def filter_inside image_subset_iff comp_def subset_iff)
qed (use assms in \<open>simp_all add: out_indices_def in_keys_def\<close>)

lemma request_keys:
  assumes "K \<subseteq> token_keys" and "set (out_keys txID c acts) \<subseteq> K"
    and "\<forall>a \<in> set acts. set (in_keys a) \<subseteq> K \<and> (\<forall>r. a \<noteq> SetupAction r)"
  shows "mset (map fst (filter (\<lambda>(k, v). k \<in> K) (request_writes txID c acts)))
    = mset (out_keys txID c acts) + mset (concat (map in_keys acts))"
  using assms(2,3)
proof (induction acts arbitrary: c)
  case (Cons a acts)
  have "map fst (filter (\<lambda>(k, v). k \<in> K) (action_writes txID c a))
      = map (\<lambda>j. tkey txID (c + of_nat j)) (out_indices a) @ in_keys a"
    by (rule action_keys [OF assms(1)]) (use Cons.prems in auto)
  moreover have "mset (map fst (filter (\<lambda>(k, v). k \<in> K) (request_writes txID (c + of_nat (action_outputs a)) acts)))
      = mset (out_keys txID (c + of_nat (action_outputs a)) acts) + mset (concat (map in_keys acts))"
    by (rule Cons.IH) (use Cons.prems in auto)
  ultimately show ?case by simp
qed simp

section \<open>The gain of an action\<close>

definition value_of :: "string \<Rightarrow> Token list \<Rightarrow> int" where
  "value_of ty toks = sum_list (map (\<lambda>x. if tokType x = ty then qval (tokQuantity x) else 0) toks)"

definition output_tokens :: "Output option list \<Rightarrow> Token list" where
  "output_tokens outs = concat (map (\<lambda>o'. case o' of Some (Some tok) \<Rightarrow> [tok] | _ \<Rightarrow> []) outs)"

definition has_owner :: "Token \<Rightarrow> bool" where
  "has_owner tok \<longleftrightarrow> (\<exists>raw. tokOwner tok = Some raw \<and> raw \<noteq> [])"

definition issued :: "string \<Rightarrow> fab_action \<Rightarrow> int" where
  "issued ty a = (case a of FabIssue i \<Rightarrow> value_of ty (output_tokens (iOutputs i)) | FabTransfer t \<Rightarrow> 0)"

definition redeemed :: "string \<Rightarrow> fab_action \<Rightarrow> int" where
  "redeemed ty a = (case a of
       FabIssue i \<Rightarrow> 0
     | FabTransfer t \<Rightarrow> value_of ty (filter (\<lambda>tok. \<not> has_owner tok) (output_tokens (tOutputs t))))"

definition created :: "fab_action \<Rightarrow> Token list" where
  "created a = (case a of FabIssue i \<Rightarrow> output_tokens (iOutputs i) | FabTransfer t \<Rightarrow> output_tokens (tOutputs t))"

text \<open>The encoding of tokens, on the tokens in question: it succeeds, and reads back.\<close>

definition token_codec :: "fab_env \<Rightarrow> Token set \<Rightarrow> bool" where
  "token_codec E T \<longleftrightarrow> (\<forall>tok \<in> T. \<exists>raw. marshal_Token E (Some tok) = Inr raw \<and> raw \<noteq> []
     \<and> unmarshal_Token E raw = Inr tok)"

lemma output_tokens_Some [simp]: "output_tokens (map (\<lambda>o'. Some (Some o')) os) = os"
  by (induction os) (simp_all add: output_tokens_def)

lemma token_codec_value:
  assumes "token_codec E T" and "tok \<in> T"
  shows "token_value E ty (the_bytes (marshal_Token E (Some tok))) = (if tokType tok = ty then qval (tokQuantity tok) else 0)"
proof -
  obtain raw where "marshal_Token E (Some tok) = Inr raw" "raw \<noteq> []" "unmarshal_Token E raw = Inr tok"
    using assms by (auto simp: token_codec_def)
  then show ?thesis by (simp add: token_value_def)
qed

lemma token_value_Nil [simp]: "token_value E ty [] = 0"
  by (simp add: token_value_def)

lemma gain_list:
  assumes "\<forall>x \<in> set xs. f x \<in> K"
  shows "gain E ty K L (map (\<lambda>x. (f x, g x)) xs)
    = sum_list (map (\<lambda>x. token_value E ty (g x) - token_value E ty (L (f x))) xs)"
  using assms by (induction xs) (simp_all add: gain_Cons, simp add: gain_def)

lemma sum_list_nth: "sum_list (map (\<lambda>j. f (xs ! j)) [0..<length xs]) = sum_list (map f xs)"
proof -
  have "map (\<lambda>j. f (xs ! j)) [0..<length xs] = map f xs" by (rule nth_equalityI) simp_all
  then show ?thesis by simp
qed

lemma serialize_ok:
  assumes "token_codec E (set os)"
  shows "serialize_outputs E (map (\<lambda>o'. Some (Some o')) os)
    = Inr (map (\<lambda>tok. the_bytes (marshal_Token E (Some tok))) os)"
  using assms
proof (induction os)
  case (Cons tok os)
  then obtain raw where "marshal_Token E (Some tok) = Inr raw" by (auto simp: token_codec_def)
  moreover have "token_codec E (set os)" using Cons.prems by (simp add: token_codec_def)
  ultimately show ?case using Cons.IH by (simp add: serialize_outputs_def Output_Serialize_def)
qed (simp add: serialize_outputs_def)

lemma issue_gain:
  assumes "K \<subseteq> token_keys" and "iOutputs i = map (\<lambda>o'. Some (Some o')) os" and "token_codec E (set os)"
    and "\<forall>j < length os. tkey txID (c + of_nat j) \<in> K"
    and "admissible txID c L (to_action E (FabIssue i))"
  shows "gain E ty K L (action_writes txID c (to_action E (FabIssue i))) = issued ty (FabIssue i)"
proof -
  let ?m = "\<lambda>tok. the_bytes (marshal_Token E (Some tok))"
  have outs: "issue_outputs \<lparr>iaNumOutputs = IssueAction_NumOutputs i,
      iaGetSerializedOutputs = IssueAction_GetSerializedOutputs E i, iaGetMetadata = iMetadata i\<rparr> = map ?m os"
    using serialize_ok [OF assms(3)] assms(2)
    by (simp add: issue_outputs_def IssueAction_GetSerializedOutputs_def)
  have "\<forall>j < length os. L (tkey txID (c + of_nat j)) = []"
    using assms(2,5) by (simp add: to_action_def IssueAction_NumOutputs_def)
  then have "gain E ty K L (map (\<lambda>j. (tkey txID (c + of_nat j), map ?m os ! j)) [0..<length os])
      = sum_list (map (\<lambda>j. token_value E ty (?m (os ! j))) [0..<length os])"
    using assms(4) by (subst gain_list) (auto intro!: arg_cong [of _ _ sum_list] map_cong)
  also have "\<dots> = sum_list (map (\<lambda>tok. token_value E ty (?m tok)) os)"
    by (rule sum_list_nth)
  also have "\<dots> = value_of ty os"
    unfolding value_of_def using token_codec_value [OF assms(3)] by (intro arg_cong [of _ _ sum_list] map_cong) auto
  finally show ?thesis
    using gain_outside [OF metadata_outside(1) [OF assms(1)]] assms(2)
    by (simp add: to_action_def outs gain_append enumerate_map issued_def)
qed

lemma filter_nth: "map (\<lambda>j. xs ! j) (filter (\<lambda>j. P (xs ! j)) [0..<length xs]) = filter P xs"
proof -
  have "filter P xs = filter P (map (\<lambda>j. xs ! j) [0..<length xs])" by (simp add: map_nth)
  then show ?thesis by (simp add: filter_map comp_def)
qed

lemma value_of_split: "value_of ty xs = value_of ty (filter P xs) + value_of ty (filter (\<lambda>x. \<not> P x) xs)"
  by (induction xs) (simp_all add: value_of_def)

lemma value_of_typed:
  assumes "\<forall>x \<in> set xs. tokType x = ty'"
  shows "value_of ty xs = (if ty' = ty then total xs else 0)"
  using assms by (induction xs) (simp_all add: value_of_def total_def)

lemma redeem_at:
  assumes "tOutputs t = map (\<lambda>o'. Some (Some o')) os" and "j < length os"
  shows "TransferAction_IsRedeemAt t j = Inr False \<longleftrightarrow> has_owner (os ! j)"
  using assms
  by (auto simp: TransferAction_IsRedeemAt_def Output_IsRedeem_def go_simps has_owner_def)

lemma loads_value:
  assumes "loads E get keys toks" and "\<And>k raw. get k = Inr raw \<Longrightarrow> raw = L k"
  shows "sum_list (map (\<lambda>k. token_value E ty (L k)) keys) = value_of ty toks"
  using assms(1) unfolding loads_def
proof (induction rule: list_all2_induct)
  case (Cons k ks tok toks)
  then obtain raw where "get k = Inr raw" "raw \<noteq> []" "unmarshal_Token E raw = Inr tok" by blast
  with assms(2) Cons.IH show ?case by (auto simp: token_value_def value_of_def)
qed (simp add: value_of_def)

lemma sum_list_minus: "sum_list (map (\<lambda>k. - f k) ks) = - sum_list (map f ks)" for f :: "'b \<Rightarrow> int"
  by (induction ks) simp_all

lemma transfer_gain:
  assumes "K \<subseteq> token_keys" and "balanced E get t" and "\<And>k raw. get k = Inr raw \<Longrightarrow> raw = L k"
    and "token_codec E (set (created (FabTransfer t)))"
    and "\<forall>j < length (tOutputs t). tkey txID (c + of_nat j) \<in> K" and "set (Inputs t) \<subseteq> K"
    and "admissible txID c L (to_action E (FabTransfer t))"
  shows "gain E ty K L (action_writes txID c (to_action E (FabTransfer t))) = - redeemed ty (FabTransfer t)"
proof -
  from assms(2) obtain toks os ty' where l: "loads E get (Inputs t) toks"
    and outs: "tOutputs t = map (\<lambda>o'. Some (Some o')) os"
    and typed: "\<forall>x \<in> set toks \<union> set os. tokType x = ty'" and tot: "total toks = total os"
    unfolding balanced_def by blast
  have codec: "token_codec E (set os)" using assms(4) outs by (simp add: created_def)
  let ?m = "\<lambda>tok. the_bytes (marshal_Token E (Some tok))"
  let ?js = "filter (\<lambda>j. has_owner (os ! j)) [0..<length os]"
  define ta where "ta = \<lparr>taNumOutputs = TransferAction_NumOutputs t, taIsRedeemAt = TransferAction_IsRedeemAt t,
           taSerializeOutputAt = TransferAction_SerializeOutputAt E t,
           taGetInputs = TransferAction_GetInputs t,
           taIsGraphHiding = TransferAction_IsGraphHiding t, taGetMetadata = tMetadata t\<rparr>"
  have act: "to_action E (FabTransfer t) = TransferAction ta" by (simp add: to_action_def ta_def)
  have kept: "kept_outputs ta = ?js"
    using redeem_at [OF outs] outs
    by (auto simp: kept_outputs_def ta_def TransferAction_NumOutputs_def intro!: filter_cong)
  have ins: "inputs_of ta = Inputs t"
    by (simp add: inputs_of_def ta_def TransferAction_GetInputs_def)
  have free: "\<forall>j \<in> set ?js. L (tkey txID (c + of_nat j)) = []"
    using assms(7) kept by (simp add: act)
  have ser: "the_bytes (taSerializeOutputAt ta j) = ?m (os ! j)" if "j \<in> set ?js" for j
    using that outs by (simp add: ta_def TransferAction_SerializeOutputAt_def Output_Serialize_def)
  have "transfer_outputs txID c ta = map (\<lambda>j. (tkey txID (c + of_nat j), ?m (os ! j))) ?js"
    using ser by (auto simp: transfer_outputs_def kept intro: map_cong)
  then have "gain E ty K L (transfer_outputs txID c ta)
      = sum_list (map (\<lambda>j. token_value E ty (?m (os ! j)) - token_value E ty (L (tkey txID (c + of_nat j)))) ?js)"
    using assms(5) outs by (simp add: gain_list)
  also have "\<dots> = sum_list (map (\<lambda>j. token_value E ty (?m (os ! j))) ?js)"
    using free by (intro arg_cong [of _ _ sum_list] map_cong) auto
  also have "\<dots> = sum_list (map (\<lambda>tok. token_value E ty (?m tok)) (filter has_owner os))"
    by (simp only: filter_nth [of os has_owner, symmetric] map_map comp_def)
  also have "\<dots> = value_of ty (filter has_owner os)"
    unfolding value_of_def using token_codec_value [OF codec] by (intro arg_cong [of _ _ sum_list] map_cong) auto
  finally have out: "gain E ty K L (transfer_outputs txID c ta) = value_of ty (filter has_owner os)" .
  have "gain E ty K L (transfer_spends ta)
      = sum_list (map (\<lambda>k. token_value E ty [] - token_value E ty (L k)) (Inputs t))"
    using assms(6) unfolding transfer_spends_def ins
    by (subst gain_list) (auto simp: ta_def TransferAction_IsGraphHiding_def)
  also have "\<dots> = - value_of ty toks"
  proof -
    have "sum_list (map (\<lambda>k. token_value E ty (L k)) (Inputs t)) = value_of ty toks"
      using l assms(3) by (rule loads_value)
    then show ?thesis by (simp add: sum_list_minus)
  qed
  finally have spent: "gain E ty K L (transfer_spends ta) = - value_of ty toks" .
  have "value_of ty toks = value_of ty os"
    using value_of_typed [of toks ty'] value_of_typed [of os ty'] typed tot by simp
  then show ?thesis
    using out spent gain_outside [OF metadata_outside(2) [OF assms(1)]] outs value_of_split [of ty os has_owner]
    by (simp add: act gain_append redeemed_def)
qed

section \<open>The gain of a request\<close>

definition fab_inputs :: "fab_action \<Rightarrow> string list" where
  "fab_inputs a = (case a of FabIssue i \<Rightarrow> [] | FabTransfer t \<Rightarrow> Inputs t)"

text \<open>What the validator has established of an action.\<close>

definition sound_action :: "fab_env \<Rightarrow> (string \<Rightarrow> bytes res) \<Rightarrow> fab_action \<Rightarrow> bool" where
  "sound_action E get a = (case a of
       FabIssue i \<Rightarrow> (\<exists>os. iOutputs i = map (\<lambda>o'. Some (Some o')) os)
     | FabTransfer t \<Rightarrow> balanced E get t)"

lemma in_keys_fab: "in_keys (to_action E a) = fab_inputs a"
  by (cases a) (simp_all add: in_keys_def to_action_def fab_inputs_def inputs_of_def TransferAction_GetInputs_def)

lemma fab_not_setup: "to_action E a \<noteq> SetupAction r"
  by (cases a) (simp_all add: to_action_def)

lemma fab_outputs:
  assumes "sound_action E get a" and "token_codec E (set (created a))"
  shows "action_outputs (to_action E a) = length (created a)"
    and "\<And>txID c L. admissible txID c L (to_action E a) \<Longrightarrow>
      (\<forall>j \<in> set (out_indices (to_action E a)). L (tkey txID (c + of_nat j)) = [])
      \<and> (\<forall>k \<in> set (fab_inputs a). L k \<noteq> [])"
proof -
  have "action_outputs (to_action E a) = length (created a) \<and> (\<forall>txID c L. admissible txID c L (to_action E a) \<longrightarrow>
      (\<forall>j \<in> set (out_indices (to_action E a)). L (tkey txID (c + of_nat j)) = [])
      \<and> (\<forall>k \<in> set (fab_inputs a). L k \<noteq> []))"
  proof (cases a)
    case (FabIssue i)
    with assms obtain os where os: "iOutputs i = map (\<lambda>o'. Some (Some o')) os" "token_codec E (set os)"
      by (auto simp: sound_action_def created_def)
    with FabIssue serialize_ok [OF os(2)] show ?thesis
      by (simp add: to_action_def issue_outputs_def IssueAction_GetSerializedOutputs_def created_def
          out_indices_def IssueAction_NumOutputs_def fab_inputs_def)
  next
    case (FabTransfer t)
    with assms obtain os where "tOutputs t = map (\<lambda>o'. Some (Some o')) os"
      by (auto simp: sound_action_def balanced_def)
    with FabTransfer show ?thesis
      by (simp add: to_action_def created_def TransferAction_NumOutputs_def out_indices_def fab_inputs_def
          inputs_of_def TransferAction_GetInputs_def TransferAction_IsGraphHiding_def)
  qed
  then show "action_outputs (to_action E a) = length (created a)"
    and "\<And>txID c L. admissible txID c L (to_action E a) \<Longrightarrow>
      (\<forall>j \<in> set (out_indices (to_action E a)). L (tkey txID (c + of_nat j)) = [])
      \<and> (\<forall>k \<in> set (fab_inputs a). L k \<noteq> [])" by blast+
qed

lemma action_gain:
  assumes "K \<subseteq> token_keys" and "sound_action E get a" and "\<And>k raw. get k = Inr raw \<Longrightarrow> raw = L k"
    and "token_codec E (set (created a))" and "set (fab_inputs a) \<subseteq> K"
    and "\<forall>j < action_outputs (to_action E a). tkey txID (c + of_nat j) \<in> K"
    and "admissible txID c L (to_action E a)"
  shows "gain E ty K L (action_writes txID c (to_action E a)) = issued ty a - redeemed ty a"
proof (cases a)
  case (FabIssue i)
  with assms(2) obtain os where os: "iOutputs i = map (\<lambda>o'. Some (Some o')) os"
    by (auto simp: sound_action_def)
  have "length (created a) = length os" using os FabIssue by (simp add: created_def)
  with assms(4,6) fab_outputs(1) [OF assms(2,4)] FabIssue os
  have "token_codec E (set os)" "\<forall>j < length os. tkey txID (c + of_nat j) \<in> K"
    by (simp_all add: created_def)
  from issue_gain [OF assms(1) os this, of L ty] assms(7) FabIssue show ?thesis by (simp add: redeemed_def)
next
  case (FabTransfer t)
  with assms(2) obtain os where "tOutputs t = map (\<lambda>o'. Some (Some o')) os" and b: "balanced E get t"
    by (auto simp: sound_action_def balanced_def)
  with assms(6) fab_outputs(1) [OF assms(2,4)] FabTransfer
  have "\<forall>j < length (tOutputs t). tkey txID (c + of_nat j) \<in> K" by (simp add: created_def)
  then have "gain E ty K L (action_writes txID c (to_action E (FabTransfer t))) = - redeemed ty (FabTransfer t)"
    using assms FabTransfer b by (intro transfer_gain [OF assms(1) b]) (simp_all add: fab_inputs_def)
  with FabTransfer show ?thesis by (simp add: issued_def)
qed

text \<open>The premises on the actions of a request, from the counter on.\<close>

definition request_ok :: "fab_env \<Rightarrow> (string \<Rightarrow> bytes res) \<Rightarrow> string set \<Rightarrow> fab_action list \<Rightarrow> bool" where
  "request_ok E get K facts \<longleftrightarrow> K \<subseteq> token_keys
     \<and> (\<forall>a \<in> set facts. sound_action E get a \<and> token_codec E (set (created a)) \<and> set (fab_inputs a) \<subseteq> K)"

lemma request_gain:
  assumes "request_ok E get K facts" and "\<And>k raw. get k = Inr raw \<Longrightarrow> raw = L k"
    and "\<forall>j < all_outputs (map (to_action E) facts). tkey txID (c + of_nat j) \<in> K"
    and "request_admissible txID c L (map (to_action E) facts)"
  shows "gain E ty K L (request_writes txID c (map (to_action E) facts))
    = sum_list (map (issued ty) facts) - sum_list (map (redeemed ty) facts)"
  using assms(1,3,4)
proof (induction facts arbitrary: c)
  case (Cons a facts)
  let ?n = "action_outputs (to_action E a)"
  have n: "all_outputs (map (to_action E) (a # facts)) = ?n + all_outputs (map (to_action E) facts)"
    by (simp add: all_outputs_def)
  have "tkey txID (c + of_nat ?n + of_nat j) \<in> K" if "j < all_outputs (map (to_action E) facts)" for j
    using Cons.prems(2) n that by (metis add.assoc nat_add_left_cancel_less of_nat_add)
  then have "gain E ty K L (request_writes txID (c + of_nat ?n) (map (to_action E) facts))
    = sum_list (map (issued ty) facts) - sum_list (map (redeemed ty) facts)"
    using Cons.prems by (intro Cons.IH) (auto simp: request_ok_def)
  moreover have "gain E ty K L (action_writes txID c (to_action E a)) = issued ty a - redeemed ty a"
    using Cons.prems n assms(2) by (intro action_gain [where get = get]) (auto simp: request_ok_def)
  ultimately show ?case by (simp add: gain_append)
qed (simp add: gain_def)

lemma request_states:
  assumes "request_ok E get K facts" and "request_admissible txID c L (map (to_action E) facts)"
  shows "(\<forall>k \<in> set (out_keys txID c (map (to_action E) facts)). L k = [])
    \<and> (\<forall>k \<in> set (concat (map fab_inputs facts)). L k \<noteq> [])"
  using assms
proof (induction facts arbitrary: c)
  case (Cons a facts)
  have a: "sound_action E get a" "token_codec E (set (created a))" and r: "request_ok E get K facts"
    using Cons.prems(1) by (auto simp: request_ok_def)
  from Cons.IH [OF r] fab_outputs(2) [OF a] Cons.prems(2) show ?case by (auto simp: ball_Un)
qed simp

lemma request_supply:
  assumes "request_ok E get K facts" and "\<And>k raw. get k = Inr raw \<Longrightarrow> raw = L k" and "finite K"
    and "\<forall>j < all_outputs (map (to_action E) facts). tkey txID (of_nat j) \<in> K"
    and "all_outputs (map (to_action E) facts) \<le> 2 ^ 64" and "valid_attribute txID"
    and "request_admissible txID 0 L (map (to_action E) facts)"
    and "distinct (concat (map fab_inputs facts))"
  shows "total_supply E ty K (apply_writes (request_writes txID 0 (map (to_action E) facts)) L)
    = total_supply E ty K L + sum_list (map (issued ty) facts) - sum_list (map (redeemed ty) facts)"
proof -
  let ?acts = "map (to_action E) facts"
  let ?ws = "request_writes txID 0 ?acts"
  have K: "K \<subseteq> token_keys" using assms(1) by (simp add: request_ok_def)
  have ins: "concat (map in_keys ?acts) = concat (map fab_inputs facts)"
    by (simp add: comp_def in_keys_fab)
  have "set (out_keys txID 0 ?acts) \<subseteq> K"
    using out_keys_index [of _ txID 0 ?acts] assms(4) by fastforce
  moreover have "\<forall>a \<in> set ?acts. set (in_keys a) \<subseteq> K \<and> (\<forall>r. a \<noteq> SetupAction r)"
    using assms(1) by (auto simp: request_ok_def in_keys_fab fab_not_setup)
  ultimately have "mset (map fst (filter (\<lambda>(k, v). k \<in> K) ?ws))
      = mset (out_keys txID 0 ?acts @ concat (map fab_inputs facts))"
    using request_keys [OF K] ins by simp
  moreover have "distinct (out_keys txID 0 ?acts @ concat (map fab_inputs facts))"
    using out_keys_distinct [OF assms(6,5)] assms(8) request_states [OF assms(1,7)] by (auto simp del: set_concat)
  ultimately have "distinct (map fst (filter (\<lambda>(k, v). k \<in> K) ?ws))"
    using mset_eq_imp_distinct_iff by blast
  then have "total_supply E ty K (apply_writes ?ws L) = total_supply E ty K L + gain E ty K L ?ws"
    by (rule supply_writes [OF assms(3)])
  moreover have "gain E ty K L ?ws = sum_list (map (issued ty) facts) - sum_list (map (redeemed ty) facts)"
    using assms(4) by (intro request_gain [OF assms(1,2) _ assms(7)]) simp_all
  ultimately show ?thesis by simp
qed

section \<open>The validator of the chaincode\<close>

lemma verify_outputs_tokens: "verify_outputs p outs = Inr () \<Longrightarrow> \<exists>os. outs = map (\<lambda>o'. Some (Some o')) os"
proof (induction outs)
  case (Cons x outs)
  then obtain tok where "x = Some (Some tok)" "verify_outputs p outs = Inr ()"
    by (auto simp: go_simps split: if_splits)
  with Cons.IH obtain os where "x # outs = map (\<lambda>o'. Some (Some o')) (tok # os)" by auto
  then show ?case ..
qed simp

lemma accepted_sound:
  assumes "VerifyTokenRequestFromRaw E v (Some get) binding raw = Inr facts" and "standard E v" and "a \<in> set facts"
  shows "sound_action E get a"
proof (rule VerifyTokenRequestFromRaw_ok [OF assms(1)])
  fix get' tr msg ia ta b b1 b2 b3
  assume g: "Some get = Some get'" and b: "b = NewBackend get' (msg @ binding)
       (if the_default [] (Auditor (pp v)) \<noteq> [] then AuditorSignatures tr @ Signatures tr else Signatures tr)"
    and aud: "VerifyAuditorSignature v b = (Inr (), b1)" and iss: "VerifyIssues v ia b1 = (Inr (), b2)"
    and trs: "VerifyTransfers E v (Backend_GetState b) ta b2 = (Inr (), b3)"
    and acts: "facts = map FabIssue ia @ map FabTransfer ta"
  have get: "Backend_GetState b = get" and c0: "Cursor b = 0"
    using g by (simp_all add: b fun_eq_iff Backend_GetState_def NewBackend_def)
  have st: "transferValidators v
      = [TransferSignatureValidate, TransferBalanceValidate, TransferHTLCValidate E] @ []"
    using assms(2) by (simp add: standard_def)
  note i = VerifyIssues_signed [OF iss conjunct1 [OF VerifyAuditorSignature_signed [OF aud c0]]]
  show ?thesis
  proof (cases a)
    case (FabIssue x)
    with assms(3) acts have "x \<in> set ia" by auto
    with i have "VerifyIssue v x = Inr ()" by blast
    with FabIssue show ?thesis
      by (auto simp: sound_action_def VerifyIssue_def split: if_splits dest: verify_outputs_tokens)
  next
    case (FabTransfer t)
    with assms(3) acts have "t \<in> set ta" by auto
    with VerifyTransfers_balanced [OF trs _ st] get FabTransfer show ?thesis by (simp add: sound_action_def)
  qed
qed

lemma fab_services:
  assumes "init_fabtoken F [] = (Inr (), ds)" and "NewServicesFromPublicParams C ds raw = Inr (m, V)"
  shows "\<exists>v. V = fab_validator (fsEnv F) v \<and> standard (fsEnv F) v"
proof -
  have ds: "ds = [(PublicParameters, fab_driver F)]"
    using assms(1) by (simp add: init_fabtoken_def Register_def)
  from assms(2) obtain p where "core_NewValidator ds p = Inr V"
    by (auto simp: NewServicesFromPublicParams_def go_simps)
  then obtain v q where "V = fab_validator (fsEnv F) v"
    and "NewValidator (fsEnv F) (fsSigClock F) (fsHtlcClock F) q (Some (NewDeserializer (fsEnv F) (fsMsp F))) [] = Inr v"
    by (auto simp: core_NewValidator_def ds go_simps fab_driver_def FabDriver_NewValidator_def
        split: if_splits option.splits)
  then show ?thesis by (auto simp: NewValidator_def standard_def split: option.splits)
qed

section \<open>Properties\<close>

text \<open>
  C3: value on the ledger, end to end: when a chaincode whose only driver is the one for plain
  tokens answers \<open>invoke\<close> with success, its validator accepted a request such that, for every
  type and every finite set of token keys that has the inputs and the new outputs: if no
  token is listed twice among the inputs of all the transfers, the sum of the tokens in the
  set after the transaction is the sum before it plus what the issues create and minus what
  the transfers redeem. (The tokens created are encodable, and there are at most two to the
  64 outputs.)
\<close>
theorem invocation_conserves_value:
  assumes "chaincode_stub stub rd wr" and "init_fabtoken F [] = (Inr (), ds)"
    and "cc_reachable C ds (tcc w)" and "GetArgs stub = [InvokeFunction]"
    and "Invoke sha256 env stub w = (Success b, v)" and "wr (sim w) = rd (sim w)"
  shows "\<exists>t val raw facts. GetTransient stub = Inr t \<and> t ''token_request'' = Some raw
    \<and> VerifyTokenRequestFromRaw (fsEnv F) val (Some (\<lambda>k. fst (StubGetState stub k (sim w)))) (GetTxID stub) raw = Inr facts
    \<and> (\<forall>ty K. finite K \<and> K \<subseteq> token_keys
        \<and> set (concat (map fab_inputs facts)) \<subseteq> K \<and> distinct (concat (map fab_inputs facts))
        \<and> (\<forall>j < all_outputs (map (to_action (fsEnv F)) facts). tkey (GetTxID stub) (of_nat j) \<in> K)
        \<and> all_outputs (map (to_action (fsEnv F)) facts) \<le> 2 ^ 64
        \<and> token_codec (fsEnv F) (set (concat (map created facts))) \<longrightarrow>
        total_supply (fsEnv F) ty K (wr (sim v)) = total_supply (fsEnv F) ty K (rd (sim w))
          + sum_list (map (issued ty) facts) - sum_list (map (redeemed ty) facts))"
proof -
  let ?E = "fsEnv F" and ?txID = "GetTxID stub"
  let ?get = "\<lambda>k. fst (StubGetState stub k (sim w))"
  obtain agent u where a: "NewMetricsAgent env InvokeFunction w = (Inr agent, u)"
    and c: "call_function sha256 env stub InvokeFunction [] u = (Inr (Success b), v)"
    by (rule Invoke_steps [OF assms(5,4)])
  have u: "sim u = sim w" and ok: "services_ok C ds (tcc u)"
    using NewMetricsAgent_sim [OF a] services_ok_step [OF cc_reachable_ok [OF assms(3)] steadyD [OF steady_NewMetricsAgent a]]
    by simp_all
  from c obtain t raw where t: "GetTransient stub = Inr t" "t ''token_request'' = Some raw"
    and pr: "ProcessRequest sha256 env raw stub u = (Inr (Success b), v)"
    by (auto simp: call_function_def or_fail_eq_Success split: option.splits sum.splits error.splits)
  from ProcessRequest_effect [OF assms(1) ok pr, unfolded u] obtain params m V acts kr where
    V: "NewServicesFromPublicParams C ds params = Inr (m, V)"
    and acc: "vVerifyTokenRequestFromRaw V (Some ?get) ?txID raw = Inr acts"
    and adm: "request_admissible ?txID 0 (rd (sim w)) acts"
    and kr: "CreateTokenRequestKey ?txID = Inr kr"
    and wr: "wr (sim v) = (apply_writes (request_writes ?txID 0 acts) (wr (sim w)))(kr := raw)"
    by blast
  obtain val where val: "V = fab_validator ?E val" "standard ?E val"
    using fab_services [OF assms(2) V] by blast
  with acc obtain facts where facts: "VerifyTokenRequestFromRaw ?E val (Some ?get) ?txID raw = Inr facts"
    and acts: "acts = map (to_action ?E) facts" by (auto simp: fab_validator_def go_simps)
  have valid: "valid_attribute ?txID"
    using kr by (simp add: CreateTokenRequestKey_def CreateCompositeKey_eq)
  have get: "?get k = Inr r \<Longrightarrow> r = rd (sim w) k" for k r
    using chaincode_stub.stub_get [OF assms(1)] by (metis prod.collapse)
  have "total_supply ?E ty K (wr (sim v)) = total_supply ?E ty K (rd (sim w))
      + sum_list (map (issued ty) facts) - sum_list (map (redeemed ty) facts)"
    if K: "finite K" "K \<subseteq> token_keys" and ins: "set (concat (map fab_inputs facts)) \<subseteq> K"
      "distinct (concat (map fab_inputs facts))"
      and outs: "\<forall>j < all_outputs (map (to_action ?E) facts). tkey ?txID (of_nat j) \<in> K"
      "all_outputs (map (to_action ?E) facts) \<le> 2 ^ 64"
      and codec: "token_codec ?E (set (concat (map created facts)))" for ty K
  proof -
    have "request_ok ?E ?get K facts"
      using accepted_sound [OF facts val(2)] K(2) ins(1) codec by (auto simp: request_ok_def token_codec_def)
    from request_supply [where get = ?get and L = "rd (sim w)", OF this get K(1) outs valid _ ins(2)] adm
    have "total_supply ?E ty K (apply_writes (request_writes ?txID 0 acts) (rd (sim w)))
        = total_supply ?E ty K (rd (sim w)) + sum_list (map (issued ty) facts) - sum_list (map (redeemed ty) facts)"
      unfolding acts by blast
    moreover have "kr \<notin> K" using K(2) token_keys_untouched(4) kr by blast
    ultimately show ?thesis
      by (simp add: wr assms(6) supply_update [OF K(1)] del: fun_upd_apply)
  qed
  with facts t show ?thesis by blast
qed

text \<open>The example's environment decodes every request to the same transfer.\<close>

lemma example_facts:
  assumes "VerifyTokenRequestFromRaw (example_fab t) v (Some get) txID raw = Inr facts"
  shows "facts = [FabTransfer t]"
proof (rule VerifyTokenRequestFromRaw_ok [OF assms])
  fix tr ia ta
  assume "unmarshal_TokenRequest (example_fab t) raw = Inr tr"
    and "UnmarshalIssueTransferActions (example_fab t) tr = Inr (ia, ta)"
    and "facts = map FabIssue ia @ map FabTransfer ta"
  then show ?thesis
    by (auto simp: example_fab_def env.extend_def UnmarshalIssueTransferActions_def UnmarshalIssueActions_def
        UnmarshalTransferActions_def)
qed

lemma example_codec_tokens: "token_codec (example_fab t) {token5}"
  by (simp add: token_codec_def example_fab_def env.extend_def tokens_differ)

lemma token5_facts: "has_owner token5" "qval (tokQuantity token5) = 5" "tokType token5 = ''USD''"
  by (simp_all add: has_owner_def token5_def del: Hex.simps)

lemma invocation_conserves_value_witness:
  "\<exists>kin k0 v. CreateTokenKey ''t'' 0 = Inr kin \<and> CreateTokenKey ''tx'' 0 = Inr k0
    \<and> Invoke (\<lambda>b. b) example_cc_env example_stub (example_world (pay_from kin) ((\<lambda>_. [])(kin := ''T''))) = (Success [], v)
    \<and> total_supply (example_fab (pay_from kin)) ''USD'' {kin, k0} (write_set (sim v)) = 5"
proof -
  obtain kin where kin: "CreateTokenKey ''t'' 0 = Inr kin"
    using CreateTokenKey_total [of "''t''"] by (auto simp: valid_attribute_ascii)
  obtain k0 kr where k: "CreateTokenKey ''tx'' 0 = Inr k0" "CreateTokenRequestKey ''tx'' = Inr kr"
    by (rule example_keys)
  let ?L = "(\<lambda>_. [])(kin := ''T'')" and ?t = "pay_from kin"
  let ?E = "example_fab ?t" and ?w = "example_world ?t ?L"
  have tk: "kin \<in> token_keys" "k0 \<in> token_keys"
    using kin k(1) by (force simp: token_keys_def key_consts)+
  have ne: "k0 \<noteq> kin" "kr \<noteq> kin"
    using kin k(1) CreateTokenKey_inject token_keys_untouched(4) [OF tk(1)] k(2) by force+
  obtain v where v: "Invoke (\<lambda>b. b) example_cc_env example_stub ?w = (Success [], v)"
    using pay_invoked [where L = ?L and k = kin, OF _ _ k] ne by fastforce
  have F: "init_fabtoken (example_setting ?t) [] = (Inr (), example_drivers ?t)" "fsEnv (example_setting ?t) = ?E"
    by (simp_all add: init_fabtoken_def Register_def example_drivers_def example_setting_def)
  have w: "committed (sim ?w) = ?L" "write_set (sim ?w) = committed (sim ?w)" by (simp_all add: example_world_def)
  have args: "GetArgs example_stub = [InvokeFunction]" by simp
  from invocation_conserves_value [OF example_chaincode_stub F(1) example_reachable args v w(2)]
  obtain val raw facts where acc: "VerifyTokenRequestFromRaw ?E val
        (Some (\<lambda>k. fst (StubGetState example_stub k (sim ?w)))) (GetTxID example_stub) raw = Inr facts"
    and con: "\<forall>ty K. finite K \<and> K \<subseteq> token_keys
        \<and> set (concat (map fab_inputs facts)) \<subseteq> K \<and> distinct (concat (map fab_inputs facts))
        \<and> (\<forall>j < all_outputs (map (to_action ?E) facts). tkey ''tx'' (of_nat j) \<in> K)
        \<and> all_outputs (map (to_action ?E) facts) \<le> 2 ^ 64
        \<and> token_codec ?E (set (concat (map created facts))) \<longrightarrow>
        total_supply ?E ty K (write_set (sim v)) = total_supply ?E ty K (committed (sim ?w))
          + sum_list (map (issued ty) facts) - sum_list (map (redeemed ty) facts)"
    unfolding F(2) example_stub_simps by blast
  have facts: "facts = [FabTransfer ?t]" by (rule example_facts [OF acc])
  have "tOutputs ?t = map (\<lambda>o'. Some (Some o')) [token5]" "Inputs ?t = [kin]" by (simp_all add: pay_from_def)
  then have props: "map fab_inputs facts = [[kin]]" "map created facts = [[token5]]"
    "map (issued ''USD'') facts = [0]" "map (redeemed ''USD'') facts = [0]"
    "all_outputs (map (to_action ?E) facts) = 1"
    using token5_facts output_tokens_Some [of "[token5]"]
    by (simp_all add: facts fab_inputs_def created_def issued_def redeemed_def value_of_def all_outputs_def
        to_action_def TransferAction_NumOutputs_def)
  have "total_supply ?E ''USD'' {kin, k0} (write_set (sim v)) = total_supply ?E ''USD'' {kin, k0} (committed (sim ?w))"
    using con [rule_format, of "{kin, k0}" "''USD''"] tk k(1) example_codec_tokens unfolding props by simp
  also have "\<dots> = 5"
    using ne token5_facts
    by (simp add: w(1) total_supply_def token_value_def example_fab_def env.extend_def)
  finally show ?thesis using kin k(1) v by blast
qed

end
