(* ===== verification/Locker.thy ===== *)
theory Locker
  imports Keys "HOL-Library.AList"
begin

text \<open>
  The locks on unspent tokens that transactions take while they are assembled
  (\<open>token/services/selector/inmemory/locker.go\<close>): a map from token identifiers to the
  transaction that holds them, operations that each run under a mutex, and a collector that
  scans the map in the background in two critical sections.
\<close>

section \<open>The locker\<close>

definition Valid :: int where "Valid = 1"
definition Invalid :: int where "Invalid = 2"

record lockEntry =
  leTxID :: string
  Created :: int
  LastAccess :: int

record locker =
  locked :: "(ID \<times> lockEntry) list"
  validTxEvictionTimeout :: int

text \<open>
  The vault's answer to \<open>Status\<close> may change from call to call; an operation gets the one
  of its call, and the time. \<open>Lock\<close> returns an owner and an error, which may be nil.
\<close>

type_synonym statuses = "string \<Rightarrow> int res"
type_synonym lock_result = "string \<times> error option"

definition AlreadyLockedError :: error where
  "AlreadyLockedError = Err ''already locked''"

definition NewLocker :: "int \<Rightarrow> locker" where
  "NewLocker timeout = \<lparr>locked = [], validTxEvictionTimeout = timeout\<rparr>"

definition reclaim :: "statuses \<Rightarrow> ID \<Rightarrow> string \<Rightarrow> locker \<Rightarrow> bool \<times> locker" where
  "reclaim status i txID d =
     (case status txID of
        Inl e \<Rightarrow> (False, d)
      | Inr s \<Rightarrow>
          if s = Invalid then (True, d\<lparr>locked := AList.delete i (locked d)\<rparr>)
          else (False, d))"

text \<open>The first critical section, under the read lock; and the second.\<close>

definition Lock_fast :: "ID \<Rightarrow> bool \<Rightarrow> locker \<Rightarrow> lock_result option" where
  "Lock_fast i recl d =
     (if map_of (locked d) i \<noteq> None \<and> \<not> recl then Some ([], Some AlreadyLockedError) else None)"

definition take_lock :: "int \<Rightarrow> ID \<Rightarrow> string \<Rightarrow> locker \<Rightarrow> lock_result \<times> locker" where
  "take_lock now i txID d =
     (([], None), d\<lparr>locked :=
        AList.update i \<lparr>leTxID = txID, Created = now, LastAccess = now\<rparr> (locked d)\<rparr>)"

definition Lock_slow ::
  "statuses \<Rightarrow> int \<Rightarrow> ID \<Rightarrow> string \<Rightarrow> bool \<Rightarrow> locker \<Rightarrow> lock_result \<times> locker" where
  "Lock_slow status now i txID recl d =
     (case map_of (locked d) i of
        None \<Rightarrow> take_lock now i txID d
      | Some e \<Rightarrow>
          let d1 = d\<lparr>locked := AList.update i (e\<lparr>LastAccess := now\<rparr>) (locked d)\<rparr> in
          if recl
          then (case reclaim status i (leTxID e) d1 of
                  (True, d2) \<Rightarrow> take_lock now i txID d2
                | (False, d2) \<Rightarrow> ((leTxID e, Some AlreadyLockedError), d2))
          else ((leTxID e, Some AlreadyLockedError), d1))"

definition Lock ::
  "statuses \<Rightarrow> int \<Rightarrow> ID \<Rightarrow> string \<Rightarrow> bool \<Rightarrow> locker \<Rightarrow> lock_result \<times> locker" where
  "Lock status now i txID recl d =
     (case Lock_fast i recl d of
        Some r \<Rightarrow> (r, d)
      | None \<Rightarrow> Lock_slow status now i txID recl d)"

fun unlock_loop :: "ID list \<Rightarrow> ID list \<Rightarrow> (ID \<times> lockEntry) list \<Rightarrow> ID list \<times> (ID \<times> lockEntry) list" where
  "unlock_loop notFound [] l = (notFound, l)"
| "unlock_loop notFound (i # ids) l =
     (if map_of l i = None then unlock_loop (notFound @ [i]) ids l
      else unlock_loop notFound ids (AList.delete i l))"

definition UnlockIDs :: "ID list \<Rightarrow> locker \<Rightarrow> ID list \<times> locker" where
  "UnlockIDs ids d =
     (case unlock_loop [] ids (locked d) of (notFound, l) \<Rightarrow> (notFound, d\<lparr>locked := l\<rparr>))"

definition UnlockByTxID :: "string \<Rightarrow> locker \<Rightarrow> locker" where
  "UnlockByTxID txID d = d\<lparr>locked := filter (\<lambda>(i, e). leTxID e \<noteq> txID) (locked d)\<rparr>"

definition IsLocked :: "ID \<Rightarrow> locker \<Rightarrow> bool" where
  "IsLocked i d \<longleftrightarrow> map_of (locked d) i \<noteq> None"

text \<open>
  One round of the collector: under the read lock it lists the tokens to free, and later,
  under the write lock, it frees those of the list.
\<close>

definition evict :: "statuses \<Rightarrow> int \<Rightarrow> int \<Rightarrow> lockEntry \<Rightarrow> bool" where
  "evict status now timeout e =
     (case status (leTxID e) of
        Inl err \<Rightarrow> True
      | Inr s \<Rightarrow>
          if s = Valid then now - LastAccess e > timeout
          else s = Invalid)"

definition scan_collect :: "statuses \<Rightarrow> int \<Rightarrow> locker \<Rightarrow> ID list" where
  "scan_collect status now d =
     map fst (filter (\<lambda>(i, e). evict status now (validTxEvictionTimeout d) e) (locked d))"

definition scan_free :: "ID list \<Rightarrow> locker \<Rightarrow> locker" where
  "scan_free removeList d = d\<lparr>locked := fold AList.delete removeList (locked d)\<rparr>"

section \<open>The concurrent system\<close>

text \<open>
  The threads that lock and unlock, and the collector, take turns; what a thread carries
  between its two critical sections is in the state. A locking thread that passed the first
  section goes on to the second whatever happened in between.
\<close>

record system =
  lk :: locker
  waiting :: "(ID \<times> string \<times> bool) list"
  removing :: "ID list option"

datatype event =
    FastLock ID string bool
  | SlowLock ID string bool lock_result
  | Unlock "ID list"
  | UnlockTx string
  | ScanCollect
  | ScanFree

inductive step :: "statuses \<Rightarrow> int \<Rightarrow> system \<Rightarrow> event \<Rightarrow> system \<Rightarrow> bool"
  for status :: statuses and now :: int where
  fast_refused: "Lock_fast i recl (lk s) = Some r \<Longrightarrow> step status now s (FastLock i txID recl) s"
| fast_passed: "Lock_fast i recl (lk s) = None \<Longrightarrow>
    step status now s (FastLock i txID recl) (s\<lparr>waiting := (i, txID, recl) # waiting s\<rparr>)"
| slow: "(i, txID, recl) \<in> set (waiting s) \<Longrightarrow> Lock_slow status now i txID recl (lk s) = (r, d) \<Longrightarrow>
    step status now s (SlowLock i txID recl r)
      (s\<lparr>lk := d, waiting := remove1 (i, txID, recl) (waiting s)\<rparr>)"
| unlock: "UnlockIDs ids (lk s) = (nf, d) \<Longrightarrow> step status now s (Unlock ids) (s\<lparr>lk := d\<rparr>)"
| unlock_tx: "step status now s (UnlockTx txID) (s\<lparr>lk := UnlockByTxID txID (lk s)\<rparr>)"
| collect: "removing s = None \<Longrightarrow>
    step status now s ScanCollect (s\<lparr>removing := Some (scan_collect status now (lk s))\<rparr>)"
| free: "removing s = Some l \<Longrightarrow>
    step status now s ScanFree (s\<lparr>lk := scan_free l (lk s), removing := None\<rparr>)"

inductive_cases step_FastLockE: "step status now s (FastLock i txID recl) t"
inductive_cases step_SlowLockE: "step status now s (SlowLock i txID recl r) t"
inductive_cases step_UnlockE: "step status now s (Unlock ids) t"
inductive_cases step_UnlockTxE: "step status now s (UnlockTx txID) t"
inductive_cases step_CollectE: "step status now s ScanCollect t"
inductive_cases step_FreeE: "step status now s ScanFree t"

text \<open>A run: the statuses and the time may differ from step to step.\<close>

inductive run :: "system \<Rightarrow> (statuses \<times> int \<times> event) list \<Rightarrow> system \<Rightarrow> bool" where
  run_Nil: "run s [] s"
| run_Cons: "step status now s ev u \<Longrightarrow> run u evs t \<Longrightarrow> run s ((status, now, ev) # evs) t"

section \<open>The holder of a token\<close>

definition holder :: "locker \<Rightarrow> ID \<Rightarrow> string option" where
  "holder d i = map_option leTxID (map_of (locked d) i)"

lemma holder_update [simp]:
  "holder (d\<lparr>locked := AList.update i e l\<rparr>) = (holder (d\<lparr>locked := l\<rparr>))(i := Some (leTxID e))"
  by (simp add: holder_def fun_eq_iff update_conv')

lemma holder_delete [simp]:
  "holder (d\<lparr>locked := AList.delete i l\<rparr>) = (holder (d\<lparr>locked := l\<rparr>))(i := None)"
  by (simp add: holder_def fun_eq_iff delete_conv')

lemma holder_same [simp]: "holder (d\<lparr>locked := locked d'\<rparr>) = holder d'"
  by (simp add: holder_def fun_eq_iff)

lemma holder_None_iff: "holder d i = None \<longleftrightarrow> map_of (locked d) i = None"
  by (simp add: holder_def)

text \<open>What taking a lock does, seen through the holders.\<close>

lemma Lock_slow_holder:
  assumes "Lock_slow status now i txID recl d = ((o', err), d')"
  shows "(err = None \<longrightarrow> holder d' = (holder d)(i := Some txID)
      \<and> (\<forall>t. holder d i = Some t \<longrightarrow> recl \<and> status t = Inr Invalid))
    \<and> (err \<noteq> None \<longrightarrow> holder d' = holder d \<and> holder d i = Some o')"
proof (cases "map_of (locked d) i")
  case None
  then have "holder d i = None" by (simp add: holder_def)
  with assms None show ?thesis by (auto simp: Lock_slow_def take_lock_def)
next
  case (Some e)
  then have h: "holder d i = Some (leTxID e)" by (simp add: holder_def)
  then have same: "(holder d)(i := Some (leTxID e)) = holder d" by (simp add: fun_upd_idem)
  from assms Some h same show ?thesis
    by (auto simp: Lock_slow_def take_lock_def reclaim_def Let_def split: if_splits sum.splits)
qed

lemma Lock_holder:
  assumes "Lock status now i txID recl d = ((o', err), d')"
  shows "(err = None \<longrightarrow> holder d' = (holder d)(i := Some txID)
      \<and> (\<forall>t. holder d i = Some t \<longrightarrow> recl \<and> status t = Inr Invalid))
    \<and> (err \<noteq> None \<longrightarrow> holder d' = holder d \<and> holder d i \<noteq> None)"
proof (cases "Lock_fast i recl d")
  case None
  with assms have "Lock_slow status now i txID recl d = ((o', err), d')" by (simp add: Lock_def)
  from Lock_slow_holder [OF this] show ?thesis by auto
next
  case (Some r)
  with assms have "r = (o', err)" "d' = d" by (simp_all add: Lock_def)
  moreover have "r = ([], Some AlreadyLockedError)" "map_of (locked d) i \<noteq> None"
    using Some by (auto simp: Lock_fast_def split: if_splits)
  ultimately show ?thesis by (auto simp: holder_def)
qed

lemma unlock_loop_holder:
  "unlock_loop nf ids l = (nf', l') \<Longrightarrow>
     map_of l' i = (if i \<in> set ids then None else map_of l i)"
  by (induction nf ids l rule: unlock_loop.induct) (auto simp: delete_conv' split: if_splits)

lemma UnlockIDs_holder:
  assumes "UnlockIDs ids d = (nf, d')"
  shows "holder d' i = (if i \<in> set ids then None else holder d i)"
  using assms unlock_loop_holder [of "[]" ids "locked d"]
  by (auto simp: UnlockIDs_def holder_def split: prod.splits)

text \<open>The keys of the map are distinct, so that removing an entry removes the token.\<close>

definition wf_locker :: "locker \<Rightarrow> bool" where
  "wf_locker d \<longleftrightarrow> distinct (map fst (locked d))"

lemma unlock_loop_distinct:
  "unlock_loop nf ids l = (nf', l') \<Longrightarrow> distinct (map fst l) \<Longrightarrow> distinct (map fst l')"
  by (induction nf ids l rule: unlock_loop.induct) (auto simp: distinct_delete split: if_splits)

lemma wf_Lock_slow:
  "Lock_slow status now i txID recl d = (r, d') \<Longrightarrow> wf_locker d \<Longrightarrow> wf_locker d'"
  by (auto simp: Lock_slow_def take_lock_def reclaim_def wf_locker_def Let_def distinct_update distinct_delete
      split: option.splits if_splits sum.splits)

lemma wf_scan_free: "wf_locker d \<Longrightarrow> wf_locker (scan_free l d)"
  unfolding wf_locker_def scan_free_def
  by (induction l arbitrary: d rule: rev_induct) (auto simp: distinct_delete)

lemma scan_free_holder: "holder (scan_free l d) i = (if i \<in> set l then None else holder d i)"
  by (induction l rule: rev_induct) (auto simp: scan_free_def holder_def delete_conv')

lemma map_of_filter_value:
  "distinct (map fst l) \<Longrightarrow> map_of (filter (\<lambda>(i, e). P e) l) i
      = (case map_of l i of Some e \<Rightarrow> if P e then Some e else None | None \<Rightarrow> None)"
  by (induction l) (auto simp: map_of_eq_None_iff image_iff split: option.splits)

lemma UnlockByTxID_holder:
  assumes "wf_locker d"
  shows "holder (UnlockByTxID txID d) i = (if holder d i = Some txID then None else holder d i)"
  using map_of_filter_value [of "locked d" "\<lambda>e. leTxID e \<noteq> txID" i] assms
  by (cases "map_of (locked d) i") (simp_all add: UnlockByTxID_def holder_def wf_locker_def)

lemma step_wf: "step status now s ev t \<Longrightarrow> wf_locker (lk s) \<Longrightarrow> wf_locker (lk t)"
proof (induction rule: step.induct)
  case (slow i txID recl s r d)
  then show ?case using wf_Lock_slow by simp
next
  case (unlock ids s nf d)
  then show ?case
    using unlock_loop_distinct [of "[]" ids "locked (lk s)"]
    by (auto simp: UnlockIDs_def wf_locker_def split: prod.splits)
next
  case (unlock_tx s txID)
  then show ?case by (auto simp: UnlockByTxID_def wf_locker_def distinct_map_filter)
next
  case (free s l)
  then show ?case using wf_scan_free by simp
qed simp_all

lemma run_wf: "run s evs t \<Longrightarrow> wf_locker (lk s) \<Longrightarrow> wf_locker (lk t)"
  by (induction rule: run.induct) (auto dest: step_wf)


section \<open>Runs in which a transaction is pending\<close>

text \<open>
  A transaction is pending when the vault knows it and says neither that it is valid nor
  that it is invalid. A step frees a token when it unlocks it, by name or for its holder, or
  when it ends a round of the collector that listed it.
\<close>

definition pending :: "statuses \<Rightarrow> string \<Rightarrow> bool" where
  "pending status tx \<longleftrightarrow> (\<exists>x. status tx = Inr x \<and> x \<noteq> Valid \<and> x \<noteq> Invalid)"

fun releases :: "ID \<Rightarrow> string \<Rightarrow> event \<Rightarrow> bool" where
  "releases i tx (Unlock ids) = (i \<in> set ids)"
| "releases i tx (UnlockTx tx') = (tx' = tx)"
| "releases i tx ev = False"

fun refused :: "ID \<Rightarrow> event \<Rightarrow> bool" where
  "refused i (SlowLock j tx recl r) = (j = i \<longrightarrow> snd r \<noteq> None)"
| "refused i ev = True"

text \<open>The collector does not list a token whose holder is pending.\<close>

lemma scan_collect_pending:
  assumes "wf_locker d" "holder d i = Some tx" "pending status tx"
  shows "i \<notin> set (scan_collect status now d)"
proof
  assume "i \<in> set (scan_collect status now d)"
  then obtain e where e: "(i, e) \<in> set (locked d)" "evict status now (validTxEvictionTimeout d) e"
    by (auto simp: scan_collect_def)
  from e(1) assms(1) have "map_of (locked d) i = Some e" by (simp add: wf_locker_def)
  with assms(2) have "leTxID e = tx" by (simp add: holder_def)
  with e(2) assms(3) show False by (auto simp: evict_def pending_def)
qed

definition guarded :: "ID \<Rightarrow> string \<Rightarrow> system \<Rightarrow> bool" where
  "guarded i tx s \<longleftrightarrow> wf_locker (lk s) \<and> holder (lk s) i = Some tx
     \<and> (\<forall>l. removing s = Some l \<longrightarrow> i \<notin> set l)"

lemma step_guarded:
  assumes "step status now s ev t" "guarded i tx s" "pending status tx" "\<not> releases i tx ev"
  shows "guarded i tx t \<and> refused i ev"
proof -
  have wf: "wf_locker (lk t)" using step_wf assms(1,2) by (auto simp: guarded_def)
  show ?thesis
    using assms
  proof (cases rule: step.cases)
    case (slow j txID recl r d)
    obtain w err where r: "r = (w, err)" by force
    have "holder d i = Some tx \<and> (j = i \<longrightarrow> err \<noteq> None)"
    proof (cases "err = None")
      case True
      with Lock_slow_holder slow r assms(2,3) show ?thesis
        by (fastforce simp: guarded_def pending_def)
    next
      case False
      with Lock_slow_holder slow r assms(2) show ?thesis by (fastforce simp: guarded_def)
    qed
    with slow r wf assms(2) show ?thesis by (simp add: guarded_def)
  next
    case (unlock ids nf d)
    with UnlockIDs_holder [of ids "lk s" nf d i] wf assms(2,4) show ?thesis
      by (simp add: guarded_def)
  next
    case (unlock_tx txID)
    with UnlockByTxID_holder [of "lk s" txID i] wf assms(2,4) show ?thesis
      by (simp add: guarded_def)
  next
    case collect
    with scan_collect_pending assms(2,3) wf show ?thesis by (simp add: guarded_def)
  next
    case (free l)
    with wf assms(2) show ?thesis by (simp add: guarded_def scan_free_holder)
  qed (use assms(2) in \<open>simp_all add: guarded_def\<close>)
qed

lemma run_guarded:
  assumes "run s evs t" "guarded i tx s"
    and "\<forall>(status, now, ev) \<in> set evs. pending status tx \<and> \<not> releases i tx ev"
  shows "guarded i tx t \<and> (\<forall>(status, now, ev) \<in> set evs. refused i ev)"
  using assms
proof (induction rule: run.induct)
  case (run_Cons status now s ev u evs t)
  then have "guarded i tx u \<and> refused i ev" using step_guarded by simp
  with run_Cons show ?case by simp
qed simp

text \<open>How a step changes the holder of a token from one transaction to another.\<close>

lemma step_holder_change:
  assumes "step status now s ev t" "wf_locker (lk s)"
    and "holder (lk s) i = Some tx1" "holder (lk t) i = Some tx2" "tx1 \<noteq> tx2"
  shows "\<exists>w. ev = SlowLock i tx2 True (w, None) \<and> status tx1 = Inr Invalid"
  using assms(1)
proof (cases rule: step.cases)
  case (slow j txID recl r d)
  obtain w err where r: "r = (w, err)" by force
  with Lock_slow_holder slow have h:
    "(err = None \<longrightarrow> holder d = (holder (lk s))(j := Some txID)
       \<and> (\<forall>t. holder (lk s) j = Some t \<longrightarrow> recl \<and> status t = Inr Invalid))
     \<and> (err \<noteq> None \<longrightarrow> holder d = holder (lk s))" by blast
  have e: "err = None" using h slow assms by (cases err) auto
  have j: "j = i" using h e slow assms by (auto split: if_splits)
  have "recl" "status tx1 = Inr Invalid" "txID = tx2" using h e j slow assms by auto
  with slow(1) r e j show ?thesis by simp
next
  case (unlock ids nf d)
  with UnlockIDs_holder [of ids "lk s" nf d i] assms show ?thesis by (simp split: if_splits)
next
  case (unlock_tx txID)
  with UnlockByTxID_holder [of "lk s" txID i] assms show ?thesis by (simp split: if_splits)
next
  case (free l)
  with assms show ?thesis by (simp add: scan_free_holder split: if_splits)
qed (use assms in simp_all)

section \<open>Properties\<close>

definition demo_id :: ID where "demo_id = \<lparr>TxId = ''t'', Index = 0\<rparr>"

definition all_pending :: statuses where "all_pending tx = Inr 3"

definition tx1_dead :: statuses where
  "tx1_dead tx = (if tx = ''tx1'' then Inr Invalid else Inr 3)"

definition holding :: "string \<Rightarrow> (ID \<times> string \<times> bool) list \<Rightarrow> ID list option \<Rightarrow> system" where
  "holding tx ws l =
     \<lparr>lk = \<lparr>locked = [(demo_id, \<lparr>leTxID = tx, Created = 0, LastAccess = 0\<rparr>)],
            validTxEvictionTimeout = 5\<rparr>, waiting = ws, removing = l\<rparr>"

text \<open>
  C27: mutual exclusion while a transaction is pending: in every run of the locker in which
  the vault says of a transaction that it is neither valid nor invalid, a token that the
  transaction holds stays with it, and every other request for the token is refused, unless
  the token is unlocked, by its identifier or for its holder. The collector may run at any
  time; when the run starts it must not have listed the token already. No time that passes ends
  the lock of a pending transaction, although the documentation of the API speaks of a timeout.
\<close>

theorem pending_lock_exclusive:
  assumes "run s evs t" "wf_locker (lk s)" "holder (lk s) i = Some tx"
    and "\<forall>l. removing s = Some l \<longrightarrow> i \<notin> set l"
    and "\<forall>(status, now, ev) \<in> set evs. pending status tx \<and> \<not> releases i tx ev"
  shows "holder (lk t) i = Some tx \<and> (\<forall>(status, now, ev) \<in> set evs. refused i ev)"
  using run_guarded [of s evs t i tx] assms by (simp add: guarded_def)

lemma demo_refused:
  "run (holding ''tx1'' [(demo_id, ''tx2'', True)] None)
     [(all_pending, 0, ScanCollect),
      (all_pending, 0, SlowLock demo_id ''tx2'' True (''tx1'', Some AlreadyLockedError)),
      (all_pending, 1, ScanFree)]
     (holding ''tx1'' [] None)"
proof -
  have a: "step all_pending 0 (holding ''tx1'' [(demo_id, ''tx2'', True)] None) ScanCollect
     (holding ''tx1'' [(demo_id, ''tx2'', True)] (Some []))"
    using step.collect [of "holding ''tx1'' [(demo_id, ''tx2'', True)] None" all_pending 0]
    by (simp add: holding_def scan_collect_def evict_def all_pending_def Valid_def Invalid_def)
  have b: "step all_pending 0 (holding ''tx1'' [(demo_id, ''tx2'', True)] (Some []))
     (SlowLock demo_id ''tx2'' True (''tx1'', Some AlreadyLockedError)) (holding ''tx1'' [] (Some []))"
    using step.slow [of demo_id "''tx2''" True "holding ''tx1'' [(demo_id, ''tx2'', True)] (Some [])"
        all_pending 0]
    by (simp add: holding_def Lock_slow_def reclaim_def all_pending_def Invalid_def)
  have c: "step all_pending 1 (holding ''tx1'' [] (Some [])) ScanFree (holding ''tx1'' [] None)"
    using step.free [of "holding ''tx1'' [] (Some [])" "[]" all_pending 1]
    by (simp add: holding_def scan_free_def)
  from a b c show ?thesis by (blast intro: run_Nil run_Cons)
qed

theorem pending_lock_exclusive_witness:
  "holder (lk (holding ''tx1'' [] None)) demo_id = Some ''tx1''"
proof -
  have "holder (lk (holding ''tx1'' [(demo_id, ''tx2'', True)] None)) demo_id = Some ''tx1''"
    by (simp add: holding_def holder_def)
  from pending_lock_exclusive [OF demo_refused _ this] show ?thesis
    by (simp add: holding_def wf_locker_def pending_def all_pending_def Valid_def Invalid_def)
qed

text \<open>
  A token passes from a transaction to another one in one way only: a request that asks
  to reclaim it is granted, and the vault said that the transaction that held it is invalid.
  In particular no step of the collector hands a token over.
\<close>

theorem handover_only_by_reclaim:
  assumes "step status now s ev t" "wf_locker (lk s)"
    and "holder (lk s) i = Some tx1" "holder (lk t) i = Some tx2" "tx1 \<noteq> tx2"
  shows "\<exists>w. ev = SlowLock i tx2 True (w, None) \<and> status tx1 = Inr Invalid"
  using assms by (rule step_holder_change)

lemma demo_handover:
  "step tx1_dead 7 (holding ''tx1'' [(demo_id, ''tx2'', True)] None)
     (SlowLock demo_id ''tx2'' True ([], None))
     (holding ''tx1'' [] None\<lparr>lk := \<lparr>locked = [(demo_id, \<lparr>leTxID = ''tx2'', Created = 7, LastAccess = 7\<rparr>)],
            validTxEvictionTimeout = 5\<rparr>\<rparr>)"
  using step.slow [of demo_id "''tx2''" True "holding ''tx1'' [(demo_id, ''tx2'', True)] None"
      tx1_dead 7]
  by (simp add: holding_def Lock_slow_def reclaim_def take_lock_def tx1_dead_def)

theorem handover_only_by_reclaim_witness: "tx1_dead ''tx1'' = Inr Invalid"
  using handover_only_by_reclaim [OF demo_handover, of demo_id "''tx1''" "''tx2''"]
  by (simp add: holding_def wf_locker_def holder_def)

text \<open>
  The collector lists tokens in one critical section and frees them in the next one
  without looking again. A transaction that reclaims a token in between loses it, although
  it is pending: the token is then granted to a third one, and two pending transactions have
  been granted the same token with no unlock in between.
\<close>

theorem collector_frees_reclaimed_lock:
  "\<exists>t. run (holding ''tx1'' [(demo_id, ''tx2'', True), (demo_id, ''tx3'', False)] None)
     [(tx1_dead, 0, ScanCollect),
      (tx1_dead, 0, SlowLock demo_id ''tx2'' True ([], None)),
      (tx1_dead, 0, ScanFree),
      (tx1_dead, 0, SlowLock demo_id ''tx3'' False ([], None))] t
   \<and> holder (lk t) demo_id = Some ''tx3'' \<and> pending tx1_dead ''tx2''"
proof -
  let ?w2 = "(demo_id, ''tx2'', True)" and ?w3 = "(demo_id, ''tx3'', False)"
  let ?empty = "\<lparr>lk = \<lparr>locked = [], validTxEvictionTimeout = 5\<rparr>, waiting = [?w3], removing = None\<rparr>"
  have a: "step tx1_dead 0 (holding ''tx1'' [?w2, ?w3] None) ScanCollect
     (holding ''tx1'' [?w2, ?w3] (Some [demo_id]))"
    using step.collect [of "holding ''tx1'' [?w2, ?w3] None" tx1_dead 0]
    by (simp add: holding_def scan_collect_def evict_def tx1_dead_def Valid_def Invalid_def)
  have b: "step tx1_dead 0 (holding ''tx1'' [?w2, ?w3] (Some [demo_id]))
     (SlowLock demo_id ''tx2'' True ([], None)) (holding ''tx2'' [?w3] (Some [demo_id]))"
    using step.slow [of demo_id "''tx2''" True "holding ''tx1'' [?w2, ?w3] (Some [demo_id])" tx1_dead 0]
    by (simp add: holding_def Lock_slow_def reclaim_def take_lock_def tx1_dead_def)
  have c: "step tx1_dead 0 (holding ''tx2'' [?w3] (Some [demo_id])) ScanFree ?empty"
    using step.free [of "holding ''tx2'' [?w3] (Some [demo_id])" "[demo_id]" tx1_dead 0]
    by (simp add: holding_def scan_free_def)
  have d: "step tx1_dead 0 ?empty (SlowLock demo_id ''tx3'' False ([], None)) (holding ''tx3'' [] None)"
    using step.slow [of demo_id "''tx3''" False ?empty tx1_dead 0]
    by (simp add: holding_def Lock_slow_def take_lock_def)
  have "holder (lk (holding ''tx3'' [] None)) demo_id = Some ''tx3''"
    by (simp add: holding_def holder_def)
  moreover have "pending tx1_dead ''tx2''"
    by (simp add: pending_def tx1_dead_def Valid_def Invalid_def)
  ultimately show ?thesis using a b c d by (blast intro: run_Nil run_Cons)
qed

end
