(* ===== verification/Selector.thy ===== *)
theory Selector
  imports Locker Quantity "HOL-Library.Sublist"
begin

text \<open>
  The selection of the tokens that a transaction spends
  (\<open>token/services/selector/selector.go\<close>, \<open>manager.go\<close>): rounds that go through an
  iterator of unspent tokens, lock what they can until the target is reached, and give the
  locks back when it is not. The locker is an interface; the locker of the previous theory
  provides it. Metrics and logging are left out.
\<close>

section \<open>The interfaces\<close>

record 's Locker =
  LockOp :: "ID \<Rightarrow> string \<Rightarrow> bool \<Rightarrow> 's \<Rightarrow> lock_result \<times> 's"
  UnlockIDsOp :: "ID list \<Rightarrow> 's \<Rightarrow> ID list \<times> 's"
  UnlockByTxIDOp :: "string \<Rightarrow> 's \<Rightarrow> 's"

text \<open>
  The query service and the filter of an owner. The answers of the vault may differ from
  round to round. An iterator is the sequence of what its \<open>Next\<close> returns, tokens and
  errors; at the end it returns nil. The owners' identifier and the type are arguments of
  the query by identifier.
\<close>

record QueryService =
  UnspentTokensIterator :: "int \<Rightarrow> UnspentToken res list res"
  UnspentTokensIteratorBy :: "int \<Rightarrow> string \<Rightarrow> string \<Rightarrow> UnspentToken res list res"
  GetTokens :: "int \<Rightarrow> ID list \<Rightarrow> Token list res"

record OwnerFilter =
  ofID :: string
  ContainsToken :: "UnspentToken \<Rightarrow> bool"

definition allOwners :: OwnerFilter where
  "allOwners = \<lparr>ofID = [], ContainsToken = (\<lambda>_. True)\<rparr>"

record 's selector =
  txID :: string
  sLocker :: "'s Locker"
  queryService :: QueryService
  sPrecision :: u64
  numRetry :: int

record 's manager =
  mLocker :: "'s Locker"
  newQueryEngine :: QueryService
  mNumRetry :: int
  mPrecision :: u64

definition NewSelector :: "'s manager \<Rightarrow> string \<Rightarrow> 's selector" where
  "NewSelector m i =
     \<lparr>txID = i, sLocker = mLocker m, queryService = newQueryEngine m,
      sPrecision = mPrecision m, numRetry = mNumRetry m\<rparr>"

definition manager_Unlock :: "'s manager \<Rightarrow> string \<Rightarrow> ('s, unit) oper" where
  "manager_Unlock m tx s = (Inr (), UnlockByTxIDOp (mLocker m) tx s)"

definition SelectorInsufficientFunds :: error where
  "SelectorInsufficientFunds = Err ''insufficient funds''"
definition SelectorSufficientButLockedFunds :: error where
  "SelectorSufficientButLockedFunds = Err ''sufficient but partially locked funds''"
definition SelectorSufficientButNotCertifiedFunds :: error where
  "SelectorSufficientButNotCertifiedFunds = Err ''sufficient but partially not certified''"
definition SelectorSufficientFundsButConcurrencyIssue :: error where
  "SelectorSufficientFundsButConcurrencyIssue = Err ''sufficient funds but concurrency issue''"

lemmas selector_errors = SelectorInsufficientFunds_def SelectorSufficientButLockedFunds_def
  SelectorSufficientButNotCertifiedFunds_def SelectorSufficientFundsButConcurrencyIssue_def

section \<open>A round\<close>

text \<open>What a round has picked, and its three sums.\<close>

record picked =
  toBeSpent :: "ID list"
  selSum :: Quantity
  withLocked :: Quantity
  withNonCertified :: Quantity

definition nothing :: "u64 \<Rightarrow> picked" where
  "nothing p = \<lparr>toBeSpent = [], selSum = NewZeroQuantity p, withLocked = NewZeroQuantity p,
     withNonCertified = NewZeroQuantity p\<rparr>"

definition add_locked :: "Quantity \<Rightarrow> picked \<Rightarrow> picked res" where
  "add_locked q a = rbind (Add (withLocked a) q) (\<lambda>l. Inr (a\<lparr>withLocked := l\<rparr>))"

definition add_picked :: "ID \<Rightarrow> Quantity \<Rightarrow> picked \<Rightarrow> picked res" where
  "add_picked i q a =
     rbind (Add (selSum a) q) (\<lambda>s.
     rbind (Add (withLocked a) q) (\<lambda>l.
     rbind (Add (withNonCertified a) q) (\<lambda>c.
     Inr \<lparr>toBeSpent = toBeSpent a @ [i], selSum = s, withLocked = l, withNonCertified = c\<rparr>)))"

definition unlock_ids :: "'s Locker \<Rightarrow> ID list \<Rightarrow> ('s, unit) oper" where
  "unlock_ids L ids s = (Inr (), snd (UnlockIDsOp L ids s))"

text \<open>
  The loop over the iterator, for the tokens that satisfy \<open>keep\<close>. An error of \<open>Next\<close>
  and a panic leave at once; a quantity that cannot be read gives the locks back first.
\<close>

fun pick_loop ::
  "'s selector \<Rightarrow> (UnspentToken \<Rightarrow> bool) \<Rightarrow> Quantity \<Rightarrow> bool \<Rightarrow> picked \<Rightarrow> UnspentToken res list
    \<Rightarrow> ('s, picked) oper" where
  "pick_loop S keep target rc a [] s = (Inr a, s)"
| "pick_loop S keep target rc a (Inl e # it) s = (Inl e, s)"
| "pick_loop S keep target rc a (Inr t # it) s =
     (case ToQuantity (utQuantity t) (sPrecision S) of
        Inl (Panic m) \<Rightarrow> (Inl (Panic m), s)
      | Inl (Err m) \<Rightarrow> (Inl (Err m), snd (UnlockIDsOp (sLocker S) (toBeSpent a) s))
      | Inr q \<Rightarrow>
          if \<not> keep t then pick_loop S keep target rc a it s
          else (case LockOp (sLocker S) (utId t) (txID S) rc s of
              ((w, Some err), s') \<Rightarrow>
                (case add_locked q a of
                   Inl e \<Rightarrow> (Inl e, s')
                 | Inr a' \<Rightarrow> pick_loop S keep target rc a' it s')
            | ((w, None), s') \<Rightarrow>
                (case add_picked (utId t) q a of
                   Inl e \<Rightarrow> (Inl e, s')
                 | Inr a' \<Rightarrow>
                     (case Cmp target (selSum a') of
                        Inl e \<Rightarrow> (Inl e, s')
                      | Inr c \<Rightarrow> if c \<le> 0 then (Inr a', s')
                               else pick_loop S keep target rc a' it s'))))"

text \<open>How the last round fails; the sums are compared as in the code.\<close>

definition why_failed :: "Quantity \<Rightarrow> picked \<Rightarrow> bool \<Rightarrow> error res" where
  "why_failed target a concurrencyIssue =
     (if concurrencyIssue then Inr SelectorSufficientFundsButConcurrencyIssue
      else
        rbind (Cmp target (withLocked a)) (\<lambda>c1.
        rbind (Cmp (withLocked a) (selSum a)) (\<lambda>c2.
        if c1 \<le> 0 \<and> c2 \<noteq> 0 then Inr SelectorSufficientButLockedFunds
        else
          rbind (Cmp target (withNonCertified a)) (\<lambda>c3.
          rbind (Cmp (withNonCertified a) (selSum a)) (\<lambda>c4.
          if c3 \<le> 0 \<and> c4 \<noteq> 0 then Inr SelectorSufficientButNotCertifiedFunds
          else Inr SelectorInsufficientFunds)))))"

text \<open>
  The end of a round: the tokens and their sum, or the reason why it failed, with the locks
  given back.
\<close>

definition finish_round ::
  "'s selector \<Rightarrow> Quantity \<Rightarrow> int \<Rightarrow> picked \<Rightarrow> ('s, (ID list \<times> Quantity) + error) oper" where
  "finish_round S target i a =
     obind (olift (Cmp target (selSum a))) (\<lambda>c.
     let found = (if c \<le> 0 then Some (GetTokens (queryService S) i (toBeSpent a)) else None) in
     case found of
       Some (Inl (Panic m)) \<Rightarrow> olift (Inl (Panic m))
     | Some (Inr toks) \<Rightarrow> oret (Inl (toBeSpent a, selSum a))
     | _ \<Rightarrow>
         obind (unlock_ids (sLocker S) (toBeSpent a)) (\<lambda>_.
         obind (olift (why_failed target a (found \<noteq> None))) (\<lambda>e.
         oret (Inr e))))"

definition round_of ::
  "'s selector \<Rightarrow> (int \<Rightarrow> UnspentToken res list res) \<Rightarrow> (UnspentToken \<Rightarrow> bool) \<Rightarrow> Quantity \<Rightarrow> int
    \<Rightarrow> ('s, (ID list \<times> Quantity) + error) oper" where
  "round_of S tokens keep target i =
     obind (olift (tokens i)) (\<lambda>it.
     obind (pick_loop S keep target (numRetry S = 1 \<or> i > 0) (nothing (sPrecision S)) it) (\<lambda>a.
     finish_round S target i a))"

section \<open>Selecting\<close>

text \<open>The rounds, until one succeeds, leaves with an error, or was the last one.\<close>

function rounds ::
  "'s selector \<Rightarrow> (int \<Rightarrow> UnspentToken res list res) \<Rightarrow> (UnspentToken \<Rightarrow> bool) \<Rightarrow> Quantity \<Rightarrow> int
    \<Rightarrow> ('s, ID list \<times> Quantity) oper" where
  "rounds S tokens keep target i s =
     (case round_of S tokens keep target i s of
        (Inl e, s') \<Rightarrow> (Inl e, s')
      | (Inr (Inl found), s') \<Rightarrow> (Inr found, s')
      | (Inr (Inr e), s') \<Rightarrow>
          if i + 1 \<ge> numRetry S then (Inl e, s') else rounds S tokens keep target (i + 1) s')"
  by pat_completeness auto

termination
  by (relation "measure (\<lambda>(S, tokens, keep, target, i, s). nat (numRetry S - i))") auto

declare rounds.simps [simp del]

definition selectByID ::
  "'s selector \<Rightarrow> unit res \<Rightarrow> OwnerFilter \<Rightarrow> string \<Rightarrow> string \<Rightarrow> ('s, ID list \<times> Quantity) oper" where
  "selectByID S uuid ownerFilter q tokenType =
     obind (olift uuid) (\<lambda>_.
     obind (olift (ToQuantity q (sPrecision S))) (\<lambda>target.
     rounds S (\<lambda>i. UnspentTokensIteratorBy (queryService S) i (ofID ownerFilter) tokenType)
       (\<lambda>_. True) target 0))"

definition selectByOwner ::
  "'s selector \<Rightarrow> OwnerFilter \<Rightarrow> string \<Rightarrow> string \<Rightarrow> ('s, ID list \<times> Quantity) oper" where
  "selectByOwner S ownerFilter q tokenType =
     obind (olift (ToQuantity q (sPrecision S))) (\<lambda>target.
     rounds S (UnspentTokensIterator (queryService S))
       (\<lambda>t. utType t = tokenType \<and> ContainsToken ownerFilter t) target 0)"

definition Select ::
  "'s selector \<Rightarrow> unit res \<Rightarrow> OwnerFilter option \<Rightarrow> string \<Rightarrow> string \<Rightarrow> ('s, ID list \<times> Quantity) oper" where
  "Select S uuid ownerFilter q tokenType =
     (let owners = (case ownerFilter of None \<Rightarrow> allOwners | Some f \<Rightarrow> f) in
      if ofID owners \<noteq> [] then selectByID S uuid owners q tokenType
      else selectByOwner S owners q tokenType)"

lemma add_locked_no_Err: "add_locked q a \<noteq> Inl (Err m)"
  using Add_no_Err by (auto simp: add_locked_def go_simps)

lemma add_picked_no_Err: "add_picked i q a \<noteq> Inl (Err m)"
  using Add_no_Err by (auto simp: add_picked_def go_simps)

lemma add_locked_toBeSpent: "add_locked q a = Inr b \<Longrightarrow> toBeSpent b = toBeSpent a"
  by (auto simp: add_locked_def go_simps)

lemma add_picked_toBeSpent: "add_picked i q a = Inr b \<Longrightarrow> toBeSpent b = toBeSpent a @ [i]"
  by (auto simp: add_picked_def go_simps)

section \<open>What a locker promises\<close>

text \<open>
  The holders of the tokens, seen through the interface. \<open>dead\<close> are the transactions whose
  locks may be taken over. A lock that is granted is held, and nobody lived to lose it; a
  lock that is refused changes nothing, and the token has a holder.
\<close>

locale locks =
  fixes L :: "'s Locker" and holds :: "'s \<Rightarrow> ID \<Rightarrow> string option" and dead :: "string \<Rightarrow> bool"
  assumes granted: "LockOp L i tx rc s = ((w, None), s') \<Longrightarrow>
      holds s' = (holds s)(i := Some tx) \<and> (\<forall>t. holds s i = Some t \<longrightarrow> dead t)"
    and refused: "LockOp L i tx rc s = ((w, Some e), s') \<Longrightarrow>
      holds s' = holds s \<and> holds s i \<noteq> None"
    and unlocked: "UnlockIDsOp L ids s = (nf, s') \<Longrightarrow>
      holds s' j = (if j \<in> set ids then None else holds s j)"

text \<open>Two states agree on the locks of the transactions that live.\<close>

definition live_same :: "('s \<Rightarrow> ID \<Rightarrow> string option) \<Rightarrow> (string \<Rightarrow> bool) \<Rightarrow> 's \<Rightarrow> 's \<Rightarrow> bool" where
  "live_same holds dead s t \<longleftrightarrow>
     (\<forall>j x. \<not> dead x \<longrightarrow> (holds t j = Some x \<longleftrightarrow> holds s j = Some x))"

lemma live_same_refl [simp]: "live_same h d s s"
  by (simp add: live_same_def)

lemma live_same_trans: "live_same h d s t \<Longrightarrow> live_same h d t u \<Longrightarrow> live_same h d s u"
  by (simp add: live_same_def)

text \<open>
  The locks in the middle of a round that began in \<open>s0\<close>: the transaction holds the tokens
  picked so far, which no living transaction held before, and nothing else has changed.
\<close>

definition mid_round ::
  "('s \<Rightarrow> ID \<Rightarrow> string option) \<Rightarrow> (string \<Rightarrow> bool) \<Rightarrow> string \<Rightarrow> 's \<Rightarrow> ID list \<Rightarrow> 's \<Rightarrow> bool" where
  "mid_round holds dead tx s0 ids s \<longleftrightarrow> distinct ids
     \<and> (\<forall>j. if j \<in> set ids
          then holds s j = Some tx \<and> (\<forall>x. holds s0 j = Some x \<longrightarrow> dead x)
          else holds s j = holds s0 j)"

lemma mid_round_start [simp]: "mid_round h d tx s [] s"
  by (simp add: mid_round_def)

lemma mid_round_cong: "mid_round h d tx s0 ids s \<Longrightarrow> h s' = h s \<Longrightarrow> mid_round h d tx s0 ids s'"
  by (simp add: mid_round_def)

context locks
begin

lemma mid_round_granted:
  assumes "mid_round holds dead tx s0 ids s" and "LockOp L i tx rc s = ((w, None), s')"
    and "\<not> dead tx"
  shows "mid_round holds dead tx s0 (ids @ [i]) s'"
proof -
  have g: "holds s' = (holds s)(i := Some tx)" "\<forall>t. holds s i = Some t \<longrightarrow> dead t"
    using granted [OF assms(2)] by auto
  have i: "i \<notin> set ids"
    using assms(1,3) g(2) by (auto simp: mid_round_def split: if_splits)
  have "holds s i = holds s0 i" using i assms(1) by (auto simp: mid_round_def)
  with assms(1) g i show ?thesis by (auto simp: mid_round_def)
qed

lemma mid_round_refused:
  assumes "mid_round holds dead tx s0 ids s" and "LockOp L i tx' rc s = ((w, Some e), s')"
  shows "mid_round holds dead tx s0 ids s'"
  using assms(1) refused [OF assms(2)] mid_round_cong by metis

lemma mid_round_unlock:
  assumes "mid_round holds dead tx s0 ids s" and "\<not> dead tx"
  shows "live_same holds dead s0 (snd (UnlockIDsOp L ids s))"
proof -
  obtain nf u where u: "UnlockIDsOp L ids s = (nf, u)" by force
  show ?thesis unfolding live_same_def
  proof (intro allI impI)
    fix j x assume "\<not> dead x"
    with assms(1) unlocked [OF u, of j]
    show "(holds (snd (UnlockIDsOp L ids s)) j = Some x) = (holds s0 j = Some x)"
      by (cases "j \<in> set ids") (auto simp: mid_round_def u split: if_splits)
  qed
qed

text \<open>The locks after the loop, for each way it ends.\<close>

lemma pick_loop_locks:
  assumes "sLocker S = L" and "\<not> dead (txID S)"
    and "pick_loop S keep target rc a it s = (r, s')"
    and "mid_round holds dead (txID S) s0 (toBeSpent a) s"
  shows "(\<forall>b. r = Inr b \<longrightarrow> mid_round holds dead (txID S) s0 (toBeSpent b) s')
    \<and> (\<forall>m. r = Inl (Err m) \<longrightarrow> list_all (\<lambda>x. \<exists>t. x = Inr t) it \<longrightarrow> live_same holds dead s0 s')"
  using assms
proof (induction S keep target rc a it s arbitrary: r s' rule: pick_loop.induct)
  case (3 S keep target rc a t it s)
  show ?case
  proof (cases "ToQuantity (utQuantity t) (sPrecision S)")
    case (Inl e)
    with 3 show ?thesis
      using mid_round_unlock by (cases e) auto
  next
    case (Inr q)
    note q = this
    show ?thesis
    proof (cases "keep t")
      case False
      with 3 q show ?thesis by auto
    next
      case True
      obtain w err s1 where l: "LockOp (sLocker S) (utId t) (txID S) rc s = ((w, err), s1)"
        by (metis prod.exhaust)
      show ?thesis
      proof (cases err)
        case (Some e)
        have m: "mid_round holds dead (txID S) s0 (toBeSpent a) s1"
          using mid_round_refused 3 l Some by blast
        show ?thesis
        proof (cases "add_locked q a")
          case (Inl x)
          with 3 q True l Some show ?thesis by (auto simp: add_locked_no_Err)
        next
          case (Inr a')
          with 3 q True l Some m show ?thesis by (simp add: add_locked_toBeSpent)
        qed
      next
        case None
        have m: "mid_round holds dead (txID S) s0 (toBeSpent a @ [utId t]) s1"
          using mid_round_granted 3 l None by blast
        show ?thesis
        proof (cases "add_picked (utId t) q a")
          case (Inl e)
          with 3 q True l None show ?thesis by (auto simp: add_picked_no_Err)
        next
          case (Inr a')
          note a' = this
          then have m': "mid_round holds dead (txID S) s0 (toBeSpent a') s1"
            using m by (simp add: add_picked_toBeSpent)
          show ?thesis
          proof (cases "Cmp target (selSum a')")
            case (Inl x)
            with 3 q True l None a' show ?thesis by (auto simp: Cmp_no_Err)
          next
            case (Inr c)
            with 3 q True l None a' m' show ?thesis by (cases "c \<le> 0") auto
          qed
        qed
      qed
    qed
  qed
qed auto

end

section \<open>The sums of a round\<close>

definition worth :: "UnspentToken list \<Rightarrow> int" where
  "worth us = sum_list (map (\<lambda>u. qval (utQuantity u)) us)"

lemma worth_simps [simp]:
  "worth [] = 0" "worth (u # us) = qval (utQuantity u) + worth us" "worth (us @ vs) = worth us + worth vs"
  by (simp_all add: worth_def)

definition sums_ok :: "u64 \<Rightarrow> picked \<Rightarrow> bool" where
  "sums_ok p a \<longleftrightarrow> wfq p (selSum a) \<and> wfq p (withLocked a) \<and> wfq p (withNonCertified a)"

text \<open>
  From \<open>a\<close> to \<open>b\<close> a round went through the tokens \<open>us\<close> and picked \<open>picks\<close> of those that
  it keeps; the second sum is that of all tokens it keeps, locked or not.
\<close>

definition advance ::
  "(UnspentToken \<Rightarrow> bool) \<Rightarrow> picked \<Rightarrow> UnspentToken list \<Rightarrow> UnspentToken list \<Rightarrow> picked \<Rightarrow> bool" where
  "advance keep a us picks b \<longleftrightarrow> subseq picks (filter keep us)
     \<and> toBeSpent b = toBeSpent a @ map utId picks
     \<and> ToBigInt (selSum b) = ToBigInt (selSum a) + worth picks
     \<and> ToBigInt (withLocked b) = ToBigInt (withLocked a) + worth (filter keep us)
     \<and> ToBigInt (withNonCertified b) = ToBigInt (withNonCertified a) + worth picks"

lemma sums_ok_nothing [simp]: "sums_ok p (nothing p)"
  by (simp add: sums_ok_def nothing_def)

lemma add_locked_sums:
  assumes "add_locked q a = Inr b" "sums_ok p a" "wfq p q"
  shows "sums_ok p b" "selSum b = selSum a" "withNonCertified b = withNonCertified a"
    "ToBigInt (withLocked b) = ToBigInt (withLocked a) + ToBigInt q"
  using assms Add_wfq [of p "withLocked a" q] by (auto simp: add_locked_def sums_ok_def go_simps)

lemma add_picked_sums:
  assumes "add_picked i q a = Inr b" "sums_ok p a" "wfq p q"
  shows "sums_ok p b" "ToBigInt (selSum b) = ToBigInt (selSum a) + ToBigInt q"
    "ToBigInt (withLocked b) = ToBigInt (withLocked a) + ToBigInt q"
    "ToBigInt (withNonCertified b) = ToBigInt (withNonCertified a) + ToBigInt q"
proof -
  from assms(1) obtain x l c where x: "Add (selSum a) q = Inr x" and l: "Add (withLocked a) q = Inr l"
    and c: "Add (withNonCertified a) q = Inr c"
    and b: "b = \<lparr>toBeSpent = toBeSpent a @ [i], selSum = x, withLocked = l, withNonCertified = c\<rparr>"
    by (auto simp: add_picked_def go_simps)
  from assms(2) have w: "wfq p (selSum a)" "wfq p (withLocked a)" "wfq p (withNonCertified a)"
    by (simp_all add: sums_ok_def)
  note a = Add_wfq [OF w(1) assms(3) x] Add_wfq [OF w(2) assms(3) l] Add_wfq [OF w(3) assms(3) c]
  show "sums_ok p b" "ToBigInt (selSum b) = ToBigInt (selSum a) + ToBigInt q"
    "ToBigInt (withLocked b) = ToBigInt (withLocked a) + ToBigInt q"
    "ToBigInt (withNonCertified b) = ToBigInt (withNonCertified a) + ToBigInt q"
    using a by (simp_all add: b sums_ok_def)
qed

lemma advance_Nil [simp]: "advance keep a [] [] a"
  by (simp add: advance_def)

lemma advance_skip: "advance keep a us picks b \<Longrightarrow> \<not> keep t \<Longrightarrow> advance keep a (t # us) picks b"
  by (simp add: advance_def)

lemma advance_locked:
  assumes "advance keep a' us picks b" "keep t" "add_locked q a = Inr a'" "sums_ok p a"
    and "ToQuantity (utQuantity t) p = Inr q"
  shows "advance keep a (t # us) picks b"
  using assms add_locked_sums [OF assms(3,4) ToQuantity_SomeD(3) [OF assms(5)]]
    ToQuantity_qval [OF assms(5)] add_locked_toBeSpent [OF assms(3)]
  by (simp add: advance_def list_emb_Cons)

lemma advance_picked:
  assumes "advance keep a' us picks b" "keep t" "add_picked (utId t) q a = Inr a'" "sums_ok p a"
    and "ToQuantity (utQuantity t) p = Inr q"
  shows "advance keep a (t # us) (t # picks) b"
  using assms add_picked_sums [OF assms(3,4) ToQuantity_SomeD(3) [OF assms(5)]]
    ToQuantity_qval [OF assms(5)] add_picked_toBeSpent [OF assms(3)]
  by (simp add: advance_def)

text \<open>No token is picked once the target is reached.\<close>

definition thrifty :: "int \<Rightarrow> picked \<Rightarrow> UnspentToken list \<Rightarrow> bool" where
  "thrifty target a picks \<longleftrightarrow>
     (\<forall>ps x. picks = ps @ [x] \<longrightarrow> ps = [] \<or> ToBigInt (selSum a) + worth ps < target)"

lemma thrifty_Nil [simp]: "thrifty target a []"
  by (simp add: thrifty_def)

lemma thrifty_cong: "thrifty target a picks \<Longrightarrow> selSum b = selSum a \<Longrightarrow> thrifty target b picks"
  by (simp add: thrifty_def)

lemma thrifty_Cons:
  assumes "thrifty target a' picks" "ToBigInt (selSum a') = ToBigInt (selSum a) + qval (utQuantity t)"
    and "picks \<noteq> [] \<longrightarrow> ToBigInt (selSum a') < target"
  shows "thrifty target a (t # picks)"
  unfolding thrifty_def
proof (intro allI impI)
  fix ps x assume e: "t # picks = ps @ [x]"
  show "ps = [] \<or> ToBigInt (selSum a) + worth ps < target"
  proof (cases ps)
    case (Cons y qs)
    with e have y: "y = t" and p: "picks = qs @ [x]" by auto
    with assms(1) have "qs = [] \<or> ToBigInt (selSum a') + worth qs < target" by (simp add: thrifty_def)
    with assms(2,3) p y Cons show ?thesis by auto
  qed simp
qed

definition loop_result ::
  "u64 \<Rightarrow> (UnspentToken \<Rightarrow> bool) \<Rightarrow> int \<Rightarrow> picked \<Rightarrow> UnspentToken res list \<Rightarrow> picked \<Rightarrow> bool" where
  "loop_result p keep target a it b \<longleftrightarrow> sums_ok p b \<and> (\<exists>us picks rest. it = map Inr us @ rest
      \<and> advance keep a us picks b \<and> thrifty target a picks
      \<and> (rest = [] \<or> target \<le> ToBigInt (selSum b)))"

lemma loop_resultI:
  assumes "it = map Inr us @ rest" "advance keep a us picks b" "thrifty target a picks"
    and "rest = [] \<or> target \<le> ToBigInt (selSum b)" "sums_ok p b"
  shows "loop_result p keep target a it b"
  unfolding loop_result_def using assms by blast

lemma loop_resultE:
  assumes "loop_result p keep target a it b"
  obtains us picks rest where "it = map Inr us @ rest" "advance keep a us picks b"
    "thrifty target a picks" "rest = [] \<or> target \<le> ToBigInt (selSum b)" "sums_ok p b"
  using assms unfolding loop_result_def by blast

lemma loop_result_skip:
  assumes "loop_result p keep target a it b" "\<not> keep t"
  shows "loop_result p keep target a (Inr t # it) b"
  using assms(1)
proof (rule loop_resultE)
  fix us picks rest
  assume r: "it = map Inr us @ rest" "advance keep a us picks b" "thrifty target a picks"
    "rest = [] \<or> target \<le> ToBigInt (selSum b)" "sums_ok p b"
  show ?thesis
    by (rule loop_resultI [of _ "t # us" rest _ _ picks]) (use r assms(2) advance_skip in auto)
qed

lemma loop_result_locked:
  assumes "loop_result p keep target a' it b" "keep t" "add_locked q a = Inr a'" "sums_ok p a"
    and q: "ToQuantity (utQuantity t) p = Inr q"
  shows "loop_result p keep target a (Inr t # it) b"
  using assms(1)
proof (rule loop_resultE)
  fix us picks rest
  assume r: "it = map Inr us @ rest" "advance keep a' us picks b" "thrifty target a' picks"
    "rest = [] \<or> target \<le> ToBigInt (selSum b)" "sums_ok p b"
  have "thrifty target a picks"
    using thrifty_cong r(3) add_locked_sums(2) [OF assms(3,4) ToQuantity_SomeD(3) [OF q]] by metis
  then show ?thesis
    by (intro loop_resultI [of _ "t # us" rest _ _ picks])
      (use r advance_locked [where keep = keep and t = t, OF r(2) assms(2-4) q] in auto)
qed

lemma loop_result_picked:
  assumes "loop_result p keep target a' it b" "keep t" "add_picked (utId t) q a = Inr a'" "sums_ok p a"
    and q: "ToQuantity (utQuantity t) p = Inr q" and lt: "ToBigInt (selSum a') < target"
  shows "loop_result p keep target a (Inr t # it) b"
  using assms(1)
proof (rule loop_resultE)
  fix us picks rest
  assume r: "it = map Inr us @ rest" "advance keep a' us picks b" "thrifty target a' picks"
    "rest = [] \<or> target \<le> ToBigInt (selSum b)" "sums_ok p b"
  have "thrifty target a (t # picks)"
    using thrifty_Cons [OF r(3)] add_picked_sums(2) [OF assms(3,4) ToQuantity_SomeD(3) [OF q]]
      ToQuantity_qval [OF q] lt by metis
  then show ?thesis
    by (intro loop_resultI [of _ "t # us" rest _ _ "t # picks"])
      (use r advance_picked [where keep = keep and t = t, OF r(2) assms(2-4) q] in auto)
qed

lemma loop_result_reached:
  assumes "keep t" "add_picked (utId t) q a = Inr b" "sums_ok p a"
    and q: "ToQuantity (utQuantity t) p = Inr q" and "target \<le> ToBigInt (selSum b)"
  shows "loop_result p keep target a (Inr t # it) b"
proof -
  note sums = add_picked_sums [OF assms(2,3) ToQuantity_SomeD(3) [OF q]]
  have "thrifty target a [t]" by (simp add: thrifty_def)
  then show ?thesis
    by (intro loop_resultI [of _ "[t]" it _ _ "[t]"])
      (use sums assms advance_picked [where keep = keep and t = t and us = "[]" and picks = "[]", OF advance_Nil assms(1-3) q] in auto)
qed

lemma pick_loop_sums:
  assumes "pick_loop S keep target rc a it s = (Inr b, s')"
    and "wfq (sPrecision S) target" "sums_ok (sPrecision S) a"
  shows "loop_result (sPrecision S) keep (ToBigInt target) a it b"
  using assms
proof (induction S keep target rc a it s rule: pick_loop.induct)
  case (1 S keep target rc a s)
  then show ?case by (intro loop_resultI [of _ "[]" "[]" _ _ "[]"]) auto
next
  case (3 S keep target rc a t it s)
  let ?p = "sPrecision S"
  from "3.prems"(1) obtain q where q: "ToQuantity (utQuantity t) ?p = Inr q"
    by (auto split: sum.splits error.splits)
  note wq = ToQuantity_SomeD(3) [OF q]
  show ?case
  proof (cases "keep t")
    case False
    with 3 q show ?thesis by (simp add: loop_result_skip)
  next
    case True
    obtain w err s1 where l: "LockOp (sLocker S) (utId t) (txID S) rc s = ((w, err), s1)"
      by (metis prod.exhaust)
    show ?thesis
    proof (cases err)
      case (Some e)
      with "3.prems" q True l obtain a' where a': "add_locked q a = Inr a'"
        and p: "pick_loop S keep target rc a' it s1 = (Inr b, s')"
        by (auto split: sum.splits)
      note sums = add_locked_sums [OF a' "3.prems"(3) wq]
      have "loop_result ?p keep (ToBigInt target) a' it b"
        using "3.IH"(3) [OF q _ l [symmetric] refl Some a' p] True "3.prems"(2) sums(1) by simp
      then show ?thesis by (rule loop_result_locked [where keep = keep and t = t, OF _ True a' "3.prems"(3) q])
    next
      case None
      with "3.prems" q True l obtain a' c where a': "add_picked (utId t) q a = Inr a'"
        and c: "Cmp target (selSum a') = Inr c"
        by (auto split: sum.splits)
      note sums = add_picked_sums [OF a' "3.prems"(3) wq]
      have c_iff: "c \<le> 0 \<longleftrightarrow> ToBigInt target \<le> ToBigInt (selSum a')"
        using c Cmp_wfq [of ?p target "selSum a'"] "3.prems"(2) sums(1) by (auto simp: sums_ok_def)
      show ?thesis
      proof (cases "c \<le> 0")
        case le: True
        with "3.prems" q True l None a' c have b: "b = a'" by simp
        show ?thesis
          unfolding b by (rule loop_result_reached [where keep = keep and t = t, OF True a' "3.prems"(3) q]) (use c_iff le in simp)
      next
        case gt: False
        with "3.prems" q True l None a' c have p: "pick_loop S keep target rc a' it s1 = (Inr b, s')"
          by simp
        have "loop_result ?p keep (ToBigInt target) a' it b"
          using "3.IH"(2) [OF q _ l [symmetric] refl None a' c gt p] True "3.prems"(2) sums(1) by simp
        then show ?thesis
          by (rule loop_result_picked [where keep = keep and t = t, OF _ True a' "3.prems"(3) q]) (use c_iff gt in simp)
      qed
    qed
  qed
qed simp

section \<open>Rounds\<close>

lemma why_failed_eq:
  assumes "sums_ok p a" "wfq p target" "ToBigInt (selSum a) < ToBigInt target"
    and "ToBigInt (withNonCertified a) = ToBigInt (selSum a)"
  shows "why_failed target a False
    = Inr (if ToBigInt target \<le> ToBigInt (withLocked a) then SelectorSufficientButLockedFunds
           else SelectorInsufficientFunds)"
proof -
  from assms(1) have w: "wfq p (selSum a)" "wfq p (withLocked a)" "wfq p (withNonCertified a)"
    by (simp_all add: sums_ok_def)
  show ?thesis
    using assms(3,4)
    by (simp add: why_failed_def Cmp_wfq [OF assms(2) w(2)] Cmp_wfq [OF w(2) w(1)]
        Cmp_wfq [OF assms(2) w(3)] Cmp_wfq [OF w(3) w(1)])
qed

text \<open>The three ways a round can end once its loop is over.\<close>

lemma finish_round_cases:
  assumes "finish_round S target i a s = (r, s')" "sums_ok p a" "wfq p target"
    and "ToBigInt (withNonCertified a) = ToBigInt (selSum a)"
  shows "(\<exists>toks. r = Inr (Inl (toBeSpent a, selSum a)) \<and> s' = s
        \<and> ToBigInt target \<le> ToBigInt (selSum a)
        \<and> GetTokens (queryService S) i (toBeSpent a) = Inr toks)
    \<or> (\<exists>m. r = Inl (Panic m))
    \<or> (\<exists>e. r = Inr (Inr e) \<and> s' = snd (UnlockIDsOp (sLocker S) (toBeSpent a) s)
        \<and> (if ToBigInt target \<le> ToBigInt (selSum a)
           then e = SelectorSufficientFundsButConcurrencyIssue
             \<and> (\<exists>m. GetTokens (queryService S) i (toBeSpent a) = Inl (Err m))
           else e = (if ToBigInt target \<le> ToBigInt (withLocked a)
                     then SelectorSufficientButLockedFunds else SelectorInsufficientFunds)))"
proof -
  have c: "Cmp target (selSum a) = Inr (int_cmp (ToBigInt target) (ToBigInt (selSum a)))"
    using assms(2,3) Cmp_wfq by (simp add: sums_ok_def)
  have issue: "why_failed target a True = Inr SelectorSufficientFundsButConcurrencyIssue"
    by (simp add: why_failed_def)
  show ?thesis
  proof (cases "ToBigInt target \<le> ToBigInt (selSum a)")
    case True
    then show ?thesis
      using assms(1) c issue
      by (cases "GetTokens (queryService S) i (toBeSpent a)")
        (auto simp: finish_round_def obind_apply unlock_ids_def split: error.splits)
  next
    case False
    then show ?thesis
      using assms(1) c why_failed_eq [OF assms(2,3) _ assms(4)]
      by (simp add: finish_round_def obind_apply unlock_ids_def)
  qed
qed

text \<open>What a round that succeeds has found, and why a round that does not succeed has failed.\<close>

definition found_tokens ::
  "'s selector \<Rightarrow> (int \<Rightarrow> UnspentToken res list res) \<Rightarrow> (UnspentToken \<Rightarrow> bool) \<Rightarrow> Quantity \<Rightarrow> int
    \<Rightarrow> UnspentToken list \<Rightarrow> Quantity \<Rightarrow> bool" where
  "found_tokens S tokens keep target i picks q \<longleftrightarrow>
     (\<exists>us rest. tokens i = Inr (map Inr us @ rest) \<and> subseq picks (filter keep us))
     \<and> wfq (sPrecision S) q \<and> ToBigInt q = worth picks \<and> ToBigInt target \<le> worth picks
     \<and> (\<forall>ps x. picks = ps @ [x] \<longrightarrow> ps = [] \<or> worth ps < ToBigInt target)
     \<and> (\<exists>toks. GetTokens (queryService S) i (map utId picks) = Inr toks)"

definition failed_for ::
  "(int \<Rightarrow> UnspentToken res list res) \<Rightarrow> (UnspentToken \<Rightarrow> bool) \<Rightarrow> Quantity \<Rightarrow> int \<Rightarrow> error \<Rightarrow> bool" where
  "failed_for tokens keep target i e \<longleftrightarrow>
     (\<exists>us rest. tokens i = Inr (map Inr us @ rest)
       \<and> (e = SelectorSufficientFundsButConcurrencyIssue
            \<and> (\<exists>picks. subseq picks (filter keep us) \<and> ToBigInt target \<le> worth picks)
          \<or> rest = [] \<and> e = (if ToBigInt target \<le> worth (filter keep us)
               then SelectorSufficientButLockedFunds else SelectorInsufficientFunds)))"

lemma round_of_result:
  assumes "round_of S tokens keep target i s = (Inr r, s')" "wfq (sPrecision S) target"
  shows "case r of
      Inl (ids, q) \<Rightarrow> \<exists>picks. ids = map utId picks \<and> found_tokens S tokens keep target i picks q
    | Inr e \<Rightarrow> failed_for tokens keep target i e"
proof -
  from assms(1) obtain it a s1 where it: "tokens i = Inr it"
    and l: "pick_loop S keep target (numRetry S = 1 \<or> i > 0) (nothing (sPrecision S)) it s = (Inr a, s1)"
    and f: "finish_round S target i a s1 = (Inr r, s')"
    by (auto simp: round_of_def go_simps)
  have "loop_result (sPrecision S) keep (ToBigInt target) (nothing (sPrecision S)) it a"
    using pick_loop_sums [OF l assms(2)] by simp
  then show ?thesis
  proof (rule loop_resultE)
    fix us picks rest
    assume u: "it = map Inr us @ rest" "advance keep (nothing (sPrecision S)) us picks a"
      "thrifty (ToBigInt target) (nothing (sPrecision S)) picks"
      "rest = [] \<or> ToBigInt target \<le> ToBigInt (selSum a)" "sums_ok (sPrecision S) a"
    have v: "subseq picks (filter keep us)" "toBeSpent a = map utId picks"
      "ToBigInt (selSum a) = worth picks" "ToBigInt (withLocked a) = worth (filter keep us)"
      "ToBigInt (withNonCertified a) = ToBigInt (selSum a)"
      using u(2) by (simp_all add: advance_def nothing_def)
    have th: "\<forall>ps x. picks = ps @ [x] \<longrightarrow> ps = [] \<or> worth ps < ToBigInt target"
      using u(3) by (simp add: thrifty_def nothing_def)
    note fr = finish_round_cases [OF f u(5) assms(2) v(5)]
    show ?thesis
    proof (cases r)
      case (Inl found)
      with fr have "found = (toBeSpent a, selSum a)" "ToBigInt target \<le> ToBigInt (selSum a)"
        "\<exists>toks. GetTokens (queryService S) i (toBeSpent a) = Inr toks" by auto
      then have "found_tokens S tokens keep target i picks (selSum a)"
        unfolding found_tokens_def using it u v th by (auto simp: sums_ok_def)
      then show ?thesis using Inl v \<open>found = _\<close> by auto
    next
      case (Inr e)
      with fr have e: "if ToBigInt target \<le> ToBigInt (selSum a)
           then e = SelectorSufficientFundsButConcurrencyIssue
           else e = (if ToBigInt target \<le> ToBigInt (withLocked a)
                     then SelectorSufficientButLockedFunds else SelectorInsufficientFunds)"
        by (auto split: if_splits)
      have "failed_for tokens keep target i e"
        unfolding failed_for_def
        by (rule exI [of _ us], rule exI [of _ rest]) (use e it u v in \<open>auto split: if_splits\<close>)
      then show ?thesis using Inr by simp
    qed
  qed
qed

text \<open>No \<open>Next\<close> of the round's iterator fails.\<close>

definition no_iterator_error :: "(int \<Rightarrow> UnspentToken res list res) \<Rightarrow> bool" where
  "no_iterator_error tokens \<longleftrightarrow>
     (\<forall>i it. tokens i = Inr it \<longrightarrow> list_all (\<lambda>x. \<exists>t. x = Inr t) it)"

context locks
begin

lemma round_of_locks:
  assumes "sLocker S = L" "\<not> dead (txID S)" "wfq (sPrecision S) target"
    and "round_of S tokens keep target i s = (r, s')"
  shows "case r of
      Inr (Inl (ids, q)) \<Rightarrow> mid_round holds dead (txID S) s ids s'
    | Inr (Inr e) \<Rightarrow> live_same holds dead s s'
    | Inl (Err m) \<Rightarrow> no_iterator_error tokens \<longrightarrow> live_same holds dead s s'
    | Inl (Panic m) \<Rightarrow> True"
proof (cases "tokens i")
  case (Inl e)
  with assms(4) show ?thesis by (auto simp: round_of_def obind_apply split: error.splits)
next
  case (Inr it)
  note it = this
  let ?rc = "numRetry S = 1 \<or> i > 0"
  obtain r1 s1 where l: "pick_loop S keep target ?rc (nothing (sPrecision S)) it s = (r1, s1)"
    by force
  have start: "mid_round holds dead (txID S) s (toBeSpent (nothing (sPrecision S))) s"
    by (simp add: nothing_def)
  note locks = pick_loop_locks [OF assms(1,2) l start]
  show ?thesis
  proof (cases r1)
    case (Inl e)
    with assms(4) it l locks show ?thesis
      by (auto simp: round_of_def obind_apply no_iterator_error_def split: error.splits)
  next
    case (Inr a)
    with assms(4) it l have f: "finish_round S target i a s1 = (r, s')"
      by (simp add: round_of_def obind_apply)
    have "loop_result (sPrecision S) keep (ToBigInt target) (nothing (sPrecision S)) it a"
      using pick_loop_sums [OF l [unfolded Inr] assms(3)] by simp
    then have ok: "sums_ok (sPrecision S) a" "ToBigInt (withNonCertified a) = ToBigInt (selSum a)"
      by (auto elim!: loop_resultE simp: advance_def nothing_def)
    from locks Inr have m: "mid_round holds dead (txID S) s (toBeSpent a) s1" by simp
    have "live_same holds dead s (snd (UnlockIDsOp (sLocker S) (toBeSpent a) s1))"
      using mid_round_unlock [OF m assms(2)] assms(1) by simp
    with finish_round_cases [OF f ok(1) assms(3) ok(2)] m show ?thesis by auto
  qed
qed

end

text \<open>Every round but the last one fails without a trace on the locks of living transactions.\<close>

context locks
begin

lemma rounds_result:
  assumes "rounds S tokens keep target i s = (r, s')" "sLocker S = L" "\<not> dead (txID S)"
    and "wfq (sPrecision S) target"
  shows "\<exists>k u. i \<le> k \<and> live_same holds dead s u
    \<and> (case r of
         Inr found \<Rightarrow> round_of S tokens keep target k u = (Inr (Inl found), s')
       | Inl e \<Rightarrow> round_of S tokens keep target k u = (Inl e, s')
           \<or> numRetry S \<le> k + 1 \<and> (k = i \<or> k < numRetry S)
               \<and> round_of S tokens keep target k u = (Inr (Inr e), s'))"
  using assms
proof (induction S tokens keep target i s arbitrary: r s' rule: rounds.induct)
  case (1 S tokens keep target i s)
  obtain r1 s1 where r1: "round_of S tokens keep target i s = (r1, s1)" by force
  show ?case
  proof (cases "\<exists>e. r1 = Inr (Inr e) \<and> i + 1 < numRetry S")
    case True
    then obtain e where e: "r1 = Inr (Inr e)" "i + 1 < numRetry S" by blast
    with "1.prems"(1) r1 have n: "rounds S tokens keep target (i + 1) s1 = (r, s')"
      by (subst (asm) rounds.simps) simp
    have same: "live_same holds dead s s1"
      using round_of_locks [OF "1.prems"(2-4) r1] e by simp
    from "1.IH" [OF r1 [symmetric] e(1) refl _ n "1.prems"(2-4)] e(2)
    obtain k u where k: "i + 1 \<le> k" "live_same holds dead s1 u"
      "case r of
         Inr found \<Rightarrow> round_of S tokens keep target k u = (Inr (Inl found), s')
       | Inl e \<Rightarrow> round_of S tokens keep target k u = (Inl e, s')
           \<or> numRetry S \<le> k + 1 \<and> (k = i + 1 \<or> k < numRetry S)
               \<and> round_of S tokens keep target k u = (Inr (Inr e), s')" by auto
    have "i \<le> k" "k = i + 1 \<longrightarrow> k < numRetry S" using k(1) e(2) by auto
    moreover have "live_same holds dead s u" by (rule live_same_trans [OF same k(2)])
    ultimately show ?thesis using k(3) by (intro exI [of _ k] exI [of _ u]) (auto split: sum.splits)
  next
    case False
    have d: "(case r1 of Inl e \<Rightarrow> (Inl e, s1) | Inr (Inl found) \<Rightarrow> (Inr found, s1)
        | Inr (Inr e) \<Rightarrow> if i + 1 \<ge> numRetry S then (Inl e, s1)
            else rounds S tokens keep target (i + 1) s1) = (r, s')"
      using "1.prems"(1) r1 by (simp add: rounds.simps [of S tokens keep target i s] split: sum.splits)
    have "case r of
         Inr found \<Rightarrow> round_of S tokens keep target i s = (Inr (Inl found), s')
       | Inl e \<Rightarrow> round_of S tokens keep target i s = (Inl e, s')
           \<or> numRetry S \<le> i + 1 \<and> (i = i \<or> i < numRetry S)
               \<and> round_of S tokens keep target i s = (Inr (Inr e), s')"
      using d False r1 by (cases r1) (auto split: sum.splits if_splits)
    then show ?thesis by (intro exI [of _ i] exI [of _ s]) simp
  qed
qed

end

section \<open>When nothing is in the way\<close>

lemma Cmp_le_iff:
  "wfq p a \<Longrightarrow> wfq p b \<Longrightarrow> \<exists>c. Cmp a b = Inr c \<and> (c \<le> 0 \<longleftrightarrow> ToBigInt a \<le> ToBigInt b)"
  by (auto simp: Cmp_wfq)

definition same_sums :: "picked \<Rightarrow> bool" where
  "same_sums a \<longleftrightarrow> ToBigInt (withLocked a) = ToBigInt (selSum a)
     \<and> ToBigInt (withNonCertified a) = ToBigInt (selSum a)"

lemma add_picked_succeeds:
  assumes "sums_ok p a" "same_sums a" "wfq p q" "\<not> exceeds (ToBigInt (selSum a) + ToBigInt q) p"
  shows "\<exists>b. add_picked i q a = Inr b \<and> sums_ok p b \<and> same_sums b
    \<and> ToBigInt (selSum b) = ToBigInt (selSum a) + ToBigInt q"
proof -
  from assms(1) have w: "wfq p (selSum a)" "wfq p (withLocked a)" "wfq p (withNonCertified a)"
    by (simp_all add: sums_ok_def)
  from Add_panics(2) [OF w(1) assms(3)] assms(4) obtain x where x: "Add (selSum a) q = Inr x" by blast
  from Add_panics(2) [OF w(2) assms(3)] assms(2,4) obtain l where l: "Add (withLocked a) q = Inr l"
    by (auto simp: same_sums_def)
  from Add_panics(2) [OF w(3) assms(3)] assms(2,4) obtain c where c: "Add (withNonCertified a) q = Inr c"
    by (auto simp: same_sums_def)
  obtain b where b: "add_picked i q a = Inr b" by (simp add: add_picked_def x l c)
  with add_picked_sums [OF b assms(1,3)] assms(2) show ?thesis by (auto simp: same_sums_def)
qed

text \<open>Quantities that can be read, and whose sum fits the precision.\<close>

definition readable :: "u64 \<Rightarrow> UnspentToken list \<Rightarrow> bool" where
  "readable p us \<longleftrightarrow> list_all (\<lambda>u. \<exists>q. ToQuantity (utQuantity u) p = Inr q) us"

lemma readable_Cons:
  assumes "readable p (u # us)"
  obtains q where "ToQuantity (utQuantity u) p = Inr q" "wfq p q" "qval (utQuantity u) = ToBigInt q"
    "readable p us"
  using assms ToQuantity_SomeD(3) ToQuantity_qval unfolding readable_def by force

lemma worth_nonneg: "readable p us \<Longrightarrow> 0 \<le> worth (filter keep us)"
proof (induction us)
  case (Cons u us)
  then show ?case by (auto elim!: readable_Cons)
qed simp

context locks
begin

lemma free_is_granted:
  assumes "holds s i = None"
  obtains w s1 where "LockOp L i tx rc s = ((w, None), s1)" "holds s1 = (holds s)(i := Some tx)"
proof -
  obtain w err s1 where l: "LockOp L i tx rc s = ((w, err), s1)" by (metis prod.exhaust)
  with assms refused [of i tx rc s w _ s1] have "err = None" by (cases err) auto
  with l granted [of i tx rc s w s1] that show thesis by auto
qed

lemma pick_loop_succeeds:
  assumes "sLocker S = L" "wfq (sPrecision S) target" "sums_ok (sPrecision S) a" "same_sums a"
    and "readable (sPrecision S) us" "\<not> exceeds (ToBigInt (selSum a) + worth (filter keep us)) (sPrecision S)"
    and "ToBigInt target \<le> ToBigInt (selSum a) + worth (filter keep us)"
    and "distinct (map utId (filter keep us))" "\<forall>u \<in> set (filter keep us). holds s (utId u) = None"
  shows "\<exists>b s'. pick_loop S keep target rc a (map Inr us) s = (Inr b, s')
    \<and> ToBigInt target \<le> ToBigInt (selSum b)"
  using assms
proof (induction us arbitrary: a s)
  case (Cons u us)
  let ?p = "sPrecision S"
  from Cons.prems(5) obtain q where q: "ToQuantity (utQuantity u) ?p = Inr q" "wfq ?p q"
    "qval (utQuantity u) = ToBigInt q" "readable ?p us" by (rule readable_Cons)
  show ?case
  proof (cases "keep u")
    case False
    with Cons q show ?thesis by simp
  next
    case True
    with Cons.prems(9) have free: "holds s (utId u) = None" by simp
    obtain w s1 where l: "LockOp L (utId u) (txID S) rc s = ((w, None), s1)"
      "holds s1 = (holds s)(utId u := Some (txID S))" using free_is_granted [OF free] .
    have le: "0 \<le> ToBigInt (selSum a) + ToBigInt q" "0 \<le> worth (filter keep us)"
      using Cons.prems(3) q worth_nonneg by (auto simp: sums_ok_def)
    have fits: "\<not> exceeds (ToBigInt (selSum a) + ToBigInt q) ?p"
      using exceeds_mono [OF Cons.prems(6), of "ToBigInt (selSum a) + ToBigInt q"] True q(3) le by simp
    obtain b where b: "add_picked (utId u) q a = Inr b" "sums_ok ?p b" "same_sums b"
      "ToBigInt (selSum b) = ToBigInt (selSum a) + ToBigInt q"
      using add_picked_succeeds [OF Cons.prems(3,4) q(2) fits] by blast
    obtain c where c: "Cmp target (selSum b) = Inr c" "c \<le> 0 \<longleftrightarrow> ToBigInt target \<le> ToBigInt (selSum b)"
      using Cmp_le_iff [OF Cons.prems(2), of "selSum b"] b(2) by (auto simp: sums_ok_def)
    show ?thesis
    proof (cases "c \<le> 0")
      case le0: True
      with True q(1) l(1) b(1) c Cons.prems(1) show ?thesis by simp
    next
      case gt: False
      have free': "\<forall>v \<in> set (filter keep us). holds s1 (utId v) = None"
        using Cons.prems(8,9) True l(2) by (auto simp: image_iff)
      have rest: "\<not> exceeds (ToBigInt (selSum b) + worth (filter keep us)) ?p"
        "ToBigInt target \<le> ToBigInt (selSum b) + worth (filter keep us)"
        using Cons.prems(6,7) True q(3) b(4) by (simp_all add: add.assoc)
      have d: "distinct (map utId (filter keep us))" using Cons.prems(8) True by simp
      have "\<exists>b' s'. pick_loop S keep target rc b (map Inr us) s1 = (Inr b', s')
        \<and> ToBigInt target \<le> ToBigInt (selSum b')"
        by (rule Cons.IH [OF Cons.prems(1,2) b(2,3) q(4) rest d free'])
      with True q(1) l(1) b(1) c gt Cons.prems(1) show ?thesis by simp
    qed
  qed
qed simp

lemma rounds_succeed:
  assumes "sLocker S = L" "wfq (sPrecision S) target" "tokens i = Inr (map Inr us)"
    and "readable (sPrecision S) us" "\<not> exceeds (worth (filter keep us)) (sPrecision S)"
    and "ToBigInt target \<le> worth (filter keep us)" "distinct (map utId (filter keep us))"
    and "\<forall>u \<in> set (filter keep us). holds s (utId u) = None"
    and "\<forall>ids. \<exists>toks. GetTokens (queryService S) i ids = Inr toks"
  shows "\<exists>found s'. rounds S tokens keep target i s = (Inr found, s')"
proof -
  let ?p = "sPrecision S" and ?rc = "numRetry S = 1 \<or> i > 0"
  have z: "same_sums (nothing ?p)" "ToBigInt (selSum (nothing ?p)) = 0"
    by (simp_all add: same_sums_def nothing_def)
  obtain b s1 where b: "pick_loop S keep target ?rc (nothing ?p) (map Inr us) s = (Inr b, s1)"
    "ToBigInt target \<le> ToBigInt (selSum b)"
    using pick_loop_succeeds [OF assms(1,2) sums_ok_nothing z(1) assms(4), of keep s ?rc] assms(5-8) z(2)
    by auto
  have "sums_ok ?p b"
    using pick_loop_sums [OF b(1) assms(2)] by (auto elim: loop_resultE)
  then obtain c where c: "Cmp target (selSum b) = Inr c" "c \<le> 0"
    using Cmp_le_iff [OF assms(2), of "selSum b"] b(2) by (auto simp: sums_ok_def)
  obtain toks where "GetTokens (queryService S) i (toBeSpent b) = Inr toks" using assms(9) by blast
  with c have "finish_round S target i b s1 = (Inr (Inl (toBeSpent b, selSum b)), s1)"
    by (simp add: finish_round_def obind_apply)
  with b(1) assms(3) have "round_of S tokens keep target i s = (Inr (Inl (toBeSpent b, selSum b)), s1)"
    by (simp add: round_of_def obind_apply)
  then show ?thesis by (simp add: rounds.simps [of S tokens keep target i s])
qed

end

section \<open>The locker of the repository provides the interface\<close>

text \<open>
  The vault's statuses and the time at the n-th request for a lock. The transactions that
  some status says are invalid are those whose locks may be taken over.
\<close>

record clocks =
  statusAt :: "nat \<Rightarrow> statuses"
  nowAt :: "nat \<Rightarrow> int"

definition locker_ops :: "clocks \<Rightarrow> (nat \<times> locker) Locker" where
  "locker_ops C =
     \<lparr>LockOp = (\<lambda>i tx rc (n, d).
        case Lock (statusAt C n) (nowAt C n) i tx rc d of (r, d') \<Rightarrow> (r, (n + 1, d'))),
      UnlockIDsOp = (\<lambda>ids (n, d). case UnlockIDs ids d of (nf, d') \<Rightarrow> (nf, (n, d'))),
      UnlockByTxIDOp = (\<lambda>tx (n, d). (n, UnlockByTxID tx d))\<rparr>"

definition invalidated :: "clocks \<Rightarrow> string \<Rightarrow> bool" where
  "invalidated C tx \<longleftrightarrow> (\<exists>n. statusAt C n tx = Inr Invalid)"

interpretation inmemory: locks "locker_ops C" "\<lambda>(n, d). holder d" "invalidated C" for C
proof
  fix i tx rc s w s'
  assume "LockOp (locker_ops C) i tx rc s = ((w, None), s')"
  then show "(\<lambda>(n, d). holder d) s' = ((\<lambda>(n, d). holder d) s)(i := Some tx)
      \<and> (\<forall>t. (\<lambda>(n, d). holder d) s i = Some t \<longrightarrow> invalidated C t)"
    by (cases s) (auto simp: locker_ops_def invalidated_def dest!: Lock_holder split: prod.splits)
next
  fix i tx rc s w e s'
  assume "LockOp (locker_ops C) i tx rc s = ((w, Some e), s')"
  then show "(\<lambda>(n, d). holder d) s' = (\<lambda>(n, d). holder d) s \<and> (\<lambda>(n, d). holder d) s i \<noteq> None"
    by (cases s) (auto simp: locker_ops_def dest!: Lock_holder split: prod.splits)
next
  fix ids s nf s' j
  assume "UnlockIDsOp (locker_ops C) ids s = (nf, s')"
  then show "(\<lambda>(n, d). holder d) s' j = (if j \<in> set ids then None else (\<lambda>(n, d). holder d) s j)"
    by (cases s) (auto simp: locker_ops_def UnlockIDs_holder split: prod.splits)
qed

section \<open>Selections\<close>

definition owners_of :: "OwnerFilter option \<Rightarrow> OwnerFilter" where
  "owners_of f = (case f of None \<Rightarrow> allOwners | Some g \<Rightarrow> g)"

definition listing ::
  "'s selector \<Rightarrow> OwnerFilter option \<Rightarrow> string \<Rightarrow> int \<Rightarrow> UnspentToken res list res" where
  "listing S f ty =
     (if ofID (owners_of f) \<noteq> []
      then (\<lambda>i. UnspentTokensIteratorBy (queryService S) i (ofID (owners_of f)) ty)
      else UnspentTokensIterator (queryService S))"

definition wanted :: "OwnerFilter option \<Rightarrow> string \<Rightarrow> UnspentToken \<Rightarrow> bool" where
  "wanted f ty =
     (if ofID (owners_of f) \<noteq> [] then (\<lambda>_. True)
      else (\<lambda>t. utType t = ty \<and> ContainsToken (owners_of f) t))"

lemma Select_rounds:
  "Select S uuid f q ty s =
     (if ofID (owners_of f) \<noteq> [] then obind (olift uuid) else (\<lambda>k. k ()))
       (\<lambda>_. obind (olift (ToQuantity q (sPrecision S))) (\<lambda>target.
          rounds S (listing S f ty) (wanted f ty) target 0)) s"
  by (simp add: Select_def selectByID_def selectByOwner_def listing_def wanted_def owners_of_def Let_def)

lemma Select_cases:
  assumes "Select S uuid f q ty s = (r, s')"
  shows "(\<exists>e. r = Inl e \<and> s' = s \<and> (uuid = Inl e \<or> ToQuantity q (sPrecision S) = Inl e))
    \<or> (\<exists>target. ToQuantity q (sPrecision S) = Inr target
         \<and> rounds S (listing S f ty) (wanted f ty) target 0 s = (r, s'))"
  using assms
  by (cases uuid; cases "ToQuantity q (sPrecision S)")
    (auto simp: Select_rounds obind_apply split: if_splits)

section \<open>Properties\<close>

text \<open>A selector over a locker with no entry, and a vault that lists two tokens of one type.\<close>

definition coin :: "string \<Rightarrow> string \<Rightarrow> UnspentToken" where
  "coin tx q = \<lparr>utId = \<lparr>TxId = tx, Index = 0\<rparr>, utOwner = Some ''A'', utType = ''USD'', utQuantity = q\<rparr>"

lemma coin_simps [simp]:
  "utId (coin tx q) = \<lparr>TxId = tx, Index = 0\<rparr>" "utQuantity (coin tx q) = q"
  by (simp_all add: coin_def)

definition demo_query :: "UnspentToken res list \<Rightarrow> QueryService" where
  "demo_query it =
     \<lparr>UnspentTokensIterator = (\<lambda>i. Inr it), UnspentTokensIteratorBy = (\<lambda>i w ty. Inr it),
      GetTokens = (\<lambda>i ids. Inr [])\<rparr>"

definition demo_clocks :: clocks where
  "demo_clocks = \<lparr>statusAt = (\<lambda>n. all_pending), nowAt = int\<rparr>"

definition demo_selector :: "UnspentToken res list \<Rightarrow> (nat \<times> locker) selector" where
  "demo_selector it =
     NewSelector \<lparr>mLocker = locker_ops demo_clocks, newQueryEngine = demo_query it,
       mNumRetry = 1, mPrecision = 64\<rparr> ''tx''"

lemma demo_pending: "\<not> invalidated demo_clocks tx"
  by (simp add: invalidated_def demo_clocks_def all_pending_def Invalid_def)

lemma demo_locker: "sLocker (demo_selector it) = locker_ops demo_clocks"
  by (simp add: demo_selector_def NewSelector_def)

definition ten :: string where "ten = Hex (UInt64Quantity 10)"

lemma ToQuantity_ten: "ToQuantity ten 64 = Inr (UInt64Quantity 10)"
  unfolding ten_def using ToQuantity_text [of 64 "UInt64Quantity 10"] by simp

lemma pick_coin:
  "pick_loop S keep (UInt64Quantity 10) rc (nothing 64) (Inr (coin tx ten) # it) s
   = (if keep (coin tx ten) then
        (case LockOp (sLocker S) \<lparr>TxId = tx, Index = 0\<rparr> (txID S) rc s of
           ((w, None), s') \<Rightarrow> (Inr \<lparr>toBeSpent = [\<lparr>TxId = tx, Index = 0\<rparr>], selSum = UInt64Quantity 10,
               withLocked = UInt64Quantity 10, withNonCertified = UInt64Quantity 10\<rparr>, s')
         | ((w, Some e), s') \<Rightarrow> pick_loop S keep (UInt64Quantity 10) rc
              ((nothing 64)\<lparr>withLocked := UInt64Quantity 10\<rparr>) it s')
      else pick_loop S keep (UInt64Quantity 10) rc (nothing 64) it s)"
  if "sPrecision S = 64"
proof -
  have "Add (NewZeroQuantity 64) (UInt64Quantity 10) = Inr (UInt64Quantity 10)"
    "Cmp (UInt64Quantity 10) (UInt64Quantity 10) = Inr 0"
    by (simp_all add: NewZeroQuantity_def UInt64Quantity_Add_def UInt64Quantity_Cmp_def)
  with that ToQuantity_ten show ?thesis
    by (simp add: nothing_def add_picked_def add_locked_def split: prod.splits option.splits)
qed

definition no_locks :: locker where "no_locks = NewLocker 5"

definition one_lock :: "string \<Rightarrow> locker" where
  "one_lock tx = no_locks\<lparr>locked := [(\<lparr>TxId = ''a'', Index = 0\<rparr>, \<lparr>leTxID = tx, Created = 0, LastAccess = 0\<rparr>)]\<rparr>"

lemma demo_lock:
  "LockOp (locker_ops demo_clocks) \<lparr>TxId = ''a'', Index = 0\<rparr> ''tx'' rc (0, no_locks)
   = (([], None), (1, one_lock ''tx''))"
  by (simp add: locker_ops_def Lock_def Lock_fast_def Lock_slow_def take_lock_def
      no_locks_def NewLocker_def one_lock_def demo_clocks_def)

lemma demo_wanted: "wanted None ''USD'' (coin tx q)"
  by (simp add: wanted_def owners_of_def allOwners_def coin_def)

lemma demo_Add: "Add (NewZeroQuantity 64) (UInt64Quantity 10) = Inr (UInt64Quantity 10)"
  by (simp add: NewZeroQuantity_def UInt64Quantity_Add_def)

lemma demo_Select:
  "Select (demo_selector (Inr (coin ''a'' ten) # it)) (Inr ()) None ten ''USD'' (0, no_locks)
   = (Inr ([\<lparr>TxId = ''a'', Index = 0\<rparr>], UInt64Quantity 10), (1, one_lock ''tx''))"
proof -
  let ?S = "demo_selector (Inr (coin ''a'' ten) # it)"
  have S: "sPrecision ?S = 64" "txID ?S = ''tx''" "queryService ?S = demo_query (Inr (coin ''a'' ten) # it)"
    by (simp_all add: demo_selector_def NewSelector_def)
  let ?a = "\<lparr>toBeSpent = [\<lparr>TxId = ''a'', Index = 0\<rparr>], selSum = UInt64Quantity 10,
      withLocked = UInt64Quantity 10, withNonCertified = UInt64Quantity 10\<rparr>"
  have p: "pick_loop ?S (wanted None ''USD'') (UInt64Quantity 10) rc (nothing 64)
      (Inr (coin ''a'' ten) # it) (0, no_locks) = (Inr ?a, (1, one_lock ''tx''))" for rc
    using pick_coin [OF S(1)] demo_wanted S(2) by (simp add: demo_locker demo_lock)
  have i: "listing ?S None ''USD'' 0 = Inr (Inr (coin ''a'' ten) # it)"
    by (simp add: listing_def owners_of_def allOwners_def S demo_query_def)
  have f: "finish_round ?S (UInt64Quantity 10) 0 ?a (1, one_lock ''tx'')
     = (Inr (Inl ([\<lparr>TxId = ''a'', Index = 0\<rparr>], UInt64Quantity 10)), (1, one_lock ''tx''))"
    by (simp add: finish_round_def obind_apply S demo_query_def UInt64Quantity_Cmp_def)
  have "round_of ?S (listing ?S None ''USD'') (wanted None ''USD'') (UInt64Quantity 10) 0 (0, no_locks)
     = (Inr (Inl ([\<lparr>TxId = ''a'', Index = 0\<rparr>], UInt64Quantity 10)), (1, one_lock ''tx''))"
    unfolding round_of_def obind_def by (simp only: i S(1) p f olift_apply prod.case sum.case)
  then show ?thesis
    by (simp add: Select_rounds owners_of_def allOwners_def S ToQuantity_ten obind_apply
        rounds.simps [of ?S "listing ?S None ''USD''"])
qed

text \<open>
  C28: a selection that succeeds returns tokens of the listing that the owner filter and the
  type admit, in the order of the listing, each once; their sum, computed without overflow,
  reaches the target, and without the last token it does not; the vault still has them. The
  transaction holds the lock of each, no living transaction held one before, and the locks of
  the other living transactions are untouched. The transaction itself is never said to be
  invalid.
\<close>
theorem selection_sound:
  assumes "sLocker S = locker_ops C" and "\<not> invalidated C (txID S)"
    and "Select S uuid f q ty (n, d) = (Inr (ids, amount), (n', d'))"
  shows "(\<exists>k target picks. ToQuantity q (sPrecision S) = Inr target \<and> ids = map utId picks
        \<and> found_tokens S (listing S f ty) (wanted f ty) target k picks amount)
    \<and> distinct ids \<and> (\<forall>i \<in> set ids. holder d' i = Some (txID S))
    \<and> (\<forall>i x. \<not> invalidated C x \<and> x \<noteq> txID S \<longrightarrow> (holder d' i = Some x \<longleftrightarrow> holder d i = Some x))"
proof -
  let ?h = "\<lambda>(n :: nat, d). holder d"
  from Select_cases [OF assms(3)] obtain target where t: "ToQuantity q (sPrecision S) = Inr target"
    and r: "rounds S (listing S f ty) (wanted f ty) target 0 (n, d) = (Inr (ids, amount), (n', d'))"
    by auto
  note wf = ToQuantity_SomeD(3) [OF t]
  from inmemory.rounds_result [OF r assms(1,2) wf] obtain k u where
    same: "live_same ?h (invalidated C) (n, d) u"
    and ro: "round_of S (listing S f ty) (wanted f ty) target k u = (Inr (Inl (ids, amount)), (n', d'))"
    by auto
  from round_of_result [OF ro wf] obtain picks where
    p: "ids = map utId picks" "found_tokens S (listing S f ty) (wanted f ty) target k picks amount"
    by auto
  from inmemory.round_of_locks [OF assms(1,2) wf ro]
  have m: "mid_round ?h (invalidated C) (txID S) u ids (n', d')" by simp
  have "holder d' i = Some x \<longleftrightarrow> holder d i = Some x" if "\<not> invalidated C x" "x \<noteq> txID S" for i x
    using m same that by (cases "i \<in> set ids") (auto simp: mid_round_def live_same_def split: if_splits)
  moreover have "distinct ids" "\<forall>i \<in> set ids. holder d' i = Some (txID S)"
    using m by (auto simp: mid_round_def split: if_splits)
  ultimately show ?thesis using t p by blast
qed

theorem selection_sound_witness: "holder (one_lock ''tx'') \<lparr>TxId = ''a'', Index = 0\<rparr> = Some ''tx''"
  using selection_sound [OF demo_locker demo_pending demo_Select [of "[]"]]
  by (simp add: demo_selector_def NewSelector_def)

text \<open>
  C29: a selection that fails gives back what it locked: for every living transaction, the
  selecting one included, it holds after the failure exactly the locks that it held before.
  The failure is an error, not a panic, and no \<open>Next\<close> of an iterator has failed.
\<close>
theorem failed_selection_restores_locks:
  assumes "sLocker S = locker_ops C" and "\<not> invalidated C (txID S)"
    and "no_iterator_error (listing S f ty)"
    and "Select S uuid f q ty (n, d) = (Inl (Err m), (n', d'))" and "\<not> invalidated C x"
  shows "holder d' i = Some x \<longleftrightarrow> holder d i = Some x"
proof -
  let ?h = "\<lambda>(n :: nat, d). holder d"
  have "live_same ?h (invalidated C) (n, d) (n', d')"
    using Select_cases [OF assms(4)]
  proof
    assume "\<exists>target. ToQuantity q (sPrecision S) = Inr target
         \<and> rounds S (listing S f ty) (wanted f ty) target 0 (n, d) = (Inl (Err m), (n', d'))"
    then obtain target where t: "ToQuantity q (sPrecision S) = Inr target"
      and r: "rounds S (listing S f ty) (wanted f ty) target 0 (n, d) = (Inl (Err m), (n', d'))" by blast
    note wf = ToQuantity_SomeD(3) [OF t]
    from inmemory.rounds_result [OF r assms(1,2) wf] obtain k u where
      same: "live_same ?h (invalidated C) (n, d) u"
      and ro: "round_of S (listing S f ty) (wanted f ty) target k u = (Inl (Err m), (n', d'))
        \<or> round_of S (listing S f ty) (wanted f ty) target k u = (Inr (Inr (Err m)), (n', d'))"
      by auto
    have "live_same ?h (invalidated C) u (n', d')"
      using ro inmemory.round_of_locks [OF assms(1,2) wf] assms(3) by fastforce
    with same show ?thesis by (rule live_same_trans)
  qed (use live_same_refl in auto)
  with assms(5) show ?thesis by (simp add: live_same_def)
qed

definition twenty :: string where "twenty = Hex (UInt64Quantity 20)"

lemma ToQuantity_twenty: "ToQuantity twenty 64 = Inr (UInt64Quantity 20)"
  unfolding twenty_def using ToQuantity_text [of 64 "UInt64Quantity 20"] by simp

lemma demo_listing [simp]: "listing (demo_selector it) None ty i = Inr it"
  by (simp add: listing_def owners_of_def allOwners_def demo_query_def demo_selector_def NewSelector_def)

lemma demo_insufficient:
  "Select (demo_selector [Inr (coin ''a'' ten)]) (Inr ()) None twenty ''USD'' (0, no_locks)
   = (Inl SelectorInsufficientFunds, (1, no_locks))"
proof -
  let ?S = "demo_selector [Inr (coin ''a'' ten)]"
  let ?i = "\<lparr>TxId = ''a'', Index = 0\<rparr>"
  let ?a = "\<lparr>toBeSpent = [?i], selSum = UInt64Quantity 10,
      withLocked = UInt64Quantity 10, withNonCertified = UInt64Quantity 10\<rparr>"
  have S: "sPrecision ?S = 64" "numRetry ?S = 1" "txID ?S = ''tx''"
    by (simp_all add: demo_selector_def NewSelector_def)
  have u: "snd (UnlockIDsOp (locker_ops demo_clocks) [?i] (1, one_lock ''tx'')) = (1, no_locks)"
    by (simp add: locker_ops_def UnlockIDs_def one_lock_def no_locks_def NewLocker_def)
  have p: "pick_loop ?S (wanted None ''USD'') (UInt64Quantity 20) rc (nothing 64)
      [Inr (coin ''a'' ten)] (0, no_locks) = (Inr ?a, (1, one_lock ''tx''))" for rc
    using demo_wanted ToQuantity_ten demo_lock demo_Add
    by (simp add: S demo_locker nothing_def add_picked_def UInt64Quantity_Cmp_def)
  have f: "finish_round ?S (UInt64Quantity 20) 0 ?a (1, one_lock ''tx'')
     = (Inr (Inr SelectorInsufficientFunds), (1, no_locks))"
    using u by (simp add: finish_round_def obind_apply unlock_ids_def demo_locker
        UInt64Quantity_Cmp_def why_failed_def)
  have "round_of ?S (listing ?S None ''USD'') (wanted None ''USD'') (UInt64Quantity 20) 0 (0, no_locks)
     = (Inr (Inr SelectorInsufficientFunds), (1, no_locks))"
    unfolding round_of_def obind_def
    by (simp only: demo_listing S(1) p f olift_apply prod.case sum.case)
  then show ?thesis
    by (simp add: rounds.simps [of ?S "listing ?S None ''USD''"] S Select_rounds owners_of_def
        allOwners_def ToQuantity_twenty obind_apply)
qed

theorem failed_selection_restores_locks_witness:
  "holder no_locks \<lparr>TxId = ''a'', Index = 0\<rparr> \<noteq> Some ''tx''"
proof -
  let ?i = "\<lparr>TxId = ''a'', Index = 0\<rparr>"
  have n: "no_iterator_error (listing (demo_selector [Inr (coin ''a'' ten)]) None ''USD'')"
    by (simp add: no_iterator_error_def)
  have "holder no_locks ?i = Some ''tx'' \<longleftrightarrow> holder no_locks ?i = Some ''tx''"
    by (rule failed_selection_restores_locks [OF demo_locker demo_pending n
          demo_insufficient [unfolded SelectorInsufficientFunds_def] demo_pending])
  then show ?thesis by (simp add: holder_def no_locks_def NewLocker_def)
qed

text \<open>The errors of a quantity that cannot be read are not those of a selection.\<close>

lemma ToQuantity_selector_error:
  "ToQuantity q p = Inl e \<Longrightarrow> e \<noteq> SelectorInsufficientFunds \<and> e \<noteq> SelectorSufficientButLockedFunds
     \<and> e \<noteq> SelectorSufficientButNotCertifiedFunds \<and> e \<noteq> SelectorSufficientFundsButConcurrencyIssue"
  by (auto simp: ToQuantity_def selector_errors split: if_splits option.splits)

definition sel_error :: "error \<Rightarrow> bool" where
  "sel_error e \<longleftrightarrow> e \<in> {SelectorInsufficientFunds, SelectorSufficientButLockedFunds,
     SelectorSufficientButNotCertifiedFunds, SelectorSufficientFundsButConcurrencyIssue}"

lemma pick_loop_error:
  assumes "pick_loop S keep target rc a it s = (Inl e, s')" "list_all (\<lambda>x. \<exists>t. x = Inr t) it"
  shows "\<not> sel_error e"
  using assms
proof (induction S keep target rc a it s rule: pick_loop.induct)
  case (3 S keep target rc a t it s)
  show ?case
  proof (cases "ToQuantity (utQuantity t) (sPrecision S)")
    case (Inl x)
    with 3 have "x = e" by (auto split: error.splits)
    with ToQuantity_selector_error [OF Inl] show ?thesis by (simp add: sel_error_def)
  next
    case (Inr q)
    note q = this
    show ?thesis
    proof (cases "keep t")
      case True
      obtain w err s1 where l: "LockOp (sLocker S) (utId t) (txID S) rc s = ((w, err), s1)"
        by (metis prod.exhaust)
      have panics: "\<And>x. add_locked q a = Inl x \<Longrightarrow> \<not> sel_error x"
        "\<And>x. add_picked (utId t) q a = Inl x \<Longrightarrow> \<not> sel_error x"
        "\<And>b x. Cmp target b = Inl x \<Longrightarrow> \<not> sel_error x"
        using add_locked_no_Err add_picked_no_Err Cmp_no_Err
        by (auto simp: sel_error_def selector_errors)
      show ?thesis
      proof (cases err)
        case (Some y)
        with 3 q True l panics(1) show ?thesis by (cases "add_locked q a") auto
      next
        case None
        show ?thesis
        proof (cases "add_picked (utId t) q a")
          case (Inl x)
          with 3 q True l None panics(2) show ?thesis by auto
        next
          case (Inr a')
          with 3 q True l None panics(3) show ?thesis
            by (cases "Cmp target (selSum a')") (auto split: if_splits)
        qed
      qed
    qed (use 3 q in auto)
  qed
qed auto

lemma round_of_error:
  assumes "round_of S tokens keep target i s = (Inl e, s')" "wfq (sPrecision S) target"
    and "\<forall>i. \<exists>us. tokens i = Inr (map Inr us)"
  shows "\<not> sel_error e"
proof -
  obtain us where us: "tokens i = Inr (map Inr us)" using assms(3) by blast
  obtain r1 s1 where l: "pick_loop S keep target (numRetry S = 1 \<or> i > 0) (nothing (sPrecision S))
      (map Inr us) s = (r1, s1)" by force
  show ?thesis
  proof (cases r1)
    case (Inl x)
    with assms(1) us l have "x = e" by (simp add: round_of_def obind_apply)
    moreover have "list_all (\<lambda>x. \<exists>t. x = Inr t) (map Inr us)" by (simp add: list_all_iff)
    ultimately show ?thesis using pick_loop_error l Inl by metis
  next
    case (Inr a)
    have "loop_result (sPrecision S) keep (ToBigInt target) (nothing (sPrecision S)) (map Inr us) a"
      using pick_loop_sums [OF l [unfolded Inr] assms(2)] by simp
    then have ok: "sums_ok (sPrecision S) a" "ToBigInt (withNonCertified a) = ToBigInt (selSum a)"
      by (auto elim!: loop_resultE simp: advance_def nothing_def)
    have f: "finish_round S target i a s1 = (Inl e, s')"
      using assms(1) us l Inr by (simp add: round_of_def obind_apply)
    from finish_round_cases [OF f ok(1) assms(2) ok(2)] obtain m where "e = Panic m" by auto
    then show ?thesis by (simp add: sel_error_def selector_errors)
  qed
qed

text \<open>
  Why a selection fails, when the vault lists all its tokens: with "insufficient funds"
  only if in the last round the tokens that the owner filter and the type admit are worth
  less than the target, with "partially locked funds" only if they are worth at least as
  much. The error for funds that are not certified is never returned: its sum is always the
  sum of the tokens picked.
\<close>
theorem selection_failure_reason:
  assumes "sLocker S = locker_ops C" and "\<not> invalidated C (txID S)"
    and "\<forall>i. \<exists>us. listing S f ty i = Inr (map Inr us)"
    and "Select S (Inr ()) f q ty (n, d) = (Inl e, s')" and "sel_error e"
  shows "\<exists>k us target. listing S f ty k = Inr (map Inr us) \<and> numRetry S \<le> k + 1
    \<and> ToQuantity q (sPrecision S) = Inr target
    \<and> (e = SelectorInsufficientFunds \<and> worth (filter (wanted f ty) us) < ToBigInt target
       \<or> e = SelectorSufficientButLockedFunds \<and> ToBigInt target \<le> worth (filter (wanted f ty) us)
       \<or> e = SelectorSufficientFundsButConcurrencyIssue
          \<and> (\<exists>picks. subseq picks (filter (wanted f ty) us) \<and> ToBigInt target \<le> worth picks))"
proof -
  from Select_cases [OF assms(4)] ToQuantity_selector_error assms(5) obtain target where
    t: "ToQuantity q (sPrecision S) = Inr target"
    and r: "rounds S (listing S f ty) (wanted f ty) target 0 (n, d) = (Inl e, s')"
    by (auto simp: sel_error_def)
  note wf = ToQuantity_SomeD(3) [OF t]
  from inmemory.rounds_result [OF r assms(1,2) wf] obtain k u where k:
    "round_of S (listing S f ty) (wanted f ty) target k u = (Inl e, s')
     \<or> numRetry S \<le> k + 1
       \<and> round_of S (listing S f ty) (wanted f ty) target k u = (Inr (Inr e), s')" by auto
  with round_of_error [OF _ wf assms(3)] assms(5)
  have last: "numRetry S \<le> k + 1"
    and ro: "round_of S (listing S f ty) (wanted f ty) target k u = (Inr (Inr e), s')" by blast+
  from round_of_result [OF ro wf] have "failed_for (listing S f ty) (wanted f ty) target k e" by simp
  then obtain us0 rest where f0: "listing S f ty k = Inr (map Inr us0 @ rest)"
    "e = SelectorSufficientFundsButConcurrencyIssue
       \<and> (\<exists>picks. subseq picks (filter (wanted f ty) us0) \<and> ToBigInt target \<le> worth picks)
     \<or> rest = [] \<and> e = (if ToBigInt target \<le> worth (filter (wanted f ty) us0)
          then SelectorSufficientButLockedFunds else SelectorInsufficientFunds)"
    unfolding failed_for_def by blast
  obtain us where us: "listing S f ty k = Inr (map Inr us)" using assms(3) by blast
  with f0(1) have e: "map Inr us = map Inr us0 @ rest" by simp
  then have split: "us = us0 @ drop (length us0) us"
    by (metis append_eq_conv_conj append_take_drop_id inj_map_eq_map inj_Inr length_map take_map)
  have sub: "subseq (filter (wanted f ty) us0) (filter (wanted f ty) us)"
    by (subst split) (simp add: prefix_imp_subseq)
  have whole: "rest = [] \<Longrightarrow> us = us0" using e by (simp add: inj_map_eq_map)
  have "e = SelectorInsufficientFunds \<and> worth (filter (wanted f ty) us) < ToBigInt target
       \<or> e = SelectorSufficientButLockedFunds \<and> ToBigInt target \<le> worth (filter (wanted f ty) us)
       \<or> e = SelectorSufficientFundsButConcurrencyIssue
          \<and> (\<exists>picks. subseq picks (filter (wanted f ty) us) \<and> ToBigInt target \<le> worth picks)"
    using f0(2)
  proof
    assume "e = SelectorSufficientFundsButConcurrencyIssue
       \<and> (\<exists>picks. subseq picks (filter (wanted f ty) us0) \<and> ToBigInt target \<le> worth picks)"
    with sub show ?thesis by (meson subseq_order.trans)
  next
    assume r: "rest = [] \<and> e = (if ToBigInt target \<le> worth (filter (wanted f ty) us0)
          then SelectorSufficientButLockedFunds else SelectorInsufficientFunds)"
    with whole have "us = us0" by simp
    with r show ?thesis by (simp add: not_le split: if_splits)
  qed
  with us last t show ?thesis by blast
qed

theorem selection_failure_reason_witness:
  "worth (filter (wanted None ''USD'') [coin ''a'' ten]) < ToBigInt (UInt64Quantity 20)"
proof -
  let ?S = "demo_selector [Inr (coin ''a'' ten)]"
  have l: "\<forall>i. \<exists>us. listing ?S None ''USD'' i = Inr (map Inr us)"
    by (simp add: exI [of _ "[coin ''a'' ten]"])
  have p: "sPrecision ?S = 64" by (simp add: demo_selector_def NewSelector_def)
  from selection_failure_reason [OF demo_locker demo_pending l demo_insufficient]
  show ?thesis
    by (auto simp: sel_error_def p ToQuantity_twenty selector_errors Cons_eq_map_conv map_eq_Cons_conv)
qed

text \<open>
  C30: enough funds are selected: when the vault lists, in the first round, tokens whose
  quantities can be read and add up within the precision, those that the owner filter and the
  type admit are worth the target, they have different identifiers and nobody holds a lock on
  them, and the vault has the tokens it lists, then the selection succeeds.
\<close>
theorem unlocked_funds_selected:
  assumes "sLocker S = locker_ops C" and "ToQuantity q (sPrecision S) = Inr target"
    and "listing S f ty 0 = Inr (map Inr us)" and "readable (sPrecision S) us"
    and "\<not> exceeds (worth (filter (wanted f ty) us)) (sPrecision S)"
    and "ToBigInt target \<le> worth (filter (wanted f ty) us)"
    and "distinct (map utId (filter (wanted f ty) us))"
    and "\<forall>u \<in> set (filter (wanted f ty) us). holder d (utId u) = None"
    and "\<forall>ids. \<exists>toks. GetTokens (queryService S) 0 ids = Inr toks"
  shows "\<exists>found s'. Select S (Inr ()) f q ty (n, d) = (Inr found, s')"
proof -
  have "\<exists>found s'. rounds S (listing S f ty) (wanted f ty) target 0 (n, d) = (Inr found, s')"
    by (rule inmemory.rounds_succeed [where tokens = "listing S f ty" and keep = "wanted f ty", OF assms(1) ToQuantity_SomeD(3) [OF assms(2)] assms(3-7) _ assms(9)])
      (use assms(8) in simp)
  then show ?thesis by (auto simp: Select_rounds assms(2) obind_apply)
qed

theorem unlocked_funds_selected_witness:
  "\<exists>found s'. Select (demo_selector [Inr (coin ''a'' ten)]) (Inr ()) None ten ''USD'' (7, no_locks)
     = (Inr found, s')"
proof -
  let ?S = "demo_selector [Inr (coin ''a'' ten)]"
  have p: "sPrecision ?S = 64" "queryService ?S = demo_query [Inr (coin ''a'' ten)]"
    by (simp_all add: demo_selector_def NewSelector_def)
  have v: "qval ten = 10" unfolding ten_def using qval_Hex [of 64 "UInt64Quantity 10"] by simp
  have "\<not> exceeds 10 64" using uint_not_exceeds_64 [of 10] by simp
  with demo_wanted v show ?thesis
    by (intro unlocked_funds_selected [OF demo_locker, of _ _ "UInt64Quantity 10" _ _ "[coin ''a'' ten]"])
      (simp_all add: p ToQuantity_ten demo_query_def readable_def holder_def no_locks_def NewLocker_def)
qed

text \<open>
  An iterator that fails in the middle leaves locks behind: the selection returns the
  error at once, without unlocking, and the transaction keeps the lock of the token that it
  had picked, although no token was selected.
\<close>
theorem iterator_error_leaks_locks:
  "\<exists>d'. Select (demo_selector [Inr (coin ''a'' ten), Inl (Err ''next'')]) (Inr ()) None twenty ''USD'' (0, no_locks)
     = (Inl (Err ''next''), (1, d')) \<and> holder d' \<lparr>TxId = ''a'', Index = 0\<rparr> = Some ''tx''"
proof -
  let ?S = "demo_selector [Inr (coin ''a'' ten), Inl (Err ''next'')]"
  let ?i = "\<lparr>TxId = ''a'', Index = 0\<rparr>"
  have S: "sPrecision ?S = 64" "txID ?S = ''tx''"
    by (simp_all add: demo_selector_def NewSelector_def)
  have p: "pick_loop ?S (wanted None ''USD'') (UInt64Quantity 20) rc (nothing 64)
      [Inr (coin ''a'' ten), Inl (Err ''next'')] (0, no_locks) = (Inl (Err ''next''), (1, one_lock ''tx''))" for rc
    using demo_wanted ToQuantity_ten demo_lock demo_Add
    by (simp add: S demo_locker nothing_def add_picked_def UInt64Quantity_Cmp_def)
  have "round_of ?S (listing ?S None ''USD'') (wanted None ''USD'') (UInt64Quantity 20) 0 (0, no_locks)
     = (Inl (Err ''next''), (1, one_lock ''tx''))"
    unfolding round_of_def obind_def
    by (simp only: demo_listing S(1) p olift_apply prod.case sum.case)
  then have "Select ?S (Inr ()) None twenty ''USD'' (0, no_locks) = (Inl (Err ''next''), (1, one_lock ''tx''))"
    by (simp add: rounds.simps [of ?S "listing ?S None ''USD''"] S Select_rounds owners_of_def
        allOwners_def ToQuantity_twenty obind_apply)
  moreover have "holder (one_lock ''tx'') ?i = Some ''tx''"
    by (simp add: holder_def one_lock_def)
  ultimately show ?thesis by blast
qed

end
