(* ===== verification/Streams.thy ===== *)
theory Streams
  imports Quantity
begin

text \<open>
  The streams of inputs and outputs of a request (\<open>token/stream.go\<close>): filters, sums, and
  the lists of distinct owners, types and enrollment identifiers.
\<close>

section \<open>Distinct values in the order of their first occurrence\<close>

text \<open>
  The loops of \<open>EnrollmentIDs\<close>, \<open>TokenTypes\<close> and \<open>Owners\<close>: a map of what was seen and a
  slice of results.
\<close>

fun distinct_loop :: "string set \<Rightarrow> string list \<Rightarrow> string list \<Rightarrow> string list" where
  "distinct_loop seen res [] = res"
| "distinct_loop seen res (x # xs) =
     (if x \<in> seen then distinct_loop seen res xs
      else distinct_loop (insert x seen) (res @ [x]) xs)"

text \<open>The reference: each value once, where it occurs first.\<close>

fun first_occurrences :: "string list \<Rightarrow> string list" where
  "first_occurrences [] = []"
| "first_occurrences (x # xs) = x # filter (\<lambda>y. y \<noteq> x) (first_occurrences xs)"

lemma distinct_loop_eq:
  "distinct_loop seen res xs = res @ filter (\<lambda>y. y \<notin> seen) (first_occurrences xs)"
proof (induction xs arbitrary: seen res)
  case (Cons x xs)
  show ?case
  proof (cases "x \<in> seen")
    case True
    then have "filter (\<lambda>y. y \<notin> seen) (filter (\<lambda>y. y \<noteq> x) l) = filter (\<lambda>y. y \<notin> seen) l" for l
      by (auto intro!: filter_cong simp: filter_filter)
    with True Cons show ?thesis by simp
  next
    case False
    have "filter (\<lambda>y. y \<notin> insert x seen) l = filter (\<lambda>y. y \<notin> seen) (filter (\<lambda>y. y \<noteq> x) l)" for l
      by (auto intro!: filter_cong simp: filter_filter)
    with False Cons show ?thesis by simp
  qed
qed simp

lemma distinct_loop_start [simp]: "distinct_loop {} [] xs = first_occurrences xs"
  by (simp add: distinct_loop_eq)

lemma set_first_occurrences [simp]: "set (first_occurrences xs) = set xs"
  by (induction xs) auto

lemma distinct_first_occurrences [simp]: "distinct (first_occurrences xs)"
  by (induction xs) auto

section \<open>Outputs\<close>

record StreamOutput =
  oActionIndex :: nat
  oIndex :: u64
  oOwner :: bytes
  oOwnerAuditInfo :: bytes
  oEnrollmentID :: string
  oType :: string
  oQuantity :: Quantity

definition Output_ID :: "StreamOutput \<Rightarrow> string \<Rightarrow> ID" where
  "Output_ID o' txID = \<lparr>TxId = txID, Index = oIndex o'\<rparr>"

record OutputStream =
  osPrecision :: u64
  osOutputs :: "StreamOutput list"

definition NewOutputStream :: "StreamOutput list \<Rightarrow> u64 \<Rightarrow> OutputStream" where
  "NewOutputStream outs precision = \<lparr>osPrecision = precision, osOutputs = outs\<rparr>"

definition OutputStream_Filter :: "(StreamOutput \<Rightarrow> bool) \<Rightarrow> OutputStream \<Rightarrow> OutputStream" where
  "OutputStream_Filter f st = \<lparr>osPrecision = osPrecision st, osOutputs = filter f (osOutputs st)\<rparr>"

text \<open>Identities are compared by the smart client; \<open>equal\<close> is its comparison.\<close>

definition OutputStream_ByRecipient :: "(bytes \<Rightarrow> bytes \<Rightarrow> bool) \<Rightarrow> bytes \<Rightarrow> OutputStream \<Rightarrow> OutputStream" where
  "OutputStream_ByRecipient equal i = OutputStream_Filter (\<lambda>t. equal i (oOwner t))"

definition OutputStream_ByType :: "string \<Rightarrow> OutputStream \<Rightarrow> OutputStream" where
  "OutputStream_ByType typ = OutputStream_Filter (\<lambda>t. oType t = typ)"

definition OutputStream_ByEnrollmentID :: "string \<Rightarrow> OutputStream \<Rightarrow> OutputStream" where
  "OutputStream_ByEnrollmentID i = OutputStream_Filter (\<lambda>t. oEnrollmentID t = i)"

definition OutputStream_Count :: "OutputStream \<Rightarrow> nat" where
  "OutputStream_Count st = length (osOutputs st)"

definition OutputStream_Sum :: "OutputStream \<Rightarrow> int" where
  "OutputStream_Sum st = foldl (\<lambda>acc x. acc + ToBigInt (oQuantity x)) 0 (osOutputs st)"

definition OutputStream_At :: "nat \<Rightarrow> OutputStream \<Rightarrow> StreamOutput res" where
  "OutputStream_At i st = at (osOutputs st) i"

definition OutputStream_EnrollmentIDs :: "OutputStream \<Rightarrow> string list" where
  "OutputStream_EnrollmentIDs st =
     distinct_loop {} [] (filter (\<lambda>e. e \<noteq> []) (map oEnrollmentID (osOutputs st)))"

definition OutputStream_TokenTypes :: "OutputStream \<Rightarrow> string list" where
  "OutputStream_TokenTypes st = distinct_loop {} [] (map oType (osOutputs st))"

section \<open>Inputs\<close>

text \<open>
  The identifier and the quantity of an input are pointers; the quantity is nil unless the
  inputs were loaded for an audit. The query service of a stream is nil after a filter.
\<close>

record StreamInput =
  nActionIndex :: nat
  nId :: "ID option"
  nOwner :: bytes
  nOwnerAuditInfo :: bytes
  nEnrollmentID :: string
  nType :: string
  nQuantity :: "Quantity option"

record InputStream =
  nsQuery :: "(ID option \<Rightarrow> bool res) option"
  nsInputs :: "StreamInput list"
  nsPrecision :: u64

definition NewInputStream :: "(ID option \<Rightarrow> bool res) \<Rightarrow> StreamInput list \<Rightarrow> u64 \<Rightarrow> InputStream" where
  "NewInputStream qs ins precision = \<lparr>nsQuery = Some qs, nsInputs = ins, nsPrecision = precision\<rparr>"

definition InputStream_Filter :: "(StreamInput \<Rightarrow> bool) \<Rightarrow> InputStream \<Rightarrow> InputStream" where
  "InputStream_Filter f st =
     \<lparr>nsQuery = None, nsInputs = filter f (nsInputs st), nsPrecision = nsPrecision st\<rparr>"

definition InputStream_Count :: "InputStream \<Rightarrow> nat" where
  "InputStream_Count st = length (nsInputs st)"

text \<open>\<open>uid\<close> is the smart client's unique name of an identity.\<close>

definition InputStream_Owners :: "(bytes \<Rightarrow> string) \<Rightarrow> InputStream \<Rightarrow> string list" where
  "InputStream_Owners uid st = distinct_loop {} [] (map (\<lambda>x. uid (nOwner x)) (nsInputs st))"

definition OwnerStream_Count :: "string list \<Rightarrow> nat" where
  "OwnerStream_Count owners = length owners"

fun any_mine :: "(ID option \<Rightarrow> bool res) option \<Rightarrow> StreamInput list \<Rightarrow> bool res" where
  "any_mine qs [] = Inr False"
| "any_mine qs (x # xs) =
     (case qs of
        None \<Rightarrow> Inl nil_pointer
      | Some isMine \<Rightarrow>
          rbind (isMine (nId x)) (\<lambda>mine. if mine then Inr True else any_mine qs xs))"

definition IsAnyMine :: "InputStream \<Rightarrow> bool res" where
  "IsAnyMine st = any_mine (nsQuery st) (nsInputs st)"

definition InputStream_At :: "nat \<Rightarrow> InputStream \<Rightarrow> StreamInput res" where
  "InputStream_At i st = at (nsInputs st) i"

definition InputStream_IDs :: "InputStream \<Rightarrow> ID option list" where
  "InputStream_IDs st = map nId (nsInputs st)"

definition InputStream_EnrollmentIDs :: "InputStream \<Rightarrow> string list" where
  "InputStream_EnrollmentIDs st =
     distinct_loop {} [] (filter (\<lambda>e. e \<noteq> []) (map nEnrollmentID (nsInputs st)))"

definition InputStream_TokenTypes :: "InputStream \<Rightarrow> string list" where
  "InputStream_TokenTypes st = distinct_loop {} [] (map nType (nsInputs st))"

definition InputStream_ByEnrollmentID :: "string \<Rightarrow> InputStream \<Rightarrow> InputStream" where
  "InputStream_ByEnrollmentID i = InputStream_Filter (\<lambda>t. nEnrollmentID t = i)"

definition InputStream_ByType :: "string \<Rightarrow> InputStream \<Rightarrow> InputStream" where
  "InputStream_ByType typ = InputStream_Filter (\<lambda>t. nType t = typ)"

definition InputStream_Sum :: "InputStream \<Rightarrow> int res" where
  "InputStream_Sum st =
     rfold (\<lambda>acc x. case nQuantity x of None \<Rightarrow> Inl nil_pointer | Some q \<Rightarrow> Inr (acc + ToBigInt q))
       0 (nsInputs st)"

section \<open>Sums\<close>

lemma OutputStream_Sum_eq:
  "OutputStream_Sum st = sum_list (map (\<lambda>x. ToBigInt (oQuantity x)) (osOutputs st))"
proof -
  have "foldl (\<lambda>acc x. acc + ToBigInt (oQuantity x)) a xs
      = a + sum_list (map (\<lambda>x. ToBigInt (oQuantity x)) xs)" for a and xs :: "StreamOutput list"
    by (induction xs arbitrary: a) simp_all
  then show ?thesis by (simp add: OutputStream_Sum_def)
qed

lemma rfold_quantities:
  "rfold (\<lambda>acc x. case nQuantity x of None \<Rightarrow> Inl nil_pointer | Some q \<Rightarrow> Inr (acc + ToBigInt q)) a xs
   = (if list_all (\<lambda>x. nQuantity x \<noteq> None) xs
      then Inr (a + sum_list (map (\<lambda>x. ToBigInt (the (nQuantity x))) xs)) else Inl nil_pointer)"
  by (induction xs arbitrary: a) (auto split: option.splits)

lemma sum_list_filter_split:
  "sum_list (map f xs) = sum_list (map f (filter P xs)) + sum_list (map f (filter (\<lambda>x. \<not> P x) xs))"
  for f :: "'a \<Rightarrow> int"
  by (induction xs) auto

text \<open>The sum over a list is the sum, over the distinct values of a key, of the sums of the parts.\<close>

lemma sum_list_by_key:
  fixes f :: "'a \<Rightarrow> int"
  assumes "distinct ks" and "set (map key xs) \<subseteq> set ks"
  shows "sum_list (map (\<lambda>k. sum_list (map f (filter (\<lambda>x. key x = k) xs))) ks) = sum_list (map f xs)"
  using assms
proof (induction ks arbitrary: xs)
  case (Cons k ks)
  let ?rest = "filter (\<lambda>x. key x \<noteq> k) xs"
  have e: "filter (\<lambda>x. key x = k') xs = filter (\<lambda>x. key x = k') ?rest" if "k' \<in> set ks" for k'
    using Cons.prems(1) that by (auto intro!: filter_cong)
  have "sum_list (map (\<lambda>k'. sum_list (map f (filter (\<lambda>x. key x = k') xs))) ks)
      = sum_list (map (\<lambda>k'. sum_list (map f (filter (\<lambda>x. key x = k') ?rest))) ks)"
    using e by (intro arg_cong [where f = sum_list] map_cong) auto
  also have "\<dots> = sum_list (map f ?rest)"
    using Cons.prems by (intro Cons.IH) auto
  finally show ?case using sum_list_filter_split [of f xs "\<lambda>x. key x = k"] by simp
qed simp

section \<open>Properties\<close>

text \<open>
  Accounting by type: the total of a stream of outputs is the sum, over the types that
  \<open>TokenTypes\<close> lists, of the totals of the streams filtered by type; it lists each type
  once, exactly those that occur, so no output is counted twice or left out. The same holds
  for inputs, whose sum panics exactly when some input has no quantity.
\<close>
theorem stream_accounting:
  "OutputStream_Sum os = sum_list (map (\<lambda>ty. OutputStream_Sum (OutputStream_ByType ty os)) (OutputStream_TokenTypes os))
   \<and> distinct (OutputStream_TokenTypes os) \<and> set (OutputStream_TokenTypes os) = oType ` set (osOutputs os)
   \<and> InputStream_Sum ns = (if list_all (\<lambda>x. nQuantity x \<noteq> None) (nsInputs ns)
        then Inr (sum_list (map (\<lambda>ty. sum_list (map (\<lambda>x. ToBigInt (the (nQuantity x)))
                (nsInputs (InputStream_ByType ty ns)))) (InputStream_TokenTypes ns)))
        else Inl nil_pointer)"
proof (intro conjI)
  show "OutputStream_Sum os = sum_list (map (\<lambda>ty. OutputStream_Sum (OutputStream_ByType ty os)) (OutputStream_TokenTypes os))"
    using sum_list_by_key [of "OutputStream_TokenTypes os" oType "osOutputs os" "\<lambda>x. ToBigInt (oQuantity x)"]
    by (simp add: OutputStream_Sum_eq OutputStream_ByType_def OutputStream_Filter_def OutputStream_TokenTypes_def)
  show "distinct (OutputStream_TokenTypes os)" "set (OutputStream_TokenTypes os) = oType ` set (osOutputs os)"
    by (simp_all add: OutputStream_TokenTypes_def)
  show "InputStream_Sum ns = (if list_all (\<lambda>x. nQuantity x \<noteq> None) (nsInputs ns)
        then Inr (sum_list (map (\<lambda>ty. sum_list (map (\<lambda>x. ToBigInt (the (nQuantity x)))
                (nsInputs (InputStream_ByType ty ns)))) (InputStream_TokenTypes ns)))
        else Inl nil_pointer)"
    using sum_list_by_key [of "InputStream_TokenTypes ns" nType "nsInputs ns" "\<lambda>x. ToBigInt (the (nQuantity x))"]
    by (simp add: InputStream_Sum_def rfold_quantities InputStream_ByType_def InputStream_Filter_def
        InputStream_TokenTypes_def)
qed

text \<open>
  A filter of inputs loses the query service: asking a filtered stream with an input in
  it whether any input is mine panics, whatever the vault would answer.
\<close>
theorem filtered_inputs_panic:
  assumes "x \<in> set (nsInputs ns)" and "f x"
  shows "IsAnyMine (InputStream_Filter f ns) = Inl nil_pointer"
proof -
  have "filter f (nsInputs ns) \<noteq> []" using assms by (auto simp: filter_empty_conv)
  then show ?thesis by (cases "filter f (nsInputs ns)") (simp_all add: IsAnyMine_def InputStream_Filter_def)
qed

definition demo_input :: StreamInput where
  "demo_input = \<lparr>nActionIndex = 0, nId = Some \<lparr>TxId = ''t'', Index = 0\<rparr>, nOwner = ''A'',
     nOwnerAuditInfo = [], nEnrollmentID = ''alice'', nType = ''USD'', nQuantity = None\<rparr>"

theorem filtered_inputs_panic_witness:
  "IsAnyMine (NewInputStream (\<lambda>_. Inr True) [demo_input] 64) = Inr True
   \<and> IsAnyMine (InputStream_ByEnrollmentID ''alice'' (NewInputStream (\<lambda>_. Inr True) [demo_input] 64)) = Inl nil_pointer"
  using filtered_inputs_panic [of demo_input "NewInputStream (\<lambda>_. Inr True) [demo_input] 64" "\<lambda>t. nEnrollmentID t = ''alice''"]
  by (simp add: InputStream_ByEnrollmentID_def NewInputStream_def IsAnyMine_def demo_input_def)

end
