(* ===== verification/Metadata.thy ===== *)
theory Metadata
  imports Quantity "HOL-Library.AList" "HOL-Library.List_Lexorder" "HOL-Library.Char_ord"
begin

text \<open>
  The metadata of a request: what the parties need to open its outputs
  (\<open>token/driver/request.go\<close>, \<open>token/driver/marshaller.go\<close>), and the view of it that the
  token API offers, with the filter by enrollment identifier (\<open>token/metadata.go\<close>).

  A map from strings to bytes is an association list with distinct keys, in an order that
  does not matter.
\<close>

section \<open>The records\<close>

record IssueMetadata =
  imIssuer :: bytes
  imOutputs :: "bytes list"
  imTokenInfo :: "bytes list"
  imReceivers :: "bytes list"
  imReceiversAuditInfos :: "bytes list"

record TransferMetadata =
  tmTokenIDs :: "ID list"
  tmSenders :: "bytes list"
  tmSenderAuditInfos :: "bytes list"
  tmOutputs :: "bytes list"
  tmOutputsMetadata :: "bytes list"
  tmReceivers :: "bytes list"
  tmReceiverAuditInfos :: "bytes list"
  tmReceiverIsSender :: "bool list"
  tmExtraSigners :: "bytes list"

record TokenRequestMetadata =
  mdIssues :: "IssueMetadata list"
  mdTransfers :: "TransferMetadata list"
  mdApplication :: "(string \<times> bytes) list"

definition no_metadata :: TokenRequestMetadata where
  "no_metadata = \<lparr>mdIssues = [], mdTransfers = [], mdApplication = []\<rparr>"

definition TokenIDAt :: "TransferMetadata \<Rightarrow> int \<Rightarrow> ID option" where
  "TokenIDAt tm index =
     (if index < 0 \<or> int (length (tmTokenIDs tm)) \<le> index then None
      else Some (tmTokenIDs tm ! nat index))"

text \<open>The entry of the second list at the place where the first has the given value.\<close>

fun info_of :: "bytes \<Rightarrow> bytes list \<Rightarrow> nat \<Rightarrow> bytes list \<Rightarrow> bytes option res" where
  "info_of raw [] i infos = Inr None"
| "info_of raw (x # xs) i infos =
     (if x = raw then rbind (at infos i) (\<lambda>v. Inr (Some v)) else info_of raw xs (i + 1) infos)"

fun issue_infos :: "bytes \<Rightarrow> IssueMetadata list \<Rightarrow> bytes option res" where
  "issue_infos raw [] = Inr None"
| "issue_infos raw (m # ms) =
     rbind (info_of raw (imOutputs m) 0 (imTokenInfo m)) (\<lambda>r.
     case r of Some v \<Rightarrow> Inr (Some v) | None \<Rightarrow> issue_infos raw ms)"

fun transfer_infos :: "bytes \<Rightarrow> TransferMetadata list \<Rightarrow> bytes option res" where
  "transfer_infos raw [] = Inr None"
| "transfer_infos raw (m # ms) =
     rbind (info_of raw (tmOutputs m) 0 (tmOutputsMetadata m)) (\<lambda>r.
     case r of Some v \<Rightarrow> Inr (Some v) | None \<Rightarrow> transfer_infos raw ms)"

definition GetTokenInfo :: "TokenRequestMetadata \<Rightarrow> bytes \<Rightarrow> bytes res" where
  "GetTokenInfo m raw =
     rbind (issue_infos raw (mdIssues m)) (\<lambda>r.
     case r of
       Some v \<Rightarrow> Inr v
     | None \<Rightarrow> rbind (transfer_infos raw (mdTransfers m)) (\<lambda>r'.
         Inr (case r' of Some v \<Rightarrow> v | None \<Rightarrow> [])))"

section \<open>Serialization\<close>

text \<open>
  What is written is the ASN.1 form of these records; \<open>encoding/asn1\<close> is a parameter. The
  index of a token identifier is an \<open>int\<close> there.
\<close>

record TransferMetadataSer =
  tsTokenIDs :: "(string \<times> int) list"
  tsOutputs :: "bytes list"
  tsTokenInfo :: "bytes list"
  tsSenders :: "bytes list"
  tsSenderAuditInfos :: "bytes list"
  tsReceivers :: "bytes list"
  tsReceiverIsSender :: "bool list"
  tsReceiverAuditInfos :: "bytes list"
  tsExtraSigners :: "bytes list"

record tokenRequestMetadataSer =
  serIssues :: "IssueMetadata list"
  serTransfers :: "TransferMetadataSer list"
  serApplication :: bytes

record metaSer =
  msKeys :: "string list"
  msVals :: "bytes list"

record asn1 =
  asn1_marshal_meta :: "metaSer \<Rightarrow> bytes res"
  asn1_unmarshal_meta :: "bytes \<Rightarrow> metaSer res"
  asn1_marshal_metadata :: "tokenRequestMetadataSer \<Rightarrow> bytes res"
  asn1_unmarshal_metadata :: "bytes \<Rightarrow> tokenRequestMetadataSer res"

text \<open>What is marshalled without an error is read back.\<close>

definition asn1_laws :: "asn1 \<Rightarrow> bool" where
  "asn1_laws A \<longleftrightarrow>
     (\<forall>x raw. asn1_marshal_meta A x = Inr raw \<longrightarrow> asn1_unmarshal_meta A raw = Inr x)
     \<and> (\<forall>x raw. asn1_marshal_metadata A x = Inr raw \<longrightarrow> asn1_unmarshal_metadata A raw = Inr x)"

definition meta_ser :: "(string \<times> bytes) list \<Rightarrow> metaSer" where
  "meta_ser v =
     (let keys = sort (map fst v) in
      \<lparr>msKeys = keys, msVals = map (\<lambda>k. case map_of v k of Some b \<Rightarrow> b | None \<Rightarrow> []) keys\<rparr>)"

definition MarshalMeta :: "asn1 \<Rightarrow> (string \<times> bytes) list \<Rightarrow> bytes res" where
  "MarshalMeta A v = asn1_marshal_meta A (meta_ser v)"

fun set_keys :: "bytes list \<Rightarrow> nat \<Rightarrow> string list \<Rightarrow> (string \<times> bytes) list \<Rightarrow> (string \<times> bytes) list res" where
  "set_keys vals i [] v = Inr v"
| "set_keys vals i (k # ks) v = rbind (at vals i) (\<lambda>b. set_keys vals (i + 1) ks (AList.update k b v))"

definition UnmarshalMeta :: "asn1 \<Rightarrow> bytes \<Rightarrow> (string \<times> bytes) list res" where
  "UnmarshalMeta A raw =
     rbind (asn1_unmarshal_meta A raw) (\<lambda>m. set_keys (msVals m) 0 (msKeys m) [])"

text \<open>\<open>int(tokenID.Index)\<close> and \<open>uint64(tokenID.Index)\<close>, on a machine with 64-bit integers.\<close>

definition transfer_ser :: "TransferMetadata \<Rightarrow> TransferMetadataSer" where
  "transfer_ser t =
     \<lparr>tsTokenIDs = map (\<lambda>i. (TxId i, sint (Index i))) (tmTokenIDs t), tsOutputs = tmOutputs t,
      tsTokenInfo = tmOutputsMetadata t, tsSenders = tmSenders t,
      tsSenderAuditInfos = tmSenderAuditInfos t, tsReceivers = tmReceivers t,
      tsReceiverIsSender = tmReceiverIsSender t, tsReceiverAuditInfos = tmReceiverAuditInfos t,
      tsExtraSigners = tmExtraSigners t\<rparr>"

definition transfer_unser :: "TransferMetadataSer \<Rightarrow> TransferMetadata" where
  "transfer_unser t =
     \<lparr>tmTokenIDs = map (\<lambda>(tx, i). \<lparr>TxId = tx, Index = word_of_int i\<rparr>) (tsTokenIDs t),
      tmSenders = tsSenders t, tmSenderAuditInfos = tsSenderAuditInfos t, tmOutputs = tsOutputs t,
      tmOutputsMetadata = tsTokenInfo t, tmReceivers = tsReceivers t,
      tmReceiverAuditInfos = tsReceiverAuditInfos t, tmReceiverIsSender = tsReceiverIsSender t,
      tmExtraSigners = tsExtraSigners t\<rparr>"

definition TokenRequestMetadata_Bytes :: "asn1 \<Rightarrow> TokenRequestMetadata \<Rightarrow> bytes res" where
  "TokenRequestMetadata_Bytes A m =
     (case MarshalMeta A (mdApplication m) of
        Inl (Panic p) \<Rightarrow> Inl (Panic p)
      | Inl (Err _) \<Rightarrow> Inl (Err ''cannot marshal token request metadata: failed to marshal application metadata'')
      | Inr meta \<Rightarrow>
          asn1_marshal_metadata A
            \<lparr>serIssues = mdIssues m, serTransfers = map transfer_ser (mdTransfers m),
             serApplication = meta\<rparr>)"

text \<open>Reading overwrites the metadata in place; where the application metadata fail, the rest has been set.\<close>

definition TokenRequestMetadata_FromBytes :: "asn1 \<Rightarrow> bytes \<Rightarrow> (TokenRequestMetadata, unit) oper" where
  "TokenRequestMetadata_FromBytes A raw = (\<lambda>m.
     case asn1_unmarshal_metadata A raw of
       Inl e \<Rightarrow> (Inl e, m)
     | Inr ser \<Rightarrow>
         (let m1 = m\<lparr>mdIssues := serIssues ser, mdTransfers := map transfer_unser (serTransfers ser)\<rparr> in
          case UnmarshalMeta A (serApplication ser) of
            Inl (Panic p) \<Rightarrow> (Inl (Panic p), m1)
          | Inl (Err e) \<Rightarrow> (Inl (Err e), m1\<lparr>mdApplication := []\<rparr>)
          | Inr app \<Rightarrow> (Inr (), m1\<lparr>mdApplication := app\<rparr>)))"

section \<open>The view of the token API\<close>

text \<open>The functions of the driver that the view calls.\<close>

record metadata_tms =
  mDeserializeToken :: "bytes \<Rightarrow> bytes \<Rightarrow> (Token \<times> bytes) res"
  mGetEnrollmentID :: "bytes \<Rightarrow> string res"

definition Metadata_GetToken ::
  "metadata_tms \<Rightarrow> TokenRequestMetadata \<Rightarrow> bytes \<Rightarrow> (Token \<times> bytes \<times> bytes) res" where
  "Metadata_GetToken T m raw =
     rbind (GetTokenInfo m raw) (\<lambda>info.
     if info = [] then Inl (Err ''metadata not found'')
     else rbind (mDeserializeToken T raw info) (\<lambda>(tok, i). Inr (tok, i, info)))"

definition SpentTokenID :: "TokenRequestMetadata \<Rightarrow> ID list" where
  "SpentTokenID m = concat (map tmTokenIDs (mdTransfers m))"

fun search_from :: "nat \<Rightarrow> string list \<Rightarrow> string \<Rightarrow> int" where
  "search_from i [] e = - 1"
| "search_from i (v # s) e = (if v = e then int i else search_from (i + 1) s e)"

definition search :: "string list \<Rightarrow> string \<Rightarrow> int" where
  "search s e = search_from 0 s e"

text \<open>
  The filter of an issue and of a transfer: for each receiver, the entries of the lists at
  its place, or empty ones.
\<close>

definition filter_issue_entry ::
  "metadata_tms \<Rightarrow> string list \<Rightarrow> IssueMetadata \<Rightarrow> nat \<times> bytes \<Rightarrow> (bytes \<times> bytes \<times> bytes \<times> bytes) res" where
  "filter_issue_entry T eIDs issue = (\<lambda>(i, auditInfo).
     rbind (mGetEnrollmentID T auditInfo) (\<lambda>recipientEID.
     if search eIDs recipientEID \<noteq> - 1
     then rbind (at (imOutputs issue) i) (\<lambda>output.
          rbind (at (imTokenInfo issue) i) (\<lambda>info.
          rbind (at (imReceivers issue) i) (\<lambda>receiver.
          rbind (at (imReceiversAuditInfos issue) i) (\<lambda>audit.
          Inr (output, info, receiver, audit)))))
     else Inr ([], [], [], [])))"

definition filter_issue :: "metadata_tms \<Rightarrow> string list \<Rightarrow> IssueMetadata \<Rightarrow> IssueMetadata res" where
  "filter_issue T eIDs issue =
     rbind (rmap (filter_issue_entry T eIDs issue) (enumerate 0 (imReceiversAuditInfos issue))) (\<lambda>es.
     Inr \<lparr>imIssuer = imIssuer issue, imOutputs = map fst es, imTokenInfo = map (fst \<circ> snd) es,
          imReceivers = map (fst \<circ> snd \<circ> snd) es, imReceiversAuditInfos = map (snd \<circ> snd \<circ> snd) es\<rparr>)"

definition filter_transfer_entry ::
  "metadata_tms \<Rightarrow> string list \<Rightarrow> TransferMetadata \<Rightarrow> nat \<times> bytes
    \<Rightarrow> (bool \<times> bytes \<times> bytes \<times> bytes \<times> bool \<times> bytes) res" where
  "filter_transfer_entry T eIDs transfer = (\<lambda>(i, auditInfo).
     rbind (mGetEnrollmentID T auditInfo) (\<lambda>recipientEID.
     if search eIDs recipientEID \<noteq> - 1
     then rbind (at (tmOutputs transfer) i) (\<lambda>output.
          rbind (at (tmOutputsMetadata transfer) i) (\<lambda>info.
          rbind (at (tmReceivers transfer) i) (\<lambda>receiver.
          rbind (at (tmReceiverIsSender transfer) i) (\<lambda>isSender.
          rbind (at (tmReceiverAuditInfos transfer) i) (\<lambda>audit.
          Inr (True, output, info, receiver, isSender, audit))))))
     else Inr (False, [], [], [], False, [])))"

definition keep_senders :: "TransferMetadata \<Rightarrow> (bytes \<times> bytes) list res" where
  "keep_senders transfer =
     rmap (\<lambda>(i, sender). rbind (at (tmSenderAuditInfos transfer) i) (\<lambda>audit. Inr (sender, audit)))
       (enumerate 0 (tmSenders transfer))"

definition filter_transfer :: "metadata_tms \<Rightarrow> string list \<Rightarrow> TransferMetadata \<Rightarrow> TransferMetadata res" where
  "filter_transfer T eIDs transfer =
     rbind (rmap (filter_transfer_entry T eIDs transfer) (enumerate 0 (tmReceiverAuditInfos transfer))) (\<lambda>es.
     let skip = list_all (\<lambda>e. \<not> fst e) es in
     rbind (if \<not> skip then keep_senders transfer else Inr []) (\<lambda>ss.
     Inr \<lparr>tmTokenIDs = [], tmSenders = map fst ss, tmSenderAuditInfos = map snd ss,
          tmOutputs = map (\<lambda>(_, output, _). output) es,
          tmOutputsMetadata = map (\<lambda>(_, _, info, _). info) es,
          tmReceivers = map (\<lambda>(_, _, _, r, _). r) es,
          tmReceiverAuditInfos = map (\<lambda>(_, _, _, _, _, a). a) es,
          tmReceiverIsSender = map (\<lambda>(_, _, _, _, b, _). b) es,
          tmExtraSigners = tmExtraSigners transfer\<rparr>))"

definition FilterBy :: "metadata_tms \<Rightarrow> string list \<Rightarrow> TokenRequestMetadata \<Rightarrow> TokenRequestMetadata res" where
  "FilterBy T eIDs m =
     rbind (rmap (filter_issue T eIDs) (mdIssues m)) (\<lambda>is.
     rbind (rmap (filter_transfer T eIDs) (mdTransfers m)) (\<lambda>ts.
     Inr \<lparr>mdIssues = is, mdTransfers = ts, mdApplication = mdApplication m\<rparr>))"

definition Metadata_Issue :: "TokenRequestMetadata \<Rightarrow> nat \<Rightarrow> IssueMetadata res" where
  "Metadata_Issue m i =
     (if length (mdIssues m) \<le> i then Inl (Err ''index out of range'') else Inr (mdIssues m ! i))"

definition Metadata_Transfer :: "TokenRequestMetadata \<Rightarrow> nat \<Rightarrow> TransferMetadata res" where
  "Metadata_Transfer m i =
     (if length (mdTransfers m) \<le> i then Inl (Err ''index out of range'') else Inr (mdTransfers m ! i))"

text \<open>Matching metadata against an action, given by its number of outputs.\<close>

definition IssueMetadata_Match :: "IssueMetadata \<Rightarrow> nat \<Rightarrow> unit res" where
  "IssueMetadata_Match m numOutputs =
     (if length (imOutputs m) \<noteq> 1 then Inl (Err ''expected one output'')
      else if length (imOutputs m) \<noteq> numOutputs then Inl (Err ''unexpected number of outputs'')
      else if length (imOutputs m) \<noteq> length (imTokenInfo m) then Inl (Err ''unexpected number of token infos'')
      else if length (imOutputs m) \<noteq> length (imReceivers m) then Inl (Err ''unexpected number of receivers'')
      else if length (imOutputs m) \<noteq> length (imReceiversAuditInfos m)
        then Inl (Err ''unexpected number of receiver audit infos'')
      else Inr ())"

definition IssueMetadata_IsOutputAbsent :: "IssueMetadata \<Rightarrow> nat \<Rightarrow> bool res" where
  "IssueMetadata_IsOutputAbsent m j = rbind (at (imTokenInfo m) j) (\<lambda>info. Inr (info = []))"

definition TransferMetadata_Match :: "TransferMetadata \<Rightarrow> nat \<Rightarrow> unit res" where
  "TransferMetadata_Match m numOutputs =
     (if tmTokenIDs m \<noteq> [] \<and> length (tmSenders m) \<noteq> length (tmTokenIDs m)
        then Inl (Err ''unexpected number of token IDs and senders'')
      else if length (tmSenders m) \<noteq> length (tmSenderAuditInfos m)
        then Inl (Err ''unexpected number of senders and sender audit infos'')
      else if length (tmOutputs m) \<noteq> numOutputs then Inl (Err ''unexpected number of outputs'')
      else if length (tmOutputs m) \<noteq> length (tmOutputsMetadata m) then Inl (Err ''unexpected number of token infos'')
      else if length (tmOutputs m) \<noteq> length (tmReceivers m) then Inl (Err ''unexpected number of receivers'')
      else if length (tmOutputs m) \<noteq> length (tmReceiverAuditInfos m)
        then Inl (Err ''unexpected number of receiver audit infos'')
      else if length (tmOutputs m) \<noteq> length (tmReceiverIsSender m)
        then Inl (Err ''unexpected number of receiver is sender'')
      else Inr ())"

definition TransferMetadata_IsOutputAbsent :: "TransferMetadata \<Rightarrow> nat \<Rightarrow> bool" where
  "TransferMetadata_IsOutputAbsent m j =
     (if length (tmOutputsMetadata m) \<le> j then True else tmOutputsMetadata m ! j = [])"

text \<open>\<open>none\<close> is the smart client's test for an identity that is not there.\<close>

definition TransferMetadata_IsInputAbsent :: "(bytes \<Rightarrow> bool) \<Rightarrow> TransferMetadata \<Rightarrow> nat \<Rightarrow> bool" where
  "TransferMetadata_IsInputAbsent none m j =
     (if length (tmSenders m) \<le> j then True else none (tmSenders m ! j))"

section \<open>Lemmas\<close>

lemma search_from_iff: "search_from i s e = - 1 \<longleftrightarrow> e \<notin> set s"
  by (induction s arbitrary: i) auto

lemma search_iff [simp]: "search s e = - 1 \<longleftrightarrow> e \<notin> set s"
  by (simp add: search_def search_from_iff)

lemma rmap_enumerate:
  assumes "rmap f (enumerate n xs) = Inr ys"
  shows "length ys = length xs" "j < length xs \<Longrightarrow> f (n + j, xs ! j) = Inr (ys ! j)"
  using assms by (auto simp: rmap_eq_Inr_iff list_all2_conv_all_nth nth_enumerate_eq)

lemma list_all2_member2: "list_all2 P xs ys \<Longrightarrow> y \<in> set ys \<Longrightarrow> \<exists>x \<in> set xs. P x y"
  by (induction rule: list_all2_induct) auto

lemma map_of_rev_distinct: "distinct (map fst xs) \<Longrightarrow> map_of (rev xs) = map_of xs"
proof (induction xs)
  case (Cons x xs)
  then have "map_of xs (fst x) = None" by (simp add: map_of_eq_None_iff)
  with Cons show ?case by (cases x) (auto simp: fun_eq_iff map_add_def split: option.splits)
qed simp

subsection \<open>What the filter keeps\<close>

text \<open>
  A list after the filter: at each place the old entry when the receiver there is one of
  those asked for, and an empty entry otherwise.
\<close>

definition own :: "metadata_tms \<Rightarrow> string list \<Rightarrow> bytes \<Rightarrow> bool" where
  "own T eIDs auditInfo \<longleftrightarrow> (\<exists>e. mGetEnrollmentID T auditInfo = Inr e \<and> e \<in> set eIDs)"

definition censored :: "(bytes \<Rightarrow> bool) \<Rightarrow> bytes list \<Rightarrow> 'a \<Rightarrow> 'a list \<Rightarrow> 'a list \<Rightarrow> bool" where
  "censored mine audits d xs ys \<longleftrightarrow> length ys = length audits
     \<and> (\<forall>j < length audits. if mine (audits ! j) then j < length xs \<and> ys ! j = xs ! j else ys ! j = d)"

definition censored_issue :: "metadata_tms \<Rightarrow> string list \<Rightarrow> IssueMetadata \<Rightarrow> IssueMetadata \<Rightarrow> bool" where
  "censored_issue T eIDs m m' \<longleftrightarrow>
     (let c = censored (own T eIDs) (imReceiversAuditInfos m) [] in
      imIssuer m' = imIssuer m \<and> c (imOutputs m) (imOutputs m') \<and> c (imTokenInfo m) (imTokenInfo m')
      \<and> c (imReceivers m) (imReceivers m') \<and> c (imReceiversAuditInfos m) (imReceiversAuditInfos m'))"

definition censored_transfer :: "metadata_tms \<Rightarrow> string list \<Rightarrow> TransferMetadata \<Rightarrow> TransferMetadata \<Rightarrow> bool" where
  "censored_transfer T eIDs m m' \<longleftrightarrow>
     (let c = censored (own T eIDs) (tmReceiverAuditInfos m) [] in
      tmTokenIDs m' = [] \<and> tmExtraSigners m' = tmExtraSigners m
      \<and> c (tmOutputs m) (tmOutputs m') \<and> c (tmOutputsMetadata m) (tmOutputsMetadata m')
      \<and> c (tmReceivers m) (tmReceivers m') \<and> c (tmReceiverAuditInfos m) (tmReceiverAuditInfos m')
      \<and> censored (own T eIDs) (tmReceiverAuditInfos m) False (tmReceiverIsSender m) (tmReceiverIsSender m')
      \<and> (if list_ex (own T eIDs) (tmReceiverAuditInfos m)
          then tmSenders m' = tmSenders m \<and> length (tmSenders m) \<le> length (tmSenderAuditInfos m)
            \<and> tmSenderAuditInfos m' = take (length (tmSenders m)) (tmSenderAuditInfos m)
          else tmSenders m' = [] \<and> tmSenderAuditInfos m' = []))"

lemma filter_issue_entry_eq:
  assumes "filter_issue_entry T eIDs m (i, a) = Inr (out, info, r, audit)"
  shows "if own T eIDs a
     then i < length (imOutputs m) \<and> out = imOutputs m ! i \<and> i < length (imTokenInfo m)
       \<and> info = imTokenInfo m ! i \<and> i < length (imReceivers m) \<and> r = imReceivers m ! i
       \<and> i < length (imReceiversAuditInfos m) \<and> audit = imReceiversAuditInfos m ! i
     else out = [] \<and> info = [] \<and> r = [] \<and> audit = []"
  using assms
  by (auto simp: filter_issue_entry_def own_def go_simps at_eq_Inr split: if_splits)

lemma filter_issue_censored:
  assumes "filter_issue T eIDs m = Inr m'"
  shows "censored_issue T eIDs m m'"
proof -
  let ?a = "imReceiversAuditInfos m"
  from assms obtain es where es: "rmap (filter_issue_entry T eIDs m) (enumerate 0 ?a) = Inr es"
    and m': "m' = \<lparr>imIssuer = imIssuer m, imOutputs = map fst es, imTokenInfo = map (fst \<circ> snd) es,
          imReceivers = map (fst \<circ> snd \<circ> snd) es, imReceiversAuditInfos = map (snd \<circ> snd \<circ> snd) es\<rparr>"
    by (auto simp: filter_issue_def go_simps)
  note len = rmap_enumerate(1) [OF es]
  have e: "if own T eIDs (?a ! j)
     then j < length (imOutputs m) \<and> fst (es ! j) = imOutputs m ! j \<and> j < length (imTokenInfo m)
       \<and> fst (snd (es ! j)) = imTokenInfo m ! j \<and> j < length (imReceivers m)
       \<and> fst (snd (snd (es ! j))) = imReceivers m ! j
       \<and> j < length ?a \<and> snd (snd (snd (es ! j))) = ?a ! j
     else es ! j = ([], [], [], [])" if "j < length ?a" for j
    using filter_issue_entry_eq [of T eIDs m j "?a ! j"] rmap_enumerate(2) [OF es that]
    by (cases "es ! j") (auto split: if_splits)
  show ?thesis
    unfolding censored_issue_def Let_def censored_def m' using e len by (auto split: if_splits)
qed

lemma filter_transfer_entry_eq:
  assumes "filter_transfer_entry T eIDs m (i, a) = Inr (kept, out, info, r, b, audit)"
  shows "kept = own T eIDs a \<and> (if own T eIDs a
     then i < length (tmOutputs m) \<and> out = tmOutputs m ! i \<and> i < length (tmOutputsMetadata m)
       \<and> info = tmOutputsMetadata m ! i \<and> i < length (tmReceivers m) \<and> r = tmReceivers m ! i
       \<and> i < length (tmReceiverIsSender m) \<and> b = tmReceiverIsSender m ! i
       \<and> i < length (tmReceiverAuditInfos m) \<and> audit = tmReceiverAuditInfos m ! i
     else out = [] \<and> info = [] \<and> r = [] \<and> \<not> b \<and> audit = [])"
  using assms
  by (auto simp: filter_transfer_entry_def own_def go_simps at_eq_Inr split: if_splits)

lemma keep_senders_kept:
  assumes "keep_senders m = Inr ss"
  shows "map fst ss = tmSenders m" and "length (tmSenders m) \<le> length (tmSenderAuditInfos m)"
    and "map snd ss = take (length (tmSenders m)) (tmSenderAuditInfos m)"
proof -
  let ?n = "length (tmSenders m)"
  note len = rmap_enumerate(1) [OF assms [unfolded keep_senders_def]]
  have e: "j < length (tmSenderAuditInfos m) \<and> ss ! j = (tmSenders m ! j, tmSenderAuditInfos m ! j)" if "j < ?n" for j
    using rmap_enumerate(2) [OF assms [unfolded keep_senders_def] that] by (auto simp: go_simps at_eq_Inr)
  show "map fst ss = tmSenders m" using e len by (simp add: list_eq_iff_nth_eq)
  show n: "?n \<le> length (tmSenderAuditInfos m)" using e by (metis leI order_less_irrefl)
  show "map snd ss = take ?n (tmSenderAuditInfos m)" using e len n by (simp add: list_eq_iff_nth_eq)
qed

lemma filter_transfer_censored:
  assumes "filter_transfer T eIDs m = Inr m'"
  shows "censored_transfer T eIDs m m'"
proof -
  let ?a = "tmReceiverAuditInfos m"
  from assms obtain es ss where es: "rmap (filter_transfer_entry T eIDs m) (enumerate 0 ?a) = Inr es"
    and ss: "(if \<not> list_all (\<lambda>e. \<not> fst e) es then keep_senders m else Inr []) = Inr ss"
    and m': "m' = \<lparr>tmTokenIDs = [], tmSenders = map fst ss, tmSenderAuditInfos = map snd ss,
          tmOutputs = map (\<lambda>(_, output, _). output) es,
          tmOutputsMetadata = map (\<lambda>(_, _, info, _). info) es,
          tmReceivers = map (\<lambda>(_, _, _, r, _). r) es,
          tmReceiverAuditInfos = map (\<lambda>(_, _, _, _, _, a). a) es,
          tmReceiverIsSender = map (\<lambda>(_, _, _, _, b, _). b) es,
          tmExtraSigners = tmExtraSigners m\<rparr>"
    by (auto simp: filter_transfer_def Let_def rbind_eq_Inr)
  note len = rmap_enumerate(1) [OF es]
  let ?own = "\<lambda>j. own T eIDs (?a ! j)"
  have e: "es ! j = (?own j, if ?own j then tmOutputs m ! j else [],
      if ?own j then tmOutputsMetadata m ! j else [], if ?own j then tmReceivers m ! j else [],
      if ?own j then tmReceiverIsSender m ! j else False, if ?own j then ?a ! j else [])
    \<and> (?own j \<longrightarrow> j < length (tmOutputs m) \<and> j < length (tmOutputsMetadata m)
       \<and> j < length (tmReceivers m) \<and> j < length (tmReceiverIsSender m))" if "j < length ?a" for j
    using filter_transfer_entry_eq [of T eIDs m j "?a ! j"] rmap_enumerate(2) [OF es that]
    by (cases "es ! j") (auto split: if_splits)
  have "map fst es = map (own T eIDs) ?a"
    using e len by (simp add: list_eq_iff_nth_eq)
  then have "fst ` set es = own T eIDs ` set ?a" by (metis list.set_map)
  then have "list_all (\<lambda>e. \<not> fst e) es \<longleftrightarrow> \<not> list_ex (own T eIDs) ?a"
    unfolding list_all_iff list_ex_iff by (metis (no_types, lifting) imageE image_eqI)
  then have senders: "if list_ex (own T eIDs) ?a
      then map fst ss = tmSenders m \<and> length (tmSenders m) \<le> length (tmSenderAuditInfos m)
        \<and> map snd ss = take (length (tmSenders m)) (tmSenderAuditInfos m)
      else ss = []"
    using ss keep_senders_kept by (auto split: if_splits)
  note d = censored_def m'
  have "censored (own T eIDs) ?a [] (tmOutputs m) (tmOutputs m')"
    "censored (own T eIDs) ?a [] (tmOutputsMetadata m) (tmOutputsMetadata m')"
    using e len by (simp_all add: d)
  moreover have "censored (own T eIDs) ?a [] (tmReceivers m) (tmReceivers m')"
    "censored (own T eIDs) ?a [] ?a (tmReceiverAuditInfos m')"
    using e len by (simp_all add: d)
  moreover have "censored (own T eIDs) ?a False (tmReceiverIsSender m) (tmReceiverIsSender m')"
    using e len by (simp add: d)
  ultimately show ?thesis
    using senders by (simp add: censored_transfer_def Let_def m' split: if_splits)
qed

lemma FilterBy_censored:
  assumes "FilterBy T eIDs m = Inr m'"
  shows "list_all2 (censored_issue T eIDs) (mdIssues m) (mdIssues m')"
    "list_all2 (censored_transfer T eIDs) (mdTransfers m) (mdTransfers m')"
    "mdApplication m' = mdApplication m"
  using assms filter_issue_censored filter_transfer_censored
  by (auto simp: FilterBy_def go_simps rmap_eq_Inr_iff elim!: list_all2_mono)

subsection \<open>Finding the entry of a token\<close>

lemma info_of_Some:
  "info_of raw xs i infos = Inr (Some v) \<Longrightarrow>
     \<exists>j. j < length xs \<and> xs ! j = raw \<and> i + j < length infos \<and> v = infos ! (i + j)"
proof (induction raw xs i infos rule: info_of.induct)
  case (2 raw x xs i infos)
  show ?case
  proof (cases "x = raw")
    case True
    with 2 show ?thesis by (intro exI [of _ 0]) (auto simp: go_simps at_eq_Inr)
  next
    case False
    with 2 obtain j where "j < length xs" "xs ! j = raw" "i + 1 + j < length infos" "v = infos ! (i + 1 + j)"
      by auto
    then show ?thesis by (intro exI [of _ "Suc j"]) simp
  qed
qed simp

lemma issue_infos_Some:
  "issue_infos raw ms = Inr (Some v) \<Longrightarrow> \<exists>m \<in> set ms. info_of raw (imOutputs m) 0 (imTokenInfo m) = Inr (Some v)"
  by (induction ms) (auto simp: go_simps split: option.splits)

lemma transfer_infos_Some:
  "transfer_infos raw ms = Inr (Some v) \<Longrightarrow> \<exists>m \<in> set ms. info_of raw (tmOutputs m) 0 (tmOutputsMetadata m) = Inr (Some v)"
  by (induction ms) (auto simp: go_simps split: option.splits)

text \<open>The token at some place whose receiver is one of those asked for.\<close>

definition own_output :: "metadata_tms \<Rightarrow> string list \<Rightarrow> TokenRequestMetadata \<Rightarrow> bytes \<Rightarrow> bool" where
  "own_output T eIDs m raw \<longleftrightarrow>
     (\<exists>im \<in> set (mdIssues m). \<exists>j < length (imReceiversAuditInfos im).
        own T eIDs (imReceiversAuditInfos im ! j) \<and> imOutputs im ! j = raw)
   \<or> (\<exists>tm \<in> set (mdTransfers m). \<exists>j < length (tmReceiverAuditInfos tm).
        own T eIDs (tmReceiverAuditInfos tm ! j) \<and> tmOutputs tm ! j = raw)"

lemma censored_info:
  assumes "info_of raw ys 0 infos = Inr (Some v)" "v \<noteq> []"
    and "censored mine audits [] xs ys" "censored mine audits [] zs infos"
  shows "\<exists>j < length audits. mine (audits ! j) \<and> xs ! j = raw"
proof -
  from info_of_Some [OF assms(1)] obtain j where j: "j < length ys" "ys ! j = raw" "v = infos ! j" by auto
  with assms(2-4) have "j < length audits" "mine (audits ! j)" by (auto simp: censored_def split: if_splits)
  with j assms(3) show ?thesis by (auto simp: censored_def)
qed

lemma filtered_GetTokenInfo:
  assumes "FilterBy T eIDs m = Inr m'" "GetTokenInfo m' raw = Inr v" "v \<noteq> []"
  shows "own_output T eIDs m raw"
proof -
  note c = FilterBy_censored [OF assms(1)]
  from assms(2,3) consider "issue_infos raw (mdIssues m') = Inr (Some v)"
    | "transfer_infos raw (mdTransfers m') = Inr (Some v)"
    by (auto simp: GetTokenInfo_def go_simps split: option.splits)
  then show ?thesis
  proof cases
    case 1
    then obtain im' where im': "im' \<in> set (mdIssues m')"
      "info_of raw (imOutputs im') 0 (imTokenInfo im') = Inr (Some v)" using issue_infos_Some by blast
    with c(1) obtain im where im: "im \<in> set (mdIssues m)" "censored_issue T eIDs im im'"
      by (meson list_all2_member2)
    with censored_info [OF im'(2) assms(3)] show ?thesis
      by (force simp: censored_issue_def own_output_def Let_def)
  next
    case 2
    then obtain tm' where tm': "tm' \<in> set (mdTransfers m')"
      "info_of raw (tmOutputs tm') 0 (tmOutputsMetadata tm') = Inr (Some v)" using transfer_infos_Some by blast
    with c(2) obtain tm where tm: "tm \<in> set (mdTransfers m)" "censored_transfer T eIDs tm tm'"
      by (meson list_all2_member2)
    with censored_info [OF tm'(2) assms(3)] show ?thesis
      by (force simp: censored_transfer_def own_output_def Let_def)
  qed
qed

subsection \<open>Round trips\<close>

lemma set_keys_eq:
  assumes "length vals = length ks + i"
  shows "\<exists>v'. set_keys vals i ks v = Inr v' \<and> map_of v' = map_of v ++ map_of (rev (zip ks (drop i vals)))"
  using assms
proof (induction ks arbitrary: i v)
  case (Cons k ks)
  then have i: "i < length vals" by simp
  with Cons.prems Cons.IH [of "i + 1" "AList.update k (vals ! i) v"] obtain v' where
    v': "set_keys vals (i + 1) ks (AList.update k (vals ! i) v) = Inr v'"
    "map_of v' = map_of (AList.update k (vals ! i) v) ++ map_of (rev (zip ks (drop (i + 1) vals)))"
    by auto
  have d: "drop i vals = vals ! i # drop (i + 1) vals" using i by (simp add: Cons_nth_drop_Suc)
  have "map_of v' = map_of v ++ map_of (rev (zip (k # ks) (drop i vals)))"
    by (simp add: v'(2) d update_conv' map_add_assoc)
  with v'(1) i show ?case by (simp add: at_def)
qed simp

lemma map_of_sorted_keys:
  assumes "distinct (map fst v)"
  shows "map_of (rev (zip (sort (map fst v))
      (map (\<lambda>k. case map_of v k of Some b \<Rightarrow> b | None \<Rightarrow> []) (sort (map fst v))))) = map_of v"
proof -
  let ?ks = "sort (map fst v)" and ?g = "\<lambda>k. case map_of v k of Some b \<Rightarrow> b | None \<Rightarrow> []"
  have d: "distinct (map fst (map (\<lambda>k. (k, ?g k)) ?ks))" using assms by (simp add: comp_def)
  have "zip ?ks (map ?g ?ks) = map (\<lambda>k. (k, ?g k)) ?ks" by (simp add: zip_map2 zip_same_conv_map)
  then have "map_of (rev (zip ?ks (map ?g ?ks))) = map_of (map (\<lambda>k. (k, ?g k)) ?ks)"
    using d by (metis map_of_rev_distinct)
  also have "\<dots> = map_of v"
  proof (rule ext)
    fix k
    show "map_of (map (\<lambda>k. (k, ?g k)) ?ks) k = map_of v k"
    proof (cases "map_of v k")
      case (Some b)
      then have "k \<in> set (map fst v)" using map_of_SomeD [OF Some] by force
      with Some show ?thesis by (simp add: map_of_map_restrict restrict_map_def)
    next
      case None
      then have "k \<notin> set (map fst v)" by (simp add: map_of_eq_None_iff)
      with None show ?thesis by (simp add: map_of_map_restrict restrict_map_def)
    qed
  qed
  finally show ?thesis .
qed

lemma MarshalMeta_roundtrip:
  assumes "asn1_laws A" "distinct (map fst v)" "MarshalMeta A v = Inr raw"
  shows "\<exists>v'. UnmarshalMeta A raw = Inr v' \<and> map_of v' = map_of v"
proof -
  have u: "asn1_unmarshal_meta A raw = Inr (meta_ser v)"
    using assms(1,3) by (auto simp: asn1_laws_def MarshalMeta_def)
  have "\<exists>v'. set_keys (msVals (meta_ser v)) 0 (msKeys (meta_ser v)) [] = Inr v' \<and> map_of v' = map_of v"
    using set_keys_eq [of "msVals (meta_ser v)" "msKeys (meta_ser v)" 0 "[]"] map_of_sorted_keys [OF assms(2)]
    by (simp add: meta_ser_def Let_def)
  with u show ?thesis by (simp add: UnmarshalMeta_def)
qed

lemma transfer_unser_ser [simp]: "transfer_unser (transfer_ser t) = t"
proof -
  have "map (\<lambda>(tx, i). \<lparr>TxId = tx, Index = word_of_int i\<rparr>) (map (\<lambda>i. (TxId i, sint (Index i))) ids) = ids"
    for ids :: "ID list"
    by (induction ids) auto
  then show ?thesis by (cases t) (simp add: transfer_unser_def transfer_ser_def)
qed

lemma meta_ser_canonical:
  assumes "distinct (map fst v)" "distinct (map fst w)" "map_of v = map_of w"
  shows "meta_ser v = meta_ser w"
proof -
  have "set (map fst v) = set (map fst w)"
    using assms(3) by (metis dom_map_of_conv_image_fst list.set_map)
  then have "sort (map fst v) = sort (map fst w)"
    using assms(1,2) by (metis distinct_sort set_sort sorted_distinct_set_unique sorted_sort)
  with assms(3) show ?thesis by (simp add: meta_ser_def Let_def)
qed

lemma Bytes_marshalled:
  assumes "TokenRequestMetadata_Bytes A m = Inr raw"
  shows "\<exists>meta. MarshalMeta A (mdApplication m) = Inr meta
    \<and> asn1_marshal_metadata A \<lparr>serIssues = mdIssues m, serTransfers = map transfer_ser (mdTransfers m),
        serApplication = meta\<rparr> = Inr raw"
  using assms by (auto simp: TokenRequestMetadata_Bytes_def split: sum.splits error.splits)

lemma metadata_read_back:
  assumes "asn1_laws A" "distinct (map fst (mdApplication m))" "TokenRequestMetadata_Bytes A m = Inr raw"
  shows "\<exists>m'. TokenRequestMetadata_FromBytes A raw m0 = (Inr (), m') \<and> mdIssues m' = mdIssues m
      \<and> mdTransfers m' = mdTransfers m \<and> map_of (mdApplication m') = map_of (mdApplication m)"
proof -
  from Bytes_marshalled [OF assms(3)] obtain meta where meta: "MarshalMeta A (mdApplication m) = Inr meta"
    and raw: "asn1_marshal_metadata A \<lparr>serIssues = mdIssues m, serTransfers = map transfer_ser (mdTransfers m),
        serApplication = meta\<rparr> = Inr raw" by blast
  from MarshalMeta_roundtrip [OF assms(1,2) meta] obtain v where
    v: "UnmarshalMeta A meta = Inr v" "map_of v = map_of (mdApplication m)" by blast
  have "asn1_unmarshal_metadata A raw = Inr \<lparr>serIssues = mdIssues m,
      serTransfers = map transfer_ser (mdTransfers m), serApplication = meta\<rparr>"
    using assms(1) raw by (auto simp: asn1_laws_def)
  with v show ?thesis by (simp add: TokenRequestMetadata_FromBytes_def Let_def comp_def)
qed

section \<open>Properties\<close>

text \<open>
  C34: the filter by enrollment identifier discloses no output of others: in every issue and
  every transfer, the output, its opening, the receiver and the audit information are those
  of the original where the receiver's enrollment identifier is one of those asked for, and
  empty elsewhere, at the same places; no token identifier is left; the senders of a transfer
  and their audit information are given when one of its outputs is an own one, and left out
  altogether otherwise; and a token that the filtered metadata opens is an own output. The
  issuers, the extra signers and the application's map are kept.
\<close>
theorem filter_discloses_own_only:
  assumes "FilterBy T eIDs m = Inr m'"
  shows "list_all2 (censored_issue T eIDs) (mdIssues m) (mdIssues m')
    \<and> list_all2 (censored_transfer T eIDs) (mdTransfers m) (mdTransfers m')
    \<and> mdApplication m' = mdApplication m \<and> SpentTokenID m' = []
    \<and> (Metadata_GetToken T m' raw = Inr x \<longrightarrow> own_output T eIDs m raw)"
proof -
  note c = FilterBy_censored [OF assms]
  have "\<forall>t' \<in> set (mdTransfers m'). tmTokenIDs t' = []"
    using c(2) by (fastforce simp: list_all2_conv_all_nth in_set_conv_nth censored_transfer_def Let_def)
  then have "SpentTokenID m' = []" by (simp add: SpentTokenID_def)
  moreover have "Metadata_GetToken T m' raw = Inr x \<longrightarrow> own_output T eIDs m raw"
    using filtered_GetTokenInfo [OF assms] by (auto simp: Metadata_GetToken_def go_simps split: if_splits)
  ultimately show ?thesis using c by blast
qed

definition demo_tms :: metadata_tms where
  "demo_tms = \<lparr>mDeserializeToken = (\<lambda>out info. Inr (\<lparr>tokOwner = Some ''A'', tokType = ''USD'', tokQuantity = out\<rparr>, [])),
     mGetEnrollmentID = (\<lambda>a. Inr a)\<rparr>"

text \<open>A transfer from Carol to Alice and Bob.\<close>

definition demo_metadata :: TokenRequestMetadata where
  "demo_metadata =
     \<lparr>mdIssues = [],
      mdTransfers = [\<lparr>tmTokenIDs = [\<lparr>TxId = ''t'', Index = - 1\<rparr>], tmSenders = [''S''], tmSenderAuditInfos = [''carol''],
        tmOutputs = [''o1'', ''o2''], tmOutputsMetadata = [''i1'', ''i2''], tmReceivers = [''A'', ''B''],
        tmReceiverAuditInfos = [''alice'', ''bob''], tmReceiverIsSender = [False, False], tmExtraSigners = []\<rparr>],
      mdApplication = [(''k'', ''v''), (''a'', ''w'')]\<rparr>"

lemma demo_filtered:
  "FilterBy demo_tms [''bob''] demo_metadata = Inr
     \<lparr>mdIssues = [],
      mdTransfers = [\<lparr>tmTokenIDs = [], tmSenders = [''S''], tmSenderAuditInfos = [''carol''],
        tmOutputs = [[], ''o2''], tmOutputsMetadata = [[], ''i2''], tmReceivers = [[], ''B''],
        tmReceiverAuditInfos = [[], ''bob''], tmReceiverIsSender = [False, False], tmExtraSigners = []\<rparr>],
      mdApplication = [(''k'', ''v''), (''a'', ''w'')]\<rparr>"
  by (simp add: FilterBy_def filter_transfer_def filter_transfer_entry_def keep_senders_def demo_metadata_def
      demo_tms_def at_def)

theorem filter_discloses_own_only_witness: "own_output demo_tms [''bob''] demo_metadata ''o2''"
proof -
  have g: "\<exists>x. Metadata_GetToken demo_tms
     \<lparr>mdIssues = [],
      mdTransfers = [\<lparr>tmTokenIDs = [], tmSenders = [''S''], tmSenderAuditInfos = [''carol''],
        tmOutputs = [[], ''o2''], tmOutputsMetadata = [[], ''i2''], tmReceivers = [[], ''B''],
        tmReceiverAuditInfos = [[], ''bob''], tmReceiverIsSender = [False, False], tmExtraSigners = []\<rparr>],
      mdApplication = [(''k'', ''v''), (''a'', ''w'')]\<rparr> ''o2'' = Inr x"
    by (simp add: Metadata_GetToken_def GetTokenInfo_def demo_tms_def at_def)
  then show ?thesis using filter_discloses_own_only [OF demo_filtered, of "''o2''"] by blast
qed

text \<open>
  Metadata survives its serialization: what \<open>Bytes\<close> writes, \<open>FromBytes\<close> reads
  back, the index of every token identifier included, although it passes through a signed
  integer; and the bytes do not depend on the order in which the application's map is
  traversed.
\<close>
theorem metadata_roundtrip:
  assumes "asn1_laws A" and "distinct (map fst (mdApplication m))"
    and "TokenRequestMetadata_Bytes A m = Inr raw"
  shows "(\<exists>m'. TokenRequestMetadata_FromBytes A raw m0 = (Inr (), m') \<and> mdIssues m' = mdIssues m
      \<and> mdTransfers m' = mdTransfers m \<and> map_of (mdApplication m') = map_of (mdApplication m))
    \<and> (distinct (map fst app) \<and> map_of app = map_of (mdApplication m)
        \<longrightarrow> TokenRequestMetadata_Bytes A (m\<lparr>mdApplication := app\<rparr>) = Inr raw)"
proof
  show "\<exists>m'. TokenRequestMetadata_FromBytes A raw m0 = (Inr (), m') \<and> mdIssues m' = mdIssues m
      \<and> mdTransfers m' = mdTransfers m \<and> map_of (mdApplication m') = map_of (mdApplication m)"
    by (rule metadata_read_back [OF assms])
  from Bytes_marshalled [OF assms(3)] show "distinct (map fst app) \<and> map_of app = map_of (mdApplication m)
        \<longrightarrow> TokenRequestMetadata_Bytes A (m\<lparr>mdApplication := app\<rparr>) = Inr raw"
    using meta_ser_canonical [OF _ assms(2)]
    by (auto simp: TokenRequestMetadata_Bytes_def MarshalMeta_def)
qed

text \<open>A codec that knows one record of each kind.\<close>

definition demo_asn1 :: asn1 where
  "demo_asn1 =
     (let meta = meta_ser (mdApplication demo_metadata);
          ser = \<lparr>serIssues = [], serTransfers = map transfer_ser (mdTransfers demo_metadata), serApplication = ''m''\<rparr>
      in \<lparr>asn1_marshal_meta = (\<lambda>x. if x = meta then Inr ''m'' else Inl (Err ''asn1'')),
          asn1_unmarshal_meta = (\<lambda>b. if b = ''m'' then Inr meta else Inl (Err ''asn1'')),
          asn1_marshal_metadata = (\<lambda>x. if x = ser then Inr ''s'' else Inl (Err ''asn1'')),
          asn1_unmarshal_metadata = (\<lambda>b. if b = ''s'' then Inr ser else Inl (Err ''asn1''))\<rparr>)"

theorem metadata_roundtrip_witness:
  "\<exists>m'. TokenRequestMetadata_FromBytes demo_asn1 ''s'' no_metadata = (Inr (), m') \<and> mdTransfers m' = mdTransfers demo_metadata"
proof -
  have l: "asn1_laws demo_asn1" by (simp add: asn1_laws_def demo_asn1_def Let_def)
  have d: "distinct (map fst (mdApplication demo_metadata))" by (simp add: demo_metadata_def)
  have i: "mdIssues demo_metadata = []" by (simp add: demo_metadata_def)
  have b: "TokenRequestMetadata_Bytes demo_asn1 demo_metadata = Inr ''s''"
    by (simp add: TokenRequestMetadata_Bytes_def MarshalMeta_def demo_asn1_def Let_def i)
  from metadata_roundtrip [OF l d b] show ?thesis by blast
qed

end
