(* ===== verification/Request.thy ===== *)
theory Request
  imports Streams Metadata Fabtoken
begin

text \<open>
  Token requests (\<open>token/request.go\<close>): assembling issues, transfers and redeems, reading
  the inputs and outputs back with the metadata, validation, audit, serialization.

  The token management service, its driver and its vault are parameters, as one record of
  functions; theory \<open>Sender\<close> has the ones of the fabtoken driver. The state of an operation
  that selects tokens is the selector's; that of the others is the request.
\<close>

section \<open>The service\<close>

text \<open>
  An action of the driver as the code sees it: its outputs, each nil or with its serialized
  form, their number, and the serialized action. The \<open>driver_payload\<close> is the action itself.
\<close>

record 'a driver_action =
  daOutputs :: "bytes res option list"
  daNumOutputs :: nat
  daSerialize :: "bytes res"
  daGetSerializedOutputs :: "bytes list res"
  driver_payload :: 'a

text \<open>Options are maps with arbitrary keys and values; the drivers look for strings and bytes.\<close>

datatype attr_key = StringKey string | OtherKey nat
datatype attr_value = BytesValue bytes | OtherValue nat

type_synonym attributes = "(attr_key \<times> attr_value) list"

record 'a tms =
  tDeserializeIssueAction :: "bytes \<Rightarrow> 'a driver_action res"
  tDeserializeTransferAction :: "bytes \<Rightarrow> 'a driver_action res"
  tDeserializeToken :: "bytes \<Rightarrow> bytes \<Rightarrow> (Token \<times> bytes) res"
  tGetEnrollmentID :: "bytes \<Rightarrow> string res"
  tGetAuditInfo :: "bytes \<Rightarrow> bytes res"
  tIssue :: "bytes \<Rightarrow> string \<Rightarrow> u64 list \<Rightarrow> bytes list \<Rightarrow> attributes \<Rightarrow> ('a driver_action \<times> bytes list \<times> bytes) res"
  tTransfer :: "string \<Rightarrow> ID list \<Rightarrow> Token option list \<Rightarrow> attributes \<Rightarrow> ('a driver_action \<times> TransferMetadata) res"
  tVerifyIssue :: "'a driver_action \<Rightarrow> bytes list \<Rightarrow> unit res"
  tVerifyTransfer :: "'a driver_action \<Rightarrow> bytes list \<Rightarrow> unit res"
  tMarshalTokenRequestToSign :: "TokenRequest \<Rightarrow> TokenRequestMetadata option \<Rightarrow> bytes res"
  tAuditorCheck :: "TokenRequest \<Rightarrow> TokenRequestMetadata \<Rightarrow> string \<Rightarrow> unit res"
  tPrecision :: u64
  tMaxTokenValue :: u64
  tGraphHiding :: bool
  tGetTokens :: "ID list \<Rightarrow> Token list res"
  tListAuditTokens :: "ID option list \<Rightarrow> Token option list res"
  tIsMine :: "ID option \<Rightarrow> bool res"
  tRequestCertification :: "ID list \<Rightarrow> unit res"
  tIsMe :: "bytes \<Rightarrow> bool"

record 'a Request =
  Anchor :: string
  Actions :: "TokenRequest option"
  rMetadata :: "TokenRequestMetadata option"
  TokenService :: "'a tms option"

definition no_actions :: TokenRequest where
  "no_actions = \<lparr>Issues = [], Transfers = [], Signatures = [], AuditorSignatures = []\<rparr>"

definition NewRequest :: "'a tms option \<Rightarrow> string \<Rightarrow> 'a Request" where
  "NewRequest tokenService anchor =
     \<lparr>Anchor = anchor, Actions = Some no_actions, rMetadata = Some no_metadata, TokenService = tokenService\<rparr>"

section \<open>Options\<close>

definition TransferMetadataPrefix :: string where "TransferMetadataPrefix = ''TransferMetadataPrefix''"

definition set_attribute :: "attr_key \<Rightarrow> attr_value \<Rightarrow> attributes \<Rightarrow> attributes" where
  "set_attribute k v attrs = AList.update k v attrs"

type_synonym IssueOption = "attributes \<Rightarrow> attributes res"

definition WithIssueAttribute :: "attr_key \<Rightarrow> attr_value \<Rightarrow> IssueOption" where
  "WithIssueAttribute attr v o' = Inr (set_attribute attr v o')"

definition compileIssueOptions :: "IssueOption list \<Rightarrow> attributes res" where
  "compileIssueOptions opts = rfold (\<lambda>o' opt. opt o') [] opts"

text \<open>A selector: what to select for a quantity and a type, with its effect on the locks.\<close>

type_synonym 's select = "string \<Rightarrow> string \<Rightarrow> ('s, ID list \<times> Quantity) oper"

record 's TransferOptions =
  toAttributes :: attributes
  toSelector :: "'s select option"
  toTokenIDs :: "ID list"

type_synonym 's TransferOption = "'s TransferOptions \<Rightarrow> 's TransferOptions res"

definition WithTokenSelector :: "'s select \<Rightarrow> 's TransferOption" where
  "WithTokenSelector selector o' = Inr (o'\<lparr>toSelector := Some selector\<rparr>)"

definition WithTokenIDs :: "ID list \<Rightarrow> 's TransferOption" where
  "WithTokenIDs ids o' = Inr (o'\<lparr>toTokenIDs := ids\<rparr>)"

definition WithTransferAttribute :: "attr_key \<Rightarrow> attr_value \<Rightarrow> 's TransferOption" where
  "WithTransferAttribute attr v o' = Inr (o'\<lparr>toAttributes := set_attribute attr v (toAttributes o')\<rparr>)"

definition WithTransferMetadata :: "string \<Rightarrow> bytes \<Rightarrow> 's TransferOption" where
  "WithTransferMetadata key v = WithTransferAttribute (StringKey (TransferMetadataPrefix @ key)) (BytesValue v)"

definition compileTransferOptions :: "'s TransferOption list \<Rightarrow> 's TransferOptions res" where
  "compileTransferOptions opts =
     rfold (\<lambda>o' opt. opt o') \<lparr>toAttributes = [], toSelector = None, toTokenIDs = []\<rparr> opts"

section \<open>Issuing\<close>

definition add_issue :: "bytes \<Rightarrow> ('a Request, unit) oper" where
  "add_issue raw = (\<lambda>r. case Actions r of
     None \<Rightarrow> (Inl nil_pointer, r)
   | Some a \<Rightarrow> (Inr (), r\<lparr>Actions := Some (a\<lparr>Issues := Issues a @ [raw]\<rparr>)\<rparr>))"

definition add_issue_metadata :: "IssueMetadata \<Rightarrow> ('a Request, unit) oper" where
  "add_issue_metadata m = (\<lambda>r. case rMetadata r of
     None \<Rightarrow> (Inl (Err ''failed to complete issue: nil Metadata in token request''), r)
   | Some md \<Rightarrow> (Inr (), r\<lparr>rMetadata := Some (md\<lparr>mdIssues := mdIssues md @ [m]\<rparr>)\<rparr>))"

text \<open>
  The issuer's wallet is the function that returns its identity for a type; \<open>none\<close> is the
  smart client's test for an identity that is not there.
\<close>

definition Request_Issue ::
  "(bytes \<Rightarrow> bool) \<Rightarrow> (string \<Rightarrow> bytes res) option \<Rightarrow> bytes \<Rightarrow> string \<Rightarrow> u64 \<Rightarrow> IssueOption list
    \<Rightarrow> ('a Request, 'a driver_action) oper" where
  "Request_Issue none wallet receiver typ q opts = (\<lambda>r.
     (case wallet of
        None \<Rightarrow> olift (Inl (Err ''wallet is nil''))
      | Some getIssuerIdentity \<Rightarrow>
          obind (ocheck (typ \<noteq> []) ''type is empty'') (\<lambda>_.
          obind (ocheck (q \<noteq> 0) ''q is zero'') (\<lambda>_.
          obind (olift (deref (TokenService r))) (\<lambda>T.
          obind (ocheck (q \<le> tMaxTokenValue T) ''q is larger than max token value'') (\<lambda>_.
          obind (ocheck (\<not> none receiver) ''all recipients should be defined'') (\<lambda>_.
          obind (olift (getIssuerIdentity typ)) (\<lambda>i.
          obind (olift (compileIssueOptions opts)) (\<lambda>attrs.
          obind (olift (tIssue T i typ [q] [receiver] attrs)) (\<lambda>(issue, tokenInfos, issuer).
          obind (olift (daSerialize issue)) (\<lambda>raw.
          obind (add_issue raw) (\<lambda>_.
          obind (olift (daGetSerializedOutputs issue)) (\<lambda>outputs.
          obind (olift (tGetAuditInfo T receiver)) (\<lambda>auditInfo.
          obind (add_issue_metadata
             \<lparr>imIssuer = issuer, imOutputs = outputs, imTokenInfo = tokenInfos,
              imReceivers = [receiver], imReceiversAuditInfos = [auditInfo]\<rparr>) (\<lambda>_.
          oret issue)))))))))))))) r)"

section \<open>Preparing transfers\<close>

text \<open>
  \<open>parseInputIDs\<close>: the sum and the type of tokens given by their identifiers. Where the
  types differ the code wraps the nil error of the query, and so returns no error but empty
  results; the sum is then a nil pointer.
\<close>

fun parse_loop :: "u64 \<Rightarrow> Token list \<Rightarrow> string \<Rightarrow> Quantity \<Rightarrow> (Quantity \<times> string) option res" where
  "parse_loop precision [] typ acc = Inr (Some (acc, typ))"
| "parse_loop precision (tok # toks) typ acc =
     (let typ' = (if typ = [] then tokType tok else typ) in
      if typ' \<noteq> tokType tok then Inr None
      else rbind (ToQuantity (tokQuantity tok) precision) (\<lambda>q.
           rbind (Add acc q) (\<lambda>acc'. parse_loop precision toks typ' acc')))"

definition parseInputIDs :: "'a tms \<Rightarrow> ID list \<Rightarrow> (ID list \<times> Quantity option \<times> string) res" where
  "parseInputIDs T inputs =
     rbind (tGetTokens T inputs) (\<lambda>toks.
     rbind (parse_loop (tPrecision T) toks [] (NewZeroQuantity (tPrecision T))) (\<lambda>r.
     Inr (case r of
            None \<Rightarrow> ([], None, [])
          | Some (s, typ) \<Rightarrow> (inputs, Some s, typ))))"

fun gen_loop ::
  "u64 \<Rightarrow> Quantity \<Rightarrow> string \<Rightarrow> bytes list \<Rightarrow> nat \<Rightarrow> u64 list \<Rightarrow> Token list \<Rightarrow> Quantity
    \<Rightarrow> (Token list \<times> Quantity) res" where
  "gen_loop precision maxQ typ owners i [] toks acc = Inr (toks, acc)"
| "gen_loop precision maxQ typ owners i (v # vs) toks acc =
     rbind (UInt64ToQuantity v precision) (\<lambda>q.
     rbind (Cmp q maxQ) (\<lambda>c.
     if c = 1 then Inl (Err ''cannot create output with value larger than the maximum'')
     else
       rbind (Add acc q) (\<lambda>acc'.
       rbind (at owners i) (\<lambda>owner.
       gen_loop precision maxQ typ owners (i + 1) vs
         (toks @ [\<lparr>tokOwner = Some owner, tokType = typ, tokQuantity = Hex q\<rparr>]) acc'))))"

definition genOutputs :: "'a tms \<Rightarrow> u64 list \<Rightarrow> bytes list \<Rightarrow> string \<Rightarrow> (Token list \<times> Quantity) res" where
  "genOutputs T vals owners tokenType =
     rbind (UInt64ToQuantity (tMaxTokenValue T) (tPrecision T)) (\<lambda>maxQ.
     gen_loop (tPrecision T) maxQ tokenType owners 0 vals [] (NewZeroQuantity (tPrecision T)))"

text \<open>The owner's wallet, and the manager that makes a selector for a transaction.\<close>

record owner_wallet =
  GetRecipientIdentity :: "bytes res"

definition change_output :: "owner_wallet \<Rightarrow> string \<Rightarrow> Quantity \<Rightarrow> Quantity \<Rightarrow> Token list res" where
  "change_output wallet tokenType inputSum outputSum =
     rbind (Cmp inputSum outputSum) (\<lambda>cmp.
     if cmp = 1 then
       rbind (Sub inputSum outputSum) (\<lambda>diff.
       rbind (GetRecipientIdentity wallet) (\<lambda>pseudonym.
       Inr [\<lparr>tokOwner = Some pseudonym, tokType = tokenType, tokQuantity = Hex diff\<rparr>]))
     else if cmp = - 1
       then Inl (Err ''the sum of the ouputs is larger then the sum of the inputs'')
     else Inr [])"

definition prepareTransfer ::
  "(bytes \<Rightarrow> bool) \<Rightarrow> 'a tms option \<Rightarrow> (string \<Rightarrow> 's select res) \<Rightarrow> string \<Rightarrow> bool \<Rightarrow> owner_wallet
    \<Rightarrow> string \<Rightarrow> u64 list \<Rightarrow> bytes list \<Rightarrow> 's TransferOptions \<Rightarrow> ('s, ID list \<times> Token list) oper" where
  "prepareTransfer none service newSelector anchor redeem wallet tokenType vals owners opts =
     obind (ofor (\<lambda>owner.
        if redeem then ocheck (none owner) ''all recipients must be nil''
        else ocheck (\<not> none owner) ''all recipients should be defined'') owners) (\<lambda>_.
     obind (olift (if toTokenIDs opts \<noteq> []
                   then rbind (deref service) (\<lambda>T. parseInputIDs T (toTokenIDs opts))
                   else Inr ([], None, tokenType))) (\<lambda>(ids, parsed, typ).
     obind (ocheck (typ \<noteq> []) ''type is empty'') (\<lambda>_.
     obind (olift (deref service)) (\<lambda>T.
     obind (olift (genOutputs T vals owners typ)) (\<lambda>(outs, outputSum).
     obind (if toTokenIDs opts = []
        then obind (olift (case toSelector opts of Some s \<Rightarrow> Inr s | None \<Rightarrow> newSelector anchor)) (\<lambda>select.
             obind (select (Decimal outputSum) typ) (\<lambda>(ids', s). oret (ids', Some s)))
        else oret (ids, parsed)) (\<lambda>(tokenIDs, sum').
     obind (olift (deref sum')) (\<lambda>inputSum.
     obind (olift (change_output wallet typ inputSum outputSum)) (\<lambda>change.
     obind (olift (if tGraphHiding T then tRequestCertification T tokenIDs else Inr ())) (\<lambda>_.
     oret (tokenIDs, outs @ change))))))))))"

section \<open>Transfers and redeems\<close>

definition add_transfer :: "bytes \<Rightarrow> TransferMetadata \<Rightarrow> ('a Request, unit) oper" where
  "add_transfer raw m = (\<lambda>r. case Actions r of
     None \<Rightarrow> (Inl nil_pointer, r)
   | Some a \<Rightarrow>
      (let r' = r\<lparr>Actions := Some (a\<lparr>Transfers := Transfers a @ [raw]\<rparr>)\<rparr> in
       case rMetadata r' of
         None \<Rightarrow> (Inl nil_pointer, r')
       | Some md \<Rightarrow> (Inr (), r'\<lparr>rMetadata := Some (md\<lparr>mdTransfers := mdTransfers md @ [m]\<rparr>)\<rparr>)))"

text \<open>An operation on the selector's state, or on the request, within both.\<close>

definition on_locks :: "('s, 'b) oper \<Rightarrow> ('a Request \<times> 's, 'b) oper" where
  "on_locks m = (\<lambda>(r, s). case m s of (x, s') \<Rightarrow> (x, (r, s')))"

definition on_request :: "('a Request, 'b) oper \<Rightarrow> ('a Request \<times> 's, 'b) oper" where
  "on_request m = (\<lambda>(r, s). case m r of (x, r') \<Rightarrow> (x, (r', s)))"

text \<open>What \<open>Transfer\<close> and \<open>Redeem\<close> do once the inputs and outputs are prepared.\<close>

definition finish_transfer ::
  "ID list \<Rightarrow> Token list \<Rightarrow> attributes \<Rightarrow> ('a Request, 'a driver_action) oper" where
  "finish_transfer tokenIDs outputTokens attrs = (\<lambda>r.
     (obind (olift (deref (TokenService r))) (\<lambda>T.
      obind (olift (tTransfer T (Anchor r) tokenIDs (map Some outputTokens) attrs)) (\<lambda>(transfer, transferMetadata).
      obind (olift (tVerifyTransfer T transfer (tmOutputsMetadata transferMetadata))) (\<lambda>_.
      obind (olift (daSerialize transfer)) (\<lambda>raw.
      obind (add_transfer raw transferMetadata) (\<lambda>_.
      oret transfer))))) r))"

definition Request_Transfer ::
  "(bytes \<Rightarrow> bool) \<Rightarrow> (string \<Rightarrow> 's select res) \<Rightarrow> owner_wallet \<Rightarrow> string \<Rightarrow> u64 list \<Rightarrow> bytes list
    \<Rightarrow> 's TransferOption list \<Rightarrow> ('a Request \<times> 's, 'a driver_action) oper" where
  "Request_Transfer none newSelector wallet typ vals owners opts =
     obind (ofor (\<lambda>v. ocheck (v \<noteq> 0) ''value is zero'') vals) (\<lambda>_.
     obind (olift (compileTransferOptions opts)) (\<lambda>opt.
     (\<lambda>(r, s).
       obind (on_locks (prepareTransfer none (TokenService r) newSelector (Anchor r) False wallet typ vals owners opt))
         (\<lambda>(tokenIDs, outputTokens).
            on_request (finish_transfer tokenIDs outputTokens (toAttributes opt))) (r, s))))"

definition Redeem ::
  "(bytes \<Rightarrow> bool) \<Rightarrow> (string \<Rightarrow> 's select res) \<Rightarrow> owner_wallet \<Rightarrow> string \<Rightarrow> u64
    \<Rightarrow> 's TransferOption list \<Rightarrow> ('a Request \<times> 's, unit) oper" where
  "Redeem none newSelector wallet typ v opts =
     obind (olift (compileTransferOptions opts)) (\<lambda>opt.
     (\<lambda>(r, s).
       obind (on_locks (prepareTransfer none (TokenService r) newSelector (Anchor r) True wallet typ [v] [[]] opt))
         (\<lambda>(tokenIDs, outputTokens).
            obind (on_request (finish_transfer tokenIDs outputTokens (toAttributes opt))) (\<lambda>_. oret ()))
         (r, s)))"

section \<open>Reading the outputs and the inputs back\<close>

text \<open>
  The outputs: for every action its metadata is matched, and every output whose opening is
  there is read; the counter of the outputs read so far is their index. Where the lengths do
  not match the code wraps a nil error and returns a nil stream with no error: the result is
  then \<open>None\<close>.
\<close>

definition read_output ::
  "'a tms \<Rightarrow> nat \<Rightarrow> bytes \<Rightarrow> bytes \<Rightarrow> (Token \<Rightarrow> (bytes \<times> string) res) \<Rightarrow> u64 \<Rightarrow> StreamOutput res" where
  "read_output T i raw info owner_info n =
     rbind (tDeserializeToken T raw info) (\<lambda>(tok, _).
     rbind (owner_info tok) (\<lambda>(auditInfo, eID).
     rbind (ToQuantity (tokQuantity tok) (tPrecision T)) (\<lambda>q.
     rbind (owner_raw (tokOwner tok)) (\<lambda>owner.
     Inr \<lparr>oActionIndex = i, oIndex = n, oOwner = owner, oOwnerAuditInfo = auditInfo,
          oEnrollmentID = eID, oType = tokType tok, oQuantity = q\<rparr>))))"

definition issue_owner_info :: "'a tms \<Rightarrow> bytes res \<Rightarrow> Token \<Rightarrow> (bytes \<times> string) res" where
  "issue_owner_info T audit tok =
     rbind audit (\<lambda>a. rbind (tGetEnrollmentID T a) (\<lambda>eID. Inr (a, eID)))"

definition transfer_owner_info :: "'a tms \<Rightarrow> bytes res \<Rightarrow> Token \<Rightarrow> (bytes \<times> string) res" where
  "transfer_owner_info T audit tok =
     rbind (owner_raw (tokOwner tok)) (\<lambda>raw.
     if raw \<noteq> [] then rbind audit (\<lambda>a. rbind (tGetEnrollmentID T a) (\<lambda>eID. Inr (a, eID)))
     else Inr ([], []))"

text \<open>
  The loop over the outputs of an action: \<open>outs\<close> are the outputs and \<open>infos\<close> the openings
  and \<open>audits\<close> the audit information of the metadata. \<open>matching\<close> is the test on lengths
  that the loop over an issue repeats for each output; \<open>None\<close> is the nil stream.
\<close>

type_synonym streamed = "StreamOutput list \<times> u64"

fun read_outputs ::
  "'a tms \<Rightarrow> bool \<Rightarrow> nat \<Rightarrow> (nat \<Rightarrow> bool res) \<Rightarrow> bool \<Rightarrow> bytes list \<Rightarrow> (nat \<Rightarrow> Token \<Rightarrow> (bytes \<times> string) res)
    \<Rightarrow> nat \<Rightarrow> bytes res option list \<Rightarrow> streamed \<Rightarrow> streamed option res" where
  "read_outputs T failOnMissing i absent matching infos owner_info j [] acc = Inr (Some acc)"
| "read_outputs T failOnMissing i absent matching infos owner_info j (out # outs) acc =
     (case out of
        None \<Rightarrow> Inl (Err ''output in action is nil'')
      | Some ser \<Rightarrow>
          rbind ser (\<lambda>raw.
          rbind (absent j) (\<lambda>b.
          if b then
            (if failOnMissing then Inl (Err ''missing token info for output'')
             else read_outputs T failOnMissing i absent matching infos owner_info (j + 1) outs acc)
          else if \<not> matching then Inr None
          else
            rbind (at infos j) (\<lambda>info.
            rbind (read_output T i raw info (owner_info j) (snd acc)) (\<lambda>out'.
            read_outputs T failOnMissing i absent matching infos owner_info (j + 1) outs
              (fst acc @ [out'], snd acc + 1))))))"

definition read_issue ::
  "'a tms \<Rightarrow> bool \<Rightarrow> TokenRequestMetadata option \<Rightarrow> nat \<times> bytes \<Rightarrow> streamed \<Rightarrow> streamed option res" where
  "read_issue T failOnMissing md = (\<lambda>(i, issue) acc.
     rbind (tDeserializeIssueAction T issue) (\<lambda>act.
     rbind (rbind (deref md) (\<lambda>md. Metadata_Issue md i)) (\<lambda>m.
     rbind (IssueMetadata_Match m (daNumOutputs act)) (\<lambda>_.
     let outs = daOutputs act in
     read_outputs T failOnMissing i (IssueMetadata_IsOutputAbsent m)
       (length outs = length (imTokenInfo m) \<and> length (imReceiversAuditInfos m) = length outs)
       (imTokenInfo m) (\<lambda>j. issue_owner_info T (at (imReceiversAuditInfos m) j)) 0 outs acc))))"

definition read_transfer ::
  "'a tms \<Rightarrow> bool \<Rightarrow> TokenRequestMetadata option \<Rightarrow> nat \<times> bytes \<Rightarrow> streamed \<Rightarrow> streamed option res" where
  "read_transfer T failOnMissing md = (\<lambda>(i, transfer) acc.
     rbind (tDeserializeTransferAction T transfer) (\<lambda>act.
     rbind (rbind (deref md) (\<lambda>md. Metadata_Transfer md i)) (\<lambda>m.
     rbind (TransferMetadata_Match m (daNumOutputs act)) (\<lambda>_.
     let outs = daOutputs act in
     if length outs \<noteq> length (tmOutputsMetadata m) \<or> length (tmReceiverAuditInfos m) \<noteq> length outs
     then Inr None
     else read_outputs T failOnMissing i (\<lambda>j. Inr (TransferMetadata_IsOutputAbsent m j)) True
       (tmOutputsMetadata m) (\<lambda>j. transfer_owner_info T (at (tmReceiverAuditInfos m) j)) 0 outs acc))))"

text \<open>A loop that may return early with a nil stream.\<close>

fun read_all :: "('x \<Rightarrow> streamed \<Rightarrow> streamed option res) \<Rightarrow> 'x list \<Rightarrow> streamed \<Rightarrow> streamed option res" where
  "read_all f [] acc = Inr (Some acc)"
| "read_all f (x # xs) acc =
     rbind (f x acc) (\<lambda>r. case r of None \<Rightarrow> Inr None | Some acc' \<Rightarrow> read_all f xs acc')"

definition outputs_of :: "'a Request \<Rightarrow> bool \<Rightarrow> OutputStream option res" where
  "outputs_of r failOnMissing =
     rbind (deref (TokenService r)) (\<lambda>T.
     rbind (deref (Actions r)) (\<lambda>acts.
     rbind (read_all (read_issue T failOnMissing (rMetadata r)) (enumerate 0 (Issues acts)) ([], 0)) (\<lambda>r1.
     case r1 of
       None \<Rightarrow> Inr None
     | Some acc \<Rightarrow>
         rbind (read_all (read_transfer T failOnMissing (rMetadata r)) (enumerate 0 (Transfers acts)) acc) (\<lambda>r2.
         Inr (map_option (\<lambda>(outs, _). NewOutputStream outs (tPrecision T)) r2)))))"

definition Outputs :: "'a Request \<Rightarrow> OutputStream option res" where
  "Outputs r = outputs_of r False"

definition AuditOutputs :: "'a Request \<Rightarrow> OutputStream option res" where
  "AuditOutputs r = outputs_of r True"

text \<open>The inputs: one per sender whose identity was not filtered out.\<close>

fun read_inputs ::
  "'a tms \<Rightarrow> (bytes \<Rightarrow> bool) \<Rightarrow> bool \<Rightarrow> nat \<Rightarrow> TransferMetadata \<Rightarrow> nat \<Rightarrow> bytes list \<Rightarrow> StreamInput list
    \<Rightarrow> StreamInput list res" where
  "read_inputs T none failOnMissing i m j [] acc = Inr acc"
| "read_inputs T none failOnMissing i m j (a # audits) acc =
     (if TransferMetadata_IsInputAbsent none m j then
        (if failOnMissing then Inl (Err ''missing receiver for transfer'')
         else read_inputs T none failOnMissing i m (j + 1) audits acc)
      else
        rbind (tGetEnrollmentID T a) (\<lambda>eID.
        rbind (at (tmSenders m) j) (\<lambda>sender.
        read_inputs T none failOnMissing i m (j + 1) audits
          (acc @ [\<lparr>nActionIndex = i, nId = TokenIDAt m (int j), nOwner = sender, nOwnerAuditInfo = a,
                   nEnrollmentID = eID, nType = [], nQuantity = None\<rparr>]))))"

definition read_transfer_inputs ::
  "'a tms \<Rightarrow> (bytes \<Rightarrow> bool) \<Rightarrow> bool \<Rightarrow> TokenRequestMetadata option \<Rightarrow> StreamInput list \<Rightarrow> nat \<times> bytes
    \<Rightarrow> StreamInput list res" where
  "read_transfer_inputs T none failOnMissing md acc = (\<lambda>(i, transfer).
     rbind (tDeserializeTransferAction T transfer) (\<lambda>act.
     rbind (rbind (deref md) (\<lambda>md. Metadata_Transfer md i)) (\<lambda>m.
     rbind (TransferMetadata_Match m (daNumOutputs act)) (\<lambda>_.
     if tmTokenIDs m = [] \<and> failOnMissing then Inl (Err ''missing token ids for transfer'')
     else read_inputs T none failOnMissing i m 0 (tmSenderAuditInfos m) acc))))"

definition inputs_of_request :: "(bytes \<Rightarrow> bool) \<Rightarrow> 'a Request \<Rightarrow> bool \<Rightarrow> InputStream res" where
  "inputs_of_request none r failOnMissing =
     rbind (deref (TokenService r)) (\<lambda>T.
     rbind (deref (Actions r)) (\<lambda>acts.
     rbind (rfold (read_transfer_inputs T none failOnMissing (rMetadata r)) [] (enumerate 0 (Transfers acts))) (\<lambda>ins.
     Inr (NewInputStream (tIsMine T) ins (tPrecision T)))))"

definition Request_Inputs :: "(bytes \<Rightarrow> bool) \<Rightarrow> 'a Request \<Rightarrow> InputStream res" where
  "Request_Inputs none r = inputs_of_request none r False"

section \<open>Validation and audit\<close>

text \<open>
  The verification of the actions against the driver. For an issue whose metadata does not
  have the right lengths, the code wraps a nil error: \<open>IsValid\<close> returns without an error
  then, and does not look at the actions that follow (\<open>False\<close> stops the loop).
\<close>

definition verify_issue_action :: "'a tms \<Rightarrow> TokenRequestMetadata \<Rightarrow> nat \<times> bytes \<Rightarrow> bool res" where
  "verify_issue_action T md = (\<lambda>(i, issue).
     rbind (tDeserializeIssueAction T issue) (\<lambda>act.
     rbind (at (mdIssues md) i) (\<lambda>m.
     let outs = daOutputs act in
     if length outs \<noteq> length (imTokenInfo m) \<or> length (imReceiversAuditInfos m) \<noteq> length outs
     then Inr False
     else if None \<in> set outs then Inl (Err ''output in issue action is nil'')
     else rbind (tVerifyIssue T act (imTokenInfo m)) (\<lambda>_. Inr True))))"

definition verify_transfer_action :: "'a tms \<Rightarrow> TokenRequestMetadata \<Rightarrow> nat \<times> bytes \<Rightarrow> bool res" where
  "verify_transfer_action T md = (\<lambda>(i, transfer).
     rbind (tDeserializeTransferAction T transfer) (\<lambda>act.
     rbind (at (mdTransfers md) i) (\<lambda>m.
     let outs = daOutputs act in
     if length outs \<noteq> length (tmOutputsMetadata m) \<or> length (tmReceiverAuditInfos m) \<noteq> length outs
     then Inl (Err ''failed matching transfer action with its metadata: invalid metadata'')
     else if None \<in> set outs then Inl (Err ''output in transfer action is nil'')
     else rbind (tVerifyTransfer T act (tmOutputsMetadata m)) (\<lambda>_. Inr True))))"

fun verify_loop :: "('x \<Rightarrow> bool res) \<Rightarrow> 'x list \<Rightarrow> bool res" where
  "verify_loop f [] = Inr True"
| "verify_loop f (x # xs) = rbind (f x) (\<lambda>b. if b then verify_loop f xs else Inr False)"

definition IsValid :: "(bytes \<Rightarrow> bool) \<Rightarrow> 'a Request \<Rightarrow> unit res" where
  "IsValid none r =
     (case TokenService r of None \<Rightarrow> Inl (Err ''invalid token service in request'') | Some T \<Rightarrow>
      case Actions r of None \<Rightarrow> Inl (Err ''invalid actions in request'') | Some acts \<Rightarrow>
      case rMetadata r of None \<Rightarrow> Inl (Err ''invalid metadata in request'') | Some md \<Rightarrow>
        rbind (Request_Inputs none r) (\<lambda>_.
        rbind (Outputs r) (\<lambda>_.
        rbind (verify_loop (verify_issue_action T md) (enumerate 0 (Issues acts))) (\<lambda>b.
        if b then rbind (verify_loop (verify_transfer_action T md) (enumerate 0 (Transfers acts))) (\<lambda>_. Inr ())
        else Inr ()))))"

definition AuditCheck :: "(bytes \<Rightarrow> bool) \<Rightarrow> 'a Request \<Rightarrow> unit res" where
  "AuditCheck none r =
     rbind (deref (TokenService r)) (\<lambda>T.
     rbind (IsValid none r) (\<lambda>_.
     rbind (deref (Actions r)) (\<lambda>acts.
     rbind (deref (rMetadata r)) (\<lambda>md.
     tAuditorCheck T acts md (Anchor r)))))"

text \<open>The inputs of an audit: the type and quantity of the tokens that the vault has for the auditor.\<close>

definition audit_input :: "'a tms \<Rightarrow> Token option list \<Rightarrow> nat \<times> StreamInput \<Rightarrow> StreamInput res" where
  "audit_input T toks = (\<lambda>(i, x).
     rbind (at toks i) (\<lambda>t.
     case t of
       None \<Rightarrow> Inl (Err ''failed to audit inputs: nil input'')
     | Some tok \<Rightarrow>
         rbind (ToQuantity (tokQuantity tok) (tPrecision T)) (\<lambda>q.
         rbind (owner_raw (tokOwner tok)) (\<lambda>raw.
         rbind (tGetAuditInfo T raw) (\<lambda>auditInfo.
         Inr (x\<lparr>nType := tokType tok, nQuantity := Some q, nOwnerAuditInfo := auditInfo\<rparr>))))))"

definition AuditInputs :: "(bytes \<Rightarrow> bool) \<Rightarrow> 'a Request \<Rightarrow> InputStream res" where
  "AuditInputs none r =
     rbind (inputs_of_request none r True) (\<lambda>ins.
     rbind (deref (TokenService r)) (\<lambda>T.
     rbind (tListAuditTokens T (InputStream_IDs ins)) (\<lambda>toks.
     if length (InputStream_IDs ins) \<noteq> length toks
     then Inl (Err ''retrieved less inputs than those in the transaction'')
     else rbind (rmap (audit_input T toks) (enumerate 0 (nsInputs ins))) (\<lambda>xs.
       Inr (ins\<lparr>nsInputs := xs\<rparr>)))))"

record AuditRecord =
  arAnchor :: string
  arInputs :: InputStream
  arOutputs :: "OutputStream option"

definition Request_AuditRecord :: "(bytes \<Rightarrow> bool) \<Rightarrow> 'a Request \<Rightarrow> AuditRecord res" where
  "Request_AuditRecord none r =
     rbind (AuditInputs none r) (\<lambda>ins.
     rbind (AuditOutputs r) (\<lambda>outs.
     Inr \<lparr>arAnchor = Anchor r, arInputs = ins, arOutputs = outs\<rparr>))"

section \<open>Signatures, parties, application metadata\<close>

definition AddAuditorSignature :: "bytes \<Rightarrow> ('a Request, unit) oper" where
  "AddAuditorSignature sigma r = (case Actions r of
     None \<Rightarrow> (Inl nil_pointer, r)
   | Some a \<Rightarrow> (Inr (), r\<lparr>Actions := Some (a\<lparr>AuditorSignatures := AuditorSignatures a @ [sigma]\<rparr>)\<rparr>))"

definition AppendSignature :: "bytes \<Rightarrow> ('a Request, unit) oper" where
  "AppendSignature sigma r = (case Actions r of
     None \<Rightarrow> (Inl nil_pointer, r)
   | Some a \<Rightarrow> (Inr (), r\<lparr>Actions := Some (a\<lparr>Signatures := Signatures a @ [sigma]\<rparr>)\<rparr>))"

definition SetTokenService :: "'a tms option \<Rightarrow> 'a Request \<Rightarrow> 'a Request" where
  "SetTokenService service r = r\<lparr>TokenService := service\<rparr>"

record IssueInfo =
  iiIssuer :: bytes
  iiReceivers :: "bytes list"

record TransferInfo =
  tiSenders :: "bytes list"
  tiReceivers :: "bytes list"
  tiExtraSigners :: "bytes list"

definition Request_Issues :: "'a Request \<Rightarrow> IssueInfo list res" where
  "Request_Issues r =
     rbind (deref (rMetadata r)) (\<lambda>md.
     Inr (map (\<lambda>m. \<lparr>iiIssuer = imIssuer m, iiReceivers = imReceivers m\<rparr>) (mdIssues md)))"

definition Request_Transfers :: "'a Request \<Rightarrow> TransferInfo list res" where
  "Request_Transfers r =
     rbind (deref (rMetadata r)) (\<lambda>md.
     Inr (map (\<lambda>m. \<lparr>tiSenders = tmSenders m, tiReceivers = tmReceivers m, tiExtraSigners = tmExtraSigners m\<rparr>)
       (mdTransfers md)))"

definition ApplicationMetadata :: "string \<Rightarrow> 'a Request \<Rightarrow> bytes res" where
  "ApplicationMetadata k r =
     rbind (deref (rMetadata r)) (\<lambda>md.
     Inr (case map_of (mdApplication md) k of None \<Rightarrow> [] | Some v \<Rightarrow> v))"

definition SetApplicationMetadata :: "string \<Rightarrow> bytes \<Rightarrow> 'a Request \<Rightarrow> 'a Request" where
  "SetApplicationMetadata k v r =
     (let md = (case rMetadata r of None \<Rightarrow> no_metadata | Some md \<Rightarrow> md) in
      r\<lparr>rMetadata := Some (md\<lparr>mdApplication := AList.update k v (mdApplication md)\<rparr>)\<rparr>)"

text \<open>The filter takes a list of identifiers and looks at the first.\<close>

definition FilterMetadataBy :: "string list \<Rightarrow> 'a Request \<Rightarrow> 'a Request res" where
  "FilterMetadataBy eIDs r =
     rbind (deref (TokenService r)) (\<lambda>T.
     rbind (at eIDs 0) (\<lambda>e.
     rbind (deref (rMetadata r)) (\<lambda>md.
     rbind (FilterBy \<lparr>mDeserializeToken = tDeserializeToken T, mGetEnrollmentID = tGetEnrollmentID T\<rparr> [e] md) (\<lambda>md'.
     Inr \<lparr>Anchor = Anchor r, Actions = Actions r, rMetadata = Some md', TokenService = TokenService r\<rparr>))))"

text \<open>
  Binding: the identities of the request that are not in a wallet of this node are bound to
  the long-term identity of the party, by the resolver of the node.
\<close>

definition bind_unless_me :: "'a tms \<Rightarrow> (bytes \<Rightarrow> bytes \<Rightarrow> ('s, unit) oper) \<Rightarrow> bytes \<Rightarrow> bytes \<Rightarrow> ('s, unit) oper" where
  "bind_unless_me T bind longTerm eid = (if tIsMe T eid then oret () else bind longTerm eid)"

definition bind_receivers ::
  "'a tms \<Rightarrow> (bytes \<Rightarrow> bytes \<Rightarrow> ('s, unit) oper) \<Rightarrow> bytes \<Rightarrow> TransferMetadata \<Rightarrow> ('s, unit) oper" where
  "bind_receivers T bind longTerm m =
     ofor (\<lambda>(j, b). if b then obind (olift (at (tmReceivers m) j)) (bind_unless_me T bind longTerm) else oret ())
       (enumerate 0 (tmReceiverIsSender m))"

definition BindTo ::
  "(bytes \<Rightarrow> bytes res) \<Rightarrow> (bytes \<Rightarrow> bytes \<Rightarrow> ('s, unit) oper) \<Rightarrow> bytes \<Rightarrow> 'a Request \<Rightarrow> ('s, unit) oper" where
  "BindTo resolve bind party r =
     obind (olift (resolve party)) (\<lambda>longTerm.
     obind (olift (deref (Actions r))) (\<lambda>acts.
     ofor (\<lambda>i.
        obind (olift (deref (rMetadata r))) (\<lambda>md.
        obind (olift (at (mdTransfers md) i)) (\<lambda>m.
        obind (olift (if tmSenders m = [] \<and> tmExtraSigners m = [] \<and> True \<notin> set (tmReceiverIsSender m)
                      then Inr None else rbind (deref (TokenService r)) (\<lambda>T. Inr (Some T)))) (\<lambda>service.
        case service of
          None \<Rightarrow> oret ()
        | Some T \<Rightarrow>
            obind (ofor (bind_unless_me T bind longTerm) (tmSenders m)) (\<lambda>_.
            obind (ofor (bind_unless_me T bind longTerm) (tmExtraSigners m)) (\<lambda>_.
            bind_receivers T bind longTerm m))))))
       [0..<length (Transfers acts)]))"

section \<open>Serialization\<close>

text \<open>The codec of the metadata, extended by those of the actions and of the request.\<close>

record requestSer =
  serTxID :: string
  serActions :: bytes
  serMetadata :: bytes

record asn1_request = asn1 +
  asn1_marshal_request :: "TokenRequest \<Rightarrow> bytes res"
  asn1_unmarshal_request :: "bytes \<Rightarrow> TokenRequest res"
  asn1_marshal_ser :: "requestSer \<Rightarrow> bytes res"
  asn1_unmarshal_ser :: "bytes \<Rightarrow> requestSer res"

definition asn1_request_laws :: "asn1_request \<Rightarrow> bool" where
  "asn1_request_laws A \<longleftrightarrow> asn1_laws (asn1.truncate A)
     \<and> (\<forall>x raw. asn1_marshal_request A x = Inr raw \<longrightarrow> raw \<noteq> [] \<and> asn1_unmarshal_request A raw = Inr x)
     \<and> (\<forall>x raw. asn1_marshal_ser A x = Inr raw \<longrightarrow> asn1_unmarshal_ser A raw = Inr x)
     \<and> (\<forall>x raw. asn1_marshal_metadata A x = Inr raw \<longrightarrow> raw \<noteq> [])"

definition RequestToBytes :: "asn1_request \<Rightarrow> 'a Request \<Rightarrow> bytes res" where
  "RequestToBytes A r = (case Actions r of
     None \<Rightarrow> Inl (Err ''failed to marshal request'') | Some a \<Rightarrow> asn1_marshal_request A a)"

definition MetadataToBytes :: "asn1_request \<Rightarrow> 'a Request \<Rightarrow> bytes res" where
  "MetadataToBytes A r = (case rMetadata r of
     None \<Rightarrow> Inl (Err ''failed to marshal metadata for request'')
   | Some md \<Rightarrow> TokenRequestMetadata_Bytes (asn1.truncate A) md)"

definition Request_Bytes :: "asn1_request \<Rightarrow> 'a Request \<Rightarrow> bytes res" where
  "Request_Bytes A r =
     rbind (RequestToBytes A r) (\<lambda>req.
     rbind (MetadataToBytes A r) (\<lambda>meta.
     asn1_marshal_ser A \<lparr>serTxID = Anchor r, serActions = req, serMetadata = meta\<rparr>))"

text \<open>
  \<open>FromBytes\<close> overwrites the request in place: the anchor first, then the actions and the
  metadata, when they are not empty.
\<close>

definition Request_FromBytes :: "asn1_request \<Rightarrow> bytes \<Rightarrow> ('a Request, unit) oper" where
  "Request_FromBytes A raw = (\<lambda>r.
     case asn1_unmarshal_ser A raw of
       Inl e \<Rightarrow> (Inl e, r)
     | Inr ser \<Rightarrow>
         (let r1 = r\<lparr>Anchor := serTxID ser\<rparr> in
          obind (if serActions ser = [] then oret ()
                 else (\<lambda>r. case Actions r of None \<Rightarrow> (Inl nil_pointer, r) | Some _ \<Rightarrow>
                   (case asn1_unmarshal_request A (serActions ser) of
                      Inl e \<Rightarrow> (Inl e, r) | Inr a \<Rightarrow> (Inr (), r\<lparr>Actions := Some a\<rparr>)))) (\<lambda>_.
          if serMetadata ser = [] then oret ()
          else (\<lambda>r. case rMetadata r of None \<Rightarrow> (Inl nil_pointer, r) | Some m \<Rightarrow>
                  (case TokenRequestMetadata_FromBytes (asn1.truncate A) (serMetadata ser) m of
                     (x, md) \<Rightarrow> (x, r\<lparr>rMetadata := Some md\<rparr>)))) r1))"

definition NewRequestFromBytes :: "asn1_request \<Rightarrow> 'a tms option \<Rightarrow> string \<Rightarrow> bytes \<Rightarrow> bytes \<Rightarrow> 'a Request res" where
  "NewRequestFromBytes A tokenService anchor actions trmRaw =
     rbind (asn1_unmarshal_request A actions) (\<lambda>tr.
     rbind (if trmRaw = [] then Inr no_metadata
            else case TokenRequestMetadata_FromBytes (asn1.truncate A) trmRaw no_metadata of
                   (Inl e, m) \<Rightarrow> Inl e | (Inr u, m) \<Rightarrow> Inr m) (\<lambda>trm.
     Inr \<lparr>Anchor = anchor, Actions = Some tr, rMetadata = Some trm, TokenService = tokenService\<rparr>))"

definition MarshalToAudit :: "asn1_request \<Rightarrow> 'a Request \<Rightarrow> bytes res" where
  "MarshalToAudit A r = (case Actions r of
     None \<Rightarrow> Inl (Err ''failed to marshal request for audit'')
   | Some a \<Rightarrow>
       rbind (asn1_marshal_request A
         \<lparr>Issues = Issues a, Transfers = Transfers a, Signatures = [], AuditorSignatures = []\<rparr>) (\<lambda>bs.
       Inr (bs @ Anchor r)))"

definition MarshalToSign :: "'a Request \<Rightarrow> bytes res" where
  "MarshalToSign r = (case Actions r of
     None \<Rightarrow> Inl (Err ''failed to marshal request for signing'')
   | Some a \<Rightarrow> rbind (deref (TokenService r)) (\<lambda>T. tMarshalTokenRequestToSign T a (rMetadata r)))"

end
