(* ===== verification/Sender.thy ===== *)
theory Sender
  imports Request
begin

text \<open>
  How the fabtoken driver makes a transfer (\<open>token/core/fabtoken/sender.go\<close>, with
  \<open>token/core/common/metadata.go\<close>, \<open>query.go\<close>, \<open>service.go\<close>), and the management service
  of that driver as the requests use it.
\<close>

section \<open>Metadata of a transfer action\<close>

text \<open>
  The loop ranges over a Go map in an arbitrary order: the attributes are a list with
  distinct keys, in that order.
\<close>

definition set_metadata :: "(string \<times> bytes) list \<Rightarrow> attr_key \<times> attr_value \<Rightarrow> (string \<times> bytes) list" where
  "set_metadata metadata = (\<lambda>(key, v).
     case (key, v) of
       (StringKey k, BytesValue b) \<Rightarrow>
         if take (length TransferMetadataPrefix) k = TransferMetadataPrefix
         then AList.update (drop (length TransferMetadataPrefix) k) b metadata
         else metadata
     | _ \<Rightarrow> metadata)"

definition SetTransferActionMetadata :: "attributes \<Rightarrow> (string \<times> bytes) list \<Rightarrow> (string \<times> bytes) list" where
  "SetTransferActionMetadata attrs metadata = foldl set_metadata metadata attrs"

section \<open>The transfer\<close>

text \<open>
  What the service calls: the vault for the keys and contents of tokens, the providers of
  audit information, and the registry of the owners' wallets.
\<close>

record fab_service =
  fsGetTokens :: "ID list \<Rightarrow> (string list \<times> Token list) res"
  fsGetAuditInfo :: "bytes \<Rightarrow> bytes res"
  fsHasOwnerWallet :: "bytes \<Rightarrow> bool"

definition output_receiver :: "fab_env \<Rightarrow> Token option \<Rightarrow> bytes res" where
  "output_receiver E output =
     (case output of
        None \<Rightarrow> Inl (Err ''failed to transfer: invalid output'')
      | Some tok \<Rightarrow>
          (case tokOwner tok of
             None \<Rightarrow> Inl (Err ''failed to transfer: invalid output'')
           | Some raw \<Rightarrow>
               if raw = [] then Inr raw
               else rbind (UnmarshallRawOwner E raw) (\<lambda>owner.
                 if roType owner = SerializedIdentityType then Inr raw
                 else rbind (GetScriptSenderAndRecipient E owner) (\<lambda>(_, recipient). Inr recipient))))"

definition Transfer ::
  "fab_env \<Rightarrow> fab_service \<Rightarrow> ID list \<Rightarrow> Token option list \<Rightarrow> attributes
    \<Rightarrow> (FabTransferAction \<times> TransferMetadata) res" where
  "Transfer E S ids outs attrs =
     rbind (fsGetTokens S ids) (\<lambda>(inputIDs, inputTokens).
     rbind (rmap (\<lambda>tok. owner_raw (tokOwner tok)) inputTokens) (\<lambda>signerIds.
     rbind (rmap (\<lambda>_. marshal_OutputMetadata E \<lparr>omIssuer = []\<rparr>) outs) (\<lambda>metas.
     let transfer = \<lparr>Inputs = inputIDs, tOutputs = map Some outs,
           tMetadata = SetTransferActionMetadata attrs []\<rparr> in
     rbind (rmap (output_receiver E) outs) (\<lambda>receivers.
     rbind (rmap (\<lambda>tok. rbind (owner_raw (tokOwner tok)) (GetOwnerAuditInfo E (fsGetAuditInfo S))) inputTokens) (\<lambda>senderAuditInfos.
     rbind (rmap (\<lambda>out. rbind (token_owner out) (GetOwnerAuditInfo E (fsGetAuditInfo S))) outs) (\<lambda>receiverAuditInfos.
     rbind (TransferAction_GetSerializedOutputs E transfer) (\<lambda>outputs.
     Inr (transfer,
       \<lparr>tmTokenIDs = ids, tmSenders = signerIds, tmSenderAuditInfos = senderAuditInfos,
        tmOutputs = outputs, tmOutputsMetadata = metas, tmReceivers = receivers,
        tmReceiverAuditInfos = receiverAuditInfos,
        tmReceiverIsSender = map (fsHasOwnerWallet S) receivers, tmExtraSigners = []\<rparr>))))))))"

definition VerifyTransferOutputs :: "FabTransferAction \<Rightarrow> bytes list \<Rightarrow> unit res" where
  "VerifyTransferOutputs tr outputsMetadata = Inr ()"

definition VerifyIssueOutputs :: "FabIssueAction \<Rightarrow> bytes list \<Rightarrow> unit res" where
  "VerifyIssueOutputs action tokenInfos = Inr ()"

text \<open>Reading a token (\<open>query.go\<close>) and the message to sign (\<open>service.go\<close>).\<close>

definition DeserializeToken :: "fab_env \<Rightarrow> (bytes \<Rightarrow> OutputMetadata res) \<Rightarrow> bytes \<Rightarrow> bytes \<Rightarrow> (Token \<times> bytes) res" where
  "DeserializeToken E unmarshal_OutputMetadata outputRaw tokenInfoRaw =
     rbind (unmarshal_Token E outputRaw) (\<lambda>tok.
     rbind (unmarshal_OutputMetadata tokenInfoRaw) (\<lambda>tokInfo.
     Inr (tok, omIssuer tokInfo)))"

definition MarshalTokenRequestToSign :: "fab_env \<Rightarrow> TokenRequest \<Rightarrow> bytes res" where
  "MarshalTokenRequestToSign E request =
     marshal_TokenRequest E \<lparr>Issues = Issues request, Transfers = Transfers request,
       Signatures = [], AuditorSignatures = []\<rparr>"

section \<open>The driver's management service\<close>

text \<open>
  The actions of the driver as the requests see them. Encoding an action is a parameter, as
  in the environment.
\<close>

record fab_tms_env =
  ftEnv :: fab_env
  ftService :: fab_service
  marshal_Issue :: "FabIssueAction \<Rightarrow> bytes res"
  marshal_Transfer :: "FabTransferAction \<Rightarrow> bytes res"
  unmarshal_OutputMetadata :: "bytes \<Rightarrow> OutputMetadata res"
  ftListAuditTokens :: "ID option list \<Rightarrow> Token option list res"
  ftIsMine :: "ID option \<Rightarrow> bool res"
  ftPP :: PublicParams

definition view_outputs :: "fab_env \<Rightarrow> Output option list \<Rightarrow> bytes res option list" where
  "view_outputs E outs = map (map_option (Output_Serialize E)) outs"

definition view_issue :: "fab_tms_env \<Rightarrow> FabIssueAction \<Rightarrow> fab_action driver_action" where
  "view_issue F i =
     \<lparr>daOutputs = view_outputs (ftEnv F) (iOutputs i), daNumOutputs = IssueAction_NumOutputs i,
      daSerialize = marshal_Issue F i, daGetSerializedOutputs = IssueAction_GetSerializedOutputs (ftEnv F) i,
      driver_payload = FabIssue i\<rparr>"

definition view_transfer :: "fab_tms_env \<Rightarrow> FabTransferAction \<Rightarrow> fab_action driver_action" where
  "view_transfer F t =
     \<lparr>daOutputs = view_outputs (ftEnv F) (tOutputs t), daNumOutputs = TransferAction_NumOutputs t,
      daSerialize = marshal_Transfer F t, daGetSerializedOutputs = TransferAction_GetSerializedOutputs (ftEnv F) t,
      driver_payload = FabTransfer t\<rparr>"

definition fab_tms :: "fab_tms_env \<Rightarrow> fab_action tms" where
  "fab_tms F =
     \<lparr>tDeserializeIssueAction = (\<lambda>raw. rbind (unmarshal_Issue (ftEnv F) raw) (\<lambda>i. Inr (view_issue F i))),
      tDeserializeTransferAction = (\<lambda>raw. rbind (unmarshal_Transfer (ftEnv F) raw) (\<lambda>t. Inr (view_transfer F t))),
      tDeserializeToken = DeserializeToken (ftEnv F) (unmarshal_OutputMetadata F),
      tGetEnrollmentID = GetEnrollmentID (ftEnv F),
      tGetAuditInfo = fsGetAuditInfo (ftService F),
      tIssue = (\<lambda>issuer typ vals owners attrs.
        rbind (Issue (ftEnv F) (QuantityPrecision (ftPP F)) issuer typ vals owners) (\<lambda>(i, infos, iss).
        Inr (view_issue F i, infos, iss))),
      tTransfer = (\<lambda>anchor ids outs attrs.
        rbind (Transfer (ftEnv F) (ftService F) ids outs attrs) (\<lambda>(t, md). Inr (view_transfer F t, md))),
      tVerifyIssue = (\<lambda>act infos. Inr ()),
      tVerifyTransfer = (\<lambda>act infos. Inr ()),
      tMarshalTokenRequestToSign = (\<lambda>req md. MarshalTokenRequestToSign (ftEnv F) req),
      tAuditorCheck = (\<lambda>req md anchor. Inr ()),
      tPrecision = QuantityPrecision (ftPP F), tMaxTokenValue = MaxToken (ftPP F), tGraphHiding = False,
      tGetTokens = (\<lambda>ids. rbind (fsGetTokens (ftService F) ids) (\<lambda>(ks, toks). Inr toks)),
      tListAuditTokens = ftListAuditTokens F, tIsMine = ftIsMine F,
      tRequestCertification = (\<lambda>ids. Inr ()), tIsMe = fsHasOwnerWallet (ftService F)\<rparr>"

end
