(* ===== verification/Request_Properties.thy ===== *)
theory Request_Properties
  imports Sender Selector Fab_Properties
begin

text \<open>
  What holds of token requests: that a prepared transfer conserves value and balances under
  the validator of the fabtoken driver, what a valid request has passed, the indices of the
  outputs, what a failed operation leaves behind, and the round trip through bytes.
\<close>

section \<open>The outputs of a transfer\<close>

text \<open>A token that pays a value to an owner.\<close>

definition pays :: "string \<Rightarrow> u64 \<times> bytes \<Rightarrow> Token \<Rightarrow> bool" where
  "pays typ = (\<lambda>(v, owner) tok.
     tokOwner tok = Some owner \<and> tokType tok = typ \<and> qval (tokQuantity tok) = uint v)"

definition readable_token :: "u64 \<Rightarrow> Token \<Rightarrow> bool" where
  "readable_token p tok \<longleftrightarrow> (\<exists>q. ToQuantity (tokQuantity tok) p = Inr q)"

lemma total_simps [simp]:
  "total [] = 0" "total (t # ts) = qval (tokQuantity t) + total ts" "total (ts @ us) = total ts + total us"
  by (simp_all add: total_def)

lemma gen_loop_pays:
  assumes "gen_loop p maxQ typ owners i vs toks acc = Inr (toks', acc')" "wfq p acc" "wfq p maxQ"
  shows "\<exists>new. toks' = toks @ new \<and> length new = length vs \<and> length vs + i \<le> max i (length owners)
    \<and> list_all2 (pays typ) (zip vs (drop i owners)) new
    \<and> list_all (readable_token p) new \<and> list_all (\<lambda>v. uint v \<le> ToBigInt maxQ) vs
    \<and> wfq p acc' \<and> ToBigInt acc' = ToBigInt acc + total new"
  using assms
proof (induction vs arbitrary: i toks acc)
  case Nil
  then show ?case by simp
next
  case (Cons v vs)
  from Cons.prems(1) obtain q c acc1 where q: "UInt64ToQuantity v p = Inr q" and c: "Cmp q maxQ = Inr c" "c \<noteq> 1"
    and add: "Add acc q = Inr acc1" and i: "i < length owners"
    and r: "gen_loop p maxQ typ owners (i + 1) vs
         (toks @ [\<lparr>tokOwner = Some (owners ! i), tokType = typ, tokQuantity = Hex q\<rparr>]) acc1 = Inr (toks', acc')"
    by (auto simp: go_simps at_eq_Inr simp del: Hex.simps split: if_splits)
  note wf = UInt64ToQuantity_SomeD(3) [OF q] and val = UInt64ToQuantity_SomeD(2) [OF q]
  note a = Add_wfq [OF Cons.prems(2) wf add]
  let ?t = "\<lparr>tokOwner = Some (owners ! i), tokType = typ, tokQuantity = Hex q\<rparr>"
  from Cons.IH [OF r conjunct1 [OF a] Cons.prems(3)] obtain new where
    new: "toks' = (toks @ [?t]) @ new" "length new = length vs" "length vs + (i + 1) \<le> max (i + 1) (length owners)"
      "list_all2 (pays typ) (zip vs (drop (i + 1) owners)) new" "list_all (readable_token p) new"
      "list_all (\<lambda>v. uint v \<le> ToBigInt maxQ) vs" "wfq p acc'" "ToBigInt acc' = ToBigInt acc1 + total new"
    by blast
  have d: "drop i owners = owners ! i # drop (i + 1) owners" using i by (simp add: Cons_nth_drop_Suc)
  have m: "uint v \<le> ToBigInt maxQ" using c Cmp_wfq [OF wf Cons.prems(3)] val int_cmp_iff(2) [of "uint v" "ToBigInt maxQ"]
    by (auto simp: not_less simp del: int_cmp_iff)
  have t: "pays typ (v, owners ! i) ?t" "readable_token p ?t"
    using UInt64ToQuantity_text(1,3) [OF q] by (auto simp: pays_def readable_token_def)
  show ?case
    by (rule exI [of _ "?t # new"]) (use new a i d m t wf in \<open>simp del: Hex.simps add: max_def\<close>)
qed

lemma genOutputs_pays:
  assumes "genOutputs T vals owners typ = Inr (outs, outSum)"
  shows "length vals \<le> length owners \<and> list_all2 (pays typ) (zip vals owners) outs \<and> length outs = length vals
    \<and> list_all (readable_token (tPrecision T)) outs \<and> list_all (\<lambda>v. v \<le> tMaxTokenValue T) vals
    \<and> wfq (tPrecision T) outSum \<and> ToBigInt outSum = total outs \<and> tPrecision T \<noteq> 0"
proof -
  from assms obtain maxQ where m: "UInt64ToQuantity (tMaxTokenValue T) (tPrecision T) = Inr maxQ"
    and g: "gen_loop (tPrecision T) maxQ typ owners 0 vals [] (NewZeroQuantity (tPrecision T)) = Inr (outs, outSum)"
    by (auto simp: genOutputs_def go_simps)
  from gen_loop_pays [OF g wfq_zero UInt64ToQuantity_SomeD(3) [OF m]] UInt64ToQuantity_SomeD(1,2) [OF m]
  show ?thesis by (auto simp: word_le_def)
qed

lemma list_all_pays_type: "list_all2 (pays typ) xs outs \<Longrightarrow> list_all (\<lambda>t. tokType t = typ) outs"
  by (induction rule: list_all2_induct) (auto simp: pays_def)

text \<open>The change: nothing, or one output of the rest to the wallet.\<close>

definition change_for :: "owner_wallet \<Rightarrow> string \<Rightarrow> int \<Rightarrow> Token list \<Rightarrow> bool" where
  "change_for wallet typ rest change \<longleftrightarrow>
     (if rest = 0 then change = []
      else 0 < rest \<and> (\<exists>pseudonym. GetRecipientIdentity wallet = Inr pseudonym
        \<and> (\<exists>tok. change = [tok] \<and> tokOwner tok = Some pseudonym \<and> tokType tok = typ \<and> qval (tokQuantity tok) = rest)))"

lemma change_for_total: "change_for wallet typ rest change \<Longrightarrow> total change = rest"
  by (auto simp: change_for_def split: if_splits)

lemma change_for_type: "change_for wallet typ rest change \<Longrightarrow> list_all (\<lambda>t. tokType t = typ) change"
  by (auto simp: change_for_def split: if_splits)

lemma wfq_readable: "ToQuantity s p = Inr q' \<Longrightarrow> wfq p q \<Longrightarrow> ToQuantity (Hex q) p = Inr q"
  using ToQuantity_text by (simp add: ToQuantity_exact)

lemma change_output_ok:
  assumes "change_output wallet typ inSum outSum = Inr change" "wfq p inSum" "wfq p outSum"
  shows "change_for wallet typ (ToBigInt inSum - ToBigInt outSum) change
    \<and> (\<forall>t \<in> set change. \<exists>q. wfq p q \<and> tokQuantity t = Hex q)"
proof -
  have cmp: "Cmp inSum outSum = Inr (int_cmp (ToBigInt inSum) (ToBigInt outSum))"
    by (rule Cmp_wfq [OF assms(2,3)])
  consider "ToBigInt inSum = ToBigInt outSum" | "ToBigInt outSum < ToBigInt inSum" | "ToBigInt inSum < ToBigInt outSum"
    by linarith
  then show ?thesis
  proof cases
    case 2
    with assms(1) cmp obtain diff ps where d: "Sub inSum outSum = Inr diff" "GetRecipientIdentity wallet = Inr ps"
      "change = [\<lparr>tokOwner = Some ps, tokType = typ, tokQuantity = Hex diff\<rparr>]"
      by (auto simp: change_output_def go_simps simp del: Hex.simps)
    from Sub_wfq [OF assms(2,3) d(1)] d(2,3) 2 show ?thesis
      by (auto simp: change_for_def simp del: Hex.simps)
  qed (use assms(1) cmp in \<open>auto simp: change_output_def change_for_def\<close>)
qed

section \<open>The inputs of a transfer\<close>

lemma parse_loop_sum:
  assumes "parse_loop p toks typ0 acc = Inr (Some (s, typ))" "wfq p acc"
  shows "wfq p s \<and> ToBigInt s = ToBigInt acc + total toks \<and> list_all (readable_token p) toks
    \<and> list_all (\<lambda>t. tokType t = typ \<or> tokType t = []) toks \<and> (typ0 \<noteq> [] \<longrightarrow> typ = typ0)"
  using assms
proof (induction toks arbitrary: typ0 acc)
  case Nil
  then show ?case by simp
next
  case (Cons t toks)
  let ?ty = "if typ0 = [] then tokType t else typ0"
  from Cons.prems(1) obtain q acc1 where ty: "?ty = tokType t" and q: "ToQuantity (tokQuantity t) p = Inr q"
    and add: "Add acc q = Inr acc1" and r: "parse_loop p toks ?ty acc1 = Inr (Some (s, typ))"
    by (auto simp: go_simps Let_def split: if_splits)
  note a = Add_wfq [OF Cons.prems(2) ToQuantity_SomeD(3) [OF q] add]
  from Cons.IH [OF r conjunct1 [OF a]] a ToQuantity_qval [OF q] ty q show ?case
    by (auto simp: readable_token_def split: if_splits)
qed

text \<open>
  What a transfer that is prepared with a selector relies on: the amount that the selector
  returns is a quantity of its precision. The selector of the library keeps this promise.
\<close>

locale token_selector =
  fixes select :: "string \<Rightarrow> string \<Rightarrow> 's \<Rightarrow> (ID list \<times> Quantity) res \<times> 's" and p :: u64
  assumes amount_wf: "select q typ s = (Inr (ids, amount), s') \<Longrightarrow> wfq p amount"
begin

lemma change_after_selection:
  assumes "select (Decimal outSum) typ s = (Inr (ids, amount), s')" and "wfq p outSum"
    and "change_output wallet typ amount outSum = Inr change"
  shows "change_for wallet typ (ToBigInt amount - ToBigInt outSum) change"
  using change_output_ok [OF assms(3) amount_wf [OF assms(1)] assms(2)] by simp

end

lemma rounds_found:
  assumes "rounds S tokens keep target i s = (Inr found, s')"
  shows "\<exists>k u. round_of S tokens keep target k u = (Inr (Inl found), s')"
  using assms
proof (induction S tokens keep target i s rule: rounds.induct)
  case (1 S tokens keep target i s)
  obtain r1 s1 where r1: "round_of S tokens keep target i s = (r1, s1)" by force
  show ?case
  proof (cases "\<exists>e. r1 = Inr (Inr e) \<and> i + 1 < numRetry S")
    case True
    then obtain e where e: "r1 = Inr (Inr e)" "i + 1 < numRetry S" by blast
    with "1.prems" r1 have "rounds S tokens keep target (i + 1) s1 = (Inr found, s')"
      by (subst (asm) rounds.simps) simp
    with "1.IH" [OF r1 [symmetric] e(1) refl] e(2) show ?thesis by auto
  next
    case False
    with "1.prems" r1 have "r1 = Inr (Inl found)" "s1 = s'"
      by (auto simp: rounds.simps [of S tokens keep target i s] split: sum.splits if_splits)
    with r1 show ?thesis by blast
  qed
qed

lemma Select_found:
  assumes "Select S uuid f q typ s = (Inr (ids, amount), s')"
  shows "\<exists>target k us. ToQuantity q (sPrecision S) = Inr target \<and> ids = map utId us
    \<and> found_tokens S (listing S f typ) (wanted f typ) target k us amount"
proof -
  from Select_cases [OF assms] obtain target where t: "ToQuantity q (sPrecision S) = Inr target"
    and r: "rounds S (listing S f typ) (wanted f typ) target 0 s = (Inr (ids, amount), s')" by auto
  from rounds_found [OF r] obtain k u where
    "round_of S (listing S f typ) (wanted f typ) target k u = (Inr (Inl (ids, amount)), s')" by blast
  from round_of_result [OF this ToQuantity_SomeD(3) [OF t]] t show ?thesis by auto
qed

lemma found_amount: "found_tokens S tokens keep target k us amount \<Longrightarrow>
    wfq (sPrecision S) amount \<and> ToBigInt amount = worth us"
  by (simp add: found_tokens_def)

interpretation selecting: token_selector "Select S uuid f" "sPrecision S" for S uuid f
  by unfold_locales (meson Select_found found_amount)

section \<open>Prepared transfers\<close>

lemma owners_checked:
  assumes "ofor (\<lambda>owner.
        if redeem then ocheck (none owner) ''all recipients must be nil''
        else ocheck (\<not> none owner) ''all recipients should be defined'') owners s = (Inr (), t)"
  shows "t = s"
  by (rule ofor_invariant [OF assms, of "\<lambda>u. u = s"]) (auto simp: go_simps split: if_splits)

lemma prepareTransfer_cases:
  assumes "prepareTransfer none (Some T) newSelector anchor redeem wallet ty vals owners opts s
      = (Inr (ids, outs), s')"
  obtains (given) toks inSum outSum tty paid change where
      "toTokenIDs opts \<noteq> []" "ids = toTokenIDs opts" "s' = s" "tGetTokens T ids = Inr toks"
      "parse_loop (tPrecision T) toks [] (NewZeroQuantity (tPrecision T)) = Inr (Some (inSum, tty))"
      "tty \<noteq> []" "genOutputs T vals owners tty = Inr (paid, outSum)"
      "change_output wallet tty inSum outSum = Inr change" "outs = paid @ change"
  | (selected) select amount outSum paid change where
      "toTokenIDs opts = []" "(case toSelector opts of Some x \<Rightarrow> Inr x | None \<Rightarrow> newSelector anchor) = Inr select"
      "genOutputs T vals owners ty = Inr (paid, outSum)" "ty \<noteq> []"
      "select (Decimal outSum) ty s = (Inr (ids, amount), s')"
      "change_output wallet ty amount outSum = Inr change" "outs = paid @ change"
proof (cases "toTokenIDs opts = []")
  case True
  from assms True selected show ?thesis
    by (auto simp: prepareTransfer_def go_simps simp del: Decimal.simps dest!: owners_checked split: if_splits)
next
  case False
  from assms False given show ?thesis
    by (auto simp: prepareTransfer_def parseInputIDs_def go_simps simp del: Decimal.simps
        dest!: owners_checked split: if_splits option.splits)
qed

section \<open>Balance\<close>

lemma Add_below:
  assumes "wfq p a" "wfq p b" "ToBigInt a + ToBigInt b \<le> v" "\<not> exceeds v p"
  shows "\<exists>c. Add a b = Inr c \<and> wfq p c \<and> ToBigInt c = ToBigInt a + ToBigInt b"
proof -
  have "\<not> exceeds (ToBigInt a + ToBigInt b) p" using exceeds_mono [OF assms(4) _ assms(3)] assms(1,2) by simp
  then obtain c where "Add a b = Inr c" using Add_panics(2) [OF assms(1,2)] by blast
  with Add_wfq [OF assms(1,2)] show ?thesis by blast
qed

lemma wfq_not_exceeds: "wfq p q \<Longrightarrow> 0 \<le> sint p \<Longrightarrow> \<not> exceeds (ToBigInt q) p"
  using exceeds_zero uint_not_exceeds_64 by (cases q) auto

lemma total_nonneg: "list_all (readable_token p) toks \<Longrightarrow> 0 \<le> total toks"
proof (induction toks)
  case (Cons t toks)
  then obtain q where q: "ToQuantity (tokQuantity t) p = Inr q" by (auto simp: readable_token_def)
  with Cons wfq_ToBigInt_nonneg [OF ToQuantity_SomeD(3) [OF q]] ToQuantity_qval [OF q] show ?case by simp
qed simp

lemma fold_succeeds:
  assumes "list_all (readable_token p) toks" "wfq p a" "ToBigInt a + total toks \<le> v" "\<not> exceeds v p"
    and "\<And>a t q b. t \<in> set toks \<Longrightarrow> ToQuantity (tokQuantity t) p = Inr q \<Longrightarrow> Add a q = Inr b \<Longrightarrow> f a (wrap t) = Inr b"
  shows "\<exists>c. rfold f a (map wrap toks) = Inr c \<and> wfq p c \<and> ToBigInt c = ToBigInt a + total toks"
  using assms
proof (induction toks arbitrary: a)
  case (Cons t toks)
  then obtain q where q: "ToQuantity (tokQuantity t) p = Inr q" by (auto simp: readable_token_def)
  note w = ToQuantity_SomeD(3) [OF q] and e = ToQuantity_qval [OF q]
  have "ToBigInt a + ToBigInt q \<le> v" using Cons.prems(1,3) e total_nonneg [of p toks] by simp
  then obtain b where b: "Add a q = Inr b" "wfq p b" "ToBigInt b = ToBigInt a + ToBigInt q"
    using Add_below [OF Cons.prems(2) w _ Cons.prems(4)] by blast
  then have f: "f a (wrap t) = Inr b" using Cons.prems(5) q by simp
  have "\<exists>c. rfold f b (map wrap toks) = Inr c \<and> wfq p c \<and> ToBigInt c = ToBigInt b + total toks"
    by (rule Cons.IH) (use Cons.prems b e in auto)
  with f b e show ?case by auto
qed simp

text \<open>The converse of what the balance check establishes.\<close>

lemma balance_succeeds:
  assumes "toks \<noteq> []" "os \<noteq> []" "list_all (\<lambda>t. tokType t = typ) toks" "list_all (\<lambda>t. tokType t = typ) os"
    and "list_all (readable_token p) toks" "list_all (readable_token p) os"
    and "total toks = total os" "\<not> exceeds (total os) p"
  shows "balance p (map Some toks) (map (\<lambda>t. Some (Some t)) os) = Inr ()"
proof -
  obtain t ts where toks: "toks = t # ts" using assms(1) by (cases toks) auto
  then have ty: "tokType t = typ" using assms(3) by simp
  obtain i where i: "rfold (balance_input p typ) (NewZeroQuantity p) (map Some toks) = Inr i"
    "wfq p i" "ToBigInt i = total toks"
    using fold_succeeds [of p toks "NewZeroQuantity p" "total os" "balance_input p typ" Some] assms
    by (auto simp: balance_input_eq list_all_iff)
  obtain o' where o': "rfold (balance_output p typ) (NewZeroQuantity p) (map (\<lambda>t. Some (Some t)) os) = Inr o'"
    "wfq p o'" "ToBigInt o' = total os"
    using fold_succeeds [of p os "NewZeroQuantity p" "total os" "balance_output p typ" "\<lambda>t. Some (Some t)"] assms
    by (auto simp: balance_output_eq list_all_iff)
  have "Cmp i o' = Inr 0" using Cmp_wfq [OF i(2) o'(2)] i(3) o'(3) assms(7) by (simp add: int_cmp_def)
  with i(1) o'(1) ty show ?thesis by (simp add: balance_def assms(2) toks)
qed

text \<open>A transfer of given tokens balances.\<close>

lemma given_balances:
  assumes "prepareTransfer none (Some T) newSelector anchor redeem wallet ty vals owners opts s
      = (Inr (ids, outs), s')"
    and "toTokenIDs opts \<noteq> []" "tGetTokens T (toTokenIDs opts) = Inr toks" "toks \<noteq> []"
    and "list_all (\<lambda>t. tokType t \<noteq> []) toks" "vals \<noteq> []"
  shows "ids = toTokenIDs opts \<and> balance (tPrecision T) (map Some toks) (map (\<lambda>t. Some (Some t)) outs) = Inr ()"
  using assms(1)
proof (cases rule: prepareTransfer_cases)
  case (given toks' inSum outSum tty paid change)
  let ?p = "tPrecision T"
  have toks: "toks' = toks" using assms(3) given(2,4) by simp
  note i = parse_loop_sum [OF given(5) wfq_zero, unfolded toks]
  note g = genOutputs_pays [OF given(7)]
  have wf: "wfq ?p inSum" "wfq ?p outSum" using i g by simp_all
  note c = change_output_ok [OF given(8) wf]
  have tot: "total outs = total toks"
    using change_for_total [OF conjunct1 [OF c]] g i given(9) by simp
  obtain t where t: "t \<in> set toks" using assms(4) by (cases toks) auto
  then obtain q where q: "ToQuantity (tokQuantity t) ?p = Inr q"
    using i by (auto simp: list_all_iff readable_token_def)
  have ch: "list_all (readable_token ?p) change"
    using c wfq_readable [OF q] by (auto simp: list_all_iff readable_token_def)
  have sp: "0 \<le> sint ?p" using q by (simp add: ToQuantity_exact)
  have ex: "\<not> exceeds (total outs) ?p"
    using wfq_not_exceeds [OF wf(1) sp] i tot by simp
  have ty: "list_all (\<lambda>t. tokType t = tty) toks"
    using i assms(5) by (auto simp: list_all_iff)
  have "outs \<noteq> []" using g given(9) assms(6) by auto
  moreover have "list_all (\<lambda>t. tokType t = tty) outs"
    using list_all_pays_type g change_for_type [OF conjunct1 [OF c]] given(9) by auto
  ultimately show ?thesis
    using balance_succeeds [OF assms(4) _ ty _ _ _ tot [symmetric] ex] i g ch given(2,9) by simp
qed (use assms(2) in simp)

section \<open>The transfer that the driver builds\<close>

lemma Transfer_ok:
  assumes "Transfer E S ids outs attrs = Inr (t, md)"
  shows "\<exists>toks. fsGetTokens S ids = Inr (Inputs t, toks) \<and> tOutputs t = map Some outs
    \<and> tMetadata t = SetTransferActionMetadata attrs []
    \<and> tmTokenIDs md = ids \<and> length (tmSenders md) = length toks \<and> length (tmSenderAuditInfos md) = length toks
    \<and> TransferAction_GetSerializedOutputs E t = Inr (tmOutputs md)
    \<and> length (tmOutputsMetadata md) = length outs \<and> length (tmReceivers md) = length outs
    \<and> length (tmReceiverAuditInfos md) = length outs \<and> length (tmReceiverIsSender md) = length outs"
  using assms by (auto simp: Transfer_def Let_def go_simps dest!: rmap_length)

lemma GetSerializedOutputs_length:
  "TransferAction_GetSerializedOutputs E t = Inr os \<Longrightarrow> length os = TransferAction_NumOutputs t"
  by (auto simp: TransferAction_GetSerializedOutputs_def serialize_outputs_def TransferAction_NumOutputs_def
      dest: rmap_length)

lemma Transfer_matches:
  assumes "Transfer E S ids outs attrs = Inr (t, md)" "fsGetTokens S ids = Inr (ks, toks)" "length toks = length ids"
  shows "TransferMetadata_Match md (TransferAction_NumOutputs t) = Inr ()"
  using Transfer_ok [OF assms(1)] assms(2,3)
  by (auto simp: TransferMetadata_Match_def TransferAction_NumOutputs_def dest: GetSerializedOutputs_length)

lemma add_transfer_eq [go_simps]:
  "add_transfer raw md r = (Inr u, r') \<longleftrightarrow> (\<exists>a m. Actions r = Some a \<and> rMetadata r = Some m
     \<and> r' = r\<lparr>Actions := Some (a\<lparr>Transfers := Transfers a @ [raw]\<rparr>),
              rMetadata := Some (m\<lparr>mdTransfers := mdTransfers m @ [md]\<rparr>)\<rparr>)"
  by (auto simp: add_transfer_def Let_def split: option.splits)

lemma finish_transfer_ok:
  assumes "finish_transfer ids outs attrs r = (Inr act, r')" "TokenService r = Some T"
  shows "\<exists>md raw a m. tTransfer T (Anchor r) ids (map Some outs) attrs = Inr (act, md)
    \<and> tVerifyTransfer T act (tmOutputsMetadata md) = Inr () \<and> daSerialize act = Inr raw
    \<and> Actions r = Some a \<and> rMetadata r = Some m
    \<and> r' = r\<lparr>Actions := Some (a\<lparr>Transfers := Transfers a @ [raw]\<rparr>),
             rMetadata := Some (m\<lparr>mdTransfers := mdTransfers m @ [md]\<rparr>)\<rparr>"
  using assms by (auto simp: finish_transfer_def go_simps)

lemma on_locks_eq [go_simps]: "on_locks m (r, s) = (x, u) \<longleftrightarrow> (\<exists>s'. m s = (x, s') \<and> u = (r, s'))"
  by (auto simp: on_locks_def split: prod.splits)

lemma on_request_eq [go_simps]: "on_request m (r, s) = (x, u) \<longleftrightarrow> (\<exists>r'. m r = (x, r') \<and> u = (r', s))"
  by (auto simp: on_request_def split: prod.splits)

lemma Request_Transfer_cases:
  assumes "Request_Transfer none newSelector wallet ty vals owners topts (r, s) = (Inr act, (r', s'))"
  obtains opts ids outs where "compileTransferOptions topts = Inr opts" "list_all (\<lambda>v. v \<noteq> 0) vals"
    "prepareTransfer none (TokenService r) newSelector (Anchor r) False wallet ty vals owners opts s = (Inr (ids, outs), s')"
    "finish_transfer ids outs (toAttributes opts) r = (Inr act, r')"
proof -
  have nz: "list_all (\<lambda>v. v \<noteq> 0) vals \<and> t = u" if "ofor (\<lambda>v. ocheck (v \<noteq> 0) msg) vals u = (Inr (), t)"
    for t u :: "'a Request \<times> 'b" and msg
    using that by (induction vals) (auto simp: go_simps)
  show ?thesis
    using assms that
    by (auto simp: Request_Transfer_def go_simps dest!: nz)
qed

section \<open>Properties of transfers\<close>

text \<open>
  C31: a prepared transfer conserves value. Its outputs are, in the order of the call, one
  output per value, of the asked owner and at most the maximal value, and then the change,
  which goes to the wallet exactly when something is left; together they are worth what is
  spent. What is spent are the given tokens, as the vault has them; or else those that the
  selector has found for the sum of the values, and nothing else has happened to the locks.
\<close>
theorem prepared_transfer_conserves:
  assumes "prepareTransfer none (Some T) newSelector anchor redeem wallet ty vals owners opts s
      = (Inr (ids, outs), s')"
    and "(case toSelector opts of Some x \<Rightarrow> Inr x | None \<Rightarrow> newSelector anchor) = Inr (Select S uuid f)"
    and "sPrecision S = tPrecision T"
  shows "\<exists>tty paid change.
      (if toTokenIDs opts \<noteq> []
       then ids = toTokenIDs opts \<and> s' = s \<and> (\<exists>toks. tGetTokens T ids = Inr toks \<and> total outs = total toks
              \<and> list_all (\<lambda>t. tokType t = tty \<or> tokType t = []) toks)
       else tty = ty \<and> (\<exists>target k us amount. ids = map utId us \<and> total outs = worth us
              \<and> ToBigInt target = total paid \<and> Select S uuid f (Decimal target) ty s = (Inr (ids, amount), s')
              \<and> found_tokens S (listing S f ty) (wanted f ty) target k us amount))
      \<and> tty \<noteq> [] \<and> outs = paid @ change \<and> length vals \<le> length owners
      \<and> list_all2 (pays tty) (zip vals owners) paid \<and> list_all (\<lambda>v. v \<le> tMaxTokenValue T) vals
      \<and> change_for wallet tty (total outs - total paid) change"
  using assms(1)
proof (cases rule: prepareTransfer_cases)
  case (given toks inSum outSum tty paid change)
  note i = parse_loop_sum [OF given(5) wfq_zero] and g = genOutputs_pays [OF given(7)]
  have wf: "wfq (tPrecision T) inSum" "wfq (tPrecision T) outSum" using i g by simp_all
  note c = conjunct1 [OF change_output_ok [OF given(8) wf]]
  have "total outs = total toks" "ToBigInt inSum - ToBigInt outSum = total outs - total paid"
    using change_for_total [OF c] g i given(9) by simp_all
  with c g i given show ?thesis by (intro exI [of _ tty] exI [of _ paid] exI [of _ change]) simp
next
  case (selected sel amount outSum paid change)
  have sel: "sel = Select S uuid f" using selected(2) assms(2) by simp
  note g = genOutputs_pays [OF selected(3)]
  from Select_found [OF selected(5) [unfolded sel]] obtain target k us where
    t: "ToQuantity (Decimal outSum) (sPrecision S) = Inr target" "ids = map utId us"
      "found_tokens S (listing S f ty) (wanted f ty) target k us amount" by blast
  have "0 \<le> sint (sPrecision S)" using t(1) by (simp add: ToQuantity_exact)
  then have "ToQuantity (Decimal outSum) (sPrecision S) = Inr outSum"
    using ToQuantity_text [of "sPrecision S" outSum] g assms(3) by simp
  then have "target = outSum" using t(1) by simp
  note c = selecting.change_after_selection [OF selected(5) [unfolded sel] _ selected(6)]
  have c: "change_for wallet ty (ToBigInt amount - ToBigInt outSum) change" using c g assms(3) by simp
  have "total outs = worth us" "ToBigInt amount - ToBigInt outSum = total outs - total paid"
    using change_for_total [OF c] g t(3) found_amount selected(7) by fastforce+
  with c g selected t sel \<open>target = outSum\<close> show ?thesis
    by (intro exI [of _ ty] exI [of _ paid] exI [of _ change]) auto
qed

subsection \<open>An example\<close>

definition demo_split :: FabTransferAction where
  "demo_split = \<lparr>Inputs = [''k''], tOutputs = [Some (Some token5), Some (Some token5)], tMetadata = []\<rparr>"

definition demo_fab :: fab_tms_env where
  "demo_fab =
     \<lparr>ftEnv = example_fab demo_split,
      ftService = \<lparr>fsGetTokens = (\<lambda>ids. Inr ([''k''], [token10])), fsGetAuditInfo = (\<lambda>i. Inr ''alice''),
        fsHasOwnerWallet = (\<lambda>i. True)\<rparr>,
      marshal_Issue = (\<lambda>i. Inr ''issue''), marshal_Transfer = (\<lambda>t. Inr ''transfer''),
      unmarshal_OutputMetadata = (\<lambda>b. Inr \<lparr>omIssuer = []\<rparr>), ftListAuditTokens = (\<lambda>ids. Inr [Some token10]),
      ftIsMine = (\<lambda>i. Inr True), ftPP = Setup\<rparr>"

definition demo_wallet :: owner_wallet where
  "demo_wallet = \<lparr>GetRecipientIdentity = Inr ''sA''\<rparr>"

lemma demo_tms_simps [simp]:
  "tPrecision (fab_tms demo_fab) = 64" "tMaxTokenValue (fab_tms demo_fab) = - 1"
  "tGraphHiding (fab_tms demo_fab) = False" "tGetTokens (fab_tms demo_fab) ids = Inr [token10]"
  by (simp_all add: fab_tms_def demo_fab_def Setup_def DefaultPrecision_def)

lemma UInt64ToQuantity_64 [simp]: "UInt64ToQuantity u 64 = Inr (UInt64Quantity u)"
  by (simp add: UInt64ToQuantity_def uint_not_exceeds_64 new_quantity_def)

lemma demo_genOutputs:
  "u = 5 \<or> u = 10 \<Longrightarrow> genOutputs (fab_tms demo_fab) [u] [''sA''] ''USD''
     = Inr ([\<lparr>tokOwner = Some ''sA'', tokType = ''USD'', tokQuantity = Hex (UInt64Quantity u)\<rparr>], UInt64Quantity u)"
  by (auto simp: genOutputs_def at_def NewZeroQuantity_def UInt64Quantity_Add_def UInt64Quantity_Cmp_def
      simp del: Hex.simps)

lemma Select_same_target:
  "ToQuantity q (sPrecision S) = ToQuantity q' (sPrecision S) \<Longrightarrow> Select S uuid f q ty s = Select S uuid f q' ty s"
  by (simp add: Select_rounds)

lemma demo_prepared:
  "prepareTransfer (\<lambda>i. i = []) (Some (fab_tms demo_fab))
     (\<lambda>_. Inr (Select (demo_selector [Inr (coin ''a'' ten)]) (Inr ()) None)) ''tx'' False demo_wallet ''USD'' [10] [''sA'']
     \<lparr>toAttributes = [], toSelector = None, toTokenIDs = []\<rparr> (0, no_locks)
   = (Inr ([\<lparr>TxId = ''a'', Index = 0\<rparr>], [token10]), (1, one_lock ''tx''))"
proof -
  let ?S = "demo_selector [Inr (coin ''a'' ten)]"
  have p: "sPrecision ?S = 64" by (simp add: demo_selector_def NewSelector_def)
  have "Select ?S (Inr ()) None (Decimal (UInt64Quantity 10)) ''USD'' (0, no_locks)
      = Select ?S (Inr ()) None ten ''USD'' (0, no_locks)"
    by (rule Select_same_target) (use ToQuantity_text [of 64 "UInt64Quantity 10"] ToQuantity_ten p in simp)
  then have s: "Select ?S (Inr ()) None (Decimal (UInt64Quantity 10)) ''USD'' (0, no_locks)
      = (Inr ([\<lparr>TxId = ''a'', Index = 0\<rparr>], UInt64Quantity 10), (1, one_lock ''tx''))"
    using demo_Select [of "[]"] by simp
  show ?thesis
    by (simp add: prepareTransfer_def demo_genOutputs obind_apply ocheck_def s change_output_def
        UInt64Quantity_Cmp_def token10_def del: Hex.simps Decimal.simps)
qed

theorem prepared_transfer_conserves_witness:
  "\<exists>us. map utId us = [\<lparr>TxId = ''a'', Index = 0\<rparr>] \<and> worth us = total [token10]"
proof -
  let ?S = "demo_selector [Inr (coin ''a'' ten)]"
  have p: "sPrecision ?S = tPrecision (fab_tms demo_fab)" by (simp add: demo_selector_def NewSelector_def)
  from prepared_transfer_conserves [OF demo_prepared _ p, of "Inr ()" None] show ?thesis
    by (simp del: total_simps worth_simps) metis
qed

text \<open>
  C32: a transfer of given tokens that the driver for plain tokens builds for a request is one
  that its validator balances: the action spends the keys that the vault has for the tokens,
  and the check of types and sums accepts it against these tokens. The request gets exactly
  this action and its metadata, which match each other; nothing else changes. The vault
  answers one token per identifier, with a type.
\<close>
theorem built_transfer_balances:
  assumes "Request_Transfer none newSelector wallet ty vals owners topts (r, s) = (Inr act, (r', s'))"
    and "TokenService r = Some (fab_tms F)" and "compileTransferOptions topts = Inr opts"
    and "toTokenIDs opts \<noteq> []" and "vals \<noteq> []"
    and "fsGetTokens (ftService F) (toTokenIDs opts) = Inr (ks, toks)"
    and "length toks = length (toTokenIDs opts)" and "list_all (\<lambda>t. tokType t \<noteq> []) toks"
  shows "\<exists>t md raw a m. driver_payload act = FabTransfer t \<and> Inputs t = ks \<and> marshal_Transfer F t = Inr raw
    \<and> balance (QuantityPrecision (ftPP F)) (map Some toks) (tOutputs t) = Inr ()
    \<and> tmTokenIDs md = toTokenIDs opts \<and> TransferMetadata_Match md (TransferAction_NumOutputs t) = Inr ()
    \<and> TransferAction_GetSerializedOutputs (ftEnv F) t = Inr (tmOutputs md)
    \<and> Actions r = Some a \<and> rMetadata r = Some m
    \<and> r' = r\<lparr>Actions := Some (a\<lparr>Transfers := Transfers a @ [raw]\<rparr>),
             rMetadata := Some (m\<lparr>mdTransfers := mdTransfers m @ [md]\<rparr>)\<rparr>"
proof -
  let ?T = "fab_tms F"
  from Request_Transfer_cases [OF assms(1)] assms(2,3) obtain ids outs where
    p: "prepareTransfer none (Some ?T) newSelector (Anchor r) False wallet ty vals owners opts s = (Inr (ids, outs), s')"
    and fin: "finish_transfer ids outs (toAttributes opts) r = (Inr act, r')" by (metis Inr_inject)
  have toks: "tGetTokens ?T (toTokenIDs opts) = Inr toks" "toks \<noteq> []"
    using assms(4,6,7) by (auto simp: fab_tms_def)
  note bal = given_balances [OF p assms(4) toks assms(8,5)]
  from finish_transfer_ok [OF fin assms(2)] obtain md raw a m where
    t: "tTransfer ?T (Anchor r) ids (map Some outs) (toAttributes opts) = Inr (act, md)" "daSerialize act = Inr raw"
      "Actions r = Some a" "rMetadata r = Some m"
      "r' = r\<lparr>Actions := Some (a\<lparr>Transfers := Transfers a @ [raw]\<rparr>),
             rMetadata := Some (m\<lparr>mdTransfers := mdTransfers m @ [md]\<rparr>)\<rparr>" by blast
  from t(1) obtain u where u: "Transfer (ftEnv F) (ftService F) ids (map Some outs) (toAttributes opts) = Inr (u, md)"
    "act = view_transfer F u" by (auto simp: fab_tms_def go_simps)
  note ok = Transfer_ok [OF u(1)]
  have "ids = toTokenIDs opts" using bal by simp
  with ok assms(6) have k: "Inputs u = ks" "tOutputs u = map (\<lambda>t. Some (Some t)) outs" "tmTokenIDs md = toTokenIDs opts"
    "TransferAction_GetSerializedOutputs (ftEnv F) u = Inr (tmOutputs md)" by (auto simp: comp_def)
  have "TransferMetadata_Match md (TransferAction_NumOutputs u) = Inr ()"
    using Transfer_matches [OF u(1)] assms(6,7) \<open>ids = _\<close> by simp
  moreover have "driver_payload act = FabTransfer u" "marshal_Transfer F u = Inr raw"
    using u(2) t(2) by (auto simp: view_transfer_def)
  moreover have "tPrecision ?T = QuantityPrecision (ftPP F)" by (simp add: fab_tms_def)
  ultimately show ?thesis using bal k t by metis
qed

definition demo_request :: "fab_action Request" where
  "demo_request = NewRequest (Some (fab_tms demo_fab)) ''tx''"

definition demo_spent :: ID where "demo_spent = \<lparr>TxId = ''t'', Index = 0\<rparr>"

definition demo_split_metadata :: TransferMetadata where
  "demo_split_metadata =
     \<lparr>tmTokenIDs = [demo_spent], tmSenders = [''sA''], tmSenderAuditInfos = [''alice''], tmOutputs = [''T'', ''T''],
      tmOutputsMetadata = [[], []], tmReceivers = [''sA'', ''sA''], tmReceiverAuditInfos = [''alice'', ''alice''],
      tmReceiverIsSender = [True, True], tmExtraSigners = []\<rparr>"

lemma example_marshal:
  "marshal_Token (example_fab t) (Some token5) = Inr ''T''" "marshal_OutputMetadata (example_fab t) x = Inr []"
proof -
  have "qval (tokQuantity token5) \<noteq> qval (tokQuantity token10)"
    by (simp add: token5_def token10_def qval_Hex [of 64] del: Hex.simps)
  then have "Some token5 \<noteq> Some token10" by auto
  then show "marshal_Token (example_fab t) (Some token5) = Inr ''T''" "marshal_OutputMetadata (example_fab t) x = Inr []"
    by (simp_all add: example_fab_def env.extend_def)
qed

lemma demo_Transfer:
  "Transfer (ftEnv demo_fab) (ftService demo_fab) [demo_spent] (map Some [token5, token5]) []
     = Inr (demo_split, demo_split_metadata)"
proof -
  have o': "token_owner (Some token5) = Inr ''sA''" by (simp add: token_owner_def token5_def owner_raw_def)
  have n: "tokOwner token5 = Some ''sA''" "tokOwner token10 = Some ''sA''" by (simp_all add: token5_def token10_def)
  show ?thesis
    by (simp add: Transfer_def demo_fab_def owner_raw_def n o' output_receiver_def GetOwnerAuditInfo_def
        example_owner TransferAction_GetSerializedOutputs_def serialize_outputs_def Output_Serialize_def example_marshal
        SetTransferActionMetadata_def demo_split_def demo_split_metadata_def)
qed

lemma demo_prepared_split:
  "prepareTransfer (\<lambda>i. i = []) (Some (fab_tms demo_fab)) newSelector ''tx'' False demo_wallet [] [5] [''sA'']
     \<lparr>toAttributes = [], toSelector = None, toTokenIDs = [demo_spent]\<rparr> s
   = (Inr ([demo_spent], [token5, token5]), s)"
proof -
  have t: "ToQuantity (tokQuantity token10) 64 = Inr (UInt64Quantity 10)" "tokType token10 = ''USD''"
    by (simp_all add: token10_def example_quantity del: Hex.simps)
  show ?thesis
    by (simp add: prepareTransfer_def parseInputIDs_def t demo_genOutputs obind_apply ocheck_def change_output_def
        NewZeroQuantity_def UInt64Quantity_Add_def UInt64Quantity_Cmp_def UInt64Quantity_Sub_def demo_wallet_def
        token5_def del: Hex.simps Decimal.simps)
qed

lemma demo_built:
  "Request_Transfer (\<lambda>i. i = []) newSelector demo_wallet [] [5] [''sA''] [WithTokenIDs [demo_spent]] (demo_request, s)
   = (Inr (view_transfer demo_fab demo_split),
      (demo_request\<lparr>Actions := Some (no_actions\<lparr>Transfers := [''transfer'']\<rparr>),
        rMetadata := Some (no_metadata\<lparr>mdTransfers := [demo_split_metadata]\<rparr>)\<rparr>, s))"
proof -
  have c: "compileTransferOptions [WithTokenIDs [demo_spent]]
     = Inr \<lparr>toAttributes = [], toSelector = None, toTokenIDs = [demo_spent]\<rparr>"
    by (simp add: compileTransferOptions_def WithTokenIDs_def)
  have t: "tTransfer (fab_tms demo_fab) x [demo_spent] (map Some [token5, token5]) []
     = Inr (view_transfer demo_fab demo_split, demo_split_metadata)" for x
    using demo_Transfer by (simp add: fab_tms_def)
  have v: "tVerifyTransfer (fab_tms demo_fab) x y = Inr ()" "daSerialize (view_transfer demo_fab z) = Inr ''transfer''" for x y z
    by (simp_all add: fab_tms_def view_transfer_def demo_fab_def)
  have f: "finish_transfer [demo_spent] [token5, token5] [] demo_request
    = (Inr (view_transfer demo_fab demo_split),
      demo_request\<lparr>Actions := Some (no_actions\<lparr>Transfers := [''transfer'']\<rparr>),
        rMetadata := Some (no_metadata\<lparr>mdTransfers := [demo_split_metadata]\<rparr>)\<rparr>)"
    using t [of "''tx''"]
    by (simp add: finish_transfer_def demo_request_def NewRequest_def obind_apply v add_transfer_def
        no_actions_def no_metadata_def)
  show ?thesis
    using demo_prepared_split [of newSelector s] f
    by (simp add: Request_Transfer_def obind_apply ocheck_def c on_locks_def on_request_def demo_request_def NewRequest_def)
qed

theorem built_transfer_balances_witness:
  "balance 64 [Some token10] (tOutputs demo_split) = Inr ()
   \<and> TransferMetadata_Match demo_split_metadata (TransferAction_NumOutputs demo_split) = Inr ()"
proof -
  have ts: "TokenService demo_request = Some (fab_tms demo_fab)" by (simp add: demo_request_def NewRequest_def)
  have co: "compileTransferOptions [WithTokenIDs [demo_spent]]
     = Inr \<lparr>toAttributes = [], toSelector = None, toTokenIDs = [demo_spent]\<rparr>"
    by (simp add: compileTransferOptions_def WithTokenIDs_def)
  have gt: "fsGetTokens (ftService demo_fab) ids = Inr ([''k''], [token10])" for ids by (simp add: demo_fab_def)
  have "QuantityPrecision (ftPP demo_fab) = 64" by (simp add: demo_fab_def Setup_def DefaultPrecision_def)
  moreover have "tokType token10 = ''USD''" by (simp add: token10_def)
  moreover have "rMetadata demo_request = Some no_metadata" by (simp add: demo_request_def NewRequest_def)
  ultimately show ?thesis
    using built_transfer_balances [OF demo_built ts co _ _ gt]
    by (auto simp: view_transfer_def no_metadata_def demo_request_def NewRequest_def)
qed

section \<open>Valid requests\<close>

text \<open>
  What the request relies on from a driver: an action that it reads says how many outputs it
  has. The driver for plain tokens keeps this promise.
\<close>

locale token_driver =
  fixes T :: "'a tms"
  assumes issue_count: "tDeserializeIssueAction T raw = Inr act \<Longrightarrow> daNumOutputs act = length (daOutputs act)"
    and transfer_count: "tDeserializeTransferAction T raw = Inr act \<Longrightarrow> daNumOutputs act = length (daOutputs act)"

interpretation fab_driver: token_driver "fab_tms F" for F
  by unfold_locales
    (auto simp: fab_tms_def view_issue_def view_transfer_def view_outputs_def IssueAction_NumOutputs_def
      TransferAction_NumOutputs_def go_simps)

lemma ex_unit_iff: "(\<exists>u :: unit. P u) \<longleftrightarrow> P ()"
  by (metis (full_types) old.unit.exhaust)

lemma read_outputs_not_nil:
  "read_outputs T fm i absent True infos owner_info j outs acc \<noteq> Inr None"
  by (induction outs arbitrary: j acc) (auto simp: go_simps split: option.splits if_splits)

lemma read_outputs_Some:
  "read_outputs T fm i absent True infos owner_info j outs acc = Inr r \<Longrightarrow> r \<noteq> None"
  by (cases r) (simp_all add: read_outputs_not_nil)

lemma read_all_each:
  assumes "read_all f xs acc = Inr r" "\<And>x acc. x \<in> set xs \<Longrightarrow> f x acc \<noteq> Inr None"
  shows "r \<noteq> None \<and> (\<forall>x \<in> set xs. \<exists>acc acc'. f x acc = Inr (Some acc'))"
  using assms
proof (induction xs arbitrary: acc)
  case (Cons x xs)
  from Cons.prems(1) obtain y where y: "f x acc = Inr y" by (auto simp: go_simps)
  with Cons.prems(2) [of x acc] obtain acc' where "y = Some acc'" by (cases y) auto
  with y Cons.prems(1) have x: "f x acc = Inr (Some acc')" "read_all f xs acc' = Inr r" by simp_all
  with Cons.IH [OF x(2)] Cons.prems(2) show ?case by (metis list.set_intros(2) set_ConsD)
qed auto

lemma verify_loop_each:
  assumes "verify_loop f xs = Inr b" "\<And>x. x \<in> set xs \<Longrightarrow> f x \<noteq> Inr False"
  shows "b \<and> (\<forall>x \<in> set xs. f x = Inr True)"
  using assms by (induction xs) (auto simp: go_simps split: if_splits)

lemma Match_lengths:
  "IssueMetadata_Match m n = Inr () \<Longrightarrow> n = 1 \<and> length (imTokenInfo m) = n \<and> length (imReceiversAuditInfos m) = n"
  "TransferMetadata_Match m' n = Inr () \<Longrightarrow> length (tmOutputsMetadata m') = n \<and> length (tmReceiverAuditInfos m') = n"
  by (auto simp: IssueMetadata_Match_def TransferMetadata_Match_def split: if_splits)

context token_driver
begin

lemma read_issue_cases:
  assumes "read_issue T fm md (i, raw) acc = Inr r"
  shows "r \<noteq> None \<and> (\<exists>act m. md = Some m \<and> tDeserializeIssueAction T raw = Inr act
     \<and> i < length (mdIssues m) \<and> IssueMetadata_Match (mdIssues m ! i) (length (daOutputs act)) = Inr ())"
proof -
  from assms obtain act m im where a: "tDeserializeIssueAction T raw = Inr act" "md = Some m"
    "Metadata_Issue m i = Inr im" "IssueMetadata_Match im (daNumOutputs act) = Inr ()"
    and ro: "read_outputs T fm i (IssueMetadata_IsOutputAbsent im)
       (length (daOutputs act) = length (imTokenInfo im) \<and> length (imReceiversAuditInfos im) = length (daOutputs act))
       (imTokenInfo im) (\<lambda>j. issue_owner_info T (at (imReceiversAuditInfos im) j)) 0 (daOutputs act) acc = Inr r"
    unfolding read_issue_def by (simp only: go_simps prod.case Let_def deref_eq ex_unit_iff) blast
  have "i < length (mdIssues m)" "im = mdIssues m ! i"
    using a(3) by (auto simp: Metadata_Issue_def split: if_splits)
  moreover have "length (daOutputs act) = length (imTokenInfo im) \<and> length (imReceiversAuditInfos im) = length (daOutputs act)"
    using Match_lengths(1) [OF a(4)] issue_count [OF a(1)] by simp
  with ro have "r \<noteq> None" by (auto dest: read_outputs_Some)
  ultimately show ?thesis using a issue_count [OF a(1)] by auto
qed

lemma read_transfer_cases:
  assumes "read_transfer T fm md (i, raw) acc = Inr r"
  shows "r \<noteq> None \<and> (\<exists>act m. md = Some m \<and> tDeserializeTransferAction T raw = Inr act
     \<and> i < length (mdTransfers m) \<and> TransferMetadata_Match (mdTransfers m ! i) (length (daOutputs act)) = Inr ())"
proof -
  from assms obtain act m tm where a: "tDeserializeTransferAction T raw = Inr act" "md = Some m"
    "Metadata_Transfer m i = Inr tm" "TransferMetadata_Match tm (daNumOutputs act) = Inr ()"
    and ro: "(if length (daOutputs act) \<noteq> length (tmOutputsMetadata tm) \<or> length (tmReceiverAuditInfos tm) \<noteq> length (daOutputs act)
     then Inr None
     else read_outputs T fm i (\<lambda>j. Inr (TransferMetadata_IsOutputAbsent tm j)) True
       (tmOutputsMetadata tm) (\<lambda>j. transfer_owner_info T (at (tmReceiverAuditInfos tm) j)) 0 (daOutputs act) acc) = Inr r"
    unfolding read_transfer_def by (simp only: go_simps prod.case Let_def deref_eq ex_unit_iff) blast
  have "i < length (mdTransfers m)" "tm = mdTransfers m ! i"
    using a(3) by (auto simp: Metadata_Transfer_def split: if_splits)
  moreover have "length (daOutputs act) = length (tmOutputsMetadata tm) \<and> length (tmReceiverAuditInfos tm) = length (daOutputs act)"
    using Match_lengths(2) [OF a(4)] transfer_count [OF a(1)] by simp
  with ro have "r \<noteq> None" by (auto dest: read_outputs_Some)
  ultimately show ?thesis using a transfer_count [OF a(1)] by auto
qed

lemma Outputs_each:
  assumes "outputs_of r fm = Inr os" "TokenService r = Some T" "Actions r = Some acts" "rMetadata r = Some md"
  shows "os \<noteq> None"
    and "i < length (Issues acts) \<Longrightarrow> \<exists>act. tDeserializeIssueAction T (Issues acts ! i) = Inr act \<and> i < length (mdIssues md)
          \<and> IssueMetadata_Match (mdIssues md ! i) (length (daOutputs act)) = Inr ()"
    and "i < length (Transfers acts) \<Longrightarrow> \<exists>act. tDeserializeTransferAction T (Transfers acts ! i) = Inr act
          \<and> i < length (mdTransfers md) \<and> TransferMetadata_Match (mdTransfers md ! i) (length (daOutputs act)) = Inr ()"
proof -
  let ?i = "read_issue T fm (Some md)" and ?t = "read_transfer T fm (Some md)"
  from assms obtain r1 where r1: "read_all ?i (enumerate 0 (Issues acts)) ([], 0) = Inr r1"
    by (auto simp: outputs_of_def go_simps)
  have ni: "?i x acc \<noteq> Inr None" and nt: "?t x acc \<noteq> Inr None" for x acc
    using read_issue_cases [of fm "Some md" "fst x" "snd x" acc None] read_transfer_cases [of fm "Some md" "fst x" "snd x" acc None]
    by auto
  note e1 = read_all_each [OF r1 ni]
  then obtain acc where "r1 = Some acc" by auto
  with assms r1 obtain r2 where r2: "read_all ?t (enumerate 0 (Transfers acts)) acc = Inr r2"
    and os: "os = map_option (\<lambda>(outs, _). NewOutputStream outs (tPrecision T)) r2"
    by (auto simp: outputs_of_def go_simps)
  note e2 = read_all_each [OF r2 nt]
  show "os \<noteq> None" using e2 os by auto
  show "\<exists>act. tDeserializeIssueAction T (Issues acts ! i) = Inr act \<and> i < length (mdIssues md)
          \<and> IssueMetadata_Match (mdIssues md ! i) (length (daOutputs act)) = Inr ()"
    if "i < length (Issues acts)"
  proof -
    have "(i, Issues acts ! i) \<in> set (enumerate 0 (Issues acts))" using that by (simp add: in_set_enumerate_eq)
    with e1 obtain acc acc' where "?i (i, Issues acts ! i) acc = Inr (Some acc')" by blast
    from read_issue_cases [OF this] show ?thesis by auto
  qed
  show "\<exists>act. tDeserializeTransferAction T (Transfers acts ! i) = Inr act
          \<and> i < length (mdTransfers md) \<and> TransferMetadata_Match (mdTransfers md ! i) (length (daOutputs act)) = Inr ()"
    if "i < length (Transfers acts)"
  proof -
    have "(i, Transfers acts ! i) \<in> set (enumerate 0 (Transfers acts))" using that by (simp add: in_set_enumerate_eq)
    with e2 obtain acc acc' where "?t (i, Transfers acts ! i) acc = Inr (Some acc')" by blast
    from read_transfer_cases [OF this] show ?thesis by auto
  qed
qed

lemma IsValid_actions:
  assumes "IsValid none r = Inr ()" "TokenService r = Some T"
  obtains acts md where "Actions r = Some acts" "rMetadata r = Some md"
    "\<And>i. i < length (Issues acts) \<Longrightarrow> \<exists>act. tDeserializeIssueAction T (Issues acts ! i) = Inr act \<and> i < length (mdIssues md)
        \<and> IssueMetadata_Match (mdIssues md ! i) (daNumOutputs act) = Inr () \<and> None \<notin> set (daOutputs act)
        \<and> tVerifyIssue T act (imTokenInfo (mdIssues md ! i)) = Inr ()"
    "\<And>i. i < length (Transfers acts) \<Longrightarrow> \<exists>act. tDeserializeTransferAction T (Transfers acts ! i) = Inr act \<and> i < length (mdTransfers md)
        \<and> TransferMetadata_Match (mdTransfers md ! i) (daNumOutputs act) = Inr () \<and> None \<notin> set (daOutputs act)
        \<and> tVerifyTransfer T act (tmOutputsMetadata (mdTransfers md ! i)) = Inr ()"
proof -
  from assms obtain acts md os where am: "Actions r = Some acts" "rMetadata r = Some md"
    and os: "outputs_of r False = Inr os"
    by (auto simp: IsValid_def Outputs_def go_simps split: option.splits)
  note each = Outputs_each [OF os assms(2) am]
  from assms am os obtain b where b: "verify_loop (verify_issue_action T md) (enumerate 0 (Issues acts)) = Inr b"
    by (auto simp: IsValid_def go_simps)
  have ni: "verify_issue_action T md x \<noteq> Inr False" if x: "x \<in> set (enumerate 0 (Issues acts))" for x
  proof -
    have "fst x < length (Issues acts)" "snd x = Issues acts ! fst x" using x by (simp_all add: in_set_enumerate_eq)
    then obtain i where i: "x = (i, Issues acts ! i)" "i < length (Issues acts)" by (metis prod.collapse)
    from each(2) [OF i(2)] Match_lengths(1) show ?thesis
      by (auto simp: verify_issue_action_def i(1) at_def Let_def go_simps)
  qed
  note vi = verify_loop_each [OF b ni]
  with assms am b obtain c where c: "verify_loop (verify_transfer_action T md) (enumerate 0 (Transfers acts)) = Inr c"
    by (auto simp: IsValid_def go_simps)
  have "verify_transfer_action T md x \<noteq> Inr False" for x
    by (cases x) (auto simp: verify_transfer_action_def Let_def go_simps split: if_splits)
  note vt = verify_loop_each [OF c this]
  show ?thesis
  proof (rule that [OF am])
    fix i assume i: "i < length (Issues acts)"
    then have "verify_issue_action T md (i, Issues acts ! i) = Inr True" using vi by (auto simp: in_set_enumerate_eq)
    with each(2) [OF i] issue_count show "\<exists>act. tDeserializeIssueAction T (Issues acts ! i) = Inr act \<and> i < length (mdIssues md)
        \<and> IssueMetadata_Match (mdIssues md ! i) (daNumOutputs act) = Inr () \<and> None \<notin> set (daOutputs act)
        \<and> tVerifyIssue T act (imTokenInfo (mdIssues md ! i)) = Inr ()"
      by (auto simp: verify_issue_action_def at_def Let_def go_simps split: if_splits)
  next
    fix i assume i: "i < length (Transfers acts)"
    then have "verify_transfer_action T md (i, Transfers acts ! i) = Inr True" using vt by (auto simp: in_set_enumerate_eq)
    with each(3) [OF i] transfer_count show "\<exists>act. tDeserializeTransferAction T (Transfers acts ! i) = Inr act \<and> i < length (mdTransfers md)
        \<and> TransferMetadata_Match (mdTransfers md ! i) (daNumOutputs act) = Inr () \<and> None \<notin> set (daOutputs act)
        \<and> tVerifyTransfer T act (tmOutputsMetadata (mdTransfers md ! i)) = Inr ()"
      by (auto simp: verify_transfer_action_def at_def Let_def go_simps split: if_splits)
  qed
qed

end

section \<open>The indices of the outputs\<close>

definition numbered :: "StreamOutput list \<times> u64 \<Rightarrow> bool" where
  "numbered acc \<longleftrightarrow> snd acc = of_nat (length (fst acc)) \<and> map oIndex (fst acc) = map of_nat [0..<length (fst acc)]"

lemma numbered_start [simp]: "numbered ([], 0)"
  by (simp add: numbered_def)

lemma numbered_snoc:
  "numbered acc \<Longrightarrow> oIndex x = snd acc \<Longrightarrow> numbered (fst acc @ [x], snd acc + 1)"
  by (simp add: numbered_def)

lemma read_output_index: "read_output T i raw info owner_info n = Inr x \<Longrightarrow> oIndex x = n"
  by (auto simp: read_output_def go_simps)

lemma read_outputs_numbered:
  assumes "read_outputs T fm i absent ok infos owner_info j outs acc = Inr (Some acc')" "numbered acc"
  shows "numbered acc' \<and> (fm \<longrightarrow> length (fst acc') = length (fst acc) + length outs)"
  using assms
proof (induction outs arbitrary: j acc)
  case (Cons out outs)
  from Cons.prems(1) obtain raw b where raw: "out = Some (Inr raw)" and b: "absent j = Inr b"
    by (cases out) (auto simp: go_simps)
  show ?case
  proof (cases b)
    case True
    with Cons raw b show ?thesis by (auto split: if_splits)
  next
    case False
    with Cons.prems raw b obtain info x where x: "read_output T i raw info (owner_info j) (snd acc) = Inr x"
      and r: "read_outputs T fm i absent ok infos owner_info (j + 1) outs (fst acc @ [x], snd acc + 1) = Inr (Some acc')"
      by (auto simp: go_simps split: if_splits)
    from Cons.IH [OF r numbered_snoc [OF Cons.prems(2) read_output_index [OF x]]] show ?thesis by simp
  qed
qed simp

text \<open>The number of outputs of an action, as it is read.\<close>

definition num_outputs :: "(bytes \<Rightarrow> 'a driver_action res) \<Rightarrow> bytes \<Rightarrow> nat" where
  "num_outputs read raw = (case read raw of Inl e \<Rightarrow> 0 | Inr act \<Rightarrow> length (daOutputs act))"

lemma read_all_numbered:
  assumes "read_all f xs acc = Inr (Some acc')" "numbered acc"
    and "\<And>x acc acc'. f x acc = Inr (Some acc') \<Longrightarrow> numbered acc \<Longrightarrow>
      numbered acc' \<and> (fm \<longrightarrow> length (fst acc') = length (fst acc) + n (snd x))"
  shows "numbered acc' \<and> (fm \<longrightarrow> length (fst acc') = length (fst acc) + sum_list (map n (map snd xs)))"
  using assms(1,2)
proof (induction xs arbitrary: acc)
  case (Cons x xs)
  from Cons.prems(1) obtain acc1 where x: "f x acc = Inr (Some acc1)" and r: "read_all f xs acc1 = Inr (Some acc')"
    by (auto simp: go_simps split: option.splits)
  from assms(3) [OF x Cons.prems(2)] Cons.IH [OF r] show ?case by auto
qed simp

lemma read_issue_numbered:
  assumes "read_issue T fm md x acc = Inr (Some acc')" "numbered acc"
  shows "numbered acc' \<and> (fm \<longrightarrow> length (fst acc') = length (fst acc) + num_outputs (tDeserializeIssueAction T) (snd x))"
proof -
  obtain i raw where x: "x = (i, raw)" by force
  from assms(1) obtain act absent ok infos owner_info where act: "tDeserializeIssueAction T raw = Inr act"
    and ro: "read_outputs T fm i absent ok infos owner_info 0 (daOutputs act) acc = Inr (Some acc')"
    unfolding read_issue_def x by (simp only: go_simps prod.case Let_def) blast
  from read_outputs_numbered [OF ro assms(2)] act show ?thesis by (simp add: num_outputs_def x)
qed

lemma read_transfer_numbered:
  assumes "read_transfer T fm md x acc = Inr (Some acc')" "numbered acc"
  shows "numbered acc' \<and> (fm \<longrightarrow> length (fst acc') = length (fst acc) + num_outputs (tDeserializeTransferAction T) (snd x))"
proof -
  obtain i raw where x: "x = (i, raw)" by force
  from assms(1) obtain act m where act: "tDeserializeTransferAction T raw = Inr act"
    and ro: "(if length (daOutputs act) \<noteq> length (tmOutputsMetadata m) \<or> length (tmReceiverAuditInfos m) \<noteq> length (daOutputs act)
     then Inr None
     else read_outputs T fm i (\<lambda>j. Inr (TransferMetadata_IsOutputAbsent m j)) True
       (tmOutputsMetadata m) (\<lambda>j. transfer_owner_info T (at (tmReceiverAuditInfos m) j)) 0 (daOutputs act) acc) = Inr (Some acc')"
    unfolding read_transfer_def x by (simp only: go_simps prod.case Let_def) blast
  from ro obtain absent infos owner_info where "read_outputs T fm i absent True infos owner_info 0 (daOutputs act) acc = Inr (Some acc')"
    by (simp only: sum.inject option.distinct split: if_splits)
  from read_outputs_numbered [OF this assms(2)] act show ?thesis by (simp add: num_outputs_def x)
qed

lemma read_issues_numbered:
  assumes "read_all (read_issue T fm md) (enumerate n xs) acc = Inr (Some acc')" "numbered acc"
  shows "numbered acc' \<and> (fm \<longrightarrow> length (fst acc') = length (fst acc) + sum_list (map (num_outputs (tDeserializeIssueAction T)) xs))"
proof -
  have "numbered acc' \<and> (fm \<longrightarrow> length (fst acc') = length (fst acc)
      + sum_list (map (num_outputs (tDeserializeIssueAction T)) (map snd (enumerate n xs))))"
    by (rule read_all_numbered [OF assms]) (rule read_issue_numbered)
  then show ?thesis by simp
qed

lemma read_transfers_numbered:
  assumes "read_all (read_transfer T fm md) (enumerate n xs) acc = Inr (Some acc')" "numbered acc"
  shows "numbered acc' \<and> (fm \<longrightarrow> length (fst acc') = length (fst acc) + sum_list (map (num_outputs (tDeserializeTransferAction T)) xs))"
proof -
  have "numbered acc' \<and> (fm \<longrightarrow> length (fst acc') = length (fst acc)
      + sum_list (map (num_outputs (tDeserializeTransferAction T)) (map snd (enumerate n xs))))"
    by (rule read_all_numbered [OF assms]) (rule read_transfer_numbered)
  then show ?thesis by simp
qed

section \<open>Properties of requests\<close>

text \<open>
  C33: what a valid request has passed. Every action of a request that \<open>IsValid\<close> accepts is
  read by the driver, has metadata at its place that match it, has no nil output, and has been
  verified by the driver against the openings of its outputs: no action is skipped. The driver
  reports the number of outputs of an action truthfully, as the one for plain tokens does.
\<close>
theorem valid_request_verified:
  assumes "IsValid none r = Inr ()" and "TokenService r = Some T" and "token_driver T"
  shows "\<exists>acts md. Actions r = Some acts \<and> rMetadata r = Some md
    \<and> (\<forall>i < length (Issues acts). \<exists>act. tDeserializeIssueAction T (Issues acts ! i) = Inr act \<and> i < length (mdIssues md)
        \<and> IssueMetadata_Match (mdIssues md ! i) (daNumOutputs act) = Inr () \<and> None \<notin> set (daOutputs act)
        \<and> tVerifyIssue T act (imTokenInfo (mdIssues md ! i)) = Inr ())
    \<and> (\<forall>i < length (Transfers acts). \<exists>act. tDeserializeTransferAction T (Transfers acts ! i) = Inr act \<and> i < length (mdTransfers md)
        \<and> TransferMetadata_Match (mdTransfers md ! i) (daNumOutputs act) = Inr () \<and> None \<notin> set (daOutputs act)
        \<and> tVerifyTransfer T act (tmOutputsMetadata (mdTransfers md ! i)) = Inr ())"
  by (rule token_driver.IsValid_actions [OF assms(3,1,2)]) blast

definition demo_request_of :: "TransferMetadata \<Rightarrow> fab_action Request" where
  "demo_request_of md = demo_request\<lparr>Actions := Some (no_actions\<lparr>Transfers := [''transfer'']\<rparr>),
        rMetadata := Some (no_metadata\<lparr>mdTransfers := [md]\<rparr>)\<rparr>"

lemma demo_request_simps [simp]:
  "TokenService (demo_request_of md) = Some (fab_tms demo_fab)"
  "Actions (demo_request_of md) = Some (no_actions\<lparr>Transfers := [''transfer'']\<rparr>)"
  "rMetadata (demo_request_of md) = Some (no_metadata\<lparr>mdTransfers := [md]\<rparr>)"
  by (simp_all add: demo_request_of_def demo_request_def NewRequest_def)

lemma demo_reads [simp]:
  "tDeserializeTransferAction (fab_tms demo_fab) raw = Inr (view_transfer demo_fab demo_split)"
  "daNumOutputs (view_transfer demo_fab demo_split) = 2"
  "tVerifyTransfer (fab_tms demo_fab) act infos = Inr ()"
  "tGetEnrollmentID (fab_tms demo_fab) ''alice'' = Inr ''alice''"
  by (simp_all add: fab_tms_def demo_fab_def view_transfer_def TransferAction_NumOutputs_def demo_split_def
      example_fab_def env.extend_def GetEnrollmentID_def example_env_def)

lemma demo_outputs [simp]: "daOutputs (view_transfer demo_fab demo_split) = [Some (Inr ''T''), Some (Inr ''T'')]"
  by (simp add: view_transfer_def view_outputs_def demo_split_def Output_Serialize_def
      demo_fab_def example_marshal)

lemma demo_valid: "IsValid (\<lambda>i. i = []) (demo_request_of demo_split_metadata) = Inr ()"
  by (simp add: IsValid_def Request_Inputs_def inputs_of_request_def Outputs_def outputs_of_def read_transfer_def
      read_transfer_inputs_def Metadata_Transfer_def TransferMetadata_Match_def TransferMetadata_IsInputAbsent_def
      TransferMetadata_IsOutputAbsent_def verify_transfer_action_def no_actions_def no_metadata_def
      demo_split_metadata_def at_def)

theorem valid_request_verified_witness:
  "TransferMetadata_Match demo_split_metadata 2 = Inr () \<and> 0 < length (mdTransfers (no_metadata\<lparr>mdTransfers := [demo_split_metadata]\<rparr>))"
  using valid_request_verified [OF demo_valid demo_request_simps(1) fab_driver.token_driver_axioms] by simp

text \<open>
  The index of an output is its rank among the outputs that are returned. An audit, which
  fails on a missing opening, returns every output of every action, so there it is the
  absolute position in the request. Otherwise the outputs whose opening was filtered out are
  not counted, and the index, from which \<open>Output.ID\<close> makes the identifier of the token, is
  too small behind them: the witness has the second output of a transfer at index 0.
\<close>
theorem output_indices:
  assumes "outputs_of r failOnMissing = Inr (Some os)" and "TokenService r = Some T" and "Actions r = Some acts"
  shows "map oIndex (osOutputs os) = map of_nat [0..<length (osOutputs os)]
    \<and> (failOnMissing \<longrightarrow> length (osOutputs os)
        = sum_list (map (num_outputs (tDeserializeIssueAction T)) (Issues acts))
          + sum_list (map (num_outputs (tDeserializeTransferAction T)) (Transfers acts)))"
proof -
  from assms obtain acc acc' where
    i: "read_all (read_issue T failOnMissing (rMetadata r)) (enumerate 0 (Issues acts)) ([], 0) = Inr (Some acc)"
    and t: "read_all (read_transfer T failOnMissing (rMetadata r)) (enumerate 0 (Transfers acts)) acc = Inr (Some acc')"
    and os: "osOutputs os = fst acc'"
    by (auto simp: outputs_of_def go_simps NewOutputStream_def split: option.splits)
  note ni = read_issues_numbered [OF i numbered_start]
  from ni read_transfers_numbered [OF t conjunct1 [OF ni]] os show ?thesis by (simp add: numbered_def)
qed

definition demo_filtered_metadata :: TransferMetadata where
  "demo_filtered_metadata = demo_split_metadata\<lparr>tmTokenIDs := [], tmOutputsMetadata := [[], ''i'']\<rparr>"

lemma demo_filtered_outputs:
  "\<exists>x. outputs_of (demo_request_of demo_filtered_metadata) False = Inr (Some \<lparr>osPrecision = 64, osOutputs = [x]\<rparr>)"
proof -
  have t: "tDeserializeToken (fab_tms demo_fab) ''T'' ''i'' = Inr (token5, [])"
    by (simp add: fab_tms_def demo_fab_def DeserializeToken_def example_fab_def env.extend_def)
  have q: "ToQuantity (tokQuantity token5) 64 = Inr (UInt64Quantity 5)" "tokOwner token5 = Some ''sA''"
    by (simp_all add: token5_def example_quantity del: Hex.simps)
  show ?thesis
    by (simp add: outputs_of_def read_transfer_def Metadata_Transfer_def TransferMetadata_Match_def read_output_def
        TransferMetadata_IsOutputAbsent_def transfer_owner_info_def no_actions_def no_metadata_def t q owner_raw_def
        demo_filtered_metadata_def demo_split_metadata_def at_def NewOutputStream_def)
qed

theorem output_indices_witness:
  "\<exists>x. outputs_of (demo_request_of demo_filtered_metadata) False = Inr (Some \<lparr>osPrecision = 64, osOutputs = [x]\<rparr>)
     \<and> oIndex x = 0 \<and> TransferMetadata_IsOutputAbsent demo_filtered_metadata 0 \<and> \<not> TransferMetadata_IsOutputAbsent demo_filtered_metadata 1"
proof -
  obtain x where x: "outputs_of (demo_request_of demo_filtered_metadata) False = Inr (Some \<lparr>osPrecision = 64, osOutputs = [x]\<rparr>)"
    using demo_filtered_outputs by blast
  have "oIndex x = 0" using output_indices [OF x demo_request_simps(1,2)] by simp
  with x show ?thesis
    by (simp add: TransferMetadata_IsOutputAbsent_def demo_filtered_metadata_def demo_split_metadata_def)
qed

end
