(* ===== verification/Request_Effects.thy ===== *)
theory Request_Effects
  imports Request_Properties
begin

text \<open>
  What an operation that fails leaves in a request, and the round trip of a request through
  bytes.
\<close>

section \<open>Failed operations\<close>

lemma finish_transfer_failed:
  assumes "finish_transfer ids outs attrs r = (Inl e, r')" "Actions r = Some a" "rMetadata r = Some m"
  shows "r' = r"
  using assms by (auto simp: finish_transfer_def add_transfer_def Let_def go_simps)

lemma Request_Transfer_failed:
  assumes "Request_Transfer none newSelector wallet ty vals owners topts (r, s) = (Inl e, (r', s'))"
    and "Actions r = Some a" "rMetadata r = Some m"
  shows "r' = r"
proof -
  have c: "t = u" if "ofor (\<lambda>v. ocheck (v \<noteq> 0) msg) vals u = (x, t)" for t u :: "'a Request \<times> 'b" and x msg
    using that by (induction vals) (auto simp: ocheck_def obind_apply rcheck_def split: if_splits)
  show ?thesis using assms finish_transfer_failed
    by (auto simp: Request_Transfer_def go_simps dest!: c)
qed

lemma add_issue_eq: "Actions r = Some a \<Longrightarrow>
    add_issue raw r = (Inr (), r\<lparr>Actions := Some (a\<lparr>Issues := Issues a @ [raw]\<rparr>)\<rparr>)"
  by (simp add: add_issue_def)

lemma Request_Issue_failed:
  assumes "Request_Issue none iwallet receiver ty q iopts r = (Inl e, r')"
    and "Actions r = Some a" "rMetadata r = Some m"
  shows "r' = r \<or> (\<exists>raw. r' = r\<lparr>Actions := Some (a\<lparr>Issues := Issues a @ [raw]\<rparr>)\<rparr>)"
proof (cases iwallet)
  case None
  with assms(1) show ?thesis by (simp add: Request_Issue_def)
next
  case (Some w)
  with assms show ?thesis
    by (auto simp: Request_Issue_def go_simps add_issue_eq add_issue_metadata_def)
qed

text \<open>
  A transfer that fails leaves the request as it was. An issue that fails does too, or it
  leaves its action behind without metadata, when the driver cannot serialize the outputs or
  has no audit information for the receiver; a request in which actions and metadata matched
  in number is then never valid again.
\<close>
theorem failed_operations:
  assumes "Actions r = Some a" and "rMetadata r = Some m" and "length (mdIssues m) = length (Issues a)"
    and "TokenService r = Some T" and "token_driver T"
  shows "(Request_Transfer none newSelector wallet ty vals owners topts (r, s) = (Inl e, (r1, s1)) \<longrightarrow> r1 = r)
    \<and> (Request_Issue none iwallet receiver ty q iopts r = (Inl e, r2) \<longrightarrow>
        r2 = r \<or> (\<exists>raw. r2 = r\<lparr>Actions := Some (a\<lparr>Issues := Issues a @ [raw]\<rparr>)\<rparr>) \<and> IsValid none r2 \<noteq> Inr ())"
proof (intro conjI impI)
  assume "Request_Transfer none newSelector wallet ty vals owners topts (r, s) = (Inl e, (r1, s1))"
  then show "r1 = r" by (rule Request_Transfer_failed [OF _ assms(1,2)])
next
  assume "Request_Issue none iwallet receiver ty q iopts r = (Inl e, r2)"
  from Request_Issue_failed [OF this assms(1,2)]
  show "r2 = r \<or> (\<exists>raw. r2 = r\<lparr>Actions := Some (a\<lparr>Issues := Issues a @ [raw]\<rparr>)\<rparr>) \<and> IsValid none r2 \<noteq> Inr ()"
  proof
    assume "\<exists>raw. r2 = r\<lparr>Actions := Some (a\<lparr>Issues := Issues a @ [raw]\<rparr>)\<rparr>"
    then obtain raw where r2: "r2 = r\<lparr>Actions := Some (a\<lparr>Issues := Issues a @ [raw]\<rparr>)\<rparr>" by blast
    have "IsValid none r2 \<noteq> Inr ()"
    proof
      assume v: "IsValid none r2 = Inr ()"
      have ts: "TokenService r2 = Some T" using assms(4) r2 by simp
      show False
      proof (rule token_driver.IsValid_actions [OF assms(5) v ts])
        fix acts md
        assume "Actions r2 = Some acts" "rMetadata r2 = Some md"
        then have am: "acts = a\<lparr>Issues := Issues a @ [raw]\<rparr>" "md = m" using assms(1,2) r2 by simp_all
        assume "\<And>i. i < length (Issues acts) \<Longrightarrow> \<exists>act. tDeserializeIssueAction T (Issues acts ! i) = Inr act \<and> i < length (mdIssues md)
          \<and> IssueMetadata_Match (mdIssues md ! i) (daNumOutputs act) = Inr () \<and> None \<notin> set (daOutputs act)
          \<and> tVerifyIssue T act (imTokenInfo (mdIssues md ! i)) = Inr ()"
        from this [of "length (Issues a)"] am assms(3) show False by simp
      qed
    qed
    with r2 show ?thesis by blast
  qed simp
qed

definition demo_unaudited :: fab_tms_env where
  "demo_unaudited = demo_fab\<lparr>ftService := (ftService demo_fab)\<lparr>fsGetAuditInfo := (\<lambda>i. Inl (Err ''no audit info''))\<rparr>\<rparr>"

definition demo_issuing :: "fab_action Request" where
  "demo_issuing = NewRequest (Some (fab_tms demo_unaudited)) ''tx''"

lemma demo_issuing_simps [simp]:
  "Actions demo_issuing = Some no_actions" "rMetadata demo_issuing = Some no_metadata"
  "TokenService demo_issuing = Some (fab_tms demo_unaudited)"
  by (simp_all add: demo_issuing_def NewRequest_def)

lemma demo_issue_fails:
  "Request_Issue (\<lambda>i. i = []) (Some (\<lambda>_. Inr ''I'')) ''sA'' ''USD'' 5 [] demo_issuing
   = (Inl (Err ''no audit info''), demo_issuing\<lparr>Actions := Some (no_actions\<lparr>Issues := Issues no_actions @ [''issue'']\<rparr>)\<rparr>)"
proof -
  have t: "\<lparr>tokOwner = Some ''sA'', tokType = ''USD'', tokQuantity = Hex (UInt64Quantity 5)\<rparr> = token5"
    by (simp add: token5_def)
  have i: "tIssue (fab_tms demo_unaudited) ''I'' ''USD'' [5] [''sA''] x
    = Inr (view_issue demo_unaudited \<lparr>Issuer = ''I'', iOutputs = [Some (Some token5)], iMetadata = []\<rparr>, [[]], ''I'')" for x
    by (simp add: fab_tms_def Issue_def issue_output_def demo_unaudited_def demo_fab_def Setup_def DefaultPrecision_def
        at_def example_marshal t del: Hex.simps)
  have o': "daSerialize (view_issue demo_unaudited x) = Inr ''issue''" for x
    by (simp add: view_issue_def demo_unaudited_def demo_fab_def)
  have g: "daGetSerializedOutputs (view_issue demo_unaudited \<lparr>Issuer = ''I'', iOutputs = [Some (Some token5)], iMetadata = []\<rparr>) = Inr [''T'']"
    by (simp add: view_issue_def IssueAction_GetSerializedOutputs_def serialize_outputs_def Output_Serialize_def
        demo_unaudited_def demo_fab_def example_marshal)
  have m: "tMaxTokenValue (fab_tms demo_unaudited) = - 1" "tGetAuditInfo (fab_tms demo_unaudited) x = Inl (Err ''no audit info'')" for x
    by (simp_all add: fab_tms_def demo_unaudited_def demo_fab_def Setup_def)
  show ?thesis
    by (simp add: Request_Issue_def obind_apply ocheck_def compileIssueOptions_def i o' g m add_issue_eq)
qed

theorem failed_operations_witness:
  "IsValid (\<lambda>i. i = []) (demo_issuing\<lparr>Actions := Some (no_actions\<lparr>Issues := Issues no_actions @ [''issue'']\<rparr>)\<rparr>) \<noteq> Inr ()"
proof -
  have l: "length (mdIssues no_metadata) = length (Issues no_actions)" by (simp add: no_metadata_def no_actions_def)
  let ?r = "demo_issuing\<lparr>Actions := Some (no_actions\<lparr>Issues := Issues no_actions @ [''issue'']\<rparr>)\<rparr>"
  have n: "?r \<noteq> demo_issuing"
  proof
    assume "?r = demo_issuing"
    then have "Actions ?r = Actions demo_issuing" by (rule arg_cong)
    then show False by (simp add: no_actions_def)
  qed
  from conjunct2 [OF failed_operations [OF demo_issuing_simps(1,2) l demo_issuing_simps(3) fab_driver.token_driver_axioms],
      THEN mp, OF demo_issue_fails] n
  show ?thesis by simp
qed

section \<open>The round trip\<close>

text \<open>
  C35: a request survives its serialization: what \<open>Bytes\<close> writes, \<open>FromBytes\<close> reads back
  into any request that has actions and metadata, overwriting them; the anchor, the actions
  with their signatures, and the metadata are the same (the application's map as a map), and
  the token service of the reader stays. The codec reads back what it writes, and an encoded
  sequence is not empty.
\<close>
theorem request_roundtrip:
  assumes "asn1_request_laws A" and "Request_Bytes A r = Inr raw"
    and "Actions r0 = Some a0" and "rMetadata r0 = Some m0"
    and "\<forall>md. rMetadata r = Some md \<longrightarrow> distinct (map fst (mdApplication md))"
  shows "\<exists>r1 md md1. Request_FromBytes A raw r0 = (Inr (), r1) \<and> Anchor r1 = Anchor r \<and> Actions r1 = Actions r
    \<and> rMetadata r = Some md \<and> rMetadata r1 = Some md1 \<and> mdIssues md1 = mdIssues md \<and> mdTransfers md1 = mdTransfers md
    \<and> map_of (mdApplication md1) = map_of (mdApplication md) \<and> TokenService r1 = TokenService r0"
proof -
  from assms(2) obtain a md req meta where a: "Actions r = Some a" "asn1_marshal_request A a = Inr req"
    and md: "rMetadata r = Some md" "TokenRequestMetadata_Bytes (asn1.truncate A) md = Inr meta"
    and ser: "asn1_marshal_ser A \<lparr>serTxID = Anchor r, serActions = req, serMetadata = meta\<rparr> = Inr raw"
    by (auto simp: Request_Bytes_def RequestToBytes_def MetadataToBytes_def go_simps split: option.splits)
  have laws: "asn1_laws (asn1.truncate A)" "req \<noteq> []" "asn1_unmarshal_request A req = Inr a"
    "asn1_unmarshal_ser A raw = Inr \<lparr>serTxID = Anchor r, serActions = req, serMetadata = meta\<rparr>"
    using assms(1) a(2) ser by (auto simp: asn1_request_laws_def)
  from Bytes_marshalled [OF md(2)] obtain x where "asn1_marshal_metadata A x = Inr meta"
    by (auto simp: asn1.truncate_def)
  then have "meta \<noteq> []" using assms(1) by (auto simp: asn1_request_laws_def)
  from metadata_read_back [OF laws(1) _ md(2)] assms(5) md(1) obtain md1 where
    "TokenRequestMetadata_FromBytes (asn1.truncate A) meta m0 = (Inr (), md1)" "mdIssues md1 = mdIssues md"
    "mdTransfers md1 = mdTransfers md" "map_of (mdApplication md1) = map_of (mdApplication md)" by auto
  with laws \<open>meta \<noteq> []\<close> a(1) md(1) assms(3,4) show ?thesis
    by (simp add: Request_FromBytes_def obind_apply)
qed

definition demo_codec :: asn1_request where
  "demo_codec = asn1.extend demo_asn1
     \<lparr>asn1_marshal_request = (\<lambda>x. if x = no_actions then Inr ''a'' else Inl (Err ''asn1'')),
      asn1_unmarshal_request = (\<lambda>b. if b = ''a'' then Inr no_actions else Inl (Err ''asn1'')),
      asn1_marshal_ser = (\<lambda>x. if x = \<lparr>serTxID = ''tx'', serActions = ''a'', serMetadata = ''s''\<rparr>
          then Inr ''r'' else Inl (Err ''asn1'')),
      asn1_unmarshal_ser = (\<lambda>b. if b = ''r'' then Inr \<lparr>serTxID = ''tx'', serActions = ''a'', serMetadata = ''s''\<rparr>
          else Inl (Err ''asn1''))\<rparr>"

definition demo_sent :: "fab_action Request" where
  "demo_sent = \<lparr>Anchor = ''tx'', Actions = Some no_actions, rMetadata = Some demo_metadata, TokenService = None\<rparr>"

theorem request_roundtrip_witness:
  "\<exists>r1. Request_FromBytes demo_codec ''r'' (NewRequest None ''other'' :: fab_action Request) = (Inr (), r1)
     \<and> Anchor r1 = ''tx'' \<and> Actions r1 = Some no_actions"
proof -
  have t: "asn1.truncate demo_codec = demo_asn1"
    by (simp add: demo_codec_def asn1.truncate_def asn1.extend_def)
  have l: "asn1_request_laws demo_codec"
    unfolding asn1_request_laws_def t
    by (simp add: demo_codec_def asn1.extend_def asn1_laws_def demo_asn1_def Let_def)
  have i: "mdIssues demo_metadata = []" "distinct (map fst (mdApplication demo_metadata))" by (simp_all add: demo_metadata_def)
  have "TokenRequestMetadata_Bytes demo_asn1 demo_metadata = Inr ''s''"
    by (simp add: TokenRequestMetadata_Bytes_def MarshalMeta_def demo_asn1_def Let_def i)
  then have b: "Request_Bytes demo_codec demo_sent = Inr ''r''"
    by (simp add: Request_Bytes_def RequestToBytes_def MetadataToBytes_def t demo_sent_def)
      (simp add: demo_codec_def asn1.extend_def)
  have m: "\<forall>md. rMetadata demo_sent = Some md \<longrightarrow> distinct (map fst (mdApplication md))" using i by (simp add: demo_sent_def)
  have n: "Actions (NewRequest None ''other'' :: fab_action Request) = Some no_actions"
    "rMetadata (NewRequest None ''other'' :: fab_action Request) = Some no_metadata" by (simp_all add: NewRequest_def)
  from request_roundtrip [OF l b n m] show ?thesis by (auto simp: demo_sent_def)
qed

end
