(* ===== verification/TokenStore.thy ===== *)
theory TokenStore
  imports Quantity RWSet
begin

text \<open>
  The token store of a node (\<open>token/services/network/processor/common.go\<close>,
  \<open>events.go\<close>, \<open>marshaller.go\<close>): how a token that was found in a transaction enters the
  vault, in the clear, under its own key and under one key for each wallet that owns it, and
  how it leaves it. The read-write set of the vault and the publisher of events are
  parameters: \<open>GetState\<close> and \<open>GetStateMetadata\<close> read the committed state. JSON is a
  parameter as well. Debug logging is taken to be off. Tokens are given by pointers that are
  not nil: the processors, the only callers, skip a nil token.
\<close>

section \<open>Events\<close>

definition AddToken :: string where "AddToken = ''store-token''"
definition DeleteToken :: string where "DeleteToken = ''delete-token''"
definition UpdateToken :: string where "UpdateToken = ''update-token''"

record TokenMessage =
  WalletID :: string
  TokenType :: string
  msgTxID :: string
  msgIndex :: u64

record TokenProcessorEvent =
  evTopic :: string
  evMessage :: TokenMessage

definition NewTokenProcessorEvent :: "string \<Rightarrow> TokenMessage \<Rightarrow> TokenProcessorEvent" where
  "NewTokenProcessorEvent tp m = \<lparr>evTopic = tp, evMessage = m\<rparr>"

definition Topic :: "TokenProcessorEvent \<Rightarrow> string" where
  "Topic t = evTopic t"

definition Message :: "TokenProcessorEvent \<Rightarrow> TokenMessage" where
  "Message t = evMessage t"

record 's CommonTokenStore =
  notifier :: "(TokenProcessorEvent \<Rightarrow> ('s, unit) oper) option"

definition NewCommonTokenStore ::
  "(TokenProcessorEvent \<Rightarrow> ('s, unit) oper) option res \<Rightarrow> 's CommonTokenStore res" where
  "NewCommonTokenStore publisher = rbind publisher (\<lambda>n. Inr \<lparr>notifier = n\<rparr>)"

definition Notify ::
  "'s CommonTokenStore \<Rightarrow> string \<Rightarrow> string \<Rightarrow> string \<Rightarrow> string \<Rightarrow> u64 \<Rightarrow> ('s, unit) oper" where
  "Notify cts tp walletID tokenType txID index =
     (case notifier cts of
        None \<Rightarrow> oret ()
      | Some publish \<Rightarrow>
          publish (NewTokenProcessorEvent tp
            \<lparr>WalletID = walletID, TokenType = tokenType, msgTxID = txID, msgIndex = index\<rparr>))"

section \<open>The store's interfaces\<close>

type_synonym meta = "string \<Rightarrow> bytes option"

record 's vault_rws =
  vSetState :: "string \<Rightarrow> string \<Rightarrow> bytes \<Rightarrow> ('s, unit) oper"
  vGetState :: "string \<Rightarrow> string \<Rightarrow> ('s, bytes) oper"
  vGetStateMetadata :: "string \<Rightarrow> string \<Rightarrow> ('s, meta) oper"
  vDeleteState :: "string \<Rightarrow> string \<Rightarrow> ('s, unit) oper"
  vSetStateMetadata :: "string \<Rightarrow> string \<Rightarrow> meta \<Rightarrow> ('s, unit) oper"

record store_json =
  marshal_Tok :: "Token \<Rightarrow> bytes res"
  unmarshal_Tok :: "bytes \<Rightarrow> Token res"
  marshal_IDs :: "string list \<Rightarrow> bytes res"
  unmarshal_IDs :: "bytes \<Rightarrow> string list res"
  marshal_Issued :: "IssuedToken \<Rightarrow> bytes res"
  unmarshal_Issued :: "bytes \<Rightarrow> IssuedToken res"

section \<open>Its operations\<close>

definition delete_extended ::
  "'s CommonTokenStore \<Rightarrow> 's vault_rws \<Rightarrow> string \<Rightarrow> string \<Rightarrow> string \<Rightarrow> u64 \<Rightarrow> string \<Rightarrow> ('s, unit) oper" where
  "delete_extended cts rws ns typ txID index wid =
     obind (Notify cts DeleteToken wid typ txID index) (\<lambda>_.
     obind (olift (CreateExtendedFabTokenKey wid typ txID index)) (\<lambda>outputID.
     vDeleteState rws ns outputID))"

definition DeleteFabToken ::
  "store_json \<Rightarrow> 's CommonTokenStore \<Rightarrow> string \<Rightarrow> string \<Rightarrow> u64 \<Rightarrow> 's vault_rws \<Rightarrow> string \<Rightarrow> ('s, unit) oper" where
  "DeleteFabToken J cts ns txID index rws deletedBy =
     obind (olift (CreateFabTokenKey txID index)) (\<lambda>outputID.
     obind (vGetStateMetadata rws ns outputID) (\<lambda>m.
     obind (case m IDs of
         None \<Rightarrow> oret ()
       | Some idsRaw \<Rightarrow>
           if idsRaw = [] then oret ()
           else obind (olift (unmarshal_IDs J idsRaw)) (\<lambda>ids.
             obind (vGetState rws ns outputID) (\<lambda>tokenRaw.
             obind (olift (unmarshal_Tok J tokenRaw)) (\<lambda>tok.
             ofor (delete_extended cts rws ns (tokType tok) txID index) ids)))) (\<lambda>_.
     obind (vDeleteState rws ns outputID) (\<lambda>_.
     obind (vSetStateMetadata rws ns outputID Map.empty) (\<lambda>_.
     obind (olift (CreateDeletedTokenKey txID index)) (\<lambda>deletedTokenKey.
     vSetState rws ns deletedTokenKey deletedBy))))))"

definition store_extended ::
  "'s CommonTokenStore \<Rightarrow> 's vault_rws \<Rightarrow> string \<Rightarrow> string \<Rightarrow> u64 \<Rightarrow> Token \<Rightarrow> bytes \<Rightarrow> bytes \<Rightarrow> string \<Rightarrow> ('s, unit) oper" where
  "store_extended cts rws ns txID index tok raw infoRaw wid =
     (if wid = [] then oret ()
      else obind (olift (CreateExtendedFabTokenKey wid (tokType tok) txID index)) (\<lambda>outputID.
        obind (vSetState rws ns outputID raw) (\<lambda>_.
        obind (vSetStateMetadata rws ns outputID [Info \<mapsto> infoRaw]) (\<lambda>_.
        Notify cts AddToken wid (tokType tok) txID index))))"

definition StoreFabToken ::
  "store_json \<Rightarrow> 's CommonTokenStore \<Rightarrow> string \<Rightarrow> string \<Rightarrow> u64 \<Rightarrow> Token \<Rightarrow> 's vault_rws \<Rightarrow> bytes \<Rightarrow> string list
     \<Rightarrow> ('s, unit) oper" where
  "StoreFabToken J cts ns txID index tok rws infoRaw ids =
     obind (olift (CreateFabTokenKey txID index)) (\<lambda>outputID.
     obind (olift (marshal_Tok J tok)) (\<lambda>raw.
     obind (vSetState rws ns outputID raw) (\<lambda>_.
     obind (if ids \<noteq> [] then obind (olift (marshal_IDs J ids)) (\<lambda>r. oret [Info \<mapsto> infoRaw, IDs \<mapsto> r])
            else oret [Info \<mapsto> infoRaw]) (\<lambda>m.
     obind (vSetStateMetadata rws ns outputID m) (\<lambda>_.
     ofor (store_extended cts rws ns txID index tok raw infoRaw) ids)))))"

definition StoreIssuedHistoryToken ::
  "store_json \<Rightarrow> string \<Rightarrow> string \<Rightarrow> u64 \<Rightarrow> Token \<Rightarrow> 's vault_rws \<Rightarrow> bytes \<Rightarrow> bytes \<Rightarrow> u64 \<Rightarrow> ('s, unit) oper" where
  "StoreIssuedHistoryToken J ns txID index tok rws infoRaw issuer precision =
     obind (olift (CreateIssuedHistoryTokenKey txID index)) (\<lambda>outputID.
     obind (olift (marshal_Issued J
       \<lparr>isId = \<lparr>TxId = txID, Index = index\<rparr>, isOwner = tokOwner tok, isType = tokType tok,
        isQuantity = tokQuantity tok, isIssuer = Some issuer\<rparr>)) (\<lambda>raw.
     obind (olift (ToQuantity (tokQuantity tok) precision)) (\<lambda>_.
     obind (vSetState rws ns outputID raw) (\<lambda>_.
     vSetStateMetadata rws ns outputID [Info \<mapsto> infoRaw]))))"

definition StoreAuditToken ::
  "store_json \<Rightarrow> string \<Rightarrow> string \<Rightarrow> u64 \<Rightarrow> Token \<Rightarrow> 's vault_rws \<Rightarrow> bytes \<Rightarrow> ('s, unit) oper" where
  "StoreAuditToken J ns txID index tok rws infoRaw =
     obind (olift (CreateAuditTokenKey txID index)) (\<lambda>outputID.
     obind (olift (marshal_Tok J tok)) (\<lambda>raw.
     obind (vSetState rws ns outputID raw) (\<lambda>_.
     vSetStateMetadata rws ns outputID [Info \<mapsto> infoRaw])))"

section \<open>What the operations do to the vault\<close>

text \<open>
  The state of a namespace of the vault: the values (an absent key has the empty value) and
  the metadata of the keys. A read-write set has the committed state, which reads return, and
  the state that the vault is in once the set is committed.
\<close>

record vault_state =
  vals :: ledger
  metas :: "string \<Rightarrow> meta"

definition put_val :: "string \<Rightarrow> bytes \<Rightarrow> vault_state \<Rightarrow> vault_state" where
  "put_val k b v = v\<lparr>vals := (vals v)(k := b)\<rparr>"

definition put_meta :: "string \<Rightarrow> meta \<Rightarrow> vault_state \<Rightarrow> vault_state" where
  "put_meta k m v = v\<lparr>metas := (metas v)(k := m)\<rparr>"

locale vault_writes =
  fixes R :: "'s vault_rws" and ns :: string and com pend :: "'s \<Rightarrow> vault_state"
  assumes get_law: "vGetState R ns k s = (r, t) \<Longrightarrow>
      com t = com s \<and> pend t = pend s \<and> (\<forall>b. r = Inr b \<longrightarrow> b = vals (com s) k)"
    and meta_law: "vGetStateMetadata R ns k s = (g, t) \<Longrightarrow>
      com t = com s \<and> pend t = pend s \<and> (\<forall>m. g = Inr m \<longrightarrow> m = metas (com s) k)"
    and set_law: "vSetState R ns k b s = (Inr (), t) \<Longrightarrow> com t = com s \<and> pend t = put_val k b (pend s)"
    and delete_law: "vDeleteState R ns k s = (Inr (), t) \<Longrightarrow> com t = com s \<and> pend t = put_val k [] (pend s)"
    and set_meta_law: "vSetStateMetadata R ns k m s = (Inr (), t) \<Longrightarrow>
      com t = com s \<and> pend t = put_meta k m (pend s)"

text \<open>Publishing an event does not touch the read-write set.\<close>

locale token_store = vault_writes +
  fixes cts :: "'s CommonTokenStore"
  assumes quiet: "notifier cts = Some publish \<Longrightarrow> publish e s = (Inr (), t) \<Longrightarrow> com t = com s \<and> pend t = pend s"

text \<open>The keys of a token in the vault.\<close>

definition fab_key :: "string \<Rightarrow> u64 \<Rightarrow> string" where
  "fab_key tx i = the_key (CreateFabTokenKey tx i)"

definition wallet_key :: "string \<Rightarrow> string \<Rightarrow> u64 \<Rightarrow> string \<Rightarrow> string" where
  "wallet_key typ tx i w = the_key (CreateExtendedFabTokenKey w typ tx i)"

definition deleted_key :: "string \<Rightarrow> u64 \<Rightarrow> string" where
  "deleted_key tx i = the_key (CreateDeletedTokenKey tx i)"

text \<open>
  The vault after a token was stored for the wallets \<open>ws\<close>, and after it was deleted: all its
  keys at once, whatever the order of the writes.
\<close>

definition store_at :: "string set \<Rightarrow> bytes \<Rightarrow> meta \<Rightarrow> vault_state \<Rightarrow> vault_state" where
  "store_at ks raw m v =
     \<lparr>vals = (\<lambda>k. if k \<in> ks then raw else vals v k), metas = (\<lambda>k. if k \<in> ks then m else metas v k)\<rparr>"

definition stored_token ::
  "string \<Rightarrow> u64 \<Rightarrow> string \<Rightarrow> bytes \<Rightarrow> meta \<Rightarrow> bytes \<Rightarrow> string list \<Rightarrow> vault_state \<Rightarrow> vault_state" where
  "stored_token tx i typ raw m info ws v =
     store_at (wallet_key typ tx i ` (set ws - {[]})) raw [Info \<mapsto> info] (store_at {fab_key tx i} raw m v)"

definition token_meta :: "store_json \<Rightarrow> bytes \<Rightarrow> string list \<Rightarrow> meta" where
  "token_meta J info ws =
     (if ws = [] then [Info \<mapsto> info] else [Info \<mapsto> info, IDs \<mapsto> projr (marshal_IDs J ws)])"

definition store_effect ::
  "store_json \<Rightarrow> string \<Rightarrow> u64 \<Rightarrow> Token \<Rightarrow> bytes \<Rightarrow> string list \<Rightarrow> vault_state \<Rightarrow> vault_state" where
  "store_effect J tx i tok info ws v =
     stored_token tx i (tokType tok) (projr (marshal_Tok J tok)) (token_meta J info ws) info ws v"

definition deleted_token :: "string \<Rightarrow> u64 \<Rightarrow> string set \<Rightarrow> string \<Rightarrow> vault_state \<Rightarrow> vault_state" where
  "deleted_token tx i eks by v =
     \<lparr>vals = (\<lambda>k. if k = deleted_key tx i then by else if k \<in> insert (fab_key tx i) eks then [] else vals v k),
      metas = (metas v)(fab_key tx i := Map.empty)\<rparr>"

definition issued_token :: "string \<Rightarrow> u64 \<Rightarrow> Token \<Rightarrow> bytes \<Rightarrow> IssuedToken" where
  "issued_token tx i tok issuer =
     \<lparr>isId = \<lparr>TxId = tx, Index = i\<rparr>, isOwner = tokOwner tok, isType = tokType tok,
      isQuantity = tokQuantity tok, isIssuer = Some issuer\<rparr>"

text \<open>The wallet keys that a deletion removes: those of the wallets that the token's metadata list.\<close>

definition listed_keys :: "store_json \<Rightarrow> vault_state \<Rightarrow> string \<Rightarrow> u64 \<Rightarrow> string set" where
  "listed_keys J v tx i =
     (case metas v (fab_key tx i) IDs of
        None \<Rightarrow> {}
      | Some r \<Rightarrow>
          if r = [] then {}
          else case (unmarshal_IDs J r, unmarshal_Tok J (vals v (fab_key tx i))) of
              (Inr ids, Inr tok) \<Rightarrow> wallet_key (tokType tok) tx i ` set ids
            | _ \<Rightarrow> {})"

lemma composite_neq:
  "CreateCompositeKey ot atts = Inr k \<Longrightarrow> CreateCompositeKey ot' atts' = Inr k' \<Longrightarrow> ot \<noteq> ot' \<Longrightarrow> k \<noteq> k'"
  using CreateCompositeKey_inject by blast

lemma store_keys_differ:
  assumes "CreateFabTokenKey tx i = Inr f" and "CreateDeletedTokenKey tx' i' = Inr d"
    and "CreateExtendedFabTokenKey w ty tx'' i'' = Inr e"
  shows "f \<noteq> d" "f \<noteq> e" "d \<noteq> e"
  using assms composite_neq by (force simp: key_defs key_consts)+

context token_store
begin

lemma Notify_quiet: "Notify cts tp w ty tx i s = (Inr (), t) \<Longrightarrow> com t = com s \<and> pend t = pend s"
  by (auto simp: Notify_def split: option.splits dest: quiet)

lemma store_extended_effect:
  assumes "store_extended cts R ns tx i tok raw info w s = (Inr (), t)"
  shows "com t = com s" "pend t = store_at (wallet_key (tokType tok) tx i ` ({w} - {[]})) raw [Info \<mapsto> info] (pend s)"
    "w \<noteq> [] \<longrightarrow> (\<exists>k. CreateExtendedFabTokenKey w (tokType tok) tx i = Inr k)"
proof -
  have "com t = com s \<and> pend t = store_at (wallet_key (tokType tok) tx i ` ({w} - {[]})) raw [Info \<mapsto> info] (pend s)
    \<and> (w \<noteq> [] \<longrightarrow> (\<exists>k. CreateExtendedFabTokenKey w (tokType tok) tx i = Inr k))"
  proof (cases "w = []")
    case True
    with assms show ?thesis by (simp add: store_extended_def store_at_def)
  next
    case False
    with assms obtain k a b where k: "CreateExtendedFabTokenKey w (tokType tok) tx i = Inr k"
      and 1: "vSetState R ns k raw s = (Inr (), a)"
      and 2: "vSetStateMetadata R ns k [Info \<mapsto> info] a = (Inr (), b)"
      and 3: "Notify cts AddToken w (tokType tok) tx i b = (Inr (), t)"
      by (auto simp: store_extended_def go_simps)
    have "pend t = put_meta k [Info \<mapsto> info] (put_val k raw (pend s))" "com t = com s"
      using set_law [OF 1] set_meta_law [OF 2] Notify_quiet [OF 3] by simp_all
    with k False show ?thesis
      by (auto simp: put_meta_def put_val_def store_at_def wallet_key_def the_key_def fun_eq_iff)
  qed
  then show "com t = com s" "pend t = store_at (wallet_key (tokType tok) tx i ` ({w} - {[]})) raw [Info \<mapsto> info] (pend s)"
    "w \<noteq> [] \<longrightarrow> (\<exists>k. CreateExtendedFabTokenKey w (tokType tok) tx i = Inr k)" by blast+
qed

lemma store_extended_loop:
  assumes "ofor (store_extended cts R ns tx i tok raw info) ws s = (Inr (), t)"
  shows "com t = com s \<and> pend t = store_at (wallet_key (tokType tok) tx i ` (set ws - {[]})) raw [Info \<mapsto> info] (pend s)
    \<and> (\<forall>w \<in> set ws. w \<noteq> [] \<longrightarrow> (\<exists>k. CreateExtendedFabTokenKey w (tokType tok) tx i = Inr k))"
  using assms
proof (induction ws arbitrary: s)
  case Nil
  then show ?case by (simp add: store_at_def)
next
  case (Cons w ws)
  then obtain u where u: "store_extended cts R ns tx i tok raw info w s = (Inr (), u)"
    and r: "ofor (store_extended cts R ns tx i tok raw info) ws u = (Inr (), t)"
    by (auto simp: go_simps)
  from Cons.IH [OF r] store_extended_effect [OF u] show ?case
    by (auto simp: store_at_def fun_eq_iff)
qed

lemma delete_extended_effect:
  assumes "delete_extended cts R ns typ tx i w s = (Inr (), t)"
  shows "com t = com s \<and> pend t = put_val (wallet_key typ tx i w) [] (pend s)"
proof -
  from assms obtain k a where k: "CreateExtendedFabTokenKey w typ tx i = Inr k"
    and 1: "Notify cts DeleteToken w typ tx i s = (Inr (), a)" and 2: "vDeleteState R ns k a = (Inr (), t)"
    by (auto simp: delete_extended_def go_simps)
  with Notify_quiet [OF 1] delete_law [OF 2] show ?thesis by (simp add: wallet_key_def the_key_def)
qed

lemma delete_extended_loop:
  assumes "ofor (delete_extended cts R ns typ tx i) ws s = (Inr (), t)"
  shows "com t = com s \<and> pend t = (pend s)\<lparr>vals := \<lambda>k. if k \<in> wallet_key typ tx i ` set ws then [] else vals (pend s) k\<rparr>"
  using assms
proof (induction ws arbitrary: s)
  case (Cons w ws)
  then obtain u where u: "delete_extended cts R ns typ tx i w s = (Inr (), u)"
    and r: "ofor (delete_extended cts R ns typ tx i) ws u = (Inr (), t)"
    by (auto simp: go_simps)
  from Cons.IH [OF r] delete_extended_effect [OF u] show ?case
    by (auto simp: put_val_def fun_eq_iff)
qed simp

lemma StoreFabToken_effect:
  assumes "StoreFabToken J cts ns tx i tok R info ids s = (Inr (), t)"
  shows "com t = com s" "pend t = store_effect J tx i tok info ids (pend s)"
    "\<exists>f. CreateFabTokenKey tx i = Inr f" "\<exists>raw. marshal_Tok J tok = Inr raw"
    "ids \<noteq> [] \<longrightarrow> (\<exists>r. marshal_IDs J ids = Inr r)"
    "\<forall>w \<in> set ids. w \<noteq> [] \<longrightarrow> (\<exists>k. CreateExtendedFabTokenKey w (tokType tok) tx i = Inr k)"
proof -
  from assms obtain f raw a m b where 1: "CreateFabTokenKey tx i = Inr f" "marshal_Tok J tok = Inr raw"
    and 2: "vSetState R ns f raw s = (Inr (), a)"
    and 3: "(if ids \<noteq> [] then obind (olift (marshal_IDs J ids)) (\<lambda>r. oret [Info \<mapsto> info, IDs \<mapsto> r])
            else oret [Info \<mapsto> info]) a = (Inr m, a)"
    and 4: "vSetStateMetadata R ns f m a = (Inr (), b)"
    and 5: "ofor (store_extended cts R ns tx i tok raw info) ids b = (Inr (), t)"
    by (auto simp: StoreFabToken_def go_simps split: if_splits)
  have b: "com b = com s" "pend b = put_meta f m (put_val f raw (pend s))"
    using set_law [OF 2] set_meta_law [OF 4] by simp_all
  have pb: "pend b = store_at {fab_key tx i} raw m (pend s)"
    using 1 b by (auto simp: put_meta_def put_val_def store_at_def fab_key_def the_key_def fun_eq_iff)
  have m: "m = token_meta J info ids" "ids \<noteq> [] \<longrightarrow> (\<exists>r. marshal_IDs J ids = Inr r)"
    using 3 by (auto simp: go_simps token_meta_def split: if_splits)
  show "com t = com s" "pend t = store_effect J tx i tok info ids (pend s)"
    "\<exists>f. CreateFabTokenKey tx i = Inr f" "\<exists>raw. marshal_Tok J tok = Inr raw"
    "ids \<noteq> [] \<longrightarrow> (\<exists>r. marshal_IDs J ids = Inr r)"
    "\<forall>w \<in> set ids. w \<noteq> [] \<longrightarrow> (\<exists>k. CreateExtendedFabTokenKey w (tokType tok) tx i = Inr k)"
    using store_extended_loop [OF 5] b pb m 1 by (simp_all add: stored_token_def store_effect_def)
qed

text \<open>The entries for the auditor and for the issuer.\<close>

lemma StoreAuditToken_effect:
  assumes "StoreAuditToken J ns tx i tok R info s = (Inr (), t)"
  shows "com t = com s \<and> pend t = put_meta (the_key (CreateAuditTokenKey tx i)) [Info \<mapsto> info]
    (put_val (the_key (CreateAuditTokenKey tx i)) (projr (marshal_Tok J tok)) (pend s))"
  using assms by (auto simp: StoreAuditToken_def go_simps the_key_def dest!: set_law set_meta_law)

lemma StoreIssuedHistoryToken_effect:
  assumes "StoreIssuedHistoryToken J ns tx i tok R info issuer prec s = (Inr (), t)"
  shows "com t = com s \<and> pend t = put_meta (the_key (CreateIssuedHistoryTokenKey tx i)) [Info \<mapsto> info]
    (put_val (the_key (CreateIssuedHistoryTokenKey tx i)) (projr (marshal_Issued J (issued_token tx i tok issuer))) (pend s))"
  using assms
  by (auto simp: StoreIssuedHistoryToken_def go_simps the_key_def issued_token_def dest!: set_law set_meta_law)

lemma DeleteFabToken_effect:
  assumes "DeleteFabToken J cts ns tx i R by' s = (Inr (), t)"
  shows "com t = com s \<and> pend t = deleted_token tx i (listed_keys J (com s) tx i) by' (pend s)"
proof -
  from assms obtain f m a b where 1: "CreateFabTokenKey tx i = Inr f" "vGetStateMetadata R ns f s = (Inr m, a)"
    and 2: "(case m IDs of
         None \<Rightarrow> oret ()
       | Some idsRaw \<Rightarrow>
           if idsRaw = [] then oret ()
           else obind (olift (unmarshal_IDs J idsRaw)) (\<lambda>ids.
             obind (vGetState R ns f) (\<lambda>tokenRaw.
             obind (olift (unmarshal_Tok J tokenRaw)) (\<lambda>tok.
             ofor (delete_extended cts R ns (tokType tok) tx i) ids)))) a = (Inr (), b)"
    and 3: "obind (vDeleteState R ns f) (\<lambda>_.
     obind (vSetStateMetadata R ns f Map.empty) (\<lambda>_.
     obind (olift (CreateDeletedTokenKey tx i)) (\<lambda>deletedTokenKey.
     vSetState R ns deletedTokenKey by'))) b = (Inr (), t)"
    by (auto simp: DeleteFabToken_def go_simps)
  have f: "fab_key tx i = f" using 1 by (simp add: fab_key_def the_key_def)
  have a: "com a = com s" "pend a = pend s" "m = metas (com s) f" using meta_law [OF 1(2)] by auto
  have b: "com b = com s \<and> pend b = (pend s)\<lparr>vals := \<lambda>k. if k \<in> listed_keys J (com s) tx i then [] else vals (pend s) k\<rparr>"
  proof (cases "m IDs")
    case None
    with 2 a f show ?thesis by (simp add: listed_keys_def)
  next
    case (Some r)
    show ?thesis
    proof (cases "r = []")
      case True
      with 2 a f Some show ?thesis by (simp add: listed_keys_def)
    next
      case False
      with 2 Some obtain ids raw c tok where 4: "unmarshal_IDs J r = Inr ids" "unmarshal_Tok J raw = Inr tok"
        and 5: "vGetState R ns f a = (Inr raw, c)"
        and 6: "ofor (delete_extended cts R ns (tokType tok) tx i) ids c = (Inr (), b)"
        by (auto simp: go_simps)
      have c: "com c = com s" "pend c = pend s" "raw = vals (com s) f" using get_law [OF 5] a by auto
      with 4 Some False a f have "listed_keys J (com s) tx i = wallet_key (tokType tok) tx i ` set ids"
        by (simp add: listed_keys_def)
      then show ?thesis using delete_extended_loop [OF 6, unfolded c(1,2)] by simp
    qed
  qed
  from 3 obtain d u v where 7: "vDeleteState R ns f b = (Inr (), u)" "vSetStateMetadata R ns f Map.empty u = (Inr (), v)"
    "CreateDeletedTokenKey tx i = Inr d" "vSetState R ns d by' v = (Inr (), t)"
    by (auto simp: go_simps)
  have "com t = com s" "pend t = put_val d by' (put_meta f Map.empty (put_val f [] (pend b)))"
    using delete_law [OF 7(1)] set_meta_law [OF 7(2)] set_law [OF 7(4)] b by simp_all
  moreover have "deleted_key tx i = d" using 7(3) by (simp add: deleted_key_def the_key_def)
  ultimately show ?thesis using b f
    by (auto simp: put_val_def put_meta_def deleted_token_def fun_eq_iff)
qed

end

end
