(* ===== verification/Processor.thy ===== *)
theory Processor
  imports TokenStore Params Metadata "HOL-Library.AList"
begin

text \<open>
  The processors of transactions (\<open>token/services/network/fabric/processor.go\<close>,
  \<open>orion/processor.go\<close>), which look through the writes of a transaction that the node knows
  and put the tokens it finds into the vault, and the checks of ownership they use
  (\<open>token/sdk/network/authrorization.go\<close>, \<open>issued.go\<close>, \<open>token/sdk/tms/tms.go\<close>). Networks,
  their read-write sets and their metadata service are parameters, and so is the provider
  of token management services. Debug logging is taken to be off.
\<close>

section \<open>Ownership\<close>

text \<open>
  The wallets of a token management service: the owner wallet for an identity, by its
  identifier, and whether there is an issuer or an auditor wallet for an identity.
\<close>

record wallet_manager =
  OwnerWalletByIdentity :: "bytes \<Rightarrow> string option"
  IssuerWalletByIdentity :: "bytes \<Rightarrow> bool"
  AuditorWalletByIdentity :: "bytes option \<Rightarrow> bool"

text \<open>
  A token management service, as the processors use it: its driver, the manager of its
  public parameters with the operation that changes them, and its wallets.
\<close>

record 's proc_tms =
  ptDriver :: metadata_tms
  ptPPM :: ppm_iface
  ptSetPublicParameters :: "bytes \<Rightarrow> ('s, unit) oper"
  ptWallets :: wallet_manager

record 's Authorization =
  authIsMine :: "'s proc_tms \<Rightarrow> Token \<Rightarrow> (string list \<times> bool) res"
  authAmIAnAuditor :: "'s proc_tms \<Rightarrow> bool res"

type_synonym 's Issued = "'s proc_tms \<Rightarrow> bytes \<Rightarrow> Token \<Rightarrow> bool res"

definition TMSAuthorization_IsMine :: "'s proc_tms \<Rightarrow> Token \<Rightarrow> (string list \<times> bool) res" where
  "TMSAuthorization_IsMine tms tok =
     rbind (owner_raw (tokOwner tok)) (\<lambda>raw.
     case OwnerWalletByIdentity (ptWallets tms) raw of
       None \<Rightarrow> Inr ([], False)
     | Some w \<Rightarrow> Inr ([w], True))"

definition TMSAuthorization_AmIAnAuditor :: "'s proc_tms \<Rightarrow> bool res" where
  "TMSAuthorization_AmIAnAuditor tms =
     rbind (PPM_Auditors (ptPPM tms)) (\<lambda>ids.
     Inr (list_ex (AuditorWalletByIdentity (ptWallets tms)) ids))"

definition TMSAuthorization :: "'s Authorization" where
  "TMSAuthorization = \<lparr>authIsMine = TMSAuthorization_IsMine, authAmIAnAuditor = TMSAuthorization_AmIAnAuditor\<rparr>"

definition ScriptOwnership :: "'x env_scheme \<Rightarrow> 's Authorization" where
  "ScriptOwnership E =
     \<lparr>authIsMine = (\<lambda>tms tok. ScriptOwnership_IsMine E (OwnerWalletByIdentity (ptWallets tms)) tok),
      authAmIAnAuditor = (\<lambda>_. Inr ScriptOwnership_AmIAnAuditor)\<rparr>"

fun AuthorizationMultiplexer_IsMine ::
  "'s Authorization list \<Rightarrow> 's proc_tms \<Rightarrow> Token \<Rightarrow> (string list \<times> bool) res" where
  "AuthorizationMultiplexer_IsMine [] tms tok = Inr ([], False)"
| "AuthorizationMultiplexer_IsMine (a # as) tms tok =
     rbind (authIsMine a tms tok) (\<lambda>(ids, mine).
     if mine then Inr (ids, True) else AuthorizationMultiplexer_IsMine as tms tok)"

fun AuthorizationMultiplexer_AmIAnAuditor :: "'s Authorization list \<Rightarrow> 's proc_tms \<Rightarrow> bool res" where
  "AuthorizationMultiplexer_AmIAnAuditor [] tms = Inr False"
| "AuthorizationMultiplexer_AmIAnAuditor (a # as) tms =
     rbind (authAmIAnAuditor a tms) (\<lambda>yes.
     if yes then Inr True else AuthorizationMultiplexer_AmIAnAuditor as tms)"

definition NewAuthorizationMultiplexer :: "'s Authorization list \<Rightarrow> 's Authorization" where
  "NewAuthorizationMultiplexer as =
     \<lparr>authIsMine = AuthorizationMultiplexer_IsMine as,
      authAmIAnAuditor = AuthorizationMultiplexer_AmIAnAuditor as\<rparr>"

definition WalletIssued_Issued :: "'s Issued" where
  "WalletIssued_Issued tms issuer tok = Inr (IssuerWalletByIdentity (ptWallets tms) issuer)"

fun IssuedMultiplexer_Issued :: "'s Issued list \<Rightarrow> 's Issued" where
  "IssuedMultiplexer_Issued [] tms issuer tok = Inr False"
| "IssuedMultiplexer_Issued (c # cs) tms issuer tok =
     rbind (c tms issuer tok) (\<lambda>yes. if yes then Inr True else IssuedMultiplexer_Issued cs tms issuer tok)"

text \<open>The checkers that the SDK registers with both processors.\<close>

definition post_init_ownership :: "'x env_scheme \<Rightarrow> 's Authorization" where
  "post_init_ownership E = NewAuthorizationMultiplexer [TMSAuthorization, ScriptOwnership E]"

definition post_init_issued :: "'s Issued" where
  "post_init_issued = IssuedMultiplexer_Issued [WalletIssued_Issued]"

section \<open>The network\<close>

datatype GetStateOpt = FromStorage | FromIntermediate | FromBoth

text \<open>
  A read-write set of the network. Its writes in a namespace can be counted and read by
  position, while more are added.
\<close>

record 's net_rws =
  nSetState :: "string \<Rightarrow> string \<Rightarrow> bytes \<Rightarrow> ('s, unit) oper"
  nGetState :: "string \<Rightarrow> string \<Rightarrow> GetStateOpt \<Rightarrow> ('s, bytes) oper"
  nGetStateMetadata :: "string \<Rightarrow> string \<Rightarrow> GetStateOpt \<Rightarrow> ('s, meta) oper"
  nDeleteState :: "string \<Rightarrow> string \<Rightarrow> ('s, unit) oper"
  nSetStateMetadata :: "string \<Rightarrow> string \<Rightarrow> meta \<Rightarrow> ('s, unit) oper"
  NumWrites :: "string \<Rightarrow> 's \<Rightarrow> nat"
  GetWriteAt :: "string \<Rightarrow> nat \<Rightarrow> ('s, string \<times> bytes) oper"

definition fabric_rwsWrapper :: "'s net_rws \<Rightarrow> 's vault_rws" where
  "fabric_rwsWrapper R =
     \<lparr>vSetState = nSetState R,
      vGetState = (\<lambda>ns k. nGetState R ns k FromStorage),
      vGetStateMetadata = (\<lambda>ns k. nGetStateMetadata R ns k FromStorage),
      vDeleteState = nDeleteState R,
      vSetStateMetadata = nSetStateMetadata R\<rparr>"

definition orion_rwsWrapper :: "'s net_rws \<Rightarrow> 's vault_rws" where
  "orion_rwsWrapper R =
     \<lparr>vSetState = (\<lambda>ns k. nSetState R ns (notOrionKey k)),
      vGetState = (\<lambda>ns k. nGetState R ns (notOrionKey k) FromStorage),
      vGetStateMetadata = (\<lambda>ns k. nGetStateMetadata R ns (notOrionKey k) FromStorage),
      vDeleteState = (\<lambda>ns k. nDeleteState R ns (notOrionKey k)),
      vSetStateMetadata = (\<lambda>ns k. nSetStateMetadata R ns (notOrionKey k))\<rparr>"

record metadata_service =
  msExists :: "string \<Rightarrow> bool"
  msLoadTransient :: "string \<Rightarrow> (string \<Rightarrow> bytes option) res"

record proc_tx =
  ptxNetwork :: string
  ptxChannel :: string
  ptxID :: string
  ptxFunction :: string

text \<open>
  A processor: the name of its network and the metadata service of a channel, its
  namespaces, the provider of management services, and its collaborators. \<open>pIsNone\<close> is the
  test of an identity for being empty, which is not code of the repository.
\<close>

record 's RWSetProcessor =
  pNetworkName :: string
  pChannel :: "string \<Rightarrow> metadata_service res"
  pNss :: "string list"
  pGetManagementService :: "string \<Rightarrow> string \<Rightarrow> string \<Rightarrow> ('s, 's proc_tms option) oper"
  pOwnership :: "'s Authorization"
  pIssued :: "'s Issued"
  pTokenStore :: "'s CommonTokenStore"
  pJson :: store_json
  pAsn1 :: asn1
  pIsNone :: "bytes \<Rightarrow> bool"

definition NewTokenRWSetProcessor ::
  "string \<Rightarrow> (string \<Rightarrow> metadata_service res) \<Rightarrow> string
     \<Rightarrow> (string \<Rightarrow> string \<Rightarrow> string \<Rightarrow> ('s, 's proc_tms option) oper)
     \<Rightarrow> 's Authorization \<Rightarrow> 's Issued \<Rightarrow> 's CommonTokenStore \<Rightarrow> store_json
     \<Rightarrow> asn1 \<Rightarrow> (bytes \<Rightarrow> bool) \<Rightarrow> 's RWSetProcessor" where
  "NewTokenRWSetProcessor name channel ns provider auth iss st J A none =
     \<lparr>pNetworkName = name, pChannel = channel, pNss = [ns], pGetManagementService = provider,
      pOwnership = auth, pIssued = iss, pTokenStore = st, pJson = J, pAsn1 = A, pIsNone = none\<rparr>"

section \<open>Looking through the writes\<close>

text \<open>
  The loop \<open>for i := 0; i < rws.NumWrites(ns); i++\<close> with its calls of \<open>GetWriteAt\<close>, where the
  body may add writes. The body answers true to break. Not returning is \<open>None\<close>.
\<close>

partial_function (option) write_loop ::
  "'s net_rws \<Rightarrow> string \<Rightarrow> (string \<Rightarrow> bytes \<Rightarrow> ('s, bool) oper) \<Rightarrow> nat \<Rightarrow> 's \<Rightarrow> (unit res \<times> 's) option" where
  "write_loop R ns body i s =
     (if i < NumWrites R ns s
      then (case GetWriteAt R ns i s of
          (Inl e, t) \<Rightarrow> Some (Inl e, t)
        | (Inr w, t) \<Rightarrow>
            (case body (fst w) (snd w) t of
               (Inl e, u) \<Rightarrow> Some (Inl e, u)
             | (Inr b, u) \<Rightarrow> if b then Some (Inr (), u) else write_loop R ns body (i + 1) u))
      else Some (Inr (), s))"

declare write_loop.simps [code]

text \<open>Sequencing with a loop that may not return.\<close>

definition before_loop :: "('s, 'a) oper \<Rightarrow> ('a \<Rightarrow> 's \<Rightarrow> ('b res \<times> 's) option) \<Rightarrow> 's \<Rightarrow> ('b res \<times> 's) option" where
  "before_loop m f = (\<lambda>s. case m s of (Inl e, t) \<Rightarrow> Some (Inl e, t) | (Inr a, t) \<Rightarrow> f a t)"

definition continue :: "('s, unit) oper \<Rightarrow> ('s, bool) oper" where
  "continue m = obind m (\<lambda>_. oret False)"

section \<open>An output of the transaction\<close>

definition store_if_mine ::
  "'s RWSetProcessor \<Rightarrow> 's proc_tms \<Rightarrow> 's net_rws \<Rightarrow> 's vault_rws \<Rightarrow> string \<Rightarrow> string \<Rightarrow> string \<Rightarrow> u64 \<Rightarrow> Token \<Rightarrow> bytes
     \<Rightarrow> ('s, unit) oper" where
  "store_if_mine p tms R W ns txID c0 index tok info =
     obind (olift (authIsMine (pOwnership p) tms tok)) (\<lambda>(ids, mine).
     if mine
     then obind (olift (CreateTokenMineKey c0 index)) (\<lambda>mineTokenID.
       obind (nSetState R ns mineTokenID [CHR 0x01]) (\<lambda>_.
       StoreFabToken (pJson p) (pTokenStore p) ns txID index tok W info ids))
     else oret ())"

definition store_if_auditor ::
  "'s RWSetProcessor \<Rightarrow> 's proc_tms \<Rightarrow> 's vault_rws \<Rightarrow> string \<Rightarrow> string \<Rightarrow> u64 \<Rightarrow> Token \<Rightarrow> bytes \<Rightarrow> ('s, unit) oper" where
  "store_if_auditor p tms W ns txID index tok info =
     obind (olift (authAmIAnAuditor (pOwnership p) tms)) (\<lambda>yes.
     if yes then StoreAuditToken (pJson p) ns txID index tok W info else oret ())"

definition store_if_issued ::
  "'s RWSetProcessor \<Rightarrow> 's proc_tms \<Rightarrow> 's vault_rws \<Rightarrow> string \<Rightarrow> string \<Rightarrow> u64 \<Rightarrow> Token \<Rightarrow> bytes \<Rightarrow> bytes \<Rightarrow> ('s, unit) oper" where
  "store_if_issued p tms W ns txID index tok issuer info =
     (if pIsNone p issuer then oret ()
      else obind (olift (pIssued p tms issuer tok)) (\<lambda>yes.
        if yes
        then obind (olift (PPM_Precision (ptPPM tms))) (\<lambda>precision.
          StoreIssuedHistoryToken (pJson p) ns txID index tok W info issuer precision)
        else oret ()))"

text \<open>
  The token in the clear is never nil: an opening that the driver accepts gives a token. An
  output whose opening is missing or wrong is skipped.
\<close>

definition process_output ::
  "'s RWSetProcessor \<Rightarrow> 's proc_tms \<Rightarrow> TokenRequestMetadata \<Rightarrow> 's net_rws \<Rightarrow> 's vault_rws \<Rightarrow> string \<Rightarrow> string
     \<Rightarrow> string \<Rightarrow> u64 \<Rightarrow> bytes \<Rightarrow> ('s, unit) oper" where
  "process_output p tms md R W ns txID c0 index val =
     (if c0 \<noteq> txID then olift (Inl (Err ''invalid output, must refer to tx id''))
      else case Metadata_GetToken (ptDriver tms) md val of
          Inl (Panic m) \<Rightarrow> olift (Inl (Panic m))
        | Inl (Err m) \<Rightarrow> oret ()
        | Inr (tok, issuer, info) \<Rightarrow>
            obind (store_if_mine p tms R W ns txID c0 index tok info) (\<lambda>_.
            obind (store_if_auditor p tms W ns txID index tok info) (\<lambda>_.
            store_if_issued p tms W ns txID index tok issuer info)))"

definition skipped_components :: "string list" where
  "skipped_components =
     [TokenMineKeyPrefix, TokenRequestKeyPrefix, SerialNumber, IssueActionMetadata, TransferActionMetadata]"

definition TokenRequestMetadataKey :: string where "TokenRequestMetadataKey = ''trmd''"

text \<open>The service is followed only after the metadata were read.\<close>

definition NewMetadataFromBytes :: "asn1 \<Rightarrow> 's proc_tms option \<Rightarrow> bytes \<Rightarrow> TokenRequestMetadata res" where
  "NewMetadataFromBytes A service raw =
     (case TokenRequestMetadata_FromBytes A raw no_metadata of
        (Inl e, _) \<Rightarrow> Inl e
      | (Inr _, m) \<Rightarrow> rbind (deref service) (\<lambda>_. Inr m))"

text \<open>With graph hiding the writes do not name the tokens spent: the metadata do.\<close>

definition delete_spent ::
  "'s RWSetProcessor \<Rightarrow> 's proc_tms \<Rightarrow> TokenRequestMetadata \<Rightarrow> 's vault_rws \<Rightarrow> string \<Rightarrow> string \<Rightarrow> ('s, unit) oper" where
  "delete_spent p tms md W ns txID =
     obind (olift (PPM_GraphHiding (ptPPM tms))) (\<lambda>hiding.
     if hiding
     then ofor (\<lambda>i. DeleteFabToken (pJson p) (pTokenStore p) ns (TxId i) (Index i) W txID) (SpentTokenID md)
     else oret ())"

section \<open>Fabric\<close>

definition fabric_write ::
  "'s RWSetProcessor \<Rightarrow> 's proc_tms \<Rightarrow> TokenRequestMetadata \<Rightarrow> 's net_rws \<Rightarrow> string \<Rightarrow> string \<Rightarrow> string \<Rightarrow> bytes
     \<Rightarrow> ('s, unit) oper" where
  "fabric_write p tms md R ns txID key val =
     (let W = fabric_rwsWrapper R in
      obind (olift (SplitCompositeKey key)) (\<lambda>(prefix, components).
      if prefix \<noteq> TokenKeyPrefix then oret ()
      else obind (olift (at components 0)) (\<lambda>c0.
        if c0 \<in> set skipped_components then oret ()
        else obind (olift (at components 1)) (\<lambda>c1.
          obind (olift (ParseUint10 c1)) (\<lambda>index.
          if val = [] then DeleteFabToken (pJson p) (pTokenStore p) ns c0 index W txID
          else process_output p tms md R W ns txID c0 index val)))))"

definition fabric_tokenRequest ::
  "'s RWSetProcessor \<Rightarrow> proc_tx \<Rightarrow> 's net_rws \<Rightarrow> string \<Rightarrow> 's \<Rightarrow> (unit res \<times> 's) option" where
  "fabric_tokenRequest p tx R ns = (\<lambda>s.
     (case pChannel p (ptxChannel tx) of
        Inl e \<Rightarrow> Some (Inl e, s)
      | Inr ms \<Rightarrow>
          if \<not> msExists ms (ptxID tx) then Some (Inr (), s)
          else case msLoadTransient ms (ptxID tx) of
              Inl e \<Rightarrow> Some (Inl e, s)
            | Inr transient \<Rightarrow>
                (case transient TokenRequestMetadataKey of
                   None \<Rightarrow> Some (Inr (), s)
                 | Some raw \<Rightarrow>
                     before_loop (pGetManagementService p (ptxNetwork tx) (ptxChannel tx) ns) (\<lambda>service.
                     case service of
                       None \<Rightarrow> (\<lambda>t. Some (Inl (Err ''failed getting token management service''), t))
                     | Some tms \<Rightarrow>
                         before_loop (olift (NewMetadataFromBytes (pAsn1 p) service raw)) (\<lambda>md.
                         before_loop (delete_spent p tms md (fabric_rwsWrapper R) ns (ptxID tx)) (\<lambda>_.
                         write_loop R ns (\<lambda>key val. continue (fabric_write p tms md R ns (ptxID tx) key val)) 0))) s)))"

definition fabric_init ::
  "'s RWSetProcessor \<Rightarrow> proc_tx \<Rightarrow> 's net_rws \<Rightarrow> string \<Rightarrow> 's \<Rightarrow> (unit res \<times> 's) option" where
  "fabric_init p tx R ns =
     before_loop (pGetManagementService p (ptxNetwork tx) (ptxChannel tx) ns) (\<lambda>service.
     case service of
       None \<Rightarrow> (\<lambda>t. Some (Inl (Err ''failed getting token management service''), t))
     | Some tms \<Rightarrow>
         before_loop (olift CreateSetupKey) (\<lambda>setUpKey.
         write_loop R ns (\<lambda>key val.
           if key = setUpKey then obind (ptSetPublicParameters tms val) (\<lambda>_. oret True) else oret False) 0))"

definition fabric_Process ::
  "'s RWSetProcessor \<Rightarrow> proc_tx \<Rightarrow> 's net_rws \<Rightarrow> string \<Rightarrow> 's \<Rightarrow> (unit res \<times> 's) option" where
  "fabric_Process p tx R ns = (\<lambda>s.
     if ns \<notin> set (pNss p) then Some (Inl (Err ''this processor cannot parse namespace''), s)
     else if ptxNetwork tx \<noteq> pNetworkName p then Some (Inr (), s)
     else if ptxFunction tx = ''init'' then fabric_init p tx R ns s
     else fabric_tokenRequest p tx R ns s)"

section \<open>Orion\<close>

text \<open>
  Keys of Orion come with tildes. The processor writes what it finds under the key with
  zero bytes before it reads the token, which adds a write that the loop meets later. There
  is one metadata service, and a service that is missing is followed.
\<close>

definition orion_write ::
  "'s RWSetProcessor \<Rightarrow> 's proc_tms \<Rightarrow> TokenRequestMetadata \<Rightarrow> 's net_rws \<Rightarrow> string \<Rightarrow> string \<Rightarrow> string \<Rightarrow> bytes
     \<Rightarrow> ('s, unit) oper" where
  "orion_write p tms md R ns txID key val =
     (let W = orion_rwsWrapper R in
      obind (olift (SplitCompositeKey (notOrionKey key))) (\<lambda>(prefix, components).
      if prefix \<noteq> TokenKeyPrefix then oret ()
      else obind (olift (at components 0)) (\<lambda>c0.
        if c0 \<in> set skipped_components then oret ()
        else obind (vSetState W ns key val) (\<lambda>_.
          obind (olift (at components 1)) (\<lambda>c1.
          obind (olift (ParseUint10 c1)) (\<lambda>index.
          if val = [] then DeleteFabToken (pJson p) (pTokenStore p) ns c0 index W txID
          else process_output p tms md R W ns txID c0 index val))))))"

definition orion_tokenRequest ::
  "'s RWSetProcessor \<Rightarrow> metadata_service \<Rightarrow> proc_tx \<Rightarrow> 's net_rws \<Rightarrow> string \<Rightarrow> 's \<Rightarrow> (unit res \<times> 's) option" where
  "orion_tokenRequest p ms tx R ns = (\<lambda>s.
     (if \<not> msExists ms (ptxID tx) then Some (Inr (), s)
      else case msLoadTransient ms (ptxID tx) of
          Inl e \<Rightarrow> Some (Inl e, s)
        | Inr transient \<Rightarrow>
            (case transient TokenRequestMetadataKey of
               None \<Rightarrow> Some (Inr (), s)
             | Some raw \<Rightarrow>
                 before_loop (pGetManagementService p (ptxNetwork tx) [] ns) (\<lambda>service.
                 before_loop (olift (NewMetadataFromBytes (pAsn1 p) service raw)) (\<lambda>md.
                 before_loop (olift (deref service)) (\<lambda>tms.
                 before_loop (delete_spent p tms md (orion_rwsWrapper R) ns (ptxID tx)) (\<lambda>_.
                 write_loop R ns (\<lambda>key val. continue (orion_write p tms md R ns (ptxID tx) key val)) 0)))) s)))"

definition orion_Process ::
  "'s RWSetProcessor \<Rightarrow> metadata_service \<Rightarrow> proc_tx \<Rightarrow> 's net_rws \<Rightarrow> string \<Rightarrow> 's \<Rightarrow> (unit res \<times> 's) option" where
  "orion_Process p ms tx R ns = (\<lambda>s.
     if ns \<notin> set (pNss p) then Some (Inl (Err ''this processor cannot parse namespace''), s)
     else if ptxNetwork tx \<noteq> pNetworkName p then Some (Inr (), s)
     else orion_tokenRequest p ms tx R ns s)"

end
