(* ===== verification/Processor_Loop.thy ===== *)
theory Processor_Loop
  imports Processor "HOL-Library.Multiset"
begin

text \<open>
  The loops of the processors end, although they run over a list of writes that their own
  body extends: what the body adds ranks below the write it works on. The ranks of the
  writes that the loop has not met decrease as a multiset.
\<close>

section \<open>A loop over a list that grows\<close>

text \<open>
  The writes of a namespace, in order: a write to a key that is new goes to the end, one to
  a key that is there replaces its value. Reads and metadata leave them alone.
\<close>

locale ordered_writes =
  fixes R :: "'s net_rws" and ns :: string and log :: "'s \<Rightarrow> (string \<times> bytes) list"
  assumes num_law: "NumWrites R ns s = length (log s)"
    and at_law: "GetWriteAt R ns i s = (r, t) \<Longrightarrow>
      log t = log s \<and> (\<forall>w. r = Inr w \<longrightarrow> i < length (log s) \<and> w = log s ! i)"
    and log_set: "nSetState R ns k b s = (Inr (), t) \<Longrightarrow> log t = AList.update k b (log s)"
    and log_delete: "nDeleteState R ns k s = (Inr (), t) \<Longrightarrow> log t = AList.update k [] (log s)"
    and log_get: "nGetState R ns k opt s = (Inr b, t) \<Longrightarrow> log t = log s"
    and log_meta: "nGetStateMetadata R ns k opt s = (Inr m, t) \<Longrightarrow> log t = log s"
    and log_set_meta: "nSetStateMetadata R ns k m s = (Inr (), t) \<Longrightarrow> log t = log s"

lemma obind_olift_Inr [simp]: "obind (olift (Inr a)) f = f a"
  by (simp add: obind_def fun_eq_iff)

lemma obindE:
  assumes "obind m f s = (Inr b, u)"
  obtains a t where "m s = (Inr a, t)" "f a t = (Inr b, u)"
  using assms by (auto simp: go_simps)

lemma before_loop_total:
  assumes "\<And>a t. m s = (Inr a, t) \<Longrightarrow> \<exists>r u. f a t = Some (r, u)"
  shows "\<exists>r t. before_loop m f s = Some (r, t)"
  using assms by (cases "m s") (auto simp: before_loop_def split: sum.splits)

lemma mult_less_step:
  fixes xs :: "nat list"
  assumes "\<forall>y \<in> set ys. y < x"
  shows "(mset (xs @ ys), mset (x # xs)) \<in> mult less_than"
proof -
  have "(mset xs + mset ys, mset xs + {#x#}) \<in> mult less_than"
    by (rule one_step_implies_mult) (use assms in auto)
  then show ?thesis by simp
qed

context ordered_writes
begin

abbreviation keys :: "'s \<Rightarrow> string list" where
  "keys s \<equiv> map fst (log s)"

theorem write_loop_total:
  fixes rank :: "string \<Rightarrow> nat"
  assumes step: "\<And>key val s u. key \<in> set (keys s) \<Longrightarrow> body key val s = (Inr False, u) \<Longrightarrow>
      \<exists>ks. keys u = keys s @ ks \<and> (\<forall>k \<in> set ks. rank k < rank key)"
  shows "\<exists>r t. write_loop R ns body i s = Some (r, t)"
proof (induction "mset (map rank (drop i (keys s)))" arbitrary: i s rule: wf_induct_rule [OF wf_mult [OF wf_less_than]])
  case 1
  show ?case
  proof (cases "i < length (log s)")
    case False
    then show ?thesis by (subst write_loop.simps) (simp add: num_law)
  next
    case True
    obtain g t where g: "GetWriteAt R ns i s = (g, t)" by fastforce
    show ?thesis
    proof (cases g)
      case (Inl e)
      with True g show ?thesis by (subst write_loop.simps) (simp add: num_law)
    next
      case (Inr w)
      have t: "log t = log s" "w = log s ! i" using at_law [OF g] Inr by auto
      obtain b u where b: "body (fst w) (snd w) t = (b, u)" by fastforce
      show ?thesis
      proof (cases "\<exists>e. b = Inl e \<or> b = Inr True")
        case True
        with \<open>i < _\<close> g Inr b show ?thesis by (subst write_loop.simps) (auto simp: num_law)
      next
        case False
        then have b': "b = Inr False" by (cases b) auto
        have w: "fst w = keys s ! i" "fst w \<in> set (keys t)"
          using t True by auto
        obtain ks where ks: "keys u = keys s @ ks" "\<forall>k \<in> set ks. rank k < rank (fst w)"
          using step [OF w(2) b [unfolded b']] t by auto
        have "drop i (keys s) = fst w # drop (Suc i) (keys s)"
          using True w(1) Cons_nth_drop_Suc [of i "keys s"] by simp
        moreover have "drop (Suc i) (keys u) = drop (Suc i) (keys s) @ ks"
          using ks(1) True by simp
        ultimately have "(mset (map rank (drop (Suc i) (keys u))), mset (map rank (drop i (keys s)))) \<in> mult less_than"
          using mult_less_step [of "map rank ks" "rank (fst w)" "map rank (drop (Suc i) (keys s))"] ks(2) by simp
        from 1 [OF this] obtain r v where "write_loop R ns body (Suc i) u = Some (r, v)" by blast
        with True g Inr b b' show ?thesis by (subst write_loop.simps) (simp add: num_law)
      qed
    qed
  qed
qed

end

section \<open>Writes that the processors pass over\<close>

text \<open>The keys that both processors skip, by their components.\<close>

definition inert :: "string \<Rightarrow> bool" where
  "inert k \<longleftrightarrow> (\<forall>c0 cs. split_components [] (drop 1 k) = TokenKeyPrefix # c0 # cs \<longrightarrow> c0 \<in> set skipped_components)"

lemma notOrionKey_idem [simp]: "notOrionKey (notOrionKey k) = notOrionKey k"
  by (simp add: notOrionKey_def)

lemma notOrionKey_append: "notOrionKey (a @ b) = notOrionKey a @ notOrionKey b"
  by (simp add: notOrionKey_def)

lemma notOrionKey_plain: "CHR ''~'' \<notin> set k \<Longrightarrow> notOrionKey k = k"
  by (auto simp: notOrionKey_def intro: map_idI)

lemma first_component:
  assumes "CreateCompositeKey ot atts = Inr k" and "CHR ''~'' \<notin> set ot"
  shows "\<exists>cs. split_components [] (drop 1 (notOrionKey k)) = ot # cs"
    and "\<exists>cs. split_components [] (drop 1 k) = ot # cs"
proof -
  have k: "k = CHR 0x00 # encode_attributes (ot # atts)" and z: "CHR 0x00 \<notin> set ot"
    using assms(1) by (auto simp: CreateCompositeKey_eq valid_attribute_no_zero)
  have "drop 1 (notOrionKey k) = ot @ CHR 0x00 # notOrionKey (encode_attributes atts)"
    using notOrionKey_plain [OF assms(2)] by (simp add: k encode_attributes_def notOrionKey_def)
  then show "\<exists>cs. split_components [] (drop 1 (notOrionKey k)) = ot # cs"
    using split_components_append [OF z] by simp
  show "\<exists>cs. split_components [] (drop 1 k) = ot # cs"
    using split_components_append [OF z] by (simp add: k encode_attributes_def)
qed

text \<open>The keys of the store have other object types than the keys of the ledger.\<close>

definition foreign :: "string \<Rightarrow> bool" where
  "foreign k \<longleftrightarrow> (\<exists>ot atts. CreateCompositeKey ot atts = Inr k \<and> ot \<noteq> TokenKeyPrefix \<and> CHR ''~'' \<notin> set ot)"

lemma foreign_inert: "foreign k \<Longrightarrow> inert k" "foreign k \<Longrightarrow> inert (notOrionKey k)"
  unfolding foreign_def inert_def using first_component by fastforce+

lemma foreign_keys:
  "CreateFabTokenKey tx i = Inr k \<Longrightarrow> foreign k"
  "CreateDeletedTokenKey tx i = Inr k \<Longrightarrow> foreign k"
  "CreateExtendedFabTokenKey w ty tx i = Inr k \<Longrightarrow> foreign k"
  "CreateAuditTokenKey tx i = Inr k \<Longrightarrow> foreign k"
  "CreateIssuedHistoryTokenKey tx i = Inr k \<Longrightarrow> foreign k"
  unfolding foreign_def key_defs by (force simp: key_consts)+

lemma mine_inert:
  assumes "CreateTokenMineKey tx i = Inr k"
  shows "inert k" "inert (notOrionKey k)"
proof -
  have k: "k = CHR 0x00 # encode_attributes [TokenKeyPrefix, TokenMineKeyPrefix, tx, FormatUint10 i]"
    using assms by (simp add: CreateTokenMineKey_def CreateCompositeKey_eq)
  define rest where "rest = encode_attributes [tx, FormatUint10 i]"
  have 1: "drop 1 k = TokenKeyPrefix @ CHR 0x00 # TokenMineKeyPrefix @ CHR 0x00 # rest"
    by (simp add: k rest_def encode_attributes_def)
  have 2: "drop 1 (notOrionKey k) = TokenKeyPrefix @ CHR 0x00 # TokenMineKeyPrefix @ CHR 0x00 # notOrionKey rest"
    using 1 by (simp add: k encode_attributes_def notOrionKey_def rest_def key_consts)
  have "split_components [] (TokenKeyPrefix @ CHR 0x00 # TokenMineKeyPrefix @ CHR 0x00 # r)
      = TokenKeyPrefix # TokenMineKeyPrefix # split_components [] r" for r
    by (subst split_components_append, simp add: key_consts, subst split_components_append, simp_all add: key_consts)
  with 1 2 show "inert k" "inert (notOrionKey k)" by (simp_all add: inert_def skipped_components_def)
qed

lemma inert_split:
  assumes "inert k" and "SplitCompositeKey k = Inr (TokenKeyPrefix, cs)" and "at cs 0 = Inr c0"
  shows "c0 \<in> set skipped_components"
  using assms by (auto simp: inert_def SplitCompositeKey_def Let_def at_eq_Inr split: if_splits)
    (metis (no_types, lifting) Nil_tl length_greater_0_conv list.collapse nth_Cons_0)

lemma active_split:
  assumes "SplitCompositeKey k = Inr (pre, cs)" and "\<not> inert k" and "at cs 0 = Inr c0"
  shows "pre = TokenKeyPrefix" "c0 \<notin> set skipped_components"
  using assms by (auto simp: inert_def SplitCompositeKey_def Let_def at_eq_Inr split: if_splits)

lemma inert_fabric_write: "inert key \<Longrightarrow> fabric_write p tms md R ns txID key val s = (Inr (), t) \<Longrightarrow> t = s"
  by (auto simp: fabric_write_def Let_def go_simps dest: inert_split split: if_splits)

lemma inert_orion_write:
  "inert (notOrionKey key) \<Longrightarrow> orion_write p tms md R ns txID key val s = (Inr (), t) \<Longrightarrow> t = s"
  by (auto simp: orion_write_def Let_def go_simps dest: inert_split split: if_splits)

section \<open>What the body of a loop adds\<close>

text \<open>
  A relation between the states before and after: here, that only some writes were added.
  Operations of the store on its own keys, and those of the processor, are in the relation
  when the ones of the read-write set are.
\<close>

locale quiet_store =
  fixes W :: "'s vault_rws" and ns :: string and adds :: "'s \<Rightarrow> 's \<Rightarrow> bool" and cts :: "'s CommonTokenStore"
  assumes adds_refl: "adds s s"
    and adds_trans: "adds s t \<Longrightarrow> adds t u \<Longrightarrow> adds s u"
    and adds_set: "foreign k \<Longrightarrow> vSetState W ns k b s = (Inr (), t) \<Longrightarrow> adds s t"
    and adds_delete: "foreign k \<Longrightarrow> vDeleteState W ns k s = (Inr (), t) \<Longrightarrow> adds s t"
    and adds_set_meta: "foreign k \<Longrightarrow> vSetStateMetadata W ns k m s = (Inr (), t) \<Longrightarrow> adds s t"
    and adds_get: "vGetState W ns k s = (Inr b, t) \<Longrightarrow> adds s t"
    and adds_get_meta: "vGetStateMetadata W ns k s = (Inr m, t) \<Longrightarrow> adds s t"
    and adds_publish: "notifier cts = Some publish \<Longrightarrow> publish e s = (Inr (), t) \<Longrightarrow> adds s t"

context quiet_store
begin

definition quietly :: "('s, 'a) oper \<Rightarrow> bool" where
  "quietly m \<longleftrightarrow> (\<forall>s a t. m s = (Inr a, t) \<longrightarrow> adds s t)"

lemma quietlyD: "quietly m \<Longrightarrow> m s = (Inr a, t) \<Longrightarrow> adds s t"
  by (auto simp: quietly_def)

lemma quietly_pure [intro, simp]: "quietly (oret a)" "quietly (olift r)"
  by (auto simp: quietly_def adds_refl)

lemma quietly_obind:
  assumes "quietly m" and "\<And>s a t. m s = (Inr a, t) \<Longrightarrow> quietly (f a)"
  shows "quietly (obind m f)"
  using assms by (auto simp: quietly_def go_simps) (meson adds_trans)

lemma quietly_lift:
  assumes "\<And>a. r = Inr a \<Longrightarrow> quietly (f a)"
  shows "quietly (obind (olift r) f)"
  by (rule quietly_obind) (auto simp: assms)

lemma quietly_ofor:
  assumes "\<And>x. x \<in> set xs \<Longrightarrow> quietly (f x)"
  shows "quietly (ofor f xs)"
  using assms by (induction xs) (auto intro!: quietly_obind)

lemma quietly_rws:
  "foreign k \<Longrightarrow> quietly (vSetState W ns k b)"
  "foreign k \<Longrightarrow> quietly (vDeleteState W ns k)"
  "foreign k \<Longrightarrow> quietly (vSetStateMetadata W ns k m)"
  "quietly (vGetState W ns k')"
  "quietly (vGetStateMetadata W ns k')"
  by (auto simp: quietly_def intro: adds_set adds_delete adds_set_meta adds_get adds_get_meta)

lemma quietly_Notify: "quietly (Notify cts tp w ty tx i)"
  by (auto simp: quietly_def Notify_def adds_refl intro: adds_publish split: option.splits)

lemmas quiet_steps = quietly_lift quietly_obind quietly_rws quietly_Notify quietly_ofor

lemma quietly_DeleteFabToken: "quietly (DeleteFabToken J cts ns tx i W by')"
  unfolding DeleteFabToken_def delete_extended_def
  by (auto intro!: quiet_steps split: option.splits if_splits dest: foreign_keys)

lemma quietly_StoreFabToken: "quietly (StoreFabToken J cts ns tx i tok W info ids)"
  unfolding StoreFabToken_def store_extended_def
  by (auto intro!: quiet_steps split: option.splits if_splits dest: foreign_keys)

lemma quietly_StoreAuditToken: "quietly (StoreAuditToken J ns tx i tok W info)"
  unfolding StoreAuditToken_def by (auto intro!: quiet_steps dest: foreign_keys)

lemma quietly_StoreIssuedHistoryToken: "quietly (StoreIssuedHistoryToken J ns tx i tok W info issuer prec)"
  unfolding StoreIssuedHistoryToken_def by (auto intro!: quiet_steps dest: foreign_keys)

lemma quietly_process_output:
  assumes mine: "\<And>k tx i b s t. CreateTokenMineKey tx i = Inr k \<Longrightarrow> nSetState R ns k b s = (Inr (), t) \<Longrightarrow> adds s t"
    and "pTokenStore p = cts"
  shows "quietly (process_output p tms md R W ns txID c0 index val)"
proof -
  have m: "quietly (nSetState R ns k b)" if "CreateTokenMineKey tx i = Inr k" for k tx i b
    using mine that by (auto simp: quietly_def)
  show ?thesis
    unfolding process_output_def store_if_mine_def store_if_auditor_def store_if_issued_def assms(2)
    by (auto intro!: quietly_lift quietly_obind quietly_StoreFabToken quietly_StoreAuditToken
        quietly_StoreIssuedHistoryToken m split: sum.splits error.splits)
qed

lemma quietly_delete_spent:
  assumes "pTokenStore p = cts"
  shows "quietly (delete_spent p tms md W ns txID)"
  unfolding delete_spent_def assms by (auto intro!: quietly_lift quietly_ofor quietly_DeleteFabToken)

end

section \<open>Both processors end\<close>

locale ordered_store = ordered_writes +
  fixes cts :: "'a CommonTokenStore"
  assumes log_publish: "notifier cts = Some publish \<Longrightarrow> publish e s = (Inr (), t) \<Longrightarrow> log t = log s"

context ordered_store
begin

definition added :: "(string \<Rightarrow> string) \<Rightarrow> 'a \<Rightarrow> 'a \<Rightarrow> bool" where
  "added conv s t \<longleftrightarrow> (\<exists>ks. keys t = keys s @ ks \<and> (\<forall>k \<in> set ks. inert (conv k)))"

lemma added_same: "log t = log s \<Longrightarrow> added conv s t"
  by (simp add: added_def)

lemma added_update: "log t = AList.update k b (log s) \<Longrightarrow> inert (conv k) \<Longrightarrow> added conv s t"
  by (auto simp: added_def AList.update_keys)

lemma added_trans: "added conv s t \<Longrightarrow> added conv t u \<Longrightarrow> added conv s u"
  by (force simp: added_def)

lemma added_quiet:
  assumes "W = fabric_rwsWrapper R \<and> conv = id \<or> W = orion_rwsWrapper R \<and> conv = notOrionKey"
  shows "quiet_store W ns (added conv) cts"
proof -
  have v: "vSetState W ns k b s = (Inr (), t) \<Longrightarrow> log t = AList.update (conv k) b (log s)"
    "vDeleteState W ns k s = (Inr (), t) \<Longrightarrow> log t = AList.update (conv k) [] (log s)"
    "vSetStateMetadata W ns k m s = (Inr (), t) \<Longrightarrow> log t = log s"
    "vGetState W ns k s = (Inr b, t) \<Longrightarrow> log t = log s"
    "vGetStateMetadata W ns k s = (Inr m, t) \<Longrightarrow> log t = log s" for k b m s t
    using assms
    by (auto simp: fabric_rwsWrapper_def orion_rwsWrapper_def dest: log_set log_delete log_set_meta log_get log_meta)
  have i: "inert (conv (conv k))" if "foreign k" for k
    using assms foreign_inert [OF that] by auto
  show ?thesis
    by unfold_locales (auto intro: added_same added_trans added_update v i dest: log_publish)
qed

end

sublocale ordered_store \<subseteq> fabric: quiet_store "fabric_rwsWrapper R" ns "added id" cts
  by (rule added_quiet) simp

sublocale ordered_store \<subseteq> orion: quiet_store "orion_rwsWrapper R" ns "added notOrionKey" cts
  by (rule added_quiet) simp

context ordered_store
begin

lemma fabric_write_adds:
  assumes "pTokenStore p = cts" and "fabric_write p tms md R ns txID key val s = (Inr (), t)"
  shows "added id s t"
proof -
  have "fabric.quietly (process_output p tms md R (fabric_rwsWrapper R) ns txID c0 i val)" for c0 i
    by (rule fabric.quietly_process_output [OF _ assms(1)], rule added_update [OF log_set])
      (auto dest: mine_inert)
  then show ?thesis
    using assms(2) unfolding fabric_write_def Let_def assms(1)
    by (auto simp: go_simps intro: added_same dest: fabric.quietlyD fabric.quietlyD [OF fabric.quietly_DeleteFabToken]
        split: if_splits)
qed

lemma orion_write_adds:
  assumes "pTokenStore p = cts" and "orion_write p tms md R ns txID key val s = (Inr (), t)"
    and "\<not> inert (notOrionKey key)"
  shows "\<exists>u b. log u = AList.update (notOrionKey key) b (log s) \<and> added notOrionKey u t"
proof -
  have o': "orion.quietly (process_output p tms md R (orion_rwsWrapper R) ns txID c0 i val)" for c0 i
    by (rule orion.quietly_process_output [OF _ assms(1)], rule added_update [OF log_set])
      (auto dest: mine_inert)
  from assms(2) obtain pre cs where sp: "SplitCompositeKey (notOrionKey key) = Inr (pre, cs)"
    by (auto simp: orion_write_def Let_def go_simps)
  have pre: "pre = TokenKeyPrefix"
    using sp assms(3) by (auto simp: inert_def SplitCompositeKey_def Let_def split: if_splits)
  from assms(2) sp pre obtain c where c: "at cs 0 = Inr c"
    by (auto simp: orion_write_def Let_def go_simps)
  have nc: "c \<notin> set skipped_components" by (rule active_split [OF sp assms(3) c])
  have "obind (vSetState (orion_rwsWrapper R) ns key val) (\<lambda>_.
      obind (olift (at cs 1)) (\<lambda>c1. obind (olift (ParseUint10 c1)) (\<lambda>i.
      if val = [] then DeleteFabToken (pJson p) cts ns c i (orion_rwsWrapper R) txID
      else process_output p tms md R (orion_rwsWrapper R) ns txID c i val))) s = (Inr (), t)"
    using assms(2) nc unfolding orion_write_def Let_def assms(1) by (simp add: sp pre c)
  then obtain x u where u': "vSetState (orion_rwsWrapper R) ns key val s = (Inr x, u)"
    and "obind (olift (at cs 1)) (\<lambda>c1. obind (olift (ParseUint10 c1)) (\<lambda>i.
      if val = [] then DeleteFabToken (pJson p) cts ns c i (orion_rwsWrapper R) txID
      else process_output p tms md R (orion_rwsWrapper R) ns txID c i val)) u = (Inr (), t)"
    by (rule obindE)
  then obtain i where 2: "(if val = [] then DeleteFabToken (pJson p) cts ns c i (orion_rwsWrapper R) txID
       else process_output p tms md R (orion_rwsWrapper R) ns txID c i val) u = (Inr (), t)"
    by (elim obindE) auto
  from u' have u: "vSetState (orion_rwsWrapper R) ns key val s = (Inr (), u)" by simp
  have "log u = AList.update (notOrionKey key) val (log s)"
    using u by (auto simp: orion_rwsWrapper_def dest: log_set)
  moreover have "added notOrionKey u t"
    using 2 o' by (auto dest: orion.quietlyD orion.quietlyD [OF orion.quietly_DeleteFabToken] split: if_splits)
  ultimately show ?thesis by blast
qed

lemma fabric_loop_total:
  assumes "pTokenStore p = cts"
  shows "\<exists>r t. write_loop R ns (\<lambda>key val. continue (fabric_write p tms md R ns txID key val)) i s = Some (r, t)"
proof (rule write_loop_total [where rank = "\<lambda>k. if inert k then 0 else 1"])
  fix key val s u
  assume "continue (fabric_write p tms md R ns txID key val) s = (Inr False, u)"
  then have w: "fabric_write p tms md R ns txID key val s = (Inr (), u)"
    by (auto simp: continue_def go_simps)
  show "\<exists>ks. keys u = keys s @ ks \<and> (\<forall>k \<in> set ks. (if inert k then 0 else 1 :: nat) < (if inert key then 0 else 1))"
  proof (cases "inert key")
    case True
    with inert_fabric_write w show ?thesis by fastforce
  next
    case False
    with fabric_write_adds [OF assms w] show ?thesis by (auto simp: added_def)
  qed
qed

lemma orion_loop_total:
  assumes "pTokenStore p = cts"
  shows "\<exists>r t. write_loop R ns (\<lambda>key val. continue (orion_write p tms md R ns txID key val)) i s = Some (r, t)"
proof (rule write_loop_total
    [where rank = "\<lambda>k. if inert (notOrionKey k) then 0 else if notOrionKey k = k then 1 else 2"])
  let ?rank = "\<lambda>k. if inert (notOrionKey k) then 0 else if notOrionKey k = k then 1 else 2 :: nat"
  fix key val s u
  assume key: "key \<in> set (keys s)" and "continue (orion_write p tms md R ns txID key val) s = (Inr False, u)"
  then have w: "orion_write p tms md R ns txID key val s = (Inr (), u)"
    by (auto simp: continue_def go_simps)
  show "\<exists>ks. keys u = keys s @ ks \<and> (\<forall>k \<in> set ks. ?rank k < ?rank key)"
  proof (cases "inert (notOrionKey key)")
    case True
    with inert_orion_write w show ?thesis by fastforce
  next
    case False
    then obtain v b ks where v: "log v = AList.update (notOrionKey key) b (log s)"
      and ks: "keys u = keys v @ ks" "\<forall>k \<in> set ks. inert (notOrionKey k)"
      using orion_write_adds [OF assms w] by (auto simp: added_def)
    show ?thesis
    proof (cases "notOrionKey key = key")
      case True
      then have "keys u = keys s @ ks" using key v ks(1) by (simp add: AList.update_keys)
      with ks(2) False True show ?thesis by auto
    next
      case neq: False
      have "\<exists>ms. keys v = keys s @ ms \<and> set ms \<subseteq> {notOrionKey key}"
        by (auto simp: v AList.update_keys)
      then obtain ms where "keys v = keys s @ ms" "set ms \<subseteq> {notOrionKey key}" by blast
      then have "keys u = keys s @ (ms @ ks)" "\<forall>k \<in> set (ms @ ks). ?rank k < ?rank key"
        using ks False neq by auto
      then show ?thesis by blast
    qed
  qed
qed

lemma fabric_Process_total:
  assumes "pTokenStore p = cts"
  shows "\<exists>r t. fabric_Process p tx R ns s = Some (r, t)"
proof -
  have "\<exists>r t. fabric_init p tx R ns s = Some (r, t)"
    unfolding fabric_init_def
  proof (rule before_loop_total)
    fix service t
    show "\<exists>r u. (case service of None \<Rightarrow> (\<lambda>t. Some (Inl (Err ''failed getting token management service''), t))
      | Some tms \<Rightarrow> before_loop (olift CreateSetupKey) (\<lambda>setUpKey. write_loop R ns (\<lambda>key val.
          if key = setUpKey then obind (ptSetPublicParameters tms val) (\<lambda>_. oret True) else oret False) 0)) t = Some (r, u)"
    proof (cases service)
      case (Some tms)
      have "\<exists>r u. write_loop R ns (\<lambda>key val.
          if key = k then obind (ptSetPublicParameters tms val) (\<lambda>_. oret True) else oret False) 0 t = Some (r, u)" for k t
        by (rule write_loop_total [where rank = "\<lambda>_. 0"]) (auto simp: go_simps split: if_splits)
      then show ?thesis unfolding Some by (simp, intro before_loop_total)
    qed simp
  qed
  moreover have "\<exists>r t. fabric_tokenRequest p tx R ns s = Some (r, t)"
    unfolding fabric_tokenRequest_def
    by (auto intro!: before_loop_total fabric_loop_total assms split: sum.split option.split)
  ultimately show ?thesis by (simp add: fabric_Process_def)
qed

lemma orion_Process_total:
  assumes "pTokenStore p = cts"
  shows "\<exists>r t. orion_Process p ms tx R ns s = Some (r, t)"
proof -
  have "\<exists>r t. orion_tokenRequest p ms tx R ns s = Some (r, t)"
    unfolding orion_tokenRequest_def
    by (auto intro!: before_loop_total orion_loop_total assms split: sum.split option.split)
  then show ?thesis by (simp add: orion_Process_def)
qed

end

end
