(* ===== verification/Processor_Refines.thy ===== *)
theory Processor_Refines
  imports Processor_Loop
begin

text \<open>
  What the Fabric processor makes of a transaction: the vault after it is the vault before
  it, changed once for each write of the transaction, whatever writes the processor adds on
  the way. The changes are functions on the state of the vault.
\<close>

section \<open>The change that a write makes\<close>

definition audit_effect :: "store_json \<Rightarrow> string \<Rightarrow> u64 \<Rightarrow> Token \<Rightarrow> bytes \<Rightarrow> vault_state \<Rightarrow> vault_state" where
  "audit_effect J tx i tok info v =
     (let k = the_key (CreateAuditTokenKey tx i)
      in put_meta k [Info \<mapsto> info] (put_val k (projr (marshal_Tok J tok)) v))"

definition issued_effect :: "store_json \<Rightarrow> string \<Rightarrow> u64 \<Rightarrow> Token \<Rightarrow> bytes \<Rightarrow> bytes \<Rightarrow> vault_state \<Rightarrow> vault_state" where
  "issued_effect J tx i tok issuer info v =
     (let k = the_key (CreateIssuedHistoryTokenKey tx i)
      in put_meta k [Info \<mapsto> info] (put_val k (projr (marshal_Issued J (issued_token tx i tok issuer))) v))"

definition mine_effect ::
  "'s RWSetProcessor \<Rightarrow> 's proc_tms \<Rightarrow> string \<Rightarrow> u64 \<Rightarrow> Token \<Rightarrow> bytes \<Rightarrow> vault_state \<Rightarrow> vault_state" where
  "mine_effect p tms tx i tok info v =
     (case authIsMine (pOwnership p) tms tok of
        Inr (ids, True) \<Rightarrow> store_effect (pJson p) tx i tok info ids (put_val (the_key (CreateTokenMineKey tx i)) [CHR 0x01] v)
      | _ \<Rightarrow> v)"

definition output_effect ::
  "'s RWSetProcessor \<Rightarrow> 's proc_tms \<Rightarrow> TokenRequestMetadata \<Rightarrow> string \<Rightarrow> u64 \<Rightarrow> bytes \<Rightarrow> vault_state \<Rightarrow> vault_state" where
  "output_effect p tms md tx i val v =
     (case Metadata_GetToken (ptDriver tms) md val of
        Inl _ \<Rightarrow> v
      | Inr (tok, issuer, info) \<Rightarrow>
          (let v1 = mine_effect p tms tx i tok info v;
               v2 = (if authAmIAnAuditor (pOwnership p) tms = Inr True
                     then audit_effect (pJson p) tx i tok info v1 else v1)
           in if \<not> pIsNone p issuer \<and> pIssued p tms issuer tok = Inr True
              then issued_effect (pJson p) tx i tok issuer info v2 else v2))"

text \<open>The token that a key of the ledger is for, if the processor does not pass over it.\<close>

definition ledger_token :: "string \<Rightarrow> (string \<times> u64) option" where
  "ledger_token key =
     (case SplitCompositeKey key of
        Inr (pre, c0 # c1 # _) \<Rightarrow>
          if pre = TokenKeyPrefix \<and> c0 \<notin> set skipped_components
          then (case ParseUint10 c1 of Inr i \<Rightarrow> Some (c0, i) | Inl _ \<Rightarrow> None) else None
      | _ \<Rightarrow> None)"

definition write_effect ::
  "'s RWSetProcessor \<Rightarrow> 's proc_tms \<Rightarrow> TokenRequestMetadata \<Rightarrow> vault_state \<Rightarrow> string \<Rightarrow> string \<times> bytes
     \<Rightarrow> vault_state \<Rightarrow> vault_state" where
  "write_effect p tms md c txID w v =
     (case ledger_token (fst w) of
        None \<Rightarrow> v
      | Some (tx, i) \<Rightarrow>
          if snd w = [] then deleted_token tx i (listed_keys (pJson p) c tx i) txID v
          else output_effect p tms md tx i (snd w) v)"

definition spent_effect :: "store_json \<Rightarrow> vault_state \<Rightarrow> string \<Rightarrow> ID list \<Rightarrow> vault_state \<Rightarrow> vault_state" where
  "spent_effect J c txID ids v =
     fold (\<lambda>i. deleted_token (TxId i) (Index i) (listed_keys J c (TxId i) (Index i)) txID) ids v"

section \<open>The processor implements it\<close>

text \<open>
  A read-write set of Fabric, seen both as the vault's state and as the list of its writes,
  with a store whose events touch neither.
\<close>

locale fabric_vault =
  ordered_store R ns log cts + token_store "fabric_rwsWrapper R" ns com pend cts
  for R :: "'s net_rws" and ns log cts com pend +
  assumes at_quiet: "GetWriteAt R ns i s = (r, t) \<Longrightarrow> com t = com s \<and> pend t = pend s"

text \<open>
  The writes of the network are to keys of the ledger, which the chaincode builds, other
  than the keys that the processor marks its own tokens with.
\<close>

definition ledger_writes :: "(string \<times> bytes) list \<Rightarrow> bool" where
  "ledger_writes L \<longleftrightarrow> (\<forall>k \<in> fst ` set L.
     (\<exists>atts. CreateCompositeKey TokenKeyPrefix atts = Inr k) \<and> (\<forall>tx i. CreateTokenMineKey tx i \<noteq> Inr k))"

lemma ledger_writes_not_foreign: "ledger_writes L \<Longrightarrow> k \<in> fst ` set L \<Longrightarrow> \<not> foreign k"
  using CreateCompositeKey_inject unfolding ledger_writes_def foreign_def by blast

text \<open>The outputs among the writes are outputs of the transaction itself.\<close>

definition own_outputs :: "string \<Rightarrow> (string \<times> bytes) list \<Rightarrow> bool" where
  "own_outputs txID L \<longleftrightarrow>
     (\<forall>w \<in> set L. snd w \<noteq> [] \<longrightarrow> (\<forall>tx i. ledger_token (fst w) = Some (tx, i) \<longrightarrow> tx = txID))"

lemma update_behind:
  "k \<notin> fst ` set L \<Longrightarrow> AList.update k b (L @ xs) = L @ AList.update k b xs"
  by (induction L) auto

lemma inert_no_token:
  assumes "inert k"
  shows "ledger_token k = None"
proof (rule ccontr)
  assume "ledger_token k \<noteq> None"
  then obtain c0 c1 r where sp: "SplitCompositeKey k = Inr (TokenKeyPrefix, c0 # c1 # r)" and c: "c0 \<notin> set skipped_components"
    by (auto simp: ledger_token_def split: sum.splits prod.splits list.splits if_splits)
  have "at (c0 # c1 # r) 0 = Inr c0" by (simp add: at_def)
  from inert_split [OF assms sp this] c show False by contradiction
qed

context fabric_vault
begin

definition kept :: "(string \<times> bytes) list \<Rightarrow> 's \<Rightarrow> 's \<Rightarrow> bool" where
  "kept L s t \<longleftrightarrow> (\<forall>xs. log s = L @ xs \<longrightarrow> (\<exists>ys. log t = L @ ys))"

lemma kept_update: "log t = AList.update k b (log s) \<Longrightarrow> k \<notin> fst ` set L \<Longrightarrow> kept L s t"
  by (auto simp: kept_def update_behind)

lemma kept_quiet:
  assumes "ledger_writes L"
  shows "quiet_store (fabric_rwsWrapper R) ns (kept L) cts"
proof -
  have *: "k \<notin> fst ` set L" if "foreign k" for k
    using ledger_writes_not_foreign [OF assms] that by blast
  show ?thesis
    by unfold_locales
      (auto simp: fabric_rwsWrapper_def kept_def update_behind * dest: log_set log_delete log_set_meta log_get log_meta
        log_publish)
qed

lemma fabric_write_keeps:
  assumes L: "ledger_writes L" and p: "pTokenStore p = cts"
    and w: "fabric_write p tms md R ns txID key val s = (Inr (), t)"
  shows "kept L s t"
proof -
  note q = kept_quiet [OF L]
  have "quiet_store.quietly (kept L) (process_output p tms md R (fabric_rwsWrapper R) ns txID c0 i val)" for c0 i
    by (rule quiet_store.quietly_process_output [OF q _ p], rule kept_update [OF log_set])
      (use L in \<open>auto simp: ledger_writes_def\<close>)
  moreover have "kept L s s" by (simp add: kept_def)
  ultimately show ?thesis
    using w unfolding fabric_write_def Let_def p
    by (auto simp: go_simps dest: quiet_store.quietlyD [OF q]
        quiet_store.quietlyD [OF q quiet_store.quietly_DeleteFabToken [OF q]] split: if_splits)
qed

lemma store_if_mine_effect:
  assumes "pTokenStore p = cts"
    and "store_if_mine p tms R (fabric_rwsWrapper R) ns tx tx i tok info s = (Inr (), t)"
  shows "com t = com s \<and> pend t = mine_effect p tms tx i tok info (pend s)"
proof -
  from assms(2) obtain ids mine where m: "authIsMine (pOwnership p) tms tok = Inr (ids, mine)"
    by (auto simp: store_if_mine_def go_simps)
  show ?thesis
  proof (cases mine)
    case True
    with assms m obtain k u where k: "CreateTokenMineKey tx i = Inr k" "nSetState R ns k [CHR 0x01] s = (Inr (), u)"
      and 1: "StoreFabToken (pJson p) cts ns tx i tok (fabric_rwsWrapper R) info ids u = (Inr (), t)"
      by (auto simp: store_if_mine_def go_simps)
    have "vSetState (fabric_rwsWrapper R) ns k [CHR 0x01] s = (Inr (), u)"
      using k(2) by (simp add: fabric_rwsWrapper_def)
    from set_law [OF this] StoreFabToken_effect(1,2) [OF 1] m True k(1) show ?thesis
      by (simp add: mine_effect_def the_key_def)
  next
    case False
    with assms m show ?thesis by (simp add: store_if_mine_def mine_effect_def)
  qed
qed

lemma process_output_effect:
  assumes p: "pTokenStore p = cts"
    and w: "process_output p tms md R (fabric_rwsWrapper R) ns txID tx i val s = (Inr (), t)"
  shows "com t = com s \<and> pend t = output_effect p tms md tx i val (pend s)"
proof (cases "Metadata_GetToken (ptDriver tms) md val")
  case (Inl e)
  with w show ?thesis by (cases e) (auto simp: process_output_def output_effect_def split: if_splits)
next
  case (Inr r)
  obtain tok issuer info where r: "r = (tok, issuer, info)" by (cases r) auto
  have tx: "tx = txID" using w by (auto simp: process_output_def split: if_splits)
  let ?W = "fabric_rwsWrapper R"
  from w tx Inr r obtain a b where 1: "store_if_mine p tms R ?W ns tx tx i tok info s = (Inr (), a)"
    and 2: "store_if_auditor p tms ?W ns tx i tok info a = (Inr (), b)"
    and 3: "store_if_issued p tms ?W ns tx i tok issuer info b = (Inr (), t)"
    by (auto simp: process_output_def go_simps)
  have b: "com b = com a \<and> pend b = (if authAmIAnAuditor (pOwnership p) tms = Inr True
      then audit_effect (pJson p) tx i tok info (pend a) else pend a)"
    using 2 by (auto simp: store_if_auditor_def audit_effect_def Let_def go_simps dest: StoreAuditToken_effect split: if_splits)
  have t: "com t = com b \<and> pend t = (if \<not> pIsNone p issuer \<and> pIssued p tms issuer tok = Inr True
      then issued_effect (pJson p) tx i tok issuer info (pend b) else pend b)"
    using 3 by (auto simp: store_if_issued_def issued_effect_def Let_def go_simps
        dest: StoreIssuedHistoryToken_effect split: if_splits)
  show ?thesis
    using store_if_mine_effect [OF p 1] b t Inr r by (simp add: output_effect_def Let_def)
qed

lemma fabric_write_effect:
  assumes p: "pTokenStore p = cts" and w: "fabric_write p tms md R ns txID key val s = (Inr (), t)"
  shows "com t = com s \<and> pend t = write_effect p tms md (com s) txID (key, val) (pend s) \<and> own_outputs txID [(key, val)]"
proof (cases "inert key")
  case True
  with inert_fabric_write [OF _ w] inert_no_token show ?thesis by (simp add: write_effect_def own_outputs_def)
next
  case False
  from w obtain pre cs where sp: "SplitCompositeKey key = Inr (pre, cs)"
    by (auto simp: fabric_write_def Let_def go_simps)
  have pre: "pre = TokenKeyPrefix"
    using sp False by (auto simp: inert_def SplitCompositeKey_def Let_def split: if_splits)
  from w sp pre obtain c where c: "at cs 0 = Inr c" by (auto simp: fabric_write_def Let_def go_simps)
  have nc: "c \<notin> set skipped_components" by (rule active_split [OF sp False c])
  have w': "obind (olift (at cs 1)) (\<lambda>c1. obind (olift (ParseUint10 c1)) (\<lambda>i.
      if val = [] then DeleteFabToken (pJson p) cts ns c i (fabric_rwsWrapper R) txID
      else process_output p tms md R (fabric_rwsWrapper R) ns txID c i val)) s = (Inr (), t)"
    using w nc unfolding fabric_write_def Let_def p by (simp add: sp pre c)
  then obtain c1 i where i: "at cs 1 = Inr c1" "ParseUint10 c1 = Inr i"
    and 2: "(if val = [] then DeleteFabToken (pJson p) cts ns c i (fabric_rwsWrapper R) txID
       else process_output p tms md R (fabric_rwsWrapper R) ns txID c i val) s = (Inr (), t)"
    by (elim obindE) auto
  obtain rest where "cs = c # c1 # rest"
    using c i(1) by (cases cs; cases "tl cs") (auto simp: at_def split: if_splits)
  then have "ledger_token key = Some (c, i)"
    using sp pre nc i(2) by (simp add: ledger_token_def)
  moreover have "val \<noteq> [] \<Longrightarrow> c = txID" using 2 by (auto simp: process_output_def split: if_splits)
  ultimately show ?thesis
    using 2 by (auto simp: write_effect_def own_outputs_def p dest: DeleteFabToken_effect process_output_effect [OF p]
        split: if_splits)
qed

abbreviation fabric_loop ::
  "'s RWSetProcessor \<Rightarrow> 's proc_tms \<Rightarrow> TokenRequestMetadata \<Rightarrow> string \<Rightarrow> nat \<Rightarrow> 's \<Rightarrow> (unit res \<times> 's) option" where
  "fabric_loop p tms md txID i s \<equiv> write_loop R ns (\<lambda>key val. continue (fabric_write p tms md R ns txID key val)) i s"

text \<open>One round of a loop that comes to its end.\<close>

lemma fabric_loop_step:
  assumes "fabric_loop p tms md txID i s = Some (Inr (), t)" and "i < length (log s)"
  obtains u where "log u = log s" "com u = com s" "pend u = pend s"
    "\<exists>v. fabric_write p tms md R ns txID (fst (log s ! i)) (snd (log s ! i)) u = (Inr (), v)
      \<and> fabric_loop p tms md txID (Suc i) v = Some (Inr (), t)"
proof -
  obtain g u where g: "GetWriteAt R ns i s = (g, u)" by fastforce
  with assms(1,2) obtain w where w: "g = Inr w"
    by (subst (asm) write_loop.simps) (auto simp: num_law split: sum.splits)
  have u: "log u = log s" "w = log s ! i" "com u = com s" "pend u = pend s"
    using at_law [OF g] at_quiet [OF g] w by auto
  obtain b v where b: "fabric_write p tms md R ns txID (fst w) (snd w) u = (b, v)" by fastforce
  have "b = Inr () \<and> fabric_loop p tms md txID (Suc i) v = Some (Inr (), t)"
    using assms g w b
    by (subst (asm) write_loop.simps) (auto simp: num_law continue_def obind_apply split: sum.splits)
  with b u that show ?thesis by blast
qed

lemma fabric_loop_tail:
  assumes "fabric_loop p tms md txID i s = Some (Inr (), t)"
    and "\<forall>k \<in> set (drop i (keys s)). inert k"
  shows "com t = com s \<and> pend t = pend s"
  using assms
proof (induction "length (log s) - i" arbitrary: i s)
  case 0
  then show ?case by (subst (asm) write_loop.simps) (simp add: num_law)
next
  case (Suc n)
  then have i: "i < length (log s)" by simp
  obtain u v where u: "log u = log s" "com u = com s" "pend u = pend s"
    and w: "fabric_write p tms md R ns txID (fst (log s ! i)) (snd (log s ! i)) u = (Inr (), v)"
    and r: "fabric_loop p tms md txID (Suc i) v = Some (Inr (), t)"
    using fabric_loop_step [OF Suc.prems(1) i] by blast
  have d: "drop i (keys s) = fst (log s ! i) # drop (Suc i) (keys s)"
    using i Cons_nth_drop_Suc [of i "keys s"] by simp
  have "v = u" using inert_fabric_write [OF _ w] Suc.prems(2) d by simp
  with Suc.hyps(1) [of v "Suc i"] r u Suc.prems(2) d Suc.hyps(2) show ?case by simp
qed

lemma fabric_loop_effect:
  assumes L: "ledger_writes L" and p: "pTokenStore p = cts"
    and "fabric_loop p tms md txID i s = Some (Inr (), t)" and "i \<le> length L"
    and "log s = L @ xs" and "\<forall>k \<in> fst ` set xs. inert k"
  shows "com t = com s \<and> pend t = fold (write_effect p tms md (com s) txID) (drop i L) (pend s)
    \<and> own_outputs txID (drop i L)"
  using assms(3-6)
proof (induction "length L - i" arbitrary: i s xs)
  case 0
  then show ?case using fabric_loop_tail [OF 0(2)] by (auto simp: own_outputs_def)
next
  case (Suc n)
  then have i: "i < length (log s)" "i < length L" by simp_all
  obtain u v where u: "log u = log s" "com u = com s" "pend u = pend s"
    and w: "fabric_write p tms md R ns txID (fst (log s ! i)) (snd (log s ! i)) u = (Inr (), v)"
    and r: "fabric_loop p tms md txID (Suc i) v = Some (Inr (), t)"
    using fabric_loop_step [OF Suc.prems(1) i(1)] by blast
  have li: "log s ! i = L ! i" using Suc.prems(3) i(2) by (simp add: nth_append)
  obtain ys where ys: "log v = L @ ys"
    using fabric_write_keeps [OF L p w] u(1) Suc.prems(3) by (auto simp: kept_def)
  obtain zs where zs: "keys v = keys u @ zs" "\<forall>k \<in> set zs. inert k"
    using fabric_write_adds [OF p w] by (auto simp: added_def)
  have "map fst ys = map fst xs @ zs" using zs(1) ys u(1) Suc.prems(3) by simp
  then have "fst ` set ys = fst ` set xs \<union> set zs" by (metis set_append set_map)
  with zs(2) Suc.prems(4) have y: "\<forall>k \<in> fst ` set ys. inert k" by auto
  have "com v = com s \<and> pend v = write_effect p tms md (com s) txID (L ! i) (pend s) \<and> own_outputs txID [L ! i]"
    using fabric_write_effect [OF p w] u li by simp
  moreover have "com t = com v \<and> pend t = fold (write_effect p tms md (com v) txID) (drop (Suc i) L) (pend v)
      \<and> own_outputs txID (drop (Suc i) L)"
    by (rule Suc.hyps(1) [OF _ r _ ys y]) (use Suc.hyps(2) i(2) in auto)
  moreover have "drop i L = L ! i # drop (Suc i) L" using i(2) by (simp add: Cons_nth_drop_Suc)
  ultimately show ?case by (simp add: own_outputs_def)
qed

lemma delete_spent_effect:
  assumes p: "pTokenStore p = cts" and w: "delete_spent p tms md (fabric_rwsWrapper R) ns txID s = (Inr (), t)"
  shows "com t = com s \<and> pend t =
    (if PPM_GraphHiding (ptPPM tms) = Inr True then spent_effect (pJson p) (com s) txID (SpentTokenID md) (pend s)
     else pend s)"
proof -
  have loop: "com v = com u \<and> pend v = spent_effect (pJson p) (com u) txID ids (pend u)"
    if "ofor (\<lambda>i. DeleteFabToken (pJson p) cts ns (TxId i) (Index i) (fabric_rwsWrapper R) txID) ids u = (Inr (), v)" for ids u v
    using that
  proof (induction ids arbitrary: u)
    case (Cons i ids)
    then obtain a where a: "DeleteFabToken (pJson p) cts ns (TxId i) (Index i) (fabric_rwsWrapper R) txID u = (Inr (), a)"
      and r: "ofor (\<lambda>i. DeleteFabToken (pJson p) cts ns (TxId i) (Index i) (fabric_rwsWrapper R) txID) ids a = (Inr (), v)"
      by (auto simp: go_simps)
    from Cons.IH [OF r] DeleteFabToken_effect [OF a] show ?case by (simp add: spent_effect_def)
  qed (simp add: spent_effect_def)
  from w show ?thesis
    unfolding delete_spent_def p by (auto simp: go_simps split: if_splits dest: loop)
qed

text \<open>The whole transaction.\<close>

lemma fabric_tokenRequest_effect:
  assumes L: "ledger_writes (log s)" and p: "pTokenStore p = cts"
    and run: "fabric_tokenRequest p tx R ns s = Some (Inr (), t)"
    and known: "pChannel p (ptxChannel tx) = Inr ms" "msExists ms (ptxID tx)"
      "msLoadTransient ms (ptxID tx) = Inr transient" "transient TokenRequestMetadataKey = Some raw"
    and service: "pGetManagementService p (ptxNetwork tx) (ptxChannel tx) ns s = (Inr (Some tms), s)"
    and md: "NewMetadataFromBytes (pAsn1 p) (Some tms) raw = Inr md"
  shows "com t = com s \<and> pend t = fold (write_effect p tms md (com s) (ptxID tx)) (log s)
     (if PPM_GraphHiding (ptPPM tms) = Inr True then spent_effect (pJson p) (com s) (ptxID tx) (SpentTokenID md) (pend s)
      else pend s)
    \<and> own_outputs (ptxID tx) (log s)"
proof -
  from run obtain u where d: "delete_spent p tms md (fabric_rwsWrapper R) ns (ptxID tx) s = (Inr (), u)"
    and l: "fabric_loop p tms md (ptxID tx) 0 u = Some (Inr (), t)"
    unfolding fabric_tokenRequest_def
    by (auto simp: known service md before_loop_def split: prod.splits sum.splits)
  note q = kept_quiet [OF L]
  have "kept (log s) s u"
    by (rule quiet_store.quietlyD [OF q quiet_store.quietly_delete_spent [OF q p] d])
  then obtain xs where xs: "log u = log s @ xs" by (auto simp: kept_def)
  have "added id s u"
    by (rule fabric.quietlyD [OF fabric.quietly_delete_spent [OF p] d])
  then have "\<forall>k \<in> fst ` set xs. inert k"
    using xs by (auto simp: added_def)
  from fabric_loop_effect [OF L p l _ xs this] delete_spent_effect [OF p d] show ?thesis by simp
qed

end

end
