(* ===== verification/Vault_Query.thy ===== *)
theory Vault_Query
  imports TokenStore "HOL-Library.List_Lexorder" "HOL-Library.Char_ord"
begin

text \<open>
  The queries of a vault (\<open>token/services/vault/query/query.go\<close>, \<open>utils.go\<close>) and the
  query engine of the token API, which retries while transactions are pending
  (\<open>token/vault.go\<close>). The vault is a parameter (\<open>token/services/vault/driver/driver.go\<close>):
  a query executor answers from one state of the store; a scan gives the entries between two
  keys as the sequence of what the iterator's \<open>Next\<close> returns, entries and errors, after
  which it returns nil. Identifiers are given by pointers that are not nil.
\<close>

section \<open>The vault and the engine\<close>

definition ValidationCode_Busy :: int where "ValidationCode_Busy = 3"

type_synonym entries = "(string \<times> bytes) res list"

record Executor =
  qeGetState :: "string \<Rightarrow> string \<Rightarrow> bytes res"
  qeScan :: "string \<Rightarrow> string \<Rightarrow> string \<Rightarrow> entries res"
  qeGetStateMetadata :: "string \<Rightarrow> string \<Rightarrow> meta res"

record driver_Vault =
  NewQueryExecutor :: "Executor res"
  TransactionStatus :: "string \<Rightarrow> int res"

text \<open>The cache of unspent tokens may change when it is read, as it orders its entries by use.\<close>

record 'c Engine =
  eVault :: driver_Vault
  eNamespace :: string
  cacheGet :: "string \<Rightarrow> 'c \<Rightarrow> UnspentToken option \<times> 'c"
  cacheAdd :: "string \<Rightarrow> UnspentToken \<Rightarrow> 'c \<Rightarrow> 'c"

definition NewEngine ::
  "driver_Vault \<Rightarrow> string \<Rightarrow> (string \<Rightarrow> 'c \<Rightarrow> UnspentToken option \<times> 'c)
     \<Rightarrow> (string \<Rightarrow> UnspentToken \<Rightarrow> 'c \<Rightarrow> 'c) \<Rightarrow> 'c Engine" where
  "NewEngine vault ns g a = \<lparr>eVault = vault, eNamespace = ns, cacheGet = g, cacheAdd = a\<rparr>"

definition UnmarshallIssuedToken :: "store_json \<Rightarrow> bytes \<Rightarrow> IssuedToken res" where
  "UnmarshallIssuedToken J raw = unmarshal_Issued J raw"

definition UnmarshallFabtoken :: "store_json \<Rightarrow> bytes \<Rightarrow> Token res" where
  "UnmarshallFabtoken J raw = unmarshal_Tok J raw"

section \<open>Single tokens\<close>

definition IsPending :: "'c Engine \<Rightarrow> ID \<Rightarrow> bool res" where
  "IsPending e i = rbind (TransactionStatus (eVault e) (TxId i)) (\<lambda>vc. Inr (vc = ValidationCode_Busy))"

definition Engine_IsMine :: "'c Engine \<Rightarrow> ID \<Rightarrow> bool res" where
  "Engine_IsMine e i =
     rbind (NewQueryExecutor (eVault e)) (\<lambda>qe.
     rbind (CreateTokenMineKey (TxId i) (Index i)) (\<lambda>key.
     rbind (qeGetState qe (eNamespace e) key) (\<lambda>val.
     Inr (length val = 1 \<and> val ! 0 = CHR 0x01))))"

section \<open>Iterating over unspent tokens\<close>

definition unmarshalUnspentToken ::
  "store_json \<Rightarrow> 'c Engine \<Rightarrow> string \<Rightarrow> bytes \<Rightarrow> bool \<Rightarrow> ('c, UnspentToken) oper" where
  "unmarshalUnspentToken J e key raw extended = (\<lambda>c.
     case cacheGet e key c of
       (Some tok, c') \<Rightarrow> (Inr tok, c')
     | (None, c') \<Rightarrow>
         (case unmarshal_Tok J raw of
            Inl err \<Rightarrow> (Inl err, c')
          | Inr output \<Rightarrow>
              (case (if extended then GetTokenIdFromExtendedKey key else GetTokenIdFromKey key) of
                 Inl err \<Rightarrow> (Inl err, c')
               | Inr i \<Rightarrow>
                   (let ut = \<lparr>utId = i, utOwner = tokOwner output, utType = tokType output,
                              utQuantity = tokQuantity output\<rparr>
                    in (Inr ut, cacheAdd e key ut c')))))"

fun UnspentTokensIterator_Next ::
  "store_json \<Rightarrow> 'c Engine \<Rightarrow> bool \<Rightarrow> (entries \<times> 'c, UnspentToken option) oper" where
  "UnspentTokensIterator_Next J e extended ([], c) = (Inr None, [], c)"
| "UnspentTokensIterator_Next J e extended (Inl err # it, c) = (Inl err, it, c)"
| "UnspentTokensIterator_Next J e extended (Inr (k, v) # it, c) =
     (if v = [] then UnspentTokensIterator_Next J e extended (it, c)
      else case unmarshalUnspentToken J e k v extended c of
          (Inl err, c') \<Rightarrow> (Inl err, it, c')
        | (Inr output, c') \<Rightarrow> (Inr (Some output), it, c'))"

text \<open>The string of the greatest rune: U+10FFFF in UTF-8.\<close>

definition max_rune :: string where
  "max_rune = [CHR 0xF4, CHR 0x8F, CHR 0xBF, CHR 0xBF]"

definition Engine_UnspentTokensIteratorBy :: "'c Engine \<Rightarrow> string \<Rightarrow> string \<Rightarrow> entries res" where
  "Engine_UnspentTokensIteratorBy e wid typ =
     (if wid = [] then Inl (Err ''wallet id must be specified'')
      else rbind (if typ = [] then CreateCompositeKey FabTokenExtendedKeyPrefix [wid]
                  else CreateCompositeKey FabTokenExtendedKeyPrefix [wid, typ]) (\<lambda>startKey.
        rbind (NewQueryExecutor (eVault e)) (\<lambda>qe.
        qeScan qe (eNamespace e) startKey (startKey @ max_rune))))"

definition Engine_UnspentTokensIterator :: "'c Engine \<Rightarrow> entries res" where
  "Engine_UnspentTokensIterator e =
     rbind (CreateCompositeKey FabTokenKeyPrefix []) (\<lambda>startKey.
     rbind (NewQueryExecutor (eVault e)) (\<lambda>qe.
     qeScan qe (eNamespace e) startKey (startKey @ max_rune)))"

text \<open>
  The loop that collects the tokens of an iterator. Every call of \<open>Next\<close> that returns a
  token has taken an entry off the iterator, so the loop ends.
\<close>

lemma Next_shrinks:
  "UnspentTokensIterator_Next J e extended st = (Inr (Some u), t) \<Longrightarrow> length (fst t) < length (fst st)"
  by (induction J e extended st rule: UnspentTokensIterator_Next.induct)
    (auto split: if_splits prod.splits sum.splits)

function collect_tokens ::
  "store_json \<Rightarrow> 'c Engine \<Rightarrow> bool \<Rightarrow> UnspentToken list \<Rightarrow> (entries \<times> 'c, UnspentToken list) oper" where
  "collect_tokens J e extended tokens st =
     (case UnspentTokensIterator_Next J e extended st of
        (Inl err, t) \<Rightarrow> (Inl err, t)
      | (Inr None, t) \<Rightarrow> (Inr tokens, t)
      | (Inr (Some u), t) \<Rightarrow> collect_tokens J e extended (tokens @ [u]) t)"
  by pat_completeness auto
termination
  by (relation "measure (\<lambda>(J, e, extended, tokens, st). length (fst st))") (auto dest: Next_shrinks [OF sym])

declare collect_tokens.simps [simp del]

definition Engine_ListUnspentTokens :: "store_json \<Rightarrow> 'c Engine \<Rightarrow> ('c, UnspentToken list) oper" where
  "Engine_ListUnspentTokens J e = (\<lambda>c.
     case Engine_UnspentTokensIterator e of
       Inl err \<Rightarrow> (Inl err, c)
     | Inr it \<Rightarrow> (case collect_tokens J e False [] (it, c) of (r, it', c') \<Rightarrow> (r, c')))"

definition Engine_ListUnspentTokensBy ::
  "store_json \<Rightarrow> 'c Engine \<Rightarrow> string \<Rightarrow> string \<Rightarrow> ('c, UnspentToken list) oper" where
  "Engine_ListUnspentTokensBy J e wid typ = (\<lambda>c.
     case Engine_UnspentTokensIteratorBy e wid typ of
       Inl err \<Rightarrow> (Inl err, c)
     | Inr it \<Rightarrow> (case collect_tokens J e True [] (it, c) of (r, it', c') \<Rightarrow> (r, c')))"

section \<open>Lists of tokens by identifier\<close>

definition audit_token :: "store_json \<Rightarrow> 'c Engine \<Rightarrow> Executor \<Rightarrow> ID \<Rightarrow> Token res" where
  "audit_token J e qe i =
     rbind (CreateAuditTokenKey (TxId i) (Index i)) (\<lambda>idKey.
     rbind (qeGetState qe (eNamespace e) idKey) (\<lambda>tokRaw.
     if tokRaw = [] then Inl (Err ''token not found for key'') else unmarshal_Tok J tokRaw))"

definition Engine_ListAuditTokens :: "store_json \<Rightarrow> 'c Engine \<Rightarrow> ID list \<Rightarrow> Token list res" where
  "Engine_ListAuditTokens J e ids =
     rbind (NewQueryExecutor (eVault e)) (\<lambda>qe. rmap (audit_token J e qe) ids)"

fun issued_tokens :: "store_json \<Rightarrow> entries \<Rightarrow> IssuedToken list res" where
  "issued_tokens J [] = Inr []"
| "issued_tokens J (Inl err # it) = Inl err"
| "issued_tokens J (Inr (k, v) # it) =
     (if v = [] then issued_tokens J it
      else rbind (UnmarshallIssuedToken J v) (\<lambda>output.
        rbind (GetTokenIdFromKey k) (\<lambda>i.
        rbind (issued_tokens J it) (\<lambda>tokens.
        Inr (\<lparr>isId = i, isOwner = isOwner output, isType = isType output,
              isQuantity = isQuantity output, isIssuer = isIssuer output\<rparr> # tokens)))))"

definition Engine_ListHistoryIssuedTokens :: "store_json \<Rightarrow> 'c Engine \<Rightarrow> IssuedToken list res" where
  "Engine_ListHistoryIssuedTokens J e =
     rbind (CreateCompositeKey IssuedHistoryTokenKeyPrefix []) (\<lambda>startKey.
     rbind (NewQueryExecutor (eVault e)) (\<lambda>qe.
     rbind (qeScan qe (eNamespace e) startKey (startKey @ max_rune)) (\<lambda>it. issued_tokens J it)))"

definition Engine_PublicParams :: "'c Engine \<Rightarrow> bytes res" where
  "Engine_PublicParams e =
     rbind (NewQueryExecutor (eVault e)) (\<lambda>qe.
     rbind CreateSetupKey (\<lambda>setupKey. qeGetState qe (eNamespace e) setupKey))"

text \<open>\<open>meta[keys.Info]\<close> of a map without the key is the nil slice.\<close>

definition info_meta :: "meta \<Rightarrow> bytes" where
  "info_meta m = (case m Info of None \<Rightarrow> [] | Some b \<Rightarrow> b)"

definition GetTokenInfos :: "'c Engine \<Rightarrow> ID list \<Rightarrow> (ID \<Rightarrow> bytes \<Rightarrow> ('s, unit) oper) \<Rightarrow> ('s, unit) oper" where
  "GetTokenInfos e ids callback =
     obind (olift (NewQueryExecutor (eVault e))) (\<lambda>qe.
     ofor (\<lambda>i.
       obind (olift (CreateFabTokenKey (TxId i) (Index i))) (\<lambda>outputID.
       obind (olift (qeGetStateMetadata qe (eNamespace e) outputID)) (\<lambda>m.
       callback i (info_meta m)))) ids)"

definition GetTokenOutputs :: "'c Engine \<Rightarrow> ID list \<Rightarrow> (ID \<Rightarrow> bytes \<Rightarrow> ('s, unit) oper) \<Rightarrow> ('s, unit) oper" where
  "GetTokenOutputs e ids callback =
     obind (olift (NewQueryExecutor (eVault e))) (\<lambda>qe.
     ofor (\<lambda>i.
       obind (olift (CreateTokenKey (TxId i) (Index i))) (\<lambda>outputID.
       obind (olift (qeGetState qe (eNamespace e) outputID)) (\<lambda>val.
       callback i val))) ids)"

definition GetTokenInfoAndOutputs ::
  "'c Engine \<Rightarrow> ID list \<Rightarrow> (ID \<Rightarrow> string \<Rightarrow> bytes \<Rightarrow> bytes \<Rightarrow> ('s, unit) oper) \<Rightarrow> ('s, unit) oper" where
  "GetTokenInfoAndOutputs e ids callback =
     obind (olift (NewQueryExecutor (eVault e))) (\<lambda>qe.
     ofor (\<lambda>i.
       obind (olift (CreateFabTokenKey (TxId i) (Index i))) (\<lambda>fabID.
       obind (olift (qeGetStateMetadata qe (eNamespace e) fabID)) (\<lambda>m.
       obind (olift (CreateTokenKey (TxId i) (Index i))) (\<lambda>outputID.
       obind (olift (qeGetState qe (eNamespace e) outputID)) (\<lambda>val.
       callback i outputID val (info_meta m)))))) ids)"

definition token_by_id :: "store_json \<Rightarrow> 'c Engine \<Rightarrow> Executor \<Rightarrow> ID \<Rightarrow> (string \<times> Token) res" where
  "token_by_id J e qe i =
     rbind (CreateFabTokenKey (TxId i) (Index i)) (\<lambda>idKey.
     rbind (qeGetState qe (eNamespace e) idKey) (\<lambda>tokRaw.
     if tokRaw = [] then Inl (Err ''token not found for key'')
     else rbind (unmarshal_Tok J tokRaw) (\<lambda>tok.
       rbind (CreateTokenKey (TxId i) (Index i)) (\<lambda>key. Inr (key, tok)))))"

definition Engine_GetTokens :: "store_json \<Rightarrow> 'c Engine \<Rightarrow> ID list \<Rightarrow> (string list \<times> Token list) res" where
  "Engine_GetTokens J e inputs =
     rbind (NewQueryExecutor (eVault e)) (\<lambda>qe.
     rbind (rmap (token_by_id J e qe) inputs) (\<lambda>res. Inr (map fst res, map snd res)))"

definition who_deleted :: "'c Engine \<Rightarrow> Executor \<Rightarrow> ID \<Rightarrow> (string \<times> bool) res" where
  "who_deleted e qe i =
     rbind (CreateDeletedTokenKey (TxId i) (Index i)) (\<lambda>idKey.
     rbind (qeGetState qe (eNamespace e) idKey) (\<lambda>who.
     Inr (if who = [] then ([], False) else (who, True))))"

definition WhoDeletedTokens :: "'c Engine \<Rightarrow> ID list \<Rightarrow> (string list \<times> bool list) res" where
  "WhoDeletedTokens e inputs =
     rbind (NewQueryExecutor (eVault e)) (\<lambda>qe.
     rbind (rmap (who_deleted e qe) inputs) (\<lambda>res. Inr (map fst res, map snd res)))"

section \<open>The query engine of the token API\<close>

text \<open>
  The driver's engine may answer differently at each call, as transactions commit in
  between; time passes inside its operations. An iterator is the sequence of what its
  \<open>Next\<close> returns.
\<close>

record 's query_driver =
  qdIsPending :: "ID \<Rightarrow> ('s, bool) oper"
  qdIsMine :: "ID \<Rightarrow> ('s, bool) oper"
  qdUnspentTokensIterator :: "('s, UnspentToken res list) oper"
  qdUnspentTokensIteratorBy :: "string \<Rightarrow> string \<Rightarrow> ('s, UnspentToken res list) oper"
  qdListUnspentTokens :: "('s, UnspentToken list) oper"
  qdListAuditTokens :: "ID list \<Rightarrow> ('s, Token list) oper"
  qdListHistoryIssuedTokens :: "('s, IssuedToken list) oper"
  qdPublicParams :: "('s, bytes) oper"
  qdGetTokens :: "ID list \<Rightarrow> ('s, string list \<times> Token list) oper"

record 's QueryEngine =
  qeDriver :: "'s query_driver"
  NumRetries :: nat

definition NewQueryEngine :: "'s query_driver \<Rightarrow> nat \<Rightarrow> 's QueryEngine" where
  "NewQueryEngine d numRetries = \<lparr>qeDriver = d, NumRetries = numRetries\<rparr>"

definition Vault_NewQueryEngine :: "'s query_driver \<Rightarrow> 's QueryEngine" where
  "Vault_NewQueryEngine d = NewQueryEngine d 3"

definition QueryEngine_IsMine :: "'s QueryEngine \<Rightarrow> ID \<Rightarrow> ('s, bool) oper" where
  "QueryEngine_IsMine q i = qdIsMine (qeDriver q) i"

definition QueryEngine_UnspentTokensIterator :: "'s QueryEngine \<Rightarrow> ('s, UnspentToken res list) oper" where
  "QueryEngine_UnspentTokensIterator q = qdUnspentTokensIterator (qeDriver q)"

definition QueryEngine_UnspentTokensIteratorBy ::
  "'s QueryEngine \<Rightarrow> string \<Rightarrow> string \<Rightarrow> ('s, UnspentToken res list) oper" where
  "QueryEngine_UnspentTokensIteratorBy q walletID tokenType = qdUnspentTokensIteratorBy (qeDriver q) walletID tokenType"

definition QueryEngine_ListUnspentTokens :: "'s QueryEngine \<Rightarrow> ('s, UnspentToken list) oper" where
  "QueryEngine_ListUnspentTokens q = qdListUnspentTokens (qeDriver q)"

text \<open>
  The search for a pending transaction stops at the first error: what has to be retried is
  then not known, and the engine gives up.
\<close>

fun any_pending :: "'s query_driver \<Rightarrow> ID list \<Rightarrow> ('s, bool) oper" where
  "any_pending d [] = oret False"
| "any_pending d (i # ids) = (\<lambda>s.
     case qdIsPending d i s of
       (Inl (Panic p), t) \<Rightarrow> (Inl (Panic p), t)
     | (Inl (Err m), t) \<Rightarrow> (Inr False, t)
     | (Inr True, t) \<Rightarrow> (Inr True, t)
     | (Inr False, t) \<Rightarrow> any_pending d ids t)"

text \<open>
  The loop with the number of attempts left. When the last one fails and a transaction is
  pending, the code wraps the error of \<open>IsPending\<close>, which is nil, and so returns nil and no
  error.
\<close>

fun audit_attempts :: "'s query_driver \<Rightarrow> ID list \<Rightarrow> nat \<Rightarrow> ('s, Token list) oper" where
  "audit_attempts d ids 0 = oret []"
| "audit_attempts d ids (Suc n) = (\<lambda>s.
     case qdListAuditTokens d ids s of
       (Inr tokens, t) \<Rightarrow> (Inr tokens, t)
     | (Inl (Panic p), t) \<Rightarrow> (Inl (Panic p), t)
     | (Inl (Err m), t) \<Rightarrow>
         (case any_pending d ids t of
            (Inl e, u) \<Rightarrow> (Inl e, u)
          | (Inr True, u) \<Rightarrow> if n = 0 then (Inr [], u) else audit_attempts d ids n u
          | (Inr False, u) \<Rightarrow> (Inl (Err m), u)))"

definition QueryEngine_ListAuditTokens :: "'s QueryEngine \<Rightarrow> ID list \<Rightarrow> ('s, Token list) oper" where
  "QueryEngine_ListAuditTokens q ids = audit_attempts (qeDriver q) ids (NumRetries q)"

definition QueryEngine_ListHistoryIssuedTokens :: "'s QueryEngine \<Rightarrow> ('s, IssuedToken list) oper" where
  "QueryEngine_ListHistoryIssuedTokens q = qdListHistoryIssuedTokens (qeDriver q)"

definition QueryEngine_PublicParams :: "'s QueryEngine \<Rightarrow> ('s, bytes) oper" where
  "QueryEngine_PublicParams q = qdPublicParams (qeDriver q)"

definition QueryEngine_GetTokens :: "'s QueryEngine \<Rightarrow> ID list \<Rightarrow> ('s, Token list) oper" where
  "QueryEngine_GetTokens q inputs =
     obind (qdGetTokens (qeDriver q) inputs) (\<lambda>(keys, tokens). oret tokens)"

text \<open>The sum of an iterator: an error ends it, an overflow panics.\<close>

fun sum_iterator :: "u64 \<Rightarrow> Quantity \<Rightarrow> UnspentToken res list \<Rightarrow> Quantity res" where
  "sum_iterator precision acc [] = Inr acc"
| "sum_iterator precision acc (Inl e # it) = Inl e"
| "sum_iterator precision acc (Inr tok # it) =
     rbind (ToQuantity (utQuantity tok) precision) (\<lambda>q.
     rbind (Add acc q) (\<lambda>acc'. sum_iterator precision acc' it))"

definition UnspentTokensIterator_Sum :: "u64 \<Rightarrow> UnspentToken res list \<Rightarrow> Quantity res" where
  "UnspentTokensIterator_Sum precision it = sum_iterator precision (NewZeroQuantity precision) it"

end
