(* ===== verification/Vault_Scan.thy ===== *)
theory Vault_Scan
  imports Vault_Query
begin

text \<open>
  What a scan of a vault finds: the range from a composite key to the same key with the
  greatest rune behind it holds the keys whose parts extend the parts of that key. With it,
  what the lists of unspent tokens contain, and that the cache does not change it.
\<close>

section \<open>Ranges of keys\<close>

lemma range_prefix:
  fixes start :: string
  assumes "start \<le> k" and "k < start @ m"
  obtains r where "k = start @ r" "r < m"
proof -
  have "\<exists>r. k = start @ r \<and> r < m"
    using assms
  proof (induction start arbitrary: k)
    case (Cons a start)
    then obtain b k' where k: "k = b # k'" by (cases k) auto
    with Cons.prems have "a = b \<and> start \<le> k' \<and> k' < start @ m"
      by (auto simp: list_le_def)
    with Cons.IH [of k'] k show ?case by auto
  qed simp
  with that show ?thesis by blast
qed

lemma prefix_range:
  fixes start :: string
  assumes "r < m"
  shows "start \<le> start @ r" and "start @ r < start @ m"
proof -
  show "start @ r < start @ m" using assms by (induction start) auto
  show "start \<le> start @ r"
  proof (induction start)
    case (Cons a start)
    then show ?case by (auto simp: list_le_def)
  qed simp
qed

text \<open>No attribute and nothing after it reaches the greatest rune.\<close>

lemma utf8_below_max:
  assumes "utf8_runes bs = Some rs" and "MaxUnicodeRuneValue \<notin> set rs"
  shows "bs @ 0 # xs < [244, 143, 191, 191]"
proof (cases bs)
  case (Cons b0 r)
  consider "b0 < 244" | "b0 = 244"
    using assms(1) Cons by (force split: if_splits)
  then show ?thesis
  proof cases
    case 2
    from assms(1) obtain b1 b2 b3 r' where r: "r = b1 # b2 # b3 # r'" "cont b1" "cont b2" "cont b3" "b1 \<le> 143"
      and rs: "4 * 262144 + (b1 - 128) * 4096 + (b2 - 128) * 64 + (b3 - 128) \<in> set rs"
      unfolding Cons 2 by (auto split: if_splits list.splits)
    have "\<not> (b1 = 143 \<and> b2 = 191 \<and> b3 = 191)"
      using rs assms(2) by (auto simp: MaxUnicodeRuneValue_def)
    then show ?thesis using r Cons 2 by (auto simp: cont_def)
  qed (simp add: Cons)
qed simp

lemma map_of_char_less: "map (of_char :: char \<Rightarrow> nat) xs < map of_char ys \<longleftrightarrow> xs < ys"
proof (induction xs arbitrary: ys)
  case Nil
  then show ?case by (cases ys) auto
next
  case (Cons x xs)
  then show ?case by (cases ys) (auto simp: less_char_def)
qed

lemma attribute_below_max:
  assumes "valid_attribute a"
  shows "a @ CHR 0x00 # xs < max_rune"
proof -
  obtain rs where "utf8_runes (map of_char a) = Some rs" "MaxUnicodeRuneValue \<notin> set rs"
    using assms by (auto simp: valid_attribute_def ValidateCompositeKeyAttribute_def runes_def split: option.splits if_splits)
  from utf8_below_max [OF this, of "map of_char xs"]
  have "map (of_char :: char \<Rightarrow> nat) (a @ CHR 0x00 # xs) < map of_char max_rune"
    by (simp add: max_rune_def)
  then show ?thesis by (simp only: map_of_char_less)
qed

lemma encode_below_max: "list_all valid_attribute as \<Longrightarrow> encode_attributes as < max_rune"
  by (cases as) (auto simp: encode_attributes_def attribute_below_max, simp add: max_rune_def)

lemma encode_attributes_append: "encode_attributes (as @ bs) = encode_attributes as @ encode_attributes bs"
  by (simp add: encode_attributes_def)

lemma split_encode_append:
  "list_all valid_attribute as \<Longrightarrow> split_components [] (encode_attributes as @ r) = as @ split_components [] r"
  by (induction as) (auto simp: encode_attributes_def split_components_append valid_attribute_no_zero)

lemma in_range_iff:
  assumes start: "CreateCompositeKey ot as = Inr start" and k: "CreateCompositeKey ot' bs = Inr k"
  shows "start \<le> k \<and> k < start @ max_rune \<longleftrightarrow> (\<exists>cs. ot' = ot \<and> bs = as @ cs)"
proof
  assume "start \<le> k \<and> k < start @ max_rune"
  then obtain r where r: "k = start @ r" by (blast elim: range_prefix)
  have "encode_attributes (ot' # bs) = encode_attributes (ot # as) @ r"
    using r start k by (simp add: CreateCompositeKey_eq)
  then have "ot' # bs = (ot # as) @ split_components [] r"
    using split_encode_append [of "ot # as" r] split_components_encode [of "ot' # bs"] start k
    by (simp add: CreateCompositeKey_eq)
  then show "\<exists>cs. ot' = ot \<and> bs = as @ cs" by auto
next
  assume "\<exists>cs. ot' = ot \<and> bs = as @ cs"
  then obtain cs where cs: "ot' = ot" "bs = as @ cs" by blast
  then have "k = start @ encode_attributes cs" "list_all valid_attribute cs"
    using start k by (simp_all add: CreateCompositeKey_eq encode_attributes_def)
  with prefix_range [OF encode_below_max] show "start \<le> k \<and> k < start @ max_rune" by simp
qed

section \<open>Reading tokens without the cache\<close>

definition decode :: "store_json \<Rightarrow> bool \<Rightarrow> string \<Rightarrow> bytes \<Rightarrow> UnspentToken res" where
  "decode J extended key raw =
     rbind (unmarshal_Tok J raw) (\<lambda>output.
     rbind (if extended then GetTokenIdFromExtendedKey key else GetTokenIdFromKey key) (\<lambda>i.
     Inr \<lparr>utId = i, utOwner = tokOwner output, utType = tokType output, utQuantity = tokQuantity output\<rparr>))"

fun list_entries :: "store_json \<Rightarrow> bool \<Rightarrow> entries \<Rightarrow> UnspentToken list res" where
  "list_entries J extended [] = Inr []"
| "list_entries J extended (Inl err # it) = Inl err"
| "list_entries J extended (Inr (k, v) # it) =
     (if v = [] then list_entries J extended it
      else rbind (decode J extended k v) (\<lambda>u. rbind (list_entries J extended it) (\<lambda>us. Inr (u # us))))"

text \<open>A cache may forget, and holds what was added to it.\<close>

locale unspent_cache =
  fixes e :: "'c Engine" and contents :: "'c \<Rightarrow> string \<Rightarrow> UnspentToken option"
  assumes cache_get: "cacheGet e k c = (r, c') \<Longrightarrow>
      (r = None \<or> r = contents c k) \<and> (\<forall>k'. contents c' k' = None \<or> contents c' k' = contents c k')"
    and cache_add: "contents (cacheAdd e k u c) k' = None
      \<or> contents (cacheAdd e k u c) k' = (if k' = k then Some u else contents c k')"

text \<open>Keys of the two kinds of iterator are told apart by their object type.\<close>

definition extended_key :: "string \<Rightarrow> bool" where
  "extended_key k \<longleftrightarrow> (\<exists>cs. split_components [] (drop 1 k) = FabTokenExtendedKeyPrefix # cs)"

text \<open>A cache agrees with the values of a vault: what it holds is what would be read.\<close>

definition coherent ::
  "('c \<Rightarrow> string \<Rightarrow> UnspentToken option) \<Rightarrow> store_json \<Rightarrow> ledger \<Rightarrow> 'c \<Rightarrow> bool" where
  "coherent contents J d c \<longleftrightarrow>
     (\<forall>k u. contents c k = Some u \<and> d k \<noteq> [] \<longrightarrow> decode J (extended_key k) k (d k) = Inr u)"

definition entries_of :: "ledger \<Rightarrow> bool \<Rightarrow> entries \<Rightarrow> bool" where
  "entries_of d extended it \<longleftrightarrow> (\<forall>k x. Inr (k, x) \<in> set it \<longrightarrow> x = d k \<and> extended_key k = extended)"

context unspent_cache
begin

lemma unmarshal_transparent:
  assumes c: "coherent contents J d c" and k: "d k \<noteq> []"
    and u: "unmarshalUnspentToken J e k (d k) (extended_key k) c = (r, c')"
  shows "r = decode J (extended_key k) k (d k) \<and> coherent contents J d c'"
proof -
  obtain g c1 where g: "cacheGet e k c = (g, c1)" by fastforce
  have c1: "coherent contents J d c1"
    using c cache_get [OF g] unfolding coherent_def by (metis option.distinct(1))
  show ?thesis
  proof (cases g)
    case (Some tok)
    then have "contents c k = Some tok" using cache_get [OF g] by auto
    with c k u g Some c1 show ?thesis by (auto simp: unmarshalUnspentToken_def coherent_def)
  next
    case None
    have add: "coherent contents J d (cacheAdd e k u c1)" if "decode J (extended_key k) k (d k) = Inr u" for u
      using c1 that cache_add [of k u c1] unfolding coherent_def by (metis option.inject option.distinct(1))
    show ?thesis
      using u g None c1 add
      by (auto simp: unmarshalUnspentToken_def decode_def Let_def split: sum.splits if_splits)
  qed
qed

lemma Next_transparent:
  assumes "UnspentTokensIterator_Next J e extended (it, c) = (r, it', c')"
    and "coherent contents J d c" and "entries_of d extended it"
  shows "coherent contents J d c' \<and> entries_of d extended it'
    \<and> list_entries J extended it = (case r of
          Inl err \<Rightarrow> Inl err
        | Inr None \<Rightarrow> Inr []
        | Inr (Some u) \<Rightarrow> rbind (list_entries J extended it') (\<lambda>us. Inr (u # us)))"
  using assms
proof (induction it arbitrary: c)
  case (Cons x it)
  show ?case
  proof (cases x)
    case (Inl err)
    with Cons.prems show ?thesis by (auto simp: entries_of_def)
  next
    case (Inr w)
    obtain k v where w: "w = (k, v)" by (cases w)
    have v: "v = d k" "extended_key k = extended" and it: "entries_of d extended it"
      using Cons.prems(3) Inr w by (auto simp: entries_of_def)
    show ?thesis
    proof (cases "v = []")
      case True
      with Cons.IH [OF _ Cons.prems(2) it] Cons.prems(1) Inr w show ?thesis by simp
    next
      case False
      obtain g c1 where g: "unmarshalUnspentToken J e k v extended c = (g, c1)" by fastforce
      have t: "g = decode J extended k v \<and> coherent contents J d c1"
        using unmarshal_transparent [OF Cons.prems(2), of k g c1] g v False by simp
      show ?thesis
        using Cons.prems(1) Inr w False g t it by (cases "decode J extended k v") auto
    qed
  qed
qed auto

lemma collect_transparent:
  assumes "collect_tokens J e extended acc (it, c) = (r, it', c')"
    and "coherent contents J d c" and "entries_of d extended it"
  shows "r = rbind (list_entries J extended it) (\<lambda>us. Inr (acc @ us)) \<and> coherent contents J d c'"
  using assms
proof (induction "length it" arbitrary: it acc c rule: less_induct)
  case less
  obtain g it1 c1 where g: "UnspentTokensIterator_Next J e extended (it, c) = (g, it1, c1)" by (metis prod_cases3)
  note t = Next_transparent [OF g less.prems(2,3)]
  show ?case
  proof (cases g)
    case (Inl err)
    with less.prems(1) g t show ?thesis by (subst (asm) collect_tokens.simps) auto
  next
    case (Inr o')
    show ?thesis
    proof (cases o')
      case None
      with less.prems(1) g t Inr show ?thesis by (subst (asm) collect_tokens.simps) auto
    next
      case (Some u)
      have "collect_tokens J e extended (acc @ [u]) (it1, c1) = (r, it', c')"
        using less.prems(1) g Inr Some by (subst (asm) collect_tokens.simps) auto
      moreover have "length it1 < length it" using Next_shrinks [of J e extended "(it, c)"] g Inr Some by auto
      ultimately have "r = rbind (list_entries J extended it1) (\<lambda>us. Inr ((acc @ [u]) @ us)) \<and> coherent contents J d c'"
        using less.hyps t by blast
      with t Inr Some show ?thesis by (simp add: rbind_assoc)
    qed
  qed
qed

end

section \<open>What the lists contain\<close>

text \<open>
  A query executor answers from a state of the vault. A scan whose iterator meets no error
  gives every key of the range that has a value, and may give keys without one.
\<close>

locale vault_reader =
  fixes q :: Executor and ns :: string and v :: vault_state
  assumes read_law: "qeGetState q ns k = Inr b \<Longrightarrow> b = vals v k"
    and read_meta_law: "qeGetStateMetadata q ns k = Inr m \<Longrightarrow> m = metas v k"
    and scan_law: "qeScan q ns a b = Inr it \<Longrightarrow> Inr (k, x) \<in> set it \<Longrightarrow> a \<le> k \<and> k < b \<and> x = vals v k"
    and scan_complete: "qeScan q ns a b = Inr it \<Longrightarrow> \<forall>err. Inl err \<notin> set it \<Longrightarrow> a \<le> k \<Longrightarrow> k < b \<Longrightarrow> vals v k \<noteq> [] \<Longrightarrow>
      Inr (k, vals v k) \<in> set it"

lemma list_entries_set:
  assumes "list_entries J extended it = Inr us"
  shows "(\<forall>err. Inl err \<notin> set it)
    \<and> set us = {u. \<exists>k x. Inr (k, x) \<in> set it \<and> x \<noteq> [] \<and> decode J extended k x = Inr u}"
  using assms
proof (induction J extended it arbitrary: us rule: list_entries.induct)
  case (3 J extended k v it)
  show ?case
  proof (cases "v = []")
    case True
    with 3 show ?thesis by auto
  next
    case False
    with 3(3) obtain u us' where u: "decode J extended k v = Inr u" "list_entries J extended it = Inr us'" "us = u # us'"
      by (auto simp: go_simps)
    from 3(2) [OF False u(2)] u(1,3) False show ?thesis by auto
  qed
qed auto

lemma range_extended:
  assumes "CreateCompositeKey ot as = Inr start" and "start \<le> k" and "k < start @ m"
  shows "\<exists>cs. split_components [] (drop 1 k) = ot # cs"
proof -
  obtain r where "k = start @ r" using assms(2,3) by (blast elim: range_prefix)
  then show ?thesis
    using assms(1) split_encode_append [of "ot # as" r] by (simp add: CreateCompositeKey_eq)
qed

definition wallet_start :: "string \<Rightarrow> string \<Rightarrow> string res" where
  "wallet_start w ty =
     (if ty = [] then CreateCompositeKey FabTokenExtendedKeyPrefix [w]
      else CreateCompositeKey FabTokenExtendedKeyPrefix [w, ty])"

lemma wallet_startE:
  assumes "wallet_start w ty = Inr start"
  obtains as where "CreateCompositeKey FabTokenExtendedKeyPrefix as = Inr start"
    "as = (if ty = [] then [w] else [w, ty])"
  using assms by (auto simp: wallet_start_def split: if_splits)

lemma ListUnspentTokensBy_entries:
  assumes "unspent_cache e contents" and "vault_reader q (eNamespace e) v" and q: "NewQueryExecutor (eVault e) = Inr q"
    and c: "coherent contents J (vals v) c" and l: "Engine_ListUnspentTokensBy J e w ty c = (r, c')"
  shows "coherent contents J (vals v) c' \<and> r =
     (if w = [] then Inl (Err ''wallet id must be specified'')
      else rbind (wallet_start w ty) (\<lambda>start.
        rbind (qeScan q (eNamespace e) start (start @ max_rune)) (list_entries J True)))"
proof -
  have iter: "Engine_UnspentTokensIteratorBy e w ty =
      (if w = [] then Inl (Err ''wallet id must be specified'')
       else rbind (wallet_start w ty) (\<lambda>start. qeScan q (eNamespace e) start (start @ max_rune)))"
    by (simp add: Engine_UnspentTokensIteratorBy_def wallet_start_def q)
  show ?thesis
  proof (cases "Engine_UnspentTokensIteratorBy e w ty")
    case (Inl err)
    then have "r = Inl err" "c' = c" using l by (auto simp: Engine_ListUnspentTokensBy_def)
    moreover have "rbind (rbind (wallet_start w ty) (\<lambda>start. qeScan q (eNamespace e) start (start @ max_rune)))
        (list_entries J True) = Inl err" if "w \<noteq> []"
      using trans [OF iter [symmetric] Inl] that by simp
    ultimately show ?thesis using iter Inl c by (auto simp: rbind_assoc)
  next
    case (Inr it)
    obtain start where start: "w \<noteq> []" "wallet_start w ty = Inr start"
      and it: "qeScan q (eNamespace e) start (start @ max_rune) = Inr it"
      using trans [OF iter [symmetric] Inr] by (auto simp: go_simps split: if_splits)
    obtain as where as: "CreateCompositeKey FabTokenExtendedKeyPrefix as = Inr start"
      by (rule wallet_startE [OF start(2)])
    have "x = vals v k \<and> extended_key k" if "Inr (k, x) \<in> set it" for k x
      using vault_reader.scan_law [OF assms(2) it that] range_extended [OF as, of k max_rune]
      by (simp add: extended_key_def)
    then have "entries_of (vals v) True it" by (simp add: entries_of_def)
    moreover obtain it' where "collect_tokens J e True [] (it, c) = (r, it', c')"
      using l Inr by (auto simp: Engine_ListUnspentTokensBy_def split: prod.splits)
    ultimately have "r = rbind (list_entries J True it) (\<lambda>us. Inr ([] @ us)) \<and> coherent contents J (vals v) c'"
      by (intro unspent_cache.collect_transparent [OF assms(1) _ c])
    with start it show ?thesis by (cases "list_entries J True it") auto
  qed
qed

lemma ListUnspentTokensBy_set:
  assumes "unspent_cache e contents" and vr: "vault_reader q (eNamespace e) v" and "NewQueryExecutor (eVault e) = Inr q"
    and "coherent contents J (vals v) c" and "Engine_ListUnspentTokensBy J e w ty c = (Inr us, c')"
  obtains start where "w \<noteq> []" "wallet_start w ty = Inr start"
    "set us = {u. \<exists>k. start \<le> k \<and> k < start @ max_rune \<and> vals v k \<noteq> [] \<and> decode J True k (vals v k) = Inr u}"
proof -
  have "(if w = [] then Inl (Err ''wallet id must be specified'')
      else rbind (wallet_start w ty) (\<lambda>start.
        rbind (qeScan q (eNamespace e) start (start @ max_rune)) (list_entries J True))) = Inr us"
    using ListUnspentTokensBy_entries [OF assms] by simp
  then obtain start it where start: "w \<noteq> []" "wallet_start w ty = Inr start"
    and it: "qeScan q (eNamespace e) start (start @ max_rune) = Inr it" and us: "list_entries J True it = Inr us"
    by (auto simp: go_simps split: if_splits)
  note s = list_entries_set [OF us]
  have M: "Inr (k, x) \<in> set it \<and> x \<noteq> [] \<longleftrightarrow> start \<le> k \<and> k < start @ max_rune \<and> x = vals v k \<and> vals v k \<noteq> []" for k x
  proof
    assume "Inr (k, x) \<in> set it \<and> x \<noteq> []"
    with vault_reader.scan_law [OF vr it, of k x]
    show "start \<le> k \<and> k < start @ max_rune \<and> x = vals v k \<and> vals v k \<noteq> []" by simp
  next
    assume "start \<le> k \<and> k < start @ max_rune \<and> x = vals v k \<and> vals v k \<noteq> []"
    with vault_reader.scan_complete [OF vr it, of k] s show "Inr (k, x) \<in> set it \<and> x \<noteq> []" by simp
  qed
  have "{u. \<exists>k x. Inr (k, x) \<in> set it \<and> x \<noteq> [] \<and> decode J True k x = Inr u}
      = {u. \<exists>k. start \<le> k \<and> k < start @ max_rune \<and> vals v k \<noteq> [] \<and> decode J True k (vals v k) = Inr u}"
  proof (intro Collect_cong iffI; elim exE)
    fix u k x
    assume "Inr (k, x) \<in> set it \<and> x \<noteq> [] \<and> decode J True k x = Inr u"
    with M [of k x] show "\<exists>k. start \<le> k \<and> k < start @ max_rune \<and> vals v k \<noteq> [] \<and> decode J True k (vals v k) = Inr u"
      by (intro exI [of _ k]) simp
  next
    fix u k
    assume "start \<le> k \<and> k < start @ max_rune \<and> vals v k \<noteq> [] \<and> decode J True k (vals v k) = Inr u"
    with M [of k "vals v k"] show "\<exists>k x. Inr (k, x) \<in> set it \<and> x \<noteq> [] \<and> decode J True k x = Inr u"
      by (intro exI [of _ k] exI [of _ "vals v k"]) simp
  qed
  with s have "set us = {u. \<exists>k. start \<le> k \<and> k < start @ max_rune \<and> vals v k \<noteq> [] \<and> decode J True k (vals v k) = Inr u}"
    by simp
  with start that show ?thesis by blast
qed

text \<open>An entry of a wallet decodes to its token, and lies in the wallet's ranges only.\<close>

lemma decode_wallet_key:
  assumes k: "CreateExtendedFabTokenKey w ty tx i = Inr k" and "unmarshal_Tok J raw = Inr tok"
  shows "decode J True k raw = Inr \<lparr>utId = \<lparr>TxId = tx, Index = i\<rparr>, utOwner = tokOwner tok,
     utType = tokType tok, utQuantity = tokQuantity tok\<rparr>"
proof -
  have "SplitCompositeKey k = Inr (FabTokenExtendedKeyPrefix, [w, ty, tx, FormatUint10 i])"
    by (rule Split_Create) (use k in \<open>simp_all add: CreateExtendedFabTokenKey_def\<close>)
  then show ?thesis
    using assms(2) by (simp add: decode_def GetTokenIdFromExtendedKey_def numComponentsInExtendedKey_def)
qed

lemma wallet_range_iff:
  assumes start: "wallet_start w ty = Inr start" and k: "CreateExtendedFabTokenKey w' ty' tx i = Inr k"
  shows "start \<le> k \<and> k < start @ max_rune \<longleftrightarrow> w' = w \<and> (ty = [] \<or> ty' = ty)"
proof -
  obtain as where as: "CreateCompositeKey FabTokenExtendedKeyPrefix as = Inr start" "as = (if ty = [] then [w] else [w, ty])"
    by (rule wallet_startE [OF start])
  from in_range_iff [OF as(1) k [unfolded CreateExtendedFabTokenKey_def]] as(2)
  show ?thesis by auto
qed

section \<open>A concrete vault\<close>

text \<open>A vault as the list of its entries: a scan sorts the keys of the range.\<close>

definition list_state :: "(string \<times> bytes) list \<Rightarrow> (string \<Rightarrow> meta) \<Rightarrow> vault_state" where
  "list_state al ms = \<lparr>vals = (\<lambda>k. case map_of al k of None \<Rightarrow> [] | Some b \<Rightarrow> b), metas = ms\<rparr>"

definition list_executor :: "(string \<times> bytes) list \<Rightarrow> (string \<Rightarrow> meta) \<Rightarrow> Executor" where
  "list_executor al ms =
     \<lparr>qeGetState = (\<lambda>ns k. Inr (vals (list_state al ms) k)),
      qeScan = (\<lambda>ns a b. Inr (map (\<lambda>k. Inr (k, vals (list_state al ms) k))
        (filter (\<lambda>k. a \<le> k \<and> k < b) (sort (remdups (map fst al)))))),
      qeGetStateMetadata = (\<lambda>ns k. Inr (ms k))\<rparr>"

interpretation list_vault: vault_reader "list_executor al ms" ns "list_state al ms"
proof unfold_locales
  fix a b it k x
  assume "qeScan (list_executor al ms) ns a b = Inr it"
  then have it: "it = map (\<lambda>k. Inr (k, vals (list_state al ms) k)) (filter (\<lambda>k. a \<le> k \<and> k < b) (sort (remdups (map fst al))))"
    by (simp add: list_executor_def)
  show "Inr (k, x) \<in> set it \<Longrightarrow> a \<le> k \<and> k < b \<and> x = vals (list_state al ms) k"
    unfolding it by auto
  have "k \<in> fst ` set al" if "vals (list_state al ms) k \<noteq> []"
    using that map_of_eq_None_iff [of al k] by (auto simp: list_state_def split: option.splits)
  then show "\<forall>err. Inl err \<notin> set it \<Longrightarrow> a \<le> k \<Longrightarrow> k < b \<Longrightarrow> vals (list_state al ms) k \<noteq> [] \<Longrightarrow>
      Inr (k, vals (list_state al ms) k) \<in> set it"
    unfolding it by auto
qed (auto simp: list_executor_def list_state_def)

text \<open>A cache that forgets nothing.\<close>

definition map_engine :: "driver_Vault \<Rightarrow> string \<Rightarrow> (string \<Rightarrow> UnspentToken option) Engine" where
  "map_engine V ns = NewEngine V ns (\<lambda>k c. (c k, c)) (\<lambda>k u c. c(k \<mapsto> u))"

interpretation map_cache: unspent_cache "map_engine V ns" "\<lambda>c. c"
  by unfold_locales (auto simp: map_engine_def NewEngine_def)

end
