(* ===== verification/Vault_Example.thy ===== *)
theory Vault_Example
  imports Processor_Refines Vault_Scan "HOL-Library.Code_Target_Nat"
begin

text \<open>
  A network as it is documented, for one namespace: a read-write set keeps its writes in
  order, reads the committed state, and a publisher records its events. The store and the
  processors run on it, and a vault that has committed the writes answers queries.
\<close>

section \<open>The network\<close>

record net_state =
  nsCommitted :: vault_state
  nsWrites :: "(string \<times> bytes) list"
  nsMetas :: "string \<Rightarrow> meta"
  nsEvents :: "TokenProcessorEvent list"

definition net_rws :: "net_state net_rws" where
  "net_rws =
     \<lparr>nSetState = (\<lambda>ns k b s. (Inr (), s\<lparr>nsWrites := AList.update k b (nsWrites s)\<rparr>)),
      nGetState = (\<lambda>ns k opt s. (Inr (vals (nsCommitted s) k), s)),
      nGetStateMetadata = (\<lambda>ns k opt s. (Inr (metas (nsCommitted s) k), s)),
      nDeleteState = (\<lambda>ns k s. (Inr (), s\<lparr>nsWrites := AList.update k [] (nsWrites s)\<rparr>)),
      nSetStateMetadata = (\<lambda>ns k m s. (Inr (), s\<lparr>nsMetas := (nsMetas s)(k := m)\<rparr>)),
      NumWrites = (\<lambda>ns s. length (nsWrites s)),
      GetWriteAt = (\<lambda>ns i s. (if i < length (nsWrites s) then Inr (nsWrites s ! i) else Inl (Err ''no write at''), s))\<rparr>"

definition net_pending :: "net_state \<Rightarrow> vault_state" where
  "net_pending s =
     \<lparr>vals = (\<lambda>k. case map_of (nsWrites s) k of None \<Rightarrow> vals (nsCommitted s) k | Some b \<Rightarrow> b), metas = nsMetas s\<rparr>"

definition net_store :: "net_state CommonTokenStore" where
  "net_store = \<lparr>notifier = Some (\<lambda>e s. (Inr (), s\<lparr>nsEvents := nsEvents s @ [e]\<rparr>))\<rparr>"

lemma net_pending_set:
  "net_pending (s\<lparr>nsWrites := AList.update k b (nsWrites s)\<rparr>) = put_val k b (net_pending s)"
  by (auto simp: net_pending_def put_val_def AList.update_conv' fun_eq_iff cong: option.case_cong)

lemma net_pending_meta: "net_pending (s\<lparr>nsMetas := (nsMetas s)(k := m)\<rparr>) = put_meta k m (net_pending s)"
  by (simp add: net_pending_def put_meta_def cong: option.case_cong)

lemma net_pending_events: "net_pending (s\<lparr>nsEvents := es\<rparr>) = net_pending s"
  by (simp add: net_pending_def cong: option.case_cong)

interpretation net: fabric_vault net_rws ns nsWrites net_store nsCommitted net_pending
  by unfold_locales
    (auto simp: net_rws_def net_store_def fabric_rwsWrapper_def net_pending_set net_pending_meta net_pending_events)

lemma committed_list_state:
  assumes "nsCommitted s = list_state al ms"
  shows "net_pending s = list_state (nsWrites s @ al) (nsMetas s)"
  using assms by (auto simp: net_pending_def list_state_def map_add_def fun_eq_iff split: option.splits)

section \<open>A transaction\<close>

text \<open>
  Alice has a token of type USD, output 0 of \<open>t\<close>. The transaction \<open>x\<close> spends it and makes
  her two others.
\<close>

definition coin1 :: Token where "coin1 = \<lparr>tokOwner = Some ''alice'', tokType = ''USD'', tokQuantity = ''1''\<rparr>"
definition coin5 :: Token where "coin5 = \<lparr>tokOwner = Some ''alice'', tokType = ''USD'', tokQuantity = ''5''\<rparr>"

definition vault_json :: store_json where
  "vault_json =
     \<lparr>marshal_Tok = (\<lambda>t. if t = coin1 then Inr ''1'' else if t = coin5 then Inr ''5'' else Inl (Err ''unsupported'')),
      unmarshal_Tok = (\<lambda>b. if b = ''1'' then Inr coin1 else if b = ''5'' then Inr coin5 else Inl (Err ''syntax'')),
      marshal_IDs = (\<lambda>ids. if ids = [''alice''] then Inr ''I'' else Inl (Err ''unsupported'')),
      unmarshal_IDs = (\<lambda>b. if b = ''I'' then Inr [''alice''] else Inl (Err ''syntax'')),
      marshal_Issued = (\<lambda>_. Inl (Err ''unsupported'')), unmarshal_Issued = (\<lambda>_. Inl (Err ''syntax''))\<rparr>"

definition vault_wallets :: wallet_manager where
  "vault_wallets =
     \<lparr>OwnerWalletByIdentity = (\<lambda>i. if i = ''alice'' then Some ''alice'' else None),
      IssuerWalletByIdentity = (\<lambda>_. False), AuditorWalletByIdentity = (\<lambda>_. False)\<rparr>"

definition vault_pp :: pp_iface where
  "vault_pp =
     \<lparr>asFabtoken = None, ppIdentifier = Inr ''fabtoken'', ppTokenDataHiding = Inr False, ppGraphHiding = Inr False,
      ppMaxTokenValue = Inr 0, ppCertificationDriver = Inr [], ppBytes = Inr [], ppAuditors = Inr [], ppPrecision = Inr 64\<rparr>"

definition vault_tms :: "net_state proc_tms" where
  "vault_tms =
     \<lparr>ptDriver = \<lparr>mDeserializeToken = (\<lambda>raw info. rbind (unmarshal_Tok vault_json raw) (\<lambda>tok. Inr (tok, []))),
                 mGetEnrollmentID = (\<lambda>_. Inr [])\<rparr>,
      ptPPM = \<lparr>ppmPublicParameters = vault_pp, ppmSerialize = Inr [], ppmValidate = Inr (), ppmFetch = Inr []\<rparr>,
      ptSetPublicParameters = (\<lambda>_. oret ()), ptWallets = vault_wallets\<rparr>"

definition vault_md :: TokenRequestMetadata where
  "vault_md =
     \<lparr>mdIssues = [], mdTransfers =
        [\<lparr>tmTokenIDs = [\<lparr>TxId = ''t'', Index = 0\<rparr>], tmSenders = [], tmSenderAuditInfos = [], tmOutputs = [''1'', ''5''],
          tmOutputsMetadata = [''i'', ''i''], tmReceivers = [], tmReceiverAuditInfos = [], tmReceiverIsSender = [],
          tmExtraSigners = []\<rparr>],
      mdApplication = []\<rparr>"

text \<open>An encoding of this one request's metadata.\<close>

definition vault_asn1 :: asn1 where
  "vault_asn1 =
     \<lparr>asn1_marshal_meta = (\<lambda>m. Inr []), asn1_unmarshal_meta = (\<lambda>_. Inr \<lparr>msKeys = [], msVals = []\<rparr>),
      asn1_marshal_metadata = (\<lambda>m. Inr ''m''),
      asn1_unmarshal_metadata = (\<lambda>_. Inr
        \<lparr>serIssues = [], serTransfers = map transfer_ser (mdTransfers vault_md), serApplication = []\<rparr>)\<rparr>"

lemma vault_md_read: "NewMetadataFromBytes vault_asn1 (Some T) raw = Inr vault_md"
  by (simp add: NewMetadataFromBytes_def TokenRequestMetadata_FromBytes_def vault_asn1_def UnmarshalMeta_def
      vault_md_def transfer_ser_def transfer_unser_def)

definition vault_processor :: "net_state RWSetProcessor" where
  "vault_processor =
     NewTokenRWSetProcessor ''net''
       (\<lambda>_. Inr \<lparr>msExists = (\<lambda>_. True), msLoadTransient = (\<lambda>_. Inr [TokenRequestMetadataKey \<mapsto> ''m''])\<rparr>)
       ''ns'' (\<lambda>_ _ _. oret (Some vault_tms)) TMSAuthorization WalletIssued_Issued net_store vault_json vault_asn1
       (\<lambda>i. i = [])"

definition vault_tx :: proc_tx where
  "vault_tx = \<lparr>ptxNetwork = ''net'', ptxChannel = ''ch'', ptxID = ''x'', ptxFunction = ''invoke''\<rparr>"

text \<open>The keys of the ledger and of the vault, written out.\<close>

definition parts_key :: "string list \<Rightarrow> string" where
  "parts_key xs = CHR 0x00 # concat (map (\<lambda>x. x @ [CHR 0x00]) xs)"

definition vault_writes_x :: "(string \<times> bytes) list" where
  "vault_writes_x =
     [(parts_key [''ztoken'', ''t'', ''0''], []), (parts_key [''ztoken'', ''x'', ''0''], ''1''),
      (parts_key [''ztoken'', ''x'', ''1''], ''5''), (parts_key [''ztoken'', ''token_request'', ''x''], ''h'')]"

definition vault_before :: "(string \<times> bytes) list" where
  "vault_before =
     [(parts_key [''ztoken'', ''mine'', ''t'', ''0''], [CHR 0x01]), (parts_key [''token'', ''t'', ''0''], ''1''),
      (parts_key [''etoken'', ''alice'', ''USD'', ''t'', ''0''], ''1'')]"

definition vault_metas :: "string \<Rightarrow> meta" where
  "vault_metas = (\<lambda>_. Map.empty)(parts_key [''token'', ''t'', ''0''] := [Info \<mapsto> ''i'', IDs \<mapsto> ''I''])"

definition net_before :: net_state where
  "net_before =
     \<lparr>nsCommitted = list_state vault_before vault_metas, nsWrites = vault_writes_x, nsMetas = vault_metas, nsEvents = []\<rparr>"


text \<open>What the processor makes of it.\<close>

definition vault_writes_after :: "(string \<times> bytes) list" where
  "vault_writes_after =
     vault_writes_x @
     [(parts_key [''etoken'', ''alice'', ''USD'', ''t'', ''0''], []), (parts_key [''token'', ''t'', ''0''], []),
      (parts_key [''deltoken'', ''t'', ''0''], ''x''),
      (parts_key [''ztoken'', ''mine'', ''x'', ''0''], [CHR 0x01]), (parts_key [''token'', ''x'', ''0''], ''1''),
      (parts_key [''etoken'', ''alice'', ''USD'', ''x'', ''0''], ''1''),
      (parts_key [''ztoken'', ''mine'', ''x'', ''1''], [CHR 0x01]), (parts_key [''token'', ''x'', ''1''], ''5''),
      (parts_key [''etoken'', ''alice'', ''USD'', ''x'', ''1''], ''5'')]"

lemma vault_run:
  obtains t where "fabric_Process vault_processor vault_tx net_rws ''ns'' net_before = Some (Inr (), t)"
    "nsWrites t = vault_writes_after"
proof -
  have "map_option (\<lambda>x. (fst x, nsWrites (snd x))) (fabric_Process vault_processor vault_tx net_rws ''ns'' net_before)
      = Some (Inr (), vault_writes_after)"
    by code_simp
  with that show ?thesis by auto
qed

definition vault_engine :: "(string \<times> bytes) list \<Rightarrow> (string \<Rightarrow> meta) \<Rightarrow> (string \<Rightarrow> UnspentToken option) Engine" where
  "vault_engine al ms = map_engine \<lparr>NewQueryExecutor = Inr (list_executor al ms), TransactionStatus = (\<lambda>_. Inr 1)\<rparr> ''ns''"

lemma vault_listed:
  "fst (Engine_ListUnspentTokensBy vault_json (vault_engine (vault_writes_after @ vault_before) ms) ''alice'' ''USD'' (\<lambda>_. None))
     = Inr [\<lparr>utId = \<lparr>TxId = ''x'', Index = 0\<rparr>, utOwner = Some ''alice'', utType = ''USD'', utQuantity = ''1''\<rparr>,
            \<lparr>utId = \<lparr>TxId = ''x'', Index = 1\<rparr>, utOwner = Some ''alice'', utType = ''USD'', utQuantity = ''5''\<rparr>]"
  by code_simp

end
