(* ===== verification/Vault_Properties.thy ===== *)
theory Vault_Properties
  imports Vault_Example
begin

text \<open>
  The vault of a node from the transactions to the wallets: what the processor puts in is
  what the queries list, what a transaction spends is gone, and the index of a token's
  entries stays complete. The network's read-write set and the vault's query executor are
  any that satisfy the laws of \<open>fabric_vault\<close> and \<open>vault_reader\<close>.
\<close>

section \<open>The entries of one token\<close>

definition vault_key :: "string \<Rightarrow> u64 \<Rightarrow> string \<Rightarrow> bool" where
  "vault_key tx i k \<longleftrightarrow>
     CreateFabTokenKey tx i = Inr k \<or> CreateDeletedTokenKey tx i = Inr k \<or> CreateAuditTokenKey tx i = Inr k
     \<or> CreateIssuedHistoryTokenKey tx i = Inr k \<or> CreateTokenMineKey tx i = Inr k
     \<or> (\<exists>w ty. CreateExtendedFabTokenKey w ty tx i = Inr k)"

lemma vault_key_parts:
  assumes "vault_key tx i k"
  shows "\<exists>xs. split_components [] (drop 1 k) = xs @ [tx, FormatUint10 i]"
proof -
  have "\<exists>xs. ot # atts = xs @ [tx, FormatUint10 i] \<and> CreateCompositeKey ot atts = Inr k \<Longrightarrow> ?thesis" for ot atts
    using CreateCompositeKey_parts by metis
  moreover have "\<exists>ot atts xs. ot # atts = xs @ [tx, FormatUint10 i] \<and> CreateCompositeKey ot atts = Inr k"
  proof -
    have 1: "ot # [tx, FormatUint10 i] = [ot] @ [tx, FormatUint10 i]" for ot by simp
    have 2: "ot # [a, tx, FormatUint10 i] = [ot, a] @ [tx, FormatUint10 i]" for ot a by simp
    have 3: "ot # [a, b, tx, FormatUint10 i] = [ot, a, b] @ [tx, FormatUint10 i]" for ot a b by simp
    show ?thesis
      using assms unfolding vault_key_def key_defs by (elim disjE exE) (use 1 2 3 in metis)+
  qed
  ultimately show ?thesis by blast
qed

lemma vault_key_unique:
  assumes "vault_key tx i k" and "vault_key tx' j k"
  shows "tx = tx' \<and> i = j"
  using vault_key_parts [OF assms(1)] vault_key_parts [OF assms(2)] by (auto simp: FormatUint10_inject)

lemma the_key_eq: "the_key r = k \<Longrightarrow> k \<noteq> [] \<Longrightarrow> r = Inr k"
  by (auto simp: the_key_def split: sum.splits)

lemma composite_nonempty: "CreateCompositeKey ot atts = Inr k \<Longrightarrow> k \<noteq> []"
  by (auto simp: CreateCompositeKey_eq)

lemma vault_key_nonempty: "vault_key tx i k \<Longrightarrow> k \<noteq> []"
  by (auto simp: vault_key_def key_defs dest: composite_nonempty)

lemma token_keys_are_vault_keys:
  assumes "k \<noteq> []"
  shows "fab_key tx i = k \<Longrightarrow> vault_key tx i k" "deleted_key tx i = k \<Longrightarrow> vault_key tx i k"
    "wallet_key ty tx i w = k \<Longrightarrow> vault_key tx i k" "the_key (CreateAuditTokenKey tx i) = k \<Longrightarrow> vault_key tx i k"
    "the_key (CreateIssuedHistoryTokenKey tx i) = k \<Longrightarrow> vault_key tx i k"
    "the_key (CreateTokenMineKey tx i) = k \<Longrightarrow> vault_key tx i k"
  unfolding vault_key_def fab_key_def deleted_key_def wallet_key_def
  using the_key_eq [OF _ assms] by blast+

text \<open>The extended entries are the ones for wallets.\<close>

lemma vault_key_extended:
  assumes "vault_key tx i k" and "extended_key k"
  shows "\<exists>w ty. CreateExtendedFabTokenKey w ty tx i = Inr k"
proof -
  have *: "CreateCompositeKey ot atts = Inr k \<Longrightarrow> ot = FabTokenExtendedKeyPrefix" for ot atts
    using assms(2) CreateCompositeKey_parts by (auto simp: extended_key_def)
  show ?thesis
    using assms(1) unfolding vault_key_def key_defs by (auto dest!: * simp: key_consts)
qed

lemma extended_wallet_key: "CreateExtendedFabTokenKey w ty tx i = Inr k \<Longrightarrow> extended_key k"
  using CreateCompositeKey_parts by (auto simp: extended_key_def CreateExtendedFabTokenKey_def)

section \<open>What the effects leave alone\<close>

definition same_at :: "string \<Rightarrow> vault_state \<Rightarrow> vault_state \<Rightarrow> bool" where
  "same_at k v v' \<longleftrightarrow> vals v k = vals v' k \<and> metas v k = metas v' k"

lemma same_at_trans: "same_at k u v \<Longrightarrow> same_at k v x \<Longrightarrow> same_at k u x"
  by (simp add: same_at_def)

lemma same_at_refl [simp]: "same_at k v v"
  by (simp add: same_at_def)

lemma listed_keys_of: "k \<in> listed_keys J v tx i \<Longrightarrow> \<exists>ty w. k = wallet_key ty tx i w"
  by (auto simp: listed_keys_def split: option.splits sum.splits if_splits)

lemma deleted_token_frame:
  assumes "k \<noteq> []" and "\<not> vault_key tx i k"
  shows "same_at k (deleted_token tx i (listed_keys J c tx i) by' v) v"
proof -
  have "k \<noteq> fab_key tx i" "k \<noteq> deleted_key tx i" "k \<notin> listed_keys J c tx i"
    using assms(2) token_keys_are_vault_keys(1,2) [OF assms(1)] listed_keys_of [of k J c tx i]
      token_keys_are_vault_keys(3) [OF assms(1)] by metis+
  then show ?thesis by (simp add: same_at_def deleted_token_def)
qed

lemma store_effect_frame:
  assumes "k \<noteq> []" and "\<not> vault_key tx i k"
  shows "same_at k (store_effect J tx i tok info ids v) v"
proof -
  have "k \<noteq> fab_key tx i" "k \<notin> wallet_key (tokType tok) tx i ` X" for X
    using assms(2) token_keys_are_vault_keys [OF assms(1)] by blast+
  then show ?thesis by (simp add: same_at_def store_effect_def stored_token_def store_at_def)
qed

lemma put_frame: "k' \<noteq> k \<Longrightarrow> same_at k (put_meta k' m (put_val k' b v)) v" "k' \<noteq> k \<Longrightarrow> same_at k (put_val k' b v) v"
  by (simp_all add: same_at_def put_meta_def put_val_def)

lemma output_effect_frame:
  assumes "k \<noteq> []" and "\<not> vault_key tx i k"
  shows "same_at k (output_effect p tms md tx i val v) v"
proof (cases "Metadata_GetToken (ptDriver tms) md val")
  case (Inr r)
  obtain tok issuer info where r: "r = (tok, issuer, info)" by (cases r) auto
  note vk = token_keys_are_vault_keys [OF assms(1)]
  have 1: "same_at k (mine_effect p tms tx i tok info v) v"
  proof -
    have "same_at k (store_effect J tx i tok info ids (put_val (the_key (CreateTokenMineKey tx i)) [CHR 0x01] v)) v" for J ids
      by (rule same_at_trans [OF store_effect_frame [OF assms] put_frame(2)]) (use vk assms in blast)
    then show ?thesis by (simp add: mine_effect_def split: sum.split prod.split bool.split)
  qed
  have 2: "same_at k (audit_effect J tx i tok info u) u" for J u
    unfolding audit_effect_def Let_def by (rule put_frame(1)) (use vk assms in blast)
  have 3: "same_at k (issued_effect J tx i tok issuer info u) u" for J u
    unfolding issued_effect_def Let_def by (rule put_frame(1)) (use vk assms in blast)
  show ?thesis
    using 1 2 3 Inr r by (simp add: output_effect_def Let_def same_at_def)
qed (simp add: output_effect_def)

lemma write_effect_frame:
  assumes "k \<noteq> []" and "\<And>tx i. ledger_token (fst w) = Some (tx, i) \<Longrightarrow> \<not> vault_key tx i k"
  shows "same_at k (write_effect p tms md c txID w v) v"
proof (cases "ledger_token (fst w)")
  case (Some tk)
  obtain tx i where tk: "tk = (tx, i)" by (cases tk)
  from assms(2) Some tk have "\<not> vault_key tx i k" by simp
  from deleted_token_frame [OF assms(1) this] output_effect_frame [OF assms(1) this, of p tms md "snd w" v] Some tk
  show ?thesis by (simp add: write_effect_def)
qed (simp add: write_effect_def)

lemma writes_frame:
  assumes "k \<noteq> []" and "\<And>w tx i. w \<in> set L \<Longrightarrow> ledger_token (fst w) = Some (tx, i) \<Longrightarrow> \<not> vault_key tx i k"
  shows "same_at k (fold (write_effect p tms md c txID) L v) v"
  using assms(2)
proof (induction L arbitrary: v)
  case (Cons w L)
  have "same_at k (fold (write_effect p tms md c txID) L (write_effect p tms md c txID w v)) (write_effect p tms md c txID w v)"
    by (rule Cons.IH) (use Cons.prems in auto)
  moreover have "same_at k (write_effect p tms md c txID w v) v"
    by (rule write_effect_frame [OF assms(1)]) (use Cons.prems [of w] in auto)
  ultimately show ?case by (auto intro: same_at_trans)
qed simp

section \<open>One write decides the entries of a token\<close>

definition ledger_log :: "(string \<times> bytes) list \<Rightarrow> bool" where
  "ledger_log L \<longleftrightarrow> distinct (map fst L) \<and> ledger_writes L
     \<and> (\<forall>k \<in> fst ` set L. \<forall>tx i. ledger_token k = Some (tx, i) \<longrightarrow> CreateTokenKey tx i = Inr k)"

lemma ledger_token_CreateTokenKey:
  assumes "CreateTokenKey tx i = Inr k" and "tx \<notin> set skipped_components"
  shows "ledger_token k = Some (tx, i)"
proof -
  have "SplitCompositeKey k = Inr (TokenKeyPrefix, [tx, FormatUint10 i])"
    by (rule Split_Create) (use assms(1) in \<open>simp_all add: CreateTokenKey_def\<close>)
  then show ?thesis using assms(2) by (simp add: ledger_token_def)
qed

text \<open>
  Of all the writes only one is about a token, and where the vault does not know of it, none:
  on the entries of the token the writes before and after it have no effect.
\<close>

lemma one_write_decides:
  assumes L: "ledger_log L" and w: "(key, val) \<in> set L" and t: "ledger_token key = Some (tx, i)"
  shows "\<exists>u. \<forall>k. vault_key tx i k \<longrightarrow> same_at k u v
    \<and> same_at k (fold (write_effect p tms md c txID) L v) (write_effect p tms md c txID (key, val) u)"
proof -
  obtain A B where AB: "L = A @ (key, val) # B" using w by (auto dest: split_list)
  have d: "fst x \<noteq> key" if "x \<in> set A \<union> set B" for x
    using that L by (auto simp: ledger_log_def AB)
  have other: "\<not> vault_key tx' j k" if "x \<in> set A \<union> set B" "ledger_token (fst x) = Some (tx', j)" "vault_key tx i k" for x tx' j k
  proof
    assume "vault_key tx' j k"
    with that(3) have "tx' = tx" "j = i" using vault_key_unique by blast+
    moreover have "CreateTokenKey tx' j = Inr (fst x)" "CreateTokenKey tx i = Inr key"
      using L that(1,2) t by (auto simp: ledger_log_def AB)
    ultimately show False using d [OF that(1)] by simp
  qed
  define u where "u = fold (write_effect p tms md c txID) A v"
  have "same_at k u v \<and> same_at k (fold (write_effect p tms md c txID) L v) (write_effect p tms md c txID (key, val) u)"
    if k: "vault_key tx i k" for k
  proof -
    note ne = vault_key_nonempty [OF k]
    have "same_at k (fold (write_effect p tms md c txID) B (write_effect p tms md c txID (key, val) u))
        (write_effect p tms md c txID (key, val) u)"
      by (rule writes_frame [OF ne]) (rule other [OF _ _ k]; auto)
    moreover have "same_at k u v"
      unfolding u_def by (rule writes_frame [OF ne]) (rule other [OF _ _ k]; auto)
    ultimately show ?thesis by (simp add: AB u_def)
  qed
  then show ?thesis by blast
qed

section \<open>A transaction that was processed\<close>

text \<open>
  The transaction is in the processor's namespace and network, the node knows it and has its
  metadata, and processing it ends without an error.
\<close>

definition processed ::
  "'s RWSetProcessor \<Rightarrow> proc_tx \<Rightarrow> 's net_rws \<Rightarrow> string \<Rightarrow> 's proc_tms \<Rightarrow> TokenRequestMetadata \<Rightarrow> 's \<Rightarrow> 's \<Rightarrow> bool" where
  "processed p tx R ns tms md s t \<longleftrightarrow>
     ns \<in> set (pNss p) \<and> ptxNetwork tx = pNetworkName p \<and> ptxFunction tx \<noteq> ''init''
     \<and> (\<exists>ms transient raw. pChannel p (ptxChannel tx) = Inr ms \<and> msExists ms (ptxID tx)
          \<and> msLoadTransient ms (ptxID tx) = Inr transient \<and> transient TokenRequestMetadataKey = Some raw
          \<and> NewMetadataFromBytes (pAsn1 p) (Some tms) raw = Inr md)
     \<and> pGetManagementService p (ptxNetwork tx) (ptxChannel tx) ns s = (Inr (Some tms), s)
     \<and> fabric_Process p tx R ns s = Some (Inr (), t)"

lemma processed_effect:
  assumes "fabric_vault R ns log cts com pend" and "pTokenStore p = cts" and "ledger_writes (log s)"
    and "processed p tx R ns tms md s t"
  shows "com t = com s \<and> pend t = fold (write_effect p tms md (com s) (ptxID tx)) (log s)
     (if PPM_GraphHiding (ptPPM tms) = Inr True then spent_effect (pJson p) (com s) (ptxID tx) (SpentTokenID md) (pend s)
      else pend s)
    \<and> own_outputs (ptxID tx) (log s)"
proof -
  from assms(4) obtain ms transient raw where
    "pChannel p (ptxChannel tx) = Inr ms" "msExists ms (ptxID tx)"
    "msLoadTransient ms (ptxID tx) = Inr transient" "transient TokenRequestMetadataKey = Some raw"
    "NewMetadataFromBytes (pAsn1 p) (Some tms) raw = Inr md"
    "pGetManagementService p (ptxNetwork tx) (ptxChannel tx) ns s = (Inr (Some tms), s)"
    "fabric_tokenRequest p tx R ns s = Some (Inr (), t)"
    by (auto simp: processed_def fabric_Process_def)
  with fabric_vault.fabric_tokenRequest_effect [OF assms(1,3,2)] show ?thesis by blast
qed

text \<open>
  JSON gives back what was written when the strings are text: it replaces bytes that are not
  UTF-8.
\<close>

definition json_laws :: "store_json \<Rightarrow> bool" where
  "json_laws J \<longleftrightarrow>
     (\<forall>tok raw. marshal_Tok J tok = Inr raw \<and> valid_attribute (tokType tok) \<and> valid_attribute (tokQuantity tok) \<longrightarrow>
        raw \<noteq> [] \<and> unmarshal_Tok J raw = Inr tok)
     \<and> (\<forall>ids raw. marshal_IDs J ids = Inr raw \<and> list_all valid_attribute ids \<longrightarrow>
        raw \<noteq> [] \<and> unmarshal_IDs J raw = Inr ids)"

definition unspent_of :: "string \<Rightarrow> u64 \<Rightarrow> Token \<Rightarrow> UnspentToken" where
  "unspent_of tx i tok =
     \<lparr>utId = \<lparr>TxId = tx, Index = i\<rparr>, utOwner = tokOwner tok, utType = tokType tok, utQuantity = tokQuantity tok\<rparr>"

text \<open>The entries for wallets differ from the other entries of a token.\<close>

lemma wallet_key_others:
  assumes k: "CreateExtendedFabTokenKey w ty tx i = Inr k"
  shows "fab_key tx' j \<noteq> k" "deleted_key tx' j \<noteq> k" "the_key (CreateAuditTokenKey tx' j) \<noteq> k"
    "the_key (CreateIssuedHistoryTokenKey tx' j) \<noteq> k" "the_key (CreateTokenMineKey tx' j) \<noteq> k"
proof -
  have ne: "k \<noteq> []" using k by (auto simp: key_defs dest: composite_nonempty)
  have *: "\<And>ot atts. CreateCompositeKey ot atts = Inr k \<Longrightarrow> ot = FabTokenExtendedKeyPrefix"
    using k CreateCompositeKey_inject unfolding key_defs by blast
  show "fab_key tx' j \<noteq> k" "deleted_key tx' j \<noteq> k" "the_key (CreateAuditTokenKey tx' j) \<noteq> k"
    "the_key (CreateIssuedHistoryTokenKey tx' j) \<noteq> k" "the_key (CreateTokenMineKey tx' j) \<noteq> k"
    using the_key_eq [OF _ ne] * unfolding fab_key_def deleted_key_def key_defs
    by (force simp: key_consts)+
qed

lemma fab_key_others:
  assumes k: "CreateFabTokenKey tx i = Inr k"
  shows "deleted_key tx' j \<noteq> k" "the_key (CreateAuditTokenKey tx' j) \<noteq> k"
    "the_key (CreateIssuedHistoryTokenKey tx' j) \<noteq> k" "the_key (CreateTokenMineKey tx' j) \<noteq> k"
    "wallet_key ty tx' j w \<noteq> k"
proof -
  have ne: "k \<noteq> []" using k by (auto simp: key_defs dest: composite_nonempty)
  have *: "\<And>ot atts. CreateCompositeKey ot atts = Inr k \<Longrightarrow> ot = FabTokenKeyPrefix"
    using k CreateCompositeKey_inject unfolding key_defs by blast
  show "deleted_key tx' j \<noteq> k" "the_key (CreateAuditTokenKey tx' j) \<noteq> k"
    "the_key (CreateIssuedHistoryTokenKey tx' j) \<noteq> k" "the_key (CreateTokenMineKey tx' j) \<noteq> k"
    "wallet_key ty tx' j w \<noteq> k"
    using the_key_eq [OF _ ne] * unfolding deleted_key_def wallet_key_def key_defs
    by (force simp: key_consts)+
qed

text \<open>What an output puts under the entries for wallets and under the token's own key.\<close>

lemma output_effect_wallet:
  assumes k: "CreateExtendedFabTokenKey w ty tx i = Inr k"
    and g: "Metadata_GetToken (ptDriver tms) md val = Inr (tok, issuer, info)"
    and m: "authIsMine (pOwnership p) tms tok = Inr (ids, mine)"
  shows "vals (output_effect p tms md tx i val v) k =
     (if mine \<and> k \<in> wallet_key (tokType tok) tx i ` (set ids - {[]}) then projr (marshal_Tok (pJson p) tok) else vals v k)"
  using wallet_key_others [OF k, of tx i]
  by (cases mine) (auto simp: output_effect_def g Let_def mine_effect_def m audit_effect_def issued_effect_def
      put_meta_def put_val_def store_effect_def stored_token_def store_at_def)

lemma output_effect_fab:
  assumes k: "CreateFabTokenKey tx i = Inr k"
    and g: "Metadata_GetToken (ptDriver tms) md val = Inr (tok, issuer, info)"
    and m: "authIsMine (pOwnership p) tms tok = Inr (ids, mine)"
  shows "vals (output_effect p tms md tx i val v) k = (if mine then projr (marshal_Tok (pJson p) tok) else vals v k)"
    and "metas (output_effect p tms md tx i val v) k = (if mine then token_meta (pJson p) info ids else metas v k)"
proof -
  have "fab_key tx i = k" using k by (simp add: fab_key_def the_key_def)
  moreover have "k \<notin> wallet_key ty tx i ` X" for ty X using fab_key_others(5) [OF k] by blast
  ultimately show
    "vals (output_effect p tms md tx i val v) k = (if mine then projr (marshal_Tok (pJson p) tok) else vals v k)"
    "metas (output_effect p tms md tx i val v) k = (if mine then token_meta (pJson p) info ids else metas v k)"
    using fab_key_others(1-4) [OF k, of tx i]
    by (cases mine; auto simp: output_effect_def g Let_def mine_effect_def m audit_effect_def issued_effect_def
        put_meta_def put_val_def store_effect_def stored_token_def store_at_def)+
qed

section \<open>The index of wallets\<close>

text \<open>
  Every entry for a wallet is built by \<open>CreateExtendedFabTokenKey\<close>, and is listed in the
  metadata of its token, so that a deletion finds it. The state of the vault before the
  transaction has that index, and the transaction's own writes are to keys of the ledger.
\<close>

definition indexed :: "store_json \<Rightarrow> vault_state \<Rightarrow> string \<Rightarrow> u64 \<Rightarrow> bool" where
  "indexed J v tx i \<longleftrightarrow>
     (\<forall>k w ty. CreateExtendedFabTokenKey w ty tx i = Inr k \<and> vals v k \<noteq> [] \<longrightarrow> k \<in> listed_keys J v tx i)"

definition wallet_index :: "store_json \<Rightarrow> vault_state \<Rightarrow> bool" where
  "wallet_index J v \<longleftrightarrow>
     (\<forall>k. extended_key k \<and> vals v k \<noteq> [] \<longrightarrow> (\<exists>w ty tx i. CreateExtendedFabTokenKey w ty tx i = Inr k))
     \<and> (\<forall>tx i. indexed J v tx i)"

definition at_start :: "(string \<times> bytes) list \<Rightarrow> vault_state \<Rightarrow> vault_state \<Rightarrow> bool" where
  "at_start L c v \<longleftrightarrow> (\<forall>k. k \<notin> fst ` set L \<longrightarrow> vals v k = vals c k) \<and> metas v = metas c"

lemma vault_key_not_ledger:
  assumes "ledger_writes L" and "vault_key tx i k"
  shows "k \<notin> fst ` set L"
proof
  assume k: "k \<in> fst ` set L"
  have "foreign k \<or> (\<exists>tx i. CreateTokenMineKey tx i = Inr k)"
    using assms(2) foreign_keys unfolding vault_key_def by blast
  with k ledger_writes_not_foreign [OF assms(1) k] assms(1) show False by (auto simp: ledger_writes_def)
qed

lemma at_start_same: "ledger_writes L \<Longrightarrow> at_start L c v \<Longrightarrow> vault_key tx i k \<Longrightarrow> same_at k v c"
  using vault_key_not_ledger by (auto simp: at_start_def same_at_def)

lemma fab_vault_key: "CreateFabTokenKey tx i = Inr k \<Longrightarrow> vault_key tx i k"
  by (simp add: vault_key_def)

lemma wallet_vault_key: "CreateExtendedFabTokenKey w ty tx i = Inr k \<Longrightarrow> vault_key tx i k"
  by (auto simp: vault_key_def)

lemma extended_fab_key:
  assumes "CreateExtendedFabTokenKey w ty tx i = Inr k"
  obtains f where "CreateFabTokenKey tx i = Inr f" "fab_key tx i = f"
proof -
  have "valid_attribute tx" using assms by (auto simp: key_defs CreateCompositeKey_eq)
  moreover have "valid_attribute FabTokenKeyPrefix" by (simp add: FabTokenKeyPrefix_def valid_attribute_ascii)
  ultimately have "\<exists>f. CreateFabTokenKey tx i = Inr f" by (simp add: CreateFabTokenKey_def CreateCompositeKey_eq)
  with that show ?thesis by (auto simp: fab_key_def the_key_def)
qed

text \<open>The index of a token depends on the token's own entries.\<close>

lemma indexed_same:
  assumes "indexed J v tx i" and "\<And>k. vault_key tx i k \<Longrightarrow> same_at k v' v"
  shows "indexed J v' tx i"
  unfolding indexed_def
proof (intro allI impI)
  fix k w ty
  assume k: "CreateExtendedFabTokenKey w ty tx i = Inr k \<and> vals v' k \<noteq> []"
  then obtain f where f: "CreateFabTokenKey tx i = Inr f" "fab_key tx i = f" by (auto elim: extended_fab_key)
  have "vals v' f = vals v f" "metas v' f = metas v f"
    using assms(2) [OF fab_vault_key [OF f(1)]] by (simp_all add: same_at_def)
  then have "listed_keys J v' tx i = listed_keys J v tx i" by (simp only: listed_keys_def f(2))
  moreover have "vals v k \<noteq> []" using assms(2) k wallet_vault_key by (auto simp: same_at_def)
  ultimately show "k \<in> listed_keys J v' tx i" using assms(1) k by (auto simp: indexed_def)
qed

lemma deleted_clears:
  assumes "CreateExtendedFabTokenKey w ty tx i = Inr k" and "indexed J c tx i" and "vals v k = vals c k"
  shows "vals (deleted_token tx i (listed_keys J c tx i) by' v) k = []"
  using assms wallet_key_others(1,2) [OF assms(1), of tx i] by (auto simp: deleted_token_def indexed_def)

lemma output_indexed:
  assumes J: "json_laws J" "pJson p = J"
    and none: "\<And>w ty k. CreateExtendedFabTokenKey w ty tx i = Inr k \<Longrightarrow> vals v k = []"
    and ok: "\<And>tok issuer info ids. Metadata_GetToken (ptDriver tms) md val = Inr (tok, issuer, info) \<Longrightarrow>
        authIsMine (pOwnership p) tms tok = Inr (ids, True) \<Longrightarrow>
        list_all valid_attribute ids \<and> valid_attribute (tokType tok) \<and> valid_attribute (tokQuantity tok)
        \<and> (\<exists>raw. marshal_Tok J tok = Inr raw) \<and> (ids \<noteq> [] \<longrightarrow> (\<exists>r. marshal_IDs J ids = Inr r))"
  shows "indexed J (output_effect p tms md tx i val v) tx i"
  unfolding indexed_def
proof (intro allI impI)
  let ?v = "output_effect p tms md tx i val v"
  fix k w ty
  assume k: "CreateExtendedFabTokenKey w ty tx i = Inr k \<and> vals ?v k \<noteq> []"
  have n: "vals v k = []" using none k by blast
  obtain tok issuer info where g: "Metadata_GetToken (ptDriver tms) md val = Inr (tok, issuer, info)"
    using k n by (cases "Metadata_GetToken (ptDriver tms) md val") (auto simp: output_effect_def)
  obtain ids mine where m: "authIsMine (pOwnership p) tms tok = Inr (ids, mine)"
  proof (cases "authIsMine (pOwnership p) tms tok")
    case (Inl err)
    then have "vals ?v k = vals v k"
      using wallet_key_others(3,4) [of w ty tx i k tx i] k
      by (simp add: output_effect_def g Let_def mine_effect_def audit_effect_def issued_effect_def put_meta_def put_val_def)
    with k n have False by simp
    then show ?thesis ..
  next
    case (Inr r)
    with that show ?thesis by (cases r) auto
  qed
  have mine: mine and kin: "k \<in> wallet_key (tokType tok) tx i ` (set ids - {[]})"
    using k n output_effect_wallet [OF _ g m, of w ty tx i k v] by (auto split: if_splits)
  obtain f where f: "CreateFabTokenKey tx i = Inr f" "fab_key tx i = f"
    using k by (auto elim: extended_fab_key)
  have "ids \<noteq> []" using kin by auto
  with ok [OF g, of ids] m mine obtain raw r where "list_all valid_attribute ids"
    "marshal_Tok J tok = Inr raw" "valid_attribute (tokType tok)" "valid_attribute (tokQuantity tok)"
    "marshal_IDs J ids = Inr r" by auto
  with \<open>ids \<noteq> []\<close> have "unmarshal_Tok J raw = Inr tok" "r \<noteq> []" "unmarshal_IDs J r = Inr ids"
    "vals ?v f = raw" "metas ?v f = [Info \<mapsto> info, IDs \<mapsto> r]"
    using J output_effect_fab [OF f(1) g m, of v] mine by (auto simp: json_laws_def token_meta_def)
  then have "listed_keys J ?v tx i = wallet_key (tokType tok) tx i ` set ids"
    by (simp add: listed_keys_def f(2))
  with kin show "k \<in> listed_keys J ?v tx i" by auto
qed

text \<open>
  What the transaction carries is text and can be encoded, and the vault has no entry of the
  transaction yet.
\<close>

definition encodable :: "'s RWSetProcessor \<Rightarrow> 's proc_tms \<Rightarrow> TokenRequestMetadata \<Rightarrow> bool" where
  "encodable p tms md \<longleftrightarrow>
     (\<forall>val tok issuer info ids. Metadata_GetToken (ptDriver tms) md val = Inr (tok, issuer, info)
        \<and> authIsMine (pOwnership p) tms tok = Inr (ids, True) \<longrightarrow>
        list_all valid_attribute ids \<and> valid_attribute (tokType tok) \<and> valid_attribute (tokQuantity tok)
        \<and> (\<exists>raw. marshal_Tok (pJson p) tok = Inr raw) \<and> (ids \<noteq> [] \<longrightarrow> (\<exists>r. marshal_IDs (pJson p) ids = Inr r)))"

definition fresh_in :: "vault_state \<Rightarrow> string \<Rightarrow> bool" where
  "fresh_in v tx \<longleftrightarrow> (\<forall>i k. vault_key tx i k \<longrightarrow> vals v k = [])"

lemma extended_not_ledger: "ledger_writes L \<Longrightarrow> extended_key k \<Longrightarrow> k \<notin> fst ` set L"
  using CreateCompositeKey_parts by (force simp: ledger_writes_def extended_key_def key_consts)

lemma writes_indexed:
  assumes L: "ledger_log L" and J: "json_laws (pJson p)" and enc: "encodable p tms md"
    and c: "indexed (pJson p) c tx i" and start: "at_start L c v" and fresh: "fresh_in c txID" and own: "own_outputs txID L"
  shows "indexed (pJson p) (fold (write_effect p tms md c txID) L v) tx i"
proof -
  have L': "ledger_writes L" using L by (simp add: ledger_log_def)
  note start_same = at_start_same [OF L' start]
  let ?t = "fold (write_effect p tms md c txID) L v"
  show ?thesis
  proof (cases "\<exists>w \<in> set L. ledger_token (fst w) = Some (tx, i)")
    case False
    have "same_at k ?t c" if k: "vault_key tx i k" for k
    proof (rule same_at_trans [OF writes_frame [OF vault_key_nonempty [OF k]] start_same [OF k]])
      fix w tx' j
      assume "w \<in> set L" "ledger_token (fst w) = Some (tx', j)"
      then show "\<not> vault_key tx' j k" using False vault_key_unique [OF k] by auto
    qed
    with c show ?thesis by (rule indexed_same)
  next
    case True
    then obtain key val where w: "(key, val) \<in> set L" "ledger_token key = Some (tx, i)" by auto
    obtain u where u: "\<And>k. vault_key tx i k \<Longrightarrow> same_at k u v"
      and t: "\<And>k. vault_key tx i k \<Longrightarrow> same_at k ?t (write_effect p tms md c txID (key, val) u)"
      using one_write_decides [OF L w] by blast
    have uc: "same_at k u c" if "vault_key tx i k" for k
      using u [OF that] start_same [OF that] by (rule same_at_trans)
    have "indexed (pJson p) (write_effect p tms md c txID (key, val) u) tx i"
    proof (cases "val = []")
      case True
      have "vals (deleted_token tx i (listed_keys (pJson p) c tx i) txID u) k = []"
        if "CreateExtendedFabTokenKey w' ty tx i = Inr k" for w' ty k
        by (rule deleted_clears [OF that c]) (use uc wallet_vault_key [OF that] in \<open>simp add: same_at_def\<close>)
      with True w(2) show ?thesis by (auto simp: write_effect_def indexed_def)
    next
      case False
      with own w have tx: "tx = txID" by (force simp: own_outputs_def)
      have none: "vals u k = []" if "CreateExtendedFabTokenKey w' ty tx i = Inr k" for w' ty k
        using uc fresh wallet_vault_key [OF that] tx by (simp add: fresh_in_def same_at_def)
      have "indexed (pJson p) (output_effect p tms md tx i val u) tx i"
        by (rule output_indexed [OF J refl none]) (use enc in \<open>auto simp: encodable_def\<close>)
      with False w(2) show ?thesis by (simp add: write_effect_def)
    qed
    then show ?thesis using t by (rule indexed_same)
  qed
qed

lemma extended_kept:
  assumes L: "ledger_writes L" and start: "at_start L c v"
    and k: "extended_key k" "vals (fold (write_effect p tms md c' txID) L v) k \<noteq> []"
    and c: "\<forall>k. extended_key k \<and> vals c k \<noteq> [] \<longrightarrow> (\<exists>w ty tx i. CreateExtendedFabTokenKey w ty tx i = Inr k)"
  shows "\<exists>w ty tx i. CreateExtendedFabTokenKey w ty tx i = Inr k"
proof (cases "\<exists>w \<in> set L. \<exists>tx i. ledger_token (fst w) = Some (tx, i) \<and> vault_key tx i k")
  case True
  then show ?thesis using vault_key_extended [OF _ k(1)] by blast
next
  case False
  have "k \<noteq> []" using k(1) by (auto simp: extended_key_def)
  then have "same_at k (fold (write_effect p tms md c' txID) L v) v" by (rule writes_frame) (use False in blast)
  moreover have "vals v k = vals c k"
    using start extended_not_ledger [OF L k(1)] by (simp add: at_start_def)
  ultimately show ?thesis using c k unfolding same_at_def by auto
qed

lemma wallet_index_kept:
  assumes "fabric_vault R ns log cts com pend" and "pTokenStore p = cts" and L: "ledger_log (log s)"
    and "processed p tx R ns tms md s t" and hide: "PPM_GraphHiding (ptPPM tms) = Inr False"
    and J: "json_laws (pJson p)" and enc: "encodable p tms md"
    and idx: "wallet_index (pJson p) (com s)" and start: "at_start (log s) (com s) (pend s)" and fresh: "fresh_in (com s) (ptxID tx)"
  shows "wallet_index (pJson p) (pend t)"
proof -
  have L': "ledger_writes (log s)" using L by (simp add: ledger_log_def)
  let ?t = "fold (write_effect p tms md (com s) (ptxID tx)) (log s) (pend s)"
  have t: "pend t = ?t" and own: "own_outputs (ptxID tx) (log s)"
    using processed_effect [OF assms(1,2) L' assms(4)] hide by simp_all
  have "\<exists>w ty tx i. CreateExtendedFabTokenKey w ty tx i = Inr k" if "extended_key k" "vals ?t k \<noteq> []" for k
    by (rule extended_kept [OF L' start that]) (use idx in \<open>simp add: wallet_index_def\<close>)
  moreover have "indexed (pJson p) ?t tx0 i" for tx0 i
    by (rule writes_indexed [OF L J enc _ start fresh own]) (use idx in \<open>simp add: wallet_index_def\<close>)
  ultimately show ?thesis by (simp add: wallet_index_def t)
qed

section \<open>The example transaction\<close>

lemma example_log: "ledger_log vault_writes_x"
proof -
  have k: "CreateCompositeKey TokenKeyPrefix [''t'', ''0''] = Inr (parts_key [''ztoken'', ''t'', ''0''])"
    "CreateCompositeKey TokenKeyPrefix [''x'', ''0''] = Inr (parts_key [''ztoken'', ''x'', ''0''])"
    "CreateCompositeKey TokenKeyPrefix [''x'', ''1''] = Inr (parts_key [''ztoken'', ''x'', ''1''])"
    "CreateCompositeKey TokenKeyPrefix [''token_request'', ''x''] = Inr (parts_key [''ztoken'', ''token_request'', ''x''])"
    by code_simp+
  have t: "ledger_token (parts_key [''ztoken'', ''t'', ''0'']) = Some (''t'', 0)"
    "ledger_token (parts_key [''ztoken'', ''x'', ''0'']) = Some (''x'', 0)"
    "ledger_token (parts_key [''ztoken'', ''x'', ''1'']) = Some (''x'', 1)"
    "ledger_token (parts_key [''ztoken'', ''token_request'', ''x'']) = None"
    "CreateTokenKey ''t'' 0 = Inr (parts_key [''ztoken'', ''t'', ''0''])"
    "CreateTokenKey ''x'' 0 = Inr (parts_key [''ztoken'', ''x'', ''0''])"
    "CreateTokenKey ''x'' 1 = Inr (parts_key [''ztoken'', ''x'', ''1''])"
    by code_simp+
  have m: "CreateTokenMineKey tx i \<noteq> Inr k'" if "CreateCompositeKey TokenKeyPrefix [a, b] = Inr k'" for tx i a b k'
    using CreateCompositeKey_inject [OF that] by (fastforce simp: CreateTokenMineKey_def)
  have d: "distinct (map fst vault_writes_x)" by (simp add: vault_writes_x_def parts_key_def)
  show ?thesis
    using d k t m by (auto simp: ledger_log_def ledger_writes_def vault_writes_x_def)
qed

lemma example_laws: "json_laws vault_json"
  by (auto simp: json_laws_def vault_json_def coin1_def coin5_def split: if_splits)

lemma example_processor:
  "pTokenStore vault_processor = net_store" "pJson vault_processor = vault_json" "ptxID vault_tx = ''x''"
  "PPM_GraphHiding (ptPPM vault_tms) = Inr False"
  by (simp_all add: vault_processor_def NewTokenRWSetProcessor_def vault_tx_def vault_tms_def PPM_GraphHiding_def vault_pp_def)

lemma example_processed:
  "processed vault_processor vault_tx net_rws ''ns'' vault_tms vault_md net_before t
     \<longleftrightarrow> fabric_Process vault_processor vault_tx net_rws ''ns'' net_before = Some (Inr (), t)"
  by (simp add: processed_def vault_processor_def NewTokenRWSetProcessor_def vault_tx_def vault_md_read TokenRequestMetadataKey_def)

lemma example_token:
  "Metadata_GetToken (ptDriver vault_tms) vault_md ''1'' = Inr (coin1, [], ''i'')"
  "Metadata_GetToken (ptDriver vault_tms) vault_md ''5'' = Inr (coin5, [], ''i'')"
  by code_simp+

lemma example_mine:
  "authIsMine (pOwnership vault_processor) vault_tms coin1 = Inr ([''alice''], True)"
  "authIsMine (pOwnership vault_processor) vault_tms coin5 = Inr ([''alice''], True)"
  by (simp_all add: vault_processor_def NewTokenRWSetProcessor_def TMSAuthorization_def TMSAuthorization_IsMine_def
      vault_tms_def vault_wallets_def coin1_def coin5_def owner_raw_def)

lemma example_text: "valid_attribute ''USD''" "valid_attribute ''1''" "valid_attribute ''5''" "valid_attribute ''alice''"
  by (simp_all add: valid_attribute_ascii)

lemma example_encodable: "encodable vault_processor vault_tms vault_md"
proof -
  have "tok = coin1 \<or> tok = coin5" if "Metadata_GetToken (ptDriver vault_tms) vault_md val = Inr (tok, issuer, info)"
    for val tok issuer info
    using that by (auto simp: Metadata_GetToken_def vault_tms_def vault_json_def go_simps split: if_splits)
  then show ?thesis
    using example_mine example_text unfolding encodable_def example_processor(2)
    by (auto simp: vault_json_def coin1_def coin5_def)
qed

lemma example_vault:
  assumes "vals (list_state vault_before vault_metas) k \<noteq> []"
  shows "k = parts_key [''ztoken'', ''mine'', ''t'', ''0''] \<or> k = parts_key [''token'', ''t'', ''0'']
    \<or> k = parts_key [''etoken'', ''alice'', ''USD'', ''t'', ''0'']"
  using assms by (auto simp: list_state_def vault_before_def split: if_splits)

lemma example_parts:
  "split_components [] (drop 1 (parts_key [''ztoken'', ''mine'', ''t'', ''0''])) = [''ztoken'', ''mine''] @ [''t'', ''0'']"
  "split_components [] (drop 1 (parts_key [''token'', ''t'', ''0''])) = [''token''] @ [''t'', ''0'']"
  "split_components [] (drop 1 (parts_key [''etoken'', ''alice'', ''USD'', ''t'', ''0''])) = [''etoken'', ''alice'', ''USD''] @ [''t'', ''0'']"
  "CreateExtendedFabTokenKey ''alice'' ''USD'' ''t'' 0 = Inr (parts_key [''etoken'', ''alice'', ''USD'', ''t'', ''0''])"
  by code_simp+

lemma example_fresh: "fresh_in (list_state vault_before vault_metas) ''x''"
  unfolding fresh_in_def
proof (intro allI impI)
  fix i k
  assume "vault_key ''x'' i k"
  then obtain xs where "split_components [] (drop 1 k) = xs @ [''x'', FormatUint10 i]" using vault_key_parts by blast
  then show "vals (list_state vault_before vault_metas) k = []"
    using example_vault [of k] example_parts(1-3) by fastforce
qed

lemma example_index: "wallet_index vault_json (list_state vault_before vault_metas)"
proof -
  let ?v = "list_state vault_before vault_metas" and ?k = "parts_key [''etoken'', ''alice'', ''USD'', ''t'', ''0'']"
  have e: "k = ?k" if "extended_key k" "vals ?v k \<noteq> []" for k
    using that(1) example_vault [OF that(2)] example_parts by (auto simp: extended_key_def FabTokenExtendedKeyPrefix_def)
  have "fab_key ''t'' 0 = parts_key [''token'', ''t'', ''0'']" by code_simp
  then have "listed_keys vault_json ?v ''t'' 0 = {wallet_key ''USD'' ''t'' 0 ''alice''}"
    by (simp add: listed_keys_def list_state_def vault_metas_def vault_before_def vault_json_def parts_key_def coin1_def)
  then have l: "?k \<in> listed_keys vault_json ?v ''t'' 0"
    using example_parts(4) by (simp add: wallet_key_def the_key_def)
  have "indexed vault_json ?v tx i" for tx i
    unfolding indexed_def
  proof (intro allI impI)
    fix k w ty
    assume k: "CreateExtendedFabTokenKey w ty tx i = Inr k \<and> vals ?v k \<noteq> []"
    then have "k = ?k" using e extended_wallet_key by blast
    moreover from this have "vault_key tx i ?k" "vault_key ''t'' 0 ?k"
      using k example_parts(4) by (auto simp: vault_key_def)
    ultimately show "k \<in> listed_keys vault_json ?v tx i" using vault_key_unique l by metis
  qed
  moreover have "\<exists>w ty tx i. CreateExtendedFabTokenKey w ty tx i = Inr k" if "extended_key k" "vals ?v k \<noteq> []" for k
    using e [OF that] example_parts(4) by blast
  ultimately show ?thesis by (auto simp: wallet_index_def)
qed

lemma example_start:
  "nsCommitted net_before = list_state vault_before vault_metas" "nsWrites net_before = vault_writes_x"
  "at_start vault_writes_x (list_state vault_before vault_metas) (net_pending net_before)"
proof -
  have "map_of vault_writes_x k = None" if "k \<notin> fst ` set vault_writes_x" for k
    using that by (simp add: map_of_eq_None_iff)
  then show "nsCommitted net_before = list_state vault_before vault_metas" "nsWrites net_before = vault_writes_x"
    "at_start vault_writes_x (list_state vault_before vault_metas) (net_pending net_before)"
    by (simp_all add: net_before_def net_pending_def at_start_def list_state_def)
qed

text \<open>The vault that has committed the processed transaction, and what it lists.\<close>

lemma example_reads:
  assumes "fabric_Process vault_processor vault_tx net_rws ''ns'' net_before = Some (Inr (), t)"
  obtains us c' where "nsWrites t = vault_writes_after"
    "Engine_ListUnspentTokensBy vault_json (vault_engine (nsWrites t @ vault_before) (nsMetas t)) ''alice'' ''USD'' (\<lambda>_. None) = (Inr us, c')"
    "vault_reader (list_executor (nsWrites t @ vault_before) (nsMetas t)) ns (net_pending t)"
proof -
  have w: "nsWrites t = vault_writes_after" using vault_run assms by auto
  have "net_pending t = list_state (nsWrites t @ vault_before) (nsMetas t)"
  proof (rule committed_list_state)
    have "processed vault_processor vault_tx net_rws ''ns'' vault_tms vault_md net_before t" using assms example_processed by simp
    from processed_effect [OF net.fabric_vault_axioms _ _ this]
    show "nsCommitted t = list_state vault_before vault_metas"
      using example_log example_start example_processor(1) by (simp add: ledger_log_def)
  qed
  then have "vault_reader (list_executor (nsWrites t @ vault_before) (nsMetas t)) ns (net_pending t)"
    using list_vault.vault_reader_axioms by simp
  with that w vault_listed [of "nsMetas t"] show ?thesis by (metis prod.collapse)
qed

lemma example_cache: "unspent_cache (vault_engine al ms) (\<lambda>c. c)"
  "NewQueryExecutor (eVault (vault_engine al ms)) = Inr (list_executor al ms)" "eNamespace (vault_engine al ms) = ''ns''"
  "coherent (\<lambda>c. c) J d (\<lambda>_. None)"
  using map_cache.unspent_cache_axioms
  by (simp_all add: vault_engine_def map_engine_def NewEngine_def coherent_def)

section \<open>Properties\<close>

text \<open>
  C12: a token that a transaction gives to a wallet of the node is in the wallet's list of
  unspent tokens once the transaction is processed, with its identifier, owner, type and
  quantity in the clear, both in the list of all types and in the one of its type.
\<close>
theorem received_token_listed:
  assumes "fabric_vault R ns log cts com pend" and "pTokenStore p = cts" and "ledger_log (log s)"
    and "processed p tx R ns tms md s t" and "json_laws (pJson p)"
    and "CreateTokenKey (ptxID tx) i = Inr key" and "ptxID tx \<notin> set skipped_components"
    and "(key, val) \<in> set (log s)" and "val \<noteq> []"
    and "Metadata_GetToken (ptDriver tms) md val = Inr (tok, issuer, info)"
    and "authIsMine (pOwnership p) tms tok = Inr (ids, True)" and "w \<in> set ids"
    and "marshal_Tok (pJson p) tok = Inr raw" and "valid_attribute (tokType tok)" and "valid_attribute (tokQuantity tok)"
    and "unspent_cache e contents" and "vault_reader q (eNamespace e) (pend t)" and "NewQueryExecutor (eVault e) = Inr q"
    and "coherent contents (pJson p) (vals (pend t)) c"
    and "Engine_ListUnspentTokensBy (pJson p) e w ty c = (Inr us, c')" and "ty = [] \<or> ty = tokType tok"
  shows "unspent_of (ptxID tx) i tok \<in> set us"
proof -
  let ?tx = "ptxID tx"
  obtain start where w: "w \<noteq> []" and start: "wallet_start w ty = Inr start"
    and us: "set us = {u. \<exists>k. start \<le> k \<and> k < start @ max_rune \<and> vals (pend t) k \<noteq> []
      \<and> decode (pJson p) True k (vals (pend t) k) = Inr u}"
    by (rule ListUnspentTokensBy_set [OF assms(16-20)])
  have "valid_attribute w" using start by (auto simp: wallet_start_def CreateCompositeKey_eq split: if_splits)
  moreover have "valid_attribute ?tx" using CreateTokenKey_valid [OF assms(6)] .
  ultimately have "\<exists>k. CreateExtendedFabTokenKey w (tokType tok) ?tx i = Inr k"
    using assms(14) by (simp add: CreateExtendedFabTokenKey_def CreateCompositeKey_eq FabTokenExtendedKeyPrefix_def valid_attribute_ascii)
  then obtain k where k: "CreateExtendedFabTokenKey w (tokType tok) ?tx i = Inr k" by blast
  have raw: "raw \<noteq> []" "unmarshal_Tok (pJson p) raw = Inr tok"
    using assms(5,13-15) by (auto simp: json_laws_def)
  have L: "ledger_writes (log s)" using assms(3) by (simp add: ledger_log_def)
  have lt: "ledger_token key = Some (?tx, i)" by (rule ledger_token_CreateTokenKey [OF assms(6,7)])
  obtain u where "same_at k (pend t) (write_effect p tms md (com s) ?tx (key, val) u)"
    using processed_effect [OF assms(1,2) L assms(4)] one_write_decides [OF assms(3,8) lt] wallet_vault_key [OF k] by metis
  moreover have "k \<in> wallet_key (tokType tok) ?tx i ` (set ids - {[]})"
    by (rule image_eqI [of _ _ w]) (use k w assms(12) in \<open>simp_all add: wallet_key_def the_key_def\<close>)
  ultimately have "vals (pend t) k = raw"
    using output_effect_wallet [OF k assms(10,11), of u] assms(9,13) by (simp add: same_at_def write_effect_def lt)
  moreover have "start \<le> k \<and> k < start @ max_rune"
    using wallet_range_iff [OF start k] assms(21) by auto
  ultimately show ?thesis
    using us raw decode_wallet_key [OF k raw(2)] by (auto simp: unspent_of_def)
qed

lemma received_token_listed_witness:
  "\<exists>t us c'. fabric_Process vault_processor vault_tx net_rws ''ns'' net_before = Some (Inr (), t)
    \<and> Engine_ListUnspentTokensBy vault_json (vault_engine (nsWrites t @ vault_before) (nsMetas t)) ''alice'' ''USD'' (\<lambda>_. None) = (Inr us, c')
    \<and> unspent_of ''x'' 0 coin1 \<in> set us"
proof -
  obtain t where t: "fabric_Process vault_processor vault_tx net_rws ''ns'' net_before = Some (Inr (), t)"
    by (rule vault_run)
  obtain us c' where w: "nsWrites t = vault_writes_after"
    and us: "Engine_ListUnspentTokensBy vault_json (vault_engine (nsWrites t @ vault_before) (nsMetas t)) ''alice'' ''USD'' (\<lambda>_. None) = (Inr us, c')"
    and r: "vault_reader (list_executor (nsWrites t @ vault_before) (nsMetas t)) ''ns'' (net_pending t)"
    by (rule example_reads [OF t])
  have k: "CreateTokenKey ''x'' 0 = Inr (parts_key [''ztoken'', ''x'', ''0''])" by code_simp
  have "unspent_of (ptxID vault_tx) 0 coin1 \<in> set us"
    by (rule received_token_listed [OF net.fabric_vault_axioms, where ns = "''ns''" and s = net_before and t = t and p = vault_processor
        and tx = vault_tx and tms = vault_tms and md = vault_md and key = "parts_key [''ztoken'', ''x'', ''0'']"
        and val = "''1''" and issuer = "[]" and info = "''i''" and ids = "[''alice'']" and w = "''alice''" and raw = "''1''"
        and e = "vault_engine (nsWrites t @ vault_before) (nsMetas t)" and contents = "\<lambda>c. c" and ty = "''USD''"
        and q = "list_executor (nsWrites t @ vault_before) (nsMetas t)" and c = "\<lambda>_. None" and c' = c'])
      (use t us r k example_log example_start example_laws example_token example_mine example_text in
        \<open>simp_all add: example_processor example_processed example_cache skipped_components_def key_consts
          vault_writes_x_def vault_json_def coin1_def\<close>)
  with t us show ?thesis by (simp only: example_processor) blast
qed

text \<open>
  C13: a token that a transaction spends is in no list of unspent tokens once the transaction
  is processed, of whatever wallet and type, provided that the vault listed the wallets of
  every token in its metadata (the invariant below). The driver does not hide the graph.
\<close>
theorem spent_token_gone:
  assumes "fabric_vault R ns log cts com pend" and "pTokenStore p = cts" and "ledger_log (log s)"
    and "processed p tx R ns tms md s t" and "PPM_GraphHiding (ptPPM tms) = Inr False"
    and "wallet_index (pJson p) (com s)" and "at_start (log s) (com s) (pend s)"
    and "CreateTokenKey tx0 i = Inr key" and "tx0 \<notin> set skipped_components" and "(key, []) \<in> set (log s)"
    and "json_laws (pJson p)" and "encodable p tms md" and "fresh_in (com s) (ptxID tx)"
    and "unspent_cache e contents" and "vault_reader q (eNamespace e) (pend t)" and "NewQueryExecutor (eVault e) = Inr q"
    and "coherent contents (pJson p) (vals (pend t)) c"
    and "Engine_ListUnspentTokensBy (pJson p) e w ty c = (Inr us, c')"
  shows "\<lparr>TxId = tx0, Index = i\<rparr> \<notin> utId ` set us"
proof
  assume "\<lparr>TxId = tx0, Index = i\<rparr> \<in> utId ` set us"
  moreover obtain start where start: "wallet_start w ty = Inr start"
    and us: "set us = {u. \<exists>k. start \<le> k \<and> k < start @ max_rune \<and> vals (pend t) k \<noteq> []
      \<and> decode (pJson p) True k (vals (pend t) k) = Inr u}"
    by (rule ListUnspentTokensBy_set [OF assms(14-18)])
  ultimately obtain k u where k: "start \<le> k" "k < start @ max_rune" "vals (pend t) k \<noteq> []"
    and u: "decode (pJson p) True k (vals (pend t) k) = Inr u" "utId u = \<lparr>TxId = tx0, Index = i\<rparr>" by auto
  obtain as where as: "CreateCompositeKey FabTokenExtendedKeyPrefix as = Inr start" by (rule wallet_startE [OF start])
  have "extended_key k" using range_extended [OF as k(1,2)] by (simp add: extended_key_def)
  with wallet_index_kept [OF assms(1-5,11,12,6,7,13)] k(3) obtain w' ty' tx' j where e: "CreateExtendedFabTokenKey w' ty' tx' j = Inr k"
    unfolding wallet_index_def by blast
  obtain tok where "unmarshal_Tok (pJson p) (vals (pend t) k) = Inr tok" using u(1) by (auto simp: decode_def go_simps)
  from decode_wallet_key [OF e this] u have tx: "tx' = tx0" "j = i" by auto
  have L: "ledger_writes (log s)" using assms(3) by (simp add: ledger_log_def)
  have lt: "ledger_token key = Some (tx0, i)" by (rule ledger_token_CreateTokenKey [OF assms(8,9)])
  have p: "pend t = fold (write_effect p tms md (com s) (ptxID tx)) (log s) (pend s)"
    using processed_effect [OF assms(1,2) L assms(4)] assms(5) by simp
  note vk = wallet_vault_key [OF e [unfolded tx]]
  obtain v where v: "same_at k v (pend s)" "same_at k (pend t) (write_effect p tms md (com s) (ptxID tx) (key, []) v)"
    using one_write_decides [OF assms(3,10) lt, where v = "pend s"] vk p by metis
  have "vals v k = vals (com s) k"
    using v(1) at_start_same [OF L assms(7) vk] by (simp add: same_at_def)
  moreover have "indexed (pJson p) (com s) tx0 i" using assms(6) by (simp add: wallet_index_def)
  ultimately have "vals (pend t) k = []"
    using v(2) deleted_clears [OF e [unfolded tx]] by (simp add: same_at_def write_effect_def lt)
  with k(3) show False by contradiction
qed

lemma spent_token_gone_witness:
  "\<exists>t us c'. fabric_Process vault_processor vault_tx net_rws ''ns'' net_before = Some (Inr (), t)
    \<and> Engine_ListUnspentTokensBy vault_json (vault_engine (nsWrites t @ vault_before) (nsMetas t)) ''alice'' ''USD'' (\<lambda>_. None) = (Inr us, c')
    \<and> \<lparr>TxId = ''t'', Index = 0\<rparr> \<notin> utId ` set us"
proof -
  obtain t where t: "fabric_Process vault_processor vault_tx net_rws ''ns'' net_before = Some (Inr (), t)"
    by (rule vault_run)
  obtain us c' where w: "nsWrites t = vault_writes_after"
    and us: "Engine_ListUnspentTokensBy vault_json (vault_engine (nsWrites t @ vault_before) (nsMetas t)) ''alice'' ''USD'' (\<lambda>_. None) = (Inr us, c')"
    and r: "vault_reader (list_executor (nsWrites t @ vault_before) (nsMetas t)) ''ns'' (net_pending t)"
    by (rule example_reads [OF t])
  have k: "CreateTokenKey ''t'' 0 = Inr (parts_key [''ztoken'', ''t'', ''0''])" by code_simp
  have "\<lparr>TxId = ''t'', Index = 0\<rparr> \<notin> utId ` set us"
    by (rule spent_token_gone [OF net.fabric_vault_axioms, where ns = "''ns''" and s = net_before and t = t and p = vault_processor
        and tx = vault_tx and tms = vault_tms and md = vault_md and key = "parts_key [''ztoken'', ''t'', ''0'']"
        and e = "vault_engine (nsWrites t @ vault_before) (nsMetas t)" and contents = "\<lambda>c. c" and w = "''alice''" and ty = "''USD''"
        and q = "list_executor (nsWrites t @ vault_before) (nsMetas t)" and c = "\<lambda>_. None" and c' = c'])
      (use t us r k example_log example_start example_laws example_encodable example_index example_fresh in
        \<open>simp_all add: example_processor example_processed example_cache skipped_components_def key_consts vault_writes_x_def\<close>)
  with t us show ?thesis by blast
qed

text \<open>
  C14: the vault's index of wallets is an invariant: when every entry for a wallet was listed
  in the metadata of its token before a transaction with a new identifier, so it is after
  the processor has processed the transaction. (What the transaction carries is text and can
  be encoded; the driver does not hide the graph.)
\<close>
theorem wallet_index_invariant:
  assumes "fabric_vault R ns log cts com pend" and "pTokenStore p = cts" and "ledger_log (log s)"
    and "processed p tx R ns tms md s t" and "PPM_GraphHiding (ptPPM tms) = Inr False"
    and "json_laws (pJson p)" and "encodable p tms md" and "wallet_index (pJson p) (com s)"
    and "at_start (log s) (com s) (pend s)" and "fresh_in (com s) (ptxID tx)"
  shows "wallet_index (pJson p) (pend t)"
  by (rule wallet_index_kept [OF assms])

lemma wallet_index_invariant_witness:
  "\<exists>t. fabric_Process vault_processor vault_tx net_rws ''ns'' net_before = Some (Inr (), t)
    \<and> wallet_index vault_json (net_pending t)"
proof -
  obtain t where t: "fabric_Process vault_processor vault_tx net_rws ''ns'' net_before = Some (Inr (), t)"
    by (rule vault_run)
  have "wallet_index (pJson vault_processor) (net_pending t)"
    by (rule wallet_index_invariant [OF net.fabric_vault_axioms, where ns = "''ns''" and s = net_before
        and p = vault_processor and tx = vault_tx and tms = vault_tms and md = vault_md])
      (use t example_log example_start example_laws example_encodable example_index example_fresh in
        \<open>simp_all add: example_processor example_processed\<close>)
  with t show ?thesis by (auto simp: example_processor)
qed

text \<open>
  C16: the Fabric processor refines the effects of a transaction on the vault: the committed
  state is as it was, and the state to be committed is the one before, changed by the
  deletion of the tokens that the metadata name, when the graph is hidden, and then by each
  write of the transaction, once and in order, although the loop also runs over the writes
  that the processor itself adds.
\<close>
theorem processing_refines:
  assumes "fabric_vault R ns log cts com pend" and "pTokenStore p = cts" and "ledger_writes (log s)"
    and "processed p tx R ns tms md s t"
  shows "com t = com s \<and> pend t = fold (write_effect p tms md (com s) (ptxID tx)) (log s)
     (if PPM_GraphHiding (ptPPM tms) = Inr True then spent_effect (pJson p) (com s) (ptxID tx) (SpentTokenID md) (pend s)
      else pend s)"
  using processed_effect [OF assms] by simp

lemma processing_refines_witness:
  "\<exists>t. fabric_Process vault_processor vault_tx net_rws ''ns'' net_before = Some (Inr (), t)
    \<and> net_pending t = fold (write_effect vault_processor vault_tms vault_md (list_state vault_before vault_metas) ''x'')
        vault_writes_x (net_pending net_before)"
proof -
  obtain t where t: "fabric_Process vault_processor vault_tx net_rws ''ns'' net_before = Some (Inr (), t)"
    by (rule vault_run)
  have "ledger_writes vault_writes_x" using example_log by (simp add: ledger_log_def)
  with processing_refines [OF net.fabric_vault_axioms, of vault_processor net_before vault_tx "''ns''" vault_tms vault_md t] t
  have "net_pending t = fold (write_effect vault_processor vault_tms vault_md (list_state vault_before vault_metas) ''x'')
        vault_writes_x (net_pending net_before)"
    by (simp add: example_processor example_processed example_start)
  with t show ?thesis by blast
qed

text \<open>
  C17: both processors end on every transaction, although their loops run over a list of
  writes that their own body extends. (The read-write set keeps its writes in a list, where
  a write to a new key goes to the end.)
\<close>
theorem processing_terminates:
  assumes "ordered_store R ns log cts" and "pTokenStore p = cts"
  shows "(\<exists>r t. fabric_Process p tx R ns s = Some (r, t)) \<and> (\<exists>r t. orion_Process p ms tx R ns s = Some (r, t))"
  using ordered_store.fabric_Process_total [OF assms] ordered_store.orion_Process_total [OF assms] by blast

lemma processing_terminates_witness:
  "\<exists>r t. orion_Process vault_processor \<lparr>msExists = (\<lambda>_. True), msLoadTransient = (\<lambda>_. Inr [TokenRequestMetadataKey \<mapsto> ''m''])\<rparr>
     vault_tx net_rws ''ns'' net_before = Some (r, t)"
  using processing_terminates [OF net.ordered_store_axioms example_processor(1)] by blast

text \<open>
  Scanning a vault from a composite key up to the same key followed by the greatest rune
  finds exactly the composite keys whose object type is the same and whose attributes
  extend its attributes. So the tokens of a wallet and of a type are not mixed with those of
  a wallet or a type whose name begins with the same letters.
\<close>
theorem scan_finds_extensions:
  assumes "CreateCompositeKey ot as = Inr start" and "CreateCompositeKey ot' bs = Inr k"
  shows "start \<le> k \<and> k < start @ max_rune \<longleftrightarrow> ot' = ot \<and> take (length as) bs = as"
proof -
  have "(\<exists>cs. ot' = ot \<and> bs = as @ cs) \<longleftrightarrow> ot' = ot \<and> take (length as) bs = as"
    by (metis append_eq_conv_conj)
  then show ?thesis using in_range_iff [OF assms] by simp
qed

lemma scan_finds_extensions_witness:
  "\<exists>start k. CreateCompositeKey ''etoken'' [''al''] = Inr start
    \<and> CreateCompositeKey ''etoken'' [''alice'', ''USD''] = Inr k \<and> \<not> (start \<le> k \<and> k < start @ max_rune)"
proof -
  have "CreateCompositeKey ''etoken'' [''al''] = Inr (parts_key [''etoken'', ''al''])"
    "CreateCompositeKey ''etoken'' [''alice'', ''USD''] = Inr (parts_key [''etoken'', ''alice'', ''USD''])"
    by code_simp+
  with scan_finds_extensions [OF this] show ?thesis by simp
qed

text \<open>The engine without a cache.\<close>

definition uncached :: "'c Engine \<Rightarrow> unit Engine" where
  "uncached e = NewEngine (eVault e) (eNamespace e) (\<lambda>k c. (None, c)) (\<lambda>k u c. c)"

text \<open>
  C24: the cache of unspent tokens changes nothing: with a cache that agrees with the vault,
  listing the tokens of a wallet gives the same tokens, or the same error, as listing them
  with no cache, and leaves a cache that agrees with the vault.
\<close>
theorem cache_changes_nothing:
  assumes "unspent_cache e contents" and "vault_reader q (eNamespace e) v" and "NewQueryExecutor (eVault e) = Inr q"
    and "coherent contents J (vals v) c" and "Engine_ListUnspentTokensBy J e w ty c = (r, c')"
  shows "fst (Engine_ListUnspentTokensBy J (uncached e) w ty ()) = r \<and> coherent contents J (vals v) c'"
proof -
  have u: "unspent_cache (uncached e) (\<lambda>_ _. None)"
    by unfold_locales (simp_all add: uncached_def NewEngine_def)
  have e: "eVault (uncached e) = eVault e" "eNamespace (uncached e) = eNamespace e"
    by (simp_all add: uncached_def NewEngine_def)
  obtain r' where r': "Engine_ListUnspentTokensBy J (uncached e) w ty () = (r', ())" by (metis old.unit.exhaust prod.exhaust)
  have "vault_reader q (eNamespace (uncached e)) v" "NewQueryExecutor (eVault (uncached e)) = Inr q"
    using assms(2,3) by (simp_all add: e)
  from ListUnspentTokensBy_entries [OF u this _ r'] ListUnspentTokensBy_entries [OF assms] e r'
  show ?thesis by (simp add: coherent_def)
qed

lemma cache_changes_nothing_witness:
  "fst (Engine_ListUnspentTokensBy vault_json (uncached (vault_engine (vault_writes_after @ vault_before) vault_metas)) ''alice'' ''USD'' ())
     = fst (Engine_ListUnspentTokensBy vault_json (vault_engine (vault_writes_after @ vault_before) vault_metas) ''alice'' ''USD'' (\<lambda>_. None))"
proof -
  let ?e = "vault_engine (vault_writes_after @ vault_before) vault_metas"
  obtain r c' where r: "Engine_ListUnspentTokensBy vault_json ?e ''alice'' ''USD'' (\<lambda>_. None) = (r, c')" by fastforce
  have "vault_reader (list_executor (vault_writes_after @ vault_before) vault_metas) (eNamespace ?e)
      (list_state (vault_writes_after @ vault_before) vault_metas)"
    using list_vault.vault_reader_axioms by simp
  from cache_changes_nothing [OF example_cache(1) this example_cache(2,4) r] r show ?thesis by simp
qed

text \<open>
  While a transaction stays pending, the query engine answers a request for audit tokens
  that cannot be read with no tokens and no error: after the last attempt it wraps the error
  of a call that succeeded, which is nil.
\<close>
theorem pending_audit_tokens_swallowed:
  assumes "\<And>s. \<exists>m t. qdListAuditTokens d ids s = (Inl (Err m), t)"
    and "\<And>s. \<exists>t. any_pending d ids s = (Inr True, t)"
  shows "\<exists>t. QueryEngine_ListAuditTokens (NewQueryEngine d n) ids s = (Inr [], t)"
proof -
  have "\<exists>t. audit_attempts d ids n s = (Inr [], t)"
  proof (induction n arbitrary: s)
    case (Suc n)
    obtain m t u where "qdListAuditTokens d ids s = (Inl (Err m), t)" "any_pending d ids t = (Inr True, u)"
      using assms by meson
    with Suc.IH [of u] show ?case by simp
  qed simp
  then show ?thesis by (simp add: QueryEngine_ListAuditTokens_def NewQueryEngine_def)
qed

text \<open>A vault whose transaction \<open>t\<close> is pending and that has no audit token of it.\<close>

definition pending_engine :: "unit Engine" where
  "pending_engine =
     NewEngine \<lparr>NewQueryExecutor = Inr (list_executor [] (\<lambda>_. Map.empty)), TransactionStatus = (\<lambda>_. Inr ValidationCode_Busy)\<rparr>
       ''ns'' (\<lambda>k c. (None, c)) (\<lambda>k u c. c)"

definition pending_driver :: "unit query_driver" where
  "pending_driver =
     \<lparr>qdIsPending = (\<lambda>i. olift (IsPending pending_engine i)), qdIsMine = (\<lambda>i. olift (Engine_IsMine pending_engine i)),
      qdUnspentTokensIterator = oret [], qdUnspentTokensIteratorBy = (\<lambda>_ _. oret []),
      qdListUnspentTokens = Engine_ListUnspentTokens vault_json pending_engine,
      qdListAuditTokens = (\<lambda>ids. olift (Engine_ListAuditTokens vault_json pending_engine ids)),
      qdListHistoryIssuedTokens = olift (Engine_ListHistoryIssuedTokens vault_json pending_engine),
      qdPublicParams = olift (Engine_PublicParams pending_engine),
      qdGetTokens = (\<lambda>ids. olift (Engine_GetTokens vault_json pending_engine ids))\<rparr>"

lemma pending_audit_tokens_swallowed_witness:
  "QueryEngine_ListAuditTokens (Vault_NewQueryEngine pending_driver) [\<lparr>TxId = ''t'', Index = 0\<rparr>] () = (Inr [], ())"
proof -
  have "Engine_ListAuditTokens vault_json pending_engine [\<lparr>TxId = ''t'', Index = 0\<rparr>] = Inl (Err ''token not found for key'')"
    by code_simp
  moreover have "IsPending pending_engine \<lparr>TxId = ''t'', Index = 0\<rparr> = Inr True" by code_simp
  ultimately show ?thesis
    using pending_audit_tokens_swallowed [of pending_driver "[\<lparr>TxId = ''t'', Index = 0\<rparr>]" 3 "()"]
    by (simp add: pending_driver_def Vault_NewQueryEngine_def)
qed

end
