(* ===== verification/Vault_Typed.thy ===== *)
theory Vault_Typed
  imports Vault_Properties
begin

text \<open>
  The types of the entries of a vault: what is stored under a key of a token is a token, and
  the key of a wallet names its type. Processing keeps that, and on such a vault listing
  does not fail.
\<close>

section \<open>Well-typed vaults\<close>

text \<open>
  Every entry of a token, its own and those for wallets, holds the text of a token, and an
  entry for a wallet one of the type that its key names.
\<close>

definition typed_token :: "store_json \<Rightarrow> vault_state \<Rightarrow> string \<Rightarrow> u64 \<Rightarrow> bool" where
  "typed_token J v tx i \<longleftrightarrow>
     (\<forall>k. CreateFabTokenKey tx i = Inr k \<and> vals v k \<noteq> [] \<longrightarrow> (\<exists>tok. unmarshal_Tok J (vals v k) = Inr tok))
     \<and> (\<forall>w ty k. CreateExtendedFabTokenKey w ty tx i = Inr k \<and> vals v k \<noteq> [] \<longrightarrow>
          (\<exists>tok. unmarshal_Tok J (vals v k) = Inr tok \<and> tokType tok = ty))"

definition typed_vault :: "store_json \<Rightarrow> vault_state \<Rightarrow> bool" where
  "typed_vault J v \<longleftrightarrow>
     (\<forall>k. extended_key k \<and> vals v k \<noteq> [] \<longrightarrow> (\<exists>w ty tx i. CreateExtendedFabTokenKey w ty tx i = Inr k))
     \<and> (\<forall>tx i. typed_token J v tx i)"

lemma typed_same:
  assumes "typed_token J v tx i" and "\<And>k. vault_key tx i k \<Longrightarrow> same_at k v' v"
  shows "typed_token J v' tx i"
  using assms fab_vault_key wallet_vault_key unfolding typed_token_def same_at_def by metis

lemma wallet_key_type:
  assumes k: "CreateExtendedFabTokenKey w ty tx i = Inr k" and "wallet_key ty' tx i w' = k"
  shows "ty' = ty"
proof -
  have "k \<noteq> []" using k by (auto simp: key_defs dest: composite_nonempty)
  with assms(2) have "CreateExtendedFabTokenKey w' ty' tx i = Inr k"
    unfolding wallet_key_def by (rule the_key_eq)
  then show ?thesis using k CreateCompositeKey_inject unfolding CreateExtendedFabTokenKey_def by blast
qed

lemma deleted_typed:
  assumes "typed_token J v tx i"
  shows "typed_token J (deleted_token tx i (listed_keys J c tx i) by' v) tx i"
  using assms wallet_key_others(1,2) fab_key_others(1)
  by (fastforce simp: typed_token_def deleted_token_def)

lemma output_typed:
  assumes v: "typed_token (pJson p) v tx i" and J: "json_laws (pJson p)" and enc: "encodable p tms md"
  shows "typed_token (pJson p) (output_effect p tms md tx i val v) tx i"
proof (cases "Metadata_GetToken (ptDriver tms) md val")
  case (Inl err)
  with v show ?thesis by (simp add: output_effect_def)
next
  case (Inr r)
  obtain tok issuer info where "r = (tok, issuer, info)" by (cases r) auto
  with Inr have g: "Metadata_GetToken (ptDriver tms) md val = Inr (tok, issuer, info)" by simp
  show ?thesis
  proof (cases "authIsMine (pOwnership p) tms tok")
    case (Inl err)
    have "vals (output_effect p tms md tx i val v) k = vals v k"
      if "CreateFabTokenKey tx i = Inr k \<or> (\<exists>w ty. CreateExtendedFabTokenKey w ty tx i = Inr k)" for k
    proof -
      have "the_key (CreateAuditTokenKey tx i) \<noteq> k" "the_key (CreateIssuedHistoryTokenKey tx i) \<noteq> k"
        using that wallet_key_others(3,4) [of _ _ _ _ k tx i] fab_key_others(2,3) [of _ _ k tx i] by blast+
      then show ?thesis
        by (simp add: output_effect_def g Let_def mine_effect_def Inl audit_effect_def issued_effect_def put_meta_def put_val_def)
    qed
    with v show ?thesis unfolding typed_token_def by metis
  next
    case (Inr m)
    obtain ids mine where m: "authIsMine (pOwnership p) tms tok = Inr (ids, mine)" using Inr by (cases m) auto
    have raw: "unmarshal_Tok (pJson p) (projr (marshal_Tok (pJson p) tok)) = Inr tok" if mine
      using that enc J g m unfolding encodable_def json_laws_def by fastforce
    show ?thesis
      unfolding typed_token_def
    proof (intro conjI allI impI)
      fix k
      assume k: "CreateFabTokenKey tx i = Inr k \<and> vals (output_effect p tms md tx i val v) k \<noteq> []"
      with raw v output_effect_fab(1) [OF _ g m, of tx i k v]
      show "\<exists>tok. unmarshal_Tok (pJson p) (vals (output_effect p tms md tx i val v) k) = Inr tok"
        unfolding typed_token_def by (cases mine) auto
    next
      fix w ty k
      assume k: "CreateExtendedFabTokenKey w ty tx i = Inr k \<and> vals (output_effect p tms md tx i val v) k \<noteq> []"
      show "\<exists>tok. unmarshal_Tok (pJson p) (vals (output_effect p tms md tx i val v) k) = Inr tok \<and> tokType tok = ty"
      proof (cases "mine \<and> k \<in> wallet_key (tokType tok) tx i ` (set ids - {[]})")
        case True
        then have "tokType tok = ty" using wallet_key_type k by blast
        with True raw output_effect_wallet [OF _ g m, of w ty tx i k v] k show ?thesis by auto
      next
        case False
        then have same: "vals (output_effect p tms md tx i val v) k = vals v k"
          using output_effect_wallet [OF _ g m, of w ty tx i k v] k by auto
        with k have "CreateExtendedFabTokenKey w ty tx i = Inr k \<and> vals v k \<noteq> []" by simp
        with v have "\<exists>tok. unmarshal_Tok (pJson p) (vals v k) = Inr tok \<and> tokType tok = ty"
          unfolding typed_token_def by blast
        with same show ?thesis by simp
      qed
    qed
  qed
qed

lemma writes_typed:
  assumes L: "ledger_log L" and J: "json_laws (pJson p)" and enc: "encodable p tms md"
    and c: "typed_token (pJson p) c tx i" and start: "at_start L c v"
  shows "typed_token (pJson p) (fold (write_effect p tms md c txID) L v) tx i"
proof -
  have L': "ledger_writes L" using L by (simp add: ledger_log_def)
  note start_same = at_start_same [OF L' start]
  let ?t = "fold (write_effect p tms md c txID) L v"
  show ?thesis
  proof (cases "\<exists>w \<in> set L. ledger_token (fst w) = Some (tx, i)")
    case False
    have "same_at k ?t c" if k: "vault_key tx i k" for k
    proof (rule same_at_trans [OF writes_frame [OF vault_key_nonempty [OF k]] start_same [OF k]])
      fix w tx' j
      assume "w \<in> set L" "ledger_token (fst w) = Some (tx', j)"
      then show "\<not> vault_key tx' j k" using False vault_key_unique [OF k] by auto
    qed
    with c show ?thesis by (rule typed_same)
  next
    case True
    then obtain key val where w: "(key, val) \<in> set L" "ledger_token key = Some (tx, i)" by auto
    obtain u where u: "\<And>k. vault_key tx i k \<Longrightarrow> same_at k u v"
      and t: "\<And>k. vault_key tx i k \<Longrightarrow> same_at k ?t (write_effect p tms md c txID (key, val) u)"
      using one_write_decides [OF L w] by blast
    have "typed_token (pJson p) u tx i"
      by (rule typed_same [OF c]) (use u start_same same_at_trans in blast)
    from deleted_typed [OF this] output_typed [OF this J enc]
    have "typed_token (pJson p) (write_effect p tms md c txID (key, val) u) tx i"
      by (simp add: write_effect_def w(2))
    then show ?thesis using t by (rule typed_same)
  qed
qed

lemma typed_vault_kept:
  assumes "fabric_vault R ns log cts com pend" and "pTokenStore p = cts" and L: "ledger_log (log s)"
    and "processed p tx R ns tms md s t" and hide: "PPM_GraphHiding (ptPPM tms) = Inr False"
    and J: "json_laws (pJson p)" and enc: "encodable p tms md"
    and typed: "typed_vault (pJson p) (com s)" and start: "at_start (log s) (com s) (pend s)"
  shows "typed_vault (pJson p) (pend t)"
proof -
  have L': "ledger_writes (log s)" using L by (simp add: ledger_log_def)
  let ?t = "fold (write_effect p tms md (com s) (ptxID tx)) (log s) (pend s)"
  have t: "pend t = ?t"
    using processed_effect [OF assms(1,2) L' assms(4)] hide by simp
  have "\<exists>w ty tx i. CreateExtendedFabTokenKey w ty tx i = Inr k" if "extended_key k" "vals ?t k \<noteq> []" for k
    by (rule extended_kept [OF L' start that]) (use typed in \<open>simp add: typed_vault_def\<close>)
  moreover have "typed_token (pJson p) ?t tx0 i" for tx0 i
    by (rule writes_typed [OF L J enc _ start]) (use typed in \<open>simp add: typed_vault_def\<close>)
  ultimately show ?thesis by (simp add: typed_vault_def t)
qed

section \<open>Listing a well-typed vault\<close>

lemma list_entries_total:
  assumes "\<And>err. Inl err \<notin> set it"
    and "\<And>k x. Inr (k, x) \<in> set it \<Longrightarrow> x \<noteq> [] \<Longrightarrow> \<exists>u. decode J extended k x = Inr u"
  shows "\<exists>us. list_entries J extended it = Inr us"
  using assms
proof (induction J extended it rule: list_entries.induct)
  case (2 J extended err it)
  from 2(1) [of err] show ?case by simp
next
  case (3 J extended k v it)
  show ?case
  proof (cases "v = []")
    case True
    with 3(1) 3(3,4) show ?thesis by simp
  next
    case False
    with 3(4) obtain u where u: "decode J extended k v = Inr u" by auto
    from 3(2) [OF False] 3(3,4) obtain us where "list_entries J extended it = Inr us" by auto
    with u False show ?thesis by simp
  qed
qed simp

lemma typed_decode:
  assumes "typed_vault J v" and "extended_key k" and "vals v k \<noteq> []"
  obtains w ty tx i u where "CreateExtendedFabTokenKey w ty tx i = Inr k" "decode J True k (vals v k) = Inr u"
    "utType u = ty"
proof -
  obtain w ty tx i where k: "CreateExtendedFabTokenKey w ty tx i = Inr k"
    using assms unfolding typed_vault_def by blast
  with assms obtain tok where tok: "unmarshal_Tok J (vals v k) = Inr tok" "tokType tok = ty"
    unfolding typed_vault_def typed_token_def by blast
  with that k decode_wallet_key [OF k tok(1)] show ?thesis by auto
qed

lemma typed_listing:
  assumes typed: "typed_vault J v" and "unspent_cache e contents" and vr: "vault_reader q (eNamespace e) v"
    and "NewQueryExecutor (eVault e) = Inr q" and "coherent contents J (vals v) c"
    and w: "w \<noteq> []" and start: "wallet_start w ty = Inr start"
    and it: "qeScan q (eNamespace e) start (start @ max_rune) = Inr it" and ok: "\<And>err. Inl err \<notin> set it"
  shows "\<exists>us c'. Engine_ListUnspentTokensBy J e w ty c = (Inr us, c') \<and> (\<forall>u \<in> set us. ty = [] \<or> utType u = ty)"
proof -
  obtain r c' where l: "Engine_ListUnspentTokensBy J e w ty c = (r, c')" by fastforce
  obtain as where as: "CreateCompositeKey FabTokenExtendedKeyPrefix as = Inr start" by (rule wallet_startE [OF start])
  have dec: "\<exists>u. decode J True k x = Inr u \<and> (ty = [] \<or> utType u = ty)" if "Inr (k, x) \<in> set it" "x \<noteq> []" for k x
  proof -
    have k: "start \<le> k" "k < start @ max_rune" "x = vals v k"
      using vault_reader.scan_law [OF vr it that(1)] by simp_all
    then have "extended_key k" using range_extended [OF as] by (simp add: extended_key_def)
    with k that obtain w' ty' tx i u where "CreateExtendedFabTokenKey w' ty' tx i = Inr k"
      "decode J True k x = Inr u" "utType u = ty'" using typed_decode [OF typed, of k] by metis
    with wallet_range_iff [OF start, of w' ty' tx i k] k show ?thesis by auto
  qed
  then obtain us where us: "list_entries J True it = Inr us"
    using list_entries_total [OF ok] by blast
  have "r = Inr us"
    using ListUnspentTokensBy_entries [OF assms(2-5) l] w start it us by simp
  moreover have "ty = [] \<or> utType u = ty" if "u \<in> set us" for u
  proof -
    from that list_entries_set [OF us] obtain k x where "Inr (k, x) \<in> set it" "x \<noteq> []" "decode J True k x = Inr u"
      by (auto simp: set_eq_iff)
    with dec [of k x] show ?thesis by auto
  qed
  ultimately show ?thesis using l by blast
qed

section \<open>Properties\<close>

lemma example_typed: "typed_vault vault_json (list_state vault_before vault_metas)"
proof -
  let ?v = "list_state vault_before vault_metas"
  have e: "k = parts_key [''etoken'', ''alice'', ''USD'', ''t'', ''0'']" if "extended_key k" "vals ?v k \<noteq> []" for k
    using that(1) example_vault [OF that(2)] example_parts by (auto simp: extended_key_def FabTokenExtendedKeyPrefix_def)
  have "typed_token vault_json ?v tx i" for tx i
    unfolding typed_token_def
  proof (intro conjI allI impI)
    fix k
    assume k: "CreateFabTokenKey tx i = Inr k \<and> vals ?v k \<noteq> []"
    then have "\<exists>cs. split_components [] (drop 1 k) = FabTokenKeyPrefix # cs"
      using CreateCompositeKey_parts by (auto simp: CreateFabTokenKey_def)
    with k example_vault [of k] example_parts(1-3) have "k = parts_key [''token'', ''t'', ''0'']"
      by (auto simp: FabTokenKeyPrefix_def)
    then show "\<exists>tok. unmarshal_Tok vault_json (vals ?v k) = Inr tok"
      by (simp add: list_state_def vault_before_def parts_key_def vault_json_def)
  next
    fix w ty k
    assume k: "CreateExtendedFabTokenKey w ty tx i = Inr k \<and> vals ?v k \<noteq> []"
    then have k': "k = parts_key [''etoken'', ''alice'', ''USD'', ''t'', ''0'']" using e extended_wallet_key by blast
    with k example_parts(4) have "ty = ''USD''"
      using CreateCompositeKey_inject unfolding CreateExtendedFabTokenKey_def by blast
    with k' show "\<exists>tok. unmarshal_Tok vault_json (vals ?v k) = Inr tok \<and> tokType tok = ty"
      by (simp add: list_state_def vault_before_def parts_key_def vault_json_def coin1_def)
  qed
  moreover have "\<exists>w ty tx i. CreateExtendedFabTokenKey w ty tx i = Inr k" if "extended_key k" "vals ?v k \<noteq> []" for k
    using e [OF that] example_parts(4) by blast
  ultimately show ?thesis by (auto simp: typed_vault_def)
qed

text \<open>
  C15: the entries of a vault are well typed, and stay so: when what is stored under the keys
  of tokens can be read as tokens, each of the type that its key names, so it is after the
  processor has processed a transaction, and then listing a wallet's tokens does not fail
  unless the scan does, and a list for one type has only tokens of that type.
\<close>
theorem typed_vault_lists:
  assumes "fabric_vault R ns log cts com pend" and "pTokenStore p = cts" and "ledger_log (log s)"
    and "processed p tx R ns tms md s t" and "PPM_GraphHiding (ptPPM tms) = Inr False"
    and "json_laws (pJson p)" and "encodable p tms md" and "typed_vault (pJson p) (com s)"
    and "at_start (log s) (com s) (pend s)"
    and "unspent_cache e contents" and "vault_reader q (eNamespace e) (pend t)" and "NewQueryExecutor (eVault e) = Inr q"
    and "coherent contents (pJson p) (vals (pend t)) c"
    and "w \<noteq> []" and "wallet_start w ty = Inr start"
    and "qeScan q (eNamespace e) start (start @ max_rune) = Inr it" and "\<And>err. Inl err \<notin> set it"
  shows "typed_vault (pJson p) (pend t)
    \<and> (\<exists>us c'. Engine_ListUnspentTokensBy (pJson p) e w ty c = (Inr us, c') \<and> (\<forall>u \<in> set us. ty = [] \<or> utType u = ty))"
proof -
  have typed: "typed_vault (pJson p) (pend t)" by (rule typed_vault_kept [OF assms(1-9)])
  with typed_listing [OF typed assms(10-17)] show ?thesis by blast
qed

lemma typed_vault_lists_witness:
  "\<exists>t. fabric_Process vault_processor vault_tx net_rws ''ns'' net_before = Some (Inr (), t)
    \<and> typed_vault vault_json (net_pending t)
    \<and> (\<exists>us c'. Engine_ListUnspentTokensBy vault_json (vault_engine (nsWrites t @ vault_before) (nsMetas t)) ''alice'' ''USD'' (\<lambda>_. None)
          = (Inr us, c') \<and> (\<forall>u \<in> set us. utType u = ''USD''))"
proof -
  obtain t where t: "fabric_Process vault_processor vault_tx net_rws ''ns'' net_before = Some (Inr (), t)"
    by (rule vault_run)
  have r: "vault_reader (list_executor (nsWrites t @ vault_before) (nsMetas t)) ''ns'' (net_pending t)"
    by (rule example_reads [OF t])
  have s: "wallet_start ''alice'' ''USD'' = Inr (parts_key [''etoken'', ''alice'', ''USD''])" by code_simp
  let ?q = "list_executor (nsWrites t @ vault_before) (nsMetas t)"
  obtain it where it: "qeScan ?q ''ns'' (parts_key [''etoken'', ''alice'', ''USD'']) (parts_key [''etoken'', ''alice'', ''USD''] @ max_rune) = Inr it"
    "\<And>err. Inl err \<notin> set it"
    by (auto simp: list_executor_def)
  have "typed_vault (pJson vault_processor) (net_pending t)
    \<and> (\<exists>us c'. Engine_ListUnspentTokensBy (pJson vault_processor) (vault_engine (nsWrites t @ vault_before) (nsMetas t)) ''alice'' ''USD'' (\<lambda>_. None)
          = (Inr us, c') \<and> (\<forall>u \<in> set us. ''USD'' = [] \<or> utType u = ''USD''))"
    by (rule typed_vault_lists [OF net.fabric_vault_axioms, where ns = "''ns''" and s = net_before and t = t
        and tx = vault_tx and tms = vault_tms and md = vault_md and contents = "\<lambda>c. c" and q = ?q and it = it
        and start = "parts_key [''etoken'', ''alice'', ''USD'']"])
      (use t r s it example_log example_start example_laws example_encodable example_typed in
        \<open>simp_all add: example_processor example_processed example_cache\<close>)
  with t show ?thesis by (auto simp: example_processor)
qed

end
