(* ===== verification/TxRecords.thy ===== *)
theory TxRecords
  imports Prelude
begin

text \<open>
  The records of the transaction database and the parameters of its queries
  (\<open>token/services/ttxdb/driver/driver.go\<close>), and the driver that keeps the records in memory
  (\<open>db/memory/memory.go\<close>). Amounts are \<open>big.Int\<close>, instants are integers. The slices of the code
  hold pointers; a query here returns the records as they are when it runs.
\<close>

section \<open>Records\<close>

type_synonym ActionType = int

definition ActionIssue :: ActionType where "ActionIssue = 0"
definition ActionTransfer :: ActionType where "ActionTransfer = 1"
definition ActionRedeem :: ActionType where "ActionRedeem = 2"

type_synonym SearchDirection = int

definition FromLast :: SearchDirection where "FromLast = 0"
definition FromBeginning :: SearchDirection where "FromBeginning = 1"

type_synonym MovementDirection = int

definition MoveSent :: MovementDirection where "MoveSent = 0"
definition MoveReceived :: MovementDirection where "MoveReceived = 1"
definition MoveAll :: MovementDirection where "MoveAll = 2"

type_synonym TxStatus = string

definition TxPending :: TxStatus where "TxPending = ''Pending''"
definition TxConfirmed :: TxStatus where "TxConfirmed = ''Confirmed''"
definition TxDeleted :: TxStatus where "TxDeleted = ''Deleted''"

lemmas tx_consts = ActionIssue_def ActionTransfer_def ActionRedeem_def FromLast_def FromBeginning_def
  MoveSent_def MoveReceived_def MoveAll_def TxPending_def TxConfirmed_def TxDeleted_def

record MovementRecord =
  mvTxID :: string
  mvEnrollmentID :: string
  mvTokenType :: string
  mvAmount :: int
  mvStatus :: TxStatus

record TransactionRecord =
  trTxID :: string
  trActionType :: ActionType
  trSenderEID :: string
  trRecipientEID :: string
  trTokenType :: string
  trAmount :: int
  trTimestamp :: int
  trStatus :: TxStatus

record QueryMovementsParams =
  qmEnrollmentIDs :: "string list"
  qmTokenTypes :: "string list"
  qmTxStatuses :: "TxStatus list"
  qmSearchDirection :: SearchDirection
  qmMovementDirection :: MovementDirection
  qmNumRecords :: int

record QueryTransactionsParams =
  qtSenderWallet :: string
  qtRecipientWallet :: string
  qtFrom :: "int option"
  qtTo :: "int option"
  qtActionTypes :: "ActionType list"
  qtStatuses :: "TxStatus list"

section \<open>The driver\<close>

text \<open>
  A driver of the database, on a state \<open>'s\<close> of its own and with iterators \<open>'i\<close>. The result
  of \<open>dIteratorNext\<close> is nil when there are no more records.
\<close>

record ('s, 'i) TokenTransactionDB =
  dClose :: "('s, unit) oper"
  dBeginUpdate :: "('s, unit) oper"
  dCommit :: "('s, unit) oper"
  dDiscard :: "('s, unit) oper"
  dSetStatus :: "string \<Rightarrow> TxStatus \<Rightarrow> ('s, unit) oper"
  dAddMovement :: "MovementRecord \<Rightarrow> ('s, unit) oper"
  dAddTransaction :: "TransactionRecord \<Rightarrow> ('s, unit) oper"
  dQueryTransactions :: "QueryTransactionsParams \<Rightarrow> ('s, 'i) oper"
  dQueryMovements :: "QueryMovementsParams \<Rightarrow> ('s, MovementRecord list) oper"
  dIteratorNext :: "'i \<Rightarrow> TransactionRecord option res \<times> 'i"

section \<open>The driver in memory\<close>

record Persistence =
  movementRecords :: "MovementRecord list"
  transactionRecords :: "TransactionRecord list"

text \<open>The checks of one movement before the number of records is looked at, and after it.\<close>

definition movement_selected :: "QueryMovementsParams \<Rightarrow> MovementRecord \<Rightarrow> bool" where
  "movement_selected q r \<longleftrightarrow>
     (qmEnrollmentIDs q \<noteq> [] \<longrightarrow> mvEnrollmentID r \<in> set (qmEnrollmentIDs q))
     \<and> (qmTokenTypes q \<noteq> [] \<longrightarrow> mvTokenType r \<in> set (qmTokenTypes q))
     \<and> (if qmTxStatuses q \<noteq> [] then mvStatus r \<in> set (qmTxStatuses q) else mvStatus r \<noteq> TxDeleted)"

definition movement_directed :: "QueryMovementsParams \<Rightarrow> MovementRecord \<Rightarrow> bool" where
  "movement_directed q r \<longleftrightarrow>
     \<not> (qmMovementDirection q = MoveSent \<and> mvAmount r > 0) \<and> \<not> (qmMovementDirection q = MoveReceived \<and> mvAmount r < 0)"

text \<open>The loop runs in one of the two directions: others have been refused before.\<close>

definition next_cursor :: "QueryMovementsParams \<Rightarrow> int \<Rightarrow> int" where
  "next_cursor q cursor = (if qmSearchDirection q = FromBeginning then cursor + 1 else cursor - 1)"

function movements_loop ::
  "Persistence \<Rightarrow> QueryMovementsParams \<Rightarrow> int \<Rightarrow> int \<Rightarrow> MovementRecord list \<Rightarrow> MovementRecord list" where
  "movements_loop p q cursor counter res =
     (let c = next_cursor q cursor in
      if c < 0 \<or> int (length (movementRecords p)) \<le> c then res
      else let r = movementRecords p ! nat c in
        if \<not> movement_selected q r then movements_loop p q c counter res
        else if qmNumRecords q \<noteq> 0 \<and> counter + 1 > qmNumRecords q then res
        else if \<not> movement_directed q r then movements_loop p q c counter res
        else movements_loop p q c (counter + 1) (res @ [r]))"
  by pat_completeness auto
termination
  by (relation "measure (\<lambda>(p, q, cursor, counter, res).
      if qmSearchDirection q = FromBeginning then nat (int (length (movementRecords p)) - cursor) else nat (cursor + 1))")
    (auto simp: next_cursor_def split: if_splits)

declare movements_loop.simps [simp del]

definition memory_QueryMovements :: "QueryMovementsParams \<Rightarrow> (Persistence, MovementRecord list) oper" where
  "memory_QueryMovements q = (\<lambda>p.
     if qmSearchDirection q = FromBeginning then (Inr (movements_loop p q (- 1) 0 []), p)
     else if qmSearchDirection q = FromLast
     then (Inr (movements_loop p q (int (length (movementRecords p))) 0 []), p)
     else (Inl (Err ''direction not valid''), p))"

definition memory_AddMovement :: "MovementRecord \<Rightarrow> (Persistence, unit) oper" where
  "memory_AddMovement r = (\<lambda>p. (Inr (), p\<lparr>movementRecords := movementRecords p @ [r]\<rparr>))"

definition transaction_selected :: "QueryTransactionsParams \<Rightarrow> TransactionRecord \<Rightarrow> bool" where
  "transaction_selected q r \<longleftrightarrow>
     (case qtFrom q of None \<Rightarrow> True | Some t \<Rightarrow> \<not> trTimestamp r < t)
     \<and> (case qtTo q of None \<Rightarrow> True | Some t \<Rightarrow> \<not> t < trTimestamp r)
     \<and> (qtSenderWallet q \<noteq> [] \<longrightarrow> trSenderEID r = qtSenderWallet q)
     \<and> (qtActionTypes q \<noteq> [] \<longrightarrow> trActionType r \<in> set (qtActionTypes q))
     \<and> (qtStatuses q \<noteq> [] \<longrightarrow> trStatus r \<in> set (qtStatuses q))"

record TransactionIterator =
  iterTxs :: "TransactionRecord list"
  iterCursor :: nat

definition memory_QueryTransactions :: "QueryTransactionsParams \<Rightarrow> (Persistence, TransactionIterator) oper" where
  "memory_QueryTransactions q = (\<lambda>p.
     (Inr \<lparr>iterTxs = filter (transaction_selected q) (transactionRecords p), iterCursor = 0\<rparr>, p))"

definition memory_AddTransaction :: "TransactionRecord \<Rightarrow> (Persistence, unit) oper" where
  "memory_AddTransaction r = (\<lambda>p. (Inr (), p\<lparr>transactionRecords := transactionRecords p @ [r]\<rparr>))"

definition memory_SetStatus :: "string \<Rightarrow> TxStatus \<Rightarrow> (Persistence, unit) oper" where
  "memory_SetStatus txID status = (\<lambda>p. (Inr (),
     \<lparr>movementRecords = map (\<lambda>r. if mvTxID r = txID then r\<lparr>mvStatus := status\<rparr> else r) (movementRecords p),
      transactionRecords = map (\<lambda>r. if trTxID r = txID then r\<lparr>trStatus := status\<rparr> else r) (transactionRecords p)\<rparr>))"

definition memory_Close :: "(Persistence, unit) oper" where "memory_Close = oret ()"
definition memory_BeginUpdate :: "(Persistence, unit) oper" where "memory_BeginUpdate = oret ()"
definition memory_Commit :: "(Persistence, unit) oper" where "memory_Commit = oret ()"
definition memory_Discard :: "(Persistence, unit) oper" where "memory_Discard = oret ()"

definition memory_Next :: "TransactionIterator \<Rightarrow> TransactionRecord option res \<times> TransactionIterator" where
  "memory_Next it =
     (if length (iterTxs it) \<le> iterCursor it then (Inr None, it)
      else (Inr (Some (iterTxs it ! iterCursor it)), it\<lparr>iterCursor := iterCursor it + 1\<rparr>))"

text \<open>What the driver opens: an empty store with these operations.\<close>

definition memory_db :: "(Persistence, TransactionIterator) TokenTransactionDB" where
  "memory_db =
     \<lparr>dClose = memory_Close, dBeginUpdate = memory_BeginUpdate, dCommit = memory_Commit, dDiscard = memory_Discard,
      dSetStatus = memory_SetStatus, dAddMovement = memory_AddMovement, dAddTransaction = memory_AddTransaction,
      dQueryTransactions = memory_QueryTransactions, dQueryMovements = memory_QueryMovements,
      dIteratorNext = memory_Next\<rparr>"

lemma memory_db_simps [simp]:
  "dClose memory_db = memory_Close" "dBeginUpdate memory_db = memory_BeginUpdate" "dCommit memory_db = memory_Commit"
  "dDiscard memory_db = memory_Discard" "dSetStatus memory_db = memory_SetStatus"
  "dAddMovement memory_db = memory_AddMovement" "dAddTransaction memory_db = memory_AddTransaction"
  "dQueryTransactions memory_db = memory_QueryTransactions" "dQueryMovements memory_db = memory_QueryMovements"
  "dIteratorNext memory_db = memory_Next"
  by (simp_all add: memory_db_def)

definition memory_Open :: "string \<Rightarrow> Persistence res" where
  "memory_Open name = Inr \<lparr>movementRecords = [], transactionRecords = []\<rparr>"

section \<open>What a query of movements returns\<close>

text \<open>
  The reference: the records in the order of the search that pass all filters, at most as
  many as asked for. With a negative number the loop stops at the first record it selects.
\<close>

definition oriented :: "QueryMovementsParams \<Rightarrow> 'a list \<Rightarrow> 'a list" where
  "oriented q xs = (if qmSearchDirection q = FromBeginning then xs else rev xs)"

definition limited :: "int \<Rightarrow> 'a list \<Rightarrow> 'a list" where
  "limited n xs = (if n = 0 then xs else take (nat n) xs)"

definition movement_matches :: "QueryMovementsParams \<Rightarrow> MovementRecord \<Rightarrow> bool" where
  "movement_matches q r \<longleftrightarrow> movement_selected q r \<and> movement_directed q r"

text \<open>What the loop has still to look at.\<close>

definition still_ahead :: "Persistence \<Rightarrow> QueryMovementsParams \<Rightarrow> int \<Rightarrow> MovementRecord list" where
  "still_ahead p q cursor =
     (if qmSearchDirection q = FromBeginning then drop (nat (cursor + 1)) (movementRecords p)
      else rev (take (nat cursor) (movementRecords p)))"

lemma still_ahead_step:
  assumes "- 1 \<le> cursor" "cursor \<le> int (length (movementRecords p))"
  shows "still_ahead p q cursor =
    (let c = next_cursor q cursor in
     if c < 0 \<or> int (length (movementRecords p)) \<le> c then []
     else movementRecords p ! nat c # still_ahead p q c)"
proof (cases "qmSearchDirection q = FromBeginning")
  case True
  have "drop (nat (cursor + 1)) xs = xs ! nat (cursor + 1) # drop (nat (cursor + 1 + 1)) xs"
    if "nat (cursor + 1) < length xs" for xs :: "MovementRecord list"
    using Cons_nth_drop_Suc [OF that] assms(1) by (simp add: nat_add_distrib Suc_nat_eq_nat_zadd1)
  with True assms show ?thesis
    by (auto simp: still_ahead_def next_cursor_def Let_def)
next
  case False
  have "rev (take (nat cursor) xs) = xs ! nat (cursor - 1) # rev (take (nat (cursor - 1)) xs)"
    if "0 < cursor" "cursor \<le> int (length xs)" for xs :: "MovementRecord list"
  proof -
    have "nat cursor = Suc (nat (cursor - 1))" "nat (cursor - 1) < length xs" using that by linarith+
    then show ?thesis by (simp add: take_Suc_conv_app_nth)
  qed
  with False assms show ?thesis
    by (auto simp: still_ahead_def next_cursor_def Let_def)
qed

lemma movements_loop_eq:
  assumes "- 1 \<le> cursor" "cursor \<le> int (length (movementRecords p))"
  shows "movements_loop p q cursor counter res =
    res @ (let found = filter (movement_matches q) (still_ahead p q cursor)
           in if qmNumRecords q = 0 then found else take (nat (qmNumRecords q - counter)) found)"
  using assms
proof (induction p q cursor counter res rule: movements_loop.induct)
  case (1 p q cursor counter res)
  let ?c = "next_cursor q cursor"
  show ?case
  proof (cases "?c < 0 \<or> int (length (movementRecords p)) \<le> ?c")
    case True
    with still_ahead_step [OF 1(4,5)] show ?thesis by (subst movements_loop.simps) (simp add: Let_def)
  next
    case False
    let ?r = "movementRecords p ! nat ?c"
    have ahead: "still_ahead p q cursor = ?r # still_ahead p q ?c"
      using still_ahead_step [OF 1(4,5)] False by (simp add: Let_def)
    have c: "- 1 \<le> ?c" "?c \<le> int (length (movementRecords p))" using False by linarith+
    have m: "movement_matches q ?r \<longleftrightarrow> movement_selected q ?r \<and> movement_directed q ?r"
      by (simp add: movement_matches_def)
    note IH = 1(1-3) [OF refl False refl]
    show ?thesis
    proof (cases "movement_selected q ?r")
      case unselected: False
      with IH(1) c ahead False show ?thesis
        by (subst movements_loop.simps) (simp add: Let_def m)
    next
      case selected: True
      show ?thesis
      proof (cases "qmNumRecords q \<noteq> 0 \<and> counter + 1 > qmNumRecords q")
        case True
        with selected False show ?thesis by (subst movements_loop.simps) (simp add: Let_def)
      next
        case room: False
        then have n: "nat (qmNumRecords q - counter) = Suc (nat (qmNumRecords q - (counter + 1)))" if "qmNumRecords q \<noteq> 0"
          using that by linarith
        show ?thesis
        proof (cases "movement_directed q ?r")
          case True
          with IH(3) c ahead False selected room n show ?thesis
            by (subst movements_loop.simps) (simp add: Let_def m)
        next
          case undirected: False
          with IH(2) c ahead False selected room show ?thesis
            by (subst movements_loop.simps) (simp add: Let_def m)
        qed
      qed
    qed
  qed
qed

lemma QueryMovements_eq:
  assumes "qmSearchDirection q = FromBeginning \<or> qmSearchDirection q = FromLast"
  shows "memory_QueryMovements q p =
    (Inr (limited (qmNumRecords q) (filter (movement_matches q) (oriented q (movementRecords p)))), p)"
  using assms
  by (auto simp: memory_QueryMovements_def movements_loop_eq still_ahead_def oriented_def limited_def Let_def tx_consts)

end
