(* ===== verification/TxDB.thy ===== *)
theory TxDB
  imports TxRecords Request
begin

text \<open>
  The transaction database (\<open>token/services/ttxdb/db.go\<close>) over a driver, and its programmable
  filters (\<open>filter.go\<close>). An operation that takes the store lock is one step. The locks on
  enrollment identifiers are in \<open>TxLocks\<close>. Errors of a discard are only logged.
\<close>

section \<open>Appending the records of a request\<close>

text \<open>An error rolls back: the update is discarded, and the error returned.\<close>

definition or_discard :: "('s, 'i) TokenTransactionDB \<Rightarrow> ('s, unit) oper \<Rightarrow> ('s, unit) oper" where
  "or_discard D m = (\<lambda>s.
     case m s of
       (Inl (Err e), t) \<Rightarrow>
         (case dDiscard D t of
            (Inl (Panic p), u) \<Rightarrow> (Inl (Panic p), u)
          | (_, u) \<Rightarrow> (Inl (Err e), u))
     | (r, t) \<Rightarrow> (r, t))"

definition deduplicate :: "string list \<Rightarrow> string list" where
  "deduplicate source = distinct_loop {} [] source"

definition joinIOEIDs :: "InputStream \<Rightarrow> OutputStream \<Rightarrow> string list" where
  "joinIOEIDs ins outs = deduplicate (InputStream_EnrollmentIDs ins @ OutputStream_EnrollmentIDs outs)"

text \<open>What an enrollment identifier sent and received of a type, in the whole request.\<close>

definition sent_by :: "InputStream \<Rightarrow> string \<Rightarrow> string \<Rightarrow> int res" where
  "sent_by ins eID ty = InputStream_Sum (InputStream_ByType ty (InputStream_ByEnrollmentID eID ins))"

definition received_by :: "OutputStream \<Rightarrow> string \<Rightarrow> string \<Rightarrow> int" where
  "received_by outs eID ty = OutputStream_Sum (OutputStream_ByType ty (OutputStream_ByEnrollmentID eID outs))"

definition append_send ::
  "('s, 'i) TokenTransactionDB \<Rightarrow> string \<Rightarrow> InputStream \<Rightarrow> OutputStream \<Rightarrow> string \<Rightarrow> string \<Rightarrow> ('s, unit) oper" where
  "append_send D anchor ins outs eID ty =
     obind (olift (sent_by ins eID ty)) (\<lambda>sent.
     let diff = sent - received_by outs eID ty in
     if diff \<le> 0 then oret ()
     else or_discard D (dAddMovement D
       \<lparr>mvTxID = anchor, mvEnrollmentID = eID, mvTokenType = ty, mvAmount = - diff, mvStatus = TxPending\<rparr>))"

definition appendSendMovements :: "('s, 'i) TokenTransactionDB \<Rightarrow> AuditRecord \<Rightarrow> ('s, unit) oper" where
  "appendSendMovements D r =
     obind (olift (deref (arOutputs r))) (\<lambda>outs.
     ofor (\<lambda>eID. ofor (append_send D (arAnchor r) (arInputs r) outs eID) (OutputStream_TokenTypes outs))
       (joinIOEIDs (arInputs r) outs))"

definition append_received ::
  "('s, 'i) TokenTransactionDB \<Rightarrow> string \<Rightarrow> InputStream \<Rightarrow> OutputStream \<Rightarrow> string \<Rightarrow> string \<Rightarrow> ('s, unit) oper" where
  "append_received D anchor ins outs eID ty =
     obind (olift (sent_by ins eID ty)) (\<lambda>sent.
     let diff = received_by outs eID ty - sent in
     if diff \<le> 0 then oret ()
     else or_discard D (dAddMovement D
       \<lparr>mvTxID = anchor, mvEnrollmentID = eID, mvTokenType = ty, mvAmount = diff, mvStatus = TxPending\<rparr>))"

definition appendReceivedMovements :: "('s, 'i) TokenTransactionDB \<Rightarrow> AuditRecord \<Rightarrow> ('s, unit) oper" where
  "appendReceivedMovements D r =
     obind (olift (deref (arOutputs r))) (\<lambda>outs.
     ofor (\<lambda>eID. ofor (append_received D (arAnchor r) (arInputs r) outs eID) (OutputStream_TokenTypes outs))
       (joinIOEIDs (arInputs r) outs))"

text \<open>
  One action: \<open>ins\<close> and \<open>ous\<close> are its inputs and outputs. The amount that is recorded is taken
  from all the outputs of the request, \<open>outputs\<close>.
\<close>

definition append_transaction ::
  "('s, 'i) TokenTransactionDB \<Rightarrow> int \<Rightarrow> string \<Rightarrow> OutputStream \<Rightarrow> string list \<Rightarrow> string \<Rightarrow> string \<Rightarrow> ('s, unit) oper" where
  "append_transaction D timestamp anchor outputs inEIDs outEID ty =
     (let received = received_by outputs outEID ty in
      if received \<le> 0 then oret ()
      else or_discard D (dAddTransaction D
        \<lparr>trTxID = anchor,
         trActionType = (if inEIDs = [] then ActionIssue else if outEID = [] then ActionRedeem else ActionTransfer),
         trSenderEID = (case inEIDs of [e] \<Rightarrow> e | _ \<Rightarrow> []), trRecipientEID = outEID, trTokenType = ty,
         trAmount = received, trTimestamp = timestamp, trStatus = TxPending\<rparr>))"

definition append_action ::
  "('s, 'i) TokenTransactionDB \<Rightarrow> int \<Rightarrow> string \<Rightarrow> OutputStream \<Rightarrow> InputStream \<Rightarrow> OutputStream \<Rightarrow> ('s, unit) oper" where
  "append_action D timestamp anchor outputs ins ous =
     (let inEIDs = InputStream_EnrollmentIDs ins in
      if length inEIDs > 1 then olift (Inl (Err ''expected at most 1 input enrollment id''))
      else ofor (\<lambda>outEID. ofor (append_transaction D timestamp anchor outputs inEIDs outEID) (OutputStream_TokenTypes ous))
        (OutputStream_EnrollmentIDs ous @ [[]]))"

definition inputs_of_action :: "nat \<Rightarrow> InputStream \<Rightarrow> InputStream" where
  "inputs_of_action i = InputStream_Filter (\<lambda>t. nActionIndex t = i)"

definition outputs_of_action :: "nat \<Rightarrow> OutputStream \<Rightarrow> OutputStream" where
  "outputs_of_action i = OutputStream_Filter (\<lambda>t. oActionIndex t = i)"

text \<open>What a step of the loop over the actions leaves behind is less.\<close>

lemma fewer_ahead:
  "length (filter (\<lambda>x. Suc i \<le> f x) xs) \<le> length (filter (\<lambda>x. i \<le> f x) xs)"
  "filter (\<lambda>x. f x = i) xs \<noteq> [] \<Longrightarrow> length (filter (\<lambda>x. Suc i \<le> f x) xs) < length (filter (\<lambda>x. i \<le> f x) xs)"
  for f :: "'a \<Rightarrow> nat"
proof -
  have e: "length (filter (\<lambda>x. i \<le> f x) xs) = length (filter (\<lambda>x. Suc i \<le> f x) xs) + length (filter (\<lambda>x. f x = i) xs)"
    by (induction xs) auto
  then show "length (filter (\<lambda>x. Suc i \<le> f x) xs) \<le> length (filter (\<lambda>x. i \<le> f x) xs)" by simp
  assume "filter (\<lambda>x. f x = i) xs \<noteq> []"
  then show "length (filter (\<lambda>x. Suc i \<le> f x) xs) < length (filter (\<lambda>x. i \<le> f x) xs)" unfolding e by simp
qed

text \<open>The loop ends at the first index that no input and no output has.\<close>

function transactions_loop ::
  "('s, 'i) TokenTransactionDB \<Rightarrow> int \<Rightarrow> string \<Rightarrow> InputStream \<Rightarrow> OutputStream \<Rightarrow> nat \<Rightarrow> 's \<Rightarrow> unit res \<times> 's" where
  "transactions_loop D timestamp anchor inputs outputs i s =
     (let ins = inputs_of_action i inputs; ous = outputs_of_action i outputs in
      if InputStream_Count ins = 0 \<and> OutputStream_Count ous = 0 then (Inr (), s)
      else case append_action D timestamp anchor outputs ins ous s of
          (Inl e, t) \<Rightarrow> (Inl e, t)
        | (Inr _, t) \<Rightarrow> transactions_loop D timestamp anchor inputs outputs (i + 1) t)"
  by pat_completeness auto

termination
  by (relation "measure (\<lambda>(D, timestamp, anchor, inputs, outputs, i, s).
      length (filter (\<lambda>x. i \<le> nActionIndex x) (nsInputs inputs)) + length (filter (\<lambda>x. i \<le> oActionIndex x) (osOutputs outputs)))")
    (auto simp: inputs_of_action_def outputs_of_action_def InputStream_Filter_def OutputStream_Filter_def
      InputStream_Count_def OutputStream_Count_def
      intro: add_less_le_mono add_le_less_mono fewer_ahead)

declare transactions_loop.simps [simp del]

definition appendTransactions :: "('s, 'i) TokenTransactionDB \<Rightarrow> int \<Rightarrow> AuditRecord \<Rightarrow> ('s, unit) oper" where
  "appendTransactions D timestamp r =
     obind (olift (deref (arOutputs r))) (\<lambda>outs. transactions_loop D timestamp (arAnchor r) (arInputs r) outs 0)"

text \<open>The update of a request: all its movements and transactions between begin and commit.\<close>

definition append_record :: "('s, 'i) TokenTransactionDB \<Rightarrow> int \<Rightarrow> AuditRecord \<Rightarrow> ('s, unit) oper" where
  "append_record D timestamp r =
     obind (or_discard D (dBeginUpdate D)) (\<lambda>_.
     obind (or_discard D (appendSendMovements D r)) (\<lambda>_.
     obind (or_discard D (appendReceivedMovements D r)) (\<lambda>_.
     obind (or_discard D (appendTransactions D timestamp r)) (\<lambda>_.
     or_discard D (dCommit D)))))"

definition append_transactions_only :: "('s, 'i) TokenTransactionDB \<Rightarrow> int \<Rightarrow> AuditRecord \<Rightarrow> ('s, unit) oper" where
  "append_transactions_only D timestamp r =
     obind (or_discard D (dBeginUpdate D)) (\<lambda>_.
     obind (or_discard D (appendTransactions D timestamp r)) (\<lambda>_.
     or_discard D (dCommit D)))"

section \<open>The database\<close>

text \<open>
  The state: the number of open query executors, as the counter and as the readers that hold
  the store lock, and the store of the driver.
\<close>

record 's DB =
  dbCounter :: int
  dbReaders :: nat
  dbStore :: 's

definition newDB :: "'s \<Rightarrow> 's DB" where
  "newDB p = \<lparr>dbCounter = 0, dbReaders = 0, dbStore = p\<rparr>"

definition on_store :: "('s, 'a) oper \<Rightarrow> ('s DB, 'a) oper" where
  "on_store m = (\<lambda>db. case m (dbStore db) of (r, s) \<Rightarrow> (r, db\<lparr>dbStore := s\<rparr>))"

definition DB_Append ::
  "('s, 'i) TokenTransactionDB \<Rightarrow> (bytes \<Rightarrow> bool) \<Rightarrow> int \<Rightarrow> 'a Request \<Rightarrow> ('s DB, unit) oper" where
  "DB_Append D none timestamp req =
     obind (olift (Request_AuditRecord none req)) (\<lambda>r. on_store (append_record D timestamp r))"

definition DB_AppendTransactionRecord ::
  "('s, 'i) TokenTransactionDB \<Rightarrow> (bytes \<Rightarrow> bool) \<Rightarrow> int \<Rightarrow> 'a Request \<Rightarrow> ('s DB, unit) oper" where
  "DB_AppendTransactionRecord D none timestamp req =
     obind (olift (Request_Inputs none req)) (\<lambda>ins.
     obind (olift (Outputs req)) (\<lambda>outs.
     on_store (append_transactions_only D timestamp \<lparr>arAnchor = Anchor req, arInputs = ins, arOutputs = outs\<rparr>)))"

definition DB_SetStatus :: "('s, 'i) TokenTransactionDB \<Rightarrow> string \<Rightarrow> TxStatus \<Rightarrow> ('s DB, unit) oper" where
  "DB_SetStatus D txID status = on_store (or_discard D (dSetStatus D txID status))"

section \<open>Query executors\<close>

record TxQueryExecutor =
  qeClosed :: bool

definition DB_NewQueryExecutor :: "'s DB \<Rightarrow> TxQueryExecutor \<times> 's DB" where
  "DB_NewQueryExecutor db = (\<lparr>qeClosed = False\<rparr>, db\<lparr>dbCounter := dbCounter db + 1, dbReaders := dbReaders db + 1\<rparr>)"

text \<open>To unlock a lock that is not held is a fatal error.\<close>

definition TxQueryExecutor_Done :: "TxQueryExecutor \<Rightarrow> ('s DB, TxQueryExecutor) oper" where
  "TxQueryExecutor_Done qe = (\<lambda>db.
     if qeClosed qe then (Inr qe, db)
     else if dbReaders db = 0
     then (Inl (Panic ''sync: RUnlock of unlocked RWMutex''), db\<lparr>dbCounter := dbCounter db - 1\<rparr>)
     else (Inr \<lparr>qeClosed = True\<rparr>, db\<lparr>dbCounter := dbCounter db - 1, dbReaders := dbReaders db - 1\<rparr>))"

definition TxQueryExecutor_Transactions ::
  "('s, 'i) TokenTransactionDB \<Rightarrow> QueryTransactionsParams \<Rightarrow> ('s DB, 'i) oper" where
  "TxQueryExecutor_Transactions D params = (\<lambda>db.
     case on_store (dQueryTransactions D params) db of
       (Inl (Err e), db') \<Rightarrow> (Inl (Err ''failed to query transactions''), db')
     | (r, db') \<Rightarrow> (r, db'))"

definition TransactionIterator_Next ::
  "('s, 'i) TokenTransactionDB \<Rightarrow> 'i \<Rightarrow> TransactionRecord option res \<times> 'i" where
  "TransactionIterator_Next D it =
     (case dIteratorNext D it of
        (Inl e, it') \<Rightarrow> (Inl e, it')
      | (Inr None, it') \<Rightarrow> (Inr None, it')
      | (Inr (Some r), it') \<Rightarrow> (Inr (Some r), it'))"

section \<open>Filters\<close>

definition no_movement_params :: QueryMovementsParams where
  "no_movement_params =
     \<lparr>qmEnrollmentIDs = [], qmTokenTypes = [], qmTxStatuses = [], qmSearchDirection = 0,
      qmMovementDirection = 0, qmNumRecords = 0\<rparr>"

record PaymentsFilter =
  pfParams :: QueryMovementsParams
  pfRecords :: "MovementRecord list"

definition NewPaymentsFilter :: PaymentsFilter where
  "NewPaymentsFilter = \<lparr>pfParams = no_movement_params, pfRecords = []\<rparr>"

definition Payments_ByEnrollmentId :: "string \<Rightarrow> PaymentsFilter \<Rightarrow> PaymentsFilter" where
  "Payments_ByEnrollmentId i f =
     f\<lparr>pfParams := (pfParams f)\<lparr>qmEnrollmentIDs := qmEnrollmentIDs (pfParams f) @ [i]\<rparr>\<rparr>"

definition Payments_ByType :: "string \<Rightarrow> PaymentsFilter \<Rightarrow> PaymentsFilter" where
  "Payments_ByType ty f = f\<lparr>pfParams := (pfParams f)\<lparr>qmTokenTypes := qmTokenTypes (pfParams f) @ [ty]\<rparr>\<rparr>"

definition Payments_Last :: "int \<Rightarrow> PaymentsFilter \<Rightarrow> PaymentsFilter" where
  "Payments_Last num f = f\<lparr>pfParams := (pfParams f)\<lparr>qmNumRecords := num\<rparr>\<rparr>"

definition Payments_Execute :: "('s, 'i) TokenTransactionDB \<Rightarrow> PaymentsFilter \<Rightarrow> ('s DB, PaymentsFilter) oper" where
  "Payments_Execute D f =
     (let q = (pfParams f)\<lparr>qmTxStatuses := [TxPending, TxConfirmed], qmMovementDirection := MoveSent,
                qmSearchDirection := FromLast\<rparr>
      in obind (on_store (dQueryMovements D q)) (\<lambda>rs. oret \<lparr>pfParams = q, pfRecords = rs\<rparr>))"

definition Payments_Sum :: "PaymentsFilter \<Rightarrow> int" where
  "Payments_Sum f = - foldl (\<lambda>s r. s + mvAmount r) 0 (pfRecords f)"

record HoldingsFilter =
  hfParams :: QueryMovementsParams
  hfRecords :: "MovementRecord list"

definition NewHoldingsFilter :: HoldingsFilter where
  "NewHoldingsFilter = \<lparr>hfParams = no_movement_params, hfRecords = []\<rparr>"

definition Holdings_ByEnrollmentId :: "string \<Rightarrow> HoldingsFilter \<Rightarrow> HoldingsFilter" where
  "Holdings_ByEnrollmentId i f =
     f\<lparr>hfParams := (hfParams f)\<lparr>qmEnrollmentIDs := qmEnrollmentIDs (hfParams f) @ [i]\<rparr>\<rparr>"

definition Holdings_ByType :: "string \<Rightarrow> HoldingsFilter \<Rightarrow> HoldingsFilter" where
  "Holdings_ByType ty f = f\<lparr>hfParams := (hfParams f)\<lparr>qmTokenTypes := qmTokenTypes (hfParams f) @ [ty]\<rparr>\<rparr>"

definition Holdings_Execute :: "('s, 'i) TokenTransactionDB \<Rightarrow> HoldingsFilter \<Rightarrow> ('s DB, HoldingsFilter) oper" where
  "Holdings_Execute D f =
     (let q = (hfParams f)\<lparr>qmTxStatuses := [TxPending, TxConfirmed], qmMovementDirection := MoveAll,
                qmSearchDirection := FromBeginning\<rparr>
      in obind (on_store (dQueryMovements D q)) (\<lambda>rs. oret \<lparr>hfParams = q, hfRecords = rs\<rparr>))"

definition Holdings_Sum :: "HoldingsFilter \<Rightarrow> int" where
  "Holdings_Sum f = foldl (\<lambda>s r. s + mvAmount r) 0 (hfRecords f)"

section \<open>The manager\<close>

text \<open>
  The registry of drivers, and the databases that were opened, by the identifier of a token
  management service followed by that of a wallet. \<open>open_db\<close> is a driver's \<open>Open\<close>. A database is
  a pointer: the manager's map is the store, and the result its key.
\<close>

definition ttxdb_Register :: "string \<Rightarrow> 'd option \<Rightarrow> (string \<rightharpoonup> 'd, unit) oper" where
  "ttxdb_Register name driver = (\<lambda>drivers.
     case driver of
       None \<Rightarrow> (Inl (Panic ''Register driver is nil''), drivers)
     | Some d \<Rightarrow>
         if drivers name \<noteq> None then (Inl (Panic ''Register called twice for driver''), drivers)
         else (Inr (), drivers(name \<mapsto> d)))"

record TMSID =
  tmsNetwork :: string
  tmsChannel :: string
  tmsNamespace :: string

definition TMSID_String :: "TMSID \<Rightarrow> string" where
  "TMSID_String t = tmsNetwork t @ '','' @ tmsChannel t @ '','' @ tmsNamespace t"

record 's TxManager =
  mgDriver :: string
  mgDbs :: "string \<rightharpoonup> 's DB"

definition ttxdb_NewManager :: "string \<Rightarrow> string \<Rightarrow> 's TxManager" where
  "ttxdb_NewManager config driver =
     \<lparr>mgDriver = (if driver \<noteq> [] then driver else if config \<noteq> [] then config else ''memory''), mgDbs = Map.empty\<rparr>"

definition TxManager_DB ::
  "(string \<rightharpoonup> (string \<Rightarrow> 's res)) \<Rightarrow> TMSID \<Rightarrow> string \<Rightarrow> ('s TxManager, string) oper" where
  "TxManager_DB drivers tms wid = (\<lambda>m.
     let i = TMSID_String tms @ wid in
     case mgDbs m i of
       Some _ \<Rightarrow> (Inr i, m)
     | None \<Rightarrow>
         (case drivers (mgDriver m) of
            None \<Rightarrow> (Inl nil_pointer, m)
          | Some open_db \<Rightarrow>
              (case open_db i of
                 Inl e \<Rightarrow> (Inl e, m)
               | Inr p \<Rightarrow> (Inr i, m\<lparr>mgDbs := (mgDbs m)(i \<mapsto> newDB p)\<rparr>))))"

text \<open>A wallet that is nil, and any error, give a nil database.\<close>

definition ttxdb_Get ::
  "(string \<rightharpoonup> (string \<Rightarrow> 's res)) \<Rightarrow> bool \<Rightarrow> (TMSID \<times> string) option \<Rightarrow> ('s TxManager, string option) oper" where
  "ttxdb_Get drivers registered w = (\<lambda>m.
     case w of
       None \<Rightarrow> (Inr None, m)
     | Some (tms, wid) \<Rightarrow>
         if \<not> registered then (Inr None, m)
         else (case TxManager_DB drivers tms wid m of
             (Inl (Panic p), m') \<Rightarrow> (Inl (Panic p), m')
           | (Inl (Err e), m') \<Rightarrow> (Inr None, m')
           | (Inr i, m') \<Rightarrow> (Inr (Some i), m')))"

end
