(* ===== verification/TxHoldings.thy ===== *)
theory TxHoldings
  imports TxDB
begin

text \<open>
  What the movements of the transaction database add up to: an abstract ledger with one entry
  per request, of what each enrollment identifier gained of each type, and a status. The
  laws of a driver are the locale \<open>movement_log\<close>; the driver in memory obeys them.
\<close>

section \<open>The abstract ledger\<close>

type_synonym account_log = "(string \<times> TxStatus \<times> (string \<Rightarrow> string \<Rightarrow> int)) list"

definition live :: "TxStatus \<Rightarrow> bool" where
  "live st \<longleftrightarrow> st = TxPending \<or> st = TxConfirmed"

definition balance_of :: "account_log \<Rightarrow> string \<Rightarrow> string \<Rightarrow> int" where
  "balance_of A eID ty = sum_list (map (\<lambda>(tx, st, f). if live st then f eID ty else 0) A)"

text \<open>What a request gains for an identifier: what it receives less what it sends.\<close>

definition sent_amount :: "InputStream \<Rightarrow> string \<Rightarrow> string \<Rightarrow> int" where
  "sent_amount ins eID ty = (case sent_by ins eID ty of Inr n \<Rightarrow> n | Inl _ \<Rightarrow> 0)"

definition net_of :: "AuditRecord \<Rightarrow> string \<Rightarrow> string \<Rightarrow> int" where
  "net_of r eID ty =
     (case arOutputs r of
        None \<Rightarrow> 0
      | Some outs \<Rightarrow> received_by outs eID ty - sent_amount (arInputs r) eID ty)"

text \<open>The events of a database, and what they do to it and to the abstract ledger.\<close>

datatype tx_event = Appended int AuditRecord | StatusSet string TxStatus

fun apply_event :: "('s, 'i) TokenTransactionDB \<Rightarrow> tx_event \<Rightarrow> ('s DB, unit) oper" where
  "apply_event D (Appended timestamp r) = on_store (append_record D timestamp r)"
| "apply_event D (StatusSet tx st) = DB_SetStatus D tx st"

fun log_event :: "tx_event \<Rightarrow> account_log \<Rightarrow> account_log" where
  "log_event (Appended timestamp r) A = A @ [(arAnchor r, TxPending, net_of r)]"
| "log_event (StatusSet tx st) A = map (\<lambda>(x, st', f). if x = tx then (x, st, f) else (x, st', f)) A"

text \<open>
  The database only looks at the types that occur among the outputs of a request. In a request
  that conserves value these are all types.
\<close>

fun types_covered :: "tx_event \<Rightarrow> bool" where
  "types_covered (Appended timestamp r) =
     (case arOutputs r of
        None \<Rightarrow> True
      | Some outs \<Rightarrow> set (map nType (nsInputs (arInputs r))) \<subseteq> set (map oType (osOutputs outs)))"
| "types_covered (StatusSet tx st) = True"

fun event_id :: "tx_event \<Rightarrow> string" where
  "event_id (Appended timestamp r) = arAnchor r"
| "event_id (StatusSet tx st) = tx"

section \<open>Movements as cells\<close>

definition amount :: "string \<Rightarrow> string \<Rightarrow> MovementRecord list \<Rightarrow> int" where
  "amount eID ty ms = sum_list (map mvAmount (filter (\<lambda>r. mvEnrollmentID r = eID \<and> mvTokenType r = ty) ms))"

definition live_amount :: "string \<Rightarrow> string \<Rightarrow> MovementRecord list \<Rightarrow> int" where
  "live_amount eID ty ms = amount eID ty (filter (\<lambda>r. live (mvStatus r)) ms)"

lemma amount_simps [simp]:
  "amount eID ty [] = 0" "amount eID ty (ms @ ms') = amount eID ty ms + amount eID ty ms'"
  by (simp_all add: amount_def)

lemma live_amount_simps [simp]:
  "live_amount eID ty [] = 0" "live_amount eID ty (ms @ ms') = live_amount eID ty ms + live_amount eID ty ms'"
  by (simp_all add: live_amount_def)

text \<open>The movement of one identifier and type, when the gain is in the given direction.\<close>

definition movement_of :: "string \<Rightarrow> string \<Rightarrow> string \<Rightarrow> int \<Rightarrow> MovementRecord" where
  "movement_of anchor eID ty n =
     \<lparr>mvTxID = anchor, mvEnrollmentID = eID, mvTokenType = ty, mvAmount = n, mvStatus = TxPending\<rparr>"

definition cells :: "(string \<Rightarrow> string \<Rightarrow> 'r list) \<Rightarrow> string list \<Rightarrow> string list \<Rightarrow> 'r list" where
  "cells c es tys = concat (map (\<lambda>e. concat (map (c e) tys)) es)"

definition send_cell :: "AuditRecord \<Rightarrow> OutputStream \<Rightarrow> string \<Rightarrow> string \<Rightarrow> MovementRecord list" where
  "send_cell r outs e ty =
     (let diff = sent_amount (arInputs r) e ty - received_by outs e ty
      in if diff \<le> 0 then [] else [movement_of (arAnchor r) e ty (- diff)])"

definition received_cell :: "AuditRecord \<Rightarrow> OutputStream \<Rightarrow> string \<Rightarrow> string \<Rightarrow> MovementRecord list" where
  "received_cell r outs e ty =
     (let diff = received_by outs e ty - sent_amount (arInputs r) e ty
      in if diff \<le> 0 then [] else [movement_of (arAnchor r) e ty diff])"

definition movements_of :: "AuditRecord \<Rightarrow> MovementRecord list" where
  "movements_of r =
     (case arOutputs r of
        None \<Rightarrow> []
      | Some outs \<Rightarrow>
          cells (send_cell r outs) (joinIOEIDs (arInputs r) outs) (OutputStream_TokenTypes outs)
          @ cells (received_cell r outs) (joinIOEIDs (arInputs r) outs) (OutputStream_TokenTypes outs))"

lemma sum_list_single:
  assumes "distinct xs" and "\<And>x. x \<in> set xs \<Longrightarrow> x \<noteq> a \<Longrightarrow> h x = 0"
  shows "sum_list (map h xs) = (if a \<in> set xs then h a else (0::int))"
  using assms
proof (induction xs)
  case (Cons x xs)
  have "sum_list (map h xs) = (if a \<in> set xs then h a else 0)" by (rule Cons.IH) (use Cons.prems in auto)
  then show ?case using Cons.prems by (cases "x = a") auto
qed simp

text \<open>A sum over all cells is that of the one cell that counts.\<close>

lemma additive_concat:
  assumes "\<mu> [] = (0::int)" and "\<And>xs ys. \<mu> (xs @ ys) = \<mu> xs + \<mu> ys"
  shows "\<mu> (concat xss) = sum_list (map \<mu> xss)"
  using assms by (induction xss) simp_all

lemma additive_cells:
  fixes \<mu> :: "'r list \<Rightarrow> int"
  assumes add: "\<mu> [] = 0" "\<And>xs ys. \<mu> (xs @ ys) = \<mu> xs + \<mu> ys"
    and "distinct es" and "distinct tys"
    and cell: "\<And>e t. \<mu> (c e t) = (if e = eID \<and> t = ty then v else 0)"
  shows "\<mu> (cells c es tys) = (if eID \<in> set es \<and> ty \<in> set tys then v else 0)"
proof -
  have row: "\<mu> (concat (map (c e) tys)) = (if e = eID \<and> ty \<in> set tys then v else 0)" for e
    using sum_list_single [OF assms(4), of ty "\<lambda>t. \<mu> (c e t)"] cell
    by (simp add: additive_concat [of \<mu>, OF add] comp_def)
  have "\<mu> (cells c es tys) = sum_list (map (\<lambda>e. \<mu> (concat (map (c e) tys))) es)"
    by (simp only: cells_def additive_concat [of \<mu>, OF add] map_map comp_def)
  also have "\<dots> = (if eID \<in> set es then \<mu> (concat (map (c eID) tys)) else 0)"
    by (rule sum_list_single [OF assms(3)]) (simp only: row simp_thms if_False)
  finally have "\<mu> (cells c es tys) = (if eID \<in> set es then if ty \<in> set tys then v else 0 else 0)"
    by (simp only: row simp_thms)
  then show ?thesis by simp
qed

lemmas amount_cells = additive_cells [of "amount e t" for e t, OF amount_simps]

lemma amount_movement [simp]:
  "amount eID ty [movement_of anchor e t n] = (if e = eID \<and> t = ty then n else 0)"
  by (simp add: amount_def movement_of_def)

lemma distinct_joinIOEIDs: "distinct (joinIOEIDs ins outs)"
  by (simp add: joinIOEIDs_def deduplicate_def)

lemma set_joinIOEIDs:
  "set (joinIOEIDs ins outs) = (nEnrollmentID ` set (nsInputs ins) \<union> oEnrollmentID ` set (osOutputs outs)) - {[]}"
  by (auto simp: joinIOEIDs_def deduplicate_def InputStream_EnrollmentIDs_def OutputStream_EnrollmentIDs_def)

lemma no_gain:
  assumes "eID \<notin> set (joinIOEIDs ins outs)" and "eID \<noteq> []"
  shows "received_by outs eID ty = 0" and "sent_amount ins eID ty = 0"
proof -
  have "filter (\<lambda>t. oEnrollmentID t = eID) (osOutputs outs) = []" "filter (\<lambda>t. nEnrollmentID t = eID) (nsInputs ins) = []"
    using assms by (auto simp: set_joinIOEIDs filter_empty_conv)
  then show "received_by outs eID ty = 0" "sent_amount ins eID ty = 0"
    by (simp_all add: received_by_def sent_amount_def sent_by_def OutputStream_ByType_def OutputStream_ByEnrollmentID_def
        OutputStream_Filter_def OutputStream_Sum_def InputStream_ByType_def InputStream_ByEnrollmentID_def
        InputStream_Filter_def InputStream_Sum_def)
qed

lemma no_type:
  assumes "types_covered (Appended timestamp r)" and "arOutputs r = Some outs" and "ty \<notin> set (OutputStream_TokenTypes outs)"
  shows "received_by outs eID ty = 0" and "sent_amount (arInputs r) eID ty = 0"
proof -
  have ty: "ty \<notin> oType ` set (osOutputs outs)" using assms(3) by (simp add: OutputStream_TokenTypes_def)
  then have "ty \<notin> nType ` set (nsInputs (arInputs r))" using assms(1,2) by auto
  with ty have "filter (\<lambda>t. oType t = ty) (osOutputs outs) = []" "filter (\<lambda>t. nType t = ty) (nsInputs (arInputs r)) = []"
    by (auto simp: filter_empty_conv)
  then have "filter (\<lambda>t. oType t = ty) (filter f (osOutputs outs)) = []"
    "filter (\<lambda>t. nType t = ty) (filter g (nsInputs (arInputs r))) = []" for f g
    by (auto simp: filter_empty_conv)
  then show "received_by outs eID ty = 0" "sent_amount (arInputs r) eID ty = 0"
    by (simp_all add: received_by_def sent_amount_def sent_by_def OutputStream_ByType_def OutputStream_ByEnrollmentID_def
        OutputStream_Filter_def OutputStream_Sum_def InputStream_ByType_def InputStream_ByEnrollmentID_def
        InputStream_Filter_def InputStream_Sum_def del: filter_filter)
qed

text \<open>The movements of a request add up to what it gains.\<close>

lemma amount_movements:
  assumes "types_covered (Appended timestamp r)" and "eID \<noteq> []"
  shows "amount eID ty (movements_of r) = net_of r eID ty"
proof (cases "arOutputs r")
  case None
  then show ?thesis by (simp add: movements_of_def net_of_def)
next
  case (Some outs)
  let ?es = "joinIOEIDs (arInputs r) outs" and ?tys = "OutputStream_TokenTypes outs"
  let ?d = "received_by outs eID ty - sent_amount (arInputs r) eID ty"
  have tys: "distinct ?tys" by (simp add: OutputStream_TokenTypes_def)
  have 1: "amount eID ty (send_cell r outs e t) = (if e = eID \<and> t = ty then min ?d 0 else 0)" for e t
    by (simp add: send_cell_def Let_def min_def)
  have 2: "amount eID ty (received_cell r outs e t) = (if e = eID \<and> t = ty then max ?d 0 else 0)" for e t
    by (simp add: received_cell_def Let_def max_def)
  have "amount eID ty (movements_of r) = (if eID \<in> set ?es \<and> ty \<in> set ?tys then ?d else 0)"
    using amount_cells [OF distinct_joinIOEIDs tys 1, of "arInputs r" outs]
      amount_cells [OF distinct_joinIOEIDs tys 2, of "arInputs r" outs]
    by (simp add: movements_of_def Some min_def max_def)
  also have "\<dots> = net_of r eID ty"
    using no_gain [OF _ assms(2), of "arInputs r" outs ty] no_type [OF assms(1) Some]
    by (auto simp: net_of_def Some)
  finally show ?thesis .
qed

lemma movements_of_fields: "m \<in> set (movements_of r) \<Longrightarrow> mvTxID m = arAnchor r \<and> mvStatus m = TxPending"
  by (auto simp: movements_of_def cells_def send_cell_def received_cell_def Let_def movement_of_def
      split: option.splits if_splits)

section \<open>Movements that represent the ledger\<close>

definition entry_of :: "string \<times> TxStatus \<times> (string \<Rightarrow> string \<Rightarrow> int) \<Rightarrow> MovementRecord list \<Rightarrow> bool" where
  "entry_of = (\<lambda>(tx, st, f) ms. (\<forall>m \<in> set ms. mvTxID m = tx \<and> mvStatus m = st) \<and> (\<forall>e ty. e \<noteq> [] \<longrightarrow> amount e ty ms = f e ty))"

definition represents :: "account_log \<Rightarrow> MovementRecord list \<Rightarrow> bool" where
  "represents A ms \<longleftrightarrow> (\<exists>mss. ms = concat mss \<and> list_all2 entry_of A mss)"

lemma represents_append:
  assumes "represents A ms" and "types_covered (Appended timestamp r)"
  shows "represents (log_event (Appended timestamp r) A) (ms @ movements_of r)"
proof -
  obtain mss where mss: "ms = concat mss" "list_all2 entry_of A mss" using assms(1) by (auto simp: represents_def)
  have "entry_of (arAnchor r, TxPending, net_of r) (movements_of r)"
    using movements_of_fields amount_movements [OF assms(2)] by (simp add: entry_of_def)
  with mss(2) have "list_all2 entry_of (A @ [(arAnchor r, TxPending, net_of r)]) (mss @ [movements_of r])"
    by (simp add: list_all2_appendI)
  with mss(1) show ?thesis unfolding represents_def by (intro exI [of _ "mss @ [movements_of r]"]) simp
qed

definition with_status :: "string \<Rightarrow> TxStatus \<Rightarrow> MovementRecord \<Rightarrow> MovementRecord" where
  "with_status tx st m = (if mvTxID m = tx then m\<lparr>mvStatus := st\<rparr> else m)"

lemma amount_with_status [simp]: "amount e ty (map (with_status tx st) ms) = amount e ty ms"
  by (induction ms) (auto simp: amount_def with_status_def)

lemma represents_status:
  assumes "represents A ms"
  shows "represents (log_event (StatusSet tx st) A) (map (with_status tx st) ms)"
proof -
  obtain mss where mss: "ms = concat mss" "list_all2 entry_of A mss" using assms by (auto simp: represents_def)
  have "entry_of (case a of (x, st', f) \<Rightarrow> if x = tx then (x, st, f) else (x, st', f)) (map (with_status tx st) m)"
    if "entry_of a m" for a m
    using that by (auto simp: entry_of_def with_status_def split: prod.splits)
  with mss(2) have "list_all2 entry_of (log_event (StatusSet tx st) A) (map (map (with_status tx st)) mss)"
    by (auto simp: list_all2_map1 list_all2_map2 elim!: list_all2_mono)
  with mss(1) show ?thesis
    unfolding represents_def by (intro exI [of _ "map (map (with_status tx st)) mss"]) (simp add: map_concat)
qed

lemma represents_balance:
  assumes "represents A ms" and "eID \<noteq> []"
  shows "live_amount eID ty ms = balance_of A eID ty"
proof -
  obtain mss where mss: "ms = concat mss" "list_all2 entry_of A mss" using assms(1) by (auto simp: represents_def)
  from mss(2) have "live_amount eID ty (concat mss) = balance_of A eID ty"
  proof (induction rule: list_all2_induct)
    case (Cons a A m mss)
    obtain tx st f where a: "a = (tx, st, f)" by (cases a)
    have "filter (\<lambda>r. live (mvStatus r)) m = (if live st then m else [])"
      using Cons(1) by (auto simp: entry_of_def a filter_id_conv filter_empty_conv)
    then have "live_amount eID ty m = (if live st then f eID ty else 0)"
      using Cons(1) assms(2) by (simp add: live_amount_def entry_of_def a)
    with Cons show ?case by (simp add: balance_of_def a)
  qed (simp add: balance_of_def)
  with mss(1) show ?thesis by simp
qed

section \<open>The laws of a driver\<close>

text \<open>What an event does to a log of movements.\<close>

fun event_moves :: "tx_event \<Rightarrow> MovementRecord list \<Rightarrow> MovementRecord list" where
  "event_moves (Appended timestamp r) ms = ms @ movements_of r"
| "event_moves (StatusSet tx st) ms = map (with_status tx st) ms"

lemma represents_events:
  "represents A ms \<Longrightarrow> \<forall>ev \<in> set evs. types_covered ev \<Longrightarrow> represents (fold log_event evs A) (fold event_moves evs ms)"
proof (induction evs arbitrary: A ms)
  case (Cons ev evs)
  then have "represents (log_event ev A) (event_moves ev ms)"
    using represents_append represents_status by (cases ev) (simp_all del: log_event.simps types_covered.simps)
  with Cons show ?case by simp
qed simp

text \<open>
  A driver keeps a log of movements, outside an update (\<open>idle\<close>) and inside one (\<open>upd\<close>).
  \<open>ids\<close> are the transaction identifiers for which it does so.
\<close>

locale movement_log =
  fixes D :: "('s, 'i) TokenTransactionDB" and ids :: "string set" and idle upd :: "'s \<Rightarrow> MovementRecord list \<Rightarrow> bool"
  assumes begin_law: "idle s ms \<Longrightarrow> dBeginUpdate D s = (Inr (), t) \<Longrightarrow> upd t ms"
    and add_law: "upd s ms \<Longrightarrow> mvTxID r \<in> ids \<Longrightarrow> dAddMovement D r s = (Inr (), t) \<Longrightarrow> upd t (ms @ [r])"
    and add_transaction_law: "upd s ms \<Longrightarrow> trTxID x \<in> ids \<Longrightarrow> dAddTransaction D x s = (Inr (), t) \<Longrightarrow> upd t ms"
    and commit_law: "upd s ms \<Longrightarrow> dCommit D s = (Inr (), t) \<Longrightarrow> idle t ms"
    and status_law: "idle s ms \<Longrightarrow> tx \<in> ids \<Longrightarrow> dSetStatus D tx st s = (Inr (), t) \<Longrightarrow> idle t (map (with_status tx st) ms)"
    and query_law: "idle s ms \<Longrightarrow> qmSearchDirection q = FromBeginning \<or> qmSearchDirection q = FromLast \<Longrightarrow> 0 \<le> qmNumRecords q \<Longrightarrow>
      dQueryMovements D q s = (Inr rs, t) \<Longrightarrow>
      idle t ms \<and> rs = limited (qmNumRecords q) (filter (movement_matches q) (oriented q ms))"

lemma or_discard_Inr: "or_discard D m s = (Inr u, t) \<longleftrightarrow> m s = (Inr u, t)"
  by (auto simp: or_discard_def split: prod.splits sum.splits error.splits)

lemma transactions_invariant:
  assumes "transactions_loop D timestamp anchor inputs outputs i s = (Inr (), t)" and "P s"
    and "\<And>is os u v. P u \<Longrightarrow> append_action D timestamp anchor outputs is os u = (Inr (), v) \<Longrightarrow> P v"
  shows "P t"
  using assms
proof (induction D timestamp anchor inputs outputs i s rule: transactions_loop.induct)
  case (1 D timestamp anchor inputs outputs i s)
  let ?a = "append_action D timestamp anchor outputs (inputs_of_action i inputs) (outputs_of_action i outputs) s"
  show ?case
  proof (cases "InputStream_Count (inputs_of_action i inputs) = 0 \<and> OutputStream_Count (outputs_of_action i outputs) = 0")
    case True
    with 1(2,3) show ?thesis by (simp add: transactions_loop.simps)
  next
    case False
    with 1(2) obtain u where u: "?a = (Inr (), u)" "transactions_loop D timestamp anchor inputs outputs (i + 1) u = (Inr (), t)"
      by (subst (asm) transactions_loop.simps) (auto simp: Let_def split: prod.splits sum.splits)
    have "P u" by (rule 1(4) [OF 1(3) u(1)])
    from 1(1) [OF refl refl False u(1) [symmetric] refl u(2) this 1(4)] show ?thesis .
  qed
qed

context movement_log
begin

lemma ofor_appends:
  assumes "\<And>x s t ms. x \<in> set xs \<Longrightarrow> upd s ms \<Longrightarrow> f x s = (Inr (), t) \<Longrightarrow> upd t (ms @ g x)"
    and "ofor f xs s = (Inr (), t)" and "upd s ms"
  shows "upd t (ms @ concat (map g xs))"
  using assms
proof (induction xs arbitrary: s ms)
  case (Cons x xs)
  from Cons.prems(2) obtain u where u: "f x s = (Inr (), u)" "ofor f xs u = (Inr (), t)" by (auto simp: go_simps)
  have "upd u (ms @ g x)" by (rule Cons.prems(1) [OF _ Cons.prems(3) u(1)]) simp
  from Cons.IH [OF Cons.prems(1) u(2) this] have "upd t ((ms @ g x) @ concat (map g xs))" by auto
  then show ?case by simp
qed simp

lemma send_appends:
  assumes "arAnchor r \<in> ids" and "upd s ms"
    and "append_send D (arAnchor r) (arInputs r) outs e ty s = (Inr (), t)"
  shows "upd t (ms @ send_cell r outs e ty)"
proof -
  obtain n where n: "sent_by (arInputs r) e ty = Inr n" using assms(3) by (auto simp: append_send_def go_simps)
  show ?thesis
  proof (cases "n - received_by outs e ty \<le> 0")
    case True
    with assms n show ?thesis by (auto simp: append_send_def obind_apply send_cell_def sent_amount_def)
  next
    case False
    with assms(3) n have "dAddMovement D (movement_of (arAnchor r) e ty (- (n - received_by outs e ty))) s = (Inr (), t)"
      by (simp add: append_send_def obind_apply Let_def or_discard_Inr movement_of_def)
    from add_law [OF assms(2) _ this] assms(1) False n show ?thesis
      by (simp add: send_cell_def sent_amount_def movement_of_def)
  qed
qed

lemma received_appends:
  assumes "arAnchor r \<in> ids" and "upd s ms"
    and "append_received D (arAnchor r) (arInputs r) outs e ty s = (Inr (), t)"
  shows "upd t (ms @ received_cell r outs e ty)"
proof -
  obtain n where n: "sent_by (arInputs r) e ty = Inr n" using assms(3) by (auto simp: append_received_def go_simps)
  show ?thesis
  proof (cases "received_by outs e ty - n \<le> 0")
    case True
    with assms n show ?thesis by (auto simp: append_received_def obind_apply received_cell_def sent_amount_def)
  next
    case False
    with assms(3) n have "dAddMovement D (movement_of (arAnchor r) e ty (received_by outs e ty - n)) s = (Inr (), t)"
      by (simp add: append_received_def obind_apply Let_def or_discard_Inr movement_of_def)
    from add_law [OF assms(2) _ this] assms(1) False n show ?thesis
      by (simp add: received_cell_def sent_amount_def movement_of_def)
  qed
qed

lemma movements_appended:
  assumes "arAnchor r \<in> ids" and "appendSendMovements D r s = (Inr (), u)" and "appendReceivedMovements D r u = (Inr (), t)"
    and "upd s ms"
  shows "upd t (ms @ movements_of r)"
proof -
  obtain outs where outs: "arOutputs r = Some outs" using assms(2) by (auto simp: appendSendMovements_def go_simps)
  let ?es = "joinIOEIDs (arInputs r) outs" and ?tys = "OutputStream_TokenTypes outs"
  have so: "ofor (\<lambda>eID. ofor (append_send D (arAnchor r) (arInputs r) outs eID) ?tys) ?es s = (Inr (), u)"
    and ro: "ofor (\<lambda>eID. ofor (append_received D (arAnchor r) (arInputs r) outs eID) ?tys) ?es u = (Inr (), t)"
    using assms(2,3) by (simp_all add: appendSendMovements_def appendReceivedMovements_def outs obind_apply)
  have srow: "upd y (xs @ concat (map (send_cell r outs e) ?tys))"
    if "upd x xs" "ofor (append_send D (arAnchor r) (arInputs r) outs e) ?tys x = (Inr (), y)" for e x y xs
    by (rule ofor_appends [OF send_appends [OF assms(1)] that(2,1)])
  have rrow: "upd y (xs @ concat (map (received_cell r outs e) ?tys))"
    if "upd x xs" "ofor (append_received D (arAnchor r) (arInputs r) outs e) ?tys x = (Inr (), y)" for e x y xs
    by (rule ofor_appends [OF received_appends [OF assms(1)] that(2,1)])
  have su: "upd u (ms @ cells (send_cell r outs) ?es ?tys)"
    unfolding cells_def by (rule ofor_appends [OF srow so assms(4)])
  have "upd t ((ms @ cells (send_cell r outs) ?es ?tys) @ cells (received_cell r outs) ?es ?tys)"
    unfolding cells_def [of "received_cell r outs"] by (rule ofor_appends [OF rrow ro su])
  then show ?thesis by (simp add: movements_of_def outs)
qed

lemma action_keeps:
  assumes "anchor \<in> ids" and "upd s ms" and "append_action D timestamp anchor outs is os s = (Inr (), t)"
  shows "upd t ms"
proof -
  let ?f = "append_transaction D timestamp anchor outs (InputStream_EnrollmentIDs is)"
  have 1: "upd v (xs @ [])" if u: "upd u xs" and f: "?f e ty u = (Inr (), v)" for e ty u v xs
  proof (cases "received_by outs e ty \<le> 0")
    case True
    with u f show ?thesis by (simp add: append_transaction_def)
  next
    case False
    with f have "\<exists>x. trTxID x = anchor \<and> dAddTransaction D x u = (Inr (), v)"
      by (intro exI conjI) (auto simp: append_transaction_def Let_def or_discard_Inr)
    with add_transaction_law [OF u] assms(1) show ?thesis by auto
  qed
  have 2: "upd v (xs @ concat (map (\<lambda>_. []) (OutputStream_TokenTypes os)))"
    if "upd u xs" "ofor (?f e) (OutputStream_TokenTypes os) u = (Inr (), v)" for e u v xs
    by (rule ofor_appends [OF 1 that(2,1)])
  have "ofor (\<lambda>e. ofor (?f e) (OutputStream_TokenTypes os)) (OutputStream_EnrollmentIDs os @ [[]]) s = (Inr (), t)"
    using assms(3) by (simp add: append_action_def Let_def split: if_splits)
  from ofor_appends [OF 2 this assms(2)] show ?thesis by (simp add: map_replicate_const)
qed

lemma record_appends:
  assumes "arAnchor r \<in> ids" and "idle s ms" and "append_record D timestamp r s = (Inr (), t)"
  shows "idle t (ms @ movements_of r)"
proof -
  obtain b u v w where b: "dBeginUpdate D s = (Inr (), b)" and u: "appendSendMovements D r b = (Inr (), u)"
    and v: "appendReceivedMovements D r u = (Inr (), v)" and w: "appendTransactions D timestamp r v = (Inr (), w)"
    and t: "dCommit D w = (Inr (), t)"
    using assms(3) by (auto simp: append_record_def go_simps or_discard_Inr)
  have V: "upd v (ms @ movements_of r)" by (rule movements_appended [OF assms(1) u v begin_law [OF assms(2) b]])
  obtain outs where "transactions_loop D timestamp (arAnchor r) (arInputs r) outs 0 v = (Inr (), w)"
    using w by (auto simp: appendTransactions_def go_simps)
  then have "upd w (ms @ movements_of r)" using V by (rule transactions_invariant) (rule action_keeps [OF assms(1)])
  then show ?thesis using t by (rule commit_law)
qed

lemma event_refines:
  assumes "event_id ev \<in> ids" and "idle (dbStore db) ms" and "apply_event D ev db = (Inr (), db')"
  shows "idle (dbStore db') (event_moves ev ms)"
proof (cases ev)
  case (Appended timestamp r)
  then have "append_record D timestamp r (dbStore db) = (Inr (), dbStore db')"
    using assms(3) by (auto simp: on_store_def split: prod.splits)
  with record_appends [OF _ assms(2)] assms(1) Appended show ?thesis by simp
next
  case (StatusSet tx st)
  then have "dSetStatus D tx st (dbStore db) = (Inr (), dbStore db')"
    using assms(3) by (auto simp: DB_SetStatus_def on_store_def or_discard_Inr split: prod.splits)
  with status_law [OF assms(2)] assms(1) StatusSet show ?thesis by simp
qed

lemma events_refine:
  assumes "event_id ` set evs \<subseteq> ids" and "idle (dbStore db) ms" and "ofor (apply_event D) evs db = (Inr (), db')"
  shows "idle (dbStore db') (fold event_moves evs ms)"
  using assms
proof (induction evs arbitrary: db ms)
  case (Cons ev evs)
  from Cons.prems(3) obtain d where d: "apply_event D ev db = (Inr (), d)" "ofor (apply_event D) evs d = (Inr (), db')"
    by (auto simp: go_simps)
  have "idle (dbStore d) (event_moves ev ms)"
    by (rule event_refines [OF _ Cons.prems(2) d(1)]) (use Cons.prems(1) in simp)
  then show ?case using Cons.IH [OF _ _ d(2)] Cons.prems(1) by simp
qed simp

lemma holdings_sum:
  assumes "idle (dbStore db) ms"
    and "Holdings_Execute D (Holdings_ByType ty (Holdings_ByEnrollmentId eID NewHoldingsFilter)) db = (Inr f, db')"
  shows "Holdings_Sum f = live_amount eID ty ms"
proof -
  let ?q = "\<lparr>qmEnrollmentIDs = [eID], qmTokenTypes = [ty], qmTxStatuses = [TxPending, TxConfirmed],
    qmSearchDirection = FromBeginning, qmMovementDirection = MoveAll, qmNumRecords = 0\<rparr>"
  obtain rs t where "dQueryMovements D ?q (dbStore db) = (Inr rs, t)" and f: "hfRecords f = rs"
    using assms(2)
    by (auto simp: Holdings_Execute_def Let_def go_simps on_store_def NewHoldingsFilter_def Holdings_ByType_def
        Holdings_ByEnrollmentId_def no_movement_params_def split: prod.splits)
  with query_law [OF assms(1), of ?q rs t]
  have rs: "rs = filter (movement_matches ?q) ms"
    by (simp add: limited_def oriented_def)
  have "movement_matches ?q = (\<lambda>r. live (mvStatus r) \<and> mvEnrollmentID r = eID \<and> mvTokenType r = ty)"
    by (auto simp: movement_matches_def movement_selected_def movement_directed_def live_def tx_consts)
  moreover have "foldl (\<lambda>s r. s + mvAmount r) a ms = a + sum_list (map mvAmount ms)" for a and ms :: "MovementRecord list"
    by (induction ms arbitrary: a) simp_all
  ultimately show ?thesis
    using rs f by (simp add: Holdings_Sum_def live_amount_def amount_def conj_commute)
qed

text \<open>After any history the holdings are the balance of the abstract ledger.\<close>

lemma holdings_balance:
  assumes "idle s []" and "event_id ` set evs \<subseteq> ids" and "\<forall>ev \<in> set evs. types_covered ev" and "eID \<noteq> []"
    and "ofor (apply_event D) evs (newDB s) = (Inr (), db)"
    and "Holdings_Execute D (Holdings_ByType ty (Holdings_ByEnrollmentId eID NewHoldingsFilter)) db = (Inr f, db')"
  shows "Holdings_Sum f = balance_of (fold log_event evs []) eID ty"
proof -
  have "represents [] []" by (simp add: represents_def)
  note represents_balance [OF represents_events [OF this assms(3)] assms(4)]
  moreover have "idle (dbStore db) (fold event_moves evs [])"
    by (rule events_refine [OF assms(2) _ assms(5)]) (simp add: newDB_def assms(1))
  ultimately show ?thesis using holdings_sum [OF _ assms(6)] by simp
qed

text \<open>What a query of movements returns after any history.\<close>

lemma query_history:
  assumes "idle s []" and "event_id ` set evs \<subseteq> ids" and "ofor (apply_event D) evs (newDB s) = (Inr (), db)"
    and "qmSearchDirection q = FromBeginning \<or> qmSearchDirection q = FromLast" and "0 \<le> qmNumRecords q"
    and "dQueryMovements D q (dbStore db) = (Inr rs, t)"
  shows "rs = limited (qmNumRecords q) (filter (movement_matches q) (oriented q (fold event_moves evs [])))"
proof -
  have "idle (dbStore db) (fold event_moves evs [])"
    by (rule events_refine [OF assms(2) _ assms(3)]) (simp add: newDB_def assms(1))
  from query_law [OF this assms(4-6)] show ?thesis by simp
qed

end

section \<open>The driver in memory keeps the log\<close>

interpretation memory: movement_log memory_db UNIV "\<lambda>s ms. movementRecords s = ms" "\<lambda>s ms. movementRecords s = ms"
  by unfold_locales
    (auto simp: memory_BeginUpdate_def memory_Commit_def memory_AddMovement_def memory_AddTransaction_def
      memory_SetStatus_def with_status_def [abs_def] QueryMovements_eq)

end
