(* ===== verification/TxProperties.thy ===== *)
theory TxProperties
  imports TxHoldings "HOL-Library.Code_Target_Nat"
begin

text \<open>
  What the transaction database answers over the driver in memory: holdings against the
  abstract ledger, queries against their specification, and two behaviours that the code
  should not have: amounts that are counted for several actions, and movements that stay when
  a request is refused.
\<close>

section \<open>The transaction records of a request\<close>

definition transaction_of ::
  "int \<Rightarrow> string \<Rightarrow> OutputStream \<Rightarrow> string list \<Rightarrow> string \<Rightarrow> string \<Rightarrow> TransactionRecord list" where
  "transaction_of timestamp anchor outputs inEIDs outEID ty =
     (if received_by outputs outEID ty \<le> 0 then []
      else [\<lparr>trTxID = anchor,
         trActionType = (if inEIDs = [] then ActionIssue else if outEID = [] then ActionRedeem else ActionTransfer),
         trSenderEID = (case inEIDs of [e] \<Rightarrow> e | _ \<Rightarrow> []), trRecipientEID = outEID, trTokenType = ty,
         trAmount = received_by outputs outEID ty, trTimestamp = timestamp, trStatus = TxPending\<rparr>])"

definition action_records :: "int \<Rightarrow> string \<Rightarrow> InputStream \<Rightarrow> OutputStream \<Rightarrow> nat \<Rightarrow> TransactionRecord list" where
  "action_records timestamp anchor inputs outputs i =
     cells (transaction_of timestamp anchor outputs (InputStream_EnrollmentIDs (inputs_of_action i inputs)))
       (OutputStream_EnrollmentIDs (outputs_of_action i outputs) @ [[]]) (OutputStream_TokenTypes (outputs_of_action i outputs))"

definition has_action :: "InputStream \<Rightarrow> OutputStream \<Rightarrow> nat \<Rightarrow> bool" where
  "has_action inputs outputs i \<longleftrightarrow> i \<in> nActionIndex ` set (nsInputs inputs) \<union> oActionIndex ` set (osOutputs outputs)"

lemma has_action_iff:
  "has_action inputs outputs i \<longleftrightarrow>
    \<not> (InputStream_Count (inputs_of_action i inputs) = 0 \<and> OutputStream_Count (outputs_of_action i outputs) = 0)"
  by (auto simp: has_action_def inputs_of_action_def outputs_of_action_def InputStream_Filter_def OutputStream_Filter_def
      InputStream_Count_def OutputStream_Count_def filter_empty_conv)

lemma memory_or_discard: "or_discard memory_db m = m"
  by (rule ext) (auto simp: or_discard_def memory_Discard_def split: sum.splits prod.splits error.splits)

lemma ofor_total:
  assumes "\<And>x s. f x s = (Inr (), s\<lparr>transactionRecords := transactionRecords s @ g x\<rparr>)"
  shows "ofor f xs s = (Inr (), s\<lparr>transactionRecords := transactionRecords s @ concat (map g xs)\<rparr>)"
  by (induction xs arbitrary: s) (simp_all add: obind_apply assms)

lemma append_transaction_memory:
  "append_transaction memory_db timestamp anchor outputs inEIDs outEID ty s
    = (Inr (), s\<lparr>transactionRecords := transactionRecords s @ transaction_of timestamp anchor outputs inEIDs outEID ty\<rparr>)"
  unfolding append_transaction_def transaction_of_def Let_def memory_or_discard
  by (simp add: memory_AddTransaction_def)

lemma append_action_memory:
  "append_action memory_db timestamp anchor outputs (inputs_of_action i inputs) (outputs_of_action i outputs) s =
    (if length (InputStream_EnrollmentIDs (inputs_of_action i inputs)) > 1
     then (Inl (Err ''expected at most 1 input enrollment id''), s)
     else (Inr (), s\<lparr>transactionRecords := transactionRecords s @ action_records timestamp anchor inputs outputs i\<rparr>))"
  unfolding append_action_def action_records_def cells_def Let_def
  by (simp only: if_distrib [of "\<lambda>f. f s"] olift_apply ofor_total [OF ofor_total [OF append_transaction_memory]])

definition actions_left :: "InputStream \<Rightarrow> OutputStream \<Rightarrow> nat \<Rightarrow> nat" where
  "actions_left inputs outputs i =
     length (filter (\<lambda>x. i \<le> nActionIndex x) (nsInputs inputs)) + length (filter (\<lambda>x. i \<le> oActionIndex x) (osOutputs outputs))"

lemma actions_left_less:
  assumes "has_action inputs outputs i"
  shows "actions_left inputs outputs (Suc i) < actions_left inputs outputs i"
proof -
  have "filter (\<lambda>x. nActionIndex x = i) (nsInputs inputs) \<noteq> [] \<or> filter (\<lambda>x. oActionIndex x = i) (osOutputs outputs) \<noteq> []"
    using assms by (auto simp: has_action_def filter_empty_conv)
  with fewer_ahead(1) [of i nActionIndex "nsInputs inputs"] fewer_ahead(2) [of nActionIndex i "nsInputs inputs"]
    fewer_ahead(1) [of i oActionIndex "osOutputs outputs"] fewer_ahead(2) [of oActionIndex i "osOutputs outputs"]
  show ?thesis by (auto simp: actions_left_def)
qed

lemma memory_loop_step:
  "transactions_loop memory_db timestamp anchor inputs outputs i s =
    (if \<not> has_action inputs outputs i then (Inr (), s)
     else if length (InputStream_EnrollmentIDs (inputs_of_action i inputs)) > 1
     then (Inl (Err ''expected at most 1 input enrollment id''), s)
     else transactions_loop memory_db timestamp anchor inputs outputs (Suc i)
       (s\<lparr>transactionRecords := transactionRecords s @ action_records timestamp anchor inputs outputs i\<rparr>))"
  by (subst transactions_loop.simps) (auto simp: has_action_iff append_action_memory Let_def)

text \<open>The loop goes through the actions up to the first index that is missing.\<close>

lemma transactions_memory:
  assumes "transactions_loop memory_db timestamp anchor inputs outputs i s = (r, t)"
  shows "movementRecords t = movementRecords s \<and> (r = Inr () \<longrightarrow>
    (\<exists>n \<ge> i. (\<forall>j. i \<le> j \<and> j < n \<longrightarrow> has_action inputs outputs j) \<and> \<not> has_action inputs outputs n
    \<and> transactionRecords t = transactionRecords s @ concat (map (action_records timestamp anchor inputs outputs) [i..<n])))"
  using assms
proof (induction "actions_left inputs outputs i" arbitrary: i s rule: less_induct)
  case less
  note step = less.prems [unfolded memory_loop_step [of timestamp anchor inputs outputs i]]
  show ?case
  proof (cases "has_action inputs outputs i")
    case False
    with step have "t = s" by simp
    with False show ?thesis by (auto intro!: exI [of _ i])
  next
    case True
    show ?thesis
    proof (cases "length (InputStream_EnrollmentIDs (inputs_of_action i inputs)) > 1")
      case bad: True
      with step True show ?thesis by auto
    next
      case False
      let ?u = "s\<lparr>transactionRecords := transactionRecords s @ action_records timestamp anchor inputs outputs i\<rparr>"
      have "transactions_loop memory_db timestamp anchor inputs outputs (Suc i) ?u = (r, t)"
        using step True False by simp
      note IH = less.hyps [OF actions_left_less [OF True] this]
      have "\<exists>n \<ge> i. (\<forall>j. i \<le> j \<and> j < n \<longrightarrow> has_action inputs outputs j) \<and> \<not> has_action inputs outputs n
        \<and> transactionRecords t = transactionRecords s @ concat (map (action_records timestamp anchor inputs outputs) [i..<n])"
        if "r = Inr ()"
      proof -
        obtain n where n: "Suc i \<le> n" "\<forall>j. Suc i \<le> j \<and> j < n \<longrightarrow> has_action inputs outputs j" "\<not> has_action inputs outputs n"
          "transactionRecords t = transactionRecords ?u @ concat (map (action_records timestamp anchor inputs outputs) [Suc i..<n])"
          using IH \<open>r = Inr ()\<close> by blast
        have "has_action inputs outputs j" if "i \<le> j" "j < n" for j
          using n(2) True that by (cases "j = i") auto
        moreover have "[i..<n] = i # [Suc i..<n]" using n(1) by (simp add: upt_conv_Cons)
        ultimately show ?thesis using n by (intro exI [of _ n]) simp
      qed
      with IH show ?thesis by simp
    qed
  qed
qed

definition recorded :: "string \<Rightarrow> string \<Rightarrow> TransactionRecord list \<Rightarrow> int" where
  "recorded eID ty rs = sum_list (map trAmount (filter (\<lambda>r. trRecipientEID r = eID \<and> trTokenType r = ty) rs))"

lemma recorded_simps [simp]:
  "recorded eID ty [] = 0" "recorded eID ty (xs @ ys) = recorded eID ty xs + recorded eID ty ys"
  by (simp_all add: recorded_def)

lemma recorded_action:
  "recorded eID ty (action_records timestamp anchor inputs outputs i) =
    (if eID \<in> set (OutputStream_EnrollmentIDs (outputs_of_action i outputs) @ [[]])
        \<and> ty \<in> set (OutputStream_TokenTypes (outputs_of_action i outputs))
     then max (received_by outputs eID ty) 0 else 0)"
  unfolding action_records_def
proof (rule additive_cells [OF recorded_simps])
  show "distinct (OutputStream_EnrollmentIDs (outputs_of_action i outputs) @ [[]])"
    by (auto simp: OutputStream_EnrollmentIDs_def)
  show "distinct (OutputStream_TokenTypes (outputs_of_action i outputs))" by (simp add: OutputStream_TokenTypes_def)
qed (simp add: transaction_of_def recorded_def)

lemma two_of_sum_list:
  assumes "distinct xs" and "a \<in> set xs" and "b \<in> set xs" and "a \<noteq> b" and "\<And>x. x \<in> set xs \<Longrightarrow> 0 \<le> h x" and "h a = v" and "h b = (v::int)"
  shows "2 * v \<le> sum_list (map h xs)"
proof -
  have "sum h {a, b} \<le> sum h (set xs)" by (rule sum_mono2) (use assms in auto)
  with assms show ?thesis by (simp add: sum_list_distinct_conv_sum_set)
qed

section \<open>Refused requests\<close>

text \<open>The sends and receipts of a request fail in memory only for an input with no quantity.\<close>

lemma append_send_memory:
  assumes "append_send memory_db anchor ins outs e ty s = (Inl err, t)"
  shows "err = nil_pointer"
  using assms unfolding append_send_def memory_or_discard
  by (auto simp: go_simps memory_AddMovement_def Let_def sent_by_def InputStream_Sum_def rfold_quantities
      split: if_splits)

lemma append_received_memory:
  assumes "append_received memory_db anchor ins outs e ty s = (Inl err, t)"
  shows "err = nil_pointer"
  using assms unfolding append_received_def memory_or_discard
  by (auto simp: go_simps memory_AddMovement_def Let_def sent_by_def InputStream_Sum_def rfold_quantities
      split: if_splits)

lemma ofor_error:
  assumes "\<And>x s t err. f x s = (Inl err, t) \<Longrightarrow> err = e" and "ofor f xs s = (Inl err, t)"
  shows "err = e"
  using assms(2) by (induction xs arbitrary: s) (auto simp: go_simps dest: assms(1))

lemma refused_keeps_movements:
  assumes "append_record memory_db timestamp r s = (Inl (Err m), t)"
  shows "movementRecords t = movementRecords s @ movements_of r"
proof -
  obtain outs where outs: "arOutputs r = Some outs"
    using assms unfolding append_record_def memory_or_discard
    by (auto simp: go_simps memory_BeginUpdate_def appendSendMovements_def deref_def nil_pointer_def split: option.splits)
  have sends: "appendSendMovements memory_db r x \<noteq> (Inl (Err m), y)" for x y
  proof
    assume "appendSendMovements memory_db r x = (Inl (Err m), y)"
    then have "ofor (\<lambda>eID. ofor (append_send memory_db (arAnchor r) (arInputs r) outs eID) (OutputStream_TokenTypes outs))
        (joinIOEIDs (arInputs r) outs) x = (Inl (Err m), y)"
      by (simp add: appendSendMovements_def outs obind_apply)
    then have "Err m = nil_pointer"
      by (rule ofor_error [rotated]) (erule ofor_error [rotated], erule append_send_memory)
    then show False by (simp add: nil_pointer_def)
  qed
  have receives: "appendReceivedMovements memory_db r x \<noteq> (Inl (Err m), y)" for x y
  proof
    assume "appendReceivedMovements memory_db r x = (Inl (Err m), y)"
    then have "ofor (\<lambda>eID. ofor (append_received memory_db (arAnchor r) (arInputs r) outs eID) (OutputStream_TokenTypes outs))
        (joinIOEIDs (arInputs r) outs) x = (Inl (Err m), y)"
      by (simp add: appendReceivedMovements_def outs obind_apply)
    then have "Err m = nil_pointer"
      by (rule ofor_error [rotated]) (erule ofor_error [rotated], erule append_received_memory)
    then show False by (simp add: nil_pointer_def)
  qed
  obtain u v where "appendSendMovements memory_db r s = (Inr (), u)" "appendReceivedMovements memory_db r u = (Inr (), v)"
    and w: "transactions_loop memory_db timestamp (arAnchor r) (arInputs r) outs 0 v = (Inl (Err m), t)"
    using assms unfolding append_record_def memory_or_discard
    by (auto simp: go_simps sends receives memory_BeginUpdate_def memory_Commit_def appendTransactions_def outs)
  with memory.movements_appended [of r s u v "movementRecords s"] transactions_memory [OF w] show ?thesis by simp
qed

section \<open>Example requests\<close>

definition tx_in :: "nat \<Rightarrow> string \<Rightarrow> u64 \<Rightarrow> StreamInput" where
  "tx_in a e n = \<lparr>nActionIndex = a, nId = None, nOwner = [], nOwnerAuditInfo = [], nEnrollmentID = e, nType = ''USD'',
     nQuantity = Some (UInt64Quantity n)\<rparr>"

definition tx_out :: "nat \<Rightarrow> string \<Rightarrow> u64 \<Rightarrow> StreamOutput" where
  "tx_out a e n = \<lparr>oActionIndex = a, oIndex = 0, oOwner = [], oOwnerAuditInfo = [], oEnrollmentID = e, oType = ''USD'',
     oQuantity = UInt64Quantity n\<rparr>"

definition tx_record :: "string \<Rightarrow> StreamInput list \<Rightarrow> StreamOutput list \<Rightarrow> AuditRecord" where
  "tx_record anchor ins outs =
     \<lparr>arAnchor = anchor, arInputs = NewInputStream (\<lambda>_. Inr False) ins 64, arOutputs = Some (NewOutputStream outs 64)\<rparr>"

text \<open>An issue of ten to Alice, a payment of four to Bob, and one of one that is deleted.\<close>

definition tx_history :: "tx_event list" where
  "tx_history =
     [Appended 1 (tx_record ''t1'' [] [tx_out 0 ''alice'' 10]), StatusSet ''t1'' TxConfirmed,
      Appended 2 (tx_record ''t2'' [tx_in 0 ''alice'' 10] [tx_out 0 ''bob'' 4, tx_out 0 ''alice'' 6]),
      Appended 3 (tx_record ''t3'' [tx_in 0 ''bob'' 4] [tx_out 0 ''alice'' 1, tx_out 0 ''bob'' 3]), StatusSet ''t3'' TxDeleted]"

definition alice_holdings :: HoldingsFilter where
  "alice_holdings = Holdings_ByType ''USD'' (Holdings_ByEnrollmentId ''alice'' NewHoldingsFilter)"

definition empty_store :: Persistence where
  "empty_store = \<lparr>movementRecords = [], transactionRecords = []\<rparr>"

lemma history_run: "fst (ofor (apply_event memory_db) tx_history (newDB empty_store)) = Inr ()"
  by code_simp

lemma history_covered: "\<forall>ev \<in> set tx_history. types_covered ev"
  by code_simp

lemma history_holdings:
  "map_sum id Holdings_Sum (fst (Holdings_Execute memory_db alice_holdings
     (snd (ofor (apply_event memory_db) tx_history (newDB empty_store))))) = Inr 6"
  by code_simp

section \<open>Properties\<close>

text \<open>
  C18: holdings are the balance of the ledger. After any history of appended requests and
  status changes on the driver in memory, what the holdings filter sums up for an enrollment
  identifier and a type is what the identifier received less what it sent in the requests
  whose status is pending or confirmed, each request counted once. The requests are those that
  destroy no type altogether: every type among the inputs of a request occurs among its
  outputs, where what is redeemed counts as an output.
\<close>
theorem holdings_are_ledger_balance:
  assumes "\<forall>ev \<in> set evs. types_covered ev" and "eID \<noteq> []"
    and "ofor (apply_event memory_db) evs (newDB empty_store) = (Inr (), db)"
    and "Holdings_Execute memory_db (Holdings_ByType ty (Holdings_ByEnrollmentId eID NewHoldingsFilter)) db = (Inr f, db')"
  shows "Holdings_Sum f = balance_of (fold log_event evs []) eID ty"
  by (rule memory.holdings_balance [OF _ _ assms]) (simp_all add: empty_store_def)

lemma holdings_are_ledger_balance_witness:
  "balance_of (fold log_event tx_history []) ''alice'' ''USD'' = 6"
proof -
  obtain db where db: "ofor (apply_event memory_db) tx_history (newDB empty_store) = (Inr (), db)"
    using history_run by (cases "ofor (apply_event memory_db) tx_history (newDB empty_store)") simp
  moreover obtain f db' where f: "Holdings_Execute memory_db alice_holdings db = (Inr f, db')" "Holdings_Sum f = 6"
    using history_holdings db
    by (cases "fst (Holdings_Execute memory_db alice_holdings db)"; cases "Holdings_Execute memory_db alice_holdings db") auto
  ultimately show ?thesis
    using holdings_are_ledger_balance [OF history_covered, of "''alice''" db "''USD''" f db']
    by (simp add: alice_holdings_def)
qed

text \<open>
  A query of movements returns, in the direction of the search, the records that pass
  every filter, and at most as many as asked for: the loop with its cursor, its counter and
  its two places to stop is the composition of a filter and a limit.
\<close>
theorem movements_query_exact:
  assumes "qmSearchDirection q = FromBeginning \<or> qmSearchDirection q = FromLast"
  shows "memory_QueryMovements q p =
    (Inr (limited (qmNumRecords q) (filter (movement_matches q) (oriented q (movementRecords p)))), p)"
  using assms by (rule QueryMovements_eq)

lemma movements_query_exact_witness:
  "fst (memory_QueryMovements (no_movement_params\<lparr>qmMovementDirection := MoveAll, qmNumRecords := 1\<rparr>)
     \<lparr>movementRecords = [movement_of ''t1'' ''alice'' ''USD'' 1, movement_of ''t2'' ''bob'' ''USD'' 2], transactionRecords = []\<rparr>)
   = Inr [movement_of ''t2'' ''bob'' ''USD'' 2]"
  using movements_query_exact [of "no_movement_params\<lparr>qmMovementDirection := MoveAll, qmNumRecords := 1\<rparr>"
      "\<lparr>movementRecords = [movement_of ''t1'' ''alice'' ''USD'' 1, movement_of ''t2'' ''bob'' ''USD'' 2], transactionRecords = []\<rparr>"]
  by (simp add: no_movement_params_def limited_def oriented_def movement_matches_def movement_selected_def
      movement_directed_def movement_of_def tx_consts)

text \<open>
  A transaction record is documented to hold the total of an action, but the amount is
  taken from all the outputs of the request: when two actions of a request give tokens of a
  type to the same enrollment identifier, the records that are appended add up to at least
  twice what it received.
\<close>
theorem transactions_counted_twice:
  assumes "append_transactions_only memory_db timestamp r s = (Inr (), t)" and "arOutputs r = Some outs"
    and "\<forall>j \<le> max (oActionIndex x) (oActionIndex y). has_action (arInputs r) outs j"
    and "x \<in> set (osOutputs outs)" and "y \<in> set (osOutputs outs)" and "oActionIndex x \<noteq> oActionIndex y"
    and "oEnrollmentID x = eID" and "oEnrollmentID y = eID" and "oType x = ty" and "oType y = ty"
  shows "\<exists>new. transactionRecords t = transactionRecords s @ new \<and> 2 * received_by outs eID ty \<le> recorded eID ty new"
proof -
  have "transactions_loop memory_db timestamp (arAnchor r) (arInputs r) outs 0 s = (Inr (), t)"
    using assms(1,2) unfolding append_transactions_only_def memory_or_discard
    by (auto simp: go_simps appendTransactions_def memory_BeginUpdate_def memory_Commit_def)
  then obtain n where n: "\<not> has_action (arInputs r) outs n"
    and t: "transactionRecords t = transactionRecords s @ concat (map (action_records timestamp (arAnchor r) (arInputs r) outs) [0..<n])"
    using transactions_memory by fastforce
  let ?h = "\<lambda>i. recorded eID ty (action_records timestamp (arAnchor r) (arInputs r) outs i)"
  have less: "oActionIndex x < n" "oActionIndex y < n"
    using n assms(3) by (meson max.cobounded1 max.cobounded2 not_le_imp_less order_trans)+
  have h: "?h (oActionIndex z) = max (received_by outs eID ty) 0"
    if "z \<in> set (osOutputs outs)" "oEnrollmentID z = eID" "oType z = ty" for z
    using that by (force simp: recorded_action outputs_of_action_def OutputStream_Filter_def OutputStream_EnrollmentIDs_def OutputStream_TokenTypes_def)
  have "2 * max (received_by outs eID ty) 0 \<le> sum_list (map ?h [0..<n])"
    by (rule two_of_sum_list [of _ "oActionIndex x" "oActionIndex y"])
      (use less assms h in \<open>auto simp: recorded_action\<close>)
  also have "\<dots> = recorded eID ty (concat (map (action_records timestamp (arAnchor r) (arInputs r) outs) [0..<n]))"
    by (simp add: additive_concat [of "recorded eID ty"] comp_def)
  finally show ?thesis using t by auto
qed

definition two_issues :: AuditRecord where
  "two_issues = tx_record ''t1'' [] [tx_out 0 ''alice'' 5, tx_out 1 ''alice'' 7]"

lemma transactions_counted_twice_witness:
  "\<exists>t. append_transactions_only memory_db 1 two_issues empty_store = (Inr (), t)
    \<and> 24 \<le> recorded ''alice'' ''USD'' (transactionRecords t)"
proof -
  have "fst (append_transactions_only memory_db 1 two_issues empty_store) = Inr ()" by code_simp
  then obtain t where t: "append_transactions_only memory_db 1 two_issues empty_store = (Inr (), t)"
    by (cases "append_transactions_only memory_db 1 two_issues empty_store") simp
  let ?o = "NewOutputStream [tx_out 0 ''alice'' 5, tx_out 1 ''alice'' 7] 64"
  have "received_by ?o ''alice'' ''USD'' = 12" by code_simp
  moreover have "\<exists>new. transactionRecords t = transactionRecords empty_store @ new
      \<and> 2 * received_by ?o ''alice'' ''USD'' \<le> recorded ''alice'' ''USD'' new"
    by (rule transactions_counted_twice [OF t, of _ "tx_out 0 ''alice'' 5" "tx_out 1 ''alice'' 7"])
      (auto simp: two_issues_def tx_record_def NewOutputStream_def has_action_def tx_out_def le_Suc_eq)
  ultimately show ?thesis using t by (auto simp: empty_store_def)
qed

text \<open>
  The driver in memory has no transactions: a request that the database refuses (one of
  its actions has inputs of two enrollment identifiers) leaves its movements behind, and the
  holdings count them.
\<close>
theorem refused_request_counts:
  assumes "append_record memory_db timestamp r s = (Inl (Err m), t)"
    and "types_covered (Appended timestamp r)" and "eID \<noteq> []"
  shows "live_amount eID ty (movementRecords t) = live_amount eID ty (movementRecords s) + net_of r eID ty"
proof -
  have "filter (\<lambda>x. live (mvStatus x)) (movements_of r) = movements_of r"
    using movements_of_fields by (auto simp: filter_id_conv live_def)
  then have "live_amount eID ty (movements_of r) = net_of r eID ty"
    by (simp add: live_amount_def amount_movements [OF assms(2,3)])
  with refused_keeps_movements [OF assms(1)] show ?thesis by simp
qed

definition joint_payment :: AuditRecord where
  "joint_payment = tx_record ''t1'' [tx_in 0 ''alice'' 5, tx_in 0 ''bob'' 5] [tx_out 0 ''carol'' 10]"

lemma refused_request_counts_witness:
  "\<exists>m t. append_record memory_db 1 joint_payment empty_store = (Inl (Err m), t)
    \<and> live_amount ''carol'' ''USD'' (movementRecords t) = 10"
proof -
  have "fst (append_record memory_db 1 joint_payment empty_store) = Inl (Err ''expected at most 1 input enrollment id'')"
    by code_simp
  then obtain t where t: "append_record memory_db 1 joint_payment empty_store
      = (Inl (Err ''expected at most 1 input enrollment id''), t)"
    by (cases "append_record memory_db 1 joint_payment empty_store") simp
  have "net_of joint_payment ''carol'' ''USD'' = 10" by code_simp
  moreover have "types_covered (Appended 1 joint_payment)" by code_simp
  ultimately show ?thesis
    using refused_request_counts [OF t, of "''carol''" "''USD''"] t by (auto simp: empty_store_def)
qed

end
