(* ===== verification/TxLocks.thy ===== *)
theory TxLocks
  imports TxDB
begin

text \<open>
  The locks on enrollment identifiers (\<open>AcquireLocks\<close> and \<open>ReleaseLocks\<close> of
  \<open>token/services/ttxdb/db.go\<close>): one concurrent map that holds, under a transaction's
  anchor, the list of its identifiers, and under an identifier its mutex. Each access to the
  map and each operation on a mutex is a step; the transactions of an auditor interleave.
\<close>

section \<open>The map\<close>

datatype lock_entry = LockedIDs "string list" | Mutex bool

type_synonym lock_map = "string \<rightharpoonup> lock_entry"

definition LoadOrStore :: "string \<Rightarrow> lock_entry \<Rightarrow> lock_map \<Rightarrow> lock_map" where
  "LoadOrStore k e m = (case m k of None \<Rightarrow> m(k \<mapsto> e) | Some _ \<Rightarrow> m)"

text \<open>
  A transaction asks for the locks of its identifiers, one after the other, holds them, and
  gives them back. A failed type assertion panics, and so does unlocking a free mutex.
\<close>

datatype lock_phase =
    NotStarted
  | Acquiring "string list" "string list"
  | Holding "string list"
  | Releasing "string list"
  | Finished
  | Panicked

record lock_state =
  lkMap :: lock_map
  lkPhase :: "nat \<Rightarrow> lock_phase"

text \<open>
  \<open>AcquireLocks\<close> up to its loop; one turn of the loop, which first makes sure that the
  identifier has a mutex and then waits for it; the return. \<open>None\<close> is a step that is not
  possible: the mutex is taken.
\<close>

definition acquire_start :: "string \<Rightarrow> string list \<Rightarrow> lock_map \<Rightarrow> lock_phase \<times> lock_map" where
  "acquire_start anchor eIDs m =
     (let dedup = deduplicate eIDs in (Acquiring dedup [], LoadOrStore anchor (LockedIDs dedup) m))"

fun acquire_next :: "string list \<Rightarrow> string list \<Rightarrow> lock_map \<Rightarrow> (lock_phase \<times> lock_map) option" where
  "acquire_next [] acquired m = Some (Holding acquired, m)"
| "acquire_next (i # is) acquired m =
     (case m i of
        None \<Rightarrow> Some (Acquiring (i # is) acquired, LoadOrStore i (Mutex False) m)
      | Some (LockedIDs _) \<Rightarrow> Some (Panicked, m)
      | Some (Mutex True) \<Rightarrow> None
      | Some (Mutex False) \<Rightarrow> Some (Acquiring is (acquired @ [i]), m(i \<mapsto> Mutex True)))"

definition release_start :: "string \<Rightarrow> lock_map \<Rightarrow> lock_phase \<times> lock_map" where
  "release_start anchor m =
     (case m anchor of
        None \<Rightarrow> (Finished, m)
      | Some (LockedIDs dedup) \<Rightarrow> (Releasing dedup, m(anchor := None))
      | Some (Mutex _) \<Rightarrow> (Panicked, m(anchor := None)))"

fun release_next :: "string list \<Rightarrow> lock_map \<Rightarrow> lock_phase \<times> lock_map" where
  "release_next [] m = (Finished, m)"
| "release_next (i # is) m =
     (case m i of
        None \<Rightarrow> (Releasing is, m)
      | Some (LockedIDs _) \<Rightarrow> (Panicked, m)
      | Some (Mutex False) \<Rightarrow> (Panicked, m)
      | Some (Mutex True) \<Rightarrow> (Releasing is, m(i \<mapsto> Mutex False)))"

section \<open>Interleaving\<close>

text \<open>A job is the anchor and the identifiers of a transaction; job \<open>p\<close> takes a step.\<close>

fun job_step :: "string \<times> string list \<Rightarrow> lock_phase \<Rightarrow> lock_map \<Rightarrow> (lock_phase \<times> lock_map) option" where
  "job_step (anchor, eIDs) NotStarted m = Some (acquire_start anchor eIDs m)"
| "job_step (anchor, eIDs) (Acquiring is acquired) m = acquire_next is acquired m"
| "job_step (anchor, eIDs) (Holding acquired) m = Some (release_start anchor m)"
| "job_step (anchor, eIDs) (Releasing is) m = Some (release_next is m)"
| "job_step (anchor, eIDs) Finished m = None"
| "job_step (anchor, eIDs) Panicked m = None"

inductive lock_step :: "(string \<times> string list) list \<Rightarrow> lock_state \<Rightarrow> lock_state \<Rightarrow> bool" for jobs where
  "p < length jobs \<Longrightarrow> job_step (jobs ! p) (lkPhase s p) (lkMap s) = Some (ph, m) \<Longrightarrow>
     lock_step jobs s \<lparr>lkMap = m, lkPhase = (lkPhase s)(p := ph)\<rparr>"

inductive_cases lock_stepE: "lock_step jobs s t"

definition lock_initial :: lock_state where
  "lock_initial = \<lparr>lkMap = Map.empty, lkPhase = (\<lambda>_. NotStarted)\<rparr>"

inductive lock_reachable :: "(string \<times> string list) list \<Rightarrow> lock_state \<Rightarrow> bool" for jobs where
  start: "lock_reachable jobs lock_initial"
| step: "lock_reachable jobs s \<Longrightarrow> lock_step jobs s t \<Longrightarrow> lock_reachable jobs t"

section \<open>The invariant\<close>

text \<open>The anchors differ from each other and from the identifiers.\<close>

definition proper_jobs :: "(string \<times> string list) list \<Rightarrow> bool" where
  "proper_jobs jobs \<longleftrightarrow> distinct (map fst jobs)
     \<and> (\<forall>p < length jobs. \<forall>q < length jobs. fst (jobs ! p) \<notin> set (snd (jobs ! q)))"

fun owned :: "lock_phase \<Rightarrow> string list" where
  "owned (Acquiring is acquired) = acquired"
| "owned (Holding acquired) = acquired"
| "owned (Releasing is) = is"
| "owned _ = []"

definition wanted :: "string \<times> string list \<Rightarrow> string list" where
  "wanted job = deduplicate (snd job)"

text \<open>How the phase of a job, its entry in the map and its list of identifiers agree.\<close>

definition phase_ok :: "string \<times> string list \<Rightarrow> lock_phase \<Rightarrow> lock_map \<Rightarrow> bool" where
  "phase_ok job ph m \<longleftrightarrow>
     (case ph of
        NotStarted \<Rightarrow> m (fst job) = None
      | Acquiring is acquired \<Rightarrow> wanted job = acquired @ is \<and> m (fst job) = Some (LockedIDs (wanted job))
      | Holding acquired \<Rightarrow> wanted job = acquired \<and> m (fst job) = Some (LockedIDs (wanted job))
      | Releasing is \<Rightarrow> (\<exists>done. wanted job = done @ is) \<and> m (fst job) = None
      | Finished \<Rightarrow> m (fst job) = None
      | Panicked \<Rightarrow> False)"

definition lock_inv :: "(string \<times> string list) list \<Rightarrow> lock_state \<Rightarrow> bool" where
  "lock_inv jobs s \<longleftrightarrow>
     (\<forall>p < length jobs. phase_ok (jobs ! p) (lkPhase s p) (lkMap s))
     \<and> (\<forall>p < length jobs. \<forall>i \<in> set (owned (lkPhase s p)). lkMap s i = Some (Mutex True))
     \<and> (\<forall>p < length jobs. \<forall>q < length jobs. p \<noteq> q \<longrightarrow> set (owned (lkPhase s p)) \<inter> set (owned (lkPhase s q)) = {})
     \<and> (\<forall>i. lkMap s i = Some (Mutex True) \<longrightarrow> (\<exists>p < length jobs. i \<in> set (owned (lkPhase s p))))
     \<and> (\<forall>i l. lkMap s i = Some (LockedIDs l) \<longrightarrow> i \<in> fst ` set jobs)"

lemma set_wanted [simp]: "set (wanted job) = set (snd job)"
  by (simp add: wanted_def deduplicate_def)

lemma distinct_wanted [simp]: "distinct (wanted job)"
  by (simp add: wanted_def deduplicate_def)

lemma phase_ok_cong: "m (fst job) = m' (fst job) \<Longrightarrow> phase_ok job ph m = phase_ok job ph m'"
  by (simp add: phase_ok_def split: lock_phase.split)

lemma inv_parts:
  assumes "lock_inv jobs s"
  shows "p < length jobs \<Longrightarrow> phase_ok (jobs ! p) (lkPhase s p) (lkMap s)"
    and "p < length jobs \<Longrightarrow> i \<in> set (owned (lkPhase s p)) \<Longrightarrow> lkMap s i = Some (Mutex True)"
    and "p < length jobs \<Longrightarrow> q < length jobs \<Longrightarrow> p \<noteq> q \<Longrightarrow> i \<in> set (owned (lkPhase s p)) \<Longrightarrow> i \<notin> set (owned (lkPhase s q))"
    and "lkMap s i = Some (Mutex True) \<Longrightarrow> \<exists>p < length jobs. i \<in> set (owned (lkPhase s p))"
    and "lkMap s i = Some (LockedIDs l) \<Longrightarrow> i \<in> fst ` set jobs"
proof -
  show "p < length jobs \<Longrightarrow> q < length jobs \<Longrightarrow> p \<noteq> q \<Longrightarrow> i \<in> set (owned (lkPhase s p)) \<Longrightarrow> i \<notin> set (owned (lkPhase s q))"
    using assms unfolding lock_inv_def by (simp add: disjoint_iff)
qed (use assms in \<open>simp_all add: lock_inv_def\<close>)

text \<open>
  A step of one job changes its phase and one key of the map, and keeps the invariant when
  it owns the key just in case the key is a mutex that is taken.
\<close>

lemma lock_inv_update:
  assumes inv: "lock_inv jobs s" and p: "p < length jobs" and ok: "phase_ok (jobs ! p) ph m"
    and m: "\<And>x. x \<noteq> k \<Longrightarrow> m x = lkMap s x"
    and anchors: "\<And>q. q < length jobs \<Longrightarrow> q \<noteq> p \<Longrightarrow> fst (jobs ! q) \<noteq> k"
    and own: "set (owned ph) - {k} = set (owned (lkPhase s p)) - {k}"
    and taken: "k \<in> set (owned ph) \<longleftrightarrow> m k = Some (Mutex True)"
    and free: "\<And>q. q < length jobs \<Longrightarrow> q \<noteq> p \<Longrightarrow> k \<notin> set (owned (lkPhase s q))"
    and lists: "\<And>l. m k = Some (LockedIDs l) \<Longrightarrow> k \<in> fst ` set jobs"
  shows "lock_inv jobs \<lparr>lkMap = m, lkPhase = (lkPhase s)(p := ph)\<rparr>"
proof -
  note parts = inv_parts [OF inv]
  let ?P = "(lkPhase s)(p := ph)"
  have own_iff: "x \<in> set (owned ph) \<longleftrightarrow> x \<in> set (owned (lkPhase s p))" if "x \<noteq> k" for x
    using own that by blast
  have 1: "phase_ok (jobs ! q) (?P q) m" if "q < length jobs" for q
  proof (cases "q = p")
    case False
    then have "m (fst (jobs ! q)) = lkMap s (fst (jobs ! q))" using m anchors that by blast
    from phase_ok_cong [of m "jobs ! q" "lkMap s", OF this] parts(1) [OF that] False show ?thesis by simp
  qed (simp add: ok)
  have 2: "m x = Some (Mutex True)" if "q < length jobs" "x \<in> set (owned (?P q))" for q x
  proof (cases "x = k")
    case True
    with that taken free [of q] show ?thesis by (cases "q = p") auto
  next
    case False
    then have "x \<in> set (owned (lkPhase s q))" using that own_iff by (cases "q = p") auto
    with parts(2) [OF that(1)] m [OF False] show ?thesis by simp
  qed
  have 3: "x \<notin> set (owned (?P r))" if "q < length jobs" "r < length jobs" "q \<noteq> r" "x \<in> set (owned (?P q))" for q r x
  proof (cases "x = k")
    case True
    with that free [of q] free [of r] show ?thesis by (cases "q = p"; cases "r = p") auto
  next
    case False
    then have "x \<in> set (owned (lkPhase s q))" using that own_iff by (cases "q = p") auto
    with parts(3) [OF that(1-3)] own_iff [OF False] show ?thesis by (cases "r = p") auto
  qed
  have 4: "\<exists>q < length jobs. x \<in> set (owned (?P q))" if "m x = Some (Mutex True)" for x
  proof (cases "x = k")
    case True
    with that taken p show ?thesis by (intro exI [of _ p]) simp
  next
    case False
    with that m obtain q where "q < length jobs" "x \<in> set (owned (lkPhase s q))" using parts(4) [of x] by auto
    with own_iff [OF False] show ?thesis by (intro exI [of _ q]) auto
  qed
  have 5: "x \<in> fst ` set jobs" if "m x = Some (LockedIDs l)" for x l
    using that lists [of l] m [of x] parts(5) [of x l] by (cases "x = k") auto
  show ?thesis
    unfolding lock_inv_def using 1 2 3 4 5 by (simp add: disjoint_iff)
qed

lemma proper_anchors:
  assumes "proper_jobs jobs" and "p < length jobs"
  shows "q < length jobs \<Longrightarrow> q \<noteq> p \<Longrightarrow> fst (jobs ! q) \<noteq> fst (jobs ! p)"
    and "i \<in> set (snd (jobs ! p)) \<Longrightarrow> i \<notin> fst ` set jobs"
proof -
  show "fst (jobs ! q) \<noteq> fst (jobs ! p)" if "q < length jobs" "q \<noteq> p"
    using assms that nth_eq_iff_index_eq [of "map fst jobs" q p] by (simp add: proper_jobs_def)
  show "i \<notin> fst ` set jobs" if "i \<in> set (snd (jobs ! p))"
  proof
    assume "i \<in> fst ` set jobs"
    then obtain q where "q < length jobs" "i = fst (jobs ! q)" by (auto simp: in_set_conv_nth)
    with assms that show False by (simp add: proper_jobs_def)
  qed
qed

lemma owned_wanted:
  assumes "phase_ok job ph m"
  shows "set (owned ph) \<subseteq> set (snd job)"
proof -
  have "set (owned ph) \<subseteq> set (wanted job)"
    using assms by (cases ph) (auto simp: phase_ok_def simp del: set_wanted)
  then show ?thesis by simp
qed

lemma lock_inv_step:
  assumes proper: "proper_jobs jobs" and inv: "lock_inv jobs s" and "lock_step jobs s t"
  shows "lock_inv jobs t"
proof -
  obtain p ph m where p: "p < length jobs" and j: "job_step (jobs ! p) (lkPhase s p) (lkMap s) = Some (ph, m)"
    and t: "t = \<lparr>lkMap = m, lkPhase = (lkPhase s)(p := ph)\<rparr>"
    using assms(3) by (blast elim: lock_stepE)
  obtain anchor eIDs where job: "jobs ! p = (anchor, eIDs)" by fastforce
  note ok = inv_parts(1) [OF inv p] and parts = inv_parts [OF inv]
  have others: "i \<notin> fst ` set jobs" if "q < length jobs" "i \<in> set (owned (lkPhase s q))" for q i
    using proper_anchors(2) [OF proper that(1)] owned_wanted [OF parts(1) [OF that(1)]] that(2) by blast
  have anchor: "anchor \<in> fst ` set jobs" using p job by (metis fst_conv image_eqI nth_mem)
  have diff: "fst (jobs ! q) \<noteq> anchor" if "q < length jobs" "q \<noteq> p" for q
    using proper_anchors(1) [OF proper p that] job by simp
  have ids: "fst (jobs ! q) \<noteq> i" if "q < length jobs" "i \<in> set eIDs" for q i
    using proper_anchors(2) [OF proper p, of i] that job by auto
  have notid: "i \<notin> fst ` set jobs" if "i \<in> set eIDs" for i
    using proper_anchors(2) [OF proper p, of i] that job by auto
  have notown: "anchor \<notin> set (owned (lkPhase s q))" if "q < length jobs" for q using others [OF that] anchor by blast
  show ?thesis
  proof (cases "lkPhase s p")
    case NotStarted
    then have m: "ph = Acquiring (wanted (anchor, eIDs)) []" "m = (lkMap s)(anchor \<mapsto> LockedIDs (wanted (anchor, eIDs)))"
      using j ok job by (auto simp: acquire_start_def LoadOrStore_def phase_ok_def wanted_def Let_def)
    show ?thesis unfolding t
      by (rule lock_inv_update [OF inv p, where k = anchor])
        (use m NotStarted job diff anchor notown in \<open>simp_all add: phase_ok_def\<close>)
  next
    case (Acquiring todo acquired)
    have a: "lkMap s anchor = Some (LockedIDs (wanted (anchor, eIDs)))" "wanted (anchor, eIDs) = acquired @ todo"
      using ok Acquiring job by (simp_all add: phase_ok_def)
    show ?thesis
    proof (cases todo)
      case Nil
      then have m: "ph = Holding acquired" "m = lkMap s" using j Acquiring job by simp_all
      show ?thesis unfolding t
        by (rule lock_inv_update [OF inv p, where k = anchor])
          (use m Nil a Acquiring job diff anchor notown [OF p] notown in \<open>simp_all add: phase_ok_def\<close>)
    next
      case (Cons i rest)
      have i: "i \<in> set eIDs" using a(2) Cons set_wanted [of "(anchor, eIDs)"] by (metis in_set_conv_decomp snd_conv)
      have nl: "lkMap s i \<noteq> Some (LockedIDs l)" for l using parts(5) [of i l] notid [OF i] by blast
      have na: "anchor \<noteq> i" using anchor notid [OF i] by blast
      show ?thesis
      proof (cases "lkMap s i")
        case None
        then have m: "ph = Acquiring todo acquired" "m = (lkMap s)(i \<mapsto> Mutex False)"
          using j Acquiring Cons job by (simp_all add: LoadOrStore_def)
        have free: "i \<notin> set (owned (lkPhase s q))" if "q < length jobs" for q using parts(2) [OF that] None by auto
        show ?thesis unfolding t
          by (rule lock_inv_update [OF inv p, where k = i])
            (use m a na Acquiring job ids [OF _ i] free [OF p] free in \<open>simp_all add: phase_ok_def\<close>)
      next
        case (Some e)
        with nl obtain b where b: "lkMap s i = Some (Mutex b)" by (cases e) auto
        with j Acquiring Cons job have nb: "\<not> b" and m: "ph = Acquiring rest (acquired @ [i])" "m = (lkMap s)(i \<mapsto> Mutex True)"
          by (cases b; simp)+
        have free: "i \<notin> set (owned (lkPhase s q))" if "q < length jobs" for q using parts(2) [OF that, of i] b nb by auto
        show ?thesis unfolding t
          by (rule lock_inv_update [OF inv p, where k = i])
            (use m a na Cons Acquiring job ids [OF _ i] free in \<open>auto simp: phase_ok_def\<close>)
      qed
    qed
  next
    case (Holding acquired)
    then have w: "wanted (anchor, eIDs) = acquired" "lkMap s anchor = Some (LockedIDs acquired)"
      using ok job by (auto simp: phase_ok_def)
    then have m: "ph = Releasing acquired" "m = (lkMap s)(anchor := None)"
      using j Holding job by (simp_all add: release_start_def)
    show ?thesis unfolding t
      by (rule lock_inv_update [OF inv p, where k = anchor])
        (use m w Holding job diff notown [OF p] notown in \<open>simp_all add: phase_ok_def\<close>)
  next
    case (Releasing todo)
    obtain d where w: "wanted (anchor, eIDs) = d @ todo" "lkMap s anchor = None"
      using ok Releasing job by (auto simp: phase_ok_def)
    show ?thesis
    proof (cases todo)
      case Nil
      then have m: "ph = Finished" "m = lkMap s" using j Releasing job by simp_all
      show ?thesis unfolding t
        by (rule lock_inv_update [OF inv p, where k = anchor])
          (use m Nil w Releasing job diff notown in \<open>simp_all add: phase_ok_def\<close>)
    next
      case (Cons i rest)
      have i: "i \<in> set eIDs" using w(1) Cons set_wanted [of "(anchor, eIDs)"] by (metis in_set_conv_decomp snd_conv)
      have ni: "i \<notin> set rest" using distinct_wanted [of "(anchor, eIDs)"] w(1) Cons by simp
      have "lkMap s i = Some (Mutex True)" using parts(2) [OF p] Releasing Cons by simp
      with j Releasing Cons job have m: "ph = Releasing rest" "m = (lkMap s)(i \<mapsto> Mutex False)" by simp_all
      have na: "anchor \<noteq> i" using anchor notid [OF i] by blast
      have free: "i \<notin> set (owned (lkPhase s q))" if "q < length jobs" "q \<noteq> p" for q
        using parts(3) [OF p that(1) that(2) [symmetric]] Releasing Cons by simp
      have "phase_ok (jobs ! p) ph m"
        using m w job na Cons by (auto simp: phase_ok_def intro: exI [of _ "d @ [i]"])
      then show ?thesis unfolding t
        by (rule lock_inv_update [OF inv p, where k = i])
          (use m ni Cons Releasing ids [OF _ i] free in auto)
    qed
  next
    case Finished
    with j job show ?thesis by simp
  next
    case Panicked
    with j job show ?thesis by simp
  qed
qed

lemma lock_inv_reachable:
  assumes "proper_jobs jobs" and "lock_reachable jobs s"
  shows "lock_inv jobs s"
  using assms(2)
proof induction
  case start
  show ?case by (auto simp: lock_inv_def lock_initial_def phase_ok_def)
next
  case (step s t)
  show ?case by (rule lock_inv_step [OF assms(1) step.IH step.hyps(2)])
qed

section \<open>Progress\<close>

lemma job_step_waits:
  assumes "job_step job ph m = None" and "ph \<noteq> Finished" and "ph \<noteq> Panicked"
  obtains i rest acquired where "ph = Acquiring (i # rest) acquired" "m i = Some (Mutex True)"
proof -
  obtain anchor eIDs where job: "job = (anchor, eIDs)" by fastforce
  obtain todo acquired where ph: "ph = Acquiring todo acquired" using assms job by (cases ph) auto
  then obtain i rest where todo: "todo = i # rest" using assms(1) job by (cases todo) auto
  have "m i = Some (Mutex True)"
    using assms(1) job ph todo by (auto split: option.splits lock_entry.splits bool.splits)
  with that ph todo show ?thesis by blast
qed

text \<open>A job that waits for a lock waits for a job that waits for a lock of higher rank.\<close>

lemma waits_for_higher:
  assumes proper: "proper_jobs jobs" and reach: "lock_reachable jobs s"
    and rank: "\<forall>job \<in> set jobs. sorted_wrt (\<lambda>x y. rank x < rank y) (wanted job)"
    and stuck: "\<And>t. \<not> lock_step jobs s t"
    and p: "p < length jobs" "lkPhase s p = Acquiring (i # rest) acquired" "lkMap s i = Some (Mutex True)"
  shows "\<exists>q < length jobs. \<exists>j rest' acquired'. lkPhase s q = Acquiring (j # rest') acquired'
    \<and> lkMap s j = Some (Mutex True) \<and> (rank i :: nat) < rank j"
proof -
  note inv = lock_inv_reachable [OF proper reach]
  obtain q where q: "q < length jobs" "i \<in> set (owned (lkPhase s q))" using inv_parts(4) [OF inv p(3)] by blast
  have "lkPhase s q \<noteq> Finished" "lkPhase s q \<noteq> Panicked" using q(2) by auto
  moreover have "job_step (jobs ! q) (lkPhase s q) (lkMap s) = None"
    using stuck lock_step.intros [OF q(1)] by (cases "job_step (jobs ! q) (lkPhase s q) (lkMap s)") auto
  ultimately obtain j rest' acquired' where j: "lkPhase s q = Acquiring (j # rest') acquired'" "lkMap s j = Some (Mutex True)"
    using job_step_waits by metis
  have "wanted (jobs ! q) = acquired' @ j # rest'"
    using inv_parts(1) [OF inv q(1)] j(1) by (simp add: phase_ok_def)
  with rank q(1) have "sorted_wrt (\<lambda>x y. rank x < rank y) (acquired' @ j # rest')" by (metis nth_mem)
  with q(2) j(1) have "rank i < rank j" by (simp add: sorted_wrt_append)
  with q(1) j show ?thesis by blast
qed

section \<open>A schedule\<close>

text \<open>The jobs in the order of a schedule.\<close>

fun run_jobs :: "(string \<times> string list) list \<Rightarrow> nat list \<Rightarrow> lock_state \<Rightarrow> lock_state option" where
  "run_jobs jobs [] s = Some s"
| "run_jobs jobs (p # ps) s =
     (if p < length jobs
      then (case job_step (jobs ! p) (lkPhase s p) (lkMap s) of
          None \<Rightarrow> None
        | Some (ph, m) \<Rightarrow> run_jobs jobs ps \<lparr>lkMap = m, lkPhase = (lkPhase s)(p := ph)\<rparr>)
      else None)"

lemma run_reachable: "lock_reachable jobs s \<Longrightarrow> run_jobs jobs ps s = Some t \<Longrightarrow> lock_reachable jobs t"
proof (induction jobs ps s rule: run_jobs.induct)
  case (2 jobs p ps s)
  then obtain ph m where "p < length jobs" "job_step (jobs ! p) (lkPhase s p) (lkMap s) = Some (ph, m)"
    "run_jobs jobs ps \<lparr>lkMap = m, lkPhase = (lkPhase s)(p := ph)\<rparr> = Some t"
    by (auto split: if_splits option.splits)
  with 2 lock_reachable.step [OF _ lock_step.intros] show ?case by blast
qed simp

definition apart_jobs :: "(string \<times> string list) list" where
  "apart_jobs = [(''t1'', [''alice'', ''bob'']), (''t2'', [''carol''])]"

definition ordered_jobs :: "(string \<times> string list) list" where
  "ordered_jobs = [(''t1'', [''alice'', ''bob'']), (''t2'', [''alice'', ''bob''])]"

lemma apart_run:
  obtains s where "run_jobs apart_jobs [0, 0, 0, 0, 0, 0, 1, 1, 1, 1] lock_initial = Some s"
    "lkPhase s 0 = Holding [''alice'', ''bob'']" "lkPhase s 1 = Holding [''carol'']"
proof -
  have "map_option (\<lambda>s. (lkPhase s 0, lkPhase s 1)) (run_jobs apart_jobs [0, 0, 0, 0, 0, 0, 1, 1, 1, 1] lock_initial)
      = Some (Holding [''alice'', ''bob''], Holding [''carol''])"
    by code_simp
  with that show ?thesis by auto
qed

lemma ordered_run:
  obtains s where "run_jobs ordered_jobs [0, 0, 0, 1] lock_initial = Some s" "lkPhase s 1 = Acquiring [''alice'', ''bob''] []"
proof -
  have "map_option (\<lambda>s. lkPhase s 1) (run_jobs ordered_jobs [0, 0, 0, 1] lock_initial) = Some (Acquiring [''alice'', ''bob''] [])"
    by code_simp
  with that show ?thesis by auto
qed

section \<open>Properties\<close>

text \<open>
  C20: the locks exclude each other, and taking and giving them back never panics: however
  the calls interleave, in every state that is reached no transaction has panicked, and two
  transactions that both hold their locks have no enrollment identifier in common (the anchors
  of the transactions differ from each other and from the identifiers).
\<close>
theorem enrollment_locks_exclusive:
  assumes "proper_jobs jobs" and "lock_reachable jobs s"
  shows "(\<forall>p < length jobs. lkPhase s p \<noteq> Panicked)
    \<and> (\<forall>p < length jobs. \<forall>q < length jobs. \<forall>a b. p \<noteq> q \<longrightarrow> lkPhase s p = Holding a \<longrightarrow> lkPhase s q = Holding b \<longrightarrow>
        set (snd (jobs ! p)) \<inter> set (snd (jobs ! q)) = {})"
proof (intro conjI allI impI)
  note inv = lock_inv_reachable [OF assms]
  show "lkPhase s p \<noteq> Panicked" if "p < length jobs" for p
    using inv_parts(1) [OF inv that] by (auto simp: phase_ok_def)
  fix p q a b
  assume p: "p < length jobs" "lkPhase s p = Holding a" and q: "q < length jobs" "lkPhase s q = Holding b" and "p \<noteq> q"
  have "wanted (jobs ! p) = a" "wanted (jobs ! q) = b"
    using inv_parts(1) [OF inv p(1)] inv_parts(1) [OF inv q(1)] p(2) q(2) by (simp_all add: phase_ok_def)
  then have "set a = set (snd (jobs ! p))" "set b = set (snd (jobs ! q))" by (metis set_wanted)+
  moreover have "set a \<inter> set b = {}"
    using inv_parts(3) [OF inv p(1) q(1) \<open>p \<noteq> q\<close>] p(2) q(2) by (auto simp: disjoint_iff)
  ultimately show "set (snd (jobs ! p)) \<inter> set (snd (jobs ! q)) = {}" by simp
qed

lemma enrollment_locks_exclusive_witness:
  "\<exists>s. lock_reachable apart_jobs s \<and> lkPhase s 0 = Holding [''alice'', ''bob''] \<and> lkPhase s 1 = Holding [''carol'']
    \<and> set (snd (apart_jobs ! 0)) \<inter> set (snd (apart_jobs ! 1)) = {}"
proof -
  obtain s where s: "run_jobs apart_jobs [0, 0, 0, 0, 0, 0, 1, 1, 1, 1] lock_initial = Some s"
    "lkPhase s 0 = Holding [''alice'', ''bob'']" "lkPhase s 1 = Holding [''carol'']"
    by (rule apart_run)
  have r: "lock_reachable apart_jobs s" by (rule run_reachable [OF lock_reachable.start s(1)])
  have "proper_jobs apart_jobs" by (auto simp: proper_jobs_def apart_jobs_def less_Suc_eq)
  from conjunct2 [OF enrollment_locks_exclusive [OF this r]] s(2,3)
  have "set (snd (apart_jobs ! 0)) \<inter> set (snd (apart_jobs ! 1)) = {}" by (simp add: apart_jobs_def)
  with r s(2,3) show ?thesis by blast
qed

text \<open>
  C21: two transactions can wait for each other for ever: the locks are taken in the order in
  which the identifiers are given, without repetitions, so when one transaction gives two of them
  in one order and another in the other order, a state is reached in which each holds the mutex
  that the other waits for, and neither can ever step.
\<close>
theorem enrollment_locks_deadlock:
  assumes "proper_jobs [(x, [a, b]), (y, [b, a])]" and "a \<noteq> b"
  shows "\<exists>s. lock_reachable [(x, [a, b]), (y, [b, a])] s \<and> lkPhase s 0 = Acquiring [b] [a] \<and> lkPhase s 1 = Acquiring [a] [b]
    \<and> (\<forall>t. \<not> lock_step [(x, [a, b]), (y, [b, a])] s t)"
proof -
  let ?J = "[(x, [a, b]), (y, [b, a])]"
  have ne: "x \<noteq> y" "x \<noteq> a" "x \<noteq> b" "y \<noteq> a" "y \<noteq> b"
    using assms(1) by (auto simp: proper_jobs_def All_less_Suc numeral_2_eq_2)
  have d: "deduplicate [a, b] = [a, b]" "deduplicate [b, a] = [b, a]" using assms(2) by (auto simp: deduplicate_def)
  have go: "lock_reachable ?J \<lparr>lkMap = m, lkPhase = f(p := ph)\<rparr>"
    if "lock_reachable ?J \<lparr>lkMap = m0, lkPhase = f\<rparr>" "p < 2" "job_step (?J ! p) (f p) m0 = Some (ph, m)" for m m0 f p ph
    using lock_reachable.step [OF that(1) lock_step.intros [of p ?J]] that(2,3) by simp
  define l where "l = [x \<mapsto> LockedIDs [a, b], y \<mapsto> LockedIDs [b, a]]"
  have "lock_reachable ?J \<lparr>lkMap = Map.empty, lkPhase = \<lambda>_. NotStarted\<rparr>"
    using lock_reachable.start [of ?J] by (simp add: lock_initial_def)
  from go [OF this, of 0] have "lock_reachable ?J \<lparr>lkMap = [x \<mapsto> LockedIDs [a, b]], lkPhase = (\<lambda>_. NotStarted)(0 := Acquiring [a, b] [])\<rparr>"
    by (simp add: acquire_start_def d Let_def LoadOrStore_def)
  from go [OF this, of 1] have "lock_reachable ?J \<lparr>lkMap = l, lkPhase = (\<lambda>_. NotStarted)(0 := Acquiring [a, b] [], 1 := Acquiring [b, a] [])\<rparr>"
    using ne by (simp add: acquire_start_def d Let_def LoadOrStore_def l_def)
  from go [OF this, of 0] have "lock_reachable ?J \<lparr>lkMap = l(a \<mapsto> Mutex False), lkPhase = (\<lambda>_. NotStarted)(0 := Acquiring [a, b] [], 1 := Acquiring [b, a] [])\<rparr>"
    using ne by (simp add: LoadOrStore_def l_def fun_upd_twist)
  from go [OF this, of 0] have "lock_reachable ?J \<lparr>lkMap = l(a \<mapsto> Mutex True), lkPhase = (\<lambda>_. NotStarted)(0 := Acquiring [b] [a], 1 := Acquiring [b, a] [])\<rparr>"
    using ne by (simp add: fun_upd_twist)
  from go [OF this, of 1] have "lock_reachable ?J \<lparr>lkMap = l(a \<mapsto> Mutex True, b \<mapsto> Mutex False), lkPhase = (\<lambda>_. NotStarted)(0 := Acquiring [b] [a], 1 := Acquiring [b, a] [])\<rparr>"
    using ne assms(2) by (simp add: LoadOrStore_def l_def)
  from go [OF this, of 1] have r: "lock_reachable ?J \<lparr>lkMap = l(a \<mapsto> Mutex True, b \<mapsto> Mutex True), lkPhase = (\<lambda>_. NotStarted)(0 := Acquiring [b] [a], 1 := Acquiring [a] [b])\<rparr>"
    using ne by simp
  have "\<not> lock_step ?J \<lparr>lkMap = l(a \<mapsto> Mutex True, b \<mapsto> Mutex True), lkPhase = (\<lambda>_. NotStarted)(0 := Acquiring [b] [a], 1 := Acquiring [a] [b])\<rparr> t" for t
    using assms(2) by (auto simp: less_Suc_eq elim!: lock_stepE)
  with r show ?thesis by (intro exI conjI) (assumption | simp)+
qed

lemma enrollment_locks_deadlock_witness:
  "\<exists>s. lock_reachable [(''t1'', [''alice'', ''bob'']), (''t2'', [''bob'', ''alice''])] s
    \<and> (\<forall>t. \<not> lock_step [(''t1'', [''alice'', ''bob'']), (''t2'', [''bob'', ''alice''])] s t)"
proof -
  have "proper_jobs [(''t1'', [''alice'', ''bob'']), (''t2'', [''bob'', ''alice''])]"
    by (auto simp: proper_jobs_def less_Suc_eq)
  from enrollment_locks_deadlock [OF this] show ?thesis by auto
qed

text \<open>
  C22: a common order of the identifiers is all that is missing: when every transaction
  mentions them in the order of some ranking, then in every state that can be reached some
  transaction can step, until all have released their locks.
\<close>
theorem ordered_locks_progress:
  assumes "proper_jobs jobs" and "lock_reachable jobs s"
    and "\<forall>job \<in> set jobs. sorted_wrt (\<lambda>x y. (rank x :: nat) < rank y) (wanted job)"
    and "p < length jobs" and "lkPhase s p \<noteq> Finished"
  shows "\<exists>t. lock_step jobs s t"
proof (rule ccontr)
  assume "\<not> ?thesis"
  then have stuck: "\<And>t. \<not> lock_step jobs s t" by simp
  note inv = lock_inv_reachable [OF assms(1,2)]
  define W where "W = {i. \<exists>q < length jobs. \<exists>rest acquired. lkPhase s q = Acquiring (i # rest) acquired \<and> lkMap s i = Some (Mutex True)}"
  have "lkPhase s p \<noteq> Panicked" using inv_parts(1) [OF inv assms(4)] by (auto simp: phase_ok_def)
  moreover have "job_step (jobs ! p) (lkPhase s p) (lkMap s) = None"
    using stuck lock_step.intros [OF assms(4)] by (cases "job_step (jobs ! p) (lkPhase s p) (lkMap s)") auto
  ultimately obtain i rest acquired where "lkPhase s p = Acquiring (i # rest) acquired" "lkMap s i = Some (Mutex True)"
    using assms(5) job_step_waits by metis
  with assms(4) have "i \<in> W" by (auto simp: W_def)
  then have "W \<noteq> {}" by (metis empty_iff)
  moreover have "finite W"
  proof (rule finite_subset)
    show "W \<subseteq> (\<lambda>q. case lkPhase s q of Acquiring (i # rest) acquired \<Rightarrow> i | _ \<Rightarrow> []) ` {..<length jobs}"
      by (force simp: image_iff W_def)
  qed simp
  ultimately have "Max (rank ` W) \<in> rank ` W" by simp
  then obtain i where i: "i \<in> W" "rank i = Max (rank ` W)" by (metis imageE)
  then obtain q rest acquired where "q < length jobs" "lkPhase s q = Acquiring (i # rest) acquired" "lkMap s i = Some (Mutex True)"
    by (auto simp: W_def)
  from waits_for_higher [OF assms(1,2,3) stuck this] obtain j where j: "j \<in> W" "rank i < rank j" by (auto simp: W_def)
  from \<open>finite W\<close> j(1) have "rank j \<le> Max (rank ` W)" by simp
  with i(2) j(2) show False by simp
qed

lemma ordered_locks_progress_witness:
  "\<exists>s t. lock_reachable ordered_jobs s \<and> lkPhase s 1 = Acquiring [''alice'', ''bob''] [] \<and> lock_step ordered_jobs s t"
proof -
  obtain s where s: "run_jobs ordered_jobs [0, 0, 0, 1] lock_initial = Some s" "lkPhase s 1 = Acquiring [''alice'', ''bob''] []"
    by (rule ordered_run)
  have r: "lock_reachable ordered_jobs s" by (rule run_reachable [OF lock_reachable.start s(1)])
  have "proper_jobs ordered_jobs" by (auto simp: proper_jobs_def ordered_jobs_def less_Suc_eq)
  from ordered_locks_progress [OF this r, of "\<lambda>x. if x = ''alice'' then 0 else 1" 1] s(2)
  have "\<exists>t. lock_step ordered_jobs s t" by (simp add: ordered_jobs_def wanted_def deduplicate_def)
  with r s(2) show ?thesis by blast
qed

end
