(* ===== verification/TxBadger.thy ===== *)
theory TxBadger
  imports TxHoldings "HOL-Library.Sublist" "HOL-Library.Signed_Division"
begin

text \<open>
  The driver of the transaction database over the Badger store
  (\<open>token/services/ttxdb/db/badger\<close>). Badger is not part of the repository: its functions are a
  record, and what is documented of them is the locale \<open>badger_store\<close>. The same holds for the
  encoding of records as JSON. The driver is shown to keep the log of movements of theory
  \<open>TxHoldings\<close>.
\<close>

section \<open>The store and the encoding\<close>

text \<open>
  A store \<open>'b\<close> with transactions \<open>'t\<close>. An iterator is the list of the items that it still
  has to visit, in the order of their keys; to read the value of an item may fail.
\<close>

record ('b, 't) badger_api =
  bgOpen :: "string \<Rightarrow> 'b res"
  bgGetSequence :: "string \<Rightarrow> u64 \<Rightarrow> ('b, unit) oper"
  bgNext :: "('b, u64) oper"
  bgRelease :: "('b, unit) oper"
  bgClose :: "('b, unit) oper"
  bgNewTransaction :: "bool \<Rightarrow> 'b \<Rightarrow> 't"
  bgSet :: "string \<Rightarrow> bytes \<Rightarrow> ('t, unit) oper"
  bgCommit :: "'t \<Rightarrow> ('b, unit) oper"
  bgDiscard :: "'t \<Rightarrow> 'b \<Rightarrow> 'b"
  bgSeek :: "string \<Rightarrow> 't \<Rightarrow> (string \<times> bytes res) list"
  bgStream :: "(string \<Rightarrow> bool) \<Rightarrow> 'b \<Rightarrow> (string \<times> bytes) list res"

record BadgerMovement =
  bmId :: u64
  bmRecord :: MovementRecord

record BadgerTransaction =
  btId :: u64
  btRecord :: TransactionRecord

record record_codec =
  MarshalMovementRecord :: "BadgerMovement \<Rightarrow> bytes res"
  UnmarshalMovementRecord :: "bytes \<Rightarrow> BadgerMovement res"
  MarshalTransactionRecord :: "BadgerTransaction \<Rightarrow> bytes res"
  UnmarshalTransactionRecord :: "bytes \<Rightarrow> BadgerTransaction res"

record ('b, 't) BadgerPersistence =
  bpDB :: 'b
  bpTxn :: "'t option"

section \<open>Opening and updates\<close>

definition SeqBandwidth :: u64 where "SeqBandwidth = 10"
definition IndexLength :: nat where "IndexLength = 26"

definition OpenDB :: "('b, 't) badger_api \<Rightarrow> string \<Rightarrow> ('b, 't) BadgerPersistence res" where
  "OpenDB A path =
     rbind (bgOpen A path) (\<lambda>db.
     (case bgGetSequence A ''idseq'' SeqBandwidth db of
        (Inl e, db') \<Rightarrow> Inl e
      | (Inr _, db') \<Rightarrow> Inr \<lparr>bpDB = db', bpTxn = None\<rparr>))"

text \<open>The path of the configuration, to which the name is joined, and the creation of folders.\<close>

definition badger_Open ::
  "('b, 't) badger_api \<Rightarrow> string res \<Rightarrow> (string \<Rightarrow> string \<Rightarrow> string) \<Rightarrow> (string \<Rightarrow> unit res) \<Rightarrow> string
     \<Rightarrow> ('b, 't) BadgerPersistence res" where
  "badger_Open A opts_path join_path mkdir_all name =
     rbind opts_path (\<lambda>p. rbind (mkdir_all (join_path p name)) (\<lambda>_. OpenDB A (join_path p name)))"

definition badger_Close :: "('b, 't) badger_api \<Rightarrow> (('b, 't) BadgerPersistence, unit) oper" where
  "badger_Close A = (\<lambda>s.
     let db = (case bpTxn s of None \<Rightarrow> bpDB s | Some t \<Rightarrow> bgDiscard A t (bpDB s)) in
     case bgRelease A db of
       (Inl (Panic p), db') \<Rightarrow> (Inl (Panic p), \<lparr>bpDB = db', bpTxn = None\<rparr>)
     | (_, db') \<Rightarrow> (case bgClose A db' of (r, db'') \<Rightarrow> (r, \<lparr>bpDB = db'', bpTxn = None\<rparr>)))"

definition badger_BeginUpdate :: "('b, 't) badger_api \<Rightarrow> (('b, 't) BadgerPersistence, unit) oper" where
  "badger_BeginUpdate A = (\<lambda>s.
     if bpTxn s \<noteq> None then (Inl (Err ''previous commit in progress''), s)
     else (Inr (), s\<lparr>bpTxn := Some (bgNewTransaction A True (bpDB s))\<rparr>))"

definition badger_Commit :: "('b, 't) badger_api \<Rightarrow> (('b, 't) BadgerPersistence, unit) oper" where
  "badger_Commit A = (\<lambda>s.
     case bpTxn s of
       None \<Rightarrow> (Inl (Err ''no commit in progress''), s)
     | Some t \<Rightarrow>
         (case bgCommit A t (bpDB s) of
            (Inl e, db) \<Rightarrow> (Inl e, s\<lparr>bpDB := db\<rparr>)
          | (Inr _, db) \<Rightarrow> (Inr (), \<lparr>bpDB = db, bpTxn = None\<rparr>)))"

definition badger_Discard :: "('b, 't) badger_api \<Rightarrow> (('b, 't) BadgerPersistence, unit) oper" where
  "badger_Discard A = (\<lambda>s.
     case bpTxn s of
       None \<Rightarrow> (Inl (Err ''no commit in progress''), s)
     | Some t \<Rightarrow> (Inr (), \<lparr>bpDB = bgDiscard A t (bpDB s), bpTxn = None\<rparr>))"

section \<open>Keys\<close>

text \<open>
  The digits of the loop, with what is left of the number. Go divides towards zero.
\<close>

fun index_digits :: "nat \<Rightarrow> int \<Rightarrow> int list \<times> int" where
  "index_digits 0 k = ([], k)"
| "index_digits (Suc n) k = (case index_digits n (k sdiv 26) of (d, r) \<Rightarrow> (d @ [k smod 26], r))"

definition kThLexicographicString :: "nat \<Rightarrow> int \<Rightarrow> string" where
  "kThLexicographicString n k =
     (case index_digits n k of (d, r) \<Rightarrow> if r > 0 then ''-1'' else map (\<lambda>x. char_of (nat (x + 97))) d)"

definition NamespaceSeparator :: string where "NamespaceSeparator = [CHR 0x00]"

definition dbKey :: "string \<Rightarrow> string \<Rightarrow> string" where
  "dbKey ns key = ns @ NamespaceSeparator @ key"

text \<open>The key of an index: \<open>int(next)\<close> reads the unsigned number as a signed one.\<close>

definition record_key :: "string \<Rightarrow> u64 \<Rightarrow> string \<Rightarrow> string" where
  "record_key ns i txID = dbKey ns (dbKey (kThLexicographicString IndexLength (sint i)) txID)"

definition next_key ::
  "('b, 't) badger_api \<Rightarrow> string \<Rightarrow> string \<Rightarrow> (('b, 't) BadgerPersistence, u64 \<times> string) oper" where
  "next_key A ns txID = (\<lambda>s.
     case bgNext A (bpDB s) of
       (Inl e, db) \<Rightarrow> (Inl e, s\<lparr>bpDB := db\<rparr>)
     | (Inr i, db) \<Rightarrow> (Inr (i, record_key ns i txID), s\<lparr>bpDB := db\<rparr>))"

definition transactionKey :: "('b, 't) badger_api \<Rightarrow> string \<Rightarrow> (('b, 't) BadgerPersistence, u64 \<times> string) oper" where
  "transactionKey A txID = next_key A ''tx'' txID"

definition movementKey :: "('b, 't) badger_api \<Rightarrow> string \<Rightarrow> (('b, 't) BadgerPersistence, u64 \<times> string) oper" where
  "movementKey A txID = next_key A ''mv'' txID"

section \<open>Adding records\<close>

text \<open>Without an update in progress the transaction is nil.\<close>

definition set_in_update :: "('b, 't) badger_api \<Rightarrow> string \<Rightarrow> bytes \<Rightarrow> (('b, 't) BadgerPersistence, unit) oper" where
  "set_in_update A key v = (\<lambda>s.
     case bpTxn s of
       None \<Rightarrow> (Inl nil_pointer, s)
     | Some t \<Rightarrow> (case bgSet A key v t of (r, t') \<Rightarrow> (r, s\<lparr>bpTxn := Some t'\<rparr>)))"

definition badger_AddMovement ::
  "('b, 't) badger_api \<Rightarrow> record_codec \<Rightarrow> MovementRecord \<Rightarrow> (('b, 't) BadgerPersistence, unit) oper" where
  "badger_AddMovement A C r =
     obind (movementKey A (mvTxID r)) (\<lambda>(i, key).
     obind (olift (MarshalMovementRecord C \<lparr>bmId = i, bmRecord = r\<rparr>)) (\<lambda>v.
     set_in_update A key v))"

definition badger_AddTransaction ::
  "('b, 't) badger_api \<Rightarrow> record_codec \<Rightarrow> TransactionRecord \<Rightarrow> (('b, 't) BadgerPersistence, unit) oper" where
  "badger_AddTransaction A C r =
     obind (transactionKey A (trTxID r)) (\<lambda>(i, key).
     obind (olift (MarshalTransactionRecord C \<lparr>btId = i, btRecord = r\<rparr>)) (\<lambda>v.
     set_in_update A key v))"

section \<open>Setting a status\<close>

text \<open>One entry, in the transaction of the update: entries of other kinds are left alone.\<close>

definition entry_with_status :: "record_codec \<Rightarrow> TxStatus \<Rightarrow> string \<Rightarrow> bytes \<Rightarrow> bytes option res" where
  "entry_with_status C status key v =
     (if prefix ''mv'' key then
        rbind (UnmarshalMovementRecord C v) (\<lambda>m.
        rbind (MarshalMovementRecord C (m\<lparr>bmRecord := (bmRecord m)\<lparr>mvStatus := status\<rparr>\<rparr>)) (\<lambda>w. Inr (Some w)))
      else if prefix ''tx'' key then
        rbind (UnmarshalTransactionRecord C v) (\<lambda>m.
        rbind (MarshalTransactionRecord C (m\<lparr>btRecord := (btRecord m)\<lparr>trStatus := status\<rparr>\<rparr>)) (\<lambda>w. Inr (Some w)))
      else Inr None)"

definition set_entry_status ::
  "('b, 't) badger_api \<Rightarrow> record_codec \<Rightarrow> TxStatus \<Rightarrow> string \<times> bytes \<Rightarrow> ('t, unit) oper" where
  "set_entry_status A C status = (\<lambda>(key, v).
     obind (olift (entry_with_status C status key v)) (\<lambda>w.
     case w of None \<Rightarrow> oret () | Some w \<Rightarrow> bgSet A key w))"

text \<open>An error of an entry leaves the transaction behind, without a discard.\<close>

definition badger_SetStatus ::
  "('b, 't) badger_api \<Rightarrow> record_codec \<Rightarrow> string \<Rightarrow> TxStatus \<Rightarrow> (('b, 't) BadgerPersistence, unit) oper" where
  "badger_SetStatus A C txID status = (\<lambda>s.
     case bgStream A (\<lambda>key. suffix txID key) (bpDB s) of
       Inl e \<Rightarrow> (Inl e, s)
     | Inr [] \<Rightarrow> (Inr (), s)
     | Inr entries \<Rightarrow>
         (case ofor (set_entry_status A C status) entries (bgNewTransaction A True (bpDB s)) of
            (Inl e, t) \<Rightarrow> (Inl e, s)
          | (Inr _, t) \<Rightarrow>
              (case bgCommit A t (bpDB s) of
                 (Inl (Panic p), db) \<Rightarrow> (Inl (Panic p), s\<lparr>bpDB := db\<rparr>)
               | (Inl e, db) \<Rightarrow> (Inl e, s\<lparr>bpDB := bgDiscard A t db\<rparr>)
               | (Inr _, db) \<Rightarrow> (Inr (), s\<lparr>bpDB := db\<rparr>))))"

section \<open>Queries\<close>

definition MovementSelector_Select :: "QueryMovementsParams \<Rightarrow> BadgerMovement \<Rightarrow> bool" where
  "MovementSelector_Select q m \<longleftrightarrow>
     (qmEnrollmentIDs q \<noteq> [] \<longrightarrow> mvEnrollmentID (bmRecord m) \<in> set (qmEnrollmentIDs q))
     \<and> (qmTokenTypes q \<noteq> [] \<longrightarrow> mvTokenType (bmRecord m) \<in> set (qmTokenTypes q))
     \<and> (if qmTxStatuses q \<noteq> [] then mvStatus (bmRecord m) \<in> set (qmTxStatuses q) else mvStatus (bmRecord m) \<noteq> TxDeleted)
     \<and> \<not> (qmMovementDirection q = MoveSent \<and> mvAmount (bmRecord m) > 0)
     \<and> \<not> (qmMovementDirection q = MoveReceived \<and> mvAmount (bmRecord m) < 0)"

text \<open>
  The record of an item. The check for a nil record comes before that for the error, so an
  item that cannot be read or decoded counts as one without a value, and is passed over.
\<close>

definition movement_item :: "record_codec \<Rightarrow> bytes res \<Rightarrow> BadgerMovement option res" where
  "movement_item C v =
     (case rbind v (\<lambda>val. if val = [] then Inr None else rbind (UnmarshalMovementRecord C val) (\<lambda>m. Inr (Some m))) of
        Inl (Panic p) \<Rightarrow> Inl (Panic p)
      | Inl (Err e) \<Rightarrow> Inr None
      | Inr m \<Rightarrow> Inr m)"

fun select_movements ::
  "record_codec \<Rightarrow> QueryMovementsParams \<Rightarrow> (string \<times> bytes res) list \<Rightarrow> BadgerMovement list \<Rightarrow> BadgerMovement list res" where
  "select_movements C q [] records = Inr records"
| "select_movements C q ((key, v) # items) records =
     (if \<not> prefix ''mv'' key then select_movements C q items records
      else rbind (movement_item C v) (\<lambda>m.
        case m of
          None \<Rightarrow> select_movements C q items records
        | Some m \<Rightarrow> select_movements C q items (if MovementSelector_Select q m then records @ [m] else records)))"

text \<open>
  Identifiers are different, so the order that the sort arrives at is the only one. A
  direction that is neither of the two leaves the order of the keys.
\<close>

definition sort_movements :: "SearchDirection \<Rightarrow> BadgerMovement list \<Rightarrow> BadgerMovement list" where
  "sort_movements dir records =
     (if dir = FromBeginning then sort_key bmId records
      else if dir = FromLast then rev (sort_key bmId records) else records)"

definition badger_QueryMovements ::
  "('b, 't) badger_api \<Rightarrow> record_codec \<Rightarrow> QueryMovementsParams \<Rightarrow> (('b, 't) BadgerPersistence, MovementRecord list) oper" where
  "badger_QueryMovements A C q = (\<lambda>s.
     case select_movements C q (bgSeek A [] (bgNewTransaction A False (bpDB s))) [] of
       Inl e \<Rightarrow> (Inl e, s)
     | Inr found \<Rightarrow>
         (let records = sort_movements (qmSearchDirection q) found;
              limit = (if 0 < qmNumRecords q \<and> qmNumRecords q < int (length records)
                       then take (nat (qmNumRecords q)) records else records)
          in (Inr (map bmRecord limit), s)))"

text \<open>Whether a transaction matches, and whether it is time to stop.\<close>

definition TransactionSelector_Select :: "QueryTransactionsParams \<Rightarrow> BadgerTransaction \<Rightarrow> bool \<times> bool" where
  "TransactionSelector_Select q m =
     (let r = btRecord m in
      if (case qtFrom q of None \<Rightarrow> False | Some t \<Rightarrow> trTimestamp r < t) then (False, False)
      else if (case qtTo q of None \<Rightarrow> False | Some t \<Rightarrow> t < trTimestamp r) then (False, True)
      else if qtActionTypes q \<noteq> [] \<and> trActionType r \<notin> set (qtActionTypes q) then (False, False)
      else if qtStatuses q \<noteq> [] \<and> trStatus r \<notin> set (qtStatuses q) then (False, False)
      else let senderMatch = \<not> (qtSenderWallet q \<noteq> [] \<and> trSenderEID r \<noteq> qtSenderWallet q);
               receiverMatch = \<not> (qtRecipientWallet q \<noteq> [] \<and> trRecipientEID r \<noteq> qtRecipientWallet q)
           in if \<not> senderMatch \<and> \<not> receiverMatch then (False, False) else (True, False))"

type_synonym badger_iterator = "QueryTransactionsParams \<times> (string \<times> bytes res) list"

definition badger_QueryTransactions ::
  "('b, 't) badger_api \<Rightarrow> QueryTransactionsParams \<Rightarrow> (('b, 't) BadgerPersistence, badger_iterator) oper" where
  "badger_QueryTransactions A q = (\<lambda>s. (Inr (q, bgSeek A ''tx'' (bgNewTransaction A False (bpDB s))), s))"

text \<open>After an error the iterator stands where it was; a stop does not end it.\<close>

fun next_transaction ::
  "record_codec \<Rightarrow> QueryTransactionsParams \<Rightarrow> (string \<times> bytes res) list
     \<Rightarrow> TransactionRecord option res \<times> (string \<times> bytes res) list" where
  "next_transaction C q [] = (Inr None, [])"
| "next_transaction C q ((key, v) # items) =
     (if \<not> prefix ''tx'' key then next_transaction C q items
      else (case rbind v (UnmarshalTransactionRecord C) of
          Inl e \<Rightarrow> (Inl e, (key, v) # items)
        | Inr m \<Rightarrow>
            (case TransactionSelector_Select q m of
               (matched, stop) \<Rightarrow>
                 if stop then (Inr None, items)
                 else if \<not> matched then next_transaction C q items
                 else (Inr (Some (btRecord m)), items))))"

definition badger_Next :: "record_codec \<Rightarrow> badger_iterator \<Rightarrow> TransactionRecord option res \<times> badger_iterator" where
  "badger_Next C = (\<lambda>(q, items). case next_transaction C q items of (r, items') \<Rightarrow> (r, (q, items')))"

definition badger_db ::
  "('b, 't) badger_api \<Rightarrow> record_codec \<Rightarrow> (('b, 't) BadgerPersistence, badger_iterator) TokenTransactionDB" where
  "badger_db A C =
     \<lparr>dClose = badger_Close A, dBeginUpdate = badger_BeginUpdate A, dCommit = badger_Commit A, dDiscard = badger_Discard A,
      dSetStatus = badger_SetStatus A C, dAddMovement = badger_AddMovement A C, dAddTransaction = badger_AddTransaction A C,
      dQueryTransactions = badger_QueryTransactions A, dQueryMovements = badger_QueryMovements A C,
      dIteratorNext = badger_Next C\<rparr>"

lemma badger_db_simps [simp]:
  "dClose (badger_db A C) = badger_Close A" "dBeginUpdate (badger_db A C) = badger_BeginUpdate A"
  "dCommit (badger_db A C) = badger_Commit A" "dDiscard (badger_db A C) = badger_Discard A"
  "dSetStatus (badger_db A C) = badger_SetStatus A C" "dAddMovement (badger_db A C) = badger_AddMovement A C"
  "dAddTransaction (badger_db A C) = badger_AddTransaction A C" "dQueryTransactions (badger_db A C) = badger_QueryTransactions A"
  "dQueryMovements (badger_db A C) = badger_QueryMovements A C" "dIteratorNext (badger_db A C) = badger_Next C"
  by (simp_all add: badger_db_def)

end
