(* ===== verification/TxBadger_Refines.thy ===== *)
theory TxBadger_Refines
  imports TxBadger
begin

text \<open>
  The driver over Badger keeps the log of movements: what is documented of Badger and of the
  encoding (locales \<open>badger_store\<close>, \<open>badger_driver\<close>), the keys of the records, and the laws
  of \<open>movement_log\<close> for the driver.
\<close>

section \<open>Keys\<close>

text \<open>The digits give the number back, and nothing is left of a 64-bit number after 26 of them.\<close>

definition digits_value :: "int list \<Rightarrow> int" where
  "digits_value d = foldl (\<lambda>a x. a * 26 + x) 0 d"

lemma digits_value_snoc [simp]: "digits_value (d @ [x]) = digits_value d * 26 + x"
  by (simp add: digits_value_def)

lemma smod_26: "- 26 < k smod (26::int) \<and> k smod 26 < 26"
proof -
  have "0 \<le> \<bar>k\<bar> mod 26" "\<bar>k\<bar> mod 26 < 26" by simp_all
  then show ?thesis by (cases "sgn k = 0"; cases "sgn k = 1") (auto simp: signed_modulo_int_def sgn_if split: if_splits)
qed

lemma sdiv_26_bound: "\<bar>k sdiv (26::int)\<bar> * 26 \<le> \<bar>k\<bar>"
proof -
  have "\<bar>k\<bar> div 26 * 26 \<le> \<bar>k\<bar>" using div_mult_mod_eq [of "\<bar>k\<bar>" 26] pos_mod_sign [of 26 "\<bar>k\<bar>"] by linarith
  then show ?thesis by (cases "k = 0") (auto simp: signed_divide_int_def abs_mult abs_sgn_eq)
qed

lemma index_digits_props:
  assumes "index_digits n k = (d, r)"
  shows "length d = n \<and> k = r * 26 ^ n + digits_value d \<and> (\<forall>x \<in> set d. - 26 < x \<and> x < 26) \<and> \<bar>r\<bar> * 26 ^ n \<le> \<bar>k\<bar>"
  using assms
proof (induction n arbitrary: k d)
  case (Suc n)
  obtain d' where d': "index_digits n (k sdiv 26) = (d', r)" "d = d' @ [k smod 26]"
    using Suc.prems by (auto split: prod.splits)
  note IH = Suc.IH [OF d'(1)]
  have "k = (k sdiv 26) * 26 + k smod 26" by (simp add: sdiv_mult_smod_eq)
  also have "k sdiv 26 = r * 26 ^ n + digits_value d'" using IH by blast
  finally have "k = r * 26 ^ Suc n + digits_value d" by (simp add: d'(2) algebra_simps)
  moreover have "\<bar>r\<bar> * 26 ^ Suc n \<le> \<bar>k\<bar>" proof -
    have "\<bar>r\<bar> * 26 ^ Suc n = (\<bar>r\<bar> * 26 ^ n) * 26" by simp
    also have "\<dots> \<le> \<bar>k sdiv 26\<bar> * 26" by (rule mult_right_mono) (use IH in blast, simp)
    also have "\<dots> \<le> \<bar>k\<bar>" by (rule sdiv_26_bound)
    finally show ?thesis .
  qed
  ultimately show ?case using IH d'(2) smod_26 [of k] by auto
qed (simp add: digits_value_def)

definition index_value :: "string \<Rightarrow> int" where
  "index_value s = digits_value (map (\<lambda>c. int (of_char c) - 97) s)"

lemma index_rest:
  assumes "index_digits 26 (sint (i :: u64)) = (d, r)"
  shows "r = 0"
proof (rule ccontr)
  note p = index_digits_props [OF assms]
  assume "r \<noteq> 0"
  then have "26 ^ 26 \<le> \<bar>r\<bar> * (26 :: int) ^ 26" by simp
  also have "\<dots> \<le> \<bar>sint i\<bar>" using p by blast
  also have "\<bar>sint i\<bar> \<le> 2 ^ 63" using sint_ge [of i] sint_lt [of i] by (simp add: abs_le_iff)
  finally show False by simp
qed

lemma index_string_eq:
  assumes "index_digits 26 (sint (i :: u64)) = (d, r)"
  shows "kThLexicographicString IndexLength (sint i) = map (\<lambda>x. char_of (nat (x + 97))) d"
  using assms index_rest [OF assms] by (simp add: kThLexicographicString_def IndexLength_def)

lemma index_string:
  "length (kThLexicographicString IndexLength (sint (i :: u64))) = 26
    \<and> index_value (kThLexicographicString IndexLength (sint i)) = sint i"
proof -
  obtain d r where d: "index_digits 26 (sint i) = (d, r)" by (cases "index_digits 26 (sint i)")
  note p = index_digits_props [OF d]
  have "int (of_char (char_of (nat (x + 97)) :: char)) - 97 = x" if "x \<in> set d" for x
  proof -
    have "- 26 < x" "x < 26" using that p by auto
    then show ?thesis by (simp add: of_char_of)
  qed
  then have "map ((\<lambda>c. int (of_char c) - 97) \<circ> (\<lambda>x. char_of (nat (x + 97)))) d = map id d" by (intro map_cong) auto
  with p index_string_eq [OF d] index_rest [OF d] show ?thesis by (simp add: index_value_def)
qed

lemma index_string_inject:
  "kThLexicographicString IndexLength (sint i) = kThLexicographicString IndexLength (sint j) \<longleftrightarrow> i = j" for i j :: u64
proof
  assume "kThLexicographicString IndexLength (sint i) = kThLexicographicString IndexLength (sint j)"
  then have "sint i = sint j" using index_string [of i] index_string [of j] by metis
  then show "i = j" by (simp only: signed_word_eqI)
qed simp

lemma record_key_inject: "record_key ns i tx = record_key ns j tx' \<longleftrightarrow> i = j \<and> tx = tx'"
  using index_string [of i] index_string [of j] index_string_inject [of i j]
  by (auto simp: record_key_def dbKey_def append_eq_append_conv)

lemma record_key_prefix [simp]: "length ns = length p \<Longrightarrow> prefix p (record_key ns i tx) \<longleftrightarrow> ns = p"
  by (auto simp: record_key_def dbKey_def prefix_def)

lemma record_key_suffix: "suffix tx (record_key ns i tx)"
  by (auto simp: record_key_def dbKey_def suffix_def)

lemma suffix_same_length: "length a = length b \<Longrightarrow> suffix a (xs @ b) \<longleftrightarrow> a = b"
  by (auto simp: suffix_def)

lemma record_key_suffix_iff:
  "length tx = length tx' \<Longrightarrow> suffix tx (record_key ns i tx') \<longleftrightarrow> tx = tx'"
  using suffix_same_length [of tx tx' "ns @ NamespaceSeparator @ kThLexicographicString IndexLength (sint i) @ NamespaceSeparator"]
  by (simp add: record_key_def dbKey_def)

section \<open>What is documented of Badger and of the encoding\<close>

text \<open>
  A store has a content, a transaction the writes that it has pending, and a sequence
  numbers that grow. The lease of the sequence is itself an entry of the store.
\<close>

locale badger_store =
  fixes A :: "('b, 't) badger_api" and content :: "'b \<Rightarrow> string \<rightharpoonup> bytes" and writes :: "'t \<Rightarrow> string \<rightharpoonup> bytes"
    and issued :: "'b \<Rightarrow> nat"
  assumes next_law: "bgNext A b = (Inr i, c) \<Longrightarrow>
      issued b \<le> unat i \<and> issued c = Suc (unat i) \<and> (\<forall>k. k \<noteq> ''idseq'' \<longrightarrow> content c k = content b k)"
    and new_law: "writes (bgNewTransaction A u b) = Map.empty"
    and set_law: "bgSet A k v t = (Inr (), t') \<Longrightarrow> writes t' = (writes t)(k \<mapsto> v)"
    and commit_law: "bgCommit A t b = (Inr (), c) \<Longrightarrow> issued c = issued b \<and> content c = content b ++ writes t"
    and items_law: "\<exists>kvs. bgSeek A [] (bgNewTransaction A False b) = map (\<lambda>(k, v). (k, Inr v)) kvs
      \<and> distinct (map fst kvs) \<and> map_of kvs = content b"
    and stream_law: "bgStream A P b = Inr kvs \<Longrightarrow> distinct (map fst kvs) \<and> map_of kvs = content b |` {k. P k}"

locale badger_driver = badger_store +
  fixes C :: record_codec
  assumes codec_law: "MarshalMovementRecord C m = Inr v \<Longrightarrow> v \<noteq> [] \<and> UnmarshalMovementRecord C v = Inr m"

section \<open>The movements of a content\<close>

definition key_of_movement :: "BadgerMovement \<Rightarrow> string" where
  "key_of_movement m = record_key ''mv'' (bmId m) (mvTxID (bmRecord m))"

lemma key_of_movement_prefix [simp]: "prefix ''mv'' (key_of_movement m)" "\<not> prefix ''tx'' (key_of_movement m)"
  by (simp_all add: key_of_movement_def)

text \<open>
  The movements in the order of their identifiers, all below the next one. Their entries, and
  no others, have keys that start like theirs.
\<close>

definition stored :: "record_codec \<Rightarrow> nat \<Rightarrow> (string \<rightharpoonup> bytes) \<Rightarrow> BadgerMovement list \<Rightarrow> bool" where
  "stored C n V L \<longleftrightarrow>
     sorted_wrt (\<lambda>x y. bmId x < bmId y) L
     \<and> (\<forall>m \<in> set L. unat (bmId m) < n \<and> (\<exists>v. MarshalMovementRecord C m = Inr v \<and> V (key_of_movement m) = Some v))
     \<and> (\<forall>k v. prefix ''mv'' k \<longrightarrow> V k = Some v \<longrightarrow> k \<in> key_of_movement ` set L)"

lemma stored_mono:
  assumes "stored C n V L" and "n \<le> n'" and "\<And>k. prefix ''mv'' k \<Longrightarrow> W k = V k"
  shows "stored C n' W L"
  using assms by (fastforce simp: stored_def)

lemma stored_snoc:
  assumes "stored C n V L" and "n \<le> unat i" and "m = \<lparr>bmId = i, bmRecord = r\<rparr>" and "MarshalMovementRecord C m = Inr v"
  shows "stored C (Suc (unat i)) (V(key_of_movement m \<mapsto> v)) (L @ [m])"
proof -
  have less: "unat (bmId x) < unat i" if "x \<in> set L" for x using assms(1,2) that by (force simp: stored_def)
  then have new: "key_of_movement x \<noteq> key_of_movement m" if "x \<in> set L" for x
    using that assms(3) by (force simp: key_of_movement_def record_key_inject)
  show ?thesis
    using assms less new by (fastforce simp: stored_def sorted_wrt_append word_less_nat_alt)
qed

lemma stored_distinct:
  assumes "stored C n V L"
  shows "sorted (map bmId L)" and "distinct (map bmId L)" and "inj_on key_of_movement (set L)"
proof -
  have s: "sorted_wrt (<) (map bmId L)" using assms by (simp add: stored_def sorted_wrt_map)
  then show "sorted (map bmId L)" and d: "distinct (map bmId L)" by (simp_all add: strict_sorted_iff)
  show "inj_on key_of_movement (set L)"
    using d by (auto simp: inj_on_def key_of_movement_def record_key_inject distinct_map)
qed

text \<open>Entries whose records get other contents under the same keys.\<close>

lemma stored_map:
  assumes "stored C n V L" and "\<And>m. m \<in> set L \<Longrightarrow> bmId (f m) = bmId m \<and> mvTxID (bmRecord (f m)) = mvTxID (bmRecord m)"
    and "\<And>m. m \<in> set L \<Longrightarrow> \<exists>v. MarshalMovementRecord C (f m) = Inr v \<and> W (key_of_movement m) = Some v"
    and "\<And>k v. prefix ''mv'' k \<Longrightarrow> W k = Some v \<Longrightarrow> V k \<noteq> None"
  shows "stored C n W (map f L)"
proof -
  have k: "key_of_movement (f m) = key_of_movement m" if "m \<in> set L" for m
    using assms(2) [OF that] by (simp add: key_of_movement_def)
  have "sorted_wrt (\<lambda>x y. bmId x < bmId y) (map f L)"
    using assms(1,2) by (auto simp: stored_def sorted_wrt_map elim!: sorted_wrt_mono_rel [rotated])
  moreover have "x \<in> key_of_movement ` set (map f L)" if x: "prefix ''mv'' x" "W x = Some v" for x v
  proof -
    obtain w where "V x = Some w" using assms(4) [OF x] by blast
    then obtain m where "m \<in> set L" "x = key_of_movement m" using assms(1) x(1) by (auto simp: stored_def)
    with k have "x = key_of_movement (f m)" "f m \<in> set (map f L)" by simp_all
    then show ?thesis by (rule image_eqI)
  qed
  ultimately show ?thesis using assms k by (auto simp: stored_def)
qed

text \<open>The status of the movements whose keys end in the given identifier.\<close>

definition bm_status :: "TxStatus \<Rightarrow> BadgerMovement \<Rightarrow> BadgerMovement" where
  "bm_status st m = m\<lparr>bmRecord := (bmRecord m)\<lparr>mvStatus := st\<rparr>\<rparr>"

definition suffix_status :: "string \<Rightarrow> TxStatus \<Rightarrow> BadgerMovement \<Rightarrow> BadgerMovement" where
  "suffix_status tx st m = (if suffix tx (key_of_movement m) then bm_status st m else m)"

lemma suffix_status_fields [simp]:
  "bmId (suffix_status tx st m) = bmId m" "mvTxID (bmRecord (suffix_status tx st m)) = mvTxID (bmRecord m)"
  by (simp_all add: suffix_status_def bm_status_def)

text \<open>The states of the driver that hold a log, outside and inside an update.\<close>

definition badger_idle ::
  "('b \<Rightarrow> string \<rightharpoonup> bytes) \<Rightarrow> ('b \<Rightarrow> nat) \<Rightarrow> record_codec \<Rightarrow> nat \<Rightarrow> ('b, 't) BadgerPersistence \<Rightarrow> MovementRecord list \<Rightarrow> bool" where
  "badger_idle content issued C n s ms \<longleftrightarrow>
     bpTxn s = None \<and> (\<exists>L. ms = map bmRecord L \<and> (\<forall>m \<in> set L. length (mvTxID (bmRecord m)) = n)
       \<and> stored C (issued (bpDB s)) (content (bpDB s)) L)"

definition badger_upd ::
  "('b \<Rightarrow> string \<rightharpoonup> bytes) \<Rightarrow> ('t \<Rightarrow> string \<rightharpoonup> bytes) \<Rightarrow> ('b \<Rightarrow> nat) \<Rightarrow> record_codec \<Rightarrow> nat
     \<Rightarrow> ('b, 't) BadgerPersistence \<Rightarrow> MovementRecord list \<Rightarrow> bool" where
  "badger_upd content writes issued C n s ms \<longleftrightarrow>
     (\<exists>t L. bpTxn s = Some t \<and> ms = map bmRecord L \<and> (\<forall>m \<in> set L. length (mvTxID (bmRecord m)) = n)
       \<and> stored C (issued (bpDB s)) (content (bpDB s) ++ writes t) L)"

section \<open>The laws of the log\<close>

context badger_driver
begin

lemma add_keeps:
  assumes "badger_upd content writes issued C n s ms"
    and "obind (next_key A ns tx) (\<lambda>(i, key). obind (olift (enc i)) (\<lambda>v. set_in_update A key v)) s = (Inr (), s')"
  obtains t L i v t' c where "bpTxn s = Some t" "ms = map bmRecord L" "\<forall>m \<in> set L. length (mvTxID (bmRecord m)) = n"
    "stored C (unat i) (content c ++ writes t) L" "enc i = Inr v" "s' = \<lparr>bpDB = c, bpTxn = Some t'\<rparr>"
    "issued c = Suc (unat i)" "writes t' = (writes t)(record_key ns i tx \<mapsto> v)"
proof -
  obtain t L where t: "bpTxn s = Some t" "ms = map bmRecord L" "\<forall>m \<in> set L. length (mvTxID (bmRecord m)) = n"
    and st: "stored C (issued (bpDB s)) (content (bpDB s) ++ writes t) L"
    using assms(1) by (auto simp: badger_upd_def)
  obtain i v u where k: "next_key A ns tx s = (Inr (i, record_key ns i tx), u)" and v: "enc i = Inr v"
    and set: "set_in_update A (record_key ns i tx) v u = (Inr (), s')"
    using assms(2) by (auto simp: go_simps next_key_def split: prod.splits sum.splits)
  obtain c where i: "bgNext A (bpDB s) = (Inr i, c)" and u: "u = s\<lparr>bpDB := c\<rparr>"
    using k by (auto simp: next_key_def split: prod.splits sum.splits)
  obtain t' where b: "bgSet A (record_key ns i tx) v t = (Inr (), t')"
    using set u t(1) by (cases "bgSet A (record_key ns i tx) v t") (simp add: set_in_update_def)
  have s': "s' = \<lparr>bpDB = c, bpTxn = Some t'\<rparr>" using set u t(1) b by (cases s) (simp add: set_in_update_def)
  note n = next_law [OF i]
  have "stored C (unat i) (content c ++ writes t) L"
  proof (rule stored_mono [OF st])
    fix k :: string assume "prefix ''mv'' k"
    then have "k \<noteq> ''idseq''" by auto
    with n show "(content c ++ writes t) k = (content (bpDB s) ++ writes t) k"
      by (auto simp: map_add_def split: option.split)
  qed (use n in simp)
  from that [OF t this v s' _ set_law [OF b]] n show ?thesis by simp
qed

lemma movement_added:
  assumes "badger_upd content writes issued C n s ms" and "length (mvTxID r) = n"
    and "badger_AddMovement A C r s = (Inr (), s')"
  shows "badger_upd content writes issued C n s' (ms @ [r])"
proof -
  have "obind (next_key A ''mv'' (mvTxID r)) (\<lambda>(i, key).
      obind (olift (MarshalMovementRecord C \<lparr>bmId = i, bmRecord = r\<rparr>)) (\<lambda>v. set_in_update A key v)) s = (Inr (), s')"
    using assms(3) by (simp add: badger_AddMovement_def movementKey_def)
  from assms(1) this obtain t L i v t' c where t: "ms = map bmRecord L" "\<forall>m \<in> set L. length (mvTxID (bmRecord m)) = n"
    "stored C (unat i) (content c ++ writes t) L" "MarshalMovementRecord C \<lparr>bmId = i, bmRecord = r\<rparr> = Inr v"
    and s': "s' = \<lparr>bpDB = c, bpTxn = Some t'\<rparr>" "issued c = Suc (unat i)"
    "writes t' = (writes t)(record_key ''mv'' i (mvTxID r) \<mapsto> v)"
    by (rule add_keeps)
  let ?m = "\<lparr>bmId = i, bmRecord = r\<rparr>"
  have "stored C (Suc (unat i)) ((content c ++ writes t)(key_of_movement ?m \<mapsto> v)) (L @ [?m])"
    by (rule stored_snoc [OF t(3) order_refl refl t(4)])
  then have "stored C (issued (bpDB s')) (content (bpDB s') ++ writes t') (L @ [?m])"
    by (simp add: s' key_of_movement_def)
  with s'(1) t(1,2) assms(2) show ?thesis
    unfolding badger_upd_def by (intro exI [of _ t'] exI [of _ "L @ [?m]"]) simp
qed

lemma transaction_added:
  assumes "badger_upd content writes issued C n s ms" and "badger_AddTransaction A C r s = (Inr (), s')"
  shows "badger_upd content writes issued C n s' ms"
proof -
  have "obind (next_key A ''tx'' (trTxID r)) (\<lambda>(i, key).
      obind (olift (MarshalTransactionRecord C \<lparr>btId = i, btRecord = r\<rparr>)) (\<lambda>v. set_in_update A key v)) s = (Inr (), s')"
    using assms(2) by (simp add: badger_AddTransaction_def transactionKey_def)
  from assms(1) this obtain t L i v t' c where t: "ms = map bmRecord L" "\<forall>m \<in> set L. length (mvTxID (bmRecord m)) = n"
    "stored C (unat i) (content c ++ writes t) L" "s' = \<lparr>bpDB = c, bpTxn = Some t'\<rparr>" "issued c = Suc (unat i)"
    "writes t' = (writes t)(record_key ''tx'' i (trTxID r) \<mapsto> v)"
    by (rule add_keeps)
  have "k \<noteq> record_key ''tx'' i (trTxID r)" if "prefix ''mv'' k" for k using that by auto
  then have "stored C (issued (bpDB s')) (content (bpDB s') ++ writes t') L"
    by (intro stored_mono [OF t(3)]) (auto simp: t(4-6) map_add_def)
  with t show ?thesis unfolding badger_upd_def by auto
qed

lemma status_entries:
  assumes "ofor (set_entry_status A C st) entries t = (Inr (), u)" and "distinct (map fst entries)"
  shows "(\<forall>(k, v) \<in> set entries. prefix ''mv'' k \<longrightarrow>
      (\<exists>m w. UnmarshalMovementRecord C v = Inr m \<and> MarshalMovementRecord C (bm_status st m) = Inr w \<and> writes u k = Some w))
    \<and> (\<forall>k. k \<notin> fst ` set entries \<longrightarrow> writes u k = writes t k)"
  using assms
proof (induction entries arbitrary: t)
  case (Cons e entries)
  obtain key v where e: "e = (key, v)" by (cases e)
  from Cons.prems(1) obtain t' where t': "set_entry_status A C st (key, v) t = (Inr (), t')"
    "ofor (set_entry_status A C st) entries t' = (Inr (), u)" by (auto simp: go_simps e)
  have key: "key \<notin> fst ` set entries" using Cons.prems(2) by (simp add: e)
  note IH = Cons.IH [OF t'(2)] Cons.prems(2)
  have others: "writes t' k = writes t k" if "k \<noteq> key" for k
    using t'(1) that set_law by (auto simp: set_entry_status_def go_simps split: option.splits) 
  have "\<exists>m w. UnmarshalMovementRecord C v = Inr m \<and> MarshalMovementRecord C (bm_status st m) = Inr w \<and> writes t' key = Some w"
    if "prefix ''mv'' key"
    using t'(1) that by (auto simp: set_entry_status_def entry_with_status_def bm_status_def go_simps dest!: set_law)
  with IH key others show ?case by (auto simp: e)
qed simp

lemma status_set:
  assumes "stored C (issued (bpDB s)) (content (bpDB s)) L" and "badger_SetStatus A C tx st s = (Inr (), s')"
  shows "bpTxn s' = bpTxn s \<and> stored C (issued (bpDB s')) (content (bpDB s')) (map (suffix_status tx st) L)"
proof -
  let ?V = "content (bpDB s)"
  obtain es where es: "bgStream A (suffix tx) (bpDB s) = Inr es"
    using assms(2) by (auto simp: badger_SetStatus_def split: sum.splits)
  note law = stream_law [OF es]
  have in_es: "(key_of_movement m, v) \<in> set es"
    if "m \<in> set L" "suffix tx (key_of_movement m)" "?V (key_of_movement m) = Some v" for m v
    using law that by (auto simp: restrict_map_def map_of_eq_Some_iff [symmetric])
  have V: "\<exists>v. MarshalMovementRecord C m = Inr v \<and> ?V (key_of_movement m) = Some v" if "m \<in> set L" for m
    using assms(1) that by (simp add: stored_def)
  show ?thesis
  proof (cases es)
    case Nil
    then have "suffix_status tx st m = m" if "m \<in> set L" for m
      using V [OF that] in_es [OF that] by (auto simp: suffix_status_def)
    then have "map (suffix_status tx st) L = L" by (simp add: map_idI)
    with assms es Nil show ?thesis by (simp add: badger_SetStatus_def)
  next
    case (Cons e es')
    then obtain t c where t: "ofor (set_entry_status A C st) es (bgNewTransaction A True (bpDB s)) = (Inr (), t)"
      and c: "bgCommit A t (bpDB s) = (Inr (), c)" and s': "s' = s\<lparr>bpDB := c\<rparr>"
      using assms(2) es by (auto simp: badger_SetStatus_def split: prod.splits sum.splits error.splits)
    note w = status_entries [OF t conjunct1 [OF law], unfolded new_law]
    note cl = commit_law [OF c]
    have "stored C (issued (bpDB s)) (?V ++ writes t) (map (suffix_status tx st) L)"
    proof (rule stored_map [OF assms(1)])
      fix m assume m: "m \<in> set L"
      obtain v where v: "MarshalMovementRecord C m = Inr v" "?V (key_of_movement m) = Some v" using V [OF m] by blast
      show "\<exists>v. MarshalMovementRecord C (suffix_status tx st m) = Inr v \<and> (?V ++ writes t) (key_of_movement m) = Some v"
      proof (cases "suffix tx (key_of_movement m)")
        case True
        with w in_es [OF m True v(2)] codec_law [OF v(1)] show ?thesis
          by (fastforce simp: suffix_status_def)
      next
        case False
        then have "key_of_movement m \<notin> fst ` set es"
          using law by (auto simp: restrict_map_def map_of_eq_Some_iff [symmetric] split: if_splits)
        with w False v show ?thesis by (simp add: suffix_status_def map_add_def)
      qed
    next
      fix k v assume "prefix ''mv'' k" "(?V ++ writes t) k = Some v"
      then show "?V k \<noteq> None"
      proof (cases "k \<in> fst ` set es")
        case True
        then obtain x where "map_of es k = Some x" by (metis map_of_eq_None_iff not_Some_eq)
        with law show ?thesis by (auto simp: restrict_map_def split: if_splits)
      next
        case False
        with w \<open>(?V ++ writes t) k = Some v\<close> show ?thesis by (auto simp: map_add_def)
      qed
    qed simp
    with s' cl show ?thesis by simp
  qed
qed

text \<open>The items that a query decodes are the movements, in some order.\<close>

lemma selected_items:
  assumes "\<forall>(k, v) \<in> set kvs. prefix ''mv'' k \<longrightarrow> v \<noteq> [] \<and> UnmarshalMovementRecord C v = Inr (dec v)"
  shows "select_movements C q (map (\<lambda>(k, v). (k, Inr v)) kvs) acc
    = Inr (acc @ filter (MovementSelector_Select q) (map (dec \<circ> snd) (filter (\<lambda>(k, v). prefix ''mv'' k) kvs)))"
  using assms
  by (induction kvs arbitrary: acc) (auto simp: movement_item_def)

lemma query_result:
  assumes "stored C (issued (bpDB s)) (content (bpDB s)) L"
    and "qmSearchDirection q = FromBeginning \<or> qmSearchDirection q = FromLast" and "0 \<le> qmNumRecords q"
  shows "badger_QueryMovements A C q s =
    (Inr (limited (qmNumRecords q) (filter (movement_matches q) (oriented q (map bmRecord L)))), s)"
proof -
  let ?V = "content (bpDB s)" and ?P = "MovementSelector_Select q"
  obtain kvs where items: "bgSeek A [] (bgNewTransaction A False (bpDB s)) = map (\<lambda>(k, v). (k, Inr v)) kvs"
    and dist: "distinct (map fst kvs)" and V: "map_of kvs = ?V"
    using items_law by blast
  let ?mv = "filter (\<lambda>(k, v). prefix ''mv'' k) kvs"
  define dec where "dec v = projr (UnmarshalMovementRecord C v)" for v
  define F where "F = map (dec \<circ> snd) ?mv"
  have entry: "\<exists>m \<in> set L. k = key_of_movement m \<and> v \<noteq> [] \<and> UnmarshalMovementRecord C v = Inr m"
    if kvs: "(k, v) \<in> set kvs" "prefix ''mv'' k" for k v
  proof -
    have kv: "?V k = Some v" using kvs(1) dist V by (metis map_of_eq_Some_iff)
    then obtain m where m: "m \<in> set L" "k = key_of_movement m" using assms(1) kvs(2) by (auto simp: stored_def)
    then obtain w where "MarshalMovementRecord C m = Inr w" "?V k = Some w" using assms(1) by (auto simp: stored_def)
    with kv codec_law m show ?thesis by auto
  qed
  then have dec: "\<forall>(k, v) \<in> set kvs. prefix ''mv'' k \<longrightarrow> v \<noteq> [] \<and> UnmarshalMovementRecord C v = Inr (dec v)"
    by (fastforce simp: dec_def)
  have keys: "map key_of_movement F = map fst ?mv"
    unfolding F_def map_map by (rule map_cong) (use entry in \<open>fastforce simp: dec_def\<close>)+
  have "distinct (map key_of_movement F)" unfolding keys by (rule distinct_map_filter [OF dist])
  then have dF: "distinct F" by (simp add: distinct_map)
  have "set F = set L"
  proof
    show "set F \<subseteq> set L" using entry by (fastforce simp: F_def dec_def)
    show "set L \<subseteq> set F"
    proof
      fix m assume m: "m \<in> set L"
      then obtain v where v: "MarshalMovementRecord C m = Inr v" "?V (key_of_movement m) = Some v"
        using assms(1) by (auto simp: stored_def)
      then have "(key_of_movement m, v) \<in> set ?mv" using V by (simp add: map_of_SomeD)
      then show "m \<in> set F" using codec_law [OF v(1)] by (force simp: F_def dec_def)
    qed
  qed
  note L = stored_distinct [OF assms(1)]
  have inj: "inj_on bmId (set L)" using L(2) by (simp add: distinct_map)
  have sort: "sort_key bmId (filter ?P F) = filter ?P L"
  proof (rule map_sorted_distinct_set_unique)
    show "inj_on bmId (set (sort_key bmId (filter ?P F)) \<union> set (filter ?P L))"
      by (rule inj_on_subset [OF inj]) (auto simp: \<open>set F = set L\<close>)
    show "distinct (map bmId (sort_key bmId (filter ?P F)))"
      using dF inj by (auto simp: distinct_map \<open>set F = set L\<close> intro: inj_on_subset)
    show "sorted (map bmId (filter ?P L))" "distinct (map bmId (filter ?P L))"
      using L by (auto intro: sorted_filter distinct_map_filter)
  qed (auto simp: \<open>set F = set L\<close>)
  have P: "?P = (\<lambda>m. movement_matches q (bmRecord m))"
    by (auto simp: MovementSelector_Select_def movement_matches_def movement_selected_def movement_directed_def fun_eq_iff)
  have found: "select_movements C q (bgSeek A [] (bgNewTransaction A False (bpDB s))) [] = Inr (filter ?P F)"
    by (simp only: items selected_items [OF dec] F_def append_Nil)
  have "map bmRecord (filter ?P L) = filter (movement_matches q) (map bmRecord L)"
    by (simp add: P filter_map comp_def)
  then have sorted: "map bmRecord (sort_movements (qmSearchDirection q) (filter ?P F))
      = filter (movement_matches q) (oriented q (map bmRecord L))"
    using assms(2) by (auto simp: sort_movements_def sort oriented_def tx_consts rev_map [symmetric] rev_filter [symmetric])
  show ?thesis
    unfolding badger_QueryMovements_def found using assms(3)
    by (auto simp: Let_def limited_def sorted [symmetric] take_map)
qed

end

sublocale badger_driver \<subseteq> log: movement_log "badger_db A C" "{tx. length tx = n}"
  "badger_idle content issued C n" "badger_upd content writes issued C n" for n
proof unfold_locales
  fix s ms t assume "badger_idle content issued C n s ms" "dBeginUpdate (badger_db A C) s = (Inr (), t)"
  then show "badger_upd content writes issued C n t ms"
    by (auto simp: badger_idle_def badger_upd_def badger_BeginUpdate_def new_law)
next
  fix s ms t assume u: "badger_upd content writes issued C n s ms" and "dCommit (badger_db A C) s = (Inr (), t)"
  then have c: "badger_Commit A s = (Inr (), t)" by simp
  obtain x L where L: "bpTxn s = Some x" "ms = map bmRecord L" "\<forall>m \<in> set L. length (mvTxID (bmRecord m)) = n"
    "stored C (issued (bpDB s)) (content (bpDB s) ++ writes x) L"
    using u by (auto simp: badger_upd_def)
  then obtain c where "bgCommit A x (bpDB s) = (Inr (), c)" "t = \<lparr>bpDB = c, bpTxn = None\<rparr>"
    using c by (auto simp: badger_Commit_def split: prod.splits sum.splits)
  with L commit_law show "badger_idle content issued C n t ms"
    unfolding badger_idle_def by (intro conjI exI [of _ L]) auto
next
  fix s ms t tx st
  assume i: "badger_idle content issued C n s ms" and "tx \<in> {tx. length tx = n}"
    and "dSetStatus (badger_db A C) tx st s = (Inr (), t)"
  then have tx: "length tx = n" and set: "badger_SetStatus A C tx st s = (Inr (), t)" by simp_all
  obtain L where L: "bpTxn s = None" "ms = map bmRecord L" "\<forall>m \<in> set L. length (mvTxID (bmRecord m)) = n"
    "stored C (issued (bpDB s)) (content (bpDB s)) L"
    using i by (auto simp: badger_idle_def)
  have "bmRecord (suffix_status tx st m) = with_status tx st (bmRecord m)" if "m \<in> set L" for m
    using that L(3) tx record_key_suffix_iff [of tx "mvTxID (bmRecord m)"]
    by (auto simp: suffix_status_def key_of_movement_def with_status_def bm_status_def)
  then have "map (with_status tx st) ms = map bmRecord (map (suffix_status tx st) L)" using L(2) by simp
  with status_set [OF L(4) set] L(1,3) show "badger_idle content issued C n t (map (with_status tx st) ms)"
    unfolding badger_idle_def by (intro conjI exI [of _ "map (suffix_status tx st) L"]) auto
next
  fix s ms q rs t
  assume i: "badger_idle content issued C n s ms" and q: "qmSearchDirection q = FromBeginning \<or> qmSearchDirection q = FromLast"
    "0 \<le> qmNumRecords q" and "dQueryMovements (badger_db A C) q s = (Inr rs, t)"
  then have "badger_QueryMovements A C q s = (Inr rs, t)" by simp
  moreover obtain L where "ms = map bmRecord L" "stored C (issued (bpDB s)) (content (bpDB s)) L"
    using i by (auto simp: badger_idle_def)
  ultimately show "badger_idle content issued C n t ms
      \<and> rs = limited (qmNumRecords q) (filter (movement_matches q) (oriented q ms))"
    using query_result [of s L q] q i by simp
qed (auto intro: movement_added transaction_added)

end
