(* ===== verification/TxBadger_Properties.thy ===== *)
theory TxBadger_Properties
  imports TxBadger_Refines TxProperties "HOL-Library.List_Lexorder" "HOL-Library.Char_ord" "HOL-Library.AList"
begin

text \<open>
  Properties of the driver over Badger: its holdings are the balance of the ledger, its
  queries answer like those of the driver in memory, a status reaches the transactions whose
  identifiers end in the given one, and keys are in the order of their indices. At the end a
  store as a list, on which they are applied.
\<close>

section \<open>Facts of the driver\<close>

context badger_driver
begin

lemma fresh_idle:
  assumes "\<forall>k. prefix ''mv'' k \<longrightarrow> content b k = None"
  shows "badger_idle content issued C n \<lparr>bpDB = b, bpTxn = None\<rparr> []"
  using assms by (auto simp: badger_idle_def stored_def)

lemma holdings:
  assumes "\<forall>k. prefix ''mv'' k \<longrightarrow> content b k = None" and "\<forall>ev \<in> set evs. length (event_id ev) = n"
    and "\<forall>ev \<in> set evs. types_covered ev" and "eID \<noteq> []"
    and "ofor (apply_event (badger_db A C)) evs (newDB \<lparr>bpDB = b, bpTxn = None\<rparr>) = (Inr (), db)"
    and "Holdings_Execute (badger_db A C) (Holdings_ByType ty (Holdings_ByEnrollmentId eID NewHoldingsFilter)) db = (Inr f, db')"
  shows "Holdings_Sum f = balance_of (fold log_event evs []) eID ty"
  by (rule log.holdings_balance [OF fresh_idle [OF assms(1), of n] _ assms(3-6)]) (use assms(2) in auto)

lemma queries:
  assumes "\<forall>k. prefix ''mv'' k \<longrightarrow> content b k = None" and "\<forall>ev \<in> set evs. length (event_id ev) = n"
    and "ofor (apply_event (badger_db A C)) evs (newDB \<lparr>bpDB = b, bpTxn = None\<rparr>) = (Inr (), db)"
    and "qmSearchDirection q = FromBeginning \<or> qmSearchDirection q = FromLast" and "0 \<le> qmNumRecords q"
    and "badger_QueryMovements A C q (dbStore db) = (Inr rs, t)"
  shows "rs = limited (qmNumRecords q) (filter (movement_matches q) (oriented q (fold event_moves evs [])))"
  by (rule log.query_history [OF fresh_idle [OF assms(1), of n] _ assms(3-5)]) (use assms(2,6) in auto)

lemma status_by_suffix:
  assumes "badger_SetStatus A C tx st s = (Inr (), s')" and "content (bpDB s) (record_key ''mv'' i x) = Some v"
    and "UnmarshalMovementRecord C v = Inr m" and "suffix tx x"
  shows "\<exists>w. content (bpDB s') (record_key ''mv'' i x) = Some w \<and> UnmarshalMovementRecord C w = Inr (bm_status st m)"
proof -
  let ?k = "record_key ''mv'' i x"
  obtain es where es: "bgStream A (suffix tx) (bpDB s) = Inr es"
    using assms(1) by (auto simp: badger_SetStatus_def split: sum.splits)
  have sx: "suffix tx ?k" by (rule suffix_order.trans [OF assms(4) record_key_suffix])
  have "map_of es = content (bpDB s) |` {k. suffix tx k}" using stream_law [OF es] by blast
  then have "map_of es ?k = (content (bpDB s) |` {k. suffix tx k}) ?k" by (rule fun_cong)
  also have "\<dots> = Some v" unfolding restrict_map_def using sx assms(2) by simp
  finally have "map_of es ?k = Some v" .
  then have k: "(?k, v) \<in> set es" by (rule map_of_SomeD)
  then obtain e es' where ne: "es = e # es'" by (cases es) simp_all
  obtain t c where t: "ofor (set_entry_status A C st) es (bgNewTransaction A True (bpDB s)) = (Inr (), t)"
    and c: "bgCommit A t (bpDB s) = (Inr (), c)" and s': "s' = s\<lparr>bpDB := c\<rparr>"
    using assms(1) es ne by (auto simp: badger_SetStatus_def split: prod.splits sum.splits error.splits)
  have "prefix ''mv'' ?k" by simp
  then obtain m' w where "UnmarshalMovementRecord C v = Inr m'" "MarshalMovementRecord C (bm_status st m') = Inr w"
    "writes t ?k = Some w"
    using status_entries [OF t conjunct1 [OF stream_law [OF es]]] k by blast
  with commit_law [OF c] s' assms(3) codec_law show ?thesis by (auto simp: map_add_def)
qed

end

text \<open>Digits that are not negative are in the order of the numbers.\<close>

lemma index_digits_order:
  assumes "0 \<le> j" and "j < k" and "index_digits n j = (d, r)" and "index_digits n k = (e, r)"
  shows "(d, e) \<in> lexord {(x, y). x < y} \<and> set d \<subseteq> {0..25} \<and> set e \<subseteq> {0..25}"
  using assms
proof (induction n arbitrary: j k d e)
  case (Suc n)
  have div: "j sdiv 26 = j div 26" "k sdiv 26 = k div 26" "j smod 26 = j mod 26" "k smod 26 = k mod 26"
    using Suc.prems(1,2) by (auto simp: signed_divide_int_def signed_modulo_int_def sgn_if)
  obtain d' e' where d': "index_digits n (j div 26) = (d', r)" "d = d' @ [j mod 26]"
    and e': "index_digits n (k div 26) = (e', r)" "e = e' @ [k mod 26]"
    using Suc.prems(3,4) by (auto simp: div split: prod.splits)
  have digits: "set xs \<subseteq> {0..25}" if "0 \<le> a" "index_digits l a = (xs, b)" for l a xs b
    using that
  proof (induction l arbitrary: a xs)
    case (Suc l)
    have "a sdiv 26 = a div 26" "a smod 26 = a mod 26"
      using Suc.prems(1) by (auto simp: signed_divide_int_def signed_modulo_int_def sgn_if)
    moreover have "0 \<le> a mod 26" "a mod 26 \<le> 25" using pos_mod_bound [of 26 a] by simp_all
    moreover have "0 \<le> a div 26" using Suc.prems(1) by (simp add: pos_imp_zdiv_nonneg_iff)
    moreover obtain ys where "index_digits l (a sdiv 26) = (ys, b)" "xs = ys @ [a smod 26]"
      using Suc.prems(2) by (auto split: prod.splits)
    ultimately show ?case using Suc.IH [of "a div 26" ys] by simp
  qed simp
  have len: "length d' = length e'" using index_digits_props [OF d'(1)] index_digits_props [OF e'(1)] by simp
  have "j div 26 \<le> k div 26" using Suc.prems(2) by (simp add: zdiv_mono1)
  then consider "j div 26 < k div 26" | "j div 26 = k div 26" by linarith
  then have "(d, e) \<in> lexord {(x, y). x < y}"
  proof cases
    case 1
    with Suc.IH [OF _ 1 d'(1) e'(1)] Suc.prems(1) have "(d', e') \<in> lexord {(x, y). x < y}" by simp
    then show ?thesis unfolding d'(2) e'(2) by (rule lexord_sufI) (simp add: len)
  next
    case 2
    then have "d' = e'" using d'(1) e'(1) by simp
    moreover have "j mod 26 < k mod 26"
      using 2 Suc.prems(2) div_mult_mod_eq [of j 26] div_mult_mod_eq [of k 26] by linarith
    ultimately have "d' = e'" "j mod 26 < k mod 26" .
    then show ?thesis unfolding d'(2) e'(2) by (simp add: lexord_append_leftI)
  qed
  moreover have "0 \<le> k" using Suc.prems(1,2) by simp
  ultimately show ?case using digits [OF Suc.prems(1,3)] digits [OF _ Suc.prems(4)] by simp
qed simp

lemma lexord_map:
  assumes "(xs, ys) \<in> lexord r" and "\<And>x y. x \<in> set xs \<Longrightarrow> y \<in> set ys \<Longrightarrow> (x, y) \<in> r \<Longrightarrow> (f x, f y) \<in> q"
  shows "(map f xs, map f ys) \<in> lexord q"
proof -
  from assms(1) consider a v where "ys = xs @ a # v" | u a b v w where "(a, b) \<in> r" "xs = u @ a # v" "ys = u @ b # w"
    by (auto simp: lexord_def)
  then show ?thesis
  proof cases
    case 1
    then show ?thesis by (auto simp: lexord_def)
  next
    case 2
    then have "(f a, f b) \<in> q" using assms(2) by simp
    then show ?thesis using 2 by (simp add: lexord_append_leftI)
  qed
qed

section \<open>A store as a list\<close>

text \<open>
  The content of the store is a list of entries, the latest first; a transaction has the
  content that it began with and its own writes. The sequence counts up to the last number.
\<close>

record list_store =
  lkContent :: "(string \<times> bytes) list"
  lkNext :: u64

type_synonym list_txn = "(string \<times> bytes) list \<times> (string \<times> bytes) list"

definition list_badger :: "(list_store, list_txn) badger_api" where
  "list_badger =
     \<lparr>bgOpen = (\<lambda>_. Inr \<lparr>lkContent = [], lkNext = 0\<rparr>),
      bgGetSequence = (\<lambda>key _ b. (Inr (), b\<lparr>lkContent := (key, ''lease'') # lkContent b\<rparr>)),
      bgNext = (\<lambda>b. if lkNext b + 1 = 0 then (Inl (Err ''no numbers left''), b) else (Inr (lkNext b), b\<lparr>lkNext := lkNext b + 1\<rparr>)),
      bgRelease = (\<lambda>b. (Inr (), b)), bgClose = (\<lambda>b. (Inr (), b)),
      bgNewTransaction = (\<lambda>_ b. (lkContent b, [])),
      bgSet = (\<lambda>k v t. (Inr (), (fst t, (k, v) # snd t))),
      bgCommit = (\<lambda>t b. (Inr (), b\<lparr>lkContent := snd t @ lkContent b\<rparr>)),
      bgDiscard = (\<lambda>_ b. b),
      bgSeek = (\<lambda>p t. map (\<lambda>(k, v). (k, Inr v)) (filter (\<lambda>(k, v). p \<le> k) (sort_key fst (AList.clearjunk (fst t))))),
      bgStream = (\<lambda>P b. Inr (filter (\<lambda>(k, v). P k) (AList.clearjunk (lkContent b))))\<rparr>"

text \<open>An encoding of the records of a table, by their position.\<close>

definition table_enc :: "'a list \<Rightarrow> 'a \<Rightarrow> bytes res" where
  "table_enc xs x =
     (if x \<in> set xs then Inr (replicate (Suc (length (takeWhile (\<lambda>y. y \<noteq> x) xs))) CHR ''i'')
      else Inl (Err ''not in the table''))"

definition table_dec :: "'a list \<Rightarrow> bytes \<Rightarrow> 'a res" where
  "table_dec xs v =
     (if v = [] \<or> length xs < length v then Inl (Err ''not a record'') else Inr (xs ! (length v - 1)))"

definition table_codec :: "BadgerMovement list \<Rightarrow> BadgerTransaction list \<Rightarrow> record_codec" where
  "table_codec ms ts =
     \<lparr>MarshalMovementRecord = table_enc ms, UnmarshalMovementRecord = table_dec ms,
      MarshalTransactionRecord = table_enc ts, UnmarshalTransactionRecord = table_dec ts\<rparr>"

lemma table_roundtrip: "table_enc xs x = Inr v \<Longrightarrow> v \<noteq> [] \<and> table_dec xs v = Inr x"
proof -
  assume e: "table_enc xs x = Inr v"
  let ?n = "length (takeWhile (\<lambda>y. y \<noteq> x) xs)"
  have x: "x \<in> set xs" and v: "v = replicate (Suc ?n) CHR ''i''" using e by (auto simp: table_enc_def split: if_splits)
  have "takeWhile (\<lambda>y. y \<noteq> x) xs \<noteq> xs" using x by (auto simp: takeWhile_eq_all_conv)
  then have n: "?n < length xs" using length_takeWhile_le [of "\<lambda>y. y \<noteq> x" xs]
    by (metis le_neq_implies_less takeWhile_eq_take take_all_iff order_refl)
  with nth_length_takeWhile [OF n] show ?thesis by (simp add: table_dec_def v)
qed

lemma map_of_filter_key: "map_of (filter (\<lambda>(k, v). P k) xs) = map_of xs |` {k. P k}"
  by (induction xs) (auto simp: restrict_map_def fun_eq_iff)

interpretation listed: badger_driver list_badger "\<lambda>b. map_of (lkContent b)" "\<lambda>t. map_of (snd t)" "\<lambda>b. unat (lkNext b)"
  "table_codec ms ts" for ms ts
proof unfold_locales
  fix b i c assume "bgNext list_badger b = (Inr i, c)"
  then show "unat (lkNext b) \<le> unat i \<and> unat (lkNext c) = Suc (unat i) \<and> (\<forall>k. k \<noteq> ''idseq'' \<longrightarrow> map_of (lkContent c) k = map_of (lkContent b) k)"
    using unatSuc [of "lkNext b"] by (auto simp: list_badger_def add.commute split: if_splits)
next
  fix b :: list_store
  let ?kvs = "sort_key fst (AList.clearjunk (lkContent b))"
  have d: "distinct (map fst ?kvs)" by (simp add: distinct_map inj_on_def) (metis distinct_clearjunk distinct_map inj_on_def)
  have "map_of ?kvs = map_of (AList.clearjunk (lkContent b))"
    using d distinct_clearjunk [of "lkContent b"] by (simp add: map_of_inject_set)
  then have "map_of ?kvs = map_of (lkContent b)" by (simp add: map_of_clearjunk)
  with d show "\<exists>kvs. bgSeek list_badger [] (bgNewTransaction list_badger False b) = map (\<lambda>(k, v). (k, Inr v)) kvs
      \<and> distinct (map fst kvs) \<and> map_of kvs = map_of (lkContent b)"
    by (intro exI [of _ ?kvs]) (simp add: list_badger_def)
next
  fix P b kvs assume "bgStream list_badger P b = Inr kvs"
  then have "kvs = filter (\<lambda>(k, v). P k) (AList.clearjunk (lkContent b))" by (simp add: list_badger_def)
  then show "distinct (map fst kvs) \<and> map_of kvs = map_of (lkContent b) |` {k. P k}"
    by (simp add: map_of_filter_key map_of_clearjunk distinct_map_filter)
qed (auto simp: list_badger_def table_codec_def table_roundtrip)

section \<open>Properties\<close>

text \<open>
  Over Badger too, the holdings are the balance of the ledger: after any history of
  appended requests and status changes, whose transaction identifiers have the same length and
  whose requests have every type of their inputs among their outputs, the filter sums up what
  the enrollment identifier received less what it sent in the pending and confirmed requests.
\<close>
theorem badger_holdings_are_balance:
  assumes "badger_driver A content writes issued C" and "\<forall>k. prefix ''mv'' k \<longrightarrow> content b k = None"
    and "\<forall>ev \<in> set evs. length (event_id ev) = n"
    and "\<forall>ev \<in> set evs. types_covered ev" and "eID \<noteq> []"
    and "ofor (apply_event (badger_db A C)) evs (newDB \<lparr>bpDB = b, bpTxn = None\<rparr>) = (Inr (), db)"
    and "Holdings_Execute (badger_db A C) (Holdings_ByType ty (Holdings_ByEnrollmentId eID NewHoldingsFilter)) db = (Inr f, db')"
  shows "Holdings_Sum f = balance_of (fold log_event evs []) eID ty"
  by (rule badger_driver.holdings [OF assms])

text \<open>
  C19: the two drivers are interchangeable for movements: after the same history, and with
  identifiers of the same length, they answer a query with the same records in the same order.
\<close>
theorem drivers_agree:
  assumes "badger_driver A content writes issued C" and "\<forall>k. prefix ''mv'' k \<longrightarrow> content b k = None"
    and "\<forall>ev \<in> set evs. length (event_id ev) = n"
    and "ofor (apply_event (badger_db A C)) evs (newDB \<lparr>bpDB = b, bpTxn = None\<rparr>) = (Inr (), db)"
    and "ofor (apply_event memory_db) evs (newDB empty_store) = (Inr (), mdb)"
    and "qmSearchDirection q = FromBeginning \<or> qmSearchDirection q = FromLast" and "0 \<le> qmNumRecords q"
    and "badger_QueryMovements A C q (dbStore db) = (Inr rs, t)"
  shows "fst (memory_QueryMovements q (dbStore mdb)) = Inr rs"
proof -
  have "rs = limited (qmNumRecords q) (filter (movement_matches q) (oriented q (fold event_moves evs [])))"
    by (rule badger_driver.queries [OF assms(1-4,6-8)])
  moreover obtain ms m where m: "memory_QueryMovements q (dbStore mdb) = (Inr ms, m)"
    using QueryMovements_eq [OF assms(6)] by blast
  moreover have "ms = limited (qmNumRecords q) (filter (movement_matches q) (oriented q (fold event_moves evs [])))"
    by (rule memory.query_history [OF _ _ assms(5-7)]) (simp_all add: empty_store_def m)
  ultimately show ?thesis by simp
qed

text \<open>
  The driver finds the entries of a transaction by the end of their keys. A status that is
  set for one identifier reaches every movement of a transaction whose identifier ends in it.
\<close>
theorem badger_status_by_suffix:
  assumes "badger_driver A content writes issued C" and "badger_SetStatus A C tx st s = (Inr (), s')"
    and "content (bpDB s) (record_key ''mv'' i x) = Some v" and "UnmarshalMovementRecord C v = Inr m" and "suffix tx x"
  shows "\<exists>w. content (bpDB s') (record_key ''mv'' i x) = Some w \<and> UnmarshalMovementRecord C w = Inr (bm_status st m)"
  by (rule badger_driver.status_by_suffix [OF assms])

text \<open>
  C40: the keys of records are in the order of their indices, for all indices that are not
  read as negative numbers: the text of an index has 26 letters, and grows with the index.
\<close>
theorem index_order:
  assumes "i < j" and "j < 2 ^ 63"
  shows "length (kThLexicographicString IndexLength (sint i)) = 26
    \<and> kThLexicographicString IndexLength (sint (i :: u64)) < kThLexicographicString IndexLength (sint j)"
proof -
  have "sint k = uint k" if "k < 2 ^ 63" for k :: u64
  proof -
    have "- (2 ^ 63) \<le> uint k" by (rule order_trans [OF _ uint_ge_0]) simp
    moreover have "uint k < 2 ^ 63" using that by (simp add: word_less_def)
    ultimately have "signed_take_bit 63 (uint k) = uint k" by (rule signed_take_bit_int_eq_self)
    then show ?thesis by (simp add: sint_uint)
  qed
  moreover have "i < 2 ^ 63" using assms by (rule less_trans)
  ultimately have s: "0 \<le> sint i" "sint i < sint j" using assms by (simp_all add: word_less_def)
  obtain d r e q where d: "index_digits 26 (sint i) = (d, r)" and e: "index_digits 26 (sint j) = (e, q)"
    by (metis surj_pair)
  have r: "r = q" using index_rest [OF d] index_rest [OF e] by simp
  note o = index_digits_order [OF s d e [folded r]]
  have "(map (\<lambda>x. char_of (nat (x + 97)) :: char) d, map (\<lambda>x. char_of (nat (x + 97))) e) \<in> lexord {(a, b). a < b}"
  proof (rule lexord_map)
    show "(d, e) \<in> lexord {(x, y). x < y}" using o by blast
    fix x y assume "x \<in> set d" "y \<in> set e" "(x, y) \<in> {(x, y). x < (y :: int)}"
    then have "0 \<le> x" "x < y" "y \<le> 25" using o by auto
    then show "(char_of (nat (x + 97)), char_of (nat (y + 97)) :: char) \<in> {(a, b). a < b}"
      by (simp add: less_char_def of_char_of)
  qed
  then show ?thesis using index_string [of i] by (simp add: index_string_eq [OF d] index_string_eq [OF e] list_less_def)
qed

section \<open>The properties on the list\<close>

text \<open>An issue of ten to Alice, which is confirmed, and a payment of four to Bob.\<close>

definition short_history :: "tx_event list" where
  "short_history =
     [Appended 1 (tx_record ''t1'' [] [tx_out 0 ''alice'' 10]), StatusSet ''t1'' TxConfirmed,
      Appended 2 (tx_record ''t2'' [tx_in 0 ''alice'' 10] [tx_out 0 ''bob'' 4, tx_out 0 ''alice'' 6])]"

text \<open>What the history writes: movements with the indices 0, 2 and 3, transactions with 1, 4 and 5.\<close>

definition usd_transaction :: "u64 \<Rightarrow> string \<Rightarrow> ActionType \<Rightarrow> int \<Rightarrow> string \<Rightarrow> string \<Rightarrow> int \<Rightarrow> BadgerTransaction" where
  "usd_transaction i tx ty time sender recipient n =
     \<lparr>btId = i, btRecord = \<lparr>trTxID = tx, trActionType = ty, trSenderEID = sender, trRecipientEID = recipient,
       trTokenType = ''USD'', trAmount = n, trTimestamp = time, trStatus = TxPending\<rparr>\<rparr>"

definition short_codec :: record_codec where
  "short_codec = table_codec
     [\<lparr>bmId = 0, bmRecord = movement_of ''t1'' ''alice'' ''USD'' 10\<rparr>,
      \<lparr>bmId = 0, bmRecord = (movement_of ''t1'' ''alice'' ''USD'' 10)\<lparr>mvStatus := TxConfirmed\<rparr>\<rparr>,
      \<lparr>bmId = 2, bmRecord = movement_of ''t2'' ''alice'' ''USD'' (- 4)\<rparr>,
      \<lparr>bmId = 3, bmRecord = movement_of ''t2'' ''bob'' ''USD'' 4\<rparr>]
     [usd_transaction 1 ''t1'' ActionIssue 1 [] ''alice'' 10,
      \<lparr>btId = 1, btRecord = (btRecord (usd_transaction 1 ''t1'' ActionIssue 1 [] ''alice'' 10))\<lparr>trStatus := TxConfirmed\<rparr>\<rparr>,
      usd_transaction 4 ''t2'' ActionTransfer 2 ''alice'' ''bob'' 4,
      usd_transaction 5 ''t2'' ActionTransfer 2 ''alice'' ''alice'' 6]"

definition fresh_list :: list_store where
  "fresh_list = \<lparr>lkContent = [(''idseq'', ''lease'')], lkNext = 0\<rparr>"

lemma short_run:
  "fst (ofor (apply_event (badger_db list_badger short_codec)) short_history (newDB \<lparr>bpDB = fresh_list, bpTxn = None\<rparr>)) = Inr ()"
  by code_simp

lemma short_holdings:
  "map_sum id Holdings_Sum (fst (Holdings_Execute (badger_db list_badger short_codec) alice_holdings
     (snd (ofor (apply_event (badger_db list_badger short_codec)) short_history (newDB \<lparr>bpDB = fresh_list, bpTxn = None\<rparr>))))) = Inr 6"
  by code_simp

lemma fresh_list_empty: "\<forall>k. prefix ''mv'' k \<longrightarrow> map_of (lkContent fresh_list) k = None"
  by (auto simp: fresh_list_def)

lemma short_ids: "\<forall>ev \<in> set short_history. length (event_id ev) = 2"
  by (simp add: short_history_def tx_record_def)

lemma short_covered: "\<forall>ev \<in> set short_history. types_covered ev"
  by code_simp

lemma short_driver:
  "badger_driver list_badger (\<lambda>b. map_of (lkContent b)) (\<lambda>t. map_of (snd t)) (\<lambda>b. unat (lkNext b)) short_codec"
  unfolding short_codec_def by (rule listed.badger_driver_axioms)

lemma badger_holdings_are_balance_witness:
  "balance_of (fold log_event short_history []) ''alice'' ''USD'' = 6"
proof -
  let ?D = "badger_db list_badger short_codec" and ?s = "newDB \<lparr>bpDB = fresh_list, bpTxn = None\<rparr>"
  obtain db where db: "ofor (apply_event ?D) short_history ?s = (Inr (), db)"
    using short_run by (cases "ofor (apply_event ?D) short_history ?s") simp
  moreover obtain f db' where f: "Holdings_Execute ?D alice_holdings db = (Inr f, db')" "Holdings_Sum f = 6"
    using short_holdings db by (cases "fst (Holdings_Execute ?D alice_holdings db)"; cases "Holdings_Execute ?D alice_holdings db") auto
  ultimately show ?thesis
    using badger_holdings_are_balance [OF short_driver fresh_list_empty short_ids short_covered, of "''alice''" db "''USD''" f db']
    by (simp add: alice_holdings_def)
qed

definition all_movements :: QueryMovementsParams where
  "all_movements = no_movement_params\<lparr>qmMovementDirection := MoveAll, qmNumRecords := 2\<rparr>"

lemma short_query:
  "fst (badger_QueryMovements list_badger short_codec all_movements
     (dbStore (snd (ofor (apply_event (badger_db list_badger short_codec)) short_history (newDB \<lparr>bpDB = fresh_list, bpTxn = None\<rparr>)))))
   = Inr [movement_of ''t2'' ''bob'' ''USD'' 4, movement_of ''t2'' ''alice'' ''USD'' (- 4)]"
  by code_simp

lemma short_memory_run: "fst (ofor (apply_event memory_db) short_history (newDB empty_store)) = Inr ()"
  by code_simp

lemma drivers_agree_witness:
  "fst (memory_QueryMovements all_movements (dbStore (snd (ofor (apply_event memory_db) short_history (newDB empty_store)))))
   = Inr [movement_of ''t2'' ''bob'' ''USD'' 4, movement_of ''t2'' ''alice'' ''USD'' (- 4)]"
proof -
  let ?D = "badger_db list_badger short_codec" and ?s = "newDB \<lparr>bpDB = fresh_list, bpTxn = None\<rparr>"
  obtain db where db: "ofor (apply_event ?D) short_history ?s = (Inr (), db)"
    using short_run by (cases "ofor (apply_event ?D) short_history ?s") simp
  obtain mdb where mdb: "ofor (apply_event memory_db) short_history (newDB empty_store) = (Inr (), mdb)"
    using short_memory_run by (cases "ofor (apply_event memory_db) short_history (newDB empty_store)") simp
  obtain t where t: "badger_QueryMovements list_badger short_codec all_movements (dbStore db)
      = (Inr [movement_of ''t2'' ''bob'' ''USD'' 4, movement_of ''t2'' ''alice'' ''USD'' (- 4)], t)"
    using short_query db by (cases "badger_QueryMovements list_badger short_codec all_movements (dbStore db)") simp
  from drivers_agree [OF short_driver fresh_list_empty short_ids db mdb _ _ t] show ?thesis
    by (simp add: mdb all_movements_def no_movement_params_def tx_consts)
qed

text \<open>A movement of transaction \<open>11\<close>, and a status for transaction \<open>1\<close>.\<close>

definition eleven :: BadgerMovement where
  "eleven = \<lparr>bmId = 0, bmRecord = movement_of ''11'' ''alice'' ''USD'' 10\<rparr>"

definition eleven_store :: list_store where
  "eleven_store = \<lparr>lkContent = [(record_key ''mv'' 0 ''11'', ''i'')], lkNext = 1\<rparr>"

definition eleven_codec :: record_codec where
  "eleven_codec = table_codec [eleven, bm_status TxDeleted eleven] []"

lemma eleven_driver:
  "badger_driver list_badger (\<lambda>b. map_of (lkContent b)) (\<lambda>t. map_of (snd t)) (\<lambda>b. unat (lkNext b)) eleven_codec"
  unfolding eleven_codec_def by (rule listed.badger_driver_axioms)

lemma eleven_run:
  "fst (badger_SetStatus list_badger eleven_codec ''1'' TxDeleted \<lparr>bpDB = eleven_store, bpTxn = None\<rparr>) = Inr ()"
  by code_simp

lemma badger_status_by_suffix_witness:
  "\<exists>w. map_of (lkContent (bpDB (snd (badger_SetStatus list_badger eleven_codec ''1'' TxDeleted \<lparr>bpDB = eleven_store, bpTxn = None\<rparr>))))
      (record_key ''mv'' 0 ''11'') = Some w
    \<and> UnmarshalMovementRecord eleven_codec w = Inr (bm_status TxDeleted eleven)"
proof -
  let ?s = "\<lparr>bpDB = eleven_store, bpTxn = None\<rparr>"
  obtain s' where s': "badger_SetStatus list_badger eleven_codec ''1'' TxDeleted ?s = (Inr (), s')"
    using eleven_run by (cases "badger_SetStatus list_badger eleven_codec ''1'' TxDeleted ?s") simp
  have "map_of (lkContent (bpDB ?s)) (record_key ''mv'' 0 ''11'') = Some ''i''" by (simp add: eleven_store_def)
  moreover have "UnmarshalMovementRecord eleven_codec ''i'' = Inr eleven" by code_simp
  moreover have "suffix ''1'' ''11''" by code_simp
  ultimately show ?thesis
    using badger_status_by_suffix [OF eleven_driver, of "''1''" TxDeleted ?s s' 0 "''11''" "''i''" eleven] s' by simp
qed

lemma index_order_witness:
  "kThLexicographicString IndexLength (sint (25 :: u64)) < kThLexicographicString IndexLength (sint (26 :: u64))"
  using index_order [of 25 26] by simp

end
