(* ===== verification/Auditor.thy ===== *)
theory Auditor
  imports TxLocks TxHoldings "HOL-Library.Code_Target_Nat"
begin

text \<open>
  The services that keep the transaction database of an auditor and of an owner up to date
  (\<open>token/services/auditor\<close>, \<open>token/services/owner\<close>): audits, which lock the enrollment
  identifiers of a request; appends; the listener to the status of transactions; and the
  restoration after a restart. The network is a parameter.
\<close>

section \<open>Locks, one call at a time\<close>

text \<open>A call of \<open>AcquireLocks\<close> that runs alone; \<open>None\<close> when it waits for a mutex.\<close>

fun acquire_loop :: "string list \<Rightarrow> string list \<Rightarrow> lock_map \<Rightarrow> (lock_phase \<times> lock_map) option" where
  "acquire_loop [] acquired m = Some (Holding acquired, m)"
| "acquire_loop (i # is) acquired m =
     (case acquire_next (i # is) acquired (LoadOrStore i (Mutex False) m) of
        Some (Acquiring _ acquired', m') \<Rightarrow> acquire_loop is acquired' m'
      | r \<Rightarrow> r)"

definition AcquireLocks :: "string \<Rightarrow> string list \<Rightarrow> lock_map \<Rightarrow> (lock_phase \<times> lock_map) option" where
  "AcquireLocks anchor eIDs m =
     (case acquire_start anchor eIDs m of
        (Acquiring is acquired, m') \<Rightarrow> acquire_loop is acquired m'
      | (ph, m') \<Rightarrow> Some (ph, m'))"

fun release_loop :: "string list \<Rightarrow> lock_map \<Rightarrow> lock_phase \<times> lock_map" where
  "release_loop [] m = release_next [] m"
| "release_loop (i # is) m =
     (case release_next (i # is) m of
        (Releasing _, m') \<Rightarrow> release_loop is m'
      | (ph, m') \<Rightarrow> (ph, m'))"

definition ReleaseLocks :: "string \<Rightarrow> (lock_map, unit) oper" where
  "ReleaseLocks anchor = (\<lambda>m.
     case (case release_start anchor m of (Releasing is, m') \<Rightarrow> release_loop is m' | r \<Rightarrow> r) of
       (Panicked, m') \<Rightarrow> (Inl (Panic ''sync: Unlock of unlocked RWMutex''), m')
     | (_, m') \<Rightarrow> (Inr (), m'))"

section \<open>The services\<close>

text \<open>
  A network, on a state \<open>'n\<close>: the status of transactions in the vault of a namespace, and the
  subscription of a listener.
\<close>

record 'n tx_network =
  netVault :: "string \<Rightarrow> (string \<Rightarrow> int res) res"
  netSubscribe :: "string \<Rightarrow> ('n, unit) oper"

record ('s, 'n) service =
  svDB :: "'s DB"
  svLocks :: lock_map
  svNet :: 'n

definition on_db :: "('s DB, 'a) oper \<Rightarrow> (('s, 'n) service, 'a) oper" where
  "on_db m = (\<lambda>v. case m (svDB v) of (r, d) \<Rightarrow> (r, v\<lparr>svDB := d\<rparr>))"

definition on_lock_map :: "(lock_map, 'a) oper \<Rightarrow> (('s, 'n) service, 'a) oper" where
  "on_lock_map m = (\<lambda>v. case m (svLocks v) of (r, l) \<Rightarrow> (r, v\<lparr>svLocks := l\<rparr>))"

definition on_net :: "('n, 'a) oper \<Rightarrow> (('s, 'n) service, 'a) oper" where
  "on_net m = (\<lambda>v. case m (svNet v) of (r, n) \<Rightarrow> (r, v\<lparr>svNet := n\<rparr>))"

definition NetworkValid :: int where "NetworkValid = 1"
definition NetworkInvalid :: int where "NetworkInvalid = 2"

definition Auditor_Validate :: "(bytes \<Rightarrow> bool) \<Rightarrow> 'a Request \<Rightarrow> unit res" where
  "Auditor_Validate none request = AuditCheck none request"

text \<open>\<open>None\<close> is an audit that waits for the locks of another transaction.\<close>

definition Auditor_Audit ::
  "(bytes \<Rightarrow> bool) \<Rightarrow> 'a Request \<Rightarrow> lock_map \<Rightarrow> ((InputStream \<times> OutputStream option) res \<times> lock_map) option" where
  "Auditor_Audit none request m =
     (case rbind (AuditInputs none request) (\<lambda>ins. rbind (AuditOutputs request) (\<lambda>outs.
        rbind (deref outs) (\<lambda>os. Inr (ins, outs, InputStream_EnrollmentIDs ins @ OutputStream_EnrollmentIDs os)))) of
        Inl e \<Rightarrow> Some (Inl e, m)
      | Inr (ins, outs, eids) \<Rightarrow>
          (case AcquireLocks (Anchor request) eids m of
             None \<Rightarrow> None
           | Some (Panicked, m') \<Rightarrow> Some (Inl (Panic ''interface conversion''), m')
           | Some (_, m') \<Rightarrow> Some (Inr (ins, outs), m')))"

text \<open>\<open>Release\<close> is deferred: it runs after the append, whether that failed or not.\<close>

definition deferring :: "('s, unit) oper \<Rightarrow> ('s, 'a) oper \<Rightarrow> ('s, 'a) oper" where
  "deferring fin m = (\<lambda>s.
     case m s of (r, t) \<Rightarrow> (case fin t of (Inl e, u) \<Rightarrow> (Inl e, u) | (Inr _, u) \<Rightarrow> (r, u)))"

definition Auditor_Append ::
  "('s, 'i) TokenTransactionDB \<Rightarrow> (bytes \<Rightarrow> bool) \<Rightarrow> 'n tx_network option \<Rightarrow> int \<Rightarrow> string \<Rightarrow> 'a Request
     \<Rightarrow> (('s, 'n) service, unit) oper" where
  "Auditor_Append D none net timestamp txID request =
     deferring (on_lock_map (ReleaseLocks (Anchor request)))
       (obind (on_db (DB_Append D none timestamp request)) (\<lambda>_.
        case net of
          None \<Rightarrow> olift (Inl (Err ''failed getting network instance''))
        | Some n \<Rightarrow> on_net (netSubscribe n txID)))"

definition Auditor_Release :: "'a Request \<Rightarrow> (('s, 'n) service, unit) oper" where
  "Auditor_Release request = on_lock_map (ReleaseLocks (Anchor request))"


definition Auditor_SetStatus :: "('s, 'i) TokenTransactionDB \<Rightarrow> string \<Rightarrow> TxStatus \<Rightarrow> (('s, 'n) service, unit) oper" where
  "Auditor_SetStatus D txID status = on_db (DB_SetStatus D txID status)"

definition Owner_Append ::
  "('s, 'i) TokenTransactionDB \<Rightarrow> (bytes \<Rightarrow> bool) \<Rightarrow> 'n tx_network option \<Rightarrow> int \<Rightarrow> string \<Rightarrow> 'a Request
     \<Rightarrow> (('s, 'n) service, unit) oper" where
  "Owner_Append D none net timestamp txID request =
     obind (on_db (DB_AppendTransactionRecord D none timestamp request)) (\<lambda>_.
     case net of
       None \<Rightarrow> olift (Inl (Err ''failed getting network instance''))
     | Some n \<Rightarrow> on_net (netSubscribe n txID))"

text \<open>A status that is neither valid nor invalid leaves the zero value, the empty text.\<close>

definition listener_status :: "int \<Rightarrow> TxStatus" where
  "listener_status status =
     (if status = NetworkValid then TxConfirmed else if status = NetworkInvalid then TxDeleted else [])"

definition OnStatusChange :: "('s, 'i) TokenTransactionDB \<Rightarrow> string \<Rightarrow> int \<Rightarrow> (('s, 'n) service, unit) oper" where
  "OnStatusChange D txID status = on_db (DB_SetStatus D txID (listener_status status))"

section \<open>Restoring after a restart\<close>






text \<open>
  \<open>Restore\<close> of a manager goes through the entries of its store: the management service of
  each, its wallet, where the manager keeps wallets, and then the above.
\<close>

fun restore_entries ::
  "('e \<Rightarrow> bool) \<Rightarrow> ('e \<Rightarrow> bool) \<Rightarrow> ('e \<Rightarrow> 's \<Rightarrow> (unit res \<times> 's) option) \<Rightarrow> 'e list \<Rightarrow> 's \<Rightarrow> (unit res \<times> 's) option" where
  "restore_entries has_tms has_wallet restore_one [] s = Some (Inr (), s)"
| "restore_entries has_tms has_wallet restore_one (e # es) s =
     (if \<not> has_tms e then Some (Inl (Err ''cannot find TMS''), s)
      else if \<not> has_wallet e then Some (Inl (Err ''cannot find auditor wallet''), s)
      else (case restore_one e s of
          None \<Rightarrow> None
        | Some (Inl (Panic p), t) \<Rightarrow> Some (Inl (Panic p), t)
        | Some (Inl (Err m), t) \<Rightarrow> Some (Inl (Err ''cannot bootstrap auditdb''), t)
        | Some (Inr _, t) \<Rightarrow> restore_entries has_tms has_wallet restore_one es t))"

definition Manager_Restore ::
  "'e list res \<Rightarrow> ('e \<Rightarrow> bool) \<Rightarrow> ('e \<Rightarrow> bool) \<Rightarrow> ('e \<Rightarrow> 's \<Rightarrow> (unit res \<times> 's) option) \<Rightarrow> 's \<Rightarrow> (unit res \<times> 's) option" where
  "Manager_Restore entries has_tms has_wallet restore_one s =
     (case entries of
        Inl (Panic p) \<Rightarrow> Some (Inl (Panic p), s)
      | Inl (Err m) \<Rightarrow> Some (Inl (Err ''failed to list existing auditors''), s)
      | Inr es \<Rightarrow> restore_entries has_tms has_wallet restore_one es s)"

text \<open>The manager of the owners has no wallets; the code is otherwise the same.\<close>

definition Owner_Restore ::
  "'e list res \<Rightarrow> ('e \<Rightarrow> bool) \<Rightarrow> ('e \<Rightarrow> 's \<Rightarrow> (unit res \<times> 's) option) \<Rightarrow> 's \<Rightarrow> (unit res \<times> 's) option" where
  "Owner_Restore entries has_tms restore_one s = Manager_Restore entries has_tms (\<lambda>_. True) restore_one s"

section \<open>The managers\<close>

text \<open>
  The services by the identifier of their wallet. A new one is first noted in a store of
  entries, and needs the network.
\<close>

definition Manager_service ::
  "(string \<Rightarrow> 'w \<Rightarrow> 'k \<Rightarrow> unit res \<times> 'k) \<Rightarrow> (string \<Rightarrow> 'v) \<Rightarrow> bool \<Rightarrow> string \<Rightarrow> 'w
     \<Rightarrow> ((string \<rightharpoonup> 'v) \<times> 'k, 'v) oper" where
  "Manager_service put new_service network_found i w = (\<lambda>(services, k).
     case services i of
       Some c \<Rightarrow> (Inr c, (services, k))
     | None \<Rightarrow>
         (case put i w k of
            (Inl e, k') \<Rightarrow> (Inl e, (services, k'))
          | (Inr _, k') \<Rightarrow>
              if network_found then (Inr (new_service i), (services(i \<mapsto> new_service i), k'))
              else (Inl (Err ''failed to get network instance''), (services, k'))))"

definition auditor_id :: "TMSID \<Rightarrow> string \<Rightarrow> string" where
  "auditor_id tms wid = TMSID_String tms @ wid"

definition tmsWallet_ID :: "TMSID \<Rightarrow> string" where
  "tmsWallet_ID i = tmsNetwork i @ ''-'' @ tmsChannel i @ ''-'' @ tmsNamespace i"

section \<open>What a restoration does\<close>








section \<open>Properties\<close>




definition pending_record :: "string \<Rightarrow> TransactionRecord" where
  "pending_record tx = \<lparr>trTxID = tx, trActionType = ActionIssue, trSenderEID = [], trRecipientEID = ''alice'', trTokenType = ''USD'',
     trAmount = 1, trTimestamp = 1, trStatus = TxPending\<rparr>"

definition restarted :: "(Persistence, string list) service" where
  "restarted = \<lparr>svDB = newDB \<lparr>movementRecords = [], transactionRecords = [pending_record ''t1'', pending_record ''t2'']\<rparr>,
     svLocks = Map.empty, svNet = []\<rparr>"


text \<open>
  A status that is neither valid nor invalid, such as busy or unknown, makes the listener
  set the empty status: the transaction is then neither pending nor decided, counts in no
  holdings, and a restoration passes over it.
\<close>
theorem listener_drops_undecided:
  assumes "status \<noteq> NetworkValid" and "status \<noteq> NetworkInvalid" and "OnStatusChange memory_db tx status v = (r, w)"
  shows "r = Inr () \<and> (\<forall>m \<in> set (movementRecords (dbStore (svDB w))). mvTxID m = tx \<longrightarrow> \<not> live (mvStatus m))
    \<and> (\<forall>x \<in> set (transactionRecords (dbStore (svDB w))). trTxID x = tx \<longrightarrow> trStatus x \<noteq> TxPending)"
proof -
  have s: "listener_status status = []" using assms(1,2) by (simp add: listener_status_def)
  have w: "r = Inr ()" "dbStore (svDB w) = snd (memory_SetStatus tx [] (dbStore (svDB v)))"
    using assms(3) by (auto simp: OnStatusChange_def on_db_def DB_SetStatus_def on_store_def or_discard_def memory_SetStatus_def s)
  have n: "\<not> live []" "[] \<noteq> TxPending" by (simp_all add: live_def tx_consts)
  have "\<not> live (mvStatus m)" if "m \<in> set (movementRecords (dbStore (svDB w)))" "mvTxID m = tx" for m
  proof -
    have "m \<in> (\<lambda>m. if mvTxID m = tx then m\<lparr>mvStatus := []\<rparr> else m) ` set (movementRecords (dbStore (svDB v)))"
      using that(1) by (simp add: w(2) memory_SetStatus_def)
    then obtain m0 where "m = (if mvTxID m0 = tx then m0\<lparr>mvStatus := []\<rparr> else m0)" by (rule imageE)
    with that(2) n(1) show ?thesis by (simp split: if_splits)
  qed
  moreover have "trStatus x \<noteq> TxPending" if "x \<in> set (transactionRecords (dbStore (svDB w)))" "trTxID x = tx" for x
  proof -
    have "x \<in> (\<lambda>r. if trTxID r = tx then r\<lparr>trStatus := []\<rparr> else r) ` set (transactionRecords (dbStore (svDB v)))"
      using that(1) by (simp add: w(2) memory_SetStatus_def)
    then obtain x0 where "x = (if trTxID x0 = tx then x0\<lparr>trStatus := []\<rparr> else x0)" by (rule imageE)
    with that(2) n(2) show ?thesis by (simp split: if_splits)
  qed
  ultimately show ?thesis using w(1) by simp
qed

lemma listener_drops_undecided_witness:
  "map trStatus (transactionRecords (dbStore (svDB (snd (OnStatusChange memory_db ''t1'' 3 restarted))))) = [[], TxPending]
    \<and> (\<forall>x \<in> set (transactionRecords (dbStore (svDB (snd (OnStatusChange memory_db ''t1'' 3 restarted))))). trTxID x = ''t1'' \<longrightarrow> trStatus x \<noteq> TxPending)"
proof -
  have "map trStatus (transactionRecords (dbStore (svDB (snd (OnStatusChange memory_db ''t1'' 3 restarted))))) = [[], TxPending]"
    by code_simp
  with listener_drops_undecided [of 3 "''t1''" restarted] show ?thesis
    by (cases "OnStatusChange memory_db ''t1'' 3 restarted") (simp add: NetworkValid_def NetworkInvalid_def)
qed

end
