(* ===== verification/Schnorr.thy ===== *)
theory Schnorr
  imports Prelude
begin

text \<open>
  Commitments and Schnorr proofs of the zero-knowledge driver
  (\<open>token/core/zkatdlog/crypto/common\<close>: schnorr.go, array.go). The curves are those of the
  library \<open>mathlib\<close>, which is not in the repository: a curve is a record of its operations.
  A pointer to an element is an option; an operation of the library on a nil pointer panics.
  A method that changes its receiver is a function to the new value: every receiver in the
  code is a fresh element.
\<close>

section \<open>Curves\<close>

record ('g, 'h, 't, 'z) curve =
  GroupOrder :: "'z option"
  GenG1 :: "'g option"
  GenG2 :: "'h option"
  NewG1 :: 'g
  NewG2 :: 'h
  NewZrFromInt :: "int \<Rightarrow> 'z"
  HashToZr :: "bytes \<Rightarrow> 'z"
  ModAdd :: "'z \<Rightarrow> 'z \<Rightarrow> 'z \<Rightarrow> 'z"
  ModMul :: "'z \<Rightarrow> 'z \<Rightarrow> 'z \<Rightarrow> 'z"
  Zr_Equals :: "'z \<Rightarrow> 'z \<Rightarrow> bool"
  Zr_Bytes :: "'z \<Rightarrow> bytes"
  Zr_String :: "'z \<Rightarrow> string"
  Zr_Int :: "'z \<Rightarrow> int res"
  G1_Add :: "'g \<Rightarrow> 'g \<Rightarrow> 'g"
  G1_Sub :: "'g \<Rightarrow> 'g \<Rightarrow> 'g"
  G1_Mul :: "'g \<Rightarrow> 'z \<Rightarrow> 'g"
  G1_Equals :: "'g \<Rightarrow> 'g \<Rightarrow> bool"
  G1_Bytes :: "'g \<Rightarrow> bytes"
  G2_Add :: "'h \<Rightarrow> 'h \<Rightarrow> 'h"
  G2_Sub :: "'h \<Rightarrow> 'h \<Rightarrow> 'h"
  G2_Mul :: "'h \<Rightarrow> 'z \<Rightarrow> 'h"
  G2_Bytes :: "'h \<Rightarrow> bytes"
  Pairing2 :: "'h \<Rightarrow> 'g \<Rightarrow> 'h \<Rightarrow> 'g \<Rightarrow> 't"
  FExp :: "'t \<Rightarrow> 't"
  Gt_Inverse :: "'t \<Rightarrow> 't"
  Gt_Mul :: "'t \<Rightarrow> 't \<Rightarrow> 't"
  Gt_IsUnity :: "'t \<Rightarrow> bool"
  Gt_Bytes :: "'t \<Rightarrow> bytes"

text \<open>A generator of random elements, as \<open>Rand\<close> returns it: the elements that are drawn from it.\<close>

type_synonym 'z rng = "(nat \<Rightarrow> 'z) res"

definition mod_mul :: "('g, 'h, 't, 'z) curve \<Rightarrow> 'z option \<Rightarrow> 'z option \<Rightarrow> 'z res" where
  "mod_mul c a b =
     rbind (deref a) (\<lambda>x. rbind (deref b) (\<lambda>y. rbind (deref (GroupOrder c)) (\<lambda>q. Inr (ModMul c x y q))))"

definition mod_add :: "('g, 'h, 't, 'z) curve \<Rightarrow> 'z option \<Rightarrow> 'z option \<Rightarrow> 'z res" where
  "mod_add c a b =
     rbind (deref a) (\<lambda>x. rbind (deref b) (\<lambda>y. rbind (deref (GroupOrder c)) (\<lambda>q. Inr (ModAdd c x y q))))"

section \<open>Arrays\<close>

definition GetG1Array :: "'g option list list \<Rightarrow> 'g option list" where
  "GetG1Array elements = concat elements"

definition G1Array_Bytes :: "('g, 'h, 't, 'z) curve \<Rightarrow> 'g option list \<Rightarrow> bytes res" where
  "G1Array_Bytes c a =
     rfold (\<lambda>raw e. case e of None \<Rightarrow> Inl (Err ''failed to marshal array of G1'')
                             | Some g \<Rightarrow> Inr (raw @ G1_Bytes c g)) [] a"

definition GetG2Array :: "'h option list list \<Rightarrow> 'h option list" where
  "GetG2Array elements = concat elements"

definition G2Array_Bytes :: "('g, 'h, 't, 'z) curve \<Rightarrow> 'h option list \<Rightarrow> bytes res" where
  "G2Array_Bytes c a =
     rfold (\<lambda>raw e. case e of None \<Rightarrow> Inl (Err ''failed to marshal array of G2'')
                             | Some g \<Rightarrow> Inr (raw @ G2_Bytes c g)) [] a"

definition GetBytesArray :: "bytes list \<Rightarrow> bytes" where
  "GetBytesArray arrays = concat arrays"

definition GetZrArray :: "'z option list list \<Rightarrow> 'z option list" where
  "GetZrArray elements = concat elements"

definition Sum :: "'z option list \<Rightarrow> ('g, 'h, 't, 'z) curve \<Rightarrow> 'z res" where
  "Sum vals c =
     rfold (\<lambda>sum v. if v = None then Inl (Err ''invalid value to be summed'') else mod_add c (Some sum) v)
       (NewZrFromInt c 0) vals"

section \<open>Schnorr proofs\<close>

record ('g, 'z) SchnorrProof =
  spStatement :: "'g option"
  spProof :: "'z option list"
  spChallenge :: "'z option"

record ('g, 'h, 't, 'z) SchnorrVerifier =
  svPedParams :: "'g option list"
  svCurve :: "('g, 'h, 't, 'z) curve option"

record ('g, 'h, 't, 'z) SchnorrProver = "('g, 'h, 't, 'z) SchnorrVerifier" +
  Witness :: "'z option list"
  Randomness :: "'z option list"
  proverChallenge :: "'z option"

text \<open>
  One element of the proof. The test of the randomness in the code is of the whole array,
  which has the length of the witness and so is not nil here: a nil element panics.
\<close>

definition schnorr_response ::
  "('g, 'h, 't, 'z) curve \<Rightarrow> 'z option \<Rightarrow> 'z option \<times> 'z option \<Rightarrow> 'z res" where
  "schnorr_response c chal = (\<lambda>(w, r).
     if w = None then Inl (Err ''cannot compute Schnorr proof: please initialize nil elements'')
     else rbind (mod_mul c chal w) (\<lambda>p. mod_add c (Some p) r))"

definition Schnorr_Prove :: "('g, 'h, 't, 'z) SchnorrProver \<Rightarrow> 'z list res" where
  "Schnorr_Prove p =
     (case svCurve p of
        None \<Rightarrow> Inl (Err ''cannot compute Schnorr proof: please initialize curve properly'')
      | Some c \<Rightarrow>
          if GroupOrder c = None then Inl (Err ''cannot compute Schnorr proof: please initialize curve properly'')
          else if length (Witness p) \<noteq> length (Randomness p)
          then Inl (Err ''cannot compute Schnorr proof: please initialize witness and randomness correctly'')
          else if proverChallenge p = None
          then Inl (Err ''cannot compute Schnorr proof: please initialize challenge'')
          else rmap (schnorr_response c (proverChallenge p)) (zip (Witness p) (Randomness p)))"

definition ComputePedersenCommitment ::
  "'z option list \<Rightarrow> 'g option list \<Rightarrow> ('g, 'h, 't, 'z) curve option \<Rightarrow> 'g res" where
  "ComputePedersenCommitment opening base curve =
     (if length opening \<noteq> length base then Inl (Err ''can't compute Pedersen commitment'')
      else case curve of
          None \<Rightarrow> Inl (Err ''can't compute Pedersen commitment: please initialize curve'')
        | Some c \<Rightarrow>
            rfold (\<lambda>com (b, x). case (b, x) of
                (Some g, Some z) \<Rightarrow> Inr (G1_Add c com (G1_Mul c g z))
              | _ \<Rightarrow> Inl (Err ''can't compute Pedersen commitment: nil EC points''))
              (NewG1 c) (zip base opening))"

definition add_response ::
  "('g, 'h, 't, 'z) curve \<Rightarrow> 'g \<Rightarrow> 'g option \<times> 'z option \<Rightarrow> 'g res" where
  "add_response c com = (\<lambda>(b, p).
     case p of None \<Rightarrow> Inl (Err ''invalid zero-knowledge proof: nil proof'')
             | Some z \<Rightarrow> rbind (deref b) (\<lambda>g. Inr (G1_Add c com (G1_Mul c g z))))"

definition RecomputeCommitment ::
  "('g, 'h, 't, 'z) SchnorrVerifier \<Rightarrow> ('g, 'z) SchnorrProof \<Rightarrow> 'g res" where
  "RecomputeCommitment v zkp =
     (case (spChallenge zkp, spStatement zkp) of
        (Some chal, Some statement) \<Rightarrow>
          (case svCurve v of
             None \<Rightarrow> Inl (Err ''please initialize curve'')
           | Some c \<Rightarrow>
               if length (spProof zkp) > length (svPedParams v)
               then Inl (Err ''please initialize Pedersen parameters correctly'')
               else
                 rbind (rfold (add_response c) (NewG1 c) (zip (svPedParams v) (spProof zkp))) (\<lambda>com.
                 Inr (G1_Sub c com (G1_Mul c statement chal))))
      | _ \<Rightarrow> Inl (Err ''invalid zero-knowledge proof: nil challenge or statement''))"

definition RecomputeCommitments ::
  "('g, 'h, 't, 'z) SchnorrVerifier \<Rightarrow> ('g, 'z) SchnorrProof list \<Rightarrow> 'z option \<Rightarrow> 'g list res" where
  "RecomputeCommitments v zkps challenge =
     rmap (\<lambda>zkp. RecomputeCommitment v (zkp\<lparr>spChallenge := challenge\<rparr>)) zkps"

definition ComputeChallenge :: "('g, 'h, 't, 'z) SchnorrVerifier \<Rightarrow> bytes \<Rightarrow> 'z res" where
  "ComputeChallenge v raw =
     (case svCurve v of None \<Rightarrow> Inl (Err ''failed to compute challenge: please initialize curve'')
                      | Some c \<Rightarrow> Inr (HashToZr c raw))"

section \<open>Groups of prime order\<close>

text \<open>
  What the library documents of a curve: \<open>G1\<close> is a group in which a scalar acts modulo
  the order \<open>q\<close>, a prime. Such a group is that of the integers modulo \<open>q\<close>: an element
  is its exponent \<open>ex\<close> to some generator, which nobody needs to know, and a scalar stands
  for its residue \<open>val\<close>. Equal elements have equal bytes.
\<close>

definition prime_group ::
  "('g, 'h, 't, 'z) curve \<Rightarrow> int \<Rightarrow> ('z \<Rightarrow> int) \<Rightarrow> ('g \<Rightarrow> int) \<Rightarrow> bool" where
  "prime_group C q val ex \<longleftrightarrow>
     1 < q \<and> (\<forall>a. a mod q \<noteq> 0 \<longrightarrow> (\<exists>b. a * b mod q = 1)) \<and>
     (\<exists>n. GroupOrder C = Some n \<and>
        (\<forall>a b. val (ModAdd C a b n) mod q = (val a + val b) mod q) \<and>
        (\<forall>a b. val (ModMul C a b n) mod q = val a * val b mod q)) \<and>
     (\<forall>i. val (NewZrFromInt C i) mod q = i mod q) \<and>
     (\<forall>a. Zr_Equals C a a) \<and> (\<forall>a b. Zr_Equals C a b \<longrightarrow> val a mod q = val b mod q) \<and>
     ex (NewG1 C) mod q = 0 \<and>
     (\<forall>a b. ex (G1_Add C a b) mod q = (ex a + ex b) mod q) \<and>
     (\<forall>a b. ex (G1_Sub C a b) mod q = (ex a - ex b) mod q) \<and>
     (\<forall>a z. ex (G1_Mul C a z) mod q = ex a * val z mod q) \<and>
     (\<forall>a b. G1_Equals C a b \<longleftrightarrow> ex a mod q = ex b mod q) \<and>
     (\<forall>a b. ex a mod q = ex b mod q \<longrightarrow> G1_Bytes C a = G1_Bytes C b)"


section \<open>Lemmas\<close>

lemma add_response_eq [go_simps]:
  "add_response c a (b, p) = Inr com \<longleftrightarrow>
     (\<exists>g z. b = Some g \<and> p = Some z \<and> com = G1_Add c a (G1_Mul c g z))"
  by (auto simp: add_response_def go_simps split: option.splits)

lemma Recompute_length:
  "RecomputeCommitment v zkp = Inr com \<Longrightarrow> length (spProof zkp) \<le> length (svPedParams v)"
  by (auto simp: RecomputeCommitment_def split: option.splits if_splits)

lemma G1Array_Bytes_concat: "G1Array_Bytes c (map Some gs) = Inr (concat (map (G1_Bytes c) gs))"
proof -
  have "rfold (\<lambda>raw e. case e of None \<Rightarrow> Inl (Err ''failed to marshal array of G1'')
      | Some g \<Rightarrow> Inr (raw @ G1_Bytes c g)) raw (map Some gs) = Inr (raw @ concat (map (G1_Bytes c) gs))" for raw
    by (induction gs arbitrary: raw) auto
  then show ?thesis by (simp add: G1Array_Bytes_def)
qed

lemma map_Some_the: "None \<notin> set es \<Longrightarrow> es = map Some (map the es)"
  by (induction es) auto

lemma G1Array_Bytes_SomeD:
  assumes "G1Array_Bytes c es = Inr raw"
  shows "\<exists>gs. es = map Some gs"
proof -
  have "rfold (\<lambda>raw e. case e of None \<Rightarrow> Inl (Err ''failed to marshal array of G1'')
      | Some g \<Rightarrow> Inr (raw @ G1_Bytes c g)) r es = Inr raw \<Longrightarrow> None \<notin> set es" for r
    by (induction es arbitrary: r) (auto simp: go_simps split: option.splits)
  with assms show ?thesis unfolding G1Array_Bytes_def by (metis map_Some_the)
qed

locale prime_curve =
  fixes C :: "('g, 'h, 't, 'z) curve" and q :: int and val :: "'z \<Rightarrow> int" and ex :: "'g \<Rightarrow> int"
  assumes group: "prime_group C q val ex"
begin

definition eqq :: "int \<Rightarrow> int \<Rightarrow> bool" where
  "eqq a b \<longleftrightarrow> a mod q = b mod q"

lemma eqq_dvd: "eqq a b \<longleftrightarrow> q dvd a - b"
  by (simp add: eqq_def mod_eq_dvd_iff)

lemma eqq_refl [simp]: "eqq a a" by (simp add: eqq_def)
lemma eqq_sym: "eqq a b \<Longrightarrow> eqq b a" by (simp add: eqq_def)
lemma eqq_trans [trans]: "eqq a b \<Longrightarrow> eqq b c \<Longrightarrow> eqq a c" by (simp add: eqq_def)
lemma eqq_add: "eqq a b \<Longrightarrow> eqq c d \<Longrightarrow> eqq (a + c) (b + d)"
  unfolding eqq_def by (rule mod_add_cong)
lemma eqq_diff: "eqq a b \<Longrightarrow> eqq c d \<Longrightarrow> eqq (a - c) (b - d)"
  unfolding eqq_def by (rule mod_diff_cong)
lemma eqq_mult: "eqq a b \<Longrightarrow> eqq c d \<Longrightarrow> eqq (a * c) (b * d)"
  unfolding eqq_def by (rule mod_mult_cong)

text \<open>A factor that has an inverse can be cancelled.\<close>

lemma eqq_cancel:
  assumes "a mod q \<noteq> 0" and "eqq (a * x) (a * y)"
  shows "eqq x y"
proof -
  obtain b where b: "a * b mod q = 1" using group assms(1) unfolding prime_group_def by blast
  have q1: "1 mod q = 1" using group unfolding prime_group_def by simp
  have "eqq (b * (a * x)) (b * (a * y))" by (rule eqq_mult [OF eqq_refl assms(2)])
  then have "eqq ((a * b) * x) ((a * b) * y)" by (simp add: ac_simps)
  moreover have "eqq ((a * b) * x) (1 * x)" and "eqq ((a * b) * y) (1 * y)"
    using b q1 by (simp_all add: eqq_def mod_mult_left_eq [of "a * b" q, symmetric] del: mult_1)
  ultimately show ?thesis by (metis eqq_sym eqq_trans mult_1)
qed

lemma inverse:
  assumes "\<not> eqq a b"
  shows "\<exists>d. eqq ((a - b) * d) 1"
proof -
  have "(a - b) mod q \<noteq> 0" using assms by (simp add: eqq_dvd dvd_eq_mod_eq_0)
  then obtain d where "(a - b) * d mod q = 1" using group unfolding prime_group_def by blast
  moreover have "1 mod q = 1" using group unfolding prime_group_def by simp
  ultimately show ?thesis unfolding eqq_def by (intro exI [of _ d]) simp
qed

lemma laws:
  "eqq (ex (NewG1 C)) 0"
  "eqq (ex (G1_Add C a b)) (ex a + ex b)"
  "eqq (ex (G1_Sub C a b)) (ex a - ex b)"
  "eqq (ex (G1_Mul C a z)) (ex a * val z)"
  "eqq (val (NewZrFromInt C i)) i"
  "Zr_Equals C z z"
  "Zr_Equals C z z' \<Longrightarrow> eqq (val z) (val z')"
  "G1_Equals C a b \<longleftrightarrow> eqq (ex a) (ex b)"
  "eqq (ex a) (ex b) \<Longrightarrow> G1_Bytes C a = G1_Bytes C b"
  using group unfolding prime_group_def eqq_def mod_0 by blast+

lemma order: obtains n where "GroupOrder C = Some n"
  "\<And>a b. eqq (val (ModAdd C a b n)) (val a + val b)"
  "\<And>a b. eqq (val (ModMul C a b n)) (val a * val b)"
  using group unfolding prime_group_def eqq_def by blast

lemma mod_mul_ok: "\<exists>r. mod_mul C (Some a) (Some b) = Inr r \<and> eqq (val r) (val a * val b)"
proof -
  obtain n where "GroupOrder C = Some n" "eqq (val (ModMul C a b n)) (val a * val b)"
    by (rule order) blast
  then show ?thesis by (simp add: mod_mul_def)
qed

lemma mod_add_ok: "\<exists>r. mod_add C (Some a) (Some b) = Inr r \<and> eqq (val r) (val a + val b)"
proof -
  obtain n where "GroupOrder C = Some n" "eqq (val (ModAdd C a b n)) (val a + val b)"
    by (rule order) blast
  then show ?thesis by (simp add: mod_add_def)
qed

lemma mod_mul_eq: "mod_mul C (Some a) (Some b) = Inr r \<Longrightarrow> eqq (val r) (val a * val b)"
  using mod_mul_ok [of a b] by auto

lemma mod_add_eq: "mod_add C (Some a) (Some b) = Inr r \<Longrightarrow> eqq (val r) (val a + val b)"
  using mod_add_ok [of a b] by auto

text \<open>The exponent of a product of generators.\<close>

definition lin :: "'g list \<Rightarrow> int list \<Rightarrow> int" where
  "lin gs ws = sum_list (map (\<lambda>(g, w). ex g * w) (zip gs ws))"

lemma lin_simps [simp]:
  "lin [] ws = 0" "lin gs [] = 0" "lin (g # gs) (w # ws) = ex g * w + lin gs ws"
  by (simp_all add: lin_def)

lemma responses:
  assumes "rfold (add_response C) a (zip (map Some gs) ps) = Inr com" and "length ps \<le> length gs"
  shows "\<exists>zs. ps = map Some zs \<and> eqq (ex com) (ex a + lin gs (map val zs))"
  using assms
proof (induction gs arbitrary: ps a)
  case (Cons g gs)
  show ?case
  proof (cases ps)
    case Nil
    with Cons.prems show ?thesis by simp
  next
    case (Cons p ps')
    with Cons.prems obtain z where z: "p = Some z"
      and r: "rfold (add_response C) (G1_Add C a (G1_Mul C g z)) (zip (map Some gs) ps') = Inr com"
      by (auto simp: go_simps)
    obtain zs where zs: "ps' = map Some zs"
      "eqq (ex com) (ex (G1_Add C a (G1_Mul C g z)) + lin gs (map val zs))"
      using Cons.IH [OF r] Cons.prems(2) Cons by auto
    have "eqq (ex (G1_Add C a (G1_Mul C g z))) (ex a + ex g * val z)"
      by (meson laws(2,4) eqq_add eqq_refl eqq_trans)
    then have "eqq (ex com) ((ex a + ex g * val z) + lin gs (map val zs))"
      using zs(2) by (meson eqq_add eqq_refl eqq_trans)
    with z zs Cons show ?thesis by (intro exI [of _ "z # zs"]) (simp add: add.assoc)
  qed
qed simp

lemma responses_ex:
  assumes "length zs \<le> length gs"
  shows "\<exists>com. rfold (add_response C) a (zip (map Some gs) (map Some zs)) = Inr com"
  using assms
proof (induction gs arbitrary: zs a)
  case (Cons g gs)
  then show ?case by (cases zs) (auto simp: add_response_def)
qed simp

text \<open>What the verifier computes, and when it computes it.\<close>

lemma Recompute_value:
  assumes "RecomputeCommitment v zkp = Inr com" and "svPedParams v = map Some gs" and "svCurve v = Some C"
  shows "\<exists>zs st ch. spProof zkp = map Some zs \<and> spStatement zkp = Some st \<and> spChallenge zkp = Some ch
    \<and> length zs \<le> length gs \<and> eqq (ex com) (lin gs (map val zs) - ex st * val ch)"
proof -
  from assms obtain st ch s where 1: "spStatement zkp = Some st" "spChallenge zkp = Some ch"
    "length (spProof zkp) \<le> length gs"
    and r: "rfold (add_response C) (NewG1 C) (zip (map Some gs) (spProof zkp)) = Inr s"
    and com: "com = G1_Sub C s (G1_Mul C st ch)"
    by (auto simp: RecomputeCommitment_def go_simps split: option.splits if_splits)
  obtain zs where zs: "spProof zkp = map Some zs" "eqq (ex s) (ex (NewG1 C) + lin gs (map val zs))"
    using responses [OF r 1(3)] by blast
  have "eqq (ex s) (0 + lin gs (map val zs))"
    using zs(2) laws(1) by (meson eqq_add eqq_refl eqq_trans)
  then have "eqq (ex com) (lin gs (map val zs) - ex st * val ch)"
    unfolding com using laws(3,4) by (simp; meson eqq_diff eqq_trans)
  with 1 zs show ?thesis by auto
qed

lemma Recompute_ex:
  assumes "svPedParams v = map Some gs" and "svCurve v = Some C" and "length zs \<le> length gs"
  shows "\<exists>com. RecomputeCommitment v \<lparr>spStatement = Some st, spProof = map Some zs, spChallenge = Some ch\<rparr> = Inr com"
  using responses_ex [OF assms(3), of "NewG1 C"] assms
  by (auto simp: RecomputeCommitment_def)

lemma Pedersen_value:
  assumes "length zs = length gs"
  shows "\<exists>com. ComputePedersenCommitment (map Some zs) (map Some gs) (Some C) = Inr com
    \<and> eqq (ex com) (lin gs (map val zs))"
proof -
  let ?f = "\<lambda>com (b, x). case (b, x) of (Some g, Some z) \<Rightarrow> Inr (G1_Add C com (G1_Mul C g z))
              | _ \<Rightarrow> Inl (Err ''can't compute Pedersen commitment: nil EC points'')"
  have "\<exists>com. rfold ?f a (zip (map Some gs) (map Some zs)) = Inr com \<and> eqq (ex com) (ex a + lin gs (map val zs))" for a
    using assms
  proof (induction gs zs arbitrary: a rule: list_induct2')
    case (4 g gs z zs)
    then obtain com where com: "rfold ?f (G1_Add C a (G1_Mul C g z)) (zip (map Some gs) (map Some zs)) = Inr com"
      "eqq (ex com) (ex (G1_Add C a (G1_Mul C g z)) + lin gs (map val zs))" by force
    have "eqq (ex (G1_Add C a (G1_Mul C g z))) (ex a + ex g * val z)"
      by (meson laws(2,4) eqq_add eqq_refl eqq_trans)
    then have "eqq (ex com) ((ex a + ex g * val z) + lin gs (map val zs))"
      using com(2) by (meson eqq_add eqq_refl eqq_trans)
    with com(1) show ?case by (intro exI [of _ com]) (simp add: add.assoc)
  qed auto
  from this [of "NewG1 C"] obtain com where
    "rfold ?f (NewG1 C) (zip (map Some gs) (map Some zs)) = Inr com" "eqq (ex com) (ex (NewG1 C) + lin gs (map val zs))"
    by blast
  moreover have "eqq (ex (NewG1 C) + lin gs (map val zs)) (0 + lin gs (map val zs))"
    by (intro eqq_add laws eqq_refl)
  ultimately show ?thesis
    using assms by (intro exI [of _ com]) (simp add: ComputePedersenCommitment_def, metis eqq_trans add_0)
qed

lemma lin_diff:
  assumes "length ws = length gs" and "length vs = length gs"
  shows "lin gs ws - lin gs vs = lin gs (map2 (-) ws vs)"
  using assms
proof (induction gs arbitrary: ws vs)
  case (Cons g gs)
  then obtain w ws' v vs' where 1: "ws = w # ws'" "vs = v # vs'" by (cases ws; cases vs) auto
  with Cons have "lin gs ws' - lin gs vs' = lin gs (map2 (-) ws' vs')" by simp
  with 1 show ?case by (simp add: right_diff_distrib)
qed simp

lemma lin_scale: "lin gs ws * d = lin gs (map (\<lambda>w. w * d) ws)"
proof (induction gs arbitrary: ws)
  case (Cons g gs)
  then show ?case by (cases ws) (simp_all add: distrib_right)
qed simp

lemma eqq_swap:
  assumes "eqq (l - x * c) (l' - x * c')"
  shows "eqq (x * (c - c')) (l - l')"
proof -
  have "x * (c - c') - (l - l') = - ((l - x * c) - (l' - x * c'))" by (simp add: algebra_simps)
  with assms show ?thesis by (metis eqq_dvd dvd_minus_iff)
qed

text \<open>
  Special soundness of a Schnorr proof: two proofs for the same statement that lead to the
  same commitment with different challenges give an opening of the statement, namely the
  differences of the responses over the difference of the challenges.
\<close>

lemma schnorr_soundness:
  assumes "RecomputeCommitment v \<lparr>spStatement = Some st, spProof = map Some zs, spChallenge = Some ch\<rparr> = Inr com"
    and "RecomputeCommitment v \<lparr>spStatement = Some st, spProof = map Some zs', spChallenge = Some ch'\<rparr> = Inr com'"
    and "eqq (ex com) (ex com')" and "eqq ((val ch - val ch') * d) 1"
    and "svPedParams v = map Some gs" and "svCurve v = Some C"
    and "length zs = length gs" and "length zs' = length gs"
  shows "eqq (ex st) (lin gs (map (\<lambda>w. w * d) (map2 (-) (map val zs) (map val zs'))))"
proof -
  have inj: "map Some xs = map Some ys \<Longrightarrow> xs = ys" for xs ys :: "'z list"
    by (simp add: inj_map_eq_map)
  have "eqq (ex com) (lin gs (map val zs) - ex st * val ch)"
    and "eqq (ex com') (lin gs (map val zs') - ex st * val ch')"
    using Recompute_value [OF assms(1,5,6)] Recompute_value [OF assms(2,5,6)] by (auto dest!: inj)
  then have "eqq (lin gs (map val zs) - ex st * val ch) (lin gs (map val zs') - ex st * val ch')"
    using assms(3) by (meson eqq_sym eqq_trans)
  then have "eqq (ex st * (val ch - val ch')) (lin gs (map val zs) - lin gs (map val zs'))"
    by (rule eqq_swap)
  then have "eqq (ex st * (val ch - val ch') * d) ((lin gs (map val zs) - lin gs (map val zs')) * d)"
    by (rule eqq_mult) simp
  moreover have "eqq (ex st * (val ch - val ch') * d) (ex st * 1)"
    unfolding mult.assoc by (rule eqq_mult [OF eqq_refl assms(4)])
  ultimately have "eqq (ex st) ((lin gs (map val zs) - lin gs (map val zs')) * d)"
    by (metis eqq_sym eqq_trans mult_1_right)
  also have "(lin gs (map val zs) - lin gs (map val zs')) * d
      = lin gs (map (\<lambda>w. w * d) (map2 (-) (map val zs) (map val zs')))"
    using lin_diff [of "map val zs" gs "map val zs'"] assms(7,8) by (simp only: lin_scale length_map)
  finally show ?thesis .
qed

end


section \<open>The integers modulo a prime as a curve\<close>

text \<open>
  Elements are their own exponents; the bytes of an element are its residue. The pairing
  multiplies exponents.
\<close>

definition residues :: "int \<Rightarrow> (bytes \<Rightarrow> int) \<Rightarrow> (int, int, int, int) curve" where
  "residues q hash =
     \<lparr>GroupOrder = Some q, GenG1 = Some 1, GenG2 = Some 1, NewG1 = 0, NewG2 = 0,
      NewZrFromInt = (\<lambda>i. i mod q), HashToZr = hash, ModAdd = (\<lambda>a b n. (a + b) mod n),
      ModMul = (\<lambda>a b n. a * b mod n), Zr_Equals = (\<lambda>a b. a = b),
      Zr_Bytes = (\<lambda>z. replicate (nat (z mod q)) (CHR ''1'')), Zr_String = (\<lambda>z. replicate (nat z) (CHR ''1'')),
      Zr_Int = Inr, G1_Add = (\<lambda>a b. (a + b) mod q), G1_Sub = (\<lambda>a b. (a - b) mod q),
      G1_Mul = (\<lambda>a z. a * z mod q), G1_Equals = (\<lambda>a b. a mod q = b mod q),
      G1_Bytes = (\<lambda>a. replicate (nat (a mod q)) (CHR ''1'')),
      G2_Add = (\<lambda>a b. (a + b) mod q), G2_Sub = (\<lambda>a b. (a - b) mod q), G2_Mul = (\<lambda>a z. a * z mod q),
      G2_Bytes = (\<lambda>a. replicate (nat (a mod q)) (CHR ''1'')),
      Pairing2 = (\<lambda>a b c d. (a * b + c * d) mod q), FExp = (\<lambda>a. a), Gt_Inverse = (\<lambda>a. - a mod q),
      Gt_Mul = (\<lambda>a b. (a + b) mod q), Gt_IsUnity = (\<lambda>a. a mod q = 0),
      Gt_Bytes = (\<lambda>a. replicate (nat (a mod q)) (CHR ''1''))\<rparr>"

lemma residues_prime_group:
  assumes "1 < q" and "\<forall>a. a mod q \<noteq> 0 \<longrightarrow> (\<exists>b. a * b mod q = 1)"
  shows "prime_group (residues q hash) q (\<lambda>z. z) (\<lambda>g. g)"
  unfolding prime_group_def
proof (intro conjI)
  show "1 < q" by (rule assms(1))
  show "\<forall>a. a mod q \<noteq> 0 \<longrightarrow> (\<exists>b. a * b mod q = 1)" by (rule assms(2))
  show "\<exists>n. GroupOrder (residues q hash) = Some n
      \<and> (\<forall>a b. ModAdd (residues q hash) a b n mod q = (a + b) mod q)
      \<and> (\<forall>a b. ModMul (residues q hash) a b n mod q = a * b mod q)"
    by (simp add: residues_def)
  show "\<forall>a b. a mod q = b mod q \<longrightarrow> G1_Bytes (residues q hash) a = G1_Bytes (residues q hash) b"
    by (simp add: residues_def)
qed (simp_all add: residues_def)

lemma inverses_mod_5: "\<forall>a :: int. a mod 5 \<noteq> 0 \<longrightarrow> (\<exists>b. a * b mod 5 = 1)"
proof (intro allI impI)
  fix a :: int assume "a mod 5 \<noteq> 0"
  moreover have "0 \<le> a mod 5" "a mod 5 < 5" by simp_all
  ultimately consider "a mod 5 = 1" | "a mod 5 = 2" | "a mod 5 = 3" | "a mod 5 = 4" by linarith
  then have "(a mod 5) * 1 mod 5 = 1 \<or> (a mod 5) * 3 mod 5 = 1 \<or> (a mod 5) * 2 mod 5 = 1 \<or> (a mod 5) * 4 mod 5 = 1"
    by cases simp_all
  then show "\<exists>b. a * b mod 5 = 1" unfolding mod_mult_left_eq by blast
qed

definition example_curve :: "(int, int, int, int) curve" where
  "example_curve = residues 5 (\<lambda>b. int (length b) mod 5)"

lemma example_group: "prime_group example_curve 5 (\<lambda>z. z) (\<lambda>g. g)"
  unfolding example_curve_def by (rule residues_prime_group) (simp_all add: inverses_mod_5)

interpretation example: prime_curve example_curve 5 "\<lambda>z. z" "\<lambda>g. g"
  by unfold_locales (rule example_group)

end
