(* ===== verification/TransferProof.thy ===== *)
theory TransferProof
  imports Schnorr
begin

text \<open>
  The proof that a transfer of hidden tokens is well formed: inputs and outputs have the same
  type and the same total value (\<open>token/core/zkatdlog/crypto/transfer/wellformedness.go\<close>), and
  the opening of a token (\<open>crypto/token/token.go\<close>). JSON is a parameter.
\<close>

section \<open>Openings of tokens\<close>

record 'z TokenDataWitness =
  twType :: string
  twValue :: "'z option"
  twBlindingFactor :: "'z option"

definition computeTokens ::
  "'z TokenDataWitness list \<Rightarrow> 'g option list \<Rightarrow> ('g, 'h, 't, 'z) curve \<Rightarrow> 'g list res" where
  "computeTokens tw pp c =
     rmap (\<lambda>w. ComputePedersenCommitment
       [Some (HashToZr c (twType w)), twValue w, twBlindingFactor w] pp (Some c)) tw"

text \<open>The values are converted to \<open>int64\<close> on their way into the group.\<close>

definition GetTokensWithWitness ::
  "'z rng \<Rightarrow> u64 list \<Rightarrow> string \<Rightarrow> 'g option list \<Rightarrow> ('g, 'h, 't, 'z) curve option
   \<Rightarrow> ('g list \<times> 'z TokenDataWitness list) res" where
  "GetTokensWithWitness rand values' ttype pp curve =
     (case curve of
        None \<Rightarrow> Inl (Err ''cannot get tokens with witness: please initialize curve'')
      | Some c \<Rightarrow>
          rbind rand (\<lambda>r.
          let tw = map (\<lambda>(i, v). \<lparr>twType = ttype, twValue = Some (NewZrFromInt c (sint v)),
                                  twBlindingFactor = Some (r i)\<rparr>) (enumerate 0 values')
          in rbind (computeTokens tw pp c) (\<lambda>tokens. Inr (tokens, tw))))"

definition TokenDataWitness_Clone :: "'z TokenDataWitness \<Rightarrow> 'z TokenDataWitness res" where
  "TokenDataWitness_Clone tdw =
     rbind (deref (twValue tdw)) (\<lambda>v. rbind (deref (twBlindingFactor tdw)) (\<lambda>bf.
     Inr \<lparr>twType = twType tdw, twValue = Some v, twBlindingFactor = Some bf\<rparr>))"

section \<open>Proofs and witnesses\<close>

record 'z WellFormedness =
  InputBlindingFactors :: "'z option list"
  OutputBlindingFactors :: "'z option list"
  InputValues :: "'z option list"
  OutputValues :: "'z option list"
  wfType :: "'z option"
  wfSum :: "'z option"
  wfChallenge :: "'z option"

record 'z WellFormednessWitness =
  inValues :: "'z option list"
  outValues :: "'z option list"
  witnessType :: string
  inBlindingFactors :: "'z option list"
  outBlindingFactors :: "'z option list"

definition NewWellFormednessWitness ::
  "'z TokenDataWitness list \<Rightarrow> 'z TokenDataWitness list \<Rightarrow> 'z WellFormednessWitness res" where
  "NewWellFormednessWitness ins outs =
     rbind (at ins 0) (\<lambda>first.
     Inr \<lparr>inValues = map twValue ins, outValues = map twValue outs, witnessType = twType first,
          inBlindingFactors = map twBlindingFactor ins, outBlindingFactors = map twBlindingFactor outs\<rparr>)"

record ('g, 'h, 't, 'z) WellFormednessVerifier =
  wvPedParams :: "'g option list"
  wvCurve :: "('g, 'h, 't, 'z) curve option"
  wvInputs :: "'g option list"
  wvOutputs :: "'g option list"

record ('g, 'h, 't, 'z) WellFormednessProver = "('g, 'h, 't, 'z) WellFormednessVerifier" +
  wpWitness :: "'z WellFormednessWitness"

definition NewWellFormednessVerifier ::
  "'g option list \<Rightarrow> 'g option list \<Rightarrow> 'g option list \<Rightarrow> ('g, 'h, 't, 'z) curve option
   \<Rightarrow> ('g, 'h, 't, 'z) WellFormednessVerifier" where
  "NewWellFormednessVerifier pp inputs outputs c =
     \<lparr>wvPedParams = pp, wvCurve = c, wvInputs = inputs, wvOutputs = outputs\<rparr>"

definition NewWellFormednessProver ::
  "'z WellFormednessWitness \<Rightarrow> 'g option list \<Rightarrow> 'g option list \<Rightarrow> 'g option list
   \<Rightarrow> ('g, 'h, 't, 'z) curve option \<Rightarrow> ('g, 'h, 't, 'z) WellFormednessProver" where
  "NewWellFormednessProver witness pp inputs outputs c =
     \<lparr>wvPedParams = pp, wvCurve = c, wvInputs = inputs, wvOutputs = outputs, wpWitness = witness\<rparr>"

record 'z WellFormednessRandomness =
  rInValues :: "'z list"
  rInBF :: "'z list"
  rOutValues :: "'z list"
  rOutBF :: "'z list"
  rType :: 'z
  rSum :: 'z

record 'g WellFormednessCommitments =
  cInputs :: "'g list"
  cOutputs :: "'g list"
  cInputSum :: 'g
  cOutputSum :: 'g

section \<open>The prover\<close>

text \<open>
  One side of the commitments to the randomness: for each token a commitment, and the sum of
  the blinding factors added to what is there already.
\<close>

definition commit_token ::
  "('g, 'h, 't, 'z) curve \<Rightarrow> 'g \<Rightarrow> 'g \<Rightarrow> 'g \<Rightarrow> 'z \<times> 'z \<Rightarrow> 'g" where
  "commit_token c Q P1 P2 = (\<lambda>(v, bf). G1_Add c (G1_Add c (G1_Mul c P1 v) Q) (G1_Mul c P2 bf))"

definition add_blinding :: "('g, 'h, 't, 'z) curve \<Rightarrow> 'g \<Rightarrow> 'g \<Rightarrow> 'z list \<Rightarrow> 'g" where
  "add_blinding c P2 start bfs = fold (\<lambda>bf s. G1_Add c s (G1_Mul c P2 bf)) bfs start"

text \<open>
  The elements are drawn in the order of the code: the type, the value and the blinding
  factor of each input, the sum, the value and the blinding factor of each output.
\<close>

definition draw_randomness :: "(nat \<Rightarrow> 'z) \<Rightarrow> nat \<Rightarrow> nat \<Rightarrow> 'z WellFormednessRandomness" where
  "draw_randomness r n m =
     \<lparr>rInValues = map (\<lambda>i. r (1 + 2 * i)) [0..<n], rInBF = map (\<lambda>i. r (2 + 2 * i)) [0..<n],
      rOutValues = map (\<lambda>i. r (2 + 2 * n + 2 * i)) [0..<m],
      rOutBF = map (\<lambda>i. r (3 + 2 * n + 2 * i)) [0..<m], rType = r 0, rSum = r (1 + 2 * n)\<rparr>"

definition randomness_commitments ::
  "('g, 'h, 't, 'z) curve \<Rightarrow> 'g \<Rightarrow> 'g \<Rightarrow> 'g \<Rightarrow> 'z WellFormednessRandomness \<Rightarrow> 'g WellFormednessCommitments" where
  "randomness_commitments c P0 P1 P2 rs =
     (let Q = G1_Mul c P0 (rType rs);
          n = length (rInValues rs); m = length (rOutValues rs)
      in \<lparr>cInputs = map (commit_token c Q P1 P2) (zip (rInValues rs) (rInBF rs)),
          cOutputs = map (commit_token c Q P1 P2) (zip (rOutValues rs) (rOutBF rs)),
          cInputSum =
            G1_Add c (G1_Add c (add_blinding c P2 (NewG1 c) (rInBF rs)) (G1_Mul c P1 (rSum rs)))
              (G1_Mul c Q (NewZrFromInt c (int n))),
          cOutputSum =
            add_blinding c P2
              (G1_Add c (G1_Add c (NewG1 c) (G1_Mul c P1 (rSum rs))) (G1_Mul c Q (NewZrFromInt c (int m))))
              (rOutBF rs)\<rparr>)"

definition wf_computeCommitments ::
  "'z rng \<Rightarrow> ('g, 'h, 't, 'z) WellFormednessProver
   \<Rightarrow> ('g WellFormednessCommitments \<times> 'z WellFormednessRandomness) res" where
  "wf_computeCommitments rand p =
     (if length (wvPedParams p) \<noteq> 3 then Inl (Err ''invalid public parameters'')
      else case wvCurve p of
          None \<Rightarrow> Inl (Err ''please initialize curve'')
        | Some c \<Rightarrow>
            (case rand of
               Inl _ \<Rightarrow> Inl (Err ''failed to get random generator'')
             | Inr r \<Rightarrow>
                 (case (wvPedParams p ! 0, wvPedParams p ! 1, wvPedParams p ! 2) of
                    (Some P0, Some P1, Some P2) \<Rightarrow>
                      let rs = draw_randomness r (length (wvInputs p)) (length (wvOutputs p))
                      in Inr (randomness_commitments c P0 P1 P2 rs, rs)
                  | _ \<Rightarrow> Inl (Err ''please provide non-nil Pedersen parameters''))))"

definition prove ::
  "('g, 'h, 't, 'z) curve option \<Rightarrow> 'z \<Rightarrow> 'z option list \<Rightarrow> 'z option list \<Rightarrow> 'z list res" where
  "prove c chal witness randomness =
     Schnorr_Prove \<lparr>svPedParams = [], svCurve = c, Witness = witness, Randomness = randomness,
                    proverChallenge = Some chal\<rparr>"

definition wf_computeProof ::
  "('g, 'h, 't, 'z) WellFormednessProver \<Rightarrow> 'z WellFormednessRandomness \<Rightarrow> 'z \<Rightarrow> 'z WellFormedness res" where
  "wf_computeProof p rs chal =
     (let w = wpWitness p in
      if length (inValues w) \<noteq> length (inBlindingFactors w)
         \<or> length (outValues w) \<noteq> length (outBlindingFactors w)
      then Inl (Err ''proof generation for transfer failed: invalid witness'')
      else if length (rInValues rs) \<noteq> length (inValues w) \<or> length (rOutValues rs) \<noteq> length (outValues w)
         \<or> length (rOutBF rs) \<noteq> length (outBlindingFactors w) \<or> length (rInBF rs) \<noteq> length (inBlindingFactors w)
      then Inl (Err ''proof generation for transfer failed: invalid blindingFactors'')
      else
        rbind (prove (wvCurve p) chal (inValues w) (map Some (rInValues rs))) (\<lambda>iv.
        rbind (prove (wvCurve p) chal (inBlindingFactors w) (map Some (rInBF rs))) (\<lambda>ibf.
        rbind (prove (wvCurve p) chal (outValues w) (map Some (rOutValues rs))) (\<lambda>ov.
        rbind (prove (wvCurve p) chal (outBlindingFactors w) (map Some (rOutBF rs))) (\<lambda>obf.
        rbind (deref (wvCurve p)) (\<lambda>c.
        rbind (prove (wvCurve p) chal [Some (HashToZr c (witnessType w))] [Some (rType rs)]) (\<lambda>typeProof.
        rbind (at typeProof 0) (\<lambda>t.
        rbind (Sum (inValues w) c) (\<lambda>sum.
        rbind (prove (wvCurve p) chal [Some sum] [Some (rSum rs)]) (\<lambda>sumProof.
        rbind (at sumProof 0) (\<lambda>s.
        Inr \<lparr>InputBlindingFactors = map Some ibf, OutputBlindingFactors = map Some obf,
             InputValues = map Some iv, OutputValues = map Some ov, wfType = Some t, wfSum = Some s,
             wfChallenge = Some chal\<rparr>)))))))))))"

definition wf_prove ::
  "'z rng \<Rightarrow> ('g, 'h, 't, 'z) WellFormednessProver \<Rightarrow> 'z WellFormedness res" where
  "wf_prove rand p =
     (let w = wpWitness p in
      if length (inValues w) \<noteq> length (wvInputs p) \<or> length (inBlindingFactors w) \<noteq> length (wvInputs p)
         \<or> length (outValues w) \<noteq> length (wvOutputs p) \<or> length (outBlindingFactors w) \<noteq> length (wvOutputs p)
      then Inl (Err ''cannot compute transfer proof: malformed witness'')
      else
        rbind (wf_computeCommitments rand p) (\<lambda>(cs, rs).
        rbind (deref (wvCurve p)) (\<lambda>c.
        rbind (G1Array_Bytes c (GetG1Array
            [map Some (cInputs cs), [Some (cInputSum cs)], map Some (cOutputs cs), [Some (cOutputSum cs)],
             wvInputs p, wvOutputs p])) (\<lambda>raw.
        wf_computeProof p rs (HashToZr c raw)))))"

definition WellFormedness_Prove ::
  "('z WellFormedness \<Rightarrow> bytes res) \<Rightarrow> 'z rng \<Rightarrow> ('g, 'h, 't, 'z) WellFormednessProver \<Rightarrow> bytes res" where
  "WellFormedness_Prove marshal rand p = rbind (wf_prove rand p) marshal"

section \<open>The verifier\<close>

text \<open>
  The Schnorr proofs of the tokens of one side and of their aggregate. Without a proof of the
  type, or without the order of the group, the product for the aggregate panics.
\<close>

definition parseProof ::
  "('g, 'h, 't, 'z) curve option \<Rightarrow> 'g option list \<Rightarrow> 'z option list \<Rightarrow> 'z option list \<Rightarrow> 'z option \<Rightarrow> 'z option
   \<Rightarrow> ('g, 'z) SchnorrProof list res" where
  "parseProof curve tokens vs randomness ttype tsum =
     (if length vs \<noteq> length tokens \<or> length randomness \<noteq> length tokens
      then Inl (Err ''failed to parse wellformedness proof '')
      else case curve of
          None \<Rightarrow> Inl (Err ''failed to parse wellformedness proof: please initialize curve'')
        | Some c \<Rightarrow>
            rbind (rfold (\<lambda>agg t. case t of None \<Rightarrow> Inl (Err ''invalid wellformedness proof'')
                                         | Some g \<Rightarrow> Inr (G1_Add c agg g)) (NewG1 c) tokens) (\<lambda>aggregate.
            rbind (mod_mul c ttype (Some (NewZrFromInt c (int (length tokens))))) (\<lambda>typ.
            rbind (Sum randomness c) (\<lambda>bf.
            Inr (map (\<lambda>(t, v, r). \<lparr>spStatement = t, spProof = [ttype, v, r], spChallenge = None\<rparr>)
                   (zip tokens (zip vs randomness))
                 @ [\<lparr>spStatement = Some aggregate, spProof = [Some typ, tsum, Some bf], spChallenge = None\<rparr>])))))"

text \<open>The commitments to the randomness, as the verifier computes them from the proof.\<close>

definition wf_recompute ::
  "('g, 'h, 't, 'z) WellFormednessVerifier \<Rightarrow> 'z WellFormedness \<Rightarrow> ('g list \<times> 'g list) res" where
  "wf_recompute v pf =
     (let sv = \<lparr>svPedParams = wvPedParams v, svCurve = wvCurve v\<rparr> in
      rbind (parseProof (wvCurve v) (wvInputs v) (InputValues pf) (InputBlindingFactors pf)
               (wfType pf) (wfSum pf)) (\<lambda>zkps.
      rbind (RecomputeCommitments sv zkps (wfChallenge pf)) (\<lambda>inCommitments.
      rbind (parseProof (wvCurve v) (wvOutputs v) (OutputValues pf) (OutputBlindingFactors pf)
               (wfType pf) (wfSum pf)) (\<lambda>zkps.
      rbind (RecomputeCommitments sv zkps (wfChallenge pf)) (\<lambda>outCommitments.
      Inr (inCommitments, outCommitments))))))"

definition wf_check ::
  "('g, 'h, 't, 'z) WellFormednessVerifier \<Rightarrow> 'z WellFormedness \<Rightarrow> unit res" where
  "wf_check v pf =
     rbind (wf_recompute v pf) (\<lambda>(inCommitments, outCommitments).
     rbind (deref (wvCurve v)) (\<lambda>c.
     rbind (G1Array_Bytes c (GetG1Array
         [map Some inCommitments, map Some outCommitments, wvInputs v, wvOutputs v])) (\<lambda>raw.
     rbind (deref (wfChallenge pf)) (\<lambda>chal.
     if \<not> Zr_Equals c (HashToZr c raw) chal then Inl (Err ''invalid zero-knowledge transfer'') else Inr ()))))"

definition WellFormedness_Verify ::
  "(bytes \<Rightarrow> 'z WellFormedness res) \<Rightarrow> ('g, 'h, 't, 'z) WellFormednessVerifier \<Rightarrow> bytes \<Rightarrow> unit res" where
  "WellFormedness_Verify unmarshal v p = rbind (unmarshal p) (wf_check v)"

end
