(* ===== verification/TransferSound.thy ===== *)
theory TransferSound
  imports TransferProof
begin

text \<open>
  What the proof of a transfer shows: an honest proof is accepted, and from two accepted
  proofs with the same commitments openings of all tokens are computed, of one type, whose
  values balance.
\<close>

definition opens ::
  "('g, 'h, 't, 'z) curve \<Rightarrow> 'g option list \<Rightarrow> 'z \<Rightarrow> 'g \<Rightarrow> 'z \<times> 'z \<Rightarrow> bool" where
  "opens c pp t g = (\<lambda>(v, bf).
     \<exists>com. ComputePedersenCommitment [Some t, Some v, Some bf] pp (Some c) = Inr com \<and> G1_Equals c com g)"

text \<open>
  The openings that two proofs give: the differences of the responses times \<open>d\<close>, which is to
  be the inverse of the difference of the challenges.
\<close>

definition zr_quotient :: "('g, 'h, 't, 'z) curve \<Rightarrow> ('z \<Rightarrow> int) \<Rightarrow> int \<Rightarrow> 'z option \<Rightarrow> 'z option \<Rightarrow> 'z" where
  "zr_quotient c val d a b = NewZrFromInt c ((val (the a) - val (the b)) * d)"

definition zr_quotients ::
  "('g, 'h, 't, 'z) curve \<Rightarrow> ('z \<Rightarrow> int) \<Rightarrow> int \<Rightarrow> 'z option list \<times> 'z option list
   \<Rightarrow> 'z option list \<times> 'z option list \<Rightarrow> ('z \<times> 'z) list" where
  "zr_quotients c val d = (\<lambda>(vs, rs) (vs', rs').
     zip (map2 (zr_quotient c val d) vs vs') (map2 (zr_quotient c val d) rs rs'))"

lemma prefixed_Some: "rfold (\<lambda>agg t. case t of None \<Rightarrow> Inl e | Some g \<Rightarrow> Inr (f agg g)) a ts = Inr b
  \<Longrightarrow> \<exists>gs. ts = map Some gs \<and> b = fold (\<lambda>g a. f a g) gs a"
proof (induction ts arbitrary: a)
  case (Cons t ts)
  then obtain g where t: "t = Some g"
    and r: "rfold (\<lambda>agg t. case t of None \<Rightarrow> Inl e | Some g \<Rightarrow> Inr (f agg g)) (f a g) ts = Inr b"
    by (auto simp: go_simps split: option.splits)
  obtain gs where "ts = map Some gs" "b = fold (\<lambda>g a. f a g) gs (f a g)" using Cons.IH [OF r] by blast
  with t show ?case by (intro exI [of _ "g # gs"]) simp
qed simp

lemma rfold_Some: "rfold (\<lambda>agg t. case t of None \<Rightarrow> Inl e | Some g \<Rightarrow> Inr (f agg g)) a (map Some gs)
  = Inr (fold (\<lambda>g a. f a g) gs a)"
  by (induction gs arbitrary: a) auto

context prime_curve
begin

lemma opens_iff:
  "opens C [Some P0, Some P1, Some P2] t g (v, bf) \<longleftrightarrow>
     eqq (ex g) (ex P0 * val t + ex P1 * val v + ex P2 * val bf)"
proof -
  obtain com where "ComputePedersenCommitment [Some t, Some v, Some bf] [Some P0, Some P1, Some P2] (Some C) = Inr com"
    "eqq (ex com) (lin [P0, P1, P2] [val t, val v, val bf])"
    using Pedersen_value [of "[t, v, bf]" "[P0, P1, P2]"] by auto
  then show ?thesis
    by (simp add: opens_def laws(8) add.assoc) (meson eqq_sym eqq_trans)
qed

lemma fold_Add: "eqq (ex (fold (\<lambda>g a. G1_Add C a g) gs a)) (ex a + sum_list (map ex gs))"
proof (induction gs arbitrary: a)
  case (Cons g gs)
  have "eqq (ex (fold (\<lambda>g a. G1_Add C a g) gs (G1_Add C a g))) (ex (G1_Add C a g) + sum_list (map ex gs))"
    by (rule Cons.IH)
  also have "eqq (ex (G1_Add C a g) + sum_list (map ex gs)) (ex a + ex g + sum_list (map ex gs))"
    by (intro eqq_add laws eqq_refl)
  finally show ?case by (simp add: add.assoc)
qed simp

lemma Sum_value:
  assumes "Sum vs C = Inr s"
  shows "\<exists>zs. vs = map Some zs \<and> eqq (val s) (sum_list (map val zs))"
proof -
  have "rfold (\<lambda>sum v. if v = None then Inl (Err ''invalid value to be summed'') else mod_add C (Some sum) v) a vs = Inr s
     \<Longrightarrow> \<exists>zs. vs = map Some zs \<and> eqq (val s) (val a + sum_list (map val zs))" for a
  proof (induction vs arbitrary: a)
    case (Cons v vs)
    then obtain z b where z: "v = Some z" and b: "mod_add C (Some a) (Some z) = Inr b"
      and r: "rfold (\<lambda>sum v. if v = None then Inl (Err ''invalid value to be summed'') else mod_add C (Some sum) v) b vs = Inr s"
      by (auto simp: go_simps split: if_splits)
    obtain zs where zs: "vs = map Some zs" "eqq (val s) (val b + sum_list (map val zs))"
      using Cons.IH [OF r] by blast
    have "eqq (val b + sum_list (map val zs)) (val a + val z + sum_list (map val zs))"
      by (intro eqq_add mod_add_eq [OF b] eqq_refl)
    with z zs show ?case by (intro exI [of _ "z # zs"]) (simp add: add.assoc, meson eqq_trans)
  qed simp
  with assms obtain zs where zs: "vs = map Some zs" "eqq (val s) (val (NewZrFromInt C 0) + sum_list (map val zs))"
    unfolding Sum_def by blast
  moreover have "eqq (val (NewZrFromInt C 0) + sum_list (map val zs)) (0 + sum_list (map val zs))"
    by (intro eqq_add laws eqq_refl)
  ultimately show ?thesis by (metis add_0 eqq_trans)
qed

lemma Sum_ex: "\<exists>s. Sum (map Some zs) C = Inr s"
proof -
  have "\<exists>s. rfold (\<lambda>sum v. if v = None then Inl (Err ''invalid value to be summed'') else mod_add C (Some sum) v) a (map Some zs) = Inr s" for a
  proof (induction zs arbitrary: a)
    case (Cons z zs)
    obtain b where "mod_add C (Some a) (Some z) = Inr b" using mod_add_ok by blast
    with Cons show ?case by simp
  qed simp
  then show ?thesis by (simp add: Sum_def)
qed


text \<open>
  One side of the proof. The commitments are those of the tokens and, as the last one, that
  of their aggregate.
\<close>

lemma side:
  assumes "parseProof (Some C) tokens vs rs t s = Inr zkps"
    and "RecomputeCommitments \<lparr>svPedParams = [Some P0, Some P1, Some P2], svCurve = Some C\<rparr> zkps ch = Inr coms"
  shows "\<exists>gs vz rz tz sz cz cs a. tokens = map Some gs \<and> vs = map Some vz \<and> rs = map Some rz
    \<and> t = Some tz \<and> s = Some sz \<and> ch = Some cz \<and> coms = cs @ [a]
    \<and> length vz = length gs \<and> length rz = length gs \<and> length cs = length gs
    \<and> (\<forall>i < length gs. eqq (ex (cs ! i))
         (ex P0 * val tz + ex P1 * val (vz ! i) + ex P2 * val (rz ! i) - ex (gs ! i) * val cz))
    \<and> eqq (ex a) (ex P0 * (val tz * int (length gs)) + ex P1 * val sz
         + ex P2 * sum_list (map val rz) - sum_list (map ex gs) * val cz)"
proof -
  let ?v = "\<lparr>svPedParams = [Some P0, Some P1, Some P2], svCurve = Some C\<rparr>"
  note R = Recompute_value [of ?v _ _ "[P0, P1, P2]", simplified]
  from assms(1) obtain agg ty bf where len: "length vs = length tokens" "length rs = length tokens"
    and agg: "rfold (\<lambda>agg t. case t of None \<Rightarrow> Inl (Err ''invalid wellformedness proof'')
        | Some g \<Rightarrow> Inr (G1_Add C agg g)) (NewG1 C) tokens = Inr agg"
    and ty: "mod_mul C t (Some (NewZrFromInt C (int (length tokens)))) = Inr ty"
    and bf: "Sum rs C = Inr bf"
    and zkps: "zkps = map (\<lambda>(t', v, r). \<lparr>spStatement = t', spProof = [t, v, r], spChallenge = None\<rparr>)
                   (zip tokens (zip vs rs))
                 @ [\<lparr>spStatement = Some agg, spProof = [Some ty, s, Some bf], spChallenge = None\<rparr>]"
    by (auto simp: parseProof_def go_simps split: if_splits)
  from ty obtain tz where t: "t = Some tz" by (auto simp: mod_mul_def go_simps)
  from prefixed_Some [OF agg] fold_Add obtain gs where gs: "tokens = map Some gs"
    "eqq (ex agg) (ex (NewG1 C) + sum_list (map ex gs))" by metis
  from Sum_value [OF bf] obtain rz where rz: "rs = map Some rz" "eqq (val bf) (sum_list (map val rz))" by blast
  let ?n = "length gs"
  have n: "length vs = ?n" "length rz = ?n" "length tokens = ?n" using len gs(1) rz(1) by auto
  from assms(2) have all: "list_all2 (\<lambda>zkp com. RecomputeCommitment ?v (zkp\<lparr>spChallenge := ch\<rparr>) = Inr com) zkps coms"
    by (simp add: RecomputeCommitments_def rmap_eq_Inr_iff)
  then have lc: "length coms = Suc ?n" using n rz(1) by (auto dest: list_all2_lengthD simp: zkps)
  define cs where "cs = take ?n coms"
  define a where "a = coms ! ?n"
  have coms: "coms = cs @ [a]" using lc by (simp add: cs_def a_def take_Suc_conv_app_nth [symmetric])
  have each: "RecomputeCommitment ?v \<lparr>spStatement = Some (gs ! i), spProof = [Some tz, vs ! i, Some (rz ! i)], spChallenge = ch\<rparr> = Inr (cs ! i)"
    if "i < ?n" for i
    using list_all2_nthD2 [OF all, of i] that lc n by (simp add: zkps cs_def gs rz t nth_append)
  have last: "RecomputeCommitment ?v \<lparr>spStatement = Some agg, spProof = [Some ty, s, Some bf], spChallenge = ch\<rparr> = Inr a"
    using list_all2_nthD2 [OF all, of ?n] lc n rz(1) by (simp add: zkps a_def nth_append)
  from R [OF last] obtain sz cz where sz: "s = Some sz" "ch = Some cz"
    and a: "eqq (ex a) (lin [P0, P1, P2] [val ty, val sz, val bf] - ex agg * val cz)"
    by (auto simp: map_eq_Cons_conv Cons_eq_map_conv)
  have vi: "\<exists>z. vs ! i = Some z \<and> eqq (ex (cs ! i))
      (ex P0 * val tz + ex P1 * val z + ex P2 * val (rz ! i) - ex (gs ! i) * val cz)" if "i < ?n" for i
    using R [OF each [OF that]] by (auto simp: sz Cons_eq_map_conv add.assoc)
  define vz where "vz = map the vs"
  have "None \<notin> set vs" using vi n(1) by (metis in_set_conv_nth option.distinct(1))
  then have vz: "vs = map Some vz" unfolding vz_def by (rule map_Some_the)
  have v: "eqq (ex (cs ! i)) (ex P0 * val tz + ex P1 * val (vz ! i) + ex P2 * val (rz ! i) - ex (gs ! i) * val cz)"
    if "i < ?n" for i
    using vi [OF that] that n(1) by (auto simp: vz)
  have "eqq (val ty) (val tz * int ?n)"
    using eqq_trans [OF mod_mul_eq [OF ty [unfolded t]] eqq_mult [OF eqq_refl laws(5)]] n(3) by simp
  moreover have "eqq (ex agg) (sum_list (map ex gs))"
    using eqq_trans [OF gs(2) eqq_add [OF laws(1) eqq_refl]] by simp
  ultimately have "eqq (lin [P0, P1, P2] [val ty, val sz, val bf] - ex agg * val cz)
      (ex P0 * (val tz * int ?n) + ex P1 * val sz + ex P2 * sum_list (map val rz) - sum_list (map ex gs) * val cz)"
    using rz(2) by (simp add: add.assoc) (intro eqq_diff eqq_add eqq_mult eqq_refl)
  with a have "eqq (ex a) (ex P0 * (val tz * int ?n) + ex P1 * val sz + ex P2 * sum_list (map val rz)
      - sum_list (map ex gs) * val cz)" by (rule eqq_trans)
  with gs(1) vz rz(1) t sz coms n v show ?thesis
    by (intro exI [of _ gs] exI [of _ vz] exI [of _ rz] exI [of _ tz] exI [of _ sz] exI [of _ cz]
        exI [of _ cs] exI [of _ a]) (simp add: cs_def lc)
qed


lemma eqq_sum: "(\<And>i. i < n \<Longrightarrow> eqq (f i) (g i)) \<Longrightarrow> eqq (\<Sum>i<n. f i) (\<Sum>i<(n::nat). g i)"
  by (induction n) (auto intro: eqq_add)

lemma sum_indexed: "sum_list (map f xs) = (\<Sum>i<length xs. f (xs ! i) :: int)"
  by (simp add: sum_list_sum_nth atLeast0LessThan)

text \<open>The same commitments with two challenges: the statement is the difference of the responses.\<close>

lemma difference:
  assumes "eqq a (l - x * c)" and "eqq a (l' - x * c')" and "eqq ((c - c') * d) 1"
  shows "eqq x ((l - l') * d)"
proof -
  have "eqq (x * (c - c')) (l - l')"
    using assms(1,2) by (intro eqq_swap) (meson eqq_sym eqq_trans)
  then have "eqq (x * (c - c') * d) ((l - l') * d)" by (rule eqq_mult) simp
  moreover have "eqq (x * ((c - c') * d)) (x * 1)" by (rule eqq_mult [OF eqq_refl assms(3)])
  ultimately show ?thesis by (metis eqq_sym eqq_trans mult.assoc mult_1_right)
qed

lemma side_sound:
  assumes "parseProof (Some C) tokens vs rs (Some tz) (Some sz) = Inr zkps"
    and "RecomputeCommitments \<lparr>svPedParams = [Some P0, Some P1, Some P2], svCurve = Some C\<rparr> zkps (Some cz) = Inr coms"
    and "parseProof (Some C) tokens vs' rs' (Some tz') (Some sz') = Inr zkps'"
    and "RecomputeCommitments \<lparr>svPedParams = [Some P0, Some P1, Some P2], svCurve = Some C\<rparr> zkps' (Some cz') = Inr coms"
    and d: "eqq ((val cz - val cz') * d) 1" and P1: "ex P1 mod q \<noteq> 0"
  shows "\<exists>gs. tokens = map Some gs
    \<and> list_all2 (opens C [Some P0, Some P1, Some P2] (zr_quotient C val d (Some tz) (Some tz'))) gs
        (zr_quotients C val d (vs, rs) (vs', rs'))
    \<and> eqq (sum_list (map (val \<circ> fst) (zr_quotients C val d (vs, rs) (vs', rs')))) ((val sz - val sz') * d)"
proof -
  have inj: "map Some xs = map Some ys \<longleftrightarrow> xs = ys" for xs ys :: "'y list"
    by (simp add: inj_map_eq_map)
  from side [OF assms(1,2)] obtain gs vz rz cs a where 1: "tokens = map Some gs" "coms = cs @ [a]"
    "length vz = length gs" "length rz = length gs" and m1: "vs = map Some vz" "rs = map Some rz"
    and c1: "\<And>i. i < length gs \<Longrightarrow> eqq (ex (cs ! i))
         (ex P0 * val tz + ex P1 * val (vz ! i) + ex P2 * val (rz ! i) - ex (gs ! i) * val cz)"
    and a1: "eqq (ex a) (ex P0 * (val tz * int (length gs)) + ex P1 * val sz
         + ex P2 * sum_list (map val rz) - sum_list (map ex gs) * val cz)" by auto
  from side [OF assms(3,4)] 1(1,2) obtain vz' rz' where 2: "length vz' = length gs" "length rz' = length gs"
    and m2: "vs' = map Some vz'" "rs' = map Some rz'"
    and c2: "\<And>i. i < length gs \<Longrightarrow> eqq (ex (cs ! i))
         (ex P0 * val tz' + ex P1 * val (vz' ! i) + ex P2 * val (rz' ! i) - ex (gs ! i) * val cz')"
    and a2: "eqq (ex a) (ex P0 * (val tz' * int (length gs)) + ex P1 * val sz'
         + ex P2 * sum_list (map val rz') - sum_list (map ex gs) * val cz')" by (auto simp: inj)
  let ?n = "length gs"
  define T where "T = (val tz - val tz') * d"
  define V where "V i = (val (vz ! i) - val (vz' ! i)) * d" for i
  define R where "R i = (val (rz ! i) - val (rz' ! i)) * d" for i
  define S where "S = (val sz - val sz') * d"
  define os where "os = map (\<lambda>i. (NewZrFromInt C (V i), NewZrFromInt C (R i))) [0..<?n]"
  have x: "eqq (ex (gs ! i)) (ex P0 * T + ex P1 * V i + ex P2 * R i)" if "i < ?n" for i
    using difference [OF c1 [OF that] c2 [OF that] d] by (simp add: T_def V_def R_def algebra_simps)
  have all: "list_all2 (opens C [Some P0, Some P1, Some P2] (NewZrFromInt C T)) gs os"
  proof (rule list_all2_all_nthI)
    fix i assume i: "i < length gs"
    have "eqq (ex P0 * T + ex P1 * V i + ex P2 * R i) (ex P0 * val (NewZrFromInt C T)
        + ex P1 * val (NewZrFromInt C (V i)) + ex P2 * val (NewZrFromInt C (R i)))"
      by (intro eqq_add eqq_mult eqq_refl eqq_sym [OF laws(5)])
    with x [OF i] have "eqq (ex (gs ! i)) (ex P0 * val (NewZrFromInt C T)
        + ex P1 * val (NewZrFromInt C (V i)) + ex P2 * val (NewZrFromInt C (R i)))" by (rule eqq_trans)
    with i show "opens C [Some P0, Some P1, Some P2] (NewZrFromInt C T) (gs ! i) (os ! i)"
      by (simp add: os_def opens_iff)
  qed (simp add: os_def)
  have "eqq (sum_list (map ex gs)) ((ex P0 * (val tz * int ?n) + ex P1 * val sz + ex P2 * sum_list (map val rz)
      - (ex P0 * (val tz' * int ?n) + ex P1 * val sz' + ex P2 * sum_list (map val rz'))) * d)"
    by (rule difference [OF a1 a2 d])
  also have "\<dots> = ex P0 * (T * int ?n) + ex P1 * S + ex P2 * ((sum_list (map val rz) - sum_list (map val rz')) * d)"
    by (simp add: T_def S_def algebra_simps)
  also have "(sum_list (map val rz) - sum_list (map val rz')) * d = (\<Sum>i<?n. R i)"
    unfolding sum_indexed 1(4) 2(2) R_def sum_subtractf [symmetric] sum_distrib_right ..
  finally have agg: "eqq (sum_list (map ex gs)) (ex P0 * (T * int ?n) + ex P1 * S + ex P2 * (\<Sum>i<?n. R i))" .
  have "eqq (sum_list (map ex gs)) (\<Sum>i<?n. ex P0 * T + ex P1 * V i + ex P2 * R i)"
    unfolding sum_indexed by (rule eqq_sum) (rule x)
  also have "(\<Sum>i<?n. ex P0 * T + ex P1 * V i + ex P2 * R i)
      = ex P0 * (T * int ?n) + ex P1 * (\<Sum>i<?n. V i) + ex P2 * (\<Sum>i<?n. R i)"
    by (simp add: sum.distrib sum_distrib_left)
  finally have "eqq (ex P0 * (T * int ?n) + ex P1 * S + ex P2 * (\<Sum>i<?n. R i))
      (ex P0 * (T * int ?n) + ex P1 * (\<Sum>i<?n. V i) + ex P2 * (\<Sum>i<?n. R i))"
    using agg by (meson eqq_sym eqq_trans)
  then have "eqq (ex P1 * S) (ex P1 * (\<Sum>i<?n. V i))" by (simp add: eqq_dvd)
  then have "eqq S (\<Sum>i<?n. V i)" by (rule eqq_cancel [OF P1])
  moreover have "eqq (sum_list (map (val \<circ> fst) os)) (\<Sum>i<?n. V i)"
    unfolding sum_indexed by (simp add: os_def, rule eqq_sum, rule laws)
  ultimately have "eqq (sum_list (map (val \<circ> fst) os)) S" by (meson eqq_sym eqq_trans)
  moreover have "zr_quotients C val d (vs, rs) (vs', rs') = os"
    using 1(3,4) 2 by (auto simp: zr_quotients_def zr_quotient_def os_def m1 m2 V_def R_def intro!: nth_equalityI)
  ultimately show ?thesis using 1(1) all unfolding T_def S_def zr_quotient_def by auto
qed


text \<open>The hash function does not take part in what the verifier recomputes.\<close>

lemma wf_recompute_hash:
  "wf_recompute (NewWellFormednessVerifier pp inputs outputs (Some (C\<lparr>HashToZr := h\<rparr>)))
   = wf_recompute (NewWellFormednessVerifier pp inputs outputs (Some C))"
proof -
  have 1: "add_response (C\<lparr>HashToZr := h\<rparr>) = add_response C" "mod_mul (C\<lparr>HashToZr := h\<rparr>) = mod_mul C"
    "mod_add (C\<lparr>HashToZr := h\<rparr>) = mod_add C"
    by (simp_all add: add_response_def mod_mul_def mod_add_def fun_eq_iff)
  have S: "Sum rs (C\<lparr>HashToZr := h\<rparr>) = Sum rs C" for rs
    unfolding Sum_def 1(3) by simp
  have 2: "parseProof (Some (C\<lparr>HashToZr := h\<rparr>)) ts vs rs t s = parseProof (Some C) ts vs rs t s" for ts vs rs t s
    by (simp add: parseProof_def S 1)
  have 3: "RecomputeCommitment \<lparr>svPedParams = pp, svCurve = Some (C\<lparr>HashToZr := h\<rparr>)\<rparr> z
      = RecomputeCommitment \<lparr>svPedParams = pp, svCurve = Some C\<rparr> z" for z
    by (cases "spChallenge z"; cases "spStatement z") (simp_all add: RecomputeCommitment_def 1)
  show ?thesis
    by (rule ext) (simp add: wf_recompute_def RecomputeCommitments_def NewWellFormednessVerifier_def Let_def 2 3)
qed

text \<open>An accepted proof answers the challenge that is the hash of its commitments.\<close>

lemma wf_check_challenge:
  assumes "wf_check (NewWellFormednessVerifier pp inputs outputs (Some (C\<lparr>HashToZr := h\<rparr>))) pf = Inr ()"
    and "wf_recompute (NewWellFormednessVerifier pp inputs outputs (Some C)) pf = Inr (ci, co)"
    and "G1Array_Bytes C (GetG1Array [map Some ci, map Some co, inputs, outputs]) = Inr raw"
  shows "\<exists>c. wfChallenge pf = Some c \<and> eqq (val (h raw)) (val c)"
proof -
  have "G1Array_Bytes (C\<lparr>HashToZr := h\<rparr>) = G1Array_Bytes C" by (simp add: G1Array_Bytes_def fun_eq_iff cong: option.case_cong)
  with assms wf_recompute_hash show ?thesis
    by (auto simp: wf_check_def go_simps NewWellFormednessVerifier_def dest: laws(7) split: if_splits)
qed

lemma two_proofs:
  assumes P1: "ex P1 mod q \<noteq> 0"
    and v: "v = NewWellFormednessVerifier [Some P0, Some P1, Some P2] inputs outputs (Some C)"
    and r: "wf_recompute v pf = Inr coms" and r': "wf_recompute v pf' = Inr coms"
    and c: "wfChallenge pf = Some c" "wfChallenge pf' = Some c'" and d: "eqq ((val c - val c') * d) 1"
  shows "\<exists>ins outs. inputs = map Some ins \<and> outputs = map Some outs
    \<and> list_all2 (opens C [Some P0, Some P1, Some P2] (zr_quotient C val d (wfType pf) (wfType pf'))) ins
        (zr_quotients C val d (InputValues pf, InputBlindingFactors pf) (InputValues pf', InputBlindingFactors pf'))
    \<and> list_all2 (opens C [Some P0, Some P1, Some P2] (zr_quotient C val d (wfType pf) (wfType pf'))) outs
        (zr_quotients C val d (OutputValues pf, OutputBlindingFactors pf) (OutputValues pf', OutputBlindingFactors pf'))
    \<and> eqq (sum_list (map (val \<circ> fst)
          (zr_quotients C val d (InputValues pf, InputBlindingFactors pf) (InputValues pf', InputBlindingFactors pf'))))
        (sum_list (map (val \<circ> fst)
          (zr_quotients C val d (OutputValues pf, OutputBlindingFactors pf) (OutputValues pf', OutputBlindingFactors pf'))))"
proof -
  let ?v = "\<lparr>svPedParams = [Some P0, Some P1, Some P2], svCurve = Some C\<rparr>"
  obtain ci co where coms: "coms = (ci, co)" by (cases coms)
  from r coms c obtain z1 z2 where
    1: "parseProof (Some C) inputs (InputValues pf) (InputBlindingFactors pf) (wfType pf) (wfSum pf) = Inr z1"
       "RecomputeCommitments ?v z1 (Some c) = Inr ci"
    and 2: "parseProof (Some C) outputs (OutputValues pf) (OutputBlindingFactors pf) (wfType pf) (wfSum pf) = Inr z2"
       "RecomputeCommitments ?v z2 (Some c) = Inr co"
    by (auto simp: wf_recompute_def v NewWellFormednessVerifier_def go_simps Let_def)
  from r' coms c obtain z1' z2' where
    b1: "parseProof (Some C) inputs (InputValues pf') (InputBlindingFactors pf') (wfType pf') (wfSum pf') = Inr z1'"
       "RecomputeCommitments ?v z1' (Some c') = Inr ci"
    and b2: "parseProof (Some C) outputs (OutputValues pf') (OutputBlindingFactors pf') (wfType pf') (wfSum pf') = Inr z2'"
       "RecomputeCommitments ?v z2' (Some c') = Inr co"
    by (auto simp: wf_recompute_def v NewWellFormednessVerifier_def go_simps Let_def)
  from side [OF 1] obtain tz sz where ts: "wfType pf = Some tz" "wfSum pf = Some sz" by blast
  from side [OF b1] obtain tz' sz' where ts': "wfType pf' = Some tz'" "wfSum pf' = Some sz'" by blast
  note i = side_sound [OF 1(1) [unfolded ts] 1(2) b1(1) [unfolded ts'] b1(2) d P1]
  note out = side_sound [OF 2(1) [unfolded ts] 2(2) b2(1) [unfolded ts'] b2(2) d P1]
  obtain gi go where g: "inputs = map Some gi" "outputs = map Some go" using i out by blast
  have gg: "map Some xs = map Some ys \<longleftrightarrow> xs = ys" for xs ys :: "'y list"
    by (simp add: inj_map_eq_map)
  show ?thesis
    unfolding ts ts' by (rule exI [of _ gi], rule exI [of _ go], intro conjI g)
      (use i out in \<open>auto simp: g gg intro: eqq_trans [OF _ eqq_sym]\<close>)
qed

subsection \<open>The honest prover\<close>

lemma prove_value:
  assumes "length ws = length rs"
  shows "\<exists>ps. prove (Some C) chal (map Some ws) (map Some rs) = Inr ps \<and> length ps = length ws
    \<and> (\<forall>i < length ws. eqq (val (ps ! i)) (val chal * val (ws ! i) + val (rs ! i)))"
proof -
  have one: "\<exists>p. schnorr_response C (Some chal) (Some w, Some r) = Inr p \<and> eqq (val p) (val chal * val w + val r)" for w r
  proof -
    obtain m where m: "mod_mul C (Some chal) (Some w) = Inr m" "eqq (val m) (val chal * val w)"
      using mod_mul_ok by blast
    obtain p where p: "mod_add C (Some m) (Some r) = Inr p" "eqq (val p) (val m + val r)"
      using mod_add_ok by blast
    have "eqq (val p) (val chal * val w + val r)"
      using p(2) m(2) by (meson eqq_add eqq_refl eqq_trans)
    with m p show ?thesis by (simp add: schnorr_response_def)
  qed
  obtain n where n: "GroupOrder C = Some n" using order by metis
  have "\<exists>ps. rmap (schnorr_response C (Some chal)) (zip (map Some ws) (map Some rs)) = Inr ps \<and> length ps = length ws
    \<and> (\<forall>i < length ws. eqq (val (ps ! i)) (val chal * val (ws ! i) + val (rs ! i)))"
    using assms
  proof (induction ws rs rule: list_induct2)
    case (Cons w ws r rs)
    then obtain ps where ps: "rmap (schnorr_response C (Some chal)) (zip (map Some ws) (map Some rs)) = Inr ps"
      "length ps = length ws" "\<forall>i < length ws. eqq (val (ps ! i)) (val chal * val (ws ! i) + val (rs ! i))" by blast
    obtain p where p: "schnorr_response C (Some chal) (Some w, Some r) = Inr p" "eqq (val p) (val chal * val w + val r)"
      using one by blast
    from ps p show ?case by (intro exI [of _ "p # ps"]) (auto simp: nth_Cons split: nat.split)
  qed simp
  with n assms show ?thesis by (simp add: prove_def Schnorr_Prove_def)
qed

lemma side_ex:
  assumes "length vz = length gs" and "length rz = length gs"
  shows "\<exists>zkps coms. parseProof (Some C) (map Some gs) (map Some vz) (map Some rz) (Some tz) (Some sz) = Inr zkps
    \<and> RecomputeCommitments \<lparr>svPedParams = [Some P0, Some P1, Some P2], svCurve = Some C\<rparr> zkps (Some cz) = Inr coms"
proof -
  let ?v = "\<lparr>svPedParams = [Some P0, Some P1, Some P2], svCurve = Some C\<rparr>"
  obtain ty where ty: "mod_mul C (Some tz) (Some (NewZrFromInt C (int (length gs)))) = Inr ty"
    using mod_mul_ok by blast
  obtain bf where bf: "Sum (map Some rz) C = Inr bf" using Sum_ex by blast
  have R: "\<exists>com. RecomputeCommitment ?v \<lparr>spStatement = Some st, spProof = [Some a, Some b, Some c], spChallenge = Some ch\<rparr> = Inr com"
    for st a b c ch
    using Recompute_ex [of ?v "[P0, P1, P2]" "[a, b, c]"] by simp
  have ex: "\<exists>coms. rmap f xs = Inr coms" if "\<And>x. x \<in> set xs \<Longrightarrow> \<exists>y. f x = Inr y" for f :: "'x \<Rightarrow> 'y res" and xs
    using that
  proof (induction xs)
    case (Cons x xs)
    then obtain y ys where "f x = Inr y" "rmap f xs = Inr ys" by (metis list.set_intros)
    then show ?case by simp
  qed simp
  let ?zs = "map (\<lambda>(t, v, r). \<lparr>spStatement = t, spProof = [Some tz, v, r], spChallenge = None\<rparr>)
      (zip (map Some gs) (zip (map Some vz) (map Some rz)))
    @ [\<lparr>spStatement = Some (fold (\<lambda>g a. G1_Add C a g) gs (NewG1 C)), spProof = [Some ty, Some sz, Some bf], spChallenge = None\<rparr>]"
  have "parseProof (Some C) (map Some gs) (map Some vz) (map Some rz) (Some tz) (Some sz) = Inr ?zs"
    using assms by (simp add: parseProof_def rfold_Some ty bf)
  moreover have "\<exists>coms. RecomputeCommitments ?v ?zs (Some cz) = Inr coms"
    unfolding RecomputeCommitments_def
    by (rule ex) (auto simp: zip_map1 zip_map2 R)
  ultimately show ?thesis by blast
qed

lemma side_complete:
  assumes "length vz = length gs" and "length rz = length gs"
    and x: "\<And>i. i < length gs \<Longrightarrow> eqq (ex (gs ! i)) (ex P0 * \<tau> + ex P1 * v i + ex P2 * b i)"
    and vz: "\<And>i. i < length gs \<Longrightarrow> eqq (val (vz ! i)) (val cz * v i + \<rho> i)"
    and rz: "\<And>i. i < length gs \<Longrightarrow> eqq (val (rz ! i)) (val cz * b i + \<beta> i)"
    and tz: "eqq (val tz) (val cz * \<tau> + \<rho>t)"
    and sz: "eqq (val sz) (val cz * (\<Sum>i<length gs. v i) + \<rho>s)"
  shows "\<exists>zkps cs a. parseProof (Some C) (map Some gs) (map Some vz) (map Some rz) (Some tz) (Some sz) = Inr zkps
    \<and> RecomputeCommitments \<lparr>svPedParams = [Some P0, Some P1, Some P2], svCurve = Some C\<rparr> zkps (Some cz) = Inr (cs @ [a])
    \<and> length cs = length gs
    \<and> (\<forall>i < length gs. eqq (ex (cs ! i)) (ex P0 * \<rho>t + ex P1 * \<rho> i + ex P2 * \<beta> i))
    \<and> eqq (ex a) (ex P0 * (\<rho>t * int (length gs)) + ex P1 * \<rho>s + ex P2 * (\<Sum>i<length gs. \<beta> i))"
proof -
  let ?n = "length gs" and ?c = "val cz"
  have inj: "map Some xs = map Some ys \<longleftrightarrow> xs = ys" for xs ys :: "'y list"
    by (simp add: inj_map_eq_map)
  obtain zkps coms where z: "parseProof (Some C) (map Some gs) (map Some vz) (map Some rz) (Some tz) (Some sz) = Inr zkps"
    "RecomputeCommitments \<lparr>svPedParams = [Some P0, Some P1, Some P2], svCurve = Some C\<rparr> zkps (Some cz) = Inr coms"
    using side_ex [OF assms(1,2)] by blast
  from side [OF z] obtain cs a where 1: "coms = cs @ [a]" "length cs = ?n"
    and c: "\<And>i. i < ?n \<Longrightarrow> eqq (ex (cs ! i))
         (ex P0 * val tz + ex P1 * val (vz ! i) + ex P2 * val (rz ! i) - ex (gs ! i) * ?c)"
    and a: "eqq (ex a) (ex P0 * (val tz * int ?n) + ex P1 * val sz
         + ex P2 * sum_list (map val rz) - sum_list (map ex gs) * ?c)" by (auto simp: inj)
  have "eqq (ex (cs ! i)) (ex P0 * \<rho>t + ex P1 * \<rho> i + ex P2 * \<beta> i)" if i: "i < ?n" for i
  proof -
    have "eqq (ex P0 * val tz + ex P1 * val (vz ! i) + ex P2 * val (rz ! i) - ex (gs ! i) * ?c)
        (ex P0 * (?c * \<tau> + \<rho>t) + ex P1 * (?c * v i + \<rho> i) + ex P2 * (?c * b i + \<beta> i)
          - (ex P0 * \<tau> + ex P1 * v i + ex P2 * b i) * ?c)"
      by (intro eqq_diff eqq_add eqq_mult eqq_refl tz vz rz x i)
    also have "\<dots> = ex P0 * \<rho>t + ex P1 * \<rho> i + ex P2 * \<beta> i" by (simp add: algebra_simps)
    finally show ?thesis using c [OF i] by (rule eqq_trans [rotated])
  qed
  moreover have "eqq (ex a) (ex P0 * (\<rho>t * int ?n) + ex P1 * \<rho>s + ex P2 * (\<Sum>i<?n. \<beta> i))"
  proof -
    have "eqq (sum_list (map ex gs)) (\<Sum>i<?n. ex P0 * \<tau> + ex P1 * v i + ex P2 * b i)"
      unfolding sum_indexed by (rule eqq_sum) (rule x)
    also have "(\<Sum>i<?n. ex P0 * \<tau> + ex P1 * v i + ex P2 * b i)
        = ex P0 * (\<tau> * int ?n) + ex P1 * (\<Sum>i<?n. v i) + ex P2 * (\<Sum>i<?n. b i)"
      by (simp add: sum.distrib sum_distrib_left)
    finally have X: "eqq (sum_list (map ex gs))
      (ex P0 * (\<tau> * int ?n) + ex P1 * (\<Sum>i<?n. v i) + ex P2 * (\<Sum>i<?n. b i))" .
    have "eqq (sum_list (map val rz)) (\<Sum>i<?n. ?c * b i + \<beta> i)"
      unfolding sum_indexed assms(2) by (rule eqq_sum) (rule rz)
    also have "(\<Sum>i<?n. ?c * b i + \<beta> i) = ?c * (\<Sum>i<?n. b i) + (\<Sum>i<?n. \<beta> i)"
      by (simp add: sum.distrib sum_distrib_left)
    finally have B: "eqq (sum_list (map val rz)) (?c * (\<Sum>i<?n. b i) + (\<Sum>i<?n. \<beta> i))" .
    have "eqq (ex P0 * (val tz * int ?n) + ex P1 * val sz + ex P2 * sum_list (map val rz) - sum_list (map ex gs) * ?c)
       (ex P0 * ((?c * \<tau> + \<rho>t) * int ?n) + ex P1 * (?c * (\<Sum>i<?n. v i) + \<rho>s)
         + ex P2 * (?c * (\<Sum>i<?n. b i) + (\<Sum>i<?n. \<beta> i))
         - (ex P0 * (\<tau> * int ?n) + ex P1 * (\<Sum>i<?n. v i) + ex P2 * (\<Sum>i<?n. b i)) * ?c)"
      by (intro eqq_diff eqq_add eqq_mult eqq_refl tz sz B X)
    also have "\<dots> = ex P0 * (\<rho>t * int ?n) + ex P1 * \<rho>s + ex P2 * (\<Sum>i<?n. \<beta> i)"
      by (simp add: algebra_simps)
    finally show ?thesis using a by (rule eqq_trans [rotated])
  qed
  ultimately show ?thesis using z 1 by blast
qed


lemma commit_token_value:
  "eqq (ex (commit_token C (G1_Mul C P0 t) P1 P2 (v, bf))) (ex P0 * val t + ex P1 * val v + ex P2 * val bf)"
proof -
  have "eqq (ex (commit_token C (G1_Mul C P0 t) P1 P2 (v, bf)))
      (ex (G1_Mul C P1 v) + ex (G1_Mul C P0 t) + ex (G1_Mul C P2 bf))"
    unfolding commit_token_def prod.case by (meson laws(2) eqq_add eqq_refl eqq_trans)
  also have "eqq \<dots> (ex P1 * val v + ex P0 * val t + ex P2 * val bf)"
    by (intro eqq_add laws)
  finally show ?thesis by (simp add: add.commute)
qed

lemma add_blinding_value:
  "eqq (ex (add_blinding C P2 start bfs)) (ex start + ex P2 * sum_list (map val bfs))"
proof (induction bfs arbitrary: start)
  case (Cons bf bfs)
  have "eqq (ex (add_blinding C P2 start (bf # bfs)))
      (ex (G1_Add C start (G1_Mul C P2 bf)) + ex P2 * sum_list (map val bfs))"
    using Cons.IH [of "G1_Add C start (G1_Mul C P2 bf)"] by (simp add: add_blinding_def)
  also have "eqq (ex (G1_Add C start (G1_Mul C P2 bf)) + ex P2 * sum_list (map val bfs))
      (ex start + ex P2 * val bf + ex P2 * sum_list (map val bfs))"
    by (intro eqq_add eqq_refl) (meson laws(2,4) eqq_add eqq_refl eqq_trans)
  finally show ?case by (simp add: distrib_left add.assoc)
qed (simp add: add_blinding_def)

lemma input_sum_value:
  "eqq (ex (cInputSum (randomness_commitments C P0 P1 P2 rs)))
     (ex P0 * (val (rType rs) * int (length (rInValues rs))) + ex P1 * val (rSum rs)
       + ex P2 * sum_list (map val (rInBF rs)))"
proof -
  have "eqq (ex (cInputSum (randomness_commitments C P0 P1 P2 rs)))
      (ex (add_blinding C P2 (NewG1 C) (rInBF rs)) + ex (G1_Mul C P1 (rSum rs))
        + ex (G1_Mul C (G1_Mul C P0 (rType rs)) (NewZrFromInt C (int (length (rInValues rs))))))"
    unfolding randomness_commitments_def Let_def WellFormednessCommitments.simps
    by (meson laws(2) eqq_add eqq_refl eqq_trans)
  also have "eqq \<dots> ((0 + ex P2 * sum_list (map val (rInBF rs))) + ex P1 * val (rSum rs)
        + ex P0 * val (rType rs) * int (length (rInValues rs)))"
  proof (intro eqq_add laws)
    show "eqq (ex (add_blinding C P2 (NewG1 C) (rInBF rs))) (0 + ex P2 * sum_list (map val (rInBF rs)))"
      by (rule eqq_trans [OF add_blinding_value]) (intro eqq_add laws eqq_refl)
    show "eqq (ex (G1_Mul C (G1_Mul C P0 (rType rs)) (NewZrFromInt C (int (length (rInValues rs))))))
        (ex P0 * val (rType rs) * int (length (rInValues rs)))"
      by (rule eqq_trans [OF laws(4)]) (intro eqq_mult laws)
  qed
  finally show ?thesis by (simp add: add_ac mult.assoc)
qed

lemma output_sum_value:
  "eqq (ex (cOutputSum (randomness_commitments C P0 P1 P2 rs)))
     (ex P0 * (val (rType rs) * int (length (rOutValues rs))) + ex P1 * val (rSum rs)
       + ex P2 * sum_list (map val (rOutBF rs)))"
proof -
  let ?Q = "G1_Mul C (G1_Mul C P0 (rType rs)) (NewZrFromInt C (int (length (rOutValues rs))))"
  have "eqq (ex (cOutputSum (randomness_commitments C P0 P1 P2 rs)))
      (ex (G1_Add C (G1_Add C (NewG1 C) (G1_Mul C P1 (rSum rs))) ?Q) + ex P2 * sum_list (map val (rOutBF rs)))"
    unfolding randomness_commitments_def Let_def WellFormednessCommitments.simps by (rule add_blinding_value)
  also have "eqq (ex (G1_Add C (G1_Add C (NewG1 C) (G1_Mul C P1 (rSum rs))) ?Q) + ex P2 * sum_list (map val (rOutBF rs)))
      ((0 + ex P1 * val (rSum rs)) + ex P0 * val (rType rs) * int (length (rOutValues rs))
        + ex P2 * sum_list (map val (rOutBF rs)))"
  proof (intro eqq_add eqq_refl eqq_trans [OF laws(2)])
    show "eqq (ex (NewG1 C)) 0" "eqq (ex (G1_Mul C P1 (rSum rs))) (ex P1 * val (rSum rs))" by (rule laws)+
    show "eqq (ex ?Q) (ex P0 * val (rType rs) * int (length (rOutValues rs)))"
      by (rule eqq_trans [OF laws(4)]) (intro eqq_mult laws)
  qed
  finally show ?thesis by (simp add: add_ac mult.assoc)
qed

text \<open>Elements with equal exponents have equal bytes.\<close>

lemma bytes_cong:
  assumes "length gs = length hs" and "\<And>i. i < length gs \<Longrightarrow> eqq (ex (gs ! i)) (ex (hs ! i))"
  shows "map (G1_Bytes C) gs = map (G1_Bytes C) hs"
  by (rule nth_equalityI) (simp_all add: assms laws(9))


lemma honest_proof:
  assumes ins: "list_all2 (opens C [Some P0, Some P1, Some P2] (HashToZr C ty)) ins ios"
    and outs: "list_all2 (opens C [Some P0, Some P1, Some P2] (HashToZr C ty)) outs oos"
    and bal: "eqq (sum_list (map (val \<circ> fst) ios)) (sum_list (map (val \<circ> fst) oos))"
    and p: "p = NewWellFormednessProver
      \<lparr>inValues = map Some (map fst ios), outValues = map Some (map fst oos), witnessType = ty,
       inBlindingFactors = map Some (map snd ios), outBlindingFactors = map Some (map snd oos)\<rparr>
      [Some P0, Some P1, Some P2] (map Some ins) (map Some outs) (Some C)"
  shows "\<exists>pf. wf_prove (Inr r) p = Inr pf
    \<and> wf_check (NewWellFormednessVerifier [Some P0, Some P1, Some P2] (map Some ins) (map Some outs) (Some C)) pf = Inr ()"
proof -
  let ?n = "length ins" and ?m = "length outs"
  have len: "length ios = ?n" "length oos = ?m" using ins outs by (auto dest: list_all2_lengthD)
  define rs where "rs = draw_randomness r ?n ?m"
  have lr: "length (rInValues rs) = ?n" "length (rInBF rs) = ?n" "length (rOutValues rs) = ?m" "length (rOutBF rs) = ?m"
    by (simp_all add: rs_def draw_randomness_def)
  define cs where "cs = randomness_commitments C P0 P1 P2 rs"
  define sent where "sent = cInputs cs @ [cInputSum cs] @ cOutputs cs @ [cOutputSum cs] @ ins @ outs"
  define chal where "chal = HashToZr C (concat (map (G1_Bytes C) sent))"
  obtain iv where iv: "prove (Some C) chal (map Some (map fst ios)) (map Some (rInValues rs)) = Inr iv" "length iv = ?n"
    "\<And>i. i < ?n \<Longrightarrow> eqq (val (iv ! i)) (val chal * val (fst (ios ! i)) + val (rInValues rs ! i))"
    using prove_value [of "map fst ios" "rInValues rs" chal] len lr by auto
  obtain ib where ib: "prove (Some C) chal (map Some (map snd ios)) (map Some (rInBF rs)) = Inr ib" "length ib = ?n"
    "\<And>i. i < ?n \<Longrightarrow> eqq (val (ib ! i)) (val chal * val (snd (ios ! i)) + val (rInBF rs ! i))"
    using prove_value [of "map snd ios" "rInBF rs" chal] len lr by auto
  obtain ov where ov: "prove (Some C) chal (map Some (map fst oos)) (map Some (rOutValues rs)) = Inr ov" "length ov = ?m"
    "\<And>i. i < ?m \<Longrightarrow> eqq (val (ov ! i)) (val chal * val (fst (oos ! i)) + val (rOutValues rs ! i))"
    using prove_value [of "map fst oos" "rOutValues rs" chal] len lr by auto
  obtain ob where ob: "prove (Some C) chal (map Some (map snd oos)) (map Some (rOutBF rs)) = Inr ob" "length ob = ?m"
    "\<And>i. i < ?m \<Longrightarrow> eqq (val (ob ! i)) (val chal * val (snd (oos ! i)) + val (rOutBF rs ! i))"
    using prove_value [of "map snd oos" "rOutBF rs" chal] len lr by auto
  obtain t where t: "prove (Some C) chal [Some (HashToZr C ty)] [Some (rType rs)] = Inr [t]"
    "eqq (val t) (val chal * val (HashToZr C ty) + val (rType rs))"
    using prove_value [of "[HashToZr C ty]" "[rType rs]" chal] by (auto simp: length_Suc_conv)
  obtain total where total: "Sum (map Some (map fst ios)) C = Inr total" using Sum_ex by blast
  have total_in: "eqq (val total) (\<Sum>i<?n. val (fst (ios ! i)))"
    using Sum_value [OF total] by (auto simp: inj_map_eq_map sum_indexed len simp del: map_map)
  obtain s where s: "prove (Some C) chal [Some total] [Some (rSum rs)] = Inr [s]"
    "eqq (val s) (val chal * val total + val (rSum rs))"
    using prove_value [of "[total]" "[rSum rs]" chal] by (auto simp: length_Suc_conv)
  let ?pf = "\<lparr>InputBlindingFactors = map Some ib, OutputBlindingFactors = map Some ob, InputValues = map Some iv,
    OutputValues = map Some ov, wfType = Some t, wfSum = Some s, wfChallenge = Some chal\<rparr>"
  have proof_ok: "wf_computeProof p rs chal = Inr ?pf"
    using iv(1) ib(1) ov(1) ob(1) t(1) s(1) total len lr
    by (simp add: wf_computeProof_def p NewWellFormednessProver_def at_def)
  have bytes: "G1Array_Bytes C (GetG1Array [map Some (cInputs cs), [Some (cInputSum cs)], map Some (cOutputs cs),
      [Some (cOutputSum cs)], map Some ins, map Some outs]) = Inr (concat (map (G1_Bytes C) sent))"
    using G1Array_Bytes_concat [of C sent] by (simp add: GetG1Array_def sent_def)
  have prove: "wf_prove (Inr r) p = Inr ?pf"
    using proof_ok bytes len
    by (simp add: wf_prove_def wf_computeCommitments_def p NewWellFormednessProver_def rs_def [symmetric]
        cs_def [symmetric] Let_def chal_def)
  have s_in: "eqq (val s) (val chal * (\<Sum>i<?n. val (fst (ios ! i))) + val (rSum rs))"
    by (rule eqq_trans [OF s(2)]) (intro eqq_add eqq_mult total_in eqq_refl)
  have "eqq (\<Sum>i<?n. val (fst (ios ! i))) (\<Sum>i<?m. val (fst (oos ! i)))"
    using bal by (simp add: sum_indexed len)
  then have s_out: "eqq (val s) (val chal * (\<Sum>i<?m. val (fst (oos ! i))) + val (rSum rs))"
    by (intro eqq_trans [OF s_in] eqq_add eqq_mult eqq_refl)
  have opened: "eqq (ex (gs ! i)) (ex P0 * val (HashToZr C ty) + ex P1 * val (fst (os ! i)) + ex P2 * val (snd (os ! i)))"
    if "list_all2 (opens C [Some P0, Some P1, Some P2] (HashToZr C ty)) gs os" "i < length gs" for gs os i
    using list_all2_nthD [OF that] by (cases "os ! i") (simp add: opens_iff)
  obtain z1 c1 a1 where 1: "parseProof (Some C) (map Some ins) (map Some iv) (map Some ib) (Some t) (Some s) = Inr z1"
    "RecomputeCommitments \<lparr>svPedParams = [Some P0, Some P1, Some P2], svCurve = Some C\<rparr> z1 (Some chal) = Inr (c1 @ [a1])"
    "length c1 = ?n" "\<And>i. i < ?n \<Longrightarrow> eqq (ex (c1 ! i))
      (ex P0 * val (rType rs) + ex P1 * val (rInValues rs ! i) + ex P2 * val (rInBF rs ! i))"
    "eqq (ex a1) (ex P0 * (val (rType rs) * int ?n) + ex P1 * val (rSum rs) + ex P2 * (\<Sum>i<?n. val (rInBF rs ! i)))"
    using side_complete [OF iv(2) ib(2) opened [OF ins] iv(3) ib(3) t(2) s_in] by blast
  obtain z2 c2 a2 where 2: "parseProof (Some C) (map Some outs) (map Some ov) (map Some ob) (Some t) (Some s) = Inr z2"
    "RecomputeCommitments \<lparr>svPedParams = [Some P0, Some P1, Some P2], svCurve = Some C\<rparr> z2 (Some chal) = Inr (c2 @ [a2])"
    "length c2 = ?m" "\<And>i. i < ?m \<Longrightarrow> eqq (ex (c2 ! i))
      (ex P0 * val (rType rs) + ex P1 * val (rOutValues rs ! i) + ex P2 * val (rOutBF rs ! i))"
    "eqq (ex a2) (ex P0 * (val (rType rs) * int ?m) + ex P1 * val (rSum rs) + ex P2 * (\<Sum>i<?m. val (rOutBF rs ! i)))"
    using side_complete [OF ov(2) ob(2) opened [OF outs] ov(3) ob(3) t(2) s_out] by blast
  have tokens: "map (G1_Bytes C) c1 = map (G1_Bytes C) (cInputs cs)"
    "map (G1_Bytes C) c2 = map (G1_Bytes C) (cOutputs cs)"
    by (intro bytes_cong; simp add: cs_def randomness_commitments_def Let_def 1(3) 2(3) lr;
        rule eqq_trans [OF _ eqq_sym [OF commit_token_value]]; simp add: 1(4) 2(4))+
  have sums: "G1_Bytes C a1 = G1_Bytes C (cInputSum cs)" "G1_Bytes C a2 = G1_Bytes C (cOutputSum cs)"
    using eqq_trans [OF 1(5) eqq_sym [OF input_sum_value [of P0 P1 P2 rs, unfolded sum_indexed lr]]]
      eqq_trans [OF 2(5) eqq_sym [OF output_sum_value [of P0 P1 P2 rs, unfolded sum_indexed lr]]]
    by (simp_all add: cs_def laws(9))
  have "G1Array_Bytes C (GetG1Array [map Some (c1 @ [a1]), map Some (c2 @ [a2]), map Some ins, map Some outs])
      = Inr (concat (map (G1_Bytes C) (c1 @ [a1] @ c2 @ [a2] @ ins @ outs)))"
    using G1Array_Bytes_concat [of C "c1 @ [a1] @ c2 @ [a2] @ ins @ outs"] by (simp add: GetG1Array_def)
  also have "map (G1_Bytes C) (c1 @ [a1] @ c2 @ [a2] @ ins @ outs) = map (G1_Bytes C) sent"
    by (simp add: sent_def tokens sums)
  finally have "wf_check (NewWellFormednessVerifier [Some P0, Some P1, Some P2] (map Some ins) (map Some outs) (Some C)) ?pf = Inr ()"
    using 1(1,2) 2(1,2) by (simp add: wf_check_def wf_recompute_def NewWellFormednessVerifier_def chal_def [symmetric] laws(6))
  with prove show ?thesis by blast
qed

end


text \<open>
  C10: A party that knows openings of all inputs and outputs of a transfer, of one type and
  with sums that are equal modulo the order of the group, obtains a proof, whatever elements it
  draws, and the verifier accepts it.
\<close>

theorem honest_transfer_verifies:
  assumes "prime_group C q val ex"
    and "list_all2 (opens C [Some P0, Some P1, Some P2] (HashToZr C ty)) ins ios"
    and "list_all2 (opens C [Some P0, Some P1, Some P2] (HashToZr C ty)) outs oos"
    and "sum_list (map (val \<circ> fst) ios) mod q = sum_list (map (val \<circ> fst) oos) mod q"
  shows "\<exists>pf. wf_prove (Inr r)
      (NewWellFormednessProver
        \<lparr>inValues = map Some (map fst ios), outValues = map Some (map fst oos), witnessType = ty,
         inBlindingFactors = map Some (map snd ios), outBlindingFactors = map Some (map snd oos)\<rparr>
        [Some P0, Some P1, Some P2] (map Some ins) (map Some outs) (Some C)) = Inr pf
    \<and> wf_check
        (NewWellFormednessVerifier [Some P0, Some P1, Some P2] (map Some ins) (map Some outs) (Some C)) pf = Inr ()"
  using prime_curve.honest_proof [OF prime_curve.intro, OF assms(1-3) _ refl, of r] assms(4)
  unfolding prime_curve.eqq_def [OF prime_curve.intro, OF assms(1)] by blast

text \<open>A token of three is split into tokens of one and two: type 1, bases 1, 2 and 3.\<close>

lemma example_openings:
  "list_all2 (opens example_curve [Some 1, Some 2, Some 3] (HashToZr example_curve ''a'')) [3] [(3, 2)]"
  "list_all2 (opens example_curve [Some 1, Some 2, Some 3] (HashToZr example_curve ''a'')) [1, 2] [(1, 1), (2, 4)]"
  by (simp_all add: opens_def ComputePedersenCommitment_def example_curve_def residues_def)

lemma honest_transfer_verifies_witness:
  "\<exists>pf. wf_prove (Inr int)
      (NewWellFormednessProver
        \<lparr>inValues = [Some 3], outValues = [Some 1, Some 2], witnessType = ''a'',
         inBlindingFactors = [Some 2], outBlindingFactors = [Some 1, Some 4]\<rparr>
        [Some 1, Some 2, Some 3] [Some 3] [Some 1, Some 2] (Some example_curve)) = Inr pf
    \<and> wf_check (NewWellFormednessVerifier [Some 1, Some 2, Some 3] [Some 3] [Some 1, Some 2] (Some example_curve)) pf = Inr ()"
  using honest_transfer_verifies [OF example_group example_openings] by simp

text \<open>
  C8: special soundness of the proof of a transfer. Let the verifier accept two proofs for the
  same inputs and outputs, the second when the hash function answers the bytes that are hashed
  differently, and let it recompute the same commitments from both. Then the differences of
  the responses, over the difference of the two challenges, open every input and every output:
  those for the type are the type of all of them, those for the values and the blinding factors
  of each token are its value and its blinding factor, and the values of the inputs and of the
  outputs have the same sum modulo the order of the group. So whoever can answer two
  challenges knows openings that balance. The generator of the values must not be neutral.
\<close>

theorem transfer_proof_sound:
  assumes "prime_group C q val ex" and "ex P1 mod q \<noteq> 0"
    and "V = NewWellFormednessVerifier [Some P0, Some P1, Some P2] inputs outputs"
    and "wf_check (V (Some C)) pa = Inr ()"
    and "wf_check (V (Some (C\<lparr>HashToZr := (HashToZr C)(raw := e)\<rparr>))) pb = Inr ()"
    and "wf_recompute (V (Some C)) pa = Inr (ci, co)" and "wf_recompute (V (Some C)) pb = Inr (ci, co)"
    and "G1Array_Bytes C (GetG1Array [map Some ci, map Some co, inputs, outputs]) = Inr raw"
    and "(val (HashToZr C raw) - val e) * d mod q = 1"
  shows "\<exists>ins outs. inputs = map Some ins \<and> outputs = map Some outs
    \<and> list_all2 (opens C [Some P0, Some P1, Some P2] (zr_quotient C val d (wfType pa) (wfType pb))) ins
        (zr_quotients C val d (InputValues pa, InputBlindingFactors pa) (InputValues pb, InputBlindingFactors pb))
    \<and> list_all2 (opens C [Some P0, Some P1, Some P2] (zr_quotient C val d (wfType pa) (wfType pb))) outs
        (zr_quotients C val d (OutputValues pa, OutputBlindingFactors pa) (OutputValues pb, OutputBlindingFactors pb))
    \<and> sum_list (map (val \<circ> fst)
          (zr_quotients C val d (InputValues pa, InputBlindingFactors pa) (InputValues pb, InputBlindingFactors pb))) mod q
      = sum_list (map (val \<circ> fst)
          (zr_quotients C val d (OutputValues pa, OutputBlindingFactors pa) (OutputValues pb, OutputBlindingFactors pb))) mod q"
proof -
  note P = prime_curve.intro [OF assms(1)]
  note eq = prime_curve.eqq_def [OF P]
  note check = prime_curve.wf_check_challenge [OF P, where pp = "[Some P0, Some P1, Some P2]" and inputs = inputs
    and outputs = outputs and ci = ci and co = co and raw = raw]
  have "\<exists>c. wfChallenge pa = Some c \<and> val (HashToZr C raw) mod q = val c mod q"
    using check [where h = "HashToZr C" and pf = pa] assms(4,6,8) unfolding eq assms(3) by simp
  then obtain ca where ca: "wfChallenge pa = Some ca" "val (HashToZr C raw) mod q = val ca mod q" by blast
  have "\<exists>c. wfChallenge pb = Some c \<and> val e mod q = val c mod q"
    using check [where h = "(HashToZr C)(raw := e)" and pf = pb] assms(5,7,8) unfolding eq assms(3) by simp
  then obtain cb where cb: "wfChallenge pb = Some cb" "val e mod q = val cb mod q" by blast
  have "1 < q" using assms(1) by (simp add: prime_group_def)
  then have "(val ca - val cb) * d mod q = 1 mod q"
    using assms(9) ca(2) cb(2) by (metis mod_diff_cong mod_mult_left_eq mod_pos_pos_trivial zero_le_one)
  from prime_curve.two_proofs [OF P assms(2) fun_cong [OF assms(3)] assms(6,7) ca(1) cb(1), unfolded eq, OF this]
  show ?thesis .
qed

definition example_answer :: "int \<Rightarrow> int WellFormedness" where
  "example_answer c =
     \<lparr>InputBlindingFactors = [Some (2 * c)], OutputBlindingFactors = [Some c, Some (4 * c)],
      InputValues = [Some (3 * c)], OutputValues = [Some c, Some (2 * c)],
      wfType = Some c, wfSum = Some (3 * c), wfChallenge = Some c\<rparr>"

abbreviation example_verifier :: "(int, int, int, int) curve option \<Rightarrow> (int, int, int, int) WellFormednessVerifier" where
  "example_verifier \<equiv> NewWellFormednessVerifier [Some 1, Some 2, Some 3] [Some 3] [Some 1, Some 2]"

lemma example_answers:
  "wf_check (example_verifier (Some example_curve)) (example_answer 1) = Inr ()"
  "wf_check (example_verifier (Some (example_curve\<lparr>HashToZr := (HashToZr example_curve)(''111111'' := 0)\<rparr>)))
    (example_answer 0) = Inr ()"
  "wf_recompute (example_verifier (Some example_curve)) (example_answer 1) = Inr ([0, 0], [0, 0, 0])"
  "wf_recompute (example_verifier (Some example_curve)) (example_answer 0) = Inr ([0, 0], [0, 0, 0])"
  "G1Array_Bytes example_curve (GetG1Array [map Some [0, 0], map Some [0, 0, 0], [Some 3], [Some 1, Some 2]])
    = Inr ''111111''"
  "(HashToZr example_curve ''111111'' - 0) * 1 mod 5 = 1"
  by code_simp+

text \<open>The value 3 of type 1 was split into 1 and 2.\<close>

lemma transfer_proof_sound_witness:
  "list_all2 (opens example_curve [Some 1, Some 2, Some 3] 1) [3] [(3, 2)]
    \<and> list_all2 (opens example_curve [Some 1, Some 2, Some 3] 1) [1, 2] [(1, 1), (2, 4)]"
proof -
  have q: "zr_quotient example_curve (\<lambda>z. z) 1 (wfType (example_answer 1)) (wfType (example_answer 0)) = 1"
    "zr_quotients example_curve (\<lambda>z. z) 1 (InputValues (example_answer 1), InputBlindingFactors (example_answer 1))
      (InputValues (example_answer 0), InputBlindingFactors (example_answer 0)) = [(3, 2)]"
    "zr_quotients example_curve (\<lambda>z. z) 1 (OutputValues (example_answer 1), OutputBlindingFactors (example_answer 1))
      (OutputValues (example_answer 0), OutputBlindingFactors (example_answer 0)) = [(1, 1), (2, 4)]"
    by code_simp+
  have "(2 :: int) mod 5 \<noteq> 0" by simp
  from transfer_proof_sound [OF example_group this refl example_answers(1-6)]
  show ?thesis unfolding q by (auto simp: Cons_eq_map_conv)
qed

text \<open>A proof of a transfer that lacks the response for the type stops the verifier.\<close>

lemma missing_type_panics:
  assumes "wvCurve v = Some c" and "wvInputs v = map Some ins" and "wfType pf = None"
    and "length (InputValues pf) = length ins" and "length (InputBlindingFactors pf) = length ins"
  shows "wf_check v pf = Inl nil_pointer"
  using assms by (simp add: wf_check_def wf_recompute_def parseProof_def rfold_Some mod_mul_def deref_def)

end
