(* ===== verification/IssueProof.thy ===== *)
theory IssueProof
  imports TransferSound
begin

text \<open>
  The proof that issued tokens are well formed and of one type, which is revealed unless the
  issuer is anonymous (\<open>token/core/zkatdlog/crypto/issue/wellformedness.go\<close>).
\<close>

section \<open>Definitions\<close>

record 'z IssueWellFormedness =
  iwType :: "'z option"
  iwValues :: "'z option list"
  iwBlindingFactors :: "'z option list"
  TypeInTheClear :: string
  iwChallenge :: "'z option"

record ('g, 'h, 't, 'z) IssueVerifier =
  ivPedParams :: "'g option list"
  ivCurve :: "('g, 'h, 't, 'z) curve option"
  ivTokens :: "'g option list"
  Anonymous :: bool

record ('g, 'h, 't, 'z) IssueProver = "('g, 'h, 't, 'z) IssueVerifier" +
  ipWitness :: "'z TokenDataWitness option list"

definition NewIssueVerifier ::
  "'g option list \<Rightarrow> bool \<Rightarrow> 'g option list \<Rightarrow> ('g, 'h, 't, 'z) curve option \<Rightarrow> ('g, 'h, 't, 'z) IssueVerifier" where
  "NewIssueVerifier tokens anonymous pp c =
     \<lparr>ivPedParams = pp, ivCurve = c, ivTokens = tokens, Anonymous = anonymous\<rparr>"

definition NewIssueProver ::
  "'z TokenDataWitness option list \<Rightarrow> 'g option list \<Rightarrow> bool \<Rightarrow> 'g option list
   \<Rightarrow> ('g, 'h, 't, 'z) curve option \<Rightarrow> ('g, 'h, 't, 'z) IssueProver" where
  "NewIssueProver witness tokens anonymous pp c =
     \<lparr>ivPedParams = pp, ivCurve = c, ivTokens = tokens, Anonymous = anonymous, ipWitness = witness\<rparr>"

record 'z IssueRandomness =
  irValues :: "'z list"
  irBlindingFactors :: "'z list"
  irType :: "'z option"

text \<open>
  The elements are drawn in the order of the code: that of the type, if the issuer is
  anonymous, then a value and a blinding factor for each token.
\<close>

definition issue_randomness :: "(nat \<Rightarrow> 'z) \<Rightarrow> bool \<Rightarrow> nat \<Rightarrow> 'z IssueRandomness" where
  "issue_randomness r anonymous n =
     (let k = (if anonymous then 1 else 0) in
      \<lparr>irValues = map (\<lambda>i. r (k + 2 * i)) [0..<n], irBlindingFactors = map (\<lambda>i. r (k + 1 + 2 * i)) [0..<n],
       irType = (if anonymous then Some (r 0) else None)\<rparr>)"

definition issue_commitments ::
  "('g, 'h, 't, 'z) curve \<Rightarrow> 'g \<Rightarrow> 'g \<Rightarrow> 'g \<Rightarrow> 'z IssueRandomness \<Rightarrow> 'g list" where
  "issue_commitments c P0 P1 P2 rs =
     (let Q = (case irType rs of None \<Rightarrow> NewG1 c | Some t \<Rightarrow> G1_Mul c P0 t)
      in map (\<lambda>(v, bf). G1_Add c (G1_Add c (G1_Mul c P1 v) (G1_Mul c P2 bf)) Q)
           (zip (irValues rs) (irBlindingFactors rs)))"

definition issue_computeCommitments ::
  "'z rng \<Rightarrow> ('g, 'h, 't, 'z) curve \<Rightarrow> ('g, 'h, 't, 'z) IssueProver \<Rightarrow> ('g list \<times> 'z IssueRandomness) res" where
  "issue_computeCommitments rand c p =
     (if length (ivPedParams p) \<noteq> 3
      then Inl (Err ''computation of well-formedness proof failed: invalid public parameters'')
      else case (ivPedParams p ! 0, ivPedParams p ! 1, ivPedParams p ! 2) of
          (Some P0, Some P1, Some P2) \<Rightarrow>
            (case rand of
               Inl _ \<Rightarrow> Inl (Err ''failed to get RNG'')
             | Inr r \<Rightarrow>
                 let rs = issue_randomness r (Anonymous p) (length (ivTokens p))
                 in Inr (issue_commitments c P0 P1 P2 rs, rs))
        | _ \<Rightarrow> Inl (Err ''computation of well-formedness proof failed: invalid public parameters''))"

text \<open>
  The response for the type, or none and the type itself. Without witnesses the index is out
  of range; a nil first witness panics where it is not tested.
\<close>

definition issue_type_proof ::
  "('g, 'h, 't, 'z) curve \<Rightarrow> ('g, 'h, 't, 'z) IssueProver \<Rightarrow> 'z IssueRandomness \<Rightarrow> 'z
   \<Rightarrow> ('z option \<times> string) res" where
  "issue_type_proof c p rs chal =
     rbind (at (ipWitness p) 0) (\<lambda>first.
     if Anonymous p
     then (case first of
             None \<Rightarrow> Inl (Err ''computation of well-formedness proof failed: invalid witness'')
           | Some w \<Rightarrow>
               rbind (mod_mul c (Some chal) (Some (HashToZr c (twType w)))) (\<lambda>t.
               rbind (mod_add c (Some t) (irType rs)) (\<lambda>t'. Inr (Some t', []))))
     else rbind (deref first) (\<lambda>w. Inr (None, twType w)))"

definition issue_computeProof ::
  "('g, 'h, 't, 'z) curve \<Rightarrow> ('g, 'h, 't, 'z) IssueProver \<Rightarrow> 'z IssueRandomness \<Rightarrow> 'z
   \<Rightarrow> 'z IssueWellFormedness res" where
  "issue_computeProof c p rs chal =
     (if GroupOrder c = None
      then Inl (Err ''computation of well-formedness proof failed: invalid public parameters'')
      else
        rbind (issue_type_proof c p rs chal) (\<lambda>(typ, clear).
        rbind (rmap (\<lambda>w. case w of
              None \<Rightarrow> Inl (Err ''computation of well-formedness proof failed: invalid witness'')
            | Some w' \<Rightarrow> Inr w') (ipWitness p)) (\<lambda>ws.
        rbind (prove (Some c) chal (map twValue ws) (map Some (irValues rs))) (\<lambda>vs.
        rbind (prove (Some c) chal (map twBlindingFactor ws) (map Some (irBlindingFactors rs))) (\<lambda>bfs.
        Inr \<lparr>iwType = typ, iwValues = map Some vs, iwBlindingFactors = map Some bfs,
             TypeInTheClear = clear, iwChallenge = Some chal\<rparr>)))))"

text \<open>
  An error of the serialization is built and dropped, and the challenge is then the hash of
  no bytes.
\<close>

definition issue_prove :: "'z rng \<Rightarrow> ('g, 'h, 't, 'z) IssueProver \<Rightarrow> 'z IssueWellFormedness res" where
  "issue_prove rand p =
     (case ivCurve p of
        None \<Rightarrow> Inl (Err ''failed to generate well-formedness proof: please initialize curve'')
      | Some c \<Rightarrow>
          rbind (issue_computeCommitments rand c p) (\<lambda>(cs, rs).
          rbind (case G1Array_Bytes c (GetG1Array [map Some cs, ivTokens p]) of
                   Inl (Panic m) \<Rightarrow> Inl (Panic m)
                 | Inl (Err m) \<Rightarrow> Inr []
                 | Inr raw \<Rightarrow> Inr raw) (\<lambda>raw.
          issue_computeProof c p rs (HashToZr c raw))))"

definition IssueWellFormedness_Prove ::
  "('z IssueWellFormedness \<Rightarrow> bytes res) \<Rightarrow> 'z rng \<Rightarrow> ('g, 'h, 't, 'z) IssueProver \<Rightarrow> bytes res" where
  "IssueWellFormedness_Prove marshal rand p = rbind (issue_prove rand p) marshal"

definition issue_parseProof ::
  "('g, 'h, 't, 'z) IssueVerifier \<Rightarrow> 'z IssueWellFormedness \<Rightarrow> ('g, 'z) SchnorrProof list res" where
  "issue_parseProof v pf =
     (case (iwChallenge pf, ivCurve v) of
        (Some chal, Some c) \<Rightarrow>
          if GroupOrder c = None
          then Inl (Err ''failed to verify well-formedness proof: invalid public parameters'')
          else
            rbind (if Anonymous v then Inr (iwType pf)
                   else rbind (mod_mul c (Some chal) (Some (HashToZr c (TypeInTheClear pf)))) (\<lambda>t. Inr (Some t)))
              (\<lambda>typ.
            if length (iwValues pf) \<noteq> length (ivTokens v) \<or> length (iwBlindingFactors pf) \<noteq> length (ivTokens v)
            then Inl (Err ''well-formedness proof is not well formed: length mismatch'')
            else rmap (\<lambda>(t, x, r).
                case t of
                  None \<Rightarrow> Inl (Err ''well-formedness proof not well formed:  output token is nil'')
                | Some g \<Rightarrow> Inr \<lparr>spStatement = Some g, spProof = [typ, x, r], spChallenge = None\<rparr>)
              (zip (ivTokens v) (zip (iwValues pf) (iwBlindingFactors pf))))
      | _ \<Rightarrow> Inl (Err ''failed to verify well-formedness proof: invalid public parameters''))"

definition issue_recompute ::
  "('g, 'h, 't, 'z) IssueVerifier \<Rightarrow> 'z IssueWellFormedness \<Rightarrow> 'g list res" where
  "issue_recompute v pf =
     rbind (issue_parseProof v pf) (\<lambda>zkps.
     RecomputeCommitments \<lparr>svPedParams = ivPedParams v, svCurve = ivCurve v\<rparr> zkps (iwChallenge pf))"

definition issue_check ::
  "('g, 'h, 't, 'z) IssueVerifier \<Rightarrow> 'z IssueWellFormedness \<Rightarrow> unit res" where
  "issue_check v pf =
     rbind (issue_recompute v pf) (\<lambda>coms.
     rbind (deref (ivCurve v)) (\<lambda>c.
     rbind (G1Array_Bytes c (GetG1Array [map Some coms, ivTokens v])) (\<lambda>raw.
     rbind (deref (iwChallenge pf)) (\<lambda>chal.
     if \<not> Zr_Equals c (HashToZr c raw) chal then Inl (Err ''invalid well-formedness proof'') else Inr ()))))"

definition IssueWellFormedness_Verify ::
  "(bytes \<Rightarrow> 'z IssueWellFormedness res) \<Rightarrow> ('g, 'h, 't, 'z) IssueVerifier \<Rightarrow> bytes \<Rightarrow> unit res" where
  "IssueWellFormedness_Verify unmarshal v raw = rbind (unmarshal raw) (issue_check v)"


section \<open>Soundness\<close>

context prime_curve
begin

lemma issue_side:
  assumes "issue_recompute (NewIssueVerifier tokens anonymous [Some P0, Some P1, Some P2] (Some C)) pf = Inr coms"
    and "iwChallenge pf = Some cz"
  shows "\<exists>gs vz rz typ. tokens = map Some gs \<and> iwValues pf = map Some vz \<and> iwBlindingFactors pf = map Some rz
    \<and> length vz = length gs \<and> length rz = length gs \<and> length coms = length gs
    \<and> (\<not> anonymous \<longrightarrow> eqq (val typ) (val cz * val (HashToZr C (TypeInTheClear pf))))
    \<and> (anonymous \<and> gs \<noteq> [] \<longrightarrow> iwType pf = Some typ)
    \<and> (\<forall>i < length gs. eqq (ex (coms ! i))
         (ex P0 * val typ + ex P1 * val (vz ! i) + ex P2 * val (rz ! i) - ex (gs ! i) * val cz))"
proof -
  let ?v = "\<lparr>svPedParams = [Some P0, Some P1, Some P2], svCurve = Some C\<rparr>"
  note R = Recompute_value [of ?v _ _ "[P0, P1, P2]", simplified]
  from assms obtain zkps to where len: "length (iwValues pf) = length tokens" "length (iwBlindingFactors pf) = length tokens"
    and to: "(if anonymous then Inr (iwType pf)
        else rbind (mod_mul C (Some cz) (Some (HashToZr C (TypeInTheClear pf)))) (\<lambda>t. Inr (Some t))) = Inr to"
    and z: "rmap (\<lambda>(t, x, r). case t of
          None \<Rightarrow> Inl (Err ''well-formedness proof not well formed:  output token is nil'')
        | Some g \<Rightarrow> Inr \<lparr>spStatement = Some g, spProof = [to, x, r], spChallenge = None\<rparr>)
      (zip tokens (zip (iwValues pf) (iwBlindingFactors pf))) = Inr zkps"
    and r: "RecomputeCommitments ?v zkps (Some cz) = Inr coms"
    by (auto simp: issue_recompute_def issue_parseProof_def NewIssueVerifier_def go_simps split: if_splits)
  let ?n = "length tokens"
  have az: "list_all2 (\<lambda>(t, x, r) zkp. \<exists>g. t = Some g
      \<and> zkp = \<lparr>spStatement = Some g, spProof = [to, x, r], spChallenge = None\<rparr>)
      (zip tokens (zip (iwValues pf) (iwBlindingFactors pf))) zkps"
    using z unfolding rmap_eq_Inr_iff by (rule list_all2_mono) (auto split: option.splits)
  have ar: "list_all2 (\<lambda>zkp com. RecomputeCommitment ?v (zkp\<lparr>spChallenge := Some cz\<rparr>) = Inr com) zkps coms"
    using r by (simp add: RecomputeCommitments_def rmap_eq_Inr_iff)
  have lz: "length zkps = ?n" "length coms = ?n"
    using list_all2_lengthD [OF az] list_all2_lengthD [OF ar] len by simp_all
  have each: "\<exists>g x y ty. tokens ! i = Some g \<and> iwValues pf ! i = Some x \<and> iwBlindingFactors pf ! i = Some y
      \<and> to = Some ty \<and> eqq (ex (coms ! i)) (ex P0 * val ty + ex P1 * val x + ex P2 * val y - ex g * val cz)"
    if i: "i < ?n" for i
  proof -
    obtain g where g: "tokens ! i = Some g"
      "zkps ! i = \<lparr>spStatement = Some g, spProof = [to, iwValues pf ! i, iwBlindingFactors pf ! i], spChallenge = None\<rparr>"
      using list_all2_nthD [OF az, of i] i len by auto
    have "RecomputeCommitment ?v \<lparr>spStatement = Some g, spProof = [to, iwValues pf ! i, iwBlindingFactors pf ! i],
        spChallenge = Some cz\<rparr> = Inr (coms ! i)"
      using list_all2_nthD [OF ar, of i] i lz g(2) by simp
    from R [OF this] g(1) show ?thesis by (auto simp: Cons_eq_map_conv add.assoc)
  qed
  define gs where "gs = map the tokens"
  define vz where "vz = map the (iwValues pf)"
  define rz where "rz = map the (iwBlindingFactors pf)"
  have none: "None \<notin> set tokens" "None \<notin> set (iwValues pf)" "None \<notin> set (iwBlindingFactors pf)"
    using each len by (metis in_set_conv_nth option.distinct(1))+
  note maps = map_Some_the [OF none(1), folded gs_def] map_Some_the [OF none(2), folded vz_def]
    map_Some_the [OF none(3), folded rz_def]
  have n: "length vz = length gs" "length rz = length gs" "length coms = length gs" "?n = length gs"
    using len lz by (simp_all add: gs_def vz_def rz_def)
  obtain ty where ty: "to = Some ty \<or> (to = None \<and> gs = [])"
    using each [of 0] n by (cases gs) auto
  have "\<not> anonymous \<longrightarrow> eqq (val ty) (val cz * val (HashToZr C (TypeInTheClear pf)))"
    using to ty by (auto simp: go_simps dest: mod_mul_eq)
  moreover have "anonymous \<and> gs \<noteq> [] \<longrightarrow> iwType pf = Some ty" using to ty by auto
  moreover have "\<forall>i < length gs. eqq (ex (coms ! i))
      (ex P0 * val ty + ex P1 * val (vz ! i) + ex P2 * val (rz ! i) - ex (gs ! i) * val cz)"
  proof (intro allI impI)
    fix i assume i: "i < length gs"
    then show "eqq (ex (coms ! i)) (ex P0 * val ty + ex P1 * val (vz ! i) + ex P2 * val (rz ! i) - ex (gs ! i) * val cz)"
      using each [of i] n ty by (auto simp: maps)
  qed
  ultimately show ?thesis using maps n by blast
qed

text \<open>
  The hash function takes part in what the verifier recomputes only through the type in the
  clear; an accepted proof answers the challenge that is the hash of its commitments.
\<close>

lemma issue_recompute_hash:
  assumes "h (TypeInTheClear pf) = HashToZr C (TypeInTheClear pf)"
  shows "issue_recompute (NewIssueVerifier tokens anonymous pp (Some (C\<lparr>HashToZr := h\<rparr>))) pf
   = issue_recompute (NewIssueVerifier tokens anonymous pp (Some C)) pf"
proof -
  have 1: "add_response (C\<lparr>HashToZr := h\<rparr>) = add_response C" "mod_mul (C\<lparr>HashToZr := h\<rparr>) = mod_mul C"
    by (simp_all add: add_response_def mod_mul_def fun_eq_iff)
  have 2: "issue_parseProof (NewIssueVerifier tokens anonymous pp (Some (C\<lparr>HashToZr := h\<rparr>))) pf
      = issue_parseProof (NewIssueVerifier tokens anonymous pp (Some C)) pf"
    by (cases "iwChallenge pf") (simp_all add: issue_parseProof_def NewIssueVerifier_def 1 assms)
  have 3: "RecomputeCommitment \<lparr>svPedParams = pp, svCurve = Some (C\<lparr>HashToZr := h\<rparr>)\<rparr> z
      = RecomputeCommitment \<lparr>svPedParams = pp, svCurve = Some C\<rparr> z" for z
    by (cases "spChallenge z"; cases "spStatement z") (simp_all add: RecomputeCommitment_def 1)
  show ?thesis
    using 2 by (simp add: issue_recompute_def RecomputeCommitments_def NewIssueVerifier_def 3)
qed

lemma issue_check_challenge:
  assumes "issue_check (NewIssueVerifier tokens anonymous pp (Some (C\<lparr>HashToZr := h\<rparr>))) pf = Inr ()"
    and "h (TypeInTheClear pf) = HashToZr C (TypeInTheClear pf)"
    and "issue_recompute (NewIssueVerifier tokens anonymous pp (Some C)) pf = Inr coms"
    and "G1Array_Bytes C (GetG1Array [map Some coms, tokens]) = Inr raw"
  shows "\<exists>c. iwChallenge pf = Some c \<and> eqq (val (h raw)) (val c)"
proof -
  have "G1Array_Bytes (C\<lparr>HashToZr := h\<rparr>) = G1Array_Bytes C"
    by (simp add: G1Array_Bytes_def fun_eq_iff cong: option.case_cong)
  with assms issue_recompute_hash [where h = h and pf = pf, OF assms(2)] show ?thesis
    by (auto simp: issue_check_def go_simps NewIssueVerifier_def dest: laws(7) split: if_splits)
qed

lemma two_issue_proofs:
  assumes v: "v = NewIssueVerifier tokens anonymous [Some P0, Some P1, Some P2] (Some C)"
    and r: "issue_recompute v pf = Inr coms" and r': "issue_recompute v pf' = Inr coms"
    and c: "iwChallenge pf = Some c" "iwChallenge pf' = Some c'" and d: "eqq ((val c - val c') * d) 1"
    and clear: "TypeInTheClear pf = ty" "TypeInTheClear pf' = ty"
  shows "\<exists>gs. tokens = map Some gs
    \<and> list_all2 (opens C [Some P0, Some P1, Some P2]
        (if anonymous then zr_quotient C val d (iwType pf) (iwType pf') else HashToZr C ty)) gs
        (zr_quotients C val d (iwValues pf, iwBlindingFactors pf) (iwValues pf', iwBlindingFactors pf'))"
proof -
  from issue_side [OF r [unfolded v] c(1)] obtain gs vz rz t1 where 1: "tokens = map Some gs"
    "length vz = length gs" "length rz = length gs"
    and m1: "iwValues pf = map Some vz" "iwBlindingFactors pf = map Some rz" "anonymous \<and> gs \<noteq> [] \<longrightarrow> iwType pf = Some t1"
    and q1:
    "\<not> anonymous \<longrightarrow> eqq (val t1) (val c * val (HashToZr C ty))"
    "\<And>i. i < length gs \<Longrightarrow> eqq (ex (coms ! i))
         (ex P0 * val t1 + ex P1 * val (vz ! i) + ex P2 * val (rz ! i) - ex (gs ! i) * val c)"
    unfolding clear by blast
  have inj: "map Some xs = map Some ys \<longleftrightarrow> xs = ys" for xs ys :: "'y list"
    by (simp add: inj_map_eq_map)
  from issue_side [OF r' [unfolded v] c(2)] obtain vz' rz' t2 where 2:
    "length vz' = length gs" "length rz' = length gs"
    and m2: "iwValues pf' = map Some vz'" "iwBlindingFactors pf' = map Some rz'" "anonymous \<and> gs \<noteq> [] \<longrightarrow> iwType pf' = Some t2"
    and q2:
    "\<not> anonymous \<longrightarrow> eqq (val t2) (val c' * val (HashToZr C ty))"
    "\<And>i. i < length gs \<Longrightarrow> eqq (ex (coms ! i))
         (ex P0 * val t2 + ex P1 * val (vz' ! i) + ex P2 * val (rz' ! i) - ex (gs ! i) * val c')"
    unfolding clear 1(1) inj by blast
  define T where "T = (if anonymous then NewZrFromInt C ((val t1 - val t2) * d) else HashToZr C ty)"
  define V where "V i = (val (vz ! i) - val (vz' ! i)) * d" for i
  define R where "R i = (val (rz ! i) - val (rz' ! i)) * d" for i
  define os where "os = map (\<lambda>i. (NewZrFromInt C (V i), NewZrFromInt C (R i))) [0..<length gs]"
  have T: "eqq ((val t1 - val t2) * d) (val T)"
  proof (cases anonymous)
    case True
    then show ?thesis using eqq_sym [OF laws(5)] by (simp add: T_def)
  next
    case False
    let ?h = "val (HashToZr C ty)"
    have "eqq ((val t1 - val t2) * d) ((val c * ?h - val c' * ?h) * d)"
      using q1(1) q2(1) False by (intro eqq_mult eqq_diff eqq_refl) auto
    also have "(val c * ?h - val c' * ?h) * d = (val c - val c') * d * ?h" by (simp add: algebra_simps)
    also have "eqq \<dots> (1 * ?h)" by (rule eqq_mult [OF d eqq_refl])
    finally show ?thesis using False by (simp add: T_def)
  qed
  have "list_all2 (opens C [Some P0, Some P1, Some P2] T) gs os"
  proof (rule list_all2_all_nthI)
    fix i assume i: "i < length gs"
    have "eqq (ex (gs ! i)) (ex P0 * ((val t1 - val t2) * d) + ex P1 * V i + ex P2 * R i)"
      using difference [OF q1(2) [OF i] q2(2) [OF i] d] by (simp add: V_def R_def algebra_simps)
    also have "eqq \<dots> (ex P0 * val T + ex P1 * val (NewZrFromInt C (V i)) + ex P2 * val (NewZrFromInt C (R i)))"
      by (intro eqq_add eqq_mult eqq_refl T eqq_sym [OF laws(5)])
    finally show "opens C [Some P0, Some P1, Some P2] T (gs ! i) (os ! i)"
      using i by (simp add: os_def opens_iff)
  qed (simp add: os_def)
  moreover have "zr_quotients C val d (iwValues pf, iwBlindingFactors pf) (iwValues pf', iwBlindingFactors pf') = os"
    using 1 2 by (auto simp: zr_quotients_def zr_quotient_def os_def m1 m2 V_def R_def intro!: nth_equalityI)
  moreover have "(if anonymous then zr_quotient C val d (iwType pf) (iwType pf') else HashToZr C ty) = T" if "gs \<noteq> []"
    using that m1(3) m2(3) by (simp add: T_def zr_quotient_def)
  ultimately show ?thesis
    using 1(1) by (cases "gs = []") (auto simp: os_def)
qed


subsection \<open>The honest issuer\<close>

lemma issue_ex:
  assumes "length vz = length gs" and "length rz = length gs"
    and "iwValues pf = map Some vz" and "iwBlindingFactors pf = map Some rz"
    and "iwChallenge pf = Some cz" and "anonymous \<Longrightarrow> iwType pf \<noteq> None"
  shows "\<exists>coms. issue_recompute (NewIssueVerifier (map Some gs) anonymous [Some P0, Some P1, Some P2] (Some C)) pf = Inr coms"
proof -
  let ?v = "\<lparr>svPedParams = [Some P0, Some P1, Some P2], svCurve = Some C\<rparr>"
  obtain n where n: "GroupOrder C = Some n" using order by metis
  obtain m where "mod_mul C (Some cz) (Some (HashToZr C (TypeInTheClear pf))) = Inr m"
    using mod_mul_ok by blast
  then obtain ty where ty: "(if anonymous then Inr (iwType pf)
      else rbind (mod_mul C (Some cz) (Some (HashToZr C (TypeInTheClear pf)))) (\<lambda>t. Inr (Some t))) = Inr (Some ty)"
    using assms(6) by (cases anonymous) auto
  have R: "\<exists>com. RecomputeCommitment ?v \<lparr>spStatement = Some st, spProof = [Some a, Some b, Some c], spChallenge = Some ch\<rparr> = Inr com"
    for st a b c ch
    using Recompute_ex [of ?v "[P0, P1, P2]" "[a, b, c]"] by simp
  have ex: "\<exists>coms. rmap f xs = Inr coms" if "\<And>x. x \<in> set xs \<Longrightarrow> \<exists>y. f x = Inr y" for f :: "'x \<Rightarrow> 'y res" and xs
    using that
  proof (induction xs)
    case (Cons x xs)
    then obtain y ys where "f x = Inr y" "rmap f xs = Inr ys" by (metis list.set_intros)
    then show ?case by simp
  qed simp
  let ?zs = "map (\<lambda>(g, x, y). \<lparr>spStatement = Some g, spProof = [Some ty, Some x, Some y], spChallenge = None\<rparr>)
      (zip gs (zip vz rz))"
  have "rmap (\<lambda>(t, x, r). case t of
          None \<Rightarrow> Inl (Err ''well-formedness proof not well formed:  output token is nil'')
        | Some g \<Rightarrow> Inr \<lparr>spStatement = Some g, spProof = [Some ty, x, r], spChallenge = None\<rparr>)
      (zip (map Some gs) (zip (map Some vz) (map Some rz))) = Inr ?zs"
    using assms(1,2)
  proof (induction gs arbitrary: vz rz)
    case (Cons g gs)
    then obtain v vs y ys where "vz = v # vs" "rz = y # ys" by (cases vz; cases rz) auto
    with Cons show ?case by simp
  qed simp
  then have "issue_parseProof (NewIssueVerifier (map Some gs) anonymous [Some P0, Some P1, Some P2] (Some C)) pf = Inr ?zs"
    using ty n assms by (simp add: issue_parseProof_def NewIssueVerifier_def)
  moreover have "\<exists>coms. RecomputeCommitments ?v ?zs (Some cz) = Inr coms"
    unfolding RecomputeCommitments_def by (rule ex) (auto simp: R)
  ultimately show ?thesis by (simp add: issue_recompute_def NewIssueVerifier_def assms(5))
qed

lemma issue_commitment_value:
  assumes "length (irBlindingFactors rs) = length (irValues rs)" and "i < length (irValues rs)"
  shows "eqq (ex (issue_commitments C P0 P1 P2 rs ! i))
    (ex P0 * (case irType rs of None \<Rightarrow> 0 | Some t \<Rightarrow> val t) + ex P1 * val (irValues rs ! i)
      + ex P2 * val (irBlindingFactors rs ! i))"
proof -
  let ?Q = "case irType rs of None \<Rightarrow> NewG1 C | Some t \<Rightarrow> G1_Mul C P0 t"
  have Q: "eqq (ex ?Q) (ex P0 * (case irType rs of None \<Rightarrow> 0 | Some t \<Rightarrow> val t))"
    by (auto simp: laws split: option.split)
  have "eqq (ex (G1_Add C (G1_Add C (G1_Mul C P1 v) (G1_Mul C P2 b)) ?Q))
      (ex P1 * val v + ex P2 * val b + ex P0 * (case irType rs of None \<Rightarrow> 0 | Some t \<Rightarrow> val t))" for v b
    by (rule eqq_trans [OF laws(2)], intro eqq_add Q, rule eqq_trans [OF laws(2)]) (intro eqq_add laws)
  from this [of "irValues rs ! i" "irBlindingFactors rs ! i"] assms show ?thesis
    by (simp add: issue_commitments_def Let_def add_ac)
qed

lemma honest_issue:
  assumes toks: "list_all2 (opens C [Some P0, Some P1, Some P2] (HashToZr C ty)) toks os" and ne: "os \<noteq> []"
    and p: "p = NewIssueProver (map (\<lambda>(v, bf). Some \<lparr>twType = ty, twValue = Some v, twBlindingFactor = Some bf\<rparr>) os)
      (map Some toks) anonymous [Some P0, Some P1, Some P2] (Some C)"
  shows "\<exists>pf. issue_prove (Inr r) p = Inr pf
    \<and> issue_check (NewIssueVerifier (map Some toks) anonymous [Some P0, Some P1, Some P2] (Some C)) pf = Inr ()"
proof -
  let ?n = "length toks"
  let ?ws = "map (\<lambda>(v, bf). \<lparr>twType = ty, twValue = Some v, twBlindingFactor = Some bf\<rparr>) os"
  have len: "length os = ?n" using toks by (auto dest: list_all2_lengthD)
  define rs where "rs = issue_randomness r anonymous ?n"
  have lr: "length (irValues rs) = ?n" "length (irBlindingFactors rs) = ?n"
    and rt: "irType rs = (if anonymous then Some (r 0) else None)"
    by (simp_all add: rs_def issue_randomness_def Let_def)
  define cs where "cs = issue_commitments C P0 P1 P2 rs"
  have lc: "length cs = ?n" by (simp add: cs_def issue_commitments_def Let_def lr)
  define chal where "chal = HashToZr C (concat (map (G1_Bytes C) (cs @ toks)))"
  obtain vz where vz: "prove (Some C) chal (map Some (map fst os)) (map Some (irValues rs)) = Inr vz" "length vz = ?n"
    "\<And>i. i < ?n \<Longrightarrow> eqq (val (vz ! i)) (val chal * val (fst (os ! i)) + val (irValues rs ! i))"
    using prove_value [of "map fst os" "irValues rs" chal] len lr by auto
  obtain rz where rz: "prove (Some C) chal (map Some (map snd os)) (map Some (irBlindingFactors rs)) = Inr rz" "length rz = ?n"
    "\<And>i. i < ?n \<Longrightarrow> eqq (val (rz ! i)) (val chal * val (snd (os ! i)) + val (irBlindingFactors rs ! i))"
    using prove_value [of "map snd os" "irBlindingFactors rs" chal] len lr by auto
  define \<rho> where "\<rho> = (case irType rs of None \<Rightarrow> 0 | Some t \<Rightarrow> val t)"
  let ?h = "val (HashToZr C ty)"
  obtain to where to: "issue_type_proof C p rs chal = Inr (to, if anonymous then [] else ty)"
    and tv: "anonymous \<longrightarrow> (\<exists>t. to = Some t \<and> eqq (val t) (val chal * ?h + \<rho>))"
  proof (cases anonymous)
    case True
    obtain m where m: "mod_mul C (Some chal) (Some (HashToZr C ty)) = Inr m" "eqq (val m) (val chal * ?h)"
      using mod_mul_ok by blast
    obtain t where t: "mod_add C (Some m) (Some (r 0)) = Inr t" "eqq (val t) (val m + val (r 0))"
      using mod_add_ok by blast
    have "eqq (val t) (val chal * ?h + val (r 0))" by (rule eqq_trans [OF t(2)]) (intro eqq_add m eqq_refl)
    with that [of "Some t"] m t True ne rt show ?thesis
      by (cases os) (auto simp: issue_type_proof_def p NewIssueProver_def at_def \<rho>_def)
  next
    case False
    with that [of None] ne show ?thesis
      by (cases os) (auto simp: issue_type_proof_def p NewIssueProver_def at_def)
  qed
  let ?pf = "\<lparr>iwType = to, iwValues = map Some vz, iwBlindingFactors = map Some rz,
    TypeInTheClear = (if anonymous then [] else ty), iwChallenge = Some chal\<rparr>"
  obtain n where n: "GroupOrder C = Some n" using order by metis
  have ws: "rmap (\<lambda>w. case w of None \<Rightarrow> Inl (Err ''computation of well-formedness proof failed: invalid witness'')
      | Some w' \<Rightarrow> Inr w') (ipWitness p) = Inr ?ws"
    unfolding p NewIssueProver_def IssueProver.simps by (induction os) (auto split: prod.split)
  have "map twValue ?ws = map Some (map fst os)" "map twBlindingFactor ?ws = map Some (map snd os)"
    by (auto split: prod.split)
  then have "issue_computeProof C p rs chal = Inr ?pf"
    using n to ws vz(1) rz(1) by (simp add: issue_computeProof_def del: map_map)
  moreover have "G1Array_Bytes C (GetG1Array [map Some cs, map Some toks]) = Inr (concat (map (G1_Bytes C) (cs @ toks)))"
    using G1Array_Bytes_concat [of C "cs @ toks"] by (simp add: GetG1Array_def)
  ultimately have prove: "issue_prove (Inr r) p = Inr ?pf"
    by (simp add: issue_prove_def issue_computeCommitments_def p NewIssueProver_def rs_def [symmetric]
        cs_def [symmetric] Let_def chal_def)
  obtain coms where coms: "issue_recompute (NewIssueVerifier (map Some toks) anonymous [Some P0, Some P1, Some P2] (Some C)) ?pf = Inr coms"
    using issue_ex [OF vz(2) rz(2), of ?pf chal anonymous P0 P1 P2] tv by auto
  have inj: "map Some xs = map Some ys \<longleftrightarrow> xs = ys" for xs ys :: "'y list"
    by (simp add: inj_map_eq_map)
  from issue_side [OF coms, of chal] obtain ty' where s: "length coms = ?n"
    "\<not> anonymous \<longrightarrow> eqq (val ty') (val chal * ?h)" "anonymous \<and> toks \<noteq> [] \<longrightarrow> to = Some ty'"
    "\<And>i. i < ?n \<Longrightarrow> eqq (ex (coms ! i))
       (ex P0 * val ty' + ex P1 * val (vz ! i) + ex P2 * val (rz ! i) - ex (toks ! i) * val chal)"
    by (auto simp: inj)
  have nt: "toks \<noteq> []" using ne len by auto
  have T: "eqq (val ty') (val chal * ?h + \<rho>)"
    using s(2,3) tv nt rt by (cases anonymous) (auto simp: \<rho>_def)
  have "map (G1_Bytes C) coms = map (G1_Bytes C) cs"
  proof (rule bytes_cong)
    fix i assume "i < length coms"
    then have i: "i < ?n" using s(1) by simp
    have x: "eqq (ex (toks ! i)) (ex P0 * ?h + ex P1 * val (fst (os ! i)) + ex P2 * val (snd (os ! i)))"
      using list_all2_nthD [OF toks i] by (cases "os ! i") (simp add: opens_iff)
    have "eqq (ex P0 * val ty' + ex P1 * val (vz ! i) + ex P2 * val (rz ! i) - ex (toks ! i) * val chal)
       (ex P0 * (val chal * ?h + \<rho>) + ex P1 * (val chal * val (fst (os ! i)) + val (irValues rs ! i))
        + ex P2 * (val chal * val (snd (os ! i)) + val (irBlindingFactors rs ! i))
        - (ex P0 * ?h + ex P1 * val (fst (os ! i)) + ex P2 * val (snd (os ! i))) * val chal)"
      by (intro eqq_diff eqq_add eqq_mult eqq_refl T vz rz x i)
    also have "\<dots> = ex P0 * \<rho> + ex P1 * val (irValues rs ! i) + ex P2 * val (irBlindingFactors rs ! i)"
      by (simp add: algebra_simps)
    also have "eqq \<dots> (ex (cs ! i))"
      unfolding cs_def \<rho>_def by (rule eqq_sym [OF issue_commitment_value]) (simp_all add: lr i)
    finally show "eqq (ex (coms ! i)) (ex (cs ! i))" by (rule eqq_trans [OF s(4) [OF i]])
  qed (simp add: s(1) lc)
  then have "G1Array_Bytes C (GetG1Array [map Some coms, map Some toks]) = Inr (concat (map (G1_Bytes C) (cs @ toks)))"
    using G1Array_Bytes_concat [of C "coms @ toks"] by (simp add: GetG1Array_def)
  then have "issue_check (NewIssueVerifier (map Some toks) anonymous [Some P0, Some P1, Some P2] (Some C)) ?pf = Inr ()"
    using coms by (simp add: issue_check_def NewIssueVerifier_def chal_def laws(6))
  with prove show ?thesis by blast
qed

end

text \<open>
  C9: special soundness of the proof of an issue. Let the verifier accept two proofs for the same
  tokens, of which the second when the hash function answers the bytes that are hashed differently,
  let both name the same type in the clear (or none), and let the verifier recompute the same
  commitments from both. Then the differences of the responses for the values and the blinding
  factors, over the difference of the two challenges, open every token. The type they open to is
  the one that is named in the clear, unless the issuer is anonymous: then it is the quotient of
  the responses for the type, the same for all tokens. So whoever can answer two challenges knows
  the values of the tokens issued.
\<close>

theorem issue_proof_sound:
  assumes "prime_group C q val ex"
    and "V = NewIssueVerifier tokens anonymous [Some P0, Some P1, Some P2]"
    and "issue_check (V (Some C)) pa = Inr ()"
    and "issue_check (V (Some (C\<lparr>HashToZr := (HashToZr C)(raw := e)\<rparr>))) pb = Inr ()"
    and "issue_recompute (V (Some C)) pa = Inr coms" and "issue_recompute (V (Some C)) pb = Inr coms"
    and "G1Array_Bytes C (GetG1Array [map Some coms, tokens]) = Inr raw"
    and "TypeInTheClear pa = ty" and "TypeInTheClear pb = ty" and "ty \<noteq> raw"
    and "(val (HashToZr C raw) - val e) * d mod q = 1"
  shows "\<exists>gs. tokens = map Some gs
    \<and> list_all2 (opens C [Some P0, Some P1, Some P2]
        (if anonymous then zr_quotient C val d (iwType pa) (iwType pb) else HashToZr C ty)) gs
        (zr_quotients C val d (iwValues pa, iwBlindingFactors pa) (iwValues pb, iwBlindingFactors pb))"
proof -
  note P = prime_curve.intro [OF assms(1)]
  note eq = prime_curve.eqq_def [OF P]
  note check = prime_curve.issue_check_challenge [OF P, where pp = "[Some P0, Some P1, Some P2]" and tokens = tokens
    and anonymous = anonymous and coms = coms and raw = raw]
  have "\<exists>c. iwChallenge pa = Some c \<and> val (HashToZr C raw) mod q = val c mod q"
    using check [where h = "HashToZr C" and pf = pa] assms(3,5,7) unfolding eq assms(2) by simp
  then obtain ca where ca: "iwChallenge pa = Some ca" "val (HashToZr C raw) mod q = val ca mod q" by blast
  have "\<exists>c. iwChallenge pb = Some c \<and> val e mod q = val c mod q"
    using check [where h = "(HashToZr C)(raw := e)" and pf = pb] assms(4,6,7,9,10) unfolding eq assms(2) by simp
  then obtain cb where cb: "iwChallenge pb = Some cb" "val e mod q = val cb mod q" by blast
  have "1 < q" using assms(1) by (simp add: prime_group_def)
  then have "(val ca - val cb) * d mod q = 1 mod q"
    using assms(11) ca(2) cb(2) by (metis mod_diff_cong mod_mult_left_eq mod_pos_pos_trivial zero_le_one)
  from prime_curve.two_issue_proofs [OF P fun_cong [OF assms(2)] assms(5,6) ca(1) cb(1), unfolded eq, OF this assms(8,9)]
  show ?thesis .
qed

definition example_issue_answer :: "int \<Rightarrow> int IssueWellFormedness" where
  "example_issue_answer c =
     \<lparr>iwType = None, iwValues = [Some c, Some (2 * c)], iwBlindingFactors = [Some c, Some (4 * c)],
      TypeInTheClear = ''a'', iwChallenge = Some c\<rparr>"

abbreviation example_issue_verifier :: "(int, int, int, int) curve option \<Rightarrow> (int, int, int, int) IssueVerifier" where
  "example_issue_verifier \<equiv> NewIssueVerifier [Some 1, Some 2] False [Some 1, Some 2, Some 3]"

lemma example_issue_answers:
  "issue_check (example_issue_verifier (Some example_curve)) (example_issue_answer 3) = Inr ()"
  "issue_check (example_issue_verifier (Some (example_curve\<lparr>HashToZr := (HashToZr example_curve)(''111'' := 0)\<rparr>)))
    (example_issue_answer 0) = Inr ()"
  "issue_recompute (example_issue_verifier (Some example_curve)) (example_issue_answer 3) = Inr [0, 0]"
  "issue_recompute (example_issue_verifier (Some example_curve)) (example_issue_answer 0) = Inr [0, 0]"
  "G1Array_Bytes example_curve (GetG1Array [map Some [0, 0], [Some 1, Some 2]]) = Inr ''111''"
  "TypeInTheClear (example_issue_answer 3) = ''a''" "TypeInTheClear (example_issue_answer 0) = ''a''"
  "(''a'' :: string) \<noteq> ''111''"
  "(HashToZr example_curve ''111'' - 0) * 2 mod 5 = 1"
  by code_simp+

text \<open>Tokens of the values 1 and 2 of the type whose hash is 1.\<close>

lemma issue_proof_sound_witness:
  "list_all2 (opens example_curve [Some 1, Some 2, Some 3] 1) [1, 2] [(1, 1), (2, 4)]"
proof -
  have q: "HashToZr example_curve ''a'' = 1"
    "zr_quotients example_curve (\<lambda>z. z) 2 (iwValues (example_issue_answer 3), iwBlindingFactors (example_issue_answer 3))
      (iwValues (example_issue_answer 0), iwBlindingFactors (example_issue_answer 0)) = [(1, 1), (2, 4)]"
    by code_simp+
  from issue_proof_sound [OF example_group refl example_issue_answers]
  show ?thesis unfolding if_False q by (auto simp: Cons_eq_map_conv)
qed

text \<open>
  C11: An issuer that knows openings of the tokens it issues, of one type, obtains a proof,
  whatever elements it draws and whether or not it is anonymous, and the verifier accepts it.
\<close>

theorem honest_issue_verifies:
  assumes "prime_group C q val ex" and "os \<noteq> []"
    and "list_all2 (opens C [Some P0, Some P1, Some P2] (HashToZr C ty)) toks os"
  shows "\<exists>pf. issue_prove (Inr r)
      (NewIssueProver (map (\<lambda>(v, bf). Some \<lparr>twType = ty, twValue = Some v, twBlindingFactor = Some bf\<rparr>) os)
        (map Some toks) anonymous [Some P0, Some P1, Some P2] (Some C)) = Inr pf
    \<and> issue_check (NewIssueVerifier (map Some toks) anonymous [Some P0, Some P1, Some P2] (Some C)) pf = Inr ()"
  by (rule prime_curve.honest_issue [OF prime_curve.intro, OF assms(1,3,2) refl])

lemma honest_issue_verifies_witness:
  "\<exists>pf. issue_prove (Inr int)
      (NewIssueProver [Some \<lparr>twType = ''a'', twValue = Some 1, twBlindingFactor = Some 1\<rparr>,
        Some \<lparr>twType = ''a'', twValue = Some 2, twBlindingFactor = Some 4\<rparr>]
        [Some 1, Some 2] True [Some 1, Some 2, Some 3] (Some example_curve)) = Inr pf
    \<and> issue_check (NewIssueVerifier [Some 1, Some 2] True [Some 1, Some 2, Some 3] (Some example_curve)) pf = Inr ()"
  using honest_issue_verifies [OF example_group _ example_openings(2), of int True] by simp

end
